(* ===== verification/Totem_Prelude.thy ===== *)
theory Totem_Prelude
  imports Main "HOL-Library.AList" "HOL-Library.Char_ord" "HOL-Library.List_Lexorder"
begin

text \<open>
  Shared vocabulary of the development: Python dictionaries as association lists in
  insertion order (an update keeps the place of its key, a new key goes last, which is what
  \<^const>\<open>AList.update\<close> does), first-occurrence deduplication, string joins and splits,
  the result type of code that raises, and the fact collections the component proofs use.
\<close>

named_theorems dict_simps \<open>lookup and update of dictionaries\<close>
named_theorems guard_defs \<open>definitions of the guards a handler evaluates\<close>

subsection \<open>Results of code that may raise\<close>

text \<open>\<open>Inl e\<close> is the raised exception, \<open>Inr v\<close> the returned value.\<close>

definition result_bind :: "'e + 'a \<Rightarrow> ('a \<Rightarrow> 'e + 'b) \<Rightarrow> 'e + 'b" where
  "result_bind r f = (case r of Inl e \<Rightarrow> Inl e | Inr v \<Rightarrow> f v)"

lemma result_bind_simps [simp]:
  "result_bind (Inl e) f = Inl e"
  "result_bind (Inr v) f = f v"
  by (simp_all add: result_bind_def)

lemma result_bind_eq_Inr [simp]:
  "result_bind r f = Inr v \<longleftrightarrow> (\<exists>u. r = Inr u \<and> f u = Inr v)"
  by (cases r) auto

text \<open>A loop that stops at the first exception.\<close>

fun result_map :: "('a \<Rightarrow> 'e + 'b) \<Rightarrow> 'a list \<Rightarrow> 'e + 'b list" where
  "result_map f [] = Inr []"
| "result_map f (x # xs) =
     result_bind (f x) (\<lambda>y. result_bind (result_map f xs) (\<lambda>ys. Inr (y # ys)))"

lemma result_map_Inr:
  "result_map f xs = Inr ys \<Longrightarrow> length ys = length xs \<and> (\<forall>(x, y) \<in> set (zip xs ys). f x = Inr y)"
  by (induction xs arbitrary: ys) auto

lemma result_map_mem:
  "result_map f xs = Inr ys \<Longrightarrow> x \<in> set xs \<Longrightarrow> \<exists>y \<in> set ys. f x = Inr y"
  "result_map f xs = Inr ys \<Longrightarrow> y \<in> set ys \<Longrightarrow> \<exists>x \<in> set xs. f x = Inr y"
  by (induction xs arbitrary: ys) auto

fun is_inr :: "'e + 'a \<Rightarrow> bool" where
  "is_inr (Inl e) = False"
| "is_inr (Inr v) = True"

subsection \<open>Dictionaries\<close>

abbreviation dict_get :: "('k \<times> 'v) list \<Rightarrow> 'k \<Rightarrow> 'v option" where
  "dict_get \<equiv> map_of"

abbreviation dict_put :: "'k \<Rightarrow> 'v \<Rightarrow> ('k \<times> 'v) list \<Rightarrow> ('k \<times> 'v) list" where
  "dict_put \<equiv> AList.update"

abbreviation dict_keys :: "('k \<times> 'v) list \<Rightarrow> 'k list" where
  "dict_keys d \<equiv> map fst d"

lemma dict_get_put [dict_simps, simp]:
  "dict_get (dict_put k v d) x = (if x = k then Some v else dict_get d x)"
  by (simp add: update_conv)

lemma dict_keys_put [dict_simps]:
  "set (dict_keys (dict_put k v d)) = insert k (set (dict_keys d))"
  by (induction d) auto

lemma distinct_dict_put [dict_simps, intro]:
  "distinct (dict_keys d) \<Longrightarrow> distinct (dict_keys (dict_put k v d))"
  by (rule distinct_update)

lemma dict_get_None_keys [dict_simps]:
  "dict_get d k = None \<longleftrightarrow> k \<notin> set (dict_keys d)"
  by (force simp: map_of_eq_None_iff)

text \<open>\<open>d.update(new)\<close>.\<close>

definition dict_update :: "('k \<times> 'v) list \<Rightarrow> ('k \<times> 'v) list \<Rightarrow> ('k \<times> 'v) list" where
  "dict_update new d = fold (\<lambda>(k, i). dict_put k i) new d"

lemma dict_update_Nil [simp]: "dict_update [] d = d"
  by (simp add: dict_update_def)

lemma dict_update_Cons [simp]: "dict_update ((k, i) # new) d = dict_update new (dict_put k i d)"
  by (simp add: dict_update_def)

lemma dict_put_fresh: "k \<notin> set (dict_keys d) \<Longrightarrow> dict_put k i d = d @ [(k, i)]"
  by (induction d) auto

lemma dict_update_fresh: "distinct (dict_keys d @ dict_keys new) \<Longrightarrow> dict_update new d = d @ new"
proof (induction new arbitrary: d)
  case (Cons p new)
  obtain k i where p: "p = (k, i)" by force
  from Cons.prems have "dict_put k i d = d @ [(k, i)]" by (intro dict_put_fresh) (auto simp: p)
  with Cons.IH [of "d @ [(k, i)]"] Cons.prems show ?case by (simp add: p)
qed simp

lemma dict_get_update_other: "k \<notin> set (dict_keys new) \<Longrightarrow> dict_get (dict_update new d) k = dict_get d k"
  by (induction new arbitrary: d) auto

lemma dict_get_update: "dict_get (dict_update new d) k = (case dict_get (rev new) k of None \<Rightarrow> dict_get d k | Some i \<Rightarrow> Some i)"
proof (induction new arbitrary: d)
  case (Cons p new)
  obtain j i where "p = (j, i)" by force
  with Cons show ?case by (auto split: option.splits simp: map_of_append map_add_def)
qed simp

lemma dict_get_rev: "distinct (dict_keys d) \<Longrightarrow> dict_get (rev d) k = dict_get d k"
proof (induction d)
  case (Cons p d)
  obtain j i where p: "p = (j, i)" by force
  with Cons.prems have "dict_get d j = None" by (simp add: map_of_eq_None_iff)
  with Cons p show ?case by (auto simp: map_of_append map_add_def split: option.splits)
qed simp

lemma dict_update_get:
  "distinct (dict_keys new) \<Longrightarrow>
   dict_get (dict_update new d) k = (case dict_get new k of Some v \<Rightarrow> Some v | None \<Rightarrow> dict_get d k)"
  by (simp add: dict_get_update dict_get_rev split: option.split)

lemma keys_dict_update: "set (dict_keys (dict_update new d)) = set (dict_keys d) \<union> set (dict_keys new)"
proof (induction new arbitrary: d)
  case (Cons p new)
  obtain k i where p: "p = (k, i)" by force
  show ?case unfolding p dict_update_Cons Cons.IH dict_keys_put by auto
qed simp

lemma distinct_dict_update: "distinct (dict_keys d) \<Longrightarrow> distinct (dict_keys (dict_update new d))"
  by (induction new arbitrary: d) (auto simp: distinct_dict_put)

lemma put_other_kept: "k \<notin> K \<Longrightarrow> filter (\<lambda>(j, i). j \<in> K) (dict_put k i d) = filter (\<lambda>(j, i). j \<in> K) d"
  by (induction d) auto

lemma update_other_kept:
  "set (dict_keys new) \<inter> K = {} \<Longrightarrow> filter (\<lambda>(j, i). j \<in> K) (dict_update new d) = filter (\<lambda>(j, i). j \<in> K) d"
proof (induction new arbitrary: d)
  case (Cons p new)
  obtain k i where "p = (k, i)" by force
  with Cons show ?case by (auto simp: put_other_kept)
qed simp

subsection \<open>Lists\<close>

text \<open>\<open>list(dict.fromkeys(xs))\<close>: each value at its first place.\<close>

fun uniq :: "'a list \<Rightarrow> 'a list" where
  "uniq [] = []"
| "uniq (x # xs) = x # filter (\<lambda>y. y \<noteq> x) (uniq xs)"

lemma set_uniq [simp]: "set (uniq xs) = set xs"
  by (induction xs) auto

lemma distinct_uniq [simp]: "distinct (uniq xs)"
  by (induction xs) (auto intro: distinct_filter)

lemma uniq_distinct [simp]: "distinct xs \<Longrightarrow> uniq xs = xs"
proof (induction xs)
  case Nil
  then show ?case by simp
next
  case (Cons x xs)
  then show ?case by (auto simp: filter_id_conv)
qed

lemma length_uniq_le: "length (uniq xs) \<le> length xs"
proof (induction xs)
  case (Cons x xs)
  have "length (filter (\<lambda>y. y \<noteq> x) (uniq xs)) \<le> length (uniq xs)" by simp
  from le_trans [OF this Cons.IH] show ?case by simp
qed simp

lemma mem_map_filter: "y \<in> set (List.map_filter g xs) \<longleftrightarrow> (\<exists>x \<in> set xs. g x = Some y)"
  by (auto simp: List.map_filter_def image_iff)

lemma find_Some_iff_mem: "find P xs = Some x \<Longrightarrow> x \<in> set xs \<and> P x"
  by (induction xs) (auto split: if_splits)

lemma find_None_mem: "find P xs = None \<longleftrightarrow> (\<forall>x \<in> set xs. \<not> P x)"
  by (induction xs) auto

lemma distinct_map_unique:
  "distinct (map f xs) \<Longrightarrow> x \<in> set xs \<Longrightarrow> y \<in> set xs \<Longrightarrow> f x = f y \<Longrightarrow> x = y"
  by (metis distinct_map inj_onD)

lemma distinct_constant: "distinct xs \<Longrightarrow> \<forall>x \<in> set xs. x = y \<Longrightarrow> xs \<in> {[], [y]}"
  by (cases xs; cases "tl xs") auto

lemma find_unique:
  "distinct (map f xs) \<Longrightarrow> x \<in> set xs \<Longrightarrow> find (\<lambda>y. f y = f x) xs = Some x"
proof (induction xs)
  case (Cons a xs)
  show ?case
  proof (cases "f a = f x")
    case True
    with Cons.prems have "a = x" by (intro distinct_map_unique [of f "a # xs"]) auto
    then show ?thesis by simp
  next
    case False
    with Cons show ?thesis by auto
  qed
qed simp

subsection \<open>Strings\<close>

text \<open>\<open>sep.join(parts)\<close>.\<close>

fun str_join :: "string \<Rightarrow> string list \<Rightarrow> string" where
  "str_join sep [] = []"
| "str_join sep [x] = x"
| "str_join sep (x # y # ys) = x @ sep @ str_join sep (y # ys)"

text \<open>\<open>s.split(c)\<close> for a single character: never empty, empty parts kept.\<close>

fun split_on :: "(char \<Rightarrow> bool) \<Rightarrow> string \<Rightarrow> string list" where
  "split_on P [] = [[]]"
| "split_on P (x # xs) =
     (if P x then [] # split_on P xs
      else (case split_on P xs of [] \<Rightarrow> [[x]] | p # ps \<Rightarrow> (x # p) # ps))"

definition str_split :: "char \<Rightarrow> string \<Rightarrow> string list" where
  "str_split c s = split_on (\<lambda>x. x = c) s"

text \<open>\<open>s.split()\<close>: on runs of white space, empty parts dropped. These are the characters
  below U+0100 for which \<open>str.isspace\<close> holds.\<close>

definition is_space :: "char \<Rightarrow> bool" where
  "is_space c \<longleftrightarrow> c \<in> set [CHR '' '', CHR 0x09, CHR 0x0A, CHR 0x0B, CHR 0x0C, CHR 0x0D,
     CHR 0x1C, CHR 0x1D, CHR 0x1E, CHR 0x1F, CHR 0x85, CHR 0xA0]"

definition str_words :: "string \<Rightarrow> string list" where
  "str_words s = filter (\<lambda>w. w \<noteq> []) (split_on is_space s)"

lemma split_on_not_Nil [simp]: "split_on P s \<noteq> []"
  by (cases s) (auto split: list.splits)

lemma split_on_no_sep: "\<forall>x \<in> set s. \<not> P x \<Longrightarrow> split_on P s = [s]"
  by (induction s) auto

lemma split_on_append_sep:
  "\<forall>x \<in> set s. \<not> P x \<Longrightarrow> P c \<Longrightarrow> split_on P (s @ c # t) = s # split_on P t"
  by (induction s) auto

lemma split_on_join:
  "xs \<noteq> [] \<Longrightarrow> \<forall>x \<in> set xs. \<forall>y \<in> set x. \<not> P y \<Longrightarrow> P c \<Longrightarrow> split_on P (str_join [c] xs) = xs"
  by (induction "[c]" xs rule: str_join.induct) (auto simp: split_on_no_sep split_on_append_sep)

lemma str_words_join:
  assumes "\<forall>x \<in> set xs. (\<forall>c \<in> set x. \<not> is_space c) \<and> x \<noteq> []"
  shows "str_words (str_join '' '' xs) = xs"
proof (cases xs)
  case Nil
  then show ?thesis by (simp add: str_words_def)
next
  case (Cons y ys)
  with assms have "split_on is_space (str_join '' '' xs) = xs"
    by (intro split_on_join) (auto simp: is_space_def)
  with assms show ?thesis by (simp add: str_words_def filter_id_conv)
qed

text \<open>\<open>s.startswith(p)\<close> and \<open>s.endswith(p)\<close>.\<close>

fun starts_with :: "string \<Rightarrow> string \<Rightarrow> bool" where
  "starts_with [] s = True"
| "starts_with (p # ps) [] = False"
| "starts_with (p # ps) (x # xs) = (p = x \<and> starts_with ps xs)"

text \<open>\<open>pat in s\<close>.\<close>

fun occurs_in :: "string \<Rightarrow> string \<Rightarrow> bool" where
  "occurs_in pat [] \<longleftrightarrow> pat = []"
| "occurs_in pat (c # s) \<longleftrightarrow> starts_with pat (c # s) \<or> occurs_in pat s"

text \<open>\<open>str.upper\<close> of one character, in ASCII.\<close>

definition upper_char :: "char \<Rightarrow> char" where
  "upper_char c = (if 97 \<le> (of_char c :: nat) \<and> of_char c \<le> (122 :: nat) then char_of (of_char c - (32 :: nat)) else c)"

definition ends_with :: "string \<Rightarrow> string \<Rightarrow> bool" where
  "ends_with p s = starts_with (rev p) (rev s)"

lemma starts_with_iff: "starts_with p s \<longleftrightarrow> (\<exists>t. s = p @ t)"
  by (induction p s rule: starts_with.induct) auto

lemma ends_with_iff: "ends_with p s \<longleftrightarrow> (\<exists>t. s = t @ p)"
proof
  assume "ends_with p s"
  then obtain t where "rev s = rev p @ t" by (auto simp: ends_with_def starts_with_iff)
  then have "s = rev t @ p" by (metis rev_append rev_rev_ident)
  then show "\<exists>t. s = t @ p" by blast
next
  assume "\<exists>t. s = t @ p"
  then show "ends_with p s" by (auto simp: ends_with_def starts_with_iff)
qed

text \<open>Python's \<open>v or d\<close> on an optional string: \<open>None\<close> and the empty string are falsy.\<close>

definition str_or :: "string option \<Rightarrow> string \<Rightarrow> string" where
  "str_or v d = (case v of Some (c # cs) \<Rightarrow> c # cs | _ \<Rightarrow> d)"

lemma str_or_simps [simp]:
  "str_or None d = d"
  "str_or (Some s) d = (if s = [] then d else s)"
  by (simp_all add: str_or_def split: list.splits)

lemma image_map_keep:
  "(\<And>x. x \<in> set xs \<Longrightarrow> f (g x) = f x) \<Longrightarrow> f ` set (map g xs) = f ` set xs"
  by (force simp: image_iff)

text \<open>\<open>s.replace(pat, new)\<close>, for a pattern that is not empty.\<close>

function str_replace :: "string \<Rightarrow> string \<Rightarrow> string \<Rightarrow> string" where
  "str_replace pat new s =
     (case s of [] \<Rightarrow> []
      | c # cs \<Rightarrow> if pat \<noteq> [] \<and> starts_with pat s then new @ str_replace pat new (drop (length pat) s)
                  else c # str_replace pat new cs)"
  by pat_completeness auto
termination
  by (relation "measure (\<lambda>(pat, new, s). length s)") auto

declare str_replace.simps [simp del]

text \<open>\<open>str(n)\<close>.\<close>

fun show_digits :: "nat \<Rightarrow> string" where
  "show_digits n = (if n < 10 then [char_of (n + 48)] else show_digits (n div 10) @ [char_of (n mod 10 + 48)])"

declare show_digits.simps [simp del]

text \<open>A reading of decimal numbers, for the witnesses of the code that parses them.\<close>

definition digit :: "char \<Rightarrow> int" where
  "digit c = int (of_char c) - 48"

definition read_digits :: "string \<Rightarrow> int option" where
  "read_digits s = (if s \<noteq> [] \<and> list_all (\<lambda>c. 0 \<le> digit c \<and> digit c \<le> 9) s then Some (fold (\<lambda>c n. n * 10 + digit c) s 0) else None)"

lemma digit_char: "n < 10 \<Longrightarrow> digit (char_of (n + 48)) = int n"
  by (simp add: digit_def)

lemma read_show_digits: "read_digits (show_digits n) = Some (int n)"
proof -
  have "show_digits n \<noteq> [] \<and> list_all (\<lambda>c. 0 \<le> digit c \<and> digit c \<le> 9) (show_digits n)
      \<and> fold (\<lambda>c n. n * 10 + digit c) (show_digits n) 0 = int n" for n
  proof (induction n rule: show_digits.induct)
    case (1 n)
    show ?case
    proof (cases "n < 10")
      case True
      then show ?thesis by (simp add: show_digits.simps [of n] digit_char)
    next
      case False
      have "int (n div 10) * 10 + int (n mod 10) = int n" by (metis mult.commute of_nat_add of_nat_mult of_nat_numeral mult_div_mod_eq)
      with False 1 show ?thesis by (simp add: show_digits.simps [of n] digit_char)
    qed
  qed
  then show ?thesis by (simp add: read_digits_def)
qed

text \<open>\<open>sorted(xs)\<close> of strings compares code points, as \<^const>\<open>sort\<close> does here.\<close>

lemma set_sorted_join_words:
  assumes "\<forall>x \<in> set xs. (\<forall>c \<in> set x. \<not> is_space c) \<and> x \<noteq> []"
  shows "str_words (str_join '' '' (sort xs)) = sort xs"
  by (rule str_words_join) (use assms in simp)

end
