(* ===== verification/Registry.thy ===== *)
theory Registry
  imports Totem_Prelude
begin

text \<open>
  The contract of the registries a declaration enters once, at import time, under a key, to be
  looked up by that key afterwards: permissions and access rules. A registration that would
  shadow an earlier one is refused. The client lemmas are proved once here and instantiated by
  the theory of each registry.
\<close>

text \<open>Importing the modules of the program registers their declarations one by one.\<close>

fun register_all :: "('v \<Rightarrow> 'r \<Rightarrow> 'e + 'r) \<Rightarrow> 'v list \<Rightarrow> 'r \<Rightarrow> 'e + 'r" where
  "register_all reg [] r = Inr r"
| "register_all reg (v # vs) r = result_bind (reg v r) (register_all reg vs)"

locale keyed_registry =
  fixes register :: "'v \<Rightarrow> 'r \<Rightarrow> 'e + 'r"
    and lookup_key :: "'r \<Rightarrow> 'k \<Rightarrow> 'w option"
    and key_of :: "'v \<Rightarrow> 'k"
    and value_of :: "'v \<Rightarrow> 'w"
  assumes register_fresh: "register v r = Inr r' \<Longrightarrow> lookup_key r (key_of v) = None"
    and register_stored:
      "register v r = Inr r' \<Longrightarrow>
       lookup_key r' k = (if k = key_of v then Some (value_of v) else lookup_key r k)"
begin

lemma register_all_keeps:
  "register_all register vs r = Inr r' \<Longrightarrow> lookup_key r k = Some w \<Longrightarrow> lookup_key r' k = Some w"
proof (induction vs arbitrary: r)
  case (Cons v vs)
  then obtain r1 where r1: "register v r = Inr r1" "register_all register vs r1 = Inr r'" by auto
  have "k \<noteq> key_of v" using register_fresh [OF r1(1)] Cons.prems(2) by auto
  with Cons.prems(2) register_stored [OF r1(1)] have "lookup_key r1 k = Some w" by simp
  with Cons.IH r1(2) show ?case by blast
qed simp

lemma register_all_stored:
  "register_all register vs r = Inr r' \<Longrightarrow> v \<in> set vs \<Longrightarrow> lookup_key r' (key_of v) = Some (value_of v)"
proof (induction vs arbitrary: r)
  case (Cons a vs)
  then obtain r1 where r1: "register a r = Inr r1" "register_all register vs r1 = Inr r'" by auto
  show ?case
  proof (cases "v = a")
    case True
    with register_stored [OF r1(1)] have "lookup_key r1 (key_of v) = Some (value_of v)" by simp
    with register_all_keeps [OF r1(2)] show ?thesis .
  next
    case False
    with Cons r1(2) show ?thesis by auto
  qed
qed simp

lemma register_all_distinct:
  "register_all register vs r = Inr r' \<Longrightarrow> distinct (map key_of vs) \<and> (\<forall>v \<in> set vs. lookup_key r (key_of v) = None)"
proof (induction vs arbitrary: r)
  case (Cons a vs)
  then obtain r1 where r1: "register a r = Inr r1" "register_all register vs r1 = Inr r'" by auto
  from Cons.IH [OF r1(2)] have IH: "distinct (map key_of vs)"
      "\<forall>v \<in> set vs. lookup_key r1 (key_of v) = None" by auto
  have new: "key_of v \<noteq> key_of a \<and> lookup_key r (key_of v) = None" if "v \<in> set vs" for v
    using IH(2) that register_stored [OF r1(1), of "key_of v"] by (auto split: if_splits)
  from new have "\<forall>x \<in> set vs. key_of x \<noteq> key_of a" by blast
  then have "key_of a \<notin> key_of ` set vs" by force
  with new show ?case using IH(1) register_fresh [OF r1(1)] by auto
qed simp

lemma register_all_twice:
  "v \<in> set vs \<Longrightarrow> w \<in> set vs \<Longrightarrow> v \<noteq> w \<Longrightarrow> key_of v = key_of w \<Longrightarrow>
   \<not> is_inr (register_all register vs r)"
  using register_all_distinct [of vs r]
  by (cases "register_all register vs r") (auto dest: distinct_map_unique)

end

end
