(* ===== verification/Access_Rights.thy ===== *)
theory Access_Rights
  imports Registry
begin

text \<open>
  The permission registry and the scopes of a user (\<open>user/access_rights.py\<close>), with the
  rows of users and roles (\<open>user/models\<close>) the scopes are read from.
\<close>

subsection \<open>Roles and users\<close>

text \<open>The two array columns are read defensively by the code, hence optional here.\<close>

record role =
  role_id :: string
  role_permissions :: "string list option"
  role_rules :: "string list option"

record user =
  user_pk :: string
  username :: string
  user_type :: string
  is_active :: bool
  last_login :: "int option"
  user_roles :: "role list"

subsection \<open>The registry\<close>

record permission_record =
  permission :: string
  perm_description :: string
  is_public :: bool

type_synonym permissions = "(string \<times> permission_record) list"

datatype improperly_configured =
    AlreadyExists string
  | BadName string

definition is_lower_ascii :: "char \<Rightarrow> bool" where
  "is_lower_ascii c = (CHR ''a'' \<le> c \<and> c \<le> CHR ''z'')"

text \<open>
  \<open>re.match(r"[a-z]{3,}\.[a-z]{3,}\.[a-z]{3,}", name)\<close>: anchored at the start only. A dot is
  no lower case letter, so each run of letters is the longest one.
\<close>

definition permission_regex_match :: "string \<Rightarrow> bool" where
  "permission_regex_match s =
     (let a = takeWhile is_lower_ascii s; r = dropWhile is_lower_ascii s in
      3 \<le> length a \<and>
      (case r of [] \<Rightarrow> False
       | d # r1 \<Rightarrow> d = CHR ''.'' \<and>
          (let b = takeWhile is_lower_ascii r1; r2 = dropWhile is_lower_ascii r1 in
           3 \<le> length b \<and>
           (case r2 of [] \<Rightarrow> False
            | e # r3 \<Rightarrow> e = CHR ''.'' \<and> 3 \<le> length (takeWhile is_lower_ascii r3)))))"

definition register_permission ::
    "permission_record \<Rightarrow> permissions \<Rightarrow> improperly_configured + permissions" where
  "register_permission rec perms =
     (if dict_get perms (permission rec) \<noteq> None then Inl (AlreadyExists (permission rec))
      else if \<not> permission_regex_match (permission rec) then Inl (BadName (permission rec))
      else Inr (dict_put (permission rec) rec perms))"

definition get_all_permission :: "permissions \<Rightarrow> (string \<times> string) list" where
  "get_all_permission perms = map (\<lambda>(p, rec). (p, perm_description rec)) perms"

definition get_public_permission :: "permissions \<Rightarrow> (string \<times> string) list" where
  "get_public_permission perms =
     map (\<lambda>(p, rec). (p, perm_description rec)) (filter (\<lambda>(p, rec). is_public rec) perms)"

definition get_permission_choices :: "permissions \<Rightarrow> (string \<times> string) list" where
  "get_permission_choices perms = map (\<lambda>(p, rec). (p, permission rec)) perms"

definition or_empty :: "'a list option \<Rightarrow> 'a list" where
  "or_empty v = (case v of None \<Rightarrow> [] | Some xs \<Rightarrow> xs)"

definition get_user_scopes :: "user \<Rightarrow> string list" where
  "get_user_scopes u = sort (uniq (concat (map (\<lambda>r. or_empty (role_permissions r)) (user_roles u))))"

subsection \<open>Laws\<close>

interpretation perm_registry:
  keyed_registry register_permission dict_get permission "\<lambda>rec. rec"
  by unfold_locales (auto simp: register_permission_def split: if_splits)

lemma set_get_user_scopes:
  "set (get_user_scopes u) = (\<Union>r \<in> set (user_roles u). set (or_empty (role_permissions r)))"
  by (auto simp: get_user_scopes_def)

lemma get_user_scopes_sorted: "sorted (get_user_scopes u)" "distinct (get_user_scopes u)"
  by (simp_all add: get_user_scopes_def)

text \<open>The registry, once filled: keys are the names of the records they hold, and the public
  permissions are a sublist of all of them.\<close>

definition permissions_wf :: "permissions \<Rightarrow> bool" where
  "permissions_wf perms =
     (distinct (dict_keys perms) \<and>
      (\<forall>(p, rec) \<in> set perms. p = permission rec \<and> permission_regex_match p))"

lemma permissions_wf_empty: "permissions_wf []"
  by (simp add: permissions_wf_def)

lemma permissions_wf_register:
  "permissions_wf perms \<Longrightarrow> register_permission rec perms = Inr perms' \<Longrightarrow> permissions_wf perms'"
  by (auto simp: permissions_wf_def register_permission_def dict_put_fresh dict_get_None_keys map_of_eq_None_iff
      split: if_splits)

lemma permissions_wf_register_all:
  "permissions_wf perms \<Longrightarrow> register_all register_permission recs perms = Inr perms' \<Longrightarrow> permissions_wf perms'"
  by (induction recs arbitrary: perms) (auto dest: permissions_wf_register)

lemma public_permission_subset:
  "set (get_public_permission perms) \<subseteq> set (get_all_permission perms)"
  by (auto simp: get_public_permission_def get_all_permission_def)

text \<open>
  After importing any list of declarations, every declared permission is registered under
  its own name with its own record, no name was declared twice, every name starts like
  \<open>app.model.action\<close>, and an API key may be offered a permission exactly when it was declared
  public.
\<close>

theorem permission_registration_sound:
  assumes "register_all register_permission recs [] = Inr perms"
  shows "distinct (map permission recs)
    \<and> (\<forall>rec \<in> set recs. dict_get perms (permission rec) = Some rec
         \<and> permission_regex_match (permission rec)
         \<and> (permission rec \<in> fst ` set (get_public_permission perms) \<longleftrightarrow> is_public rec))"
proof (intro conjI ballI)
  show "distinct (map permission recs)"
    using perm_registry.register_all_distinct [OF assms] by simp
  fix rec assume rec: "rec \<in> set recs"
  have wf: "permissions_wf perms"
    using permissions_wf_register_all [OF permissions_wf_empty assms] .
  show got: "dict_get perms (permission rec) = Some rec"
    using perm_registry.register_all_stored [OF assms rec] .
  then have mem: "(permission rec, rec) \<in> set perms" by (rule map_of_SomeD)
  with wf show "permission_regex_match (permission rec)"
    by (auto simp: permissions_wf_def)
  show "permission rec \<in> fst ` set (get_public_permission perms) \<longleftrightarrow> is_public rec"
  proof
    assume "permission rec \<in> fst ` set (get_public_permission perms)"
    then obtain rec' where "(permission rec, rec') \<in> set perms" "is_public rec'"
      by (auto simp: get_public_permission_def)
    moreover have "rec' = rec"
      using wf mem calculation(1) by (metis eq_key_imp_eq_value permissions_wf_def)
    ultimately show "is_public rec" by simp
  next
    assume "is_public rec"
    with mem show "permission rec \<in> fst ` set (get_public_permission perms)"
      by (force simp: get_public_permission_def)
  qed
qed

definition read_perm :: permission_record where
  "read_perm = \<lparr>permission = ''totem.user.read'', perm_description = ''Read'', is_public = True\<rparr>"

theorem permission_registration_sound_witness:
  "dict_get [(''totem.user.read'', read_perm)] ''totem.user.read'' = Some read_perm
   \<and> distinct (map permission [read_perm])"
proof -
  have h: "register_all register_permission [read_perm] [] = Inr [(''totem.user.read'', read_perm)]"
    by code_simp
  from permission_registration_sound [OF h] show ?thesis by (simp add: read_perm_def)
qed

end
