(* ===== verification/Tokens.thy ===== *)
theory Tokens
  imports Access_Rights
begin

text \<open>
  The codec of the access tokens (\<open>authentication/tokens.py\<close>), the contract of whatever ends
  up in \<open>request.auth\<close> (\<open>authentication/principal.py\<close>) and the bearer authenticator
  (\<open>authentication/authenticators.py\<close>). PyJWT is a parameter: a record of its two entry
  points, with their documented behaviour as the predicate \<open>jwt_laws\<close>. Instants and durations
  are microseconds.
\<close>

subsection \<open>Claims and the library\<close>

datatype claim = ClaimStr string | ClaimTime int | ClaimInt int

type_synonym claims = "(string \<times> claim) list"

datatype jwt_error = ExpiredSignatureError | InvalidTokenError

record 'tok jwt_lib =
  jwt_encode :: "claims \<Rightarrow> string \<Rightarrow> string \<Rightarrow> 'tok"
  jwt_decode :: "int \<Rightarrow> 'tok \<Rightarrow> string \<Rightarrow> string list \<Rightarrow> string list \<Rightarrow> jwt_error + claims"

record jwt_settings =
  signing_key :: string
  algorithm :: string
  access_lifetime :: int
  refresh_lifetime :: int

datatype token_error = TokenExpired | TokenInvalid

definition ACCESS_TOKEN_TYPE :: string where
  "ACCESS_TOKEN_TYPE = ''access''"

definition REQUIRED_CLAIMS :: "string list" where
  "REQUIRED_CLAIMS = [''exp'', ''iat'', ''sub'', ''typ'', ''jti'', ''db'']"

text \<open>
  What PyJWT documents: a datetime claim is serialised as whole seconds; a token decodes under
  the key and an algorithm it was signed with, once every required claim is there, \<open>exp\<close> is
  still to come and \<open>iat\<close> is not in the future; under another key it does not.
\<close>

definition second :: int where "second = 1000000"

fun jwt_norm_claim :: "claim \<Rightarrow> claim" where
  "jwt_norm_claim (ClaimTime t) = ClaimInt (t div second)"
| "jwt_norm_claim c = c"

definition jwt_norm :: "claims \<Rightarrow> claims" where
  "jwt_norm p = map (\<lambda>(k, v). (k, jwt_norm_claim v)) p"

definition jwt_check :: "int \<Rightarrow> string list \<Rightarrow> claims \<Rightarrow> jwt_error + claims" where
  "jwt_check clock required p =
     (if \<exists>c \<in> set required. map_of p c = None then Inl InvalidTokenError
      else case map_of (jwt_norm p) ''iat'' of
          Some (ClaimInt i) \<Rightarrow>
            (if clock < i * second then Inl InvalidTokenError
             else case map_of (jwt_norm p) ''exp'' of
                 Some (ClaimInt e) \<Rightarrow>
                   (if e * second \<le> clock then Inl ExpiredSignatureError else Inr (jwt_norm p))
               | _ \<Rightarrow> Inl InvalidTokenError)
        | _ \<Rightarrow> Inl InvalidTokenError)"

definition jwt_laws :: "'tok jwt_lib \<Rightarrow> bool" where
  "jwt_laws lib \<longleftrightarrow>
     (\<forall>p key alg key' algs clock required.
        jwt_decode lib clock (jwt_encode lib p key alg) key' algs required =
          (if key' = key \<and> alg \<in> set algs then jwt_check clock required p
           else Inl InvalidTokenError))"

subsection \<open>Encoding and decoding\<close>

definition encode_access_token ::
    "'tok jwt_lib \<Rightarrow> jwt_settings \<Rightarrow> string \<Rightarrow> string \<Rightarrow> string list \<Rightarrow> string option
     \<Rightarrow> int option \<Rightarrow> int \<Rightarrow> string \<Rightarrow> 'tok \<times> int" where
  "encode_access_token lib st current_db user_id scopes db_name ttl now jti =
     (let expires_at = now + (case ttl of None \<Rightarrow> access_lifetime st | Some t \<Rightarrow> t);
          payload =
            [(''sub'', ClaimStr user_id),
             (''typ'', ClaimStr ACCESS_TOKEN_TYPE),
             (''scope'', ClaimStr (str_join '' '' (sort scopes))),
             (''db'', ClaimStr (str_or db_name current_db)),
             (''iat'', ClaimTime now),
             (''exp'', ClaimTime expires_at),
             (''jti'', ClaimStr jti)]
      in (jwt_encode lib payload (signing_key st) (algorithm st), expires_at))"

definition decode_access_token ::
    "'tok jwt_lib \<Rightarrow> jwt_settings \<Rightarrow> string \<Rightarrow> int \<Rightarrow> 'tok \<Rightarrow> string option \<Rightarrow> token_error + claims" where
  "decode_access_token lib st current_db clock token db_name =
     (case jwt_decode lib clock token (signing_key st) [algorithm st] REQUIRED_CLAIMS of
        Inl ExpiredSignatureError \<Rightarrow> Inl TokenExpired
      | Inl InvalidTokenError \<Rightarrow> Inl TokenInvalid
      | Inr claims \<Rightarrow>
          if map_of claims ''typ'' \<noteq> Some (ClaimStr ACCESS_TOKEN_TYPE) then Inl TokenInvalid
          else if map_of claims ''db'' \<noteq> Some (ClaimStr (str_or db_name current_db)) then Inl TokenInvalid
          else Inr claims)"

subsection \<open>Principals\<close>

text \<open>What an authenticator returns: a decoded token of a user, or the row of an API key.\<close>

record api_key =
  key_id :: string
  key_name :: string
  key_hash :: string
  key_scope :: "string list option"
  key_active :: bool
  key_expires :: "int option"

datatype principal =
    AccessToken (token_user: user) (token_scope: string) (token_jti: string) (token_expires: int)
  | ApiKeyPrincipal (principal_key: api_key)

fun principal_user :: "principal \<Rightarrow> user option" where
  "principal_user (AccessToken u s j e) = Some u"
| "principal_user (ApiKeyPrincipal k) = None"

fun principal_scopes :: "principal \<Rightarrow> string set" where
  "principal_scopes (AccessToken u s j e) = set (str_words s)"
| "principal_scopes (ApiKeyPrincipal k) = set (or_empty (key_scope k))"

definition has_scopes :: "principal \<Rightarrow> string list \<Rightarrow> bool" where
  "has_scopes p scopes = (if scopes = [] then True else set scopes \<subseteq> principal_scopes p)"

subsection \<open>The bearer authenticator\<close>

fun claim_str :: "claim \<Rightarrow> string option" where
  "claim_str (ClaimStr s) = Some s"
| "claim_str _ = None"

fun claim_int :: "claim \<Rightarrow> int option" where
  "claim_int (ClaimInt i) = Some i"
| "claim_int _ = None"

text \<open>
  \<open>coerce\<close> is the coercion of \<open>sub\<close> to a primary key, \<open>None\<close> when it raises. A claim of
  another JSON type than the one read is \<open>None\<close> here; the laws above never produce one from a
  token this codec encoded.
\<close>

definition jwt_authenticate ::
    "'tok jwt_lib \<Rightarrow> jwt_settings \<Rightarrow> (string \<Rightarrow> string option) \<Rightarrow> string \<Rightarrow> user list \<Rightarrow> int \<Rightarrow> 'tok
     \<Rightarrow> principal option" where
  "jwt_authenticate lib st coerce current_db users clock token =
     (case decode_access_token lib st current_db clock token None of
        Inl e \<Rightarrow> None
      | Inr claims \<Rightarrow>
          Option.bind (Option.bind (map_of claims ''sub'') claim_str) (\<lambda>sub.
          Option.bind (coerce sub) (\<lambda>pk.
          Option.bind (find (\<lambda>u. user_pk u = pk \<and> is_active u) users) (\<lambda>u.
          Option.bind (Option.bind (map_of claims ''jti'') claim_str) (\<lambda>jti.
          Option.bind (Option.bind (map_of claims ''exp'') claim_int) (\<lambda>e.
            Some (AccessToken u
              (case Option.bind (map_of claims ''scope'') claim_str of None \<Rightarrow> [] | Some s \<Rightarrow> s)
              jti (e * second))))))))"

subsection \<open>Laws\<close>

lemma jwt_norm_map_of [simp]: "map_of (jwt_norm p) k = map_option jwt_norm_claim (map_of p k)"
  by (induction p) (auto simp: jwt_norm_def)

text \<open>The outcome of decoding a token the codec minted, on every branch.\<close>

lemma decode_encode:
  assumes "jwt_laws lib"
  shows "decode_access_token lib st cur' clock
           (fst (encode_access_token lib st cur uid scopes db ttl now jti)) db' =
    (if clock < now div second * second then Inl TokenInvalid
     else if (now + (case ttl of None \<Rightarrow> access_lifetime st | Some t \<Rightarrow> t)) div second * second \<le> clock
       then Inl TokenExpired
     else if str_or db' cur' \<noteq> str_or db cur then Inl TokenInvalid
     else Inr (jwt_norm
            [(''sub'', ClaimStr uid), (''typ'', ClaimStr ACCESS_TOKEN_TYPE),
             (''scope'', ClaimStr (str_join '' '' (sort scopes))),
             (''db'', ClaimStr (str_or db cur)), (''iat'', ClaimTime now),
             (''exp'', ClaimTime (now + (case ttl of None \<Rightarrow> access_lifetime st | Some t \<Rightarrow> t))),
             (''jti'', ClaimStr jti)]))"
  using assms
  by (simp add: decode_access_token_def encode_access_token_def jwt_laws_def jwt_check_def
      REQUIRED_CLAIMS_def Let_def)

lemma has_scopes_iff: "has_scopes p req \<longleftrightarrow> set req \<subseteq> principal_scopes p"
  by (auto simp: has_scopes_def)

text \<open>
  A concrete library for the witnesses: a token is its payload with the key and the algorithm.
\<close>

definition plain_jwt :: "(claims \<times> string \<times> string) jwt_lib" where
  "plain_jwt =
     \<lparr>jwt_encode = \<lambda>p k a. (p, k, a),
      jwt_decode = \<lambda>clock (p, k, a) k' algs req.
        if k' = k \<and> a \<in> set algs then jwt_check clock req p else Inl InvalidTokenError\<rparr>"

lemma plain_jwt_laws: "jwt_laws plain_jwt"
  by (simp add: jwt_laws_def plain_jwt_def)

text \<open>
  C9: a token minted for an active user authenticates on the database it was minted for, from
  its issue until its expiry truncated to the second, as that user, and grants exactly the
  scopes frozen into it: the scope claim survives the round trip through one space-separated
  string as long as no scope is empty or contains white space.
\<close>

theorem minted_token_authenticates:
  assumes lib: "jwt_laws lib"
    and users: "distinct (map user_pk users)" "u \<in> set users" "is_active u"
    and pk: "coerce (user_pk u) = Some (user_pk u)"
    and scopes: "\<forall>s \<in> set scopes. (\<forall>c \<in> set s. \<not> is_space c) \<and> s \<noteq> []"
    and time: "now \<le> clock" "clock < (now + ttl) div second * second"
  shows "\<exists>p. jwt_authenticate lib st coerce db users clock
              (fst (encode_access_token lib st db (user_pk u) scopes None (Some ttl) now jti)) = Some p
          \<and> principal_user p = Some u \<and> principal_scopes p = set scopes
          \<and> (\<forall>req. has_scopes p req \<longleftrightarrow> set req \<subseteq> set scopes)"
proof -
  have "now div second * second \<le> now" by (simp add: second_def)
  with time have c: "\<not> clock < now div second * second" by linarith
  have f: "find (\<lambda>v. user_pk v = user_pk u \<and> is_active v) users = Some u"
  proof -
    obtain v where v: "find (\<lambda>v. user_pk v = user_pk u \<and> is_active v) users = Some v"
      using users(2,3) by (cases "find (\<lambda>v. user_pk v = user_pk u \<and> is_active v) users")
        (auto simp: find_None_mem)
    from find_Some_iff_mem [OF v] users(1,2) have "v = u" by (auto dest: distinct_map_unique)
    with v show ?thesis by simp
  qed
  show ?thesis
    using c time(2) f pk set_sorted_join_words [OF scopes]
    by (simp add: jwt_authenticate_def decode_encode [OF lib] str_or_def has_scopes_iff)
qed

definition frodo :: user where
  "frodo = \<lparr>user_pk = ''u1'', username = ''frodo'', user_type = ''PORTAL'', is_active = True,
            last_login = None, user_roles = []\<rparr>"

definition demo_settings :: jwt_settings where
  "demo_settings = \<lparr>signing_key = ''k'', algorithm = ''HS256'',
     access_lifetime = 900 * second, refresh_lifetime = 1209600 * second\<rparr>"

theorem minted_token_authenticates_witness:
  "\<exists>p. jwt_authenticate plain_jwt demo_settings Some ''acme'' [frodo] 5
         (fst (encode_access_token plain_jwt demo_settings ''acme'' (user_pk frodo)
            [''totem.user.read''] None (Some (900 * second)) 0 ''j'')) = Some p
       \<and> principal_user p = Some frodo \<and> principal_scopes p = {''totem.user.read''}"
  using minted_token_authenticates [OF plain_jwt_laws, of "[frodo]" frodo Some
      "[''totem.user.read'']" 0 5 "900 * second" demo_settings "''acme''" "''j''"]
  by (auto simp: frodo_def second_def is_space_def)

text \<open>
  The tenant boundary. The signing key is shared by every tenant, and still a token minted
  on one database is refused on any other, whoever it names and whatever its expiry.
\<close>

theorem token_refused_on_other_tenant:
  assumes "jwt_laws lib" and "db' \<noteq> str_or minted_db cur"
  shows "jwt_authenticate lib st coerce db' users clock
           (fst (encode_access_token lib st cur uid scopes minted_db ttl now jti)) = None"
  using assms by (auto simp: jwt_authenticate_def decode_encode str_or_def split: option.splits list.splits)

theorem token_refused_on_other_tenant_witness:
  "jwt_authenticate plain_jwt demo_settings Some ''evil'' [frodo] 5
     (fst (encode_access_token plain_jwt demo_settings ''acme'' ''u1'' [] None None 0 ''j'')) = None"
  by (rule token_refused_on_other_tenant [OF plain_jwt_laws]) (simp add: str_or_def)

end
