(* ===== verification/Sessions.thy ===== *)
theory Sessions
  imports Tokens
begin

text \<open>
  Refresh tokens and the service that rotates them: \<open>authentication/models/refresh_token.py\<close>
  and \<open>AuthService\<close> of \<open>authentication/services.py\<close>. A table is the list of its rows; a
  queryset is the predicate of the rows it selects; a transaction either returns the written
  database or leaves the one it started from. The password backend and SHA-256 are parameters
  of \<open>auth_env\<close>, and every random value a call draws is in its \<open>draw\<close>.
\<close>

subsection \<open>State\<close>

record refresh_token =
  rt_id :: string
  rt_user :: string
  rt_hash :: string
  rt_session :: string
  rt_expires :: int
  rt_created :: int
  rt_revoked :: "int option"

record auth_db =
  db_users :: "user list"
  db_tokens :: "refresh_token list"

record draw =
  d_secret :: string
  d_id :: string
  d_session :: string
  d_jti :: string

record 'tok auth_env =
  ae_jwt :: "'tok jwt_lib"
  ae_settings :: jwt_settings
  ae_db_name :: string
  ae_hash :: "string \<Rightarrow> string"
  ae_backend :: "user list \<Rightarrow> string \<Rightarrow> string \<Rightarrow> user option"

record 'tok token_pair =
  access_token :: 'tok
  refresh_secret :: string
  expires_in :: int
  pair_scope :: string
  pair_type :: string

datatype auth_error =
    InvalidCredentials
  | InvalidRefreshToken string
  | IntegrityError

subsection \<open>The queryset\<close>

text \<open>An insertion the two unique columns refuse raises.\<close>

definition rt_create :: "refresh_token \<Rightarrow> refresh_token list \<Rightarrow> auth_error + refresh_token list" where
  "rt_create t ts =
     (if rt_id t \<in> rt_id ` set ts \<or> rt_hash t \<in> rt_hash ` set ts then Inl IntegrityError
      else Inr (ts @ [t]))"

definition rt_issue ::
    "(string \<Rightarrow> string) \<Rightarrow> int \<Rightarrow> draw \<Rightarrow> string \<Rightarrow> string option \<Rightarrow> int \<Rightarrow> refresh_token list
     \<Rightarrow> auth_error + (refresh_token list \<times> refresh_token \<times> string)" where
  "rt_issue hash lifetime d user_id session_id now ts =
     (let secret = d_secret d;
          t = \<lparr>rt_id = d_id d, rt_user = user_id, rt_hash = hash secret,
               rt_session = str_or session_id (d_session d),
               rt_expires = now + lifetime, rt_created = now, rt_revoked = None\<rparr>
      in result_bind (rt_create t ts) (\<lambda>ts'. Inr (ts', t, secret)))"

definition rt_is_usable :: "int \<Rightarrow> refresh_token \<Rightarrow> bool" where
  "rt_is_usable now t = (rt_revoked t = None \<and> rt_expires t > now)"

definition rt_active :: "int \<Rightarrow> refresh_token list \<Rightarrow> refresh_token list" where
  "rt_active now ts = filter (\<lambda>t. rt_revoked t = None \<and> rt_expires t > now) ts"

definition rt_revoke ::
    "(refresh_token \<Rightarrow> bool) \<Rightarrow> int \<Rightarrow> refresh_token list \<Rightarrow> refresh_token list \<times> nat" where
  "rt_revoke qs now ts =
     (map (\<lambda>t. if qs t \<and> rt_revoked t = None then t\<lparr>rt_revoked := Some now\<rparr> else t) ts,
      length (filter (\<lambda>t. qs t \<and> rt_revoked t = None) ts))"

definition rt_revoke_session :: "string \<Rightarrow> int \<Rightarrow> refresh_token list \<Rightarrow> refresh_token list \<times> nat" where
  "rt_revoke_session sid now ts = rt_revoke (\<lambda>t. rt_session t = sid) now ts"

definition rt_revoke_for_users :: "string list \<Rightarrow> int \<Rightarrow> refresh_token list \<Rightarrow> refresh_token list \<times> nat" where
  "rt_revoke_for_users pks now ts = rt_revoke (\<lambda>t. rt_user t \<in> set pks) now ts"

definition rt_purge_expired :: "int \<Rightarrow> refresh_token list \<Rightarrow> refresh_token list \<times> nat" where
  "rt_purge_expired now ts =
     (filter (\<lambda>t. \<not> rt_expires t \<le> now) ts, length (filter (\<lambda>t. rt_expires t \<le> now) ts))"

subsection \<open>The service\<close>

text \<open>\<open>int(delta.total_seconds())\<close> truncates towards zero.\<close>

definition whole_seconds :: "int \<Rightarrow> int" where
  "whole_seconds d = (if 0 \<le> d then d div second else - ((- d) div second))"

definition issue_pair ::
    "'tok auth_env \<Rightarrow> draw \<Rightarrow> user \<Rightarrow> string option \<Rightarrow> int \<Rightarrow> refresh_token list
     \<Rightarrow> auth_error + ('tok token_pair \<times> refresh_token list)" where
  "issue_pair env d u session_id now ts =
     (let scopes = get_user_scopes u;
          (token, expires_at) = encode_access_token (ae_jwt env) (ae_settings env) (ae_db_name env)
             (user_pk u) scopes None None now (d_jti d)
      in result_bind
           (rt_issue (ae_hash env) (refresh_lifetime (ae_settings env)) d (user_pk u) session_id now ts)
           (\<lambda>(ts', t, secret).
              Inr (\<lparr>access_token = token, refresh_secret = secret,
                    expires_in = whole_seconds (expires_at - now),
                    pair_scope = str_join '' '' scopes, pair_type = ''Bearer''\<rparr>, ts')))"

definition auth_login ::
    "'tok auth_env \<Rightarrow> draw \<Rightarrow> string \<Rightarrow> string \<Rightarrow> int \<Rightarrow> auth_db
     \<Rightarrow> (auth_error + 'tok token_pair) \<times> auth_db" where
  "auth_login env d name password now db =
     (case ae_backend env (db_users db) name password of
        None \<Rightarrow> (Inl InvalidCredentials, db)
      | Some u \<Rightarrow>
          let users' = map (\<lambda>v. if user_pk v = user_pk u then v\<lparr>last_login := Some now\<rparr> else v) (db_users db)
          in (case issue_pair env d u None now (db_tokens db) of
                Inl e \<Rightarrow> (Inl e, db)
              | Inr (pair, ts) \<Rightarrow> (Inr pair, db\<lparr>db_users := users', db_tokens := ts\<rparr>)))"

text \<open>
  The lookup joins the user row (\<open>select_related\<close> on a required key), so a token whose user is
  gone is unknown. The verdict is returned, never raised, from inside the transaction.
\<close>

definition auth_rotate ::
    "'tok auth_env \<Rightarrow> draw \<Rightarrow> string \<Rightarrow> int \<Rightarrow> auth_db
     \<Rightarrow> (auth_error + 'tok token_pair) \<times> auth_db" where
  "auth_rotate env d h now db =
     (let ts = db_tokens db; user_of = (\<lambda>t. find (\<lambda>u. user_pk u = rt_user t) (db_users db)) in
      case find (\<lambda>t. rt_hash t = h \<and> user_of t \<noteq> None) ts of
        None \<Rightarrow> (Inl (InvalidRefreshToken ''Unknown refresh token''), db)
      | Some t \<Rightarrow>
          if rt_revoked t \<noteq> None then
            (Inl (InvalidRefreshToken ''Refresh token replayed''),
             db\<lparr>db_tokens := fst (rt_revoke_session (rt_session t) now ts)\<rparr>)
          else if rt_expires t \<le> now then
            (Inl (InvalidRefreshToken ''Refresh token expired''),
             db\<lparr>db_tokens := fst (rt_revoke (\<lambda>x. rt_id x = rt_id t) now ts)\<rparr>)
          else (case user_of t of
              None \<Rightarrow> (Inl (InvalidRefreshToken ''Unknown refresh token''), db)
            | Some u \<Rightarrow>
                if \<not> is_active u then
                  (Inl (InvalidRefreshToken ''User is inactive''),
                   db\<lparr>db_tokens := fst (rt_revoke_for_users [user_pk u] now ts)\<rparr>)
                else
                  (let ts' = fst (rt_revoke (\<lambda>x. rt_id x = rt_id t) now ts) in
                   case issue_pair env d u (Some (rt_session t)) now ts' of
                     Inl e \<Rightarrow> (Inl e, db)
                   | Inr (pair, ts'') \<Rightarrow> (Inr pair, db\<lparr>db_tokens := ts''\<rparr>))))"

definition auth_refresh ::
    "'tok auth_env \<Rightarrow> draw \<Rightarrow> string \<Rightarrow> int \<Rightarrow> auth_db
     \<Rightarrow> (auth_error + 'tok token_pair) \<times> auth_db" where
  "auth_refresh env d secret now db = auth_rotate env d (ae_hash env secret) now db"

definition auth_revoke :: "'tok auth_env \<Rightarrow> string \<Rightarrow> int \<Rightarrow> auth_db \<Rightarrow> auth_db" where
  "auth_revoke env secret now db =
     (case find (\<lambda>t. rt_hash t = ae_hash env secret) (db_tokens db) of
        None \<Rightarrow> db
      | Some t \<Rightarrow> db\<lparr>db_tokens := fst (rt_revoke_session (rt_session t) now (db_tokens db))\<rparr>)"

text \<open>The periodic task (\<open>authentication/tasks.py\<close>).\<close>

definition clear_tokens :: "int \<Rightarrow> auth_db \<Rightarrow> auth_db" where
  "clear_tokens now db = db\<lparr>db_tokens := fst (rt_purge_expired now (db_tokens db))\<rparr>"

end
