(* ===== verification/Session_Safety.thy ===== *)
theory Session_Safety
  imports Sessions
begin

text \<open>
  The session store as a state machine: logins, refreshes, sign-outs, the purge, and whatever
  the rest of the program does to the user rows, in any order and at any instants that do not
  go back. Two ghost components record every digest and every session identifier ever issued,
  which is how the uniqueness of 48 random bytes and of ULIDs is stated.
\<close>

record auth_sys =
  sys_clock :: int
  sys_db :: auth_db
  sys_hashes :: "string set"
  sys_sessions :: "string set"

definition issued :: "'tok auth_env \<Rightarrow> draw \<Rightarrow> string option \<Rightarrow> int \<Rightarrow> auth_db \<Rightarrow> auth_sys \<Rightarrow> auth_sys" where
  "issued env d sid now db s =
     s\<lparr>sys_clock := now, sys_db := db,
       sys_hashes := insert (ae_hash env (d_secret d)) (sys_hashes s),
       sys_sessions := insert (d_session d) (sys_sessions s)\<rparr>"

definition fresh_draw :: "'tok auth_env \<Rightarrow> draw \<Rightarrow> auth_sys \<Rightarrow> bool" where
  "fresh_draw env d s \<longleftrightarrow>
     ae_hash env (d_secret d) \<notin> sys_hashes s \<and> d_session d \<notin> sys_sessions s \<and> d_session d \<noteq> []"

inductive auth_step :: "'tok auth_env \<Rightarrow> auth_sys \<Rightarrow> auth_sys \<Rightarrow> bool" for env where
  step_login:
    "sys_clock s \<le> now \<Longrightarrow> fresh_draw env d s \<Longrightarrow>
     auth_step env s (issued env d None now (snd (auth_login env d name pw now (sys_db s))) s)"
| step_refresh:
    "sys_clock s \<le> now \<Longrightarrow> fresh_draw env d s \<Longrightarrow>
     auth_step env s (issued env d None now (snd (auth_refresh env d secret now (sys_db s))) s)"
| step_revoke:
    "sys_clock s \<le> now \<Longrightarrow>
     auth_step env s (s\<lparr>sys_clock := now, sys_db := auth_revoke env secret now (sys_db s)\<rparr>)"
| step_purge:
    "sys_clock s \<le> now \<Longrightarrow>
     auth_step env s (s\<lparr>sys_clock := now, sys_db := clear_tokens now (sys_db s)\<rparr>)"
| step_users:
    "sys_clock s \<le> now \<Longrightarrow>
     auth_step env s (s\<lparr>sys_clock := now,
        sys_db := \<lparr>db_users = us,
                   db_tokens = filter (\<lambda>t. rt_user t \<in> user_pk ` set us) (db_tokens (sys_db s))\<rparr>\<rparr>)"

inductive auth_run :: "'tok auth_env \<Rightarrow> auth_sys \<Rightarrow> auth_sys \<Rightarrow> bool" for env where
  run_refl: "auth_run env s s"
| run_step: "auth_run env s t \<Longrightarrow> auth_step env t u \<Longrightarrow> auth_run env s u"

definition auth_init :: "int \<Rightarrow> user list \<Rightarrow> auth_sys" where
  "auth_init t us = \<lparr>sys_clock = t, sys_db = \<lparr>db_users = us, db_tokens = []\<rparr>,
                     sys_hashes = {}, sys_sessions = {}\<rparr>"

subsection \<open>The invariant of the token table\<close>

definition live :: "refresh_token \<Rightarrow> bool" where
  "live t \<longleftrightarrow> rt_revoked t = None"

definition session_coherent :: "refresh_token \<Rightarrow> refresh_token \<Rightarrow> bool" where
  "session_coherent t x \<longleftrightarrow>
     (rt_session t = rt_session x \<longrightarrow> rt_user t = rt_user x \<and> (live t \<and> live x \<longrightarrow> t = x))"

definition tokens_inv :: "refresh_token list \<Rightarrow> bool" where
  "tokens_inv ts \<longleftrightarrow>
     distinct (map rt_id ts) \<and> distinct (map rt_hash ts)
     \<and> (\<forall>t \<in> set ts. \<forall>x \<in> set ts. session_coherent t x)"

definition session_inv :: "auth_sys \<Rightarrow> bool" where
  "session_inv s \<longleftrightarrow> tokens_inv (db_tokens (sys_db s))
     \<and> rt_hash ` set (db_tokens (sys_db s)) \<subseteq> sys_hashes s
     \<and> rt_session ` set (db_tokens (sys_db s)) \<subseteq> sys_sessions s
     \<and> rt_user ` set (db_tokens (sys_db s)) \<subseteq> user_pk ` set (db_users (sys_db s))"

text \<open>What the password backend documents: it returns an active row of the user table.\<close>

definition backend_ok :: "'tok auth_env \<Rightarrow> bool" where
  "backend_ok env \<longleftrightarrow>
     (\<forall>us name pw u. ae_backend env us name pw = Some u \<longrightarrow> u \<in> set us \<and> is_active u)"

text \<open>How each table operation moves the rows: revoked rows only gain an instant.\<close>

definition mark_revoked :: "(refresh_token \<Rightarrow> bool) \<Rightarrow> int \<Rightarrow> refresh_token \<Rightarrow> refresh_token" where
  "mark_revoked qs now t = (if qs t \<and> rt_revoked t = None then t\<lparr>rt_revoked := Some now\<rparr> else t)"

lemma fst_rt_revoke: "fst (rt_revoke qs now ts) = map (mark_revoked qs now) ts"
  by (simp add: rt_revoke_def mark_revoked_def fun_eq_iff)

lemma mark_revoked_fields [simp]:
  "rt_id (mark_revoked qs now t) = rt_id t"
  "rt_hash (mark_revoked qs now t) = rt_hash t"
  "rt_session (mark_revoked qs now t) = rt_session t"
  "rt_user (mark_revoked qs now t) = rt_user t"
  "rt_expires (mark_revoked qs now t) = rt_expires t"
  by (simp_all add: mark_revoked_def)

lemma live_mark_revoked [simp]: "live (mark_revoked qs now t) \<longleftrightarrow> live t \<and> \<not> qs t"
  by (auto simp: live_def mark_revoked_def)

lemma mark_revoked_live: "live (mark_revoked qs now t) \<Longrightarrow> mark_revoked qs now t = t"
  by (auto simp: live_def mark_revoked_def split: if_splits)

lemma mark_revoked_keeps: "rt_revoked t \<noteq> None \<Longrightarrow> mark_revoked qs now t = t"
  by (simp add: mark_revoked_def)

lemmas revoke_simps = fst_rt_revoke rt_revoke_session_def rt_revoke_for_users_def

lemma map_mark_revoked_proj [simp]:
  "map rt_id (map (mark_revoked qs now) ts) = map rt_id ts"
  "map rt_hash (map (mark_revoked qs now) ts) = map rt_hash ts"
  "rt_hash ` set (map (mark_revoked qs now) ts) = rt_hash ` set ts"
  "rt_session ` set (map (mark_revoked qs now) ts) = rt_session ` set ts"
  "rt_user ` set (map (mark_revoked qs now) ts) = rt_user ` set ts"
  by (simp_all add: image_comp o_def)

lemma coherent_mark_revoked:
  "session_coherent t x \<Longrightarrow>
   session_coherent (mark_revoked qs now t) (mark_revoked qs now x)"
  using mark_revoked_live [of qs now t] mark_revoked_live [of qs now x]
  by (auto simp: session_coherent_def)

lemma tokens_inv_revoke: "tokens_inv ts \<Longrightarrow> tokens_inv (map (mark_revoked qs now) ts)"
  unfolding tokens_inv_def map_mark_revoked_proj
  by (simp add: coherent_mark_revoked)

lemma tokens_inv_filter: "tokens_inv ts \<Longrightarrow> tokens_inv (filter P ts)"
  by (simp add: tokens_inv_def distinct_map_filter)

lemma coherent_refl: "session_coherent t t"
  by (simp add: session_coherent_def)

lemma coherent_new:
  "(rt_session x = rt_session t \<Longrightarrow> rt_user x = rt_user t \<and> \<not> live x) \<Longrightarrow>
   session_coherent t x \<and> session_coherent x t"
  by (auto simp: session_coherent_def)

lemma tokens_inv_create:
  assumes "tokens_inv ts" and "rt_create t ts = Inr ts'"
    and new: "\<And>x. x \<in> set ts \<Longrightarrow> rt_session x = rt_session t \<Longrightarrow> rt_user x = rt_user t \<and> \<not> live x"
  shows "tokens_inv ts'"
proof -
  have ts': "ts' = ts @ [t]" "rt_id t \<notin> rt_id ` set ts" "rt_hash t \<notin> rt_hash ` set ts"
    using assms(2) by (auto simp: rt_create_def split: if_splits)
  have "session_coherent t x \<and> session_coherent x t" if "x \<in> set ts" for x
    using new [OF that] by (rule coherent_new)
  with assms(1) ts' show ?thesis by (simp add: tokens_inv_def coherent_refl)
qed

text \<open>An issued pair adds one row, for that user, in that session or in a new one.\<close>

lemma issue_pairE:
  assumes "issue_pair env d u sid now ts = Inr (pair, ts')"
  obtains t where "rt_create t ts = Inr ts'" "ts' = ts @ [t]" "rt_user t = user_pk u"
    "rt_hash t = ae_hash env (d_secret d)" "rt_session t = str_or sid (d_session d)"
    "rt_revoked t = None" "rt_expires t = now + refresh_lifetime (ae_settings env)"
    "refresh_secret pair = d_secret d"
proof -
  let ?t = "\<lparr>rt_id = d_id d, rt_user = user_pk u, rt_hash = ae_hash env (d_secret d),
        rt_session = str_or sid (d_session d),
        rt_expires = now + refresh_lifetime (ae_settings env), rt_created = now, rt_revoked = None\<rparr>"
  have "rt_create ?t ts = Inr ts'" and "refresh_secret pair = d_secret d"
    using assms by (auto simp: issue_pair_def rt_issue_def Let_def split: prod.splits)
  then show ?thesis
    by (intro that [of ?t]) (auto simp: rt_create_def split: if_splits)
qed

text \<open>The four outcomes of a rotation that write the table, and the one that does not.\<close>

lemma auth_rotate_cases:
  assumes "auth_rotate env d h now db = (r, db')"
  obtains (unknown) "db' = db" "\<not> is_inr r"
  | (revoked) qs t where "db' = db\<lparr>db_tokens := map (mark_revoked qs now) (db_tokens db)\<rparr>"
      "\<not> is_inr r" "t \<in> set (db_tokens db)" "rt_hash t = h" "qs t"
      "\<not> live t \<Longrightarrow> qs = (\<lambda>x. rt_session x = rt_session t)"
  | (rotated) t u pair ts where "t \<in> set (db_tokens db)" "rt_hash t = h" "live t"
      "now < rt_expires t" "u \<in> set (db_users db)" "user_pk u = rt_user t" "is_active u"
      "issue_pair env d u (Some (rt_session t)) now
         (map (mark_revoked (\<lambda>x. rt_id x = rt_id t) now) (db_tokens db)) = Inr (pair, ts)"
      "r = Inr pair" "db' = db\<lparr>db_tokens := ts\<rparr>"
proof -
  let ?user = "\<lambda>t. find (\<lambda>u. user_pk u = rt_user t) (db_users db)"
  show ?thesis
  proof (cases "find (\<lambda>t. rt_hash t = h \<and> ?user t \<noteq> None) (db_tokens db)")
    case None
    with assms show ?thesis by (intro unknown) (auto simp: auth_rotate_def Let_def)
  next
    case (Some t)
    from find_Some_iff_mem [OF Some] obtain u
      where t: "t \<in> set (db_tokens db)" "rt_hash t = h" and u: "?user t = Some u" by auto
    have ut: "u \<in> set (db_users db)" "user_pk u = rt_user t" using find_Some_iff_mem [OF u] by auto
    consider (replay) "rt_revoked t \<noteq> None"
      | (expired) "rt_revoked t = None" "rt_expires t \<le> now"
      | (inactive) "rt_revoked t = None" "now < rt_expires t" "\<not> is_active u"
      | (ok) "rt_revoked t = None" "now < rt_expires t" "is_active u" by force
    then show ?thesis
    proof cases
      case replay
      with assms Some t show ?thesis
        by (intro revoked [of "\<lambda>x. rt_session x = rt_session t" t])
          (auto simp: auth_rotate_def Let_def revoke_simps live_def)
    next
      case expired
      with assms Some t show ?thesis
        by (intro revoked [of "\<lambda>x. rt_id x = rt_id t" t])
          (auto simp: auth_rotate_def Let_def revoke_simps live_def)
    next
      case inactive
      with assms Some t u ut show ?thesis
        by (intro revoked [of "\<lambda>x. rt_user x \<in> set [user_pk u]" t])
          (auto simp: auth_rotate_def Let_def revoke_simps live_def)
    next
      case ok
      show ?thesis
      proof (cases "issue_pair env d u (Some (rt_session t)) now
          (map (mark_revoked (\<lambda>x. rt_id x = rt_id t) now) (db_tokens db))")
        case (Inl e)
        with assms Some t u ok show ?thesis
          by (intro unknown) (auto simp: auth_rotate_def Let_def revoke_simps)
      next
        case (Inr p)
        with assms Some t u ut ok show ?thesis
          by (cases p) (intro rotated [of t u "fst p" "snd p"],
            auto simp: auth_rotate_def Let_def revoke_simps live_def)
      qed
    qed
  qed
qed

subsection \<open>Every operation keeps the invariant\<close>

lemma session_inv_init: "session_inv (auth_init t us)"
  by (simp add: session_inv_def auth_init_def tokens_inv_def)

text \<open>A table that only lost rows or gained revocations.\<close>

lemma session_inv_revoke:
  "session_inv s \<Longrightarrow> session_inv
     (s\<lparr>sys_clock := now, sys_db := (sys_db s)\<lparr>db_tokens := map (mark_revoked qs at) (db_tokens (sys_db s))\<rparr>\<rparr>)"
  unfolding session_inv_def using tokens_inv_revoke by (simp add: image_comp o_def)

lemma session_inv_ghost:
  "session_inv (s\<lparr>sys_clock := c, sys_db := db\<rparr>) \<Longrightarrow> session_inv (issued env d sid now db s)"
  unfolding session_inv_def issued_def by auto

lemma session_inv_issue:
  assumes inv: "session_inv s" and fresh: "fresh_draw env d s"
    and issue: "issue_pair env d u sid now ts = Inr (pair, ts')"
    and ts: "tokens_inv ts" "rt_hash ` set ts \<subseteq> sys_hashes s" "rt_session ` set ts \<subseteq> sys_sessions s"
      "rt_user ` set ts \<subseteq> user_pk ` set us"
    and u: "user_pk u \<in> user_pk ` set us"
    and sid: "sid = None \<or> (\<exists>k. sid = Some k \<and> k \<in> sys_sessions s \<and>
        (\<forall>x \<in> set ts. rt_session x = str_or (Some k) (d_session d) \<longrightarrow> rt_user x = user_pk u \<and> \<not> live x))"
  shows "session_inv (issued env d None now' \<lparr>db_users = us, db_tokens = ts'\<rparr> s)"
proof -
  obtain t where t: "rt_create t ts = Inr ts'" "ts' = ts @ [t]" "rt_user t = user_pk u"
    "rt_hash t = ae_hash env (d_secret d)" "rt_session t = str_or sid (d_session d)"
    using issue by (rule issue_pairE)
  have old: "rt_user x = rt_user t \<and> \<not> live x" if "x \<in> set ts" "rt_session x = rt_session t" for x
    using sid
  proof
    assume "sid = None"
    with t(5) have "rt_session t = d_session d" by (simp add: str_or_def)
    with that fresh ts(3) show ?thesis by (force simp: fresh_draw_def)
  next
    assume "\<exists>k. sid = Some k \<and> k \<in> sys_sessions s \<and>
        (\<forall>x \<in> set ts. rt_session x = str_or (Some k) (d_session d) \<longrightarrow> rt_user x = user_pk u \<and> \<not> live x)"
    with that t(3,5) show ?thesis by auto
  qed
  have "rt_session t \<in> insert (d_session d) (sys_sessions s)"
    using sid t(5) by (auto split: if_splits)
  moreover have "tokens_inv ts'" by (rule tokens_inv_create [OF ts(1) t(1) old])
  ultimately show ?thesis
    using ts t(2-5) u unfolding session_inv_def issued_def by auto
qed

lemma login_keeps_inv:
  assumes "backend_ok env" "session_inv s" "fresh_draw env d s"
  shows "session_inv (issued env d None now (snd (auth_login env d name pw now (sys_db s))) s)"
proof (cases "auth_login env d name pw now (sys_db s)")
  case (Pair r db)
  show ?thesis
  proof (cases r)
    case (Inl e)
    with Pair have "db = sys_db s"
      by (auto simp: auth_login_def Let_def split: option.splits sum.splits)
    with Pair assms(2) show ?thesis by (auto simp: session_inv_def issued_def)
  next
    case (Inr pair)
    with Pair obtain u ts where u: "ae_backend env (db_users (sys_db s)) name pw = Some u"
      and i: "issue_pair env d u None now (db_tokens (sys_db s)) = Inr (pair, ts)"
      and db: "db = \<lparr>db_users = map (\<lambda>v. if user_pk v = user_pk u then v\<lparr>last_login := Some now\<rparr> else v)
                 (db_users (sys_db s)), db_tokens = ts\<rparr>"
      by (auto simp: auth_login_def Let_def split: option.splits sum.splits)
    have pks: "user_pk ` set (db_users db) = user_pk ` set (db_users (sys_db s))"
      unfolding db auth_db.simps by (rule image_map_keep) simp
    have "user_pk u \<in> user_pk ` set (db_users db)"
      unfolding pks using assms(1) u by (auto simp: backend_ok_def)
    then show ?thesis
      using session_inv_issue [OF assms(2,3) i, of "db_users db" now] assms(2) pks Pair db
      by (simp add: session_inv_def)
  qed
qed

lemma refresh_keeps_inv:
  assumes "session_inv s" "fresh_draw env d s"
  shows "session_inv (issued env d None now (snd (auth_refresh env d secret now (sys_db s))) s)"
proof (cases "auth_refresh env d secret now (sys_db s)")
  case (Pair r db)
  then have "auth_rotate env d (ae_hash env secret) now (sys_db s) = (r, db)"
    by (simp add: auth_refresh_def)
  then show ?thesis
  proof (cases rule: auth_rotate_cases)
    case unknown
    with Pair assms(1) show ?thesis by (auto simp: session_inv_def issued_def)
  next
    case (revoked qs t)
    with Pair session_inv_ghost [OF session_inv_revoke [OF assms(1)]] show ?thesis by simp
  next
    case (rotated t u pair ts)
    let ?ts = "map (mark_revoked (\<lambda>x. rt_id x = rt_id t) now) (db_tokens (sys_db s))"
    have inv: "tokens_inv ?ts" "tokens_inv (db_tokens (sys_db s))"
      using assms(1) tokens_inv_revoke by (auto simp: session_inv_def)
    have sess: "rt_session t \<in> sys_sessions s"
      using assms(1) rotated(1) by (auto simp: session_inv_def)
    have nonempty: "str_or (Some (rt_session t)) (d_session d) = rt_session t
        \<or> str_or (Some (rt_session t)) (d_session d) = d_session d"
      by simp
    have old: "rt_user x = user_pk u \<and> \<not> live x"
      if x: "x \<in> set ?ts" and sx: "rt_session x = str_or (Some (rt_session t)) (d_session d)" for x
    proof -
      from x obtain y where y: "y \<in> set (db_tokens (sys_db s))"
          "x = mark_revoked (\<lambda>x. rt_id x = rt_id t) now y" by auto
      have "rt_session y \<noteq> d_session d"
        using assms y(1) by (auto simp: session_inv_def fresh_draw_def)
      with sx y nonempty have same: "rt_session y = rt_session t" by auto
      with inv(2) y(1) rotated(1) have coh: "session_coherent y t" by (auto simp: tokens_inv_def)
      then have "rt_user y = rt_user t" "live y \<Longrightarrow> y = t"
        using same rotated(3) by (auto simp: session_coherent_def)
      with y(2) rotated(6) show ?thesis by auto
    qed
    have upk: "user_pk u \<in> user_pk ` set (db_users (sys_db s))" using rotated(5) by simp
    have sub: "rt_hash ` set ?ts \<subseteq> sys_hashes s" "rt_session ` set ?ts \<subseteq> sys_sessions s"
      "rt_user ` set ?ts \<subseteq> user_pk ` set (db_users (sys_db s))"
      unfolding map_mark_revoked_proj using assms(1) by (simp_all only: session_inv_def)
    have sid: "Some (rt_session t) = None \<or> (\<exists>k. Some (rt_session t) = Some k \<and> k \<in> sys_sessions s \<and>
        (\<forall>x \<in> set ?ts. rt_session x = str_or (Some k) (d_session d) \<longrightarrow> rt_user x = user_pk u \<and> \<not> live x))"
      by (intro disjI2 exI [of _ "rt_session t"] conjI refl sess ballI impI old)
    have "session_inv (issued env d None now
        \<lparr>db_users = db_users (sys_db s), db_tokens = ts\<rparr> s)"
      by (rule session_inv_issue [OF assms rotated(8) inv(1) sub upk sid])
    moreover have "db = \<lparr>db_users = db_users (sys_db s), db_tokens = ts\<rparr>"
      using rotated(10) by simp
    ultimately show ?thesis using Pair by simp
  qed
qed

lemma auth_step_inv:
  assumes "backend_ok env" and "auth_step env s s'" and "session_inv s"
  shows "session_inv s'"
  using assms(2,3)
proof (induction rule: auth_step.induct)
  case (step_login s now d name pw)
  then show ?case by (intro login_keeps_inv [OF assms(1)])
next
  case (step_refresh s now d secret)
  then show ?case by (intro refresh_keeps_inv)
next
  case (step_revoke s now secret)
  show ?case
  proof (cases "find (\<lambda>t. rt_hash t = ae_hash env secret) (db_tokens (sys_db s))")
    case None
    with step_revoke show ?thesis by (simp add: auth_revoke_def session_inv_def)
  next
    case (Some t)
    with session_inv_revoke [OF step_revoke(2)] show ?thesis
      by (simp add: auth_revoke_def revoke_simps)
  qed
next
  case (step_purge s now)
  then show ?case
    by (auto simp: session_inv_def clear_tokens_def rt_purge_expired_def intro: tokens_inv_filter)
next
  case (step_users s now us)
  then show ?case by (auto simp: session_inv_def intro: tokens_inv_filter)
qed

lemma auth_run_inv: "auth_run env s t \<Longrightarrow> backend_ok env \<Longrightarrow> session_inv s \<Longrightarrow> session_inv t"
  by (induction rule: auth_run.induct) (auto intro: auth_step_inv)


subsection \<open>What happens to a row\<close>

lemma mark_revoked_none [simp]: "mark_revoked (\<lambda>_. False) now t = t"
  by (simp add: mark_revoked_def)

text \<open>Every row after a step is a row before it, revoked or not, or has a digest of its own.\<close>

definition row_from :: "refresh_token list \<Rightarrow> refresh_token \<Rightarrow> bool" where
  "row_from ts x \<longleftrightarrow> (\<exists>y \<in> set ts. \<exists>qs now. x = mark_revoked qs now y)"

lemma row_from_kept [intro]: "x \<in> set ts \<Longrightarrow> row_from ts x"
  unfolding row_from_def by (metis mark_revoked_none)

lemma row_from_marked [intro]: "y \<in> set ts \<Longrightarrow> row_from ts (mark_revoked qs now y)"
  unfolding row_from_def by blast

lemma auth_step_rows:
  assumes "auth_step env s s'" and "x \<in> set (db_tokens (sys_db s'))"
  shows "row_from (db_tokens (sys_db s)) x \<or> rt_hash x \<notin> sys_hashes s"
  using assms
proof (induction rule: auth_step.induct)
  case (step_login s now d name pw)
  then show ?case
    by (auto simp: auth_login_def issued_def Let_def fresh_draw_def
        split: option.splits sum.splits elim!: issue_pairE)
next
  case (step_refresh s now d secret)
  obtain r db where rot: "auth_rotate env d (ae_hash env secret) now (sys_db s) = (r, db)"
    by (cases "auth_rotate env d (ae_hash env secret) now (sys_db s)")
  then show ?case
    by (cases rule: auth_rotate_cases)
      (use step_refresh rot in \<open>auto simp: issued_def auth_refresh_def fresh_draw_def elim!: issue_pairE\<close>)
next
  case (step_revoke s now secret)
  then show ?case by (auto simp: auth_revoke_def revoke_simps split: option.splits)
qed (auto simp: clear_tokens_def rt_purge_expired_def)

lemma auth_step_hashes: "auth_step env s s' \<Longrightarrow> sys_hashes s \<subseteq> sys_hashes s'"
  by (induction rule: auth_step.induct) (auto simp: issued_def)

text \<open>A digest is spent once it was issued and no live row carries it.\<close>

definition spent :: "string \<Rightarrow> auth_sys \<Rightarrow> bool" where
  "spent h s \<longleftrightarrow> h \<in> sys_hashes s \<and> (\<forall>t \<in> set (db_tokens (sys_db s)). rt_hash t = h \<longrightarrow> \<not> live t)"

lemma auth_step_spent:
  assumes "auth_step env s s'" "spent h s"
  shows "spent h s'"
  using assms(2) auth_step_hashes [OF assms(1)] auth_step_rows [OF assms(1)]
  by (fastforce simp: spent_def row_from_def)

lemma auth_run_spent: "auth_run env s s' \<Longrightarrow> spent h s \<Longrightarrow> spent h s'"
  by (induction rule: auth_run.induct) (auto intro: auth_step_spent)

lemma spent_refused:
  assumes "spent (ae_hash env secret) s"
  shows "\<exists>e. fst (auth_refresh env d secret now (sys_db s)) = Inl (InvalidRefreshToken e)"
  using assms find_Some_iff_mem
  by (fastforce simp: auth_refresh_def auth_rotate_def Let_def spent_def live_def split: option.splits)

lemma rotation_spends:
  assumes "session_inv s" "fresh_draw env d s" "auth_refresh env d secret now (sys_db s) = (Inr pair, db)"
  shows "spent (ae_hash env secret) (issued env d None now db s)"
  using assms(3) unfolding auth_refresh_def
proof (cases rule: auth_rotate_cases)
  case (rotated t u pair' ts)
  have h: "ae_hash env secret \<in> sys_hashes s" using assms(1) rotated(1,2) by (auto simp: session_inv_def)
  have "\<not> live x" if x: "x \<in> set ts" "rt_hash x = ae_hash env secret" for x
  proof -
    obtain t' where t': "ts = map (mark_revoked (\<lambda>x. rt_id x = rt_id t) now) (db_tokens (sys_db s)) @ [t']"
      "rt_hash t' = ae_hash env (d_secret d)" using rotated(8) by (rule issue_pairE)
    with x h assms(2) obtain y where y: "y \<in> set (db_tokens (sys_db s))"
      "x = mark_revoked (\<lambda>x. rt_id x = rt_id t) now y" by (auto simp: fresh_draw_def)
    with x rotated(1,2) assms(1) have "y = t"
      by (auto simp: session_inv_def tokens_inv_def dest: distinct_map_unique)
    with y show ?thesis by simp
  qed
  with h rotated(10) show ?thesis by (simp add: spent_def issued_def)
qed auto

text \<open>The row a digest names, when digests are unique.\<close>

lemma find_token:
  assumes "session_inv s" "t \<in> set (db_tokens (sys_db s))"
  shows "find (\<lambda>x. rt_hash x = rt_hash t \<and> find (\<lambda>u. user_pk u = rt_user x) (db_users (sys_db s)) \<noteq> None)
           (db_tokens (sys_db s)) = Some t"
proof -
  let ?P = "\<lambda>x. rt_hash x = rt_hash t \<and> find (\<lambda>u. user_pk u = rt_user x) (db_users (sys_db s)) \<noteq> None"
  have "rt_user t \<in> user_pk ` set (db_users (sys_db s))" using assms by (auto simp: session_inv_def)
  then have "?P t" by (auto simp: find_None_mem dest: sym)
  with assms(2) obtain x where x: "find ?P (db_tokens (sys_db s)) = Some x"
    by (cases "find ?P (db_tokens (sys_db s))") (auto simp: find_None_iff)
  from find_Some_iff_mem [OF x] have "x = t"
    using assms by (auto simp: session_inv_def tokens_inv_def dest: distinct_map_unique)
  with x show ?thesis by simp
qed

subsection \<open>A concrete environment\<close>

definition demo_env :: "(claims \<times> string \<times> string) auth_env" where
  "demo_env = \<lparr>ae_jwt = plain_jwt, ae_settings = demo_settings, ae_db_name = ''acme'',
     ae_hash = (\<lambda>s. CHR ''#'' # s),
     ae_backend = (\<lambda>us name pw. find (\<lambda>u. username u = name \<and> is_active u \<and> pw = ''mellon'') us)\<rparr>"

lemma demo_backend_ok: "backend_ok demo_env"
  by (auto simp: backend_ok_def demo_env_def dest: find_Some_iff_mem)

definition demo_draw :: "string \<Rightarrow> draw" where
  "demo_draw x = \<lparr>d_secret = x, d_id = x, d_session = x, d_jti = x\<rparr>"

definition demo_login :: auth_sys where
  "demo_login = issued demo_env (demo_draw ''a'') None 10
     (snd (auth_login demo_env (demo_draw ''a'') ''frodo'' ''mellon'' 10 (sys_db (auth_init 0 [frodo]))))
     (auth_init 0 [frodo])"

lemma demo_login_eq:
  "demo_login = \<lparr>sys_clock = 10,
     sys_db = \<lparr>db_users = [frodo\<lparr>last_login := Some 10\<rparr>],
       db_tokens = [\<lparr>rt_id = ''a'', rt_user = ''u1'', rt_hash = ''#a'', rt_session = ''a'',
                     rt_expires = 10 + 1209600 * second, rt_created = 10, rt_revoked = None\<rparr>]\<rparr>,
     sys_hashes = {''#a''}, sys_sessions = {''a''}\<rparr>"
  by (simp add: demo_login_def issued_def auth_login_def auth_init_def demo_env_def demo_draw_def
      frodo_def issue_pair_def rt_issue_def rt_create_def encode_access_token_def plain_jwt_def
      demo_settings_def Let_def)

lemma demo_run: "auth_run demo_env (auth_init 0 [frodo]) demo_login"
  unfolding demo_login_def
  by (rule run_step [OF run_refl], rule step_login)
    (simp_all add: auth_init_def fresh_draw_def demo_draw_def)

lemma demo_login_inv: "session_inv demo_login"
  by (rule auth_run_inv [OF demo_run demo_backend_ok session_inv_init])

subsection \<open>The guarantees\<close>

text \<open>
  C4: whatever the interleaving of logins, refreshes, sign-outs, purges and writes on the user
  rows, a session never has two live refresh tokens, belongs to one user who still exists, and
  no digest names two rows.
\<close>

theorem one_live_token_per_session:
  assumes "backend_ok env" and "auth_run env (auth_init t0 us) s"
  shows "\<forall>t \<in> set (db_tokens (sys_db s)).
     rt_user t \<in> user_pk ` set (db_users (sys_db s))
     \<and> (\<forall>x \<in> set (db_tokens (sys_db s)).
          (rt_hash t = rt_hash x \<longrightarrow> t = x)
          \<and> (rt_session t = rt_session x \<longrightarrow> rt_user t = rt_user x \<and> (live t \<and> live x \<longrightarrow> t = x)))"
proof -
  have inv: "session_inv s" using assms(2,1) session_inv_init by (rule auth_run_inv)
  then have h: "t = x" if "t \<in> set (db_tokens (sys_db s))" "x \<in> set (db_tokens (sys_db s))"
      "rt_hash t = rt_hash x" for t x
    using that unfolding session_inv_def tokens_inv_def by (metis distinct_map_unique)
  have u: "rt_user t \<in> user_pk ` set (db_users (sys_db s))" if "t \<in> set (db_tokens (sys_db s))" for t
    using inv that unfolding session_inv_def by blast
  have c: "session_coherent t x" if "t \<in> set (db_tokens (sys_db s))" "x \<in> set (db_tokens (sys_db s))" for t x
    using inv that unfolding session_inv_def tokens_inv_def by blast
  show ?thesis using h u c unfolding session_coherent_def by meson
qed

theorem one_live_token_per_session_witness:
  "\<exists>t. db_tokens (sys_db demo_login) = [t] \<and> live t
     \<and> rt_user t \<in> user_pk ` set (db_users (sys_db demo_login))"
  using one_live_token_per_session [OF demo_backend_ok demo_run]
  by (simp add: demo_login_eq live_def)

text \<open>
  C2: a refresh secret is single use. Once it was exchanged for a pair, no later request with it
  succeeds, whatever happens in between.
\<close>

theorem refresh_secret_single_use:
  assumes "backend_ok env" and "auth_run env (auth_init t0 us) s" and "fresh_draw env d s"
    and "auth_refresh env d secret now (sys_db s) = (Inr pair, db)"
    and "auth_run env (issued env d None now db s) s'"
  shows "\<exists>e. fst (auth_refresh env d' secret now' (sys_db s')) = Inl (InvalidRefreshToken e)"
proof -
  have "session_inv s" using assms(2,1) session_inv_init by (rule auth_run_inv)
  then have "spent (ae_hash env secret) (issued env d None now db s)"
    using assms(3,4) by (rule rotation_spends)
  with assms(5) have "spent (ae_hash env secret) s'" by (rule auth_run_spent)
  then show ?thesis by (rule spent_refused)
qed

theorem refresh_secret_single_use_witness:
  "\<exists>e. fst (auth_refresh demo_env (demo_draw ''c'') ''a'' 30
     (snd (auth_refresh demo_env (demo_draw ''b'') ''a'' 20 (sys_db demo_login)))) = Inl (InvalidRefreshToken e)"
proof -
  obtain r db where r: "auth_refresh demo_env (demo_draw ''b'') ''a'' 20 (sys_db demo_login) = (r, db)"
    by (cases "auth_refresh demo_env (demo_draw ''b'') ''a'' 20 (sys_db demo_login)")
  have "is_inr (fst (auth_refresh demo_env (demo_draw ''b'') ''a'' 20 (sys_db demo_login)))"
    by (simp add: demo_login_eq auth_refresh_def auth_rotate_def demo_env_def demo_draw_def frodo_def
        issue_pair_def rt_issue_def rt_create_def rt_revoke_def encode_access_token_def Let_def
        second_def demo_settings_def plain_jwt_def)
  with r obtain pair where "r = Inr pair" by (cases r) auto
  moreover have "fresh_draw demo_env (demo_draw ''b'') demo_login"
    by (simp add: fresh_draw_def demo_login_eq demo_env_def demo_draw_def)
  ultimately show ?thesis
    using refresh_secret_single_use [OF demo_backend_ok demo_run _ _ run_refl] r
    by (simp add: issued_def)
qed

text \<open>
  C7: a refresh succeeds exactly when the secret names a token that is neither revoked nor
  expired and whose user is active: there is no other way in, and an active session is never
  signed out by its own refresh.
\<close>

theorem refresh_succeeds_iff:
  assumes "session_inv s" and "fresh_draw env d s" and "distinct (map user_pk (db_users (sys_db s)))"
    and "d_id d \<notin> rt_id ` set (db_tokens (sys_db s))"
  shows "is_inr (fst (auth_refresh env d secret now (sys_db s))) \<longleftrightarrow>
     (\<exists>t u. t \<in> set (db_tokens (sys_db s)) \<and> rt_hash t = ae_hash env secret \<and> rt_is_usable now t
          \<and> u \<in> set (db_users (sys_db s)) \<and> user_pk u = rt_user t \<and> is_active u)"
    (is "?ok \<longleftrightarrow> ?usable")
proof
  assume ?ok
  obtain r db where r: "auth_rotate env d (ae_hash env secret) now (sys_db s) = (r, db)"
    by (cases "auth_rotate env d (ae_hash env secret) now (sys_db s)")
  then show ?usable
    by (cases rule: auth_rotate_cases)
      (use \<open>?ok\<close> r in \<open>auto simp: auth_refresh_def rt_is_usable_def live_def\<close>)
next
  assume ?usable
  then obtain t u where t: "t \<in> set (db_tokens (sys_db s))" "rt_hash t = ae_hash env secret"
      "rt_revoked t = None" "now < rt_expires t"
    and u: "u \<in> set (db_users (sys_db s))" "user_pk u = rt_user t" "is_active u"
    by (auto simp: rt_is_usable_def)
  have f: "find (\<lambda>u. user_pk u = rt_user t) (db_users (sys_db s)) = Some u"
    using find_unique [OF assms(3) u(1)] u(2) by simp
  have hash: "ae_hash env (d_secret d) \<notin> rt_hash ` set (db_tokens (sys_db s))"
    using assms(1,2) by (auto simp: session_inv_def fresh_draw_def)
  have "is_inr (issue_pair env d u sid now (map (mark_revoked qs now) (db_tokens (sys_db s))))" for sid qs
    using assms(4) hash
    by (auto simp: issue_pair_def rt_issue_def rt_create_def Let_def image_iff split: prod.splits)
  then obtain pair ts where "issue_pair env d u (Some (rt_session t)) now
      (map (mark_revoked (\<lambda>x. rt_id x = rt_id t) now) (db_tokens (sys_db s))) = Inr (pair, ts)"
    by (metis is_inr.elims(2) surj_pair)
  with find_token [OF assms(1) t(1)] t u f show ?ok
    by (simp add: auth_refresh_def auth_rotate_def Let_def revoke_simps)
qed

theorem refresh_succeeds_iff_witness:
  "is_inr (fst (auth_refresh demo_env (demo_draw ''b'') ''a'' 20 (sys_db demo_login)))"
  using refresh_succeeds_iff [OF demo_login_inv, of demo_env "demo_draw ''b''" "''a''" 20]
  by (simp add: demo_login_eq demo_env_def demo_draw_def fresh_draw_def rt_is_usable_def frodo_def second_def)

text \<open>
  C8: a secret presented again after its token was revoked is a stolen one: the request is
  refused, no token of that session stays live, and every other session is left alone.
\<close>

theorem replay_ends_the_session:
  assumes "session_inv s" and "t \<in> set (db_tokens (sys_db s))" and "rt_hash t = ae_hash env secret"
    and "\<not> live t"
  shows "\<exists>ts. auth_refresh env d secret now (sys_db s)
             = (Inl (InvalidRefreshToken ''Refresh token replayed''), (sys_db s)\<lparr>db_tokens := ts\<rparr>)
          \<and> (\<forall>x \<in> set ts. rt_session x = rt_session t \<longrightarrow> \<not> live x)
          \<and> filter (\<lambda>x. rt_session x \<noteq> rt_session t) ts
              = filter (\<lambda>x. rt_session x \<noteq> rt_session t) (db_tokens (sys_db s))"
proof -
  let ?ts = "map (mark_revoked (\<lambda>x. rt_session x = rt_session t) now) (db_tokens (sys_db s))"
  have "auth_refresh env d secret now (sys_db s)
      = (Inl (InvalidRefreshToken ''Refresh token replayed''), (sys_db s)\<lparr>db_tokens := ?ts\<rparr>)"
    using find_token [OF assms(1,2)] assms(3,4)
    by (auto simp: auth_refresh_def auth_rotate_def Let_def revoke_simps live_def)
  moreover have "filter (\<lambda>x. rt_session x \<noteq> rt_session t) (map (mark_revoked (\<lambda>x. rt_session x = rt_session t) now) xs)
      = filter (\<lambda>x. rt_session x \<noteq> rt_session t) xs" for xs
    by (induction xs) (auto simp: mark_revoked_def)
  ultimately show ?thesis by (intro exI [of _ ?ts]) auto
qed

definition demo_rotated :: auth_sys where
  "demo_rotated = issued demo_env (demo_draw ''b'') None 20
     (snd (auth_refresh demo_env (demo_draw ''b'') ''a'' 20 (sys_db demo_login))) demo_login"

lemma demo_rotated_run: "auth_run demo_env (auth_init 0 [frodo]) demo_rotated"
  unfolding demo_rotated_def
  by (rule run_step [OF demo_run], rule step_refresh)
    (simp_all add: demo_login_eq fresh_draw_def demo_draw_def demo_env_def)

lemma demo_rotated_tokens:
  "map (\<lambda>t. (rt_hash t, rt_session t, rt_revoked t)) (db_tokens (sys_db demo_rotated))
     = [(''#a'', ''a'', Some 20), (''#b'', ''a'', None)]"
  by (simp add: demo_rotated_def issued_def demo_login_eq auth_refresh_def auth_rotate_def demo_env_def
      demo_draw_def frodo_def issue_pair_def rt_issue_def rt_create_def rt_revoke_def str_or_def
      encode_access_token_def Let_def second_def demo_settings_def plain_jwt_def)

lemma demo_rotated_first:
  obtains t where "t \<in> set (db_tokens (sys_db demo_rotated))" "rt_hash t = ''#a''" "rt_revoked t = Some 20"
proof -
  from demo_rotated_tokens obtain t ts
    where "db_tokens (sys_db demo_rotated) = t # ts" "rt_hash t = ''#a''" "rt_revoked t = Some 20"
    by (auto simp: map_eq_Cons_conv)
  then show thesis by (intro that [of t]) auto
qed

theorem replay_ends_the_session_witness:
  "\<exists>t ts. t \<in> set (db_tokens (sys_db demo_rotated)) \<and> rt_hash t = ''#a''
     \<and> auth_refresh demo_env (demo_draw ''c'') ''a'' 30 (sys_db demo_rotated)
        = (Inl (InvalidRefreshToken ''Refresh token replayed''), (sys_db demo_rotated)\<lparr>db_tokens := ts\<rparr>)
     \<and> (\<forall>x \<in> set ts. rt_session x = rt_session t \<longrightarrow> \<not> live x)"
proof -
  obtain t where t: "t \<in> set (db_tokens (sys_db demo_rotated))"
    "rt_hash t = ''#a''" "rt_revoked t = Some 20"
    by (rule demo_rotated_first)
  have "session_inv demo_rotated"
    by (rule auth_run_inv [OF demo_rotated_run demo_backend_ok session_inv_init])
  from replay_ends_the_session [OF this t(1), of demo_env "''a''" "demo_draw ''c''" 30] t
  show ?thesis by (auto simp: demo_env_def live_def)
qed

lemma auth_step_revoked_kept:
  assumes "auth_step env s s'" "x \<in> set (db_tokens (sys_db s'))" "rt_hash x \<in> sys_hashes s"
  shows "\<exists>y \<in> set (db_tokens (sys_db s)). rt_hash y = rt_hash x \<and> (\<not> live y \<longrightarrow> x = y)"
  using auth_step_rows [OF assms(1,2)] assms(3)
  by (auto simp: row_from_def live_def mark_revoked_keeps)

lemma auth_run_revoked_kept:
  assumes "auth_run env s s'" "backend_ok env" "session_inv s"
    and "y \<in> set (db_tokens (sys_db s))" "\<not> live y"
  shows "rt_hash y \<in> sys_hashes s' \<and> (\<forall>x \<in> set (db_tokens (sys_db s')). rt_hash x = rt_hash y \<longrightarrow> x = y)"
  using assms(1,3-5)
proof (induction rule: auth_run.induct)
  case (run_refl s)
  then show ?case by (auto simp: session_inv_def tokens_inv_def dest: distinct_map_unique)
next
  case (run_step s t u)
  then have t: "rt_hash y \<in> sys_hashes t" "\<And>z. z \<in> set (db_tokens (sys_db t)) \<Longrightarrow> rt_hash z = rt_hash y \<Longrightarrow> z = y"
    by auto
  have "x = y" if "x \<in> set (db_tokens (sys_db u))" "rt_hash x = rt_hash y" for x
    using auth_step_revoked_kept [OF run_step.hyps(2) that(1)] that(2) t run_step.prems(3) by auto
  with t(1) auth_step_hashes [OF run_step.hyps(2)] show ?case by auto
qed

text \<open>
  The audit trail is written once. A token revoked at some instant is, at every later state
  of the system, either purged or the same row with the same instant.
\<close>

theorem revocation_instants_are_kept:
  assumes "backend_ok env" and "auth_run env (auth_init t0 us) s" and "auth_run env s s'"
    and "y \<in> set (db_tokens (sys_db s))" and "rt_revoked y = Some at"
  shows "filter (\<lambda>x. rt_hash x = rt_hash y) (db_tokens (sys_db s')) \<in> {[], [y]}"
proof -
  have inv: "session_inv s" using assms(2,1) session_inv_init by (rule auth_run_inv)
  have "distinct (db_tokens (sys_db s'))"
    using auth_run_inv [OF assms(3,1) inv] by (auto simp: session_inv_def tokens_inv_def distinct_map)
  then have "distinct (filter (\<lambda>x. rt_hash x = rt_hash y) (db_tokens (sys_db s')))"
    by (rule distinct_filter)
  moreover have "\<forall>x \<in> set (filter (\<lambda>x. rt_hash x = rt_hash y) (db_tokens (sys_db s'))). x = y"
    using auth_run_revoked_kept [OF assms(3,1) inv assms(4)] assms(5) by (simp add: live_def)
  ultimately show ?thesis by (rule distinct_constant)
qed

theorem revocation_instants_are_kept_witness:
  "\<exists>y \<in> set (db_tokens (sys_db demo_rotated)).
     rt_revoked y = Some 20 \<and> filter (\<lambda>x. rt_hash x = rt_hash y) (db_tokens (sys_db demo_rotated)) \<in> {[], [y]}"
proof -
  obtain t where t: "t \<in> set (db_tokens (sys_db demo_rotated))" "rt_revoked t = Some 20"
    by (rule demo_rotated_first)
  then show ?thesis
    using revocation_instants_are_kept [OF demo_backend_ok demo_rotated_run run_refl t] by blast
qed

end
