(* ===== verification/Api_Keys.thy ===== *)
theory Api_Keys
  imports Tokens
begin

text \<open>
  Machine credentials: the mint of \<open>ApiKeyQuerySet\<close> (\<open>authentication/models/api_key.py\<close>),
  the secrets \<open>ApiKeyService\<close> remembers (\<open>authentication/services.py\<close>), the two API-key
  authenticators (\<open>authentication/authenticators.py\<close>, \<open>saas/security.py\<close>), and the checks
  the routes make of whatever authenticated (\<open>user/security.py\<close>). Clear secrets come from a
  sequence of draws; SHA-256 is a parameter.
\<close>

subsection \<open>Minting\<close>

text \<open>An instance is the row it will be and the \<open>secret\<close> attribute, which is no column.\<close>

record key_instance =
  inst_key :: api_key
  inst_secret :: "string option"

datatype key_error = KeyIntegrityError

fun mint_keys :: "(string \<Rightarrow> string) \<Rightarrow> (nat \<Rightarrow> string) \<Rightarrow> nat \<Rightarrow> key_instance list \<Rightarrow> key_instance list" where
  "mint_keys hash draw n [] = []"
| "mint_keys hash draw n (obj # objs) =
     (if key_hash (inst_key obj) \<noteq> [] then obj # mint_keys hash draw n objs
      else let secret = draw n in
        obj\<lparr>inst_key := (inst_key obj)\<lparr>key_hash := hash secret\<rparr>, inst_secret := Some secret\<rparr>
          # mint_keys hash draw (Suc n) objs)"

text \<open>One \<open>INSERT\<close>: the primary key, the name and the digest are unique.\<close>

definition insert_keys :: "api_key list \<Rightarrow> api_key list \<Rightarrow> key_error + api_key list" where
  "insert_keys new table =
     (if distinct (map key_id (table @ new)) \<and> distinct (map key_name (table @ new))
         \<and> distinct (map key_hash (table @ new))
      then Inr (table @ new) else Inl KeyIntegrityError)"

definition ak_bulk_create ::
    "(string \<Rightarrow> string) \<Rightarrow> (nat \<Rightarrow> string) \<Rightarrow> key_instance list \<Rightarrow> api_key list
     \<Rightarrow> key_error + (key_instance list \<times> api_key list)" where
  "ak_bulk_create hash draw objs table =
     (let objs' = mint_keys hash draw 0 objs in
      result_bind (insert_keys (map inst_key objs') table) (\<lambda>table'. Inr (objs', table')))"

definition create_with_secret ::
    "(string \<Rightarrow> string) \<Rightarrow> (nat \<Rightarrow> string) \<Rightarrow> string \<Rightarrow> string \<Rightarrow> string list \<Rightarrow> int option \<Rightarrow> api_key list
     \<Rightarrow> key_error + (api_key \<times> string option \<times> api_key list)" where
  "create_with_secret hash draw pk name scope expires table =
     (let instance = \<lparr>inst_key = \<lparr>key_id = pk, key_name = name, key_hash = [], key_scope = Some scope,
                                 key_active = True, key_expires = expires\<rparr>, inst_secret = None\<rparr>
      in result_bind (ak_bulk_create hash draw [instance] table)
           (\<lambda>(objs, table'). Inr (inst_key (hd objs), inst_secret (hd objs), table')))"

definition ak_usable :: "int \<Rightarrow> api_key list \<Rightarrow> api_key list" where
  "ak_usable now table =
     filter (\<lambda>k. key_expires k = None \<or> (\<exists>e. key_expires k = Some e \<and> e > now))
       (filter key_active table)"

subsection \<open>The service\<close>

text \<open>\<open>super().create\<close> ends in \<open>bulk_create\<close>; the secrets it minted are kept by primary key.\<close>

definition aks_create ::
    "(string \<Rightarrow> string) \<Rightarrow> (nat \<Rightarrow> string) \<Rightarrow> key_instance list \<Rightarrow> (string \<times> string) list \<Rightarrow> api_key list
     \<Rightarrow> key_error + (key_instance list \<times> (string \<times> string) list \<times> api_key list)" where
  "aks_create hash draw objs minted table =
     result_bind (ak_bulk_create hash draw objs table) (\<lambda>(objs', table').
       Inr (objs',
            fold (\<lambda>i m. case inst_secret i of
                Some (c # cs) \<Rightarrow> dict_put (key_id (inst_key i)) (c # cs) m
              | _ \<Rightarrow> m) objs' minted,
            table'))"

definition minted_secret :: "(string \<times> string) list \<Rightarrow> string \<Rightarrow> string option" where
  "minted_secret minted pk = dict_get minted pk"

subsection \<open>Authenticators\<close>

definition api_key_authenticate ::
    "(string \<Rightarrow> string) \<Rightarrow> int \<Rightarrow> api_key list \<Rightarrow> string \<Rightarrow> principal option" where
  "api_key_authenticate hash now table key =
     (if key = [] then None
      else map_option ApiKeyPrincipal (find (\<lambda>k. key_hash k = hash key) (ak_usable now table)))"

datatype saas_auth = SaasNotFound | SaasGranted | SaasRefused

definition saas_authenticate :: "string \<Rightarrow> string option \<Rightarrow> saas_auth" where
  "saas_authenticate expected key =
     (if expected = [] then SaasNotFound
      else case key of
          Some (c # cs) \<Rightarrow> if c # cs = expected then SaasGranted else SaasRefused
        | _ \<Rightarrow> SaasRefused)"

subsection \<open>Route permissions\<close>

definition is_authenticated :: "principal option \<Rightarrow> bool" where
  "is_authenticated auth = (case auth of None \<Rightarrow> False | Some p \<Rightarrow> principal_user p \<noteq> None)"

definition token_has_scope :: "string list \<Rightarrow> principal option \<Rightarrow> bool" where
  "token_has_scope scopes auth = (case auth of None \<Rightarrow> False | Some p \<Rightarrow> has_scopes p scopes)"

datatype route_action = RList | RRetrieve | RCreate | RDefaultValues | RUpdate | RDelete
  | RResequence | RDisplayName | RGroupBy

type_synonym permission_map = "(string \<times> string list) list"

definition get_action_permissions :: "permission_map \<Rightarrow> string \<Rightarrow> string list" where
  "get_action_permissions pm action = (case dict_get pm action of None \<Rightarrow> [] | Some ps \<Rightarrow> ps)"

text \<open>The scopes a route of the controller ends up requiring, or the refusal to build it.\<close>

definition optional_scope_decorator :: "permission_map \<Rightarrow> string \<Rightarrow> improperly_configured + string list option" where
  "optional_scope_decorator pm action =
     (let permissions = get_action_permissions pm action in
      Inr (if permissions \<noteq> [] then Some permissions else None))"

definition required_scope_decorator :: "permission_map \<Rightarrow> string \<Rightarrow> improperly_configured + string list option" where
  "required_scope_decorator pm action =
     (if get_action_permissions pm action = [] then Inl (BadName action)
      else Inr (Some (get_action_permissions pm action)))"

fun function_decorators :: "permission_map \<Rightarrow> route_action \<Rightarrow> improperly_configured + string list option" where
  "function_decorators pm RList = optional_scope_decorator pm ''read''"
| "function_decorators pm RRetrieve = optional_scope_decorator pm ''read''"
| "function_decorators pm RCreate = optional_scope_decorator pm ''create''"
| "function_decorators pm RDefaultValues = optional_scope_decorator pm ''create''"
| "function_decorators pm RUpdate = optional_scope_decorator pm ''update''"
| "function_decorators pm RDelete = optional_scope_decorator pm ''delete''"
| "function_decorators pm RResequence = required_scope_decorator pm ''resequence''"
| "function_decorators pm RDisplayName = required_scope_decorator pm ''display_name''"
| "function_decorators pm RGroupBy = required_scope_decorator pm ''group_by''"

definition route_allows :: "permission_map \<Rightarrow> route_action \<Rightarrow> principal option \<Rightarrow> bool" where
  "route_allows pm action auth =
     (case function_decorators pm action of
        Inl e \<Rightarrow> False
      | Inr None \<Rightarrow> True
      | Inr (Some scopes) \<Rightarrow> token_has_scope scopes auth)"

subsection \<open>Laws\<close>

lemma mint_keys_length [simp]: "length (mint_keys hash draw n objs) = length objs"
  by (induction hash draw n objs rule: mint_keys.induct) (auto simp: Let_def)

lemma mint_keys_ids [simp]:
  "map (\<lambda>i. key_id (inst_key i)) (mint_keys hash draw n objs) = map (\<lambda>i. key_id (inst_key i)) objs"
  by (induction hash draw n objs rule: mint_keys.induct) (auto simp: Let_def)

text \<open>Whatever leaves the mint carries its digest, and a clear secret only when that digest is its hash.\<close>

lemma mint_keys_minted:
  "i \<in> set (mint_keys hash draw n objs) \<Longrightarrow> (\<forall>x \<in> set objs. inst_secret x = None) \<Longrightarrow>
   (case inst_secret i of None \<Rightarrow> key_hash (inst_key i) \<noteq> [] | Some s \<Rightarrow> key_hash (inst_key i) = hash s)"
  by (induction hash draw n objs rule: mint_keys.induct) (auto simp: Let_def split: if_splits)

lemma find_usable_unique:
  assumes "distinct (map key_hash table)" "k \<in> set table" "k \<in> set (ak_usable now table)"
  shows "find (\<lambda>x. key_hash x = key_hash k) (ak_usable now table) = Some k"
  by (rule find_unique) (use assms in \<open>auto simp: ak_usable_def distinct_map_filter\<close>)

lemma insert_keys_Inr:
  "insert_keys new table = Inr t \<Longrightarrow> t = table @ new \<and> distinct (map key_hash t) \<and> distinct (map key_id t)"
  by (auto simp: insert_keys_def split: if_splits)

text \<open>
  The secret a creation hands back is the credential of that very key: presented to the
  authenticator it yields the key, with exactly the scopes it was created with, until it
  expires, and it is the key of no user.
\<close>

theorem created_key_authenticates:
  assumes "create_with_secret hash draw pk name scope expires table = Inr (k, Some secret, table')"
    and "secret \<noteq> []" and "expires = None \<or> (\<exists>e. expires = Some e \<and> now < e)"
  shows "\<exists>p. api_key_authenticate hash now table' secret = Some p
     \<and> p = ApiKeyPrincipal k \<and> key_name k = name \<and> key_hash k = hash secret
     \<and> principal_scopes p = set scope \<and> principal_user p = None
     \<and> (\<forall>ps. token_has_scope ps (Some p) \<longleftrightarrow> set ps \<subseteq> set scope) \<and> \<not> is_authenticated (Some p)"
proof -
  let ?k = "\<lparr>key_id = pk, key_name = name, key_hash = hash (draw 0), key_scope = Some scope,
             key_active = True, key_expires = expires\<rparr>"
  from assms(1) have ins: "insert_keys [?k] table = Inr table'" and k: "k = ?k" "secret = draw 0"
    by (auto simp: create_with_secret_def ak_bulk_create_def Let_def)
  from insert_keys_Inr [OF ins] have t: "table' = table @ [k]" "distinct (map key_hash table')"
    by (auto simp: k)
  have "k \<in> set (ak_usable now table')" using t k assms(3) by (auto simp: ak_usable_def)
  then have "find (\<lambda>x. key_hash x = key_hash k) (ak_usable now table') = Some k"
    using t by (intro find_usable_unique) auto
  with k assms(2) show ?thesis
    by (simp add: api_key_authenticate_def token_has_scope_def has_scopes_iff is_authenticated_def or_empty_def)
qed

theorem created_key_authenticates_witness:
  "\<exists>k t. create_with_secret (\<lambda>s. CHR ''#'' # s) (\<lambda>n. ''s3cret'') ''k1'' ''ci'' [''totem.user.read''] None []
       = Inr (k, Some ''s3cret'', t)
     \<and> api_key_authenticate (\<lambda>s. CHR ''#'' # s) 7 t ''s3cret'' = Some (ApiKeyPrincipal k)"
proof -
  obtain k t where kt: "create_with_secret (\<lambda>s. CHR ''#'' # s) (\<lambda>n. ''s3cret'') ''k1'' ''ci''
      [''totem.user.read''] None [] = Inr (k, Some ''s3cret'', t)"
    by (auto simp: create_with_secret_def ak_bulk_create_def insert_keys_def Let_def)
  from created_key_authenticates [OF kt, of 7] kt show ?thesis by auto
qed

text \<open>
  An API key opens a route of a controller exactly when the route requires no scope or all
  its required scopes were granted to the key; nothing authenticated opens only the former, and
  a route that must name its scopes is never built without them.
\<close>

theorem api_key_route_access:
  "(route_allows pm action (Some (ApiKeyPrincipal k)) \<longleftrightarrow>
     (\<exists>r. function_decorators pm action = Inr r
        \<and> (case r of None \<Rightarrow> True | Some ps \<Rightarrow> set ps \<subseteq> set (or_empty (key_scope k)))))
   \<and> (route_allows pm action None \<longleftrightarrow> function_decorators pm action = Inr None)
   \<and> (\<forall>act \<in> {RResequence, RDisplayName, RGroupBy}. \<not> route_allows pm act None)"
proof (intro conjI ballI)
  fix act assume "act \<in> {RResequence, RDisplayName, RGroupBy}"
  then show "\<not> route_allows pm act None"
    by (auto simp: route_allows_def token_has_scope_def required_scope_decorator_def split: if_splits)
qed (auto simp: route_allows_def token_has_scope_def has_scopes_iff split: sum.splits option.splits)

theorem api_key_route_access_witness:
  "\<not> route_allows [(''resequence'', [])] RResequence None"
  using api_key_route_access [of "[(''resequence'', [])]" RResequence] by blast

text \<open>
  The operator API answers only to a configured key, and only to that one.
\<close>

theorem operator_key_exact:
  "saas_authenticate expected key = SaasGranted \<longleftrightarrow> expected \<noteq> [] \<and> key = Some expected"
  by (auto simp: saas_authenticate_def split: option.splits list.splits)

end
