(* ===== verification/Access_Policy.thy ===== *)
theory Access_Policy
  imports Access_Rights
begin

text \<open>
  Row-level access (\<open>user/access_policy.py\<close>) and every rule the program declares
  (\<open>user/security.py\<close>, \<open>account/security.py\<close>, \<open>website/security.py\<close>). Django's \<open>Q\<close>
  is a parameter, the record \<open>q_ops\<close>, with its documented behaviour as \<open>q_laws\<close>; a queryset
  is the list of the rows it selects.
\<close>

subsection \<open>Q expressions\<close>

record ('q, 'row) q_ops =
  q_empty :: 'q
  q_and :: "'q \<Rightarrow> 'q \<Rightarrow> 'q"
  q_or :: "'q \<Rightarrow> 'q \<Rightarrow> 'q"
  q_not :: "'q \<Rightarrow> 'q"
  q_exact :: "string \<Rightarrow> string \<Rightarrow> 'q"
  q_in :: "string \<Rightarrow> string list \<Rightarrow> 'q"
  q_bool :: "'q \<Rightarrow> bool"
  q_sat :: "'q \<Rightarrow> 'row \<Rightarrow> bool"
  q_field :: "'row \<Rightarrow> string \<Rightarrow> string option"

text \<open>
  An empty \<open>Q\<close> is falsy and is the unit of both operators; a lookup is truthy and means what
  it says; a combination of truthy expressions is truthy.
\<close>

definition q_laws :: "('q, 'row) q_ops \<Rightarrow> bool" where
  "q_laws q \<longleftrightarrow>
     \<not> q_bool q (q_empty q)
   \<and> (\<forall>a b. q_bool q (q_and q a b) \<longleftrightarrow> q_bool q a \<or> q_bool q b)
   \<and> (\<forall>a b. q_bool q (q_or q a b) \<longleftrightarrow> q_bool q a \<or> q_bool q b)
   \<and> (\<forall>a b r. q_sat q (q_and q a b) r \<longleftrightarrow>
        (q_bool q a \<longrightarrow> q_sat q a r) \<and> (q_bool q b \<longrightarrow> q_sat q b r))
   \<and> (\<forall>a b r. q_bool q a \<and> q_bool q b \<longrightarrow> (q_sat q (q_or q a b) r \<longleftrightarrow> q_sat q a r \<or> q_sat q b r))
   \<and> (\<forall>f v. q_bool q (q_exact q f v) \<and> (\<forall>r. q_sat q (q_exact q f v) r \<longleftrightarrow> q_field q r f = Some v))
   \<and> (\<forall>f vs. q_bool q (q_in q f vs)
        \<and> (\<forall>r. q_sat q (q_in q f vs) r \<longleftrightarrow> (\<exists>v \<in> set vs. q_field q r f = Some v)))
   \<and> (\<forall>a. q_bool q a \<longrightarrow> q_bool q (q_not q a) \<and> (\<forall>r. q_sat q (q_not q a) r \<longleftrightarrow> \<not> q_sat q a r))"

subsection \<open>Rules and their registry\<close>

record 'q rule_class =
  cls_identifier :: "string option"
  cls_model :: "string option"
  cls_name :: "string option"
  cls_operations :: "string list"
  cls_scope_filter :: "user option \<Rightarrow> 'q"

record 'q access_rule =
  rule_identifier :: string
  rule_model :: string
  rule_name :: string
  operations :: "string list"
  scope_filter :: "user option \<Rightarrow> 'q"

record 'q policy_registry =
  rule_registry :: "(string \<times> 'q access_rule) list"
  rule_model_registry :: "(string \<times> 'q access_rule list) list"

datatype policy_error = NoModel | NoIdentifier | NonUnique string | NoName

definition BASE_RULE_ID :: string where "BASE_RULE_ID = ''__base_rule__''"

definition empty_policy :: "'q policy_registry" where
  "empty_policy = \<lparr>rule_registry = [], rule_model_registry = []\<rparr>"

text \<open>A model or an identifier that is not one is \<open>None\<close>; so is a missing name.\<close>

definition register_rule :: "'q rule_class \<Rightarrow> 'q policy_registry \<Rightarrow> policy_error + 'q policy_registry" where
  "register_rule c reg =
     (case cls_model c of None \<Rightarrow> Inl NoModel
      | Some m \<Rightarrow>
     (case cls_identifier c of None \<Rightarrow> Inl NoIdentifier
      | Some i \<Rightarrow>
        if dict_get (rule_registry reg) i \<noteq> None then Inl (NonUnique i)
        else (case cls_name c of None \<Rightarrow> Inl NoName
          | Some n \<Rightarrow>
            if n = [] then Inl NoName
            else let r = \<lparr>rule_identifier = i, rule_model = m, rule_name = n,
                          operations = cls_operations c, scope_filter = cls_scope_filter c\<rparr>
              in Inr \<lparr>rule_registry = dict_put i r (rule_registry reg),
                      rule_model_registry =
                        dict_put m ((case dict_get (rule_model_registry reg) m of None \<Rightarrow> [] | Some rs \<Rightarrow> rs) @ [r])
                          (rule_model_registry reg)\<rparr>)))"

text \<open>The metaclass registers every rule class but the base one.\<close>

definition new_rule_class :: "'q rule_class \<Rightarrow> 'q policy_registry \<Rightarrow> policy_error + 'q policy_registry" where
  "new_rule_class c reg =
     (if cls_identifier c = Some BASE_RULE_ID then Inr reg else register_rule c reg)"

definition get_model_rules :: "'q policy_registry \<Rightarrow> string \<Rightarrow> 'q access_rule list" where
  "get_model_rules reg m = (case dict_get (rule_model_registry reg) m of None \<Rightarrow> [] | Some rs \<Rightarrow> rs)"

definition get_rules :: "'q policy_registry \<Rightarrow> string list \<Rightarrow> 'q access_rule list" where
  "get_rules reg ids = map snd (filter (\<lambda>(rid, r). rid \<in> set ids) (rule_registry reg))"

definition get_matching_rules ::
    "'q policy_registry \<Rightarrow> string \<Rightarrow> string option \<Rightarrow> string list option \<Rightarrow> (string \<times> 'q access_rule) list" where
  "get_matching_rules reg m operation rule_ids =
     fold (\<lambda>r result.
        if (case operation of None \<Rightarrow> False | Some op \<Rightarrow> op \<notin> set (operations r)) then result
        else if (case rule_ids of None \<Rightarrow> False | Some ids \<Rightarrow> rule_identifier r \<notin> set ids) then result
        else dict_put (rule_identifier r) r result)
      (get_model_rules reg m) []"

definition get_rule_choices :: "(string \<Rightarrow> string) \<Rightarrow> 'q policy_registry \<Rightarrow> bool \<Rightarrow> (string \<times> string) list" where
  "get_rule_choices verbose_name reg model_name_prefix =
     (if model_name_prefix
      then map (\<lambda>(rid, r). (rid, verbose_name (rule_model r) @ '': '' @ rule_name r)) (rule_registry reg)
      else map (\<lambda>(rid, r). (rid, rule_name r)) (rule_registry reg))"

subsection \<open>Applying the rules\<close>

record access_context =
  ctx_user :: "user option"
  ctx_roles :: "role list option"

text \<open>The roles a context acts with: those it carries, else those of its user, else none.\<close>

definition context_roles :: "access_context \<Rightarrow> role list" where
  "context_roles ctx =
     (case ctx_roles ctx of Some rs \<Rightarrow> rs
      | None \<Rightarrow> (case ctx_user ctx of None \<Rightarrow> [] | Some u \<Rightarrow> user_roles u))"

definition role_lookup ::
    "('q, 'row) q_ops \<Rightarrow> user option \<Rightarrow> (string \<times> 'q access_rule) list \<Rightarrow> string list \<Rightarrow> 'q" where
  "role_lookup q u matching rule_ids =
     fold (\<lambda>rule_id q_expr.
        case dict_get matching rule_id of
          None \<Rightarrow> q_expr
        | Some r \<Rightarrow> q_and q q_expr (scope_filter r u)) rule_ids (q_empty q)"

definition apply_access_rules ::
    "('q, 'row) q_ops \<Rightarrow> 'q policy_registry \<Rightarrow> string \<Rightarrow> string \<Rightarrow> access_context \<Rightarrow> 'row list \<Rightarrow> 'row list" where
  "apply_access_rules q reg m operation ctx queryset =
     (let roles = context_roles ctx;
          rule_groups = map (\<lambda>r. or_empty (role_rules r)) roles;
          role_rule_ids = concat rule_groups;
          matching = get_matching_rules reg m (Some operation) (Some role_rule_ids);
          lookups = filter (q_bool q) (map (role_lookup q (ctx_user ctx) matching) rule_groups)
      in case lookups of
           [] \<Rightarrow> queryset
         | l # ls \<Rightarrow>
             let rule_lookup = foldl (q_or q) l ls in
             if q_bool q rule_lookup then filter (q_sat q rule_lookup) queryset else queryset)"

text \<open>The context of a request: the user of whatever authenticated it, if it has one.\<close>

definition request_to_context :: "user option option \<Rightarrow> access_context" where
  "request_to_context auth =
     \<lparr>ctx_user = (case auth of None \<Rightarrow> None | Some u \<Rightarrow> u), ctx_roles = None\<rparr>"

subsection \<open>The rules of the program\<close>

definition own_filter :: "('q, 'row) q_ops \<Rightarrow> string \<Rightarrow> user option \<Rightarrow> 'q" where
  "own_filter q path u = (case u of None \<Rightarrow> q_empty q | Some v \<Rightarrow> q_exact q path (user_pk v))"

definition all_filter :: "('q, 'row) q_ops \<Rightarrow> user option \<Rightarrow> 'q" where
  "all_filter q u = q_not q (q_in q ''pk'' [])"

definition crud :: "string list" where
  "crud = [''create'', ''read'', ''update'', ''delete'']"

definition user_manage_own_profile :: "('q, 'row) q_ops \<Rightarrow> 'q rule_class" where
  "user_manage_own_profile q =
     \<lparr>cls_identifier = Some ''user_manage_own_profile'', cls_model = Some ''user.User'',
      cls_name = Some ''Manage My Own User Profile'', cls_operations = [''read'', ''update''],
      cls_scope_filter = own_filter q ''pk''\<rparr>"

definition user_manage_all_user :: "('q, 'row) q_ops \<Rightarrow> 'q rule_class" where
  "user_manage_all_user q =
     \<lparr>cls_identifier = Some ''user_manage_all_user'', cls_model = Some ''user.User'',
      cls_name = Some ''Manage All User Profile'',
      cls_operations = [''read'', ''create'', ''update'', ''delete''],
      cls_scope_filter = all_filter q\<rparr>"

definition budget_manage_own :: "('q, 'row) q_ops \<Rightarrow> 'q rule_class" where
  "budget_manage_own q =
     \<lparr>cls_identifier = Some ''budget_manage_own'', cls_model = Some ''account.Budget'',
      cls_name = Some ''Manage Own Budgets'', cls_operations = crud,
      cls_scope_filter = own_filter q ''user_id''\<rparr>"

definition budget_position_manage_own :: "('q, 'row) q_ops \<Rightarrow> 'q rule_class" where
  "budget_position_manage_own q =
     \<lparr>cls_identifier = Some ''budget_position_manage_own'', cls_model = Some ''account.BudgetPosition'',
      cls_name = Some ''Manage Positions of Own Budgets'', cls_operations = crud,
      cls_scope_filter = own_filter q ''budget__user_id''\<rparr>"

definition budget_line_manage_own :: "('q, 'row) q_ops \<Rightarrow> 'q rule_class" where
  "budget_line_manage_own q =
     \<lparr>cls_identifier = Some ''budget_line_manage_own'', cls_model = Some ''account.BudgetLine'',
      cls_name = Some ''Manage Lines of Own Budgets'', cls_operations = crud,
      cls_scope_filter = own_filter q ''budget__user_id''\<rparr>"

definition budget_manage_all :: "('q, 'row) q_ops \<Rightarrow> 'q rule_class" where
  "budget_manage_all q =
     \<lparr>cls_identifier = Some ''budget_manage_all'', cls_model = Some ''account.Budget'',
      cls_name = Some ''Manage All Budgets'', cls_operations = crud, cls_scope_filter = all_filter q\<rparr>"

definition budget_position_manage_all :: "('q, 'row) q_ops \<Rightarrow> 'q rule_class" where
  "budget_position_manage_all q =
     \<lparr>cls_identifier = Some ''budget_position_manage_all'', cls_model = Some ''account.BudgetPosition'',
      cls_name = Some ''Manage Positions of All Budgets'', cls_operations = crud,
      cls_scope_filter = all_filter q\<rparr>"

definition budget_line_manage_all :: "('q, 'row) q_ops \<Rightarrow> 'q rule_class" where
  "budget_line_manage_all q =
     \<lparr>cls_identifier = Some ''budget_line_manage_all'', cls_model = Some ''account.BudgetLine'',
      cls_name = Some ''Manage Lines of All Budgets'', cls_operations = crud,
      cls_scope_filter = all_filter q\<rparr>"

definition website_manage_own_page :: "('q, 'row) q_ops \<Rightarrow> 'q rule_class" where
  "website_manage_own_page q =
     \<lparr>cls_identifier = Some ''website_manage_own_page'', cls_model = Some ''website.Page'',
      cls_name = Some ''Manage Own Page'', cls_operations = crud,
      cls_scope_filter = own_filter q ''user_id''\<rparr>"

definition program_rules :: "('q, 'row) q_ops \<Rightarrow> 'q rule_class list" where
  "program_rules q =
     [user_manage_own_profile q, user_manage_all_user q, budget_manage_own q,
      budget_position_manage_own q, budget_line_manage_own q, budget_manage_all q,
      budget_position_manage_all q, budget_line_manage_all q, website_manage_own_page q]"

subsection \<open>The registry\<close>

text \<open>The program-wide registration goes through the metaclass: a keyed registry.\<close>

definition rule_of :: "'q rule_class \<Rightarrow> 'q access_rule" where
  "rule_of c = \<lparr>rule_identifier = the (cls_identifier c), rule_model = the (cls_model c),
     rule_name = the (cls_name c), operations = cls_operations c, scope_filter = cls_scope_filter c\<rparr>"

lemma register_rule_Inr:
  "register_rule c reg = Inr reg' \<longleftrightarrow>
     (\<exists>m i n. cls_model c = Some m \<and> cls_identifier c = Some i \<and> cls_name c = Some n \<and> n \<noteq> []
        \<and> dict_get (rule_registry reg) i = None
        \<and> reg' = \<lparr>rule_registry = dict_put i (rule_of c) (rule_registry reg),
                  rule_model_registry = dict_put m (get_model_rules reg m @ [rule_of c]) (rule_model_registry reg)\<rparr>)"
  by (auto simp: register_rule_def rule_of_def get_model_rules_def Let_def split: option.splits)

interpretation rule_reg: keyed_registry register_rule "\<lambda>reg. dict_get (rule_registry reg)"
    "\<lambda>c. the (cls_identifier c)" rule_of
  by unfold_locales (auto simp: register_rule_Inr)

definition policy_wf :: "'q policy_registry \<Rightarrow> bool" where
  "policy_wf reg \<longleftrightarrow>
     (\<forall>m. distinct (map rule_identifier (get_model_rules reg m))
        \<and> (\<forall>r \<in> set (get_model_rules reg m).
             rule_model r = m \<and> dict_get (rule_registry reg) (rule_identifier r) = Some r))"

lemma policy_wf_empty: "policy_wf empty_policy"
  by (simp add: policy_wf_def empty_policy_def get_model_rules_def)

lemma get_model_rules_put:
  "get_model_rules (reg\<lparr>rule_registry := d, rule_model_registry := dict_put m rs (rule_model_registry reg)\<rparr>) k
     = (if k = m then rs else get_model_rules reg k)"
  by (simp add: get_model_rules_def)

lemma policy_wf_register:
  assumes "policy_wf reg" "register_rule c reg = Inr reg'"
  shows "policy_wf reg'"
proof -
  from assms(2) obtain m i n where c: "cls_model c = Some m" "cls_identifier c = Some i"
      "dict_get (rule_registry reg) i = None"
    and reg': "reg' = reg\<lparr>rule_registry := dict_put i (rule_of c) (rule_registry reg),
        rule_model_registry := dict_put m (get_model_rules reg m @ [rule_of c]) (rule_model_registry reg)\<rparr>"
    unfolding register_rule_Inr by auto
  have new: "rule_identifier r \<noteq> i" if "r \<in> set (get_model_rules reg k)" for r k
    using assms(1) c(3) that by (auto simp: policy_wf_def)
  have rule: "rule_identifier (rule_of c) = i" "rule_model (rule_of c) = m"
    using c by (simp_all add: rule_of_def)
  have rr: "rule_registry reg' = dict_put i (rule_of c) (rule_registry reg)" by (simp add: reg')
  show ?thesis
    unfolding policy_wf_def
  proof (intro allI conjI ballI)
    fix k
    show "distinct (map rule_identifier (get_model_rules reg' k))"
      using assms(1) new rule unfolding reg' get_model_rules_put by (force simp: policy_wf_def)
    fix r assume "r \<in> set (get_model_rules reg' k)"
    then have "r \<in> set (get_model_rules reg k) \<or> k = m \<and> r = rule_of c"
      unfolding reg' get_model_rules_put by (auto split: if_splits)
    then show "rule_model r = k" "dict_get (rule_registry reg') (rule_identifier r) = Some r"
      using assms(1) new rule unfolding rr by (auto simp: policy_wf_def)
  qed
qed

lemma policy_wf_register_all:
  "policy_wf reg \<Longrightarrow> register_all register_rule cs reg = Inr reg' \<Longrightarrow> policy_wf reg'"
  by (induction cs arbitrary: reg) (auto dest: policy_wf_register)

subsection \<open>What applying the rules selects\<close>

lemma fold_put_lookup:
  "distinct (map f rs) \<Longrightarrow>
   dict_get (fold (\<lambda>r d. if P r then d else if R r then d else dict_put (f r) r d) rs d) k =
     (case find (\<lambda>r. f r = k \<and> \<not> P r \<and> \<not> R r) rs of Some r \<Rightarrow> Some r | None \<Rightarrow> dict_get d k)"
proof (induction rs arbitrary: d)
  case (Cons r rs)
  have "find (\<lambda>x. f x = f r \<and> \<not> P x \<and> \<not> R x) rs = None"
    using Cons.prems by (auto simp: find_None_mem image_iff)
  with Cons show ?case by (auto split: option.splits)
qed simp

lemma get_matching_rules_iff:
  assumes "policy_wf reg"
  shows "dict_get (get_matching_rules reg m (Some op) (Some ids)) k = Some r \<longleftrightarrow>
     r \<in> set (get_model_rules reg m) \<and> rule_identifier r = k \<and> op \<in> set (operations r) \<and> k \<in> set ids"
proof -
  let ?Q = "\<lambda>r. rule_identifier r = k \<and> \<not> op \<notin> set (operations r) \<and> \<not> rule_identifier r \<notin> set ids"
  have d: "distinct (map rule_identifier (get_model_rules reg m))"
    using assms by (auto simp: policy_wf_def)
  have "dict_get (get_matching_rules reg m (Some op) (Some ids)) k = find ?Q (get_model_rules reg m)"
    by (simp add: get_matching_rules_def fold_put_lookup [OF d] split: option.splits)
  moreover have "find ?Q (get_model_rules reg m) = Some r"
    if r: "r \<in> set (get_model_rules reg m)" "?Q r"
  proof -
    obtain x where x: "find ?Q (get_model_rules reg m) = Some x"
      using r by (cases "find ?Q (get_model_rules reg m)") (auto simp: find_None_mem)
    from find_Some_iff_mem [OF x] r d have "x = r" by (metis distinct_map_unique)
    with x show ?thesis by simp
  qed
  ultimately show ?thesis by (auto dest: find_Some_iff_mem)
qed

text \<open>The filters a role puts on a model for an operation: its own rules there, less the empty ones.\<close>

definition role_limits ::
    "('q, 'row) q_ops \<Rightarrow> 'q policy_registry \<Rightarrow> string \<Rightarrow> string \<Rightarrow> user option \<Rightarrow> role \<Rightarrow> 'q access_rule list" where
  "role_limits q reg m op u role =
     filter (\<lambda>r. rule_identifier r \<in> set (or_empty (role_rules role)) \<and> op \<in> set (operations r)
               \<and> q_bool q (scope_filter r u)) (get_model_rules reg m)"

definition guarded_sat :: "('q, 'row) q_ops \<Rightarrow> 'q \<Rightarrow> 'row \<Rightarrow> bool" where
  "guarded_sat q e row \<longleftrightarrow> (q_bool q e \<longrightarrow> q_sat q e row)"

lemma q_empty_laws: "q_laws q \<Longrightarrow> \<not> q_bool q (q_empty q) \<and> guarded_sat q (q_empty q) row"
  by (simp add: q_laws_def guarded_sat_def)

lemma q_and_laws:
  assumes "q_laws q"
  shows "q_bool q (q_and q a b) \<longleftrightarrow> q_bool q a \<or> q_bool q b"
    "guarded_sat q (q_and q a b) row \<longleftrightarrow> guarded_sat q a row \<and> guarded_sat q b row"
  using assms by (auto simp: q_laws_def guarded_sat_def)

lemma q_or_fold:
  assumes "q_laws q"
  shows "q_bool q l \<Longrightarrow> \<forall>x \<in> set ls. q_bool q x \<Longrightarrow>
     q_bool q (foldl (q_or q) l ls) \<and>
     (q_sat q (foldl (q_or q) l ls) row \<longleftrightarrow> (\<exists>x \<in> set (l # ls). q_sat q x row))"
proof (induction ls arbitrary: l)
  case (Cons x ls)
  have "q_bool q (q_or q l x)" "q_sat q (q_or q l x) row \<longleftrightarrow> q_sat q l row \<or> q_sat q x row"
    using assms Cons.prems by (auto simp: q_laws_def)
  with Cons.IH [of "q_or q l x"] Cons.prems show ?case by auto
qed simp

lemma role_lookup_fold:
  fixes u :: "user option" and matching :: "(string \<times> 'q access_rule) list"
  assumes "q_laws q"
  defines "step \<equiv> \<lambda>rule_id e. case dict_get matching rule_id of None \<Rightarrow> e | Some r \<Rightarrow> q_and q e (scope_filter r u)"
  shows "q_bool q (fold step ids e) \<longleftrightarrow>
       q_bool q e \<or> (\<exists>i \<in> set ids. \<exists>r. dict_get matching i = Some r \<and> q_bool q (scope_filter r u))"
    and "guarded_sat q (fold step ids e) row \<longleftrightarrow>
       guarded_sat q e row \<and> (\<forall>i \<in> set ids. \<forall>r. dict_get matching i = Some r \<longrightarrow> guarded_sat q (scope_filter r u) row)"
  by (induction ids arbitrary: e)
    (auto simp: step_def q_and_laws [OF assms(1)] split: option.splits)

lemma role_lookup_limits:
  fixes u :: "user option" and m op :: string
  assumes "q_laws q" "policy_wf reg" "set (or_empty (role_rules role)) \<subseteq> set ids"
  defines "e \<equiv> role_lookup q u (get_matching_rules reg m (Some op) (Some ids)) (or_empty (role_rules role))"
  shows "q_bool q e \<longleftrightarrow> role_limits q reg m op u role \<noteq> []"
    and "q_bool q e \<Longrightarrow> q_sat q e row \<longleftrightarrow> (\<forall>r \<in> set (role_limits q reg m op u role). q_sat q (scope_filter r u) row)"
proof -
  have g: "guarded_sat q e row \<longleftrightarrow> (\<forall>r \<in> set (role_limits q reg m op u role). q_sat q (scope_filter r u) row)"
    using assms(3) unfolding e_def role_lookup_def role_lookup_fold(2) [OF assms(1)]
    by (auto simp: get_matching_rules_iff [OF assms(2)] role_limits_def q_empty_laws [OF assms(1)] guarded_sat_def)
  show "q_bool q e \<longleftrightarrow> role_limits q reg m op u role \<noteq> []"
    using assms(3) unfolding e_def role_lookup_def role_lookup_fold(1) [OF assms(1)]
    by (auto simp: get_matching_rules_iff [OF assms(2)] role_limits_def q_empty_laws [OF assms(1)]
        filter_empty_conv)
  show "q_bool q e \<Longrightarrow> q_sat q e row \<longleftrightarrow> (\<forall>r \<in> set (role_limits q reg m op u role). q_sat q (scope_filter r u) row)"
    using g by (simp add: guarded_sat_def)
qed

text \<open>The selection, role by role.\<close>

definition visible ::
    "('q, 'row) q_ops \<Rightarrow> 'q policy_registry \<Rightarrow> string \<Rightarrow> string \<Rightarrow> access_context \<Rightarrow> 'row \<Rightarrow> bool" where
  "visible q reg m op ctx row \<longleftrightarrow>
     (let limits = role_limits q reg m op (ctx_user ctx); roles = context_roles ctx in
      (\<forall>role \<in> set roles. limits role = [])
      \<or> (\<exists>role \<in> set roles. limits role \<noteq> []
           \<and> (\<forall>r \<in> set (limits role). q_sat q (scope_filter r (ctx_user ctx)) row)))"

lemma apply_access_rules_visible:
  assumes q: "q_laws q" and reg: "policy_wf reg"
  shows "apply_access_rules q reg m op ctx rows = filter (visible q reg m op ctx) rows"
proof -
  let ?u = "ctx_user ctx" and ?roles = "context_roles ctx"
  let ?ids = "concat (map (\<lambda>r. or_empty (role_rules r)) ?roles)"
  let ?e = "\<lambda>role. role_lookup q ?u (get_matching_rules reg m (Some op) (Some ?ids)) (or_empty (role_rules role))"
  let ?ls = "filter (q_bool q) (map ?e ?roles)"
  have ids: "set (or_empty (role_rules role)) \<subseteq> set ?ids" if "role \<in> set ?roles" for role
    using that by auto
  note e = role_lookup_limits [OF q reg ids]
  have eq: "apply_access_rules q reg m op ctx rows = (case ?ls of [] \<Rightarrow> rows
     | l # ls \<Rightarrow> if q_bool q (foldl (q_or q) l ls) then filter (q_sat q (foldl (q_or q) l ls)) rows else rows)"
    unfolding apply_access_rules_def Let_def by (simp only: map_map comp_def)
  show ?thesis
  proof (cases ?ls)
    case Nil
    then have "\<forall>role \<in> set ?roles. role_limits q reg m op ?u role = []"
      using e(1) by (fastforce simp: filter_empty_conv)
    with Nil eq show ?thesis by (simp add: visible_def Let_def)
  next
    case (Cons l ls)
    have set_ls: "set (l # ls) = {?e role |role. role \<in> set ?roles \<and> role_limits q reg m op ?u role \<noteq> []}"
      using e(1) by (auto simp flip: Cons)
    have "\<forall>x \<in> set (l # ls). q_bool q x" unfolding Cons [symmetric] by simp
    then have truthy: "q_bool q l" "\<forall>x \<in> set ls. q_bool q x" by simp_all
    have "q_sat q (foldl (q_or q) l ls) row \<longleftrightarrow> visible q reg m op ctx row" for row
    proof -
      have "q_sat q (foldl (q_or q) l ls) row \<longleftrightarrow> (\<exists>x \<in> set (l # ls). q_sat q x row)"
        using q_or_fold [OF q truthy] by blast
      also have "\<dots> \<longleftrightarrow> (\<exists>role \<in> set ?roles. role_limits q reg m op ?u role \<noteq> []
           \<and> (\<forall>r \<in> set (role_limits q reg m op ?u role). q_sat q (scope_filter r ?u) row))"
        unfolding set_ls using e by blast
      also have "\<dots> \<longleftrightarrow> visible q reg m op ctx row"
      proof -
        have "l \<in> set (l # ls)" by simp
        then obtain role where "role \<in> set ?roles" "role_limits q reg m op ?u role \<noteq> []"
          unfolding set_ls by blast
        then show ?thesis by (auto simp: visible_def Let_def)
      qed
      finally show ?thesis .
    qed
    then have "q_sat q (foldl (q_or q) l ls) = visible q reg m op ctx" by (rule ext)
    moreover have "q_bool q (foldl (q_or q) l ls)" using q_or_fold [OF q truthy] by blast
    ultimately show ?thesis by (simp add: eq Cons)
  qed
qed

subsection \<open>A concrete Q\<close>

type_synonym row = "(string \<times> string) list"

definition pred_q :: "((row \<Rightarrow> bool) option, row) q_ops" where
  "pred_q =
     \<lparr>q_empty = None,
      q_and = (\<lambda>a b. case (a, b) of (None, _) \<Rightarrow> b | (_, None) \<Rightarrow> a | (Some f, Some g) \<Rightarrow> Some (\<lambda>r. f r \<and> g r)),
      q_or = (\<lambda>a b. case (a, b) of (None, _) \<Rightarrow> b | (_, None) \<Rightarrow> a | (Some f, Some g) \<Rightarrow> Some (\<lambda>r. f r \<or> g r)),
      q_not = map_option (\<lambda>f r. \<not> f r),
      q_exact = (\<lambda>f v. Some (\<lambda>r. map_of r f = Some v)),
      q_in = (\<lambda>f vs. Some (\<lambda>r. \<exists>v \<in> set vs. map_of r f = Some v)),
      q_bool = (\<lambda>a. a \<noteq> None),
      q_sat = (\<lambda>a r. case a of None \<Rightarrow> True | Some f \<Rightarrow> f r),
      q_field = map_of\<rparr>"

lemma pred_q_laws: "q_laws pred_q"
  by (auto simp: q_laws_def pred_q_def split: option.splits)

subsection \<open>The program's registry\<close>

definition program_policy :: "('q, 'row) q_ops \<Rightarrow> 'q policy_registry" where
  "program_policy q = (case register_all new_rule_class (program_rules q) empty_policy of
     Inr reg \<Rightarrow> reg | Inl e \<Rightarrow> empty_policy)"

lemmas rule_defs = user_manage_own_profile_def user_manage_all_user_def budget_manage_own_def
  budget_position_manage_own_def budget_line_manage_own_def budget_manage_all_def
  budget_position_manage_all_def budget_line_manage_all_def website_manage_own_page_def

lemma program_rules_registered:
  "register_all new_rule_class (program_rules q) empty_policy = Inr (program_policy q)"
  by (simp add: program_policy_def program_rules_def new_rule_class_def rule_defs BASE_RULE_ID_def
      register_rule_def Let_def empty_policy_def)

lemma new_rule_class_rules:
  "\<forall>c \<in> set cs. cls_identifier c \<noteq> Some BASE_RULE_ID \<Longrightarrow>
   register_all new_rule_class cs reg = register_all register_rule cs reg"
  by (induction cs arbitrary: reg) (auto simp: new_rule_class_def result_bind_def split: sum.splits)

lemma program_policy_wf: "policy_wf (program_policy q)"
proof -
  have "register_all register_rule (program_rules q) empty_policy = Inr (program_policy q)"
    using program_rules_registered [of q]
    by (subst (asm) new_rule_class_rules) (auto simp: program_rules_def rule_defs BASE_RULE_ID_def)
  with policy_wf_empty show ?thesis by (rule policy_wf_register_all)
qed

lemma program_model_rules:
  "get_model_rules (program_policy q) ''user.User'' =
     [rule_of (user_manage_own_profile q), rule_of (user_manage_all_user q)]"
  "get_model_rules (program_policy q) ''account.Budget'' =
     [rule_of (budget_manage_own q), rule_of (budget_manage_all q)]"
  "get_model_rules (program_policy q) ''website.Page'' = [rule_of (website_manage_own_page q)]"
  "get_model_rules (program_policy q) ''website.Website'' = []"
  by (simp_all add: program_policy_def program_rules_def new_rule_class_def rule_defs BASE_RULE_ID_def
      register_rule_def Let_def empty_policy_def get_model_rules_def rule_of_def)

subsection \<open>The guarantees\<close>

text \<open>
  C3: for any registry the program can build, the rows an operation may reach are exactly those
  that satisfy, for some role of the context that limits the model at all, every limit of that
  role; when no role limits it, all of them. Limits of one role are a conjunction, roles a
  disjunction, a rule of another operation, of another model or with an empty filter counts for
  nothing, and the order of the rows is kept.
\<close>

theorem access_rules_select:
  assumes "q_laws q" and "register_all new_rule_class classes empty_policy = Inr reg"
    and "\<forall>c \<in> set classes. cls_identifier c \<noteq> Some BASE_RULE_ID"
  shows "apply_access_rules q reg m op ctx rows =
    filter (\<lambda>row. (\<forall>role \<in> set (context_roles ctx). role_limits q reg m op (ctx_user ctx) role = [])
      \<or> (\<exists>role \<in> set (context_roles ctx). role_limits q reg m op (ctx_user ctx) role \<noteq> []
           \<and> (\<forall>r \<in> set (role_limits q reg m op (ctx_user ctx) role). q_sat q (scope_filter r (ctx_user ctx)) row)))
      rows"
proof -
  have "policy_wf reg"
    using policy_wf_empty assms(2) unfolding new_rule_class_rules [OF assms(3)]
    by (rule policy_wf_register_all)
  from apply_access_rules_visible [OF assms(1) this] show ?thesis
    by (simp add: visible_def Let_def cong: filter_cong)
qed

definition hobbit_role :: role where
  "hobbit_role = \<lparr>role_id = ''user_hobbit'', role_permissions = Some [],
                 role_rules = Some [''user_manage_own_profile'']\<rparr>"

definition admin_role :: role where
  "admin_role = \<lparr>role_id = ''user_admin'', role_permissions = None,
                role_rules = Some [''user_manage_all_user'', ''budget_manage_all'']\<rparr>"

definition sam :: user where
  "sam = \<lparr>user_pk = ''u2'', username = ''sam'', user_type = ''PORTAL'', is_active = True,
          last_login = None, user_roles = [hobbit_role]\<rparr>"

theorem access_rules_select_witness:
  "apply_access_rules pred_q (program_policy pred_q) ''user.User'' ''read''
     \<lparr>ctx_user = Some sam, ctx_roles = None\<rparr> [[(''pk'', ''u1'')], [(''pk'', ''u2'')]] = [[(''pk'', ''u2'')]]"
proof -
  have c: "\<forall>c \<in> set (program_rules pred_q). cls_identifier c \<noteq> Some BASE_RULE_ID"
    by (auto simp: program_rules_def rule_defs BASE_RULE_ID_def)
  show ?thesis
    unfolding access_rules_select [OF pred_q_laws program_rules_registered c]
    by (simp add: context_roles_def sam_def hobbit_role_def role_limits_def program_model_rules
        rule_of_def rule_defs or_empty_def own_filter_def pred_q_def)
qed

text \<open>
  With the rules the program ships, a user whose roles grant only the own-profile rule on
  users reads and updates exactly their own row.
\<close>

theorem own_profile_is_the_only_one_reached:
  assumes "q_laws q" and "ctx_user ctx = Some u" and "op \<in> {''read'', ''update''}"
    and "\<exists>role \<in> set (context_roles ctx). ''user_manage_own_profile'' \<in> set (or_empty (role_rules role))"
    and "\<forall>role \<in> set (context_roles ctx). ''user_manage_all_user'' \<notin> set (or_empty (role_rules role))"
  shows "apply_access_rules q (program_policy q) ''user.User'' op ctx rows
           = filter (\<lambda>row. q_field q row ''pk'' = Some (user_pk u)) rows"
proof -
  let ?own = "rule_of (user_manage_own_profile q)"
  have own: "q_bool q (scope_filter ?own (Some u))"
    "q_sat q (scope_filter ?own (Some u)) row \<longleftrightarrow> q_field q row ''pk'' = Some (user_pk u)" for row
    using assms(1) by (auto simp: rule_of_def rule_defs own_filter_def q_laws_def)
  have lim: "role_limits q (program_policy q) ''user.User'' op (Some u) role =
      (if ''user_manage_own_profile'' \<in> set (or_empty (role_rules role)) then [?own] else [])"
    if "role \<in> set (context_roles ctx)" for role
    using assms(3,5) that own(1) by (auto simp: role_limits_def program_model_rules rule_of_def rule_defs)
  have "visible q (program_policy q) ''user.User'' op ctx row \<longleftrightarrow> q_field q row ''pk'' = Some (user_pk u)" for row
    using assms(2,4) own(2) by (auto simp: visible_def Let_def lim)
  then show ?thesis
    unfolding apply_access_rules_visible [OF assms(1) program_policy_wf] by (intro filter_cong refl)
qed

theorem own_profile_is_the_only_one_reached_witness:
  "apply_access_rules pred_q (program_policy pred_q) ''user.User'' ''update''
     \<lparr>ctx_user = Some sam, ctx_roles = None\<rparr> [[(''pk'', ''u1'')], [(''pk'', ''u2'')]] = [[(''pk'', ''u2'')]]"
proof -
  let ?ctx = "\<lparr>ctx_user = Some sam, ctx_roles = None\<rparr>"
  have "apply_access_rules pred_q (program_policy pred_q) ''user.User'' ''update'' ?ctx
          [[(''pk'', ''u1'')], [(''pk'', ''u2'')]]
        = filter (\<lambda>row. q_field pred_q row ''pk'' = Some (user_pk sam)) [[(''pk'', ''u1'')], [(''pk'', ''u2'')]]"
    by (rule own_profile_is_the_only_one_reached [OF pred_q_laws])
      (simp_all add: context_roles_def sam_def hobbit_role_def or_empty_def)
  then show ?thesis by (simp add: sam_def pred_q_def)
qed

text \<open>
  The own-profile rule names only reading and updating, so it limits no other operation: a
  user with that role alone who may delete users at all may delete every one of them.
\<close>

theorem own_profile_rule_leaves_delete_open:
  assumes "q_laws q" and "op \<notin> {''read'', ''update''}"
    and "\<forall>role \<in> set (context_roles ctx). ''user_manage_all_user'' \<notin> set (or_empty (role_rules role))"
  shows "apply_access_rules q (program_policy q) ''user.User'' op ctx rows = rows"
proof -
  have "role_limits q (program_policy q) ''user.User'' op (ctx_user ctx) role = []"
    if "role \<in> set (context_roles ctx)" for role
    using assms(2,3) that by (auto simp: role_limits_def program_model_rules rule_of_def rule_defs)
  then show ?thesis
    by (simp add: apply_access_rules_visible [OF assms(1) program_policy_wf] visible_def Let_def)
qed

theorem own_profile_rule_leaves_delete_open_witness:
  "apply_access_rules pred_q (program_policy pred_q) ''user.User'' ''delete''
     \<lparr>ctx_user = Some sam, ctx_roles = None\<rparr> [[(''pk'', ''u1'')], [(''pk'', ''u2'')]]
   = [[(''pk'', ''u1'')], [(''pk'', ''u2'')]]"
  by (rule own_profile_rule_leaves_delete_open [OF pred_q_laws])
    (simp_all add: context_roles_def sam_def hobbit_role_def or_empty_def)

text \<open>
  A machine caller or a caller with no role is subject to no row rule at all, on any model,
  whatever rules are registered for it.
\<close>

lemma no_role_no_filter:
  "ctx_user ctx = None \<and> ctx_roles ctx = None \<or> context_roles ctx = [] \<Longrightarrow>
   apply_access_rules q reg m op ctx rows = rows"
  by (auto simp: apply_access_rules_def context_roles_def)


end
