(* ===== verification/Permissions.thy ===== *)
theory Permissions
  imports Totem_Prelude
begin

text \<open>
  The permission algebra of \<open>core/api/permission.py\<close>: classes and their \<open>&\<close>, \<open>|\<close>, \<open>~\<close>
  build holders, a holder is called to build an instance, and an instance answers a request
  while moving the message that will be reported. The leaves are given by the verdict of each
  class on the request and on the object.
\<close>

subsection \<open>Instances\<close>

text \<open>Every instance has the \<open>message\<close> it would report now.\<close>

datatype perm =
    Leaf string (perm_message: string)
  | PAnd perm perm (perm_message: string)
  | POr perm perm (perm_message: string)
  | PNot perm (perm_message: string)

definition mk_and :: "perm \<Rightarrow> perm \<Rightarrow> perm" where
  "mk_and p q = PAnd p q (perm_message p)"

definition mk_or :: "perm \<Rightarrow> perm \<Rightarrow> perm" where
  "mk_or p q = POr p q (perm_message p)"

definition mk_not :: "perm \<Rightarrow> perm" where
  "mk_not p = PNot p (perm_message p)"

text \<open>\<open>has_permission\<close> answers and updates the messages on the path it took.\<close>

fun has_permission :: "(string \<Rightarrow> bool) \<Rightarrow> perm \<Rightarrow> bool \<times> perm" where
  "has_permission v (Leaf c m) = (v c, Leaf c m)"
| "has_permission v (PAnd p q m) =
     (let (bp, p') = has_permission v p in
      if bp then let m' = perm_message q; (bq, q') = has_permission v q in (bq, PAnd p' q' m')
      else (False, PAnd p' q m))"
| "has_permission v (POr p q m) =
     (let (bp, p') = has_permission v p in
      if \<not> bp then let m' = perm_message q; (bq, q') = has_permission v q in (bq, POr p' q' m')
      else (True, POr p' q m))"
| "has_permission v (PNot p m) = (let (b, p') = has_permission v p in (\<not> b, PNot p' m))"

fun has_object_permission :: "(string \<Rightarrow> bool) \<Rightarrow> perm \<Rightarrow> bool" where
  "has_object_permission v (Leaf c m) = v c"
| "has_object_permission v (PAnd p q m) = (has_object_permission v p \<and> has_object_permission v q)"
| "has_object_permission v (POr p q m) = (has_object_permission v p \<or> has_object_permission v q)"
| "has_object_permission v (PNot p m) = (\<not> has_object_permission v p)"

subsection \<open>Holders\<close>

text \<open>
  What a route declares: a permission class (with its message), an instance, or a holder. A
  \<open>SingleOperandHolder\<close> has no \<open>message\<close> attribute, which \<open>OperandHolder.__init__\<close> reads of
  its left operand.
\<close>

datatype operator = OpAnd | OpOr

datatype holder =
    PermClass string string
  | Instance perm
  | Operands operator perm perm string
  | SingleOperand holder

datatype holder_error = AttributeError

fun holder_message :: "holder \<Rightarrow> holder_error + string" where
  "holder_message (PermClass c m) = Inr m"
| "holder_message (Instance p) = Inr (perm_message p)"
| "holder_message (Operands f p q m) = Inr m"
| "holder_message (SingleOperand h) = Inl AttributeError"

fun apply_operator :: "operator \<Rightarrow> perm \<Rightarrow> perm \<Rightarrow> perm" where
  "apply_operator OpAnd p q = mk_and p q"
| "apply_operator OpOr p q = mk_or p q"

text \<open>Calling what is callable; an instance is used as it is.\<close>

fun instance_of :: "holder \<Rightarrow> perm" where
  "instance_of (PermClass c m) = Leaf c m"
| "instance_of (Instance p) = p"
| "instance_of (Operands f p q m) = apply_operator f p q"
| "instance_of (SingleOperand h) = mk_not (instance_of h)"

definition operand_holder :: "operator \<Rightarrow> holder \<Rightarrow> holder \<Rightarrow> holder_error + holder" where
  "operand_holder f h1 h2 =
     result_bind (holder_message h1) (\<lambda>m. Inr (Operands f (instance_of h1) (instance_of h2) m))"

subsection \<open>Evaluation\<close>

text \<open>\<open>Inl m\<close> is \<open>PermissionDenied(m)\<close>.\<close>

fun evaluate_permissions :: "(string \<Rightarrow> bool) \<Rightarrow> holder list \<Rightarrow> string + unit" where
  "evaluate_permissions v [] = Inr ()"
| "evaluate_permissions v (h # hs) =
     (let (b, p) = has_permission v (instance_of h) in
      if \<not> b then Inl (perm_message p) else evaluate_permissions v hs)"

text \<open>The decorated view runs only behind the check.\<close>

definition view_with_permission_check ::
    "(string \<Rightarrow> bool) \<Rightarrow> holder list \<Rightarrow> (unit \<Rightarrow> 'a) \<Rightarrow> string + 'a" where
  "view_with_permission_check v hs func =
     result_bind (evaluate_permissions v hs) (\<lambda>_. Inr (func ()))"

subsection \<open>What a combination means\<close>

fun denotes :: "(string \<Rightarrow> bool) \<Rightarrow> perm \<Rightarrow> bool" where
  "denotes v (Leaf c m) = v c"
| "denotes v (PAnd p q m) = (denotes v p \<and> denotes v q)"
| "denotes v (POr p q m) = (denotes v p \<or> denotes v q)"
| "denotes v (PNot p m) = (\<not> denotes v p)"

fun holder_denotes :: "(string \<Rightarrow> bool) \<Rightarrow> holder \<Rightarrow> bool" where
  "holder_denotes v (PermClass c m) = v c"
| "holder_denotes v (Instance p) = denotes v p"
| "holder_denotes v (Operands f p q m) =
     (case f of OpAnd \<Rightarrow> denotes v p \<and> denotes v q | OpOr \<Rightarrow> denotes v p \<or> denotes v q)"
| "holder_denotes v (SingleOperand h) = (\<not> holder_denotes v h)"

lemma fst_has_permission [simp]: "fst (has_permission v p) = denotes v p"
  by (induction p) (auto simp: Let_def split: prod.splits)

lemma denotes_after [simp]: "denotes w (snd (has_permission v p)) = denotes w p"
  by (induction p) (auto simp: Let_def split: prod.splits)

lemma denotes_instance [simp]: "denotes v (instance_of h) = holder_denotes v h"
  by (induction h) (auto simp: mk_and_def mk_or_def mk_not_def split: operator.splits)

lemma operand_holder_denotes:
  "operand_holder f h1 h2 = Inr h \<Longrightarrow>
   holder_denotes v h = (case f of OpAnd \<Rightarrow> holder_denotes v h1 \<and> holder_denotes v h2
                                 | OpOr \<Rightarrow> holder_denotes v h1 \<or> holder_denotes v h2)"
  by (auto simp: operand_holder_def split: operator.splits)

lemma evaluate_permissions_iff:
  "evaluate_permissions v hs = Inr () \<longleftrightarrow> (\<forall>h \<in> set hs. holder_denotes v h)"
proof (induction hs)
  case (Cons h hs)
  obtain b p where bp: "has_permission v (instance_of h) = (b, p)" by (cases "has_permission v (instance_of h)")
  moreover from bp have "b = holder_denotes v h"
    using fst_has_permission [of v "instance_of h"] by simp
  ultimately show ?case using Cons by simp
qed simp

text \<open>
  C10: whatever the nesting and however the messages move during the evaluation, the decorated
  view runs exactly when every declared permission holds of the request, with \<open>&\<close>, \<open>|\<close>
  and \<open>~\<close> meaning conjunction, disjunction and negation.
\<close>

theorem guarded_view_runs_iff:
  "is_inr (view_with_permission_check v hs func) \<longleftrightarrow> (\<forall>h \<in> set hs. holder_denotes v h)"
proof -
  have "is_inr (view_with_permission_check v hs func) \<longleftrightarrow> evaluate_permissions v hs = Inr ()"
    by (cases "evaluate_permissions v hs") (auto simp: view_with_permission_check_def)
  then show ?thesis by (simp add: evaluate_permissions_iff)
qed

theorem guarded_view_runs_iff_witness:
  "is_inr (view_with_permission_check (\<lambda>c. c = ''IsAuthenticated'')
     [PermClass ''IsAuthenticated'' ''m'', SingleOperand (PermClass ''IsBanned'' ''m'')] (\<lambda>_. ()))"
  by (simp add: guarded_view_runs_iff)

text \<open>
  Negation does not combine: \<open>~A & B\<close> raises while the route is declared, since the
  holder of a negation has no message to take over, although \<open>A & ~B\<close> is accepted.
\<close>

lemma negation_on_the_left_raises:
  "operand_holder f (SingleOperand h1) h2 = Inl AttributeError
   \<and> is_inr (operand_holder f (PermClass c m) (SingleOperand h2))"
  by (simp add: operand_holder_def)

end
