(* ===== verification/Dependency.thy ===== *)
theory Dependency
  imports Totem_Prelude
begin

text \<open>
  The registry of what each stored computed field depends on
  (\<open>core/orm/fields/computed/dependency.py\<close>): parsing of \<open>depends_on\<close> into bindings, their
  merge, the depth of each field in the graph of reads, and what a deletion can change through
  \<open>on_delete\<close>. The models are given as data, the record \<open>apps\<close>: what \<open>Model._meta\<close> answers
  about each of them. A lookup path is the list of its parts, \<open>LOOKUP_SEP\<close> joining them and
  \<open>None\<close> being the empty one.
\<close>

type_synonym model = string
type_synonym pk = string
type_synonym field_id = "model \<times> string"

subsection \<open>Model metadata\<close>

text \<open>An expression: a reference, a node with its sources, or anything without sources.\<close>

datatype expression = FRef string | Sources "expression option list" | PlainValue

record column =
  col_name :: string
  col_attname :: "string option"
  col_generated :: "expression option"

text \<open>
  What \<open>_meta.get_field\<close> returns: a plain column, a relation written on this model, or one
  written on the other side, with the field that declares it and its query name. A generic
  relation has no target.
\<close>

datatype meta_field =
    Plain column
  | Forward column "model option" bool
  | Reverse string column "model option" bool

record computed_field =
  cf_model :: model
  cf_name :: string
  cf_depends_on :: "string list"
  cf_annotated :: bool

datatype on_delete = CASCADE | SET_NULL | SET_DEFAULT | SET_VALUE | PROTECT | RESTRICT | DO_NOTHING

record related_object =
  ro_model :: model
  ro_field :: column
  ro_on_delete :: on_delete
  ro_many_to_many :: bool

record apps =
  app_models :: "model list"
  app_fields :: "(model \<times> (string \<times> meta_field) list) list"
  app_stored :: "(model \<times> computed_field list) list"
  app_related :: "(model \<times> related_object list) list"

definition dict_default :: "('k \<times> 'v list) list \<Rightarrow> 'k \<Rightarrow> 'v list" where
  "dict_default d k = (case dict_get d k of None \<Rightarrow> [] | Some v \<Rightarrow> v)"

lemma dict_defaultD: "v \<in> set (dict_default d k) \<Longrightarrow> \<exists>vs. (k, vs) \<in> set d \<and> v \<in> set vs"
  unfolding dict_default_def by (cases "dict_get d k") (auto dest: map_of_SomeD)

lemma dict_default_put [simp]:
  "dict_default (dict_put k v d) x = (if x = k then v else dict_default d x)"
  by (simp add: dict_default_def)

definition get_field :: "apps \<Rightarrow> model \<Rightarrow> string \<Rightarrow> meta_field option" where
  "get_field a m name = dict_get (dict_default (app_fields a) m) name"

definition computed_fields :: "apps \<Rightarrow> model \<Rightarrow> computed_field list" where
  "computed_fields a m = dict_default (app_stored a) m"

definition field_id :: "computed_field \<Rightarrow> field_id" where
  "field_id f = (cf_model f, cf_name f)"

definition stored_named :: "apps \<Rightarrow> model \<Rightarrow> string \<Rightarrow> computed_field option" where
  "stored_named a m name = find (\<lambda>f. cf_name f = name) (computed_fields a m)"

subsection \<open>Names of a field\<close>

fun referenced_names :: "expression \<Rightarrow> string set" where
  "referenced_names (FRef n) = {n}"
| "referenced_names (Sources es) =
     \<Union> (set (map (\<lambda>e. case e of None \<Rightarrow> {} | Some x \<Rightarrow> referenced_names x) es))"
| "referenced_names PlainValue = {}"

definition field_names :: "column \<Rightarrow> string set" where
  "field_names c =
     {col_name c}
     \<union> (case col_attname c of None \<Rightarrow> {} | Some a \<Rightarrow> if a = [] then {} else {a})
     \<union> (case col_generated c of None \<Rightarrow> {} | Some e \<Rightarrow> referenced_names e)"

lemma col_name_in_field_names [simp, intro]: "col_name c \<in> field_names c"
  by (simp add: field_names_def)

subsection \<open>Bindings\<close>

record binding =
  root_model :: model
  bind_field :: computed_field
  watched_model :: model
  bind_path :: "string list"
  trigger_fields :: "string set"
  membership_fields :: "string set"
  on_existence :: bool
  fk_attname :: "string option"

definition is_local :: "binding \<Rightarrow> bool" where
  "is_local b \<longleftrightarrow> bind_path b = []"

datatype dependency_error =
    NotAField model string
  | NotARelation string
  | TooManyHops nat
  | GenericRelation string
  | SelfDependency field_id
  | ReadCycle field_id

record watch =
  w_triggers :: "string set"
  w_membership :: "string set"
  w_existence :: bool
  w_fk :: "string option"

definition new_watch :: watch where
  "new_watch = \<lparr>w_triggers = {}, w_membership = {}, w_existence = False, w_fk = None\<rparr>"

type_synonym watches = "((model \<times> string list) \<times> watch) list"

text \<open>\<open>watch(model, path)\<close> creates the entry on first use; its fields are then assigned.\<close>

definition watch_update :: "model \<times> string list \<Rightarrow> (watch \<Rightarrow> watch) \<Rightarrow> watches \<Rightarrow> watches" where
  "watch_update k f ws =
     dict_put k (f (case dict_get ws k of None \<Rightarrow> new_watch | Some w \<Rightarrow> w)) ws"

definition add_triggers :: "string set \<Rightarrow> watch \<Rightarrow> watch" where
  "add_triggers ns w = w\<lparr>w_triggers := w_triggers w \<union> ns\<rparr>"

definition add_membership :: "string set \<Rightarrow> watch \<Rightarrow> watch" where
  "add_membership ns w = w\<lparr>w_membership := w_membership w \<union> ns\<rparr>"

subsection \<open>Parsing\<close>

text \<open>\<open>dep.split("__")\<close>.\<close>

fun split_lookup :: "string \<Rightarrow> string list" where
  "split_lookup [] = [[]]"
| "split_lookup [c] = [[c]]"
| "split_lookup (c # d # s) =
     (if c = CHR ''_'' \<and> d = CHR ''_'' then [] # split_lookup s
      else (case split_lookup (d # s) of [] \<Rightarrow> [[c]] | p # ps \<Rightarrow> (c # p) # ps))"

fun parse_parts ::
    "apps \<Rightarrow> nat \<Rightarrow> model \<Rightarrow> string list \<Rightarrow> nat \<Rightarrow> watches \<Rightarrow> string list \<Rightarrow> dependency_error + watches" where
  "parse_parts a max_hops m path hops ws [] = Inr ws"
| "parse_parts a max_hops m path hops ws (name # rest) =
     (case get_field a m name of
        None \<Rightarrow> Inl (NotAField m name)
      | Some (Plain c) \<Rightarrow>
          if rest \<noteq> [] then Inl (NotARelation name)
          else Inr (watch_update (m, path) (add_triggers (field_names c)) ws)
      | Some (Forward c target m2m) \<Rightarrow>
          if hops + 1 > max_hops then Inl (TooManyHops max_hops)
          else (case target of
              None \<Rightarrow> Inl (GenericRelation name)
            | Some t \<Rightarrow>
                let ws1 = watch_update (m, path) (add_triggers (field_names c)) ws;
                    path' = path @ [col_name c];
                    ws2 = watch_update (t, path') (\<lambda>w. w\<lparr>w_existence := True\<rparr>) ws1
                in parse_parts a max_hops t path' (hops + 1) ws2 rest)
      | Some (Reverse lookup c target m2m) \<Rightarrow>
          if hops + 1 > max_hops then Inl (TooManyHops max_hops)
          else (case target of
              None \<Rightarrow> Inl (GenericRelation name)
            | Some t \<Rightarrow>
                let path' = path @ [lookup]; own = field_names c;
                    ws1 = watch_update (t, path') (\<lambda>w. add_membership own (add_triggers own w)) ws;
                    ws2 = (if path = [] \<and> \<not> m2m
                           then watch_update (t, path') (\<lambda>w. w\<lparr>w_fk := col_attname c\<rparr>) ws1 else ws1);
                    ws3 = watch_update (t, path') (\<lambda>w. w\<lparr>w_existence := True\<rparr>) ws2
                in parse_parts a max_hops t path' (hops + 1) ws3 rest))"

definition parse_dependency ::
    "apps \<Rightarrow> nat \<Rightarrow> computed_field \<Rightarrow> string \<Rightarrow> dependency_error + binding list" where
  "parse_dependency a max_hops f dep =
     result_bind (parse_parts a max_hops (cf_model f) [] 0 [] (split_lookup dep)) (\<lambda>ws.
       Inr (map (\<lambda>((m, path), w).
         \<lparr>root_model = cf_model f, bind_field = f, watched_model = m, bind_path = path,
          trigger_fields = w_triggers w, membership_fields = w_membership w,
          on_existence = (w_existence w \<and> path \<noteq> []), fk_attname = w_fk w\<rparr>) ws))"

type_synonym merge_key = "field_id \<times> model \<times> string list"

definition merge_key :: "binding \<Rightarrow> merge_key" where
  "merge_key b = (field_id (bind_field b), watched_model b, bind_path b)"

definition merge_into :: "binding \<Rightarrow> binding \<Rightarrow> binding" where
  "merge_into m b =
     m\<lparr>trigger_fields := trigger_fields m \<union> trigger_fields b,
       membership_fields := membership_fields m \<union> membership_fields b,
       on_existence := on_existence m \<or> on_existence b,
       fk_attname := (case fk_attname m of Some (c # cs) \<Rightarrow> Some (c # cs) | _ \<Rightarrow> fk_attname b)\<rparr>"

definition merge_bindings :: "binding list \<Rightarrow> binding list" where
  "merge_bindings bs =
     map snd (fold (\<lambda>b merged.
       case dict_get merged (merge_key b) of
         None \<Rightarrow> dict_put (merge_key b) b merged
       | Some m \<Rightarrow> dict_put (merge_key b) (merge_into m b) merged) bs [])"

text \<open>The bindings of one field, then of every stored field of every model, by watched model.\<close>

definition field_bindings :: "apps \<Rightarrow> nat \<Rightarrow> computed_field \<Rightarrow> dependency_error + binding list" where
  "field_bindings a max_hops f =
     result_bind (result_map (parse_dependency a max_hops f) (cf_depends_on f))
       (\<lambda>parsed. Inr (merge_bindings (concat parsed)))"

definition all_stored :: "apps \<Rightarrow> computed_field list" where
  "all_stored a = concat (map (computed_fields a) (app_models a))"

definition all_bindings :: "apps \<Rightarrow> nat \<Rightarrow> dependency_error + binding list" where
  "all_bindings a max_hops =
     result_bind (result_map (field_bindings a max_hops) (all_stored a)) (\<lambda>bss. Inr (concat bss))"

text \<open>\<open>bindings[watched_model].append(binding)\<close>, in the order they were parsed.\<close>

definition index_bindings :: "binding list \<Rightarrow> (model \<times> binding list) list" where
  "index_bindings bs =
     fold (\<lambda>b d. dict_put (watched_model b) (dict_default d (watched_model b) @ [b]) d) bs []"

subsection \<open>Depths\<close>

text \<open>What a binding makes its field read: the stored fields of the watched model it triggers on.\<close>

definition binding_reads :: "apps \<Rightarrow> model \<Rightarrow> binding \<Rightarrow> computed_field list" where
  "binding_reads a m b = filter (\<lambda>g. cf_name g \<in> trigger_fields b) (computed_fields a m)"

type_synonym 'f reads = "('f \<times> 'f list) list"

definition binding_pairs :: "(model \<times> binding list) list \<Rightarrow> (model \<times> binding) list" where
  "binding_pairs bindings = concat (map (\<lambda>(m, bs). map (\<lambda>b. (m, b)) bs) bindings)"

fun reads_loop :: "apps \<Rightarrow> (model \<times> binding) list \<Rightarrow> field_id reads \<Rightarrow> dependency_error + field_id reads" where
  "reads_loop a [] reads = Inr reads"
| "reads_loop a ((m, b) # ps) reads =
     (let f = field_id (bind_field b); gs = map field_id (binding_reads a m b) in
      if f \<in> set gs then Inl (SelfDependency f)
      else reads_loop a ps (dict_put f (dict_default reads f @ gs) reads))"

definition reads_of :: "apps \<Rightarrow> (model \<times> binding list) list \<Rightarrow> dependency_error + field_id reads" where
  "reads_of a bindings = reads_loop a (binding_pairs bindings) []"

text \<open>
  The memoised visit, with the fields being visited. The fuel bounds the nesting, which the
  cycle test bounds by the number of fields.
\<close>

type_synonym 'f depths = "('f \<times> nat) list"

datatype 'f visit_error = Cycle 'f | OutOfFuel

fun visit :: "nat \<Rightarrow> 'f reads \<Rightarrow> 'f list \<Rightarrow> 'f \<Rightarrow> 'f depths \<Rightarrow> 'f visit_error + (nat \<times> 'f depths)"
  and visit_all :: "nat \<Rightarrow> 'f reads \<Rightarrow> 'f list \<Rightarrow> 'f list \<Rightarrow> nat \<Rightarrow> 'f depths \<Rightarrow> 'f visit_error + (nat \<times> 'f depths)" where
  "visit 0 reads visiting f depth = Inl OutOfFuel"
| "visit (Suc n) reads visiting f depth =
     (case dict_get depth f of
        Some d \<Rightarrow> Inr (d, depth)
      | None \<Rightarrow>
          if f \<in> set visiting then Inl (Cycle f)
          else result_bind (visit_all n reads (f # visiting) (dict_default reads f) 0 depth)
                 (\<lambda>(d, depth'). Inr (d, dict_put f d depth')))"
| "visit_all n reads visiting [] acc depth = Inr (acc, depth)"
| "visit_all n reads visiting (g # gs) acc depth =
     result_bind (visit n reads visiting g depth)
       (\<lambda>(d, depth'). visit_all n reads visiting gs (max acc (Suc d)) depth')"

text \<open>Every field that is bound or read is visited in turn.\<close>

fun visit_each :: "nat \<Rightarrow> 'f reads \<Rightarrow> 'f list \<Rightarrow> 'f depths \<Rightarrow> 'f visit_error + 'f depths" where
  "visit_each n reads [] depth = Inr depth"
| "visit_each n reads (f # fs) depth =
     result_bind (visit n reads [] f depth) (\<lambda>(d, depth'). visit_each n reads fs depth')"

definition read_fields :: "'f reads \<Rightarrow> 'f list" where
  "read_fields reads = uniq (concat (map (\<lambda>(f, gs). f # gs) reads))"

definition compute_depths :: "apps \<Rightarrow> (model \<times> binding list) list \<Rightarrow> (dependency_error + field_id depths) option" where
  "compute_depths a bindings =
     (case reads_of a bindings of
        Inl e \<Rightarrow> Some (Inl e)
      | Inr reads \<Rightarrow>
          (let fields = read_fields reads in
           case visit_each (Suc (length fields)) reads fields [] of
             Inr depth \<Rightarrow> Some (Inr depth)
           | Inl (Cycle f) \<Rightarrow> Some (Inl (ReadCycle f))
           | Inl OutOfFuel \<Rightarrow> None))"

subsection \<open>Cascades\<close>

record cascade =
  casc_deleted :: "model set"
  casc_nulled :: "(model \<times> string) set"

definition watches_existence :: "(model \<times> binding list) list \<Rightarrow> model \<Rightarrow> bool" where
  "watches_existence bindings m \<longleftrightarrow> (\<exists>b \<in> set (dict_default bindings m). on_existence b \<and> \<not> is_local b)"

definition model_triggers :: "(model \<times> binding list) list \<Rightarrow> model \<Rightarrow> string set" where
  "model_triggers bindings m = \<Union> (trigger_fields ` set (dict_default bindings m))"

definition rewriting :: "on_delete \<Rightarrow> bool" where
  "rewriting od \<longleftrightarrow> od = SET_NULL \<or> od = SET_DEFAULT \<or> od = SET_VALUE"

definition related_models :: "apps \<Rightarrow> model set" where
  "related_models a = ro_model ` set (concat (map snd (app_related a)))"

lemma finite_related_models: "finite (related_models a)"
  by (simp add: related_models_def)

lemma visited_decreases:
  "x \<in> related_models a \<Longrightarrow> x \<notin> V \<Longrightarrow>
   card (related_models a - insert x V) < card (related_models a - V)"
  by (rule psubset_card_mono) (auto simp: finite_related_models)

text \<open>
  The recursive collection as the list of the relations still to look at: following a cascade
  puts the relations of the deleted model first. The test of \<open>related_models\<close> is what bounds the
  recursion; it always holds of a relation that \<open>app_related\<close> lists.
\<close>

function collect_cascade ::
    "apps \<Rightarrow> (model \<times> binding list) list \<Rightarrow> related_object list \<Rightarrow> model set \<Rightarrow> cascade \<Rightarrow> cascade" where
  "collect_cascade a bindings [] visited c = c"
| "collect_cascade a bindings (rel # rels) visited c =
     (if ro_many_to_many rel then collect_cascade a bindings rels visited c
      else if ro_on_delete rel = CASCADE then
        (if ro_model rel \<in> visited \<or> ro_model rel \<notin> related_models a
         then collect_cascade a bindings rels visited c
         else collect_cascade a bindings (dict_default (app_related a) (ro_model rel) @ rels)
                (insert (ro_model rel) visited)
                (if watches_existence bindings (ro_model rel)
                 then c\<lparr>casc_deleted := insert (ro_model rel) (casc_deleted c)\<rparr> else c))
      else if rewriting (ro_on_delete rel)
           \<and> field_names (ro_field rel) \<inter> model_triggers bindings (ro_model rel) \<noteq> {}
        then collect_cascade a bindings rels visited
               (c\<lparr>casc_nulled := insert (ro_model rel, col_name (ro_field rel)) (casc_nulled c)\<rparr>)
      else collect_cascade a bindings rels visited c)"
  by pat_completeness auto

termination
  by (relation "measures [\<lambda>(a, bs, rels, visited, c). card (related_models a - visited),
                          \<lambda>(a, bs, rels, visited, c). length rels]")
    (auto simp: visited_decreases simp del: card_Diff_insert)

definition empty_cascade :: cascade where
  "empty_cascade = \<lparr>casc_deleted = {}, casc_nulled = {}\<rparr>"

definition compute_cascades :: "apps \<Rightarrow> (model \<times> binding list) list \<Rightarrow> (model \<times> cascade) list" where
  "compute_cascades a bindings =
     filter (\<lambda>(m, c). casc_deleted c \<noteq> {} \<or> casc_nulled c \<noteq> {})
       (map (\<lambda>m. (m, collect_cascade a bindings (dict_default (app_related a) m) {} empty_cascade))
         (app_models a))"

subsection \<open>The registry\<close>

record dep_registry =
  reg_bindings :: "(model \<times> binding list) list"
  reg_depth :: "field_id depths"
  reg_cascades :: "(model \<times> cascade) list"

definition build_registry :: "apps \<Rightarrow> nat \<Rightarrow> (dependency_error + dep_registry) option" where
  "build_registry a max_hops =
     (case all_bindings a max_hops of
        Inl e \<Rightarrow> Some (Inl e)
      | Inr bs \<Rightarrow>
          (let bindings = index_bindings bs in
           case compute_depths a bindings of
             None \<Rightarrow> None
           | Some (Inl e) \<Rightarrow> Some (Inl e)
           | Some (Inr depth) \<Rightarrow>
               Some (Inr \<lparr>reg_bindings = bindings, reg_depth = depth,
                          reg_cascades = compute_cascades a bindings\<rparr>)))"

definition bindings_for :: "dep_registry \<Rightarrow> model \<Rightarrow> binding list" where
  "bindings_for reg m = dict_default (reg_bindings reg) m"

definition depth_of :: "dep_registry \<Rightarrow> field_id \<Rightarrow> nat" where
  "depth_of reg f = (case dict_get (reg_depth reg) f of None \<Rightarrow> 0 | Some d \<Rightarrow> d)"

end
