(* ===== verification/Refresh_Context.thy ===== *)
theory Refresh_Context
  imports Dependency
begin

text \<open>
  The unit of work that keeps stored computed fields in sync
  (\<open>core/orm/fields/computed/context.py\<close>) and the statement that recomputes them
  (\<open>utils.py\<close>). The database is its rows, its column values and its links, one set of targets
  per relation and row; a lookup path is a walk through the links, which is what the ORM's
  \<open>filter(path__in=pks)\<close> joins. What a computed field evaluates to on a database is a
  parameter, as its \<open>annotation_method\<close> or \<open>prefetch_method\<close> is arbitrary code.
\<close>

subsection \<open>The database\<close>

record 'v database =
  db_rows :: "model \<Rightarrow> pk set"
  db_value :: "model \<Rightarrow> string \<Rightarrow> pk \<Rightarrow> 'v"
  db_links :: "model \<Rightarrow> string \<Rightarrow> pk \<Rightarrow> pk set"

definition db_step :: "apps \<Rightarrow> 'v database \<Rightarrow> model \<Rightarrow> string \<Rightarrow> pk \<Rightarrow> pk set" where
  "db_step a db m name x =
     (case get_field a m name of
        Some (Forward c (Some t) m2m) \<Rightarrow> db_links db m (col_name c) x \<inter> db_rows db t
      | Some (Reverse lookup c (Some t) m2m) \<Rightarrow> {y \<in> db_rows db t. x \<in> db_links db t (col_name c) y}
      | _ \<Rightarrow> {})"

definition hop_target :: "apps \<Rightarrow> model \<Rightarrow> string \<Rightarrow> model option" where
  "hop_target a m name =
     (case get_field a m name of
        Some (Forward c t m2m) \<Rightarrow> t
      | Some (Reverse lookup c t m2m) \<Rightarrow> t
      | _ \<Rightarrow> None)"

fun reach :: "apps \<Rightarrow> 'v database \<Rightarrow> model \<Rightarrow> string list \<Rightarrow> pk \<Rightarrow> pk set" where
  "reach a db m [] x = {x}"
| "reach a db m (n # ns) x =
     (case hop_target a m n of
        None \<Rightarrow> {}
      | Some t \<Rightarrow> \<Union> (reach a db t ns ` db_step a db m n x))"

text \<open>\<open>root_model._base_manager.filter(path__in=pks).values_list("pk").distinct()\<close>\<close>

definition roots_query :: "apps \<Rightarrow> 'v database \<Rightarrow> model \<Rightarrow> string list \<Rightarrow> pk set \<Rightarrow> pk set" where
  "roots_query a db root path pks = {r \<in> db_rows db root. reach a db root path r \<inter> pks \<noteq> {}}"

subsection \<open>State and helpers\<close>

type_synonym pending = "(computed_field \<times> pk set) list"

record refresh_state =
  rs_pending :: pending
  rs_depth :: nat

definition new_context :: refresh_state where
  "new_context = \<lparr>rs_pending = [], rs_depth = 0\<rparr>"

record instance_row =
  inst_pk :: "pk option"
  inst_attr :: "string \<Rightarrow> pk option"

definition pending_update :: "computed_field \<Rightarrow> pk set \<Rightarrow> pending \<Rightarrow> pending" where
  "pending_update f pks p =
     dict_put f ((case dict_get p f of None \<Rightarrow> {} | Some s \<Rightarrow> s) \<union> pks) p"

definition ctx_add :: "binding \<Rightarrow> pk option set \<Rightarrow> pending \<Rightarrow> pending" where
  "ctx_add b root_pks p =
     (let pks = {pk. Some pk \<in> root_pks} in
      if pks \<noteq> {} then pending_update (bind_field b) pks p else p)"

definition ctx_roots ::
    "apps \<Rightarrow> 'v database \<Rightarrow> binding \<Rightarrow> pk set \<Rightarrow> instance_row list option \<Rightarrow> pk option set" where
  "ctx_roots a db b pks instances =
     (if is_local b then Some ` pks
      else (case (instances, fk_attname b) of
          (Some insts, Some (c # cs)) \<Rightarrow> (\<lambda>i. inst_attr i (c # cs)) ` set insts
        | _ \<Rightarrow> Some ` roots_query a db (root_model b) (bind_path b) pks))"

type_synonym roots_cache = "((model \<times> string list) \<times> pk option set) list"

fun resolve_loop ::
    "apps \<Rightarrow> 'v database \<Rightarrow> binding list \<Rightarrow> pk set \<Rightarrow> instance_row list option \<Rightarrow> roots_cache \<Rightarrow> pending \<Rightarrow> pending" where
  "resolve_loop a db [] pks insts cache p = p"
| "resolve_loop a db (b # bs) pks insts cache p =
     (let key = (root_model b, bind_path b);
          roots = (case dict_get cache key of None \<Rightarrow> ctx_roots a db b pks insts | Some r \<Rightarrow> r)
      in resolve_loop a db bs pks insts (dict_put key roots cache) (ctx_add b roots p))"

definition ctx_resolve ::
    "apps \<Rightarrow> 'v database \<Rightarrow> binding list \<Rightarrow> pk set \<Rightarrow> instance_row list option \<Rightarrow> pending \<Rightarrow> pending" where
  "ctx_resolve a db bs pks insts p = resolve_loop a db bs pks insts [] p"

definition existence_changed ::
    "apps \<Rightarrow> dep_registry \<Rightarrow> 'v database \<Rightarrow> model \<Rightarrow> pk set \<Rightarrow> instance_row list option \<Rightarrow> pending \<Rightarrow> pending" where
  "existence_changed a reg db m pks insts p =
     ctx_resolve a db (filter (\<lambda>b. on_existence b \<and> \<not> is_local b) (bindings_for reg m)) pks insts p"

subsection \<open>What the writes declare\<close>

definition ctx_created ::
    "apps \<Rightarrow> dep_registry \<Rightarrow> 'v database \<Rightarrow> model \<Rightarrow> instance_row list \<Rightarrow> pending \<Rightarrow> pending" where
  "ctx_created a reg db m insts p =
     (let insts' = filter (\<lambda>i. inst_pk i \<noteq> None) insts in
      if insts' = [] then p
      else let pks = {pk. Some pk \<in> inst_pk ` set insts'};
               p' = fold (\<lambda>f q. pending_update f pks q) (computed_fields a m) p
        in existence_changed a reg db m pks (Some insts') p')"

definition ctx_modified ::
    "apps \<Rightarrow> dep_registry \<Rightarrow> 'v database \<Rightarrow> model \<Rightarrow> pk set \<Rightarrow> string set \<Rightarrow> bool \<Rightarrow> pending \<Rightarrow> pending" where
  "ctx_modified a reg db m pks update_fields before p =
     (if pks = {} \<or> update_fields = {} then p
      else ctx_resolve a db
        (filter (\<lambda>b. trigger_fields b \<inter> update_fields \<noteq> {}
                   \<and> (\<not> before \<or> membership_fields b \<inter> update_fields \<noteq> {})) (bindings_for reg m))
        pks None p)"

definition has_relation_to_modify :: "dep_registry \<Rightarrow> model \<Rightarrow> string set \<Rightarrow> bool" where
  "has_relation_to_modify reg m update_fields \<longleftrightarrow>
     (\<exists>b \<in> set (bindings_for reg m). membership_fields b \<inter> update_fields \<noteq> {})"

text \<open>What Django's collector reports of a deletion about to happen.\<close>

record collected =
  coll_data :: "(model \<times> pk set) list"
  coll_fast :: "(model \<times> pk set) list"
  coll_updates :: "((model \<times> string) \<times> pk set) list"

text \<open>The three loops of a deletion: rows collected, rows deleted fast, keys rewritten.\<close>

definition delete_data :: "apps \<Rightarrow> dep_registry \<Rightarrow> 'v database \<Rightarrow> model \<Rightarrow> pk set \<Rightarrow> cascade \<Rightarrow> model \<times> pk set \<Rightarrow> pending \<Rightarrow> pending" where
  "delete_data a reg db m pks c e q =
     (case e of (rm, insts) \<Rightarrow>
        if rm \<in> casc_deleted c then existence_changed a reg db rm (insts - (if rm = m then pks else {})) None q else q)"

definition delete_fast :: "apps \<Rightarrow> dep_registry \<Rightarrow> 'v database \<Rightarrow> cascade \<Rightarrow> model \<times> pk set \<Rightarrow> pending \<Rightarrow> pending" where
  "delete_fast a reg db c e q =
     (case e of (rm, fast) \<Rightarrow> if rm \<in> casc_deleted c then existence_changed a reg db rm fast None q else q)"

definition delete_update :: "apps \<Rightarrow> dep_registry \<Rightarrow> 'v database \<Rightarrow> cascade \<Rightarrow> (model \<times> string) \<times> pk set \<Rightarrow> pending \<Rightarrow> pending" where
  "delete_update a reg db c e q =
     (case e of ((rm, fname), updated) \<Rightarrow>
        if (rm, fname) \<notin> casc_nulled c then q else ctx_modified a reg db rm updated {fname} True q)"

definition ctx_deleted ::
    "apps \<Rightarrow> dep_registry \<Rightarrow> 'v database \<Rightarrow> model \<Rightarrow> pk set \<Rightarrow> collected \<Rightarrow> pending \<Rightarrow> pending" where
  "ctx_deleted a reg db m pks coll p =
     (let casc = dict_get (reg_cascades reg) m in
      if casc = None \<and> \<not> (\<exists>b \<in> set (bindings_for reg m). on_existence b \<and> \<not> is_local b) then p
      else if pks = {} then p
      else let p1 = existence_changed a reg db m pks None p in
        case casc of None \<Rightarrow> p1
        | Some c \<Rightarrow> fold (delete_update a reg db c) (coll_updates coll)
            (fold (delete_fast a reg db c) (coll_fast coll)
              (fold (delete_data a reg db m pks c) (coll_data coll) p1)))"

text \<open>Unknown names raise \<open>KeyError\<close>.\<close>

fun ctx_refresh :: "apps \<Rightarrow> model \<Rightarrow> pk set \<Rightarrow> string list \<Rightarrow> pending \<Rightarrow> pending option" where
  "ctx_refresh a m pks [] p = Some p"
| "ctx_refresh a m pks (name # names) p =
     (case stored_named a m name of
        None \<Rightarrow> None
      | Some f \<Rightarrow> ctx_refresh a m pks names (pending_update f pks p))"

subsection \<open>The statement\<close>

definition write_values ::
    "(computed_field \<Rightarrow> 'v database \<Rightarrow> pk \<Rightarrow> 'v) \<Rightarrow> model \<Rightarrow> pk set \<Rightarrow> computed_field list \<Rightarrow> 'v database \<Rightarrow> 'v database" where
  "write_values compute m pks fs db =
     db\<lparr>db_value := \<lambda>m' n x.
        (case find (\<lambda>f. cf_name f = n) fs of
           Some f \<Rightarrow> if m' = m \<and> x \<in> pks \<and> x \<in> db_rows db m then compute f db x else db_value db m' n x
         | None \<Rightarrow> db_value db m' n x)\<rparr>"

definition bulk_refresh_fields ::
    "(computed_field \<Rightarrow> 'v database \<Rightarrow> pk \<Rightarrow> 'v) \<Rightarrow> model \<Rightarrow> pk set \<Rightarrow> computed_field list \<Rightarrow> 'v database \<Rightarrow> 'v database" where
  "bulk_refresh_fields compute m pks fs db =
     (if pks = {} \<or> fs = [] then db
      else let by_annotation = filter cf_annotated fs;
               by_prefetch = filter (\<lambda>f. \<not> cf_annotated f) fs;
               db1 = (if by_annotation \<noteq> [] then write_values compute m pks by_annotation db else db)
        in if by_prefetch \<noteq> [] then write_values compute m pks by_prefetch db1 else db1)"

subsection \<open>Flush\<close>

type_synonym batch = "(model \<times> (computed_field list \<times> pk set)) list"

definition batch_add :: "computed_field \<Rightarrow> pk set \<Rightarrow> batch \<Rightarrow> batch" where
  "batch_add f pks batch =
     (let (fs, s) = (case dict_get batch (cf_model f) of None \<Rightarrow> ([], {}) | Some e \<Rightarrow> e)
      in dict_put (cf_model f) (fs @ [f], s \<union> pks) batch)"

definition flush_level :: "dep_registry \<Rightarrow> pending \<Rightarrow> nat" where
  "flush_level reg p = Min ((\<lambda>(f, pks). depth_of reg (field_id f)) ` set p)"

definition flush_batch :: "dep_registry \<Rightarrow> nat \<Rightarrow> pending \<Rightarrow> batch" where
  "flush_batch reg level p =
     fold (\<lambda>(f, pks) b. batch_add f pks b) (filter (\<lambda>(f, pks). depth_of reg (field_id f) = level) p) []"

definition flush_rest :: "dep_registry \<Rightarrow> nat \<Rightarrow> pending \<Rightarrow> pending" where
  "flush_rest reg level p = filter (\<lambda>(f, pks). depth_of reg (field_id f) \<noteq> level) p"

fun run_batch ::
    "apps \<Rightarrow> dep_registry \<Rightarrow> (computed_field \<Rightarrow> 'v database \<Rightarrow> pk \<Rightarrow> 'v) \<Rightarrow> batch \<Rightarrow> pending \<times> 'v database \<Rightarrow> pending \<times> 'v database" where
  "run_batch a reg compute [] (p, db) = (p, db)"
| "run_batch a reg compute ((m, (fs, pks)) # batch) (p, db) =
     (let db' = bulk_refresh_fields compute m pks fs db;
          p' = ctx_modified a reg db' m pks (cf_name ` set fs) False p
      in run_batch a reg compute batch (p', db'))"

definition flush_step ::
    "apps \<Rightarrow> dep_registry \<Rightarrow> (computed_field \<Rightarrow> 'v database \<Rightarrow> pk \<Rightarrow> 'v) \<Rightarrow> pending \<times> 'v database \<Rightarrow> pending \<times> 'v database" where
  "flush_step a reg compute s =
     (let (p, db) = s; level = flush_level reg p
      in run_batch a reg compute (flush_batch reg level p) (flush_rest reg level p, db))"

text \<open>The loop runs until nothing is pending; not returning is \<open>None\<close>.\<close>

partial_function (option) flush ::
    "apps \<Rightarrow> dep_registry \<Rightarrow> (computed_field \<Rightarrow> 'v database \<Rightarrow> pk \<Rightarrow> 'v) \<Rightarrow> pending \<times> 'v database \<Rightarrow> 'v database option" where
  "flush a reg compute s =
     (if fst s = [] then Some (snd s) else flush a reg compute (flush_step a reg compute s))"

definition ctx_enter :: "refresh_state \<Rightarrow> refresh_state" where
  "ctx_enter s = s\<lparr>rs_depth := rs_depth s + 1\<rparr>"

text \<open>Leaving with or without an exception; only the outermost exit does anything.\<close>

definition ctx_exit ::
    "apps \<Rightarrow> dep_registry \<Rightarrow> (computed_field \<Rightarrow> 'v database \<Rightarrow> pk \<Rightarrow> 'v) \<Rightarrow> bool \<Rightarrow> refresh_state \<Rightarrow> 'v database
     \<Rightarrow> (refresh_state \<times> 'v database) option" where
  "ctx_exit a reg compute raised s db =
     (let s' = s\<lparr>rs_depth := rs_depth s - 1\<rparr> in
      if rs_depth s' = 0
      then (if raised then Some (s'\<lparr>rs_pending := []\<rparr>, db)
            else map_option (\<lambda>db'. (s'\<lparr>rs_pending := []\<rparr>, db')) (flush a reg compute (rs_pending s', db)))
      else Some (s', db))"

end
