(* ===== verification/Dependency_Laws.thy ===== *)
theory Dependency_Laws
  imports Dependency
begin

text \<open>
  What the registry guarantees once it is built: every field is strictly deeper than each stored
  field it reads, building always ends, it refuses exactly the cyclic declarations, and the
  merged bindings cover everything the parser asked to watch.
\<close>

declare split_paired_All [simp del] split_paired_Ex [simp del]

subsection \<open>The visit\<close>

text \<open>A depth table in which every field lies above what it reads.\<close>

definition settled :: "'f reads \<Rightarrow> 'f depths \<Rightarrow> bool" where
  "settled reads depth \<longleftrightarrow>
     (\<forall>f d. dict_get depth f = Some d \<longrightarrow>
        (\<forall>g \<in> set (dict_default reads f). \<exists>e. dict_get depth g = Some e \<and> e < d))"

lemma settled_empty: "settled reads []"
  by (simp add: settled_def)

lemma settled_put:
  assumes "settled reads depth" "dict_get depth f = None"
    and "\<forall>g \<in> set (dict_default reads f). \<exists>e. dict_get depth g = Some e \<and> e < d"
  shows "settled reads (dict_put f d depth)"
  unfolding settled_def
proof (intro allI impI ballI)
  fix h e g assume h: "dict_get (dict_put f d depth) h = Some e" and g: "g \<in> set (dict_default reads h)"
  have "\<exists>e'. dict_get depth g = Some e' \<and> e' < e"
    using assms h g by (cases "h = f") (auto simp: settled_def)
  moreover have "g \<noteq> f \<or> dict_get depth g = None" using assms(2) by auto
  ultimately show "\<exists>e'. dict_get (dict_put f d depth) g = Some e' \<and> e' < e" by auto
qed

definition extends :: "'f depths \<Rightarrow> 'f depths \<Rightarrow> bool" where
  "extends depth depth' \<longleftrightarrow> (\<forall>k v. dict_get depth k = Some v \<longrightarrow> dict_get depth' k = Some v)"

lemma extends_refl [simp]: "extends depth depth"
  by (simp add: extends_def)

lemma extends_trans: "extends d1 d2 \<Longrightarrow> extends d2 d3 \<Longrightarrow> extends d1 d3"
  by (simp add: extends_def)

lemma extendsD: "extends d1 d2 \<Longrightarrow> dict_get d1 k = Some v \<Longrightarrow> dict_get d2 k = Some v"
  by (simp add: extends_def)

lemma extends_put: "dict_get d k = None \<Longrightarrow> extends d (dict_put k v d)"
  by (auto simp: extends_def)

lemma visit_settled:
  "visit n reads visiting f depth = Inr (d, depth') \<Longrightarrow> settled reads depth \<Longrightarrow>
     settled reads depth' \<and> extends depth depth' \<and> dict_get depth' f = Some d
     \<and> (\<forall>v \<in> set visiting. dict_get depth v = None \<longrightarrow> dict_get depth' v = None)"
  "visit_all n reads visiting gs acc depth = Inr (d, depth') \<Longrightarrow> settled reads depth \<Longrightarrow>
     settled reads depth' \<and> extends depth depth' \<and> acc \<le> d
     \<and> (\<forall>g \<in> set gs. \<exists>e. dict_get depth' g = Some e \<and> e < d)
     \<and> (\<forall>v \<in> set visiting. dict_get depth v = None \<longrightarrow> dict_get depth' v = None)"
proof (induction n reads visiting f depth and n reads visiting gs acc depth
    arbitrary: d depth' and d depth' rule: visit_visit_all.induct)
  case (2 n reads visiting f depth)
  show ?case
  proof (cases "dict_get depth f")
    case (Some e)
    with 2 show ?thesis by auto
  next
    case None
    with 2(2) obtain depth1 where new: "f \<notin> set visiting"
      and v: "visit_all n reads (f # visiting) (dict_default reads f) 0 depth = Inr (d, depth1)"
      and depth': "depth' = dict_put f d depth1"
      by (auto split: if_splits)
    have IH: "settled reads depth1" "extends depth depth1"
      "\<forall>g \<in> set (dict_default reads f). \<exists>e. dict_get depth1 g = Some e \<and> e < d"
      "\<forall>v \<in> set (f # visiting). dict_get depth v = None \<longrightarrow> dict_get depth1 v = None"
      using "2.IH" [OF None new v 2(3)] by auto
    with None have f: "dict_get depth1 f = None" by simp
    have "settled reads depth'" unfolding depth' by (rule settled_put [OF IH(1) f IH(3)])
    moreover have "extends depth depth'" unfolding depth' by (rule extends_trans [OF IH(2) extends_put [OF f]])
    moreover have "\<forall>v \<in> set visiting. dict_get depth v = None \<longrightarrow> dict_get depth' v = None"
      using IH(4) new by (auto simp: depth')
    ultimately show ?thesis by (simp add: depth')
  qed
next
  case (4 n reads visiting g gs acc depth)
  from "4.prems"(1) obtain e depth1 where v: "visit n reads visiting g depth = Inr (e, depth1)"
    and vs: "visit_all n reads visiting gs (max acc (Suc e)) depth1 = Inr (d, depth')"
    by auto
  have IH1: "settled reads depth1" "extends depth depth1" "dict_get depth1 g = Some e"
    "\<forall>v \<in> set visiting. dict_get depth v = None \<longrightarrow> dict_get depth1 v = None"
    using "4.IH"(1) [OF v 4(4)] by auto
  have IH2: "settled reads depth'" "extends depth1 depth'" "max acc (Suc e) \<le> d"
    "\<forall>g \<in> set gs. \<exists>e. dict_get depth' g = Some e \<and> e < d"
    "\<forall>v \<in> set visiting. dict_get depth1 v = None \<longrightarrow> dict_get depth' v = None"
    using "4.IH"(2) [OF vs IH1(1)] by auto
  have "dict_get depth' g = Some e" by (rule extendsD [OF IH2(2) IH1(3)])
  moreover have "extends depth depth'" by (rule extends_trans [OF IH1(2) IH2(2)])
  moreover have "e < d" "acc \<le> d" using IH2(3) by simp_all
  moreover have "\<forall>v \<in> set visiting. dict_get depth v = None \<longrightarrow> dict_get depth' v = None"
    using IH1(4) IH2(5) by blast
  moreover have "\<forall>h \<in> set (g # gs). \<exists>e. dict_get depth' h = Some e \<and> e < d"
    using calculation(1,3) IH2(4) by auto
  ultimately show ?case using IH2(1) by blast
qed auto

lemma visit_each_settled:
  "visit_each n reads fs depth = Inr depth' \<Longrightarrow> settled reads depth \<Longrightarrow>
   settled reads depth' \<and> extends depth depth' \<and> (\<forall>f \<in> set fs. \<exists>d. dict_get depth' f = Some d)"
proof (induction fs arbitrary: depth)
  case (Cons f fs)
  then obtain d depth1 where v: "visit n reads [] f depth = Inr (d, depth1)"
    and vs: "visit_each n reads fs depth1 = Inr depth'" by auto
  have 1: "settled reads depth1" "extends depth depth1" "dict_get depth1 f = Some d"
    using visit_settled(1) [OF v Cons(3)] by auto
  have 2: "settled reads depth'" "extends depth1 depth'" "\<forall>f \<in> set fs. \<exists>d. dict_get depth' f = Some d"
    using Cons.IH [OF vs 1(1)] by auto
  show ?case using 2 extends_trans [OF 1(2) 2(2)] extendsD [OF 2(2) 1(3)] by simp
qed simp

text \<open>Enough fuel: the fields being visited are distinct members of a set the reads stay in.\<close>

lemma visit_fuel:
  assumes "finite F" and closed: "\<forall>f \<in> F. set (dict_default reads f) \<subseteq> F"
  shows "distinct visiting \<Longrightarrow> set visiting \<subseteq> F \<Longrightarrow> f \<in> F \<Longrightarrow> card F < n + length visiting \<Longrightarrow>
           visit n reads visiting f depth \<noteq> Inl OutOfFuel"
    and "distinct visiting \<Longrightarrow> set visiting \<subseteq> F \<Longrightarrow> set gs \<subseteq> F \<Longrightarrow> card F < n + length visiting \<Longrightarrow>
           visit_all n reads visiting gs acc depth \<noteq> Inl OutOfFuel"
  using closed
proof (induction n reads visiting f depth and n reads visiting gs acc depth rule: visit_visit_all.induct)
  case (1 reads visiting f depth)
  have "length visiting \<le> card F"
    using 1(1,2) assms(1) by (metis card_mono distinct_card)
  with 1(4) show ?case by simp
next
  case (2 n reads visiting f depth)
  then show ?case by (auto simp: result_bind_def split: option.splits sum.splits if_splits)
next
  case (3 n reads visiting acc depth)
  then show ?case by simp
next
  case (4 n reads visiting g gs acc depth)
  then show ?case by (auto simp: result_bind_def split: sum.splits)
qed

lemma visit_each_fuel:
  assumes "finite F" "\<forall>f \<in> F. set (dict_default reads f) \<subseteq> F" "card F < n"
  shows "set fs \<subseteq> F \<Longrightarrow> visit_each n reads fs depth \<noteq> Inl OutOfFuel"
proof (induction fs arbitrary: depth)
  case (Cons f fs)
  have "visit n reads [] f depth \<noteq> Inl OutOfFuel"
    by (rule visit_fuel(1) [OF assms(1,2)]) (use Cons assms(3) in auto)
  with Cons show ?case by (auto simp: result_bind_def split: sum.splits)
qed simp

text \<open>A reported cycle is one: whatever is being visited leads to the field visited now.\<close>

definition read_rel :: "'f reads \<Rightarrow> ('f \<times> 'f) set" where
  "read_rel reads = {(f, g). g \<in> set (dict_default reads f)}"

lemma visit_cycle:
  "\<forall>v \<in> set visiting. (v, f) \<in> (read_rel reads)\<^sup>+ \<Longrightarrow> visit n reads visiting f depth = Inl (Cycle c) \<Longrightarrow>
     (c, c) \<in> (read_rel reads)\<^sup>+"
  "\<forall>g \<in> set gs. \<forall>v \<in> set visiting. (v, g) \<in> (read_rel reads)\<^sup>+ \<Longrightarrow>
     visit_all n reads visiting gs acc depth = Inl (Cycle c) \<Longrightarrow> (c, c) \<in> (read_rel reads)\<^sup>+"
proof (induction n reads visiting f depth and n reads visiting gs acc depth rule: visit_visit_all.induct)
  case (2 n reads visiting f depth)
  show ?case
  proof (cases "f \<in> set visiting")
    case True
    with "2.prems" show ?thesis by (auto split: option.splits)
  next
    case False
    with "2.prems"(2) have none: "dict_get depth f = None"
      and v: "visit_all n reads (f # visiting) (dict_default reads f) 0 depth = Inl (Cycle c)"
      by (auto simp: result_bind_def split: option.splits sum.splits)
    have "\<forall>g \<in> set (dict_default reads f). \<forall>v \<in> set (f # visiting). (v, g) \<in> (read_rel reads)\<^sup>+"
      using "2.prems"(1) by (auto simp: read_rel_def intro: trancl_into_trancl)
    from "2.IH" [OF none False this v] show ?thesis .
  qed
next
  case (4 n reads visiting g gs acc depth)
  show ?case
  proof (cases "visit n reads visiting g depth")
    case (Inl e)
    with "4.prems"(2) have "visit n reads visiting g depth = Inl (Cycle c)" by simp
    with "4.IH"(1) "4.prems"(1) show ?thesis by simp
  next
    case (Inr p)
    then obtain d depth1 where p: "visit n reads visiting g depth = Inr (d, depth1)" by (cases p) auto
    with "4.prems"(2) have vs: "visit_all n reads visiting gs (max acc (Suc d)) depth1 = Inl (Cycle c)" by simp
    have "\<forall>h \<in> set gs. \<forall>v \<in> set visiting. (v, h) \<in> (read_rel reads)\<^sup>+" using "4.prems"(1) by simp
    from "4.IH"(2) [OF this vs] show ?thesis .
  qed
qed auto

lemma visit_each_cycle:
  "visit_each n reads fs depth = Inl (Cycle c) \<Longrightarrow> (c, c) \<in> (read_rel reads)\<^sup>+"
proof (induction fs arbitrary: depth)
  case (Cons f fs)
  show ?case
  proof (cases "visit n reads [] f depth")
    case (Inl e)
    with Cons.prems have "visit n reads [] f depth = Inl (Cycle c)" by simp
    then show ?thesis by (intro visit_cycle(1) [of "[]"]) simp_all
  next
    case (Inr p)
    with Cons show ?thesis by (cases p) auto
  qed
qed simp

subsection \<open>The reads of the bindings\<close>

lemma binding_pairsI: "b \<in> set (dict_default bindings m) \<Longrightarrow> (m, b) \<in> set (binding_pairs bindings)"
  by (drule dict_defaultD) (auto simp: binding_pairs_def intro!: bexI)

lemma reads_loop_keeps:
  "reads_loop a ps reads0 = Inr reads \<Longrightarrow> set (dict_default reads0 f) \<subseteq> set (dict_default reads f)"
proof (induction a ps reads0 rule: reads_loop.induct)
  case (2 a m b ps reads0)
  let ?f = "field_id (bind_field b)"
  have "reads_loop a ps (dict_put ?f (dict_default reads0 ?f @ map field_id (binding_reads a m b)) reads0)
      = Inr reads" and "?f \<notin> set (map field_id (binding_reads a m b))"
    using "2.prems" by (auto simp: Let_def split: if_splits)
  from "2.IH" [OF refl refl this(2,1)] show ?case by (auto split: if_splits)
qed simp

lemma reads_loop_adds:
  "reads_loop a ps reads0 = Inr reads \<Longrightarrow> (m, b) \<in> set ps \<Longrightarrow> g \<in> set (binding_reads a m b) \<Longrightarrow>
   field_id g \<in> set (dict_default reads (field_id (bind_field b)))"
proof (induction a ps reads0 rule: reads_loop.induct)
  case (2 a m' b' ps reads0)
  let ?f = "field_id (bind_field b')"
  let ?r = "dict_put ?f (dict_default reads0 ?f @ map field_id (binding_reads a m' b')) reads0"
  have new: "reads_loop a ps ?r = Inr reads" "?f \<notin> set (map field_id (binding_reads a m' b'))"
    using "2.prems"(1) by (auto simp: Let_def split: if_splits)
  show ?case
  proof (cases "(m, b) = (m', b')")
    case True
    with "2.prems"(3) have "field_id g \<in> set (dict_default ?r ?f)" by simp
    with reads_loop_keeps [OF new(1), of ?f] True show ?thesis by auto
  next
    case False
    with "2.IH" [OF refl refl new(2,1)] "2.prems" show ?thesis by auto
  qed
qed simp

lemma reads_of_spec:
  assumes "reads_of a bindings = Inr reads" "b \<in> set (dict_default bindings m)"
    and "g \<in> set (computed_fields a m)" "cf_name g \<in> trigger_fields b"
  shows "field_id g \<in> set (dict_default reads (field_id (bind_field b)))"
  by (rule reads_loop_adds [OF _ binding_pairsI [OF assms(2)]])
    (use assms in \<open>auto simp: reads_of_def binding_reads_def\<close>)

lemma set_read_fields: "set (read_fields reads) = (\<Union>(f, gs) \<in> set reads. insert f (set gs))"
  by (auto simp: read_fields_def)

lemma read_fields_closed:
  "\<forall>f \<in> set (read_fields reads). set (dict_default reads f) \<subseteq> set (read_fields reads)"
proof (intro ballI subsetI)
  fix f g assume "g \<in> set (dict_default reads f)"
  then obtain gs where "(f, gs) \<in> set reads" "g \<in> set gs" by (blast dest: dict_defaultD)
  then show "g \<in> set (read_fields reads)" unfolding set_read_fields by blast
qed

lemma read_fields_key: "g \<in> set (dict_default reads f) \<Longrightarrow> f \<in> set (read_fields reads)"
  unfolding set_read_fields by (drule dict_defaultD) blast

lemma compute_depths_total: "compute_depths a bindings \<noteq> None"
proof (cases "reads_of a bindings")
  case (Inr reads)
  have "visit_each (Suc (length (read_fields reads))) reads (read_fields reads) [] \<noteq> Inl OutOfFuel"
    by (rule visit_each_fuel [OF _ read_fields_closed])
      (auto simp: le_imp_less_Suc card_length)
  with Inr show ?thesis
    by (auto simp: compute_depths_def Let_def split: sum.splits visit_error.splits)
qed (simp add: compute_depths_def)

lemma compute_depths_orders:
  assumes "compute_depths a bindings = Some (Inr depth)" "b \<in> set (dict_default bindings m)"
    and "g \<in> set (computed_fields a m)" "cf_name g \<in> trigger_fields b"
  shows "\<exists>d e. dict_get depth (field_id g) = Some d \<and> dict_get depth (field_id (bind_field b)) = Some e \<and> d < e"
proof -
  from assms(1) obtain reads where reads: "reads_of a bindings = Inr reads"
    and v: "visit_each (Suc (length (read_fields reads))) reads (read_fields reads) [] = Inr depth"
    by (auto simp: compute_depths_def Let_def split: sum.splits visit_error.splits)
  have g: "field_id g \<in> set (dict_default reads (field_id (bind_field b)))"
    by (rule reads_of_spec [OF reads assms(2-4)])
  from visit_each_settled [OF v settled_empty] read_fields_key [OF g]
  obtain e where e: "settled reads depth" "dict_get depth (field_id (bind_field b)) = Some e" by blast
  from e g show ?thesis unfolding settled_def by blast
qed

subsection \<open>What the parser watches\<close>

definition watch_le :: "watch \<Rightarrow> watch \<Rightarrow> bool" where
  "watch_le w w' \<longleftrightarrow> w_triggers w \<subseteq> w_triggers w' \<and> w_membership w \<subseteq> w_membership w'
     \<and> (w_existence w \<longrightarrow> w_existence w')"

definition watches_le :: "watches \<Rightarrow> watches \<Rightarrow> bool" where
  "watches_le ws ws' \<longleftrightarrow>
     (\<forall>m path w. dict_get ws (m, path) = Some w \<longrightarrow> (\<exists>w'. dict_get ws' (m, path) = Some w' \<and> watch_le w w'))"

lemma watch_le_refl [simp]: "watch_le w w"
  by (simp add: watch_le_def)

lemma watch_le_trans: "watch_le w1 w2 \<Longrightarrow> watch_le w2 w3 \<Longrightarrow> watch_le w1 w3"
  by (auto simp: watch_le_def)

lemma watches_le_refl [simp]: "watches_le ws ws"
  by (auto simp: watches_le_def)

lemma watches_le_trans: "watches_le ws1 ws2 \<Longrightarrow> watches_le ws2 ws3 \<Longrightarrow> watches_le ws1 ws3"
  unfolding watches_le_def by (meson watch_le_trans)

lemma watches_leD:
  "watches_le ws ws' \<Longrightarrow> dict_get ws (m, path) = Some w \<Longrightarrow> \<exists>w'. dict_get ws' (m, path) = Some w' \<and> watch_le w w'"
  by (simp add: watches_le_def)

lemma watch_update_get:
  "dict_get (watch_update k f ws) k' =
     (if k' = k then Some (f (case dict_get ws k of None \<Rightarrow> new_watch | Some w \<Rightarrow> w)) else dict_get ws k')"
  by (simp add: watch_update_def)

lemma watch_update_le: "(\<And>w. watch_le w (f w)) \<Longrightarrow> watches_le ws (watch_update k f ws)"
  by (auto simp: watches_le_def watch_update_get)

lemma watch_le_steps [simp]:
  "watch_le w (add_triggers ns w)"
  "watch_le w (add_membership ns (add_triggers ns w))"
  "watch_le w (w\<lparr>w_existence := True\<rparr>)"
  "watch_le w (w\<lparr>w_fk := x\<rparr>)"
  by (auto simp: watch_le_def add_triggers_def add_membership_def)

text \<open>The update of one hop, forward or reverse.\<close>

definition forward_watches :: "model \<Rightarrow> string list \<Rightarrow> column \<Rightarrow> model \<Rightarrow> watches \<Rightarrow> watches" where
  "forward_watches m path c t ws =
     watch_update (t, path @ [col_name c]) (\<lambda>w. w\<lparr>w_existence := True\<rparr>)
       (watch_update (m, path) (add_triggers (field_names c)) ws)"

definition reverse_watches :: "string list \<Rightarrow> string \<Rightarrow> column \<Rightarrow> model \<Rightarrow> bool \<Rightarrow> watches \<Rightarrow> watches" where
  "reverse_watches path lookup c t m2m ws =
     (let path' = path @ [lookup]; own = field_names c;
          ws1 = watch_update (t, path') (\<lambda>w. add_membership own (add_triggers own w)) ws;
          ws2 = (if path = [] \<and> \<not> m2m then watch_update (t, path') (\<lambda>w. w\<lparr>w_fk := col_attname c\<rparr>) ws1 else ws1)
      in watch_update (t, path') (\<lambda>w. w\<lparr>w_existence := True\<rparr>) ws2)"

lemma forward_watches_le: "watches_le ws (forward_watches m path c t ws)"
  unfolding forward_watches_def by (intro watches_le_trans [OF watch_update_le watch_update_le]) simp_all

lemma reverse_watches_le: "watches_le ws (reverse_watches path lookup c t m2m ws)"
  unfolding reverse_watches_def Let_def
  by (auto intro!: watches_le_trans [OF _ watch_update_le] watch_update_le)

lemma forward_watches_get:
  "\<exists>w. dict_get (forward_watches m path c t ws) (m, path) = Some w \<and> field_names c \<subseteq> w_triggers w"
  "\<exists>w. dict_get (forward_watches m path c t ws) (t, path @ [col_name c]) = Some w \<and> w_existence w"
  by (auto simp: forward_watches_def watch_update_get add_triggers_def)

lemma reverse_watches_get:
  "\<exists>w. dict_get (reverse_watches path lookup c t m2m ws) (t, path @ [lookup]) = Some w
     \<and> field_names c \<subseteq> w_triggers w \<and> field_names c \<subseteq> w_membership w \<and> w_existence w"
  by (auto simp: reverse_watches_def Let_def watch_update_get add_triggers_def add_membership_def)

lemma watches_distinct:
  "distinct (dict_keys ws) \<Longrightarrow> distinct (dict_keys (forward_watches m path c t ws))"
  "distinct (dict_keys ws) \<Longrightarrow> distinct (dict_keys (reverse_watches path lookup c t m2m ws))"
  by (simp_all add: forward_watches_def reverse_watches_def Let_def watch_update_def distinct_dict_put)

text \<open>The outcomes of one part of a dependency.\<close>

lemma parse_parts_ConsE:
  assumes "parse_parts a k m path hops ws (name # rest) = Inr ws'"
  obtains (plain) c where "get_field a m name = Some (Plain c)" "rest = []"
      "ws' = watch_update (m, path) (add_triggers (field_names c)) ws"
  | (forward) c t m2m where "get_field a m name = Some (Forward c (Some t) m2m)" "hops + 1 \<le> k"
      "parse_parts a k t (path @ [col_name c]) (hops + 1) (forward_watches m path c t ws) rest = Inr ws'"
  | (reverse) lookup c t m2m where "get_field a m name = Some (Reverse lookup c (Some t) m2m)" "hops + 1 \<le> k"
      "parse_parts a k t (path @ [lookup]) (hops + 1) (reverse_watches path lookup c t m2m ws) rest = Inr ws'"
proof (cases "get_field a m name")
  case None
  with assms show ?thesis by simp
next
  case (Some f)
  show ?thesis
  proof (cases f)
    case (Plain c)
    with Some assms show ?thesis by (intro plain) (auto split: if_splits)
  next
    case (Forward c t m2m)
    with Some assms obtain t' where "t = Some t'" by (cases t) (auto split: if_splits)
    with Some Forward assms show ?thesis
      by (intro forward) (auto simp: forward_watches_def Let_def split: if_splits)
  next
    case (Reverse lookup c t m2m)
    with Some assms obtain t' where "t = Some t'" by (cases t) (auto split: if_splits)
    with Some Reverse assms show ?thesis
      by (intro reverse) (auto simp: reverse_watches_def Let_def split: if_splits)
  qed
qed

lemma parse_parts_le: "parse_parts a k m path hops ws parts = Inr ws' \<Longrightarrow> watches_le ws ws'"
proof (induction parts arbitrary: m path hops ws)
  case (Cons name rest)
  from Cons.prems show ?case
  proof (cases rule: parse_parts_ConsE)
    case (plain c)
    then show ?thesis by (simp add: watch_update_le)
  next
    case (forward c t m2m)
    show ?thesis by (rule watches_le_trans [OF forward_watches_le Cons.IH [OF forward(3)]])
  next
    case (reverse lookup c t m2m)
    show ?thesis by (rule watches_le_trans [OF reverse_watches_le Cons.IH [OF reverse(3)]])
  qed
qed simp

lemma parse_parts_distinct:
  "parse_parts a k m path hops ws parts = Inr ws' \<Longrightarrow> distinct (dict_keys ws) \<Longrightarrow> distinct (dict_keys ws')"
proof (induction parts arbitrary: m path hops ws)
  case (Cons name rest)
  from Cons.prems(1) show ?case
  proof (cases rule: parse_parts_ConsE)
    case (plain c)
    with Cons.prems(2) show ?thesis by (simp add: watch_update_def distinct_dict_put)
  next
    case (forward c t m2m)
    show ?thesis by (rule Cons.IH [OF forward(3) watches_distinct(1) [OF Cons.prems(2)]])
  next
    case (reverse lookup c t m2m)
    show ?thesis by (rule Cons.IH [OF reverse(3) watches_distinct(2) [OF Cons.prems(2)]])
  qed
qed simp

text \<open>Where the foreign key shortcut is taken.\<close>

definition fk_direct :: "apps \<Rightarrow> model \<Rightarrow> model \<Rightarrow> string list \<Rightarrow> string \<Rightarrow> bool" where
  "fk_direct a root w path s \<longleftrightarrow>
     (\<exists>n lookup c. path = [lookup] \<and> get_field a root n = Some (Reverse lookup c (Some w) False)
        \<and> col_attname c = Some s)"

definition fk_inv :: "apps \<Rightarrow> model \<Rightarrow> watches \<Rightarrow> bool" where
  "fk_inv a root ws \<longleftrightarrow>
     (\<forall>m path w s. dict_get ws (m, path) = Some w \<longrightarrow> w_fk w = Some s \<longrightarrow> fk_direct a root m path s)"

lemma fk_inv_update:
  "fk_inv a root ws \<Longrightarrow> (\<And>w. w_fk (f w) = w_fk w) \<Longrightarrow> fk_inv a root (watch_update k f ws)"
  unfolding fk_inv_def watch_update_get by (auto simp: new_watch_def split: option.splits if_splits)

lemma fk_inv_forward: "fk_inv a root ws \<Longrightarrow> fk_inv a root (forward_watches m path c t ws)"
  unfolding forward_watches_def by (intro fk_inv_update) (simp_all add: add_triggers_def)

lemma fk_inv_reverse:
  assumes "fk_inv a root ws" "get_field a m name = Some (Reverse lookup c (Some t) m2m)" "path = [] \<longrightarrow> m = root"
  shows "fk_inv a root (reverse_watches path lookup c t m2m ws)"
proof -
  let ?ws1 = "watch_update (t, path @ [lookup]) (\<lambda>w. add_membership (field_names c) (add_triggers (field_names c) w)) ws"
  have 1: "fk_inv a root ?ws1"
    using assms(1) by (rule fk_inv_update) (simp add: add_triggers_def add_membership_def)
  have "fk_inv a root (watch_update (t, path @ [lookup]) (\<lambda>w. w\<lparr>w_fk := col_attname c\<rparr>) ?ws1)"
    if "path = []" "\<not> m2m"
  proof -
    have "fk_direct a root t [lookup] s" if "col_attname c = Some s" for s
      using that assms(2,3) \<open>path = []\<close> \<open>\<not> m2m\<close> by (auto simp: fk_direct_def)
    with 1 \<open>path = []\<close> show ?thesis
      unfolding fk_inv_def watch_update_get [of _ "\<lambda>w. w\<lparr>w_fk := col_attname c\<rparr>"] by auto
  qed
  with 1 show ?thesis
    unfolding reverse_watches_def Let_def by (intro fk_inv_update) auto
qed

lemma parse_parts_fk:
  "parse_parts a k m path hops ws parts = Inr ws' \<Longrightarrow> fk_inv a root ws \<Longrightarrow> (path = [] \<longrightarrow> m = root) \<Longrightarrow>
   fk_inv a root ws'"
proof (induction parts arbitrary: m path hops ws)
  case (Cons name rest)
  from Cons.prems(1) show ?case
  proof (cases rule: parse_parts_ConsE)
    case (plain c)
    with Cons.prems(2) show ?thesis by (auto intro!: fk_inv_update simp: add_triggers_def)
  next
    case (forward c t m2m)
    show ?thesis by (rule Cons.IH [OF forward(3) fk_inv_forward [OF Cons.prems(2)]]) simp
  next
    case (reverse lookup c t m2m)
    show ?thesis
      by (rule Cons.IH [OF reverse(3) fk_inv_reverse [OF Cons.prems(2) reverse(1) Cons.prems(3)]]) simp
  qed
qed simp

subsection \<open>Merging and indexing\<close>

definition covers :: "binding \<Rightarrow> binding \<Rightarrow> bool" where
  "covers b b' \<longleftrightarrow> bind_field b' = bind_field b \<and> root_model b' = root_model b
     \<and> watched_model b' = watched_model b \<and> bind_path b' = bind_path b
     \<and> trigger_fields b \<subseteq> trigger_fields b' \<and> membership_fields b \<subseteq> membership_fields b'
     \<and> (on_existence b \<longrightarrow> on_existence b')"

lemma covers_refl [simp]: "covers b b"
  by (simp add: covers_def)

lemma covers_trans: "covers b1 b2 \<Longrightarrow> covers b2 b3 \<Longrightarrow> covers b1 b3"
  by (auto simp: covers_def)

text \<open>A binding parsed for one field, whose shortcut, if any, is its own reverse key.\<close>

definition own_binding :: "apps \<Rightarrow> computed_field \<Rightarrow> binding \<Rightarrow> bool" where
  "own_binding a f b \<longleftrightarrow> bind_field b = f \<and> root_model b = cf_model f
     \<and> (\<forall>s. fk_attname b = Some s \<longrightarrow> fk_direct a (cf_model f) (watched_model b) (bind_path b) s)"

lemma merge_into_covers:
  "own_binding a f m \<Longrightarrow> own_binding a f b \<Longrightarrow> merge_key m = merge_key b \<Longrightarrow>
   covers m (merge_into m b) \<and> covers b (merge_into m b) \<and> own_binding a f (merge_into m b)
   \<and> merge_key (merge_into m b) = merge_key b"
  by (auto simp: covers_def own_binding_def merge_into_def merge_key_def split: option.splits list.splits)

definition merge_step :: "binding \<Rightarrow> (merge_key \<times> binding) list \<Rightarrow> (merge_key \<times> binding) list" where
  "merge_step b merged =
     (case dict_get merged (merge_key b) of
        None \<Rightarrow> dict_put (merge_key b) b merged
      | Some m \<Rightarrow> dict_put (merge_key b) (merge_into m b) merged)"

definition merge_inv :: "apps \<Rightarrow> computed_field \<Rightarrow> (merge_key \<times> binding) list \<Rightarrow> bool" where
  "merge_inv a f d \<longleftrightarrow> distinct (dict_keys d) \<and> (\<forall>(k, m) \<in> set d. merge_key m = k \<and> own_binding a f m)"

lemma merge_inv_get: "merge_inv a f d \<Longrightarrow> dict_get d k = Some m \<Longrightarrow> merge_key m = k \<and> own_binding a f m"
  by (auto simp: merge_inv_def dest: map_of_SomeD)

lemma set_dict_put_subset: "set (dict_put k v d) \<subseteq> insert (k, v) (set d)"
  by (induction d) auto

lemma merge_inv_put:
  "merge_inv a f d \<Longrightarrow> merge_key m = k \<Longrightarrow> own_binding a f m \<Longrightarrow> merge_inv a f (dict_put k m d)"
  unfolding merge_inv_def using set_dict_put_subset [of k m d] by (auto intro: distinct_dict_put)

lemma merge_step_inv: "merge_inv a f d \<Longrightarrow> own_binding a f b \<Longrightarrow> merge_inv a f (merge_step b d)"
  using merge_into_covers merge_inv_get
  by (fastforce simp: merge_step_def intro: merge_inv_put split: option.splits)

lemma merge_step_get:
  assumes "merge_inv a f d" "own_binding a f b"
  shows "\<exists>m. dict_get (merge_step b d) (merge_key b) = Some m \<and> covers b m"
    and "dict_get d k = Some m \<Longrightarrow> \<exists>m'. dict_get (merge_step b d) k = Some m' \<and> covers m m'"
proof -
  have both: "(\<exists>m. dict_get (merge_step b d) (merge_key b) = Some m \<and> covers b m)
     \<and> (\<forall>k m. dict_get d k = Some m \<longrightarrow> (\<exists>m'. dict_get (merge_step b d) k = Some m' \<and> covers m m'))"
  proof (cases "dict_get d (merge_key b)")
    case None
    then have "merge_step b d = dict_put (merge_key b) b d" by (simp add: merge_step_def)
    with None show ?thesis by simp
  next
    case (Some m0)
    then have eq: "merge_step b d = dict_put (merge_key b) (merge_into m0 b) d" by (simp add: merge_step_def)
    have "covers m0 (merge_into m0 b) \<and> covers b (merge_into m0 b)"
      using merge_into_covers [OF _ assms(2), of m0] merge_inv_get [OF assms(1) Some] by blast
    with Some show ?thesis by (simp add: eq)
  qed
  show "\<exists>m. dict_get (merge_step b d) (merge_key b) = Some m \<and> covers b m" using both by blast
  show "\<exists>m'. dict_get (merge_step b d) k = Some m' \<and> covers m m'" if "dict_get d k = Some m"
    using both that by blast
qed

lemma merge_fold:
  "\<forall>b \<in> set bs. own_binding a f b \<Longrightarrow> merge_inv a f d \<Longrightarrow>
   merge_inv a f (fold merge_step bs d)
   \<and> (\<forall>b \<in> set bs. \<exists>m. dict_get (fold merge_step bs d) (merge_key b) = Some m \<and> covers b m)
   \<and> (\<forall>k m. dict_get d k = Some m \<longrightarrow> (\<exists>m'. dict_get (fold merge_step bs d) k = Some m' \<and> covers m m'))"
proof (induction bs arbitrary: d)
  case (Cons b bs)
  have inv: "merge_inv a f (merge_step b d)" and b: "own_binding a f b"
    using Cons.prems by (auto intro: merge_step_inv)
  have rest: "\<forall>b \<in> set bs. own_binding a f b" using Cons.prems(1) by simp
  note IH0 = Cons.IH [OF rest inv]
  note IH = IH0 [THEN conjunct1] IH0 [THEN conjunct2, THEN conjunct1] IH0 [THEN conjunct2, THEN conjunct2, rule_format]
  have "\<exists>m. dict_get (fold merge_step bs (merge_step b d)) (merge_key b) = Some m \<and> covers b m"
    using merge_step_get(1) [OF Cons.prems(2) b] IH(3) covers_trans by blast
  moreover have "\<exists>m'. dict_get (fold merge_step bs (merge_step b d)) k = Some m' \<and> covers m m'"
    if "dict_get d k = Some m" for k m
    using merge_step_get(2) [OF Cons.prems(2) b that] IH(3) covers_trans by blast
  moreover have "fold merge_step (b # bs) d = fold merge_step bs (merge_step b d)" by simp
  ultimately show ?case using IH(1,2) by (metis set_ConsD)
qed simp

lemma merge_bindings_spec:
  assumes "\<forall>b \<in> set bs. own_binding a f b"
  shows "\<forall>b \<in> set bs. \<exists>m \<in> set (merge_bindings bs). covers b m"
    and "\<forall>m \<in> set (merge_bindings bs). own_binding a f m"
proof -
  have eq: "merge_bindings bs = map snd (fold merge_step bs [])"
    by (simp add: merge_bindings_def merge_step_def [abs_def])
  have inv: "merge_inv a f []" by (simp add: merge_inv_def)
  note fold = merge_fold [OF assms inv]
  show "\<forall>b \<in> set bs. \<exists>m \<in> set (merge_bindings bs). covers b m"
    unfolding eq using fold by (force dest: map_of_SomeD)
  show "\<forall>m \<in> set (merge_bindings bs). own_binding a f m"
    unfolding eq using fold by (auto simp: merge_inv_def)
qed

lemma index_bindings_iff:
  "b \<in> set (dict_default (index_bindings bs) m) \<longleftrightarrow> b \<in> set bs \<and> watched_model b = m"
proof -
  have "b \<in> set (dict_default (fold (\<lambda>b d. dict_put (watched_model b) (dict_default d (watched_model b) @ [b]) d) bs d) m)
      \<longleftrightarrow> b \<in> set (dict_default d m) \<or> b \<in> set bs \<and> watched_model b = m" for d
    by (induction bs arbitrary: d) auto
  from this [of "[]"] show ?thesis by (simp add: index_bindings_def dict_default_def)
qed

subsection \<open>The registry built\<close>

lemma parse_dependency_own:
  assumes "parse_dependency a k f dep = Inr bs"
  shows "\<exists>ws. parse_parts a k (cf_model f) [] 0 [] (split_lookup dep) = Inr ws
     \<and> (\<forall>b \<in> set bs. own_binding a f b)
     \<and> (\<forall>m path w. dict_get ws (m, path) = Some w \<longrightarrow>
          (\<exists>b \<in> set bs. watched_model b = m \<and> bind_path b = path \<and> trigger_fields b = w_triggers w
             \<and> membership_fields b = w_membership w \<and> (on_existence b \<longleftrightarrow> w_existence w \<and> path \<noteq> [])))"
proof -
  let ?mk = "\<lambda>((m, path), w). \<lparr>root_model = cf_model f, bind_field = f, watched_model = m, bind_path = path,
          trigger_fields = w_triggers w, membership_fields = w_membership w,
          on_existence = (w_existence w \<and> path \<noteq> []), fk_attname = w_fk w\<rparr>"
  from assms obtain ws where ws: "parse_parts a k (cf_model f) [] 0 [] (split_lookup dep) = Inr ws"
    and bs: "bs = map ?mk ws"
    by (auto simp: parse_dependency_def)
  have inv: "fk_inv a (cf_model f) ws" by (rule parse_parts_fk [OF ws]) (simp_all add: fk_inv_def)
  have d: "distinct (dict_keys ws)" by (rule parse_parts_distinct [OF ws]) simp
  have own: "own_binding a f (?mk ((m, path), w))" if "((m, path), w) \<in> set ws" for m path w
  proof -
    have "dict_get ws (m, path) = Some w" using d that by simp
    with inv show ?thesis unfolding fk_inv_def own_binding_def by auto
  qed
  have watched: "\<exists>b \<in> set bs. watched_model b = m \<and> bind_path b = path \<and> trigger_fields b = w_triggers w
       \<and> membership_fields b = w_membership w \<and> (on_existence b \<longleftrightarrow> w_existence w \<and> path \<noteq> [])"
    if "dict_get ws (m, path) = Some w" for m path w
  proof -
    from that have "?mk ((m, path), w) \<in> set bs" unfolding bs by (force dest: map_of_SomeD)
    then show ?thesis by (rule rev_bexI) simp
  qed
  have "\<forall>b \<in> set bs. own_binding a f b" unfolding bs using own by auto
  with ws watched show ?thesis by blast
qed

lemma field_bindings_spec:
  assumes "field_bindings a k f = Inr bs"
  shows "\<forall>b \<in> set bs. own_binding a f b"
    and "dep \<in> set (cf_depends_on f) \<Longrightarrow> \<exists>ws. parse_parts a k (cf_model f) [] 0 [] (split_lookup dep) = Inr ws
     \<and> (\<forall>m path w. dict_get ws (m, path) = Some w \<longrightarrow>
          (\<exists>b \<in> set bs. watched_model b = m \<and> bind_path b = path \<and> w_triggers w \<subseteq> trigger_fields b
             \<and> w_membership w \<subseteq> membership_fields b \<and> (w_existence w \<and> path \<noteq> [] \<longrightarrow> on_existence b)))"
proof -
  from assms obtain parsed where parsed: "result_map (parse_dependency a k f) (cf_depends_on f) = Inr parsed"
    and bs: "bs = merge_bindings (concat parsed)"
    by (auto simp: field_bindings_def)
  have own: "\<forall>b \<in> set (concat parsed). own_binding a f b"
    using result_map_mem(2) [OF parsed] parse_dependency_own by fastforce
  note merged = merge_bindings_spec [OF own]
  show "\<forall>b \<in> set bs. own_binding a f b" unfolding bs by (rule merged(2))
  assume "dep \<in> set (cf_depends_on f)"
  from result_map_mem(1) [OF parsed this] obtain p where p: "p \<in> set parsed" "parse_dependency a k f dep = Inr p"
    by blast
  from parse_dependency_own [OF p(2)] obtain ws
    where ws: "parse_parts a k (cf_model f) [] 0 [] (split_lookup dep) = Inr ws"
    and w: "\<And>m path w. dict_get ws (m, path) = Some w \<Longrightarrow>
          \<exists>b \<in> set p. watched_model b = m \<and> bind_path b = path \<and> trigger_fields b = w_triggers w
             \<and> membership_fields b = w_membership w \<and> (on_existence b \<longleftrightarrow> w_existence w \<and> path \<noteq> [])"
    by blast
  have "\<exists>b \<in> set bs. watched_model b = m \<and> bind_path b = path \<and> w_triggers w \<subseteq> trigger_fields b
             \<and> w_membership w \<subseteq> membership_fields b \<and> (w_existence w \<and> path \<noteq> [] \<longrightarrow> on_existence b)"
    if get: "dict_get ws (m, path) = Some w" for m path w
  proof -
    obtain b where b: "b \<in> set p" "watched_model b = m" "bind_path b = path" "trigger_fields b = w_triggers w"
      "membership_fields b = w_membership w" "on_existence b \<longleftrightarrow> w_existence w \<and> path \<noteq> []"
      using w [OF get] by blast
    with p(1) merged(1) obtain m' where "m' \<in> set bs" "covers b m'" unfolding bs by fastforce
    with b show ?thesis by (intro bexI [of _ m']) (auto simp: covers_def)
  qed
  with ws show "\<exists>ws. parse_parts a k (cf_model f) [] 0 [] (split_lookup dep) = Inr ws
     \<and> (\<forall>m path w. dict_get ws (m, path) = Some w \<longrightarrow>
          (\<exists>b \<in> set bs. watched_model b = m \<and> bind_path b = path \<and> w_triggers w \<subseteq> trigger_fields b
             \<and> w_membership w \<subseteq> membership_fields b \<and> (w_existence w \<and> path \<noteq> [] \<longrightarrow> on_existence b)))"
    by blast
qed

lemma build_registryE:
  assumes "build_registry a k = Some (Inr reg)"
  obtains bss where "result_map (field_bindings a k) (all_stored a) = Inr bss"
    "reg_bindings reg = index_bindings (concat bss)"
    "compute_depths a (reg_bindings reg) = Some (Inr (reg_depth reg))"
    "reg_cascades reg = compute_cascades a (reg_bindings reg)"
  using assms
  by (auto simp: build_registry_def all_bindings_def Let_def split: sum.splits option.splits)

text \<open>What a watch of a declared dependency becomes in the registry.\<close>

lemma registry_watches:
  assumes reg: "build_registry a k = Some (Inr reg)"
    and f: "f \<in> set (all_stored a)" and dep: "dep \<in> set (cf_depends_on f)"
  shows "\<exists>ws. parse_parts a k (cf_model f) [] 0 [] (split_lookup dep) = Inr ws
     \<and> (\<forall>m path w. dict_get ws (m, path) = Some w \<longrightarrow>
          (\<exists>b \<in> set (bindings_for reg m). bind_field b = f \<and> root_model b = cf_model f \<and> bind_path b = path
             \<and> w_triggers w \<subseteq> trigger_fields b \<and> w_membership w \<subseteq> membership_fields b
             \<and> (w_existence w \<and> path \<noteq> [] \<longrightarrow> on_existence b)))"
proof -
  obtain bss where bss: "result_map (field_bindings a k) (all_stored a) = Inr bss"
    "reg_bindings reg = index_bindings (concat bss)"
    using reg by (rule build_registryE)
  from result_map_mem(1) [OF bss(1) f] obtain bs where bs: "bs \<in> set bss" "field_bindings a k f = Inr bs" by blast
  note fb = field_bindings_spec [OF bs(2)]
  obtain ws where ws: "parse_parts a k (cf_model f) [] 0 [] (split_lookup dep) = Inr ws"
    and w: "\<And>m path w. dict_get ws (m, path) = Some w \<Longrightarrow>
          \<exists>b \<in> set bs. watched_model b = m \<and> bind_path b = path \<and> w_triggers w \<subseteq> trigger_fields b
             \<and> w_membership w \<subseteq> membership_fields b \<and> (w_existence w \<and> path \<noteq> [] \<longrightarrow> on_existence b)"
    using fb(2) [OF dep] by blast
  have "\<exists>b \<in> set (bindings_for reg m). bind_field b = f \<and> root_model b = cf_model f \<and> bind_path b = path
             \<and> w_triggers w \<subseteq> trigger_fields b \<and> w_membership w \<subseteq> membership_fields b
             \<and> (w_existence w \<and> path \<noteq> [] \<longrightarrow> on_existence b)"
    if "dict_get ws (m, path) = Some w" for m path w
  proof -
    obtain b where b: "b \<in> set bs" "watched_model b = m" "bind_path b = path" "w_triggers w \<subseteq> trigger_fields b"
      "w_membership w \<subseteq> membership_fields b" "w_existence w \<and> path \<noteq> [] \<longrightarrow> on_existence b"
      using w [OF \<open>dict_get ws (m, path) = Some w\<close>] by blast
    have "b \<in> set (bindings_for reg m)"
      using b(1,2) bs(1) by (auto simp: bindings_for_def bss(2) index_bindings_iff)
    with b fb(1) show ?thesis by (intro bexI [of _ b]) (auto simp: own_binding_def)
  qed
  with ws show ?thesis by blast
qed

lemma registry_own:
  assumes "build_registry a k = Some (Inr reg)" "b \<in> set (bindings_for reg m)"
  shows "watched_model b = m \<and> own_binding a (bind_field b) b \<and> bind_field b \<in> set (all_stored a)"
proof -
  obtain bss where bss: "result_map (field_bindings a k) (all_stored a) = Inr bss"
    "reg_bindings reg = index_bindings (concat bss)"
    using assms(1) by (rule build_registryE)
  from assms(2) obtain bs where bs: "bs \<in> set bss" "b \<in> set bs" "watched_model b = m"
    by (auto simp: bindings_for_def bss(2) index_bindings_iff)
  from result_map_mem(2) [OF bss(1) bs(1)] obtain f where f: "f \<in> set (all_stored a)" "field_bindings a k f = Inr bs"
    by blast
  from field_bindings_spec(1) [OF f(2)] bs(2) have "own_binding a f b" by blast
  with f(1) bs(3) show ?thesis by (auto simp: own_binding_def)
qed

lemma registry_orders:
  assumes "build_registry a k = Some (Inr reg)" "b \<in> set (bindings_for reg m)"
    and "g \<in> set (computed_fields a m)" "cf_name g \<in> trigger_fields b"
  shows "depth_of reg (field_id g) < depth_of reg (field_id (bind_field b))"
proof -
  have d: "compute_depths a (reg_bindings reg) = Some (Inr (reg_depth reg))"
    using assms(1) by (rule build_registryE)
  from compute_depths_orders [OF d, of b m g] assms(2-4) show ?thesis
    by (auto simp: bindings_for_def depth_of_def)
qed

end
