(* ===== verification/Level_Queue.thy ===== *)
theory Level_Queue
  imports Totem_Prelude
begin

text \<open>
  The contract of a work queue drained by increasing level: a step takes everything pending on
  the lowest level and may only queue deeper work, and levels are bounded. Whoever meets it is
  drained after finitely many steps, and keeps whatever each step keeps.
\<close>

locale level_queue =
  fixes levels :: "'s \<Rightarrow> nat set"
    and step :: "'s \<Rightarrow> 's"
    and admissible :: "'s \<Rightarrow> bool"
    and bound :: nat
  assumes step_admissible: "admissible s \<Longrightarrow> levels s \<noteq> {} \<Longrightarrow> admissible (step s)"
    and step_deeper: "admissible s \<Longrightarrow> levels s \<noteq> {} \<Longrightarrow> l \<in> levels (step s) \<Longrightarrow> Min (levels s) < l"
    and levels_bounded: "admissible s \<Longrightarrow> l \<in> levels s \<Longrightarrow> l \<le> bound"
begin

lemma levels_finite: "admissible s \<Longrightarrow> finite (levels s)"
  by (rule finite_subset [of _ "{..bound}"]) (auto dest: levels_bounded)

lemma drains_from:
  "admissible s \<Longrightarrow> \<forall>l \<in> levels s. d \<le> l \<Longrightarrow>
   \<exists>n \<le> Suc bound - d. levels ((step ^^ n) s) = {} \<and> admissible ((step ^^ n) s)
      \<and> (\<forall>i < n. levels ((step ^^ i) s) \<noteq> {} \<and> admissible ((step ^^ i) s))"
proof (induction "Suc bound - d" arbitrary: d s)
  case 0
  have "levels s = {}" using 0 levels_bounded by fastforce
  with 0 show ?case by (intro exI [of _ 0]) simp
next
  case (Suc k)
  show ?case
  proof (cases "levels s = {}")
    case True
    with Suc.prems show ?thesis by (intro exI [of _ 0]) simp
  next
    case False
    let ?m = "Min (levels s)"
    have m: "?m \<in> levels s" using False levels_finite [OF Suc.prems(1)] by (rule Min_in [rotated])
    then have "d \<le> ?m" "?m \<le> bound" using Suc.prems levels_bounded by auto
    have "\<forall>l \<in> levels (step s). Suc d \<le> l"
      using step_deeper [OF Suc.prems(1) False] \<open>d \<le> ?m\<close> by fastforce
    moreover have "k = Suc bound - Suc d" using Suc.hyps(2) by arith
    ultimately obtain n where n: "n \<le> Suc bound - Suc d" "levels ((step ^^ n) (step s)) = {}"
      "admissible ((step ^^ n) (step s))"
      "\<forall>i < n. levels ((step ^^ i) (step s)) \<noteq> {} \<and> admissible ((step ^^ i) (step s))"
      using Suc.hyps(1) [OF _ step_admissible [OF Suc.prems(1) False]] by blast
    have sw: "(step ^^ Suc i) s = (step ^^ i) (step s)" for i by (simp add: funpow_swap1)
    have "\<forall>i < Suc n. levels ((step ^^ i) s) \<noteq> {} \<and> admissible ((step ^^ i) s)"
    proof (intro allI impI)
      fix i assume "i < Suc n"
      then show "levels ((step ^^ i) s) \<noteq> {} \<and> admissible ((step ^^ i) s)"
        using False Suc.prems(1) n(4) sw by (cases i) auto
    qed
    with n sw \<open>?m \<le> bound\<close> \<open>d \<le> ?m\<close> show ?thesis by (intro exI [of _ "Suc n"]) auto
  qed
qed

lemma drains:
  assumes "admissible s"
  obtains n where "n \<le> Suc bound" "levels ((step ^^ n) s) = {}" "admissible ((step ^^ n) s)"
    "\<forall>i < n. levels ((step ^^ i) s) \<noteq> {} \<and> admissible ((step ^^ i) s)"
  using drains_from [OF assms, of 0] that by auto

lemma kept_until_drained:
  assumes "\<And>s. admissible s \<Longrightarrow> levels s \<noteq> {} \<Longrightarrow> I s \<Longrightarrow> I (step s)"
    and "\<forall>i < n. levels ((step ^^ i) s) \<noteq> {} \<and> admissible ((step ^^ i) s)" and "I s"
  shows "I ((step ^^ n) s)"
  using assms(2) by (induction n) (auto intro: assms(1,3))

end

end
