(* ===== verification/Refresh_Correct.thy ===== *)
theory Refresh_Correct
  imports Refresh_Context Dependency_Laws Level_Queue
begin

text \<open>
  Why a unit of work leaves every stored computed field equal to what it computes: if a field
  reads nothing but what its \<open>depends_on\<close> declares, every write that can change its value is
  caught by a binding, and the flush, which only ever goes deeper, ends with nothing stale.
\<close>

subsection \<open>Reading through a dependency\<close>

text \<open>What \<open>Model._meta\<close> guarantees: lookups by name and by query name agree, a reverse
  relation is the other side of a forward one, and a stored computed field is a plain column of
  its own model.\<close>

definition wf_apps :: "apps \<Rightarrow> bool" where
  "wf_apps a \<longleftrightarrow>
     (\<forall>m n c t m2m. get_field a m n = Some (Forward c t m2m) \<longrightarrow>
        get_field a m (col_name c) = Some (Forward c t m2m))
   \<and> (\<forall>m n l c t m2m. get_field a m n = Some (Reverse l c t m2m) \<longrightarrow>
        get_field a m l = Some (Reverse l c t m2m))
   \<and> (\<forall>m n l c t m2m. get_field a m n = Some (Reverse l c (Some t) m2m) \<longrightarrow>
        get_field a t (col_name c) = Some (Forward c (Some m) m2m))
   \<and> (\<forall>m. distinct (map cf_name (computed_fields a m)))
   \<and> (\<forall>m. \<forall>f \<in> set (computed_fields a m). cf_model f = m \<and> m \<in> set (app_models a))"

text \<open>A generated column is what PostgreSQL computes from the columns it references.\<close>

definition read_value ::
    "(model \<Rightarrow> string \<Rightarrow> (string \<Rightarrow> 'v option) \<Rightarrow> 'v) \<Rightarrow> 'v database \<Rightarrow> model \<Rightarrow> column \<Rightarrow> pk \<Rightarrow> 'v" where
  "read_value gen db m c x =
     (case col_generated c of
        None \<Rightarrow> db_value db m (col_name c) x
      | Some e \<Rightarrow> gen m (col_name c)
          (\<lambda>k. if k \<in> referenced_names e then Some (db_value db m k x) else None))"

text \<open>Two databases look the same along a dependency, from one row.\<close>

fun same_view ::
    "apps \<Rightarrow> (model \<Rightarrow> string \<Rightarrow> (string \<Rightarrow> 'v option) \<Rightarrow> 'v) \<Rightarrow> 'v database \<Rightarrow> 'v database
     \<Rightarrow> model \<Rightarrow> string list \<Rightarrow> pk \<Rightarrow> bool" where
  "same_view a gen db db' m [] x = True"
| "same_view a gen db db' m (n # ns) x =
     (case get_field a m n of
        Some (Plain c) \<Rightarrow> read_value gen db m c x = read_value gen db' m c x
      | Some (Forward c (Some t) m2m) \<Rightarrow>
          db_step a db m n x = db_step a db' m n x \<and> (\<forall>y \<in> db_step a db m n x. same_view a gen db db' t ns y)
      | Some (Reverse l c (Some t) m2m) \<Rightarrow>
          db_step a db m n x = db_step a db' m n x \<and> (\<forall>y \<in> db_step a db m n x. same_view a gen db db' t ns y)
      | _ \<Rightarrow> True)"

definition reads_declared ::
    "apps \<Rightarrow> (model \<Rightarrow> string \<Rightarrow> (string \<Rightarrow> 'v option) \<Rightarrow> 'v) \<Rightarrow> (computed_field \<Rightarrow> 'v database \<Rightarrow> pk \<Rightarrow> 'v) \<Rightarrow> bool" where
  "reads_declared a gen compute \<longleftrightarrow>
     (\<forall>f \<in> set (all_stored a). \<forall>db db' x.
        x \<in> db_rows db (cf_model f) \<longrightarrow> x \<in> db_rows db' (cf_model f) \<longrightarrow>
        (\<forall>dep \<in> set (cf_depends_on f). same_view a gen db db' (cf_model f) (split_lookup dep) x) \<longrightarrow>
        compute f db x = compute f db' x)"

subsection \<open>What a write can change\<close>

text \<open>Rows \<open>P\<close> of \<open>W\<close> had the fields \<open>U\<close> written: by name, or a key by its column name.\<close>

definition writes :: "apps \<Rightarrow> 'v database \<Rightarrow> 'v database \<Rightarrow> model \<Rightarrow> pk set \<Rightarrow> string set \<Rightarrow> bool" where
  "writes a db db' W P U \<longleftrightarrow>
     db_rows db' = db_rows db
   \<and> (\<forall>m n x. db_value db' m n x \<noteq> db_value db m n x \<longrightarrow> m = W \<and> x \<in> P \<and> n \<in> U)
   \<and> (\<forall>m n x. db_links db' m n x \<noteq> db_links db m n x \<longrightarrow> m = W \<and> x \<in> P
        \<and> (\<forall>c t m2m. get_field a W n = Some (Forward c t m2m) \<longrightarrow> field_names c \<inter> U \<noteq> {}))"

definition adds :: "'v database \<Rightarrow> 'v database \<Rightarrow> model \<Rightarrow> pk set \<Rightarrow> bool" where
  "adds db db' W P \<longleftrightarrow>
     P \<inter> db_rows db W = {} \<and> db_rows db' = (db_rows db)(W := db_rows db W \<union> P)
   \<and> (\<forall>m n x. db_value db' m n x \<noteq> db_value db m n x \<longrightarrow> m = W \<and> x \<in> P)
   \<and> (\<forall>m n x. db_links db' m n x \<noteq> db_links db m n x \<longrightarrow> m = W \<and> x \<in> P)"

lemma step_by_lookup:
  assumes "wf_apps a"
  shows "get_field a m n = Some (Forward c (Some t) m2m) \<Longrightarrow>
      hop_target a m (col_name c) = Some t \<and> db_step a db m (col_name c) x = db_step a db m n x"
    and "get_field a m n = Some (Reverse l c (Some t) m2m) \<Longrightarrow>
      hop_target a m l = Some t \<and> db_step a db m l x = db_step a db m n x"
  using assms by (auto simp: wf_apps_def hop_target_def db_step_def)

lemma reach_hop:
  "hop_target a m l = Some t \<Longrightarrow> y \<in> db_step a db m l x \<Longrightarrow> p \<in> reach a db t path y \<Longrightarrow>
   p \<in> reach a db m (l # path) x"
  by auto

lemma read_value_changed:
  assumes "read_value gen db m c x \<noteq> read_value gen db' m c x"
  shows "\<exists>k \<in> field_names c. db_value db' m k x \<noteq> db_value db m k x"
proof (rule ccontr)
  assume "\<not> ?thesis"
  then have same: "db_value db' m k x = db_value db m k x" if "k \<in> field_names c" for k
    using that by blast
  have "(\<lambda>k. if k \<in> referenced_names e then Some (db_value db m k x) else None)
      = (\<lambda>k. if k \<in> referenced_names e then Some (db_value db' m k x) else None)"
    if "col_generated c = Some e" for e
    using that by (intro ext) (simp add: same field_names_def)
  then have "read_value gen db m c x = read_value gen db' m c x"
    by (cases "col_generated c") (auto simp: read_value_def same)
  with assms show False by simp
qed

text \<open>The first difference along a dependency is on a row the written fields or the path lead to.\<close>

lemma written_view:
  assumes wf: "wf_apps a" and wr: "writes a db db' W P U"
  shows "parse_parts a k m path hops ws parts = Inr ws' \<Longrightarrow> \<not> same_view a gen db db' m parts x \<Longrightarrow>
    \<exists>path2 w. dict_get ws' (W, path @ path2) = Some w \<and> w_triggers w \<inter> U \<noteq> {}
      \<and> (reach a db' m path2 x \<inter> P \<noteq> {}
         \<or> w_membership w \<inter> U \<noteq> {} \<and> reach a db m path2 x \<inter> P \<noteq> {})"
proof (induction parts arbitrary: m path hops ws x)
  case (Cons n rest)
  have deeper: ?case
    if t: "hop_target a m l = Some t" and step: "db_step a db m l x = db_step a db m n x"
        "db_step a db' m l x = db_step a db m n x"
      and parse: "parse_parts a k t (path @ [l]) (hops + 1) ws1 rest = Inr ws'"
      and y: "y \<in> db_step a db m n x" "\<not> same_view a gen db db' t rest y" for l t ws1 y
  proof -
    obtain path2 w where w: "dict_get ws' (W, (path @ [l]) @ path2) = Some w" "w_triggers w \<inter> U \<noteq> {}"
      "reach a db' t path2 y \<inter> P \<noteq> {} \<or> w_membership w \<inter> U \<noteq> {} \<and> reach a db t path2 y \<inter> P \<noteq> {}"
      using Cons.IH [OF parse y(2)] by blast
    have "reach a d t path2 y \<subseteq> reach a d m (l # path2) x" if "d = db \<or> d = db'" for d
      using reach_hop [OF t, of y d] y(1) step that by auto
    with w show ?thesis by (intro exI [of _ "l # path2"] exI [of _ w]) auto
  qed
  from Cons.prems(1) show ?case
  proof (cases rule: parse_parts_ConsE)
    case (plain c)
    then obtain v where v: "v \<in> field_names c" "db_value db' m v x \<noteq> db_value db m v x"
      using Cons.prems(2) read_value_changed [of gen db m c x db'] by auto
    with wr have "m = W" "x \<in> P" "v \<in> U" unfolding writes_def by blast+
    with v plain(3) show ?thesis
      by (intro exI [of _ "[]"]) (auto simp: watch_update_get add_triggers_def)
  next
    case (forward c t m2m)
    show ?thesis
    proof (cases "db_step a db m n x = db_step a db' m n x")
      case True
      with Cons.prems(2) forward(1) obtain y where "y \<in> db_step a db m n x" "\<not> same_view a gen db db' t rest y"
        by auto
      with step_by_lookup(1) [OF wf forward(1)] True show ?thesis
        by (intro deeper [OF _ _ _ forward(3)]) auto
    next
      case False
      then have "db_links db' m (col_name c) x \<noteq> db_links db m (col_name c) x"
        using wr forward(1) by (auto simp: db_step_def writes_def)
      moreover have "get_field a m (col_name c) = Some (Forward c (Some t) m2m)"
        using wf forward(1) by (simp add: wf_apps_def)
      ultimately have hit: "m = W" "x \<in> P" "field_names c \<inter> U \<noteq> {}" using wr unfolding writes_def by blast+
      obtain w where w: "dict_get (forward_watches m path c t ws) (m, path) = Some w" "field_names c \<subseteq> w_triggers w"
        using forward_watches_get(1) by blast
      obtain w' where "dict_get ws' (m, path) = Some w'" "watch_le w w'"
        using watches_leD [OF parse_parts_le [OF forward(3)] w(1)] by blast
      with hit w(2) show ?thesis by (intro exI [of _ "[]"]) (auto simp: watch_le_def)
    qed
  next
    case (reverse l c t m2m)
    show ?thesis
    proof (cases "db_step a db m n x = db_step a db' m n x")
      case True
      with Cons.prems(2) reverse(1) obtain y where "y \<in> db_step a db m n x" "\<not> same_view a gen db db' t rest y"
        by auto
      with step_by_lookup(2) [OF wf reverse(1)] True show ?thesis
        by (intro deeper [OF _ _ _ reverse(3)]) auto
    next
      case False
      then obtain y where y: "(y \<in> db_step a db m n x) \<noteq> (y \<in> db_step a db' m n x)" by blast
      then have "db_links db' t (col_name c) y \<noteq> db_links db t (col_name c) y"
        using wr reverse(1) by (auto simp: db_step_def writes_def)
      moreover have "get_field a t (col_name c) = Some (Forward c (Some m) m2m)"
        using wf reverse(1) by (auto simp: wf_apps_def)
      ultimately have hit: "t = W" "y \<in> P" "field_names c \<inter> U \<noteq> {}" using wr unfolding writes_def by blast+
      obtain w where w: "dict_get (reverse_watches path l c t m2m ws) (t, path @ [l]) = Some w"
        "field_names c \<subseteq> w_triggers w" "field_names c \<subseteq> w_membership w"
        using reverse_watches_get by blast
      obtain w' where w': "dict_get ws' (t, path @ [l]) = Some w'" "watch_le w w'"
        using watches_leD [OF parse_parts_le [OF reverse(3)] w(1)] by blast
      have lk: "hop_target a m l = Some t" "db_step a db m l x = db_step a db m n x"
        "db_step a db' m l x = db_step a db' m n x"
        using step_by_lookup(2) [OF wf reverse(1)] by blast+
      have "y \<in> reach a db m [l] x \<or> y \<in> reach a db' m [l] x"
        using y by (auto simp: lk)
      with w w' hit show ?thesis
        by (intro exI [of _ "[l]"] exI [of _ w']) (auto simp: watch_le_def)
    qed
  qed
qed simp

text \<open>A new row can only be seen by an old one through a relation it arrives in.\<close>

lemma added_view:
  assumes wf: "wf_apps a" and ad: "adds db db' W P"
  shows "parse_parts a k m path hops ws parts = Inr ws' \<Longrightarrow> \<not> same_view a gen db db' m parts x \<Longrightarrow>
    \<not> (m = W \<and> x \<in> P) \<Longrightarrow>
    \<exists>path2 w. path2 \<noteq> [] \<and> dict_get ws' (W, path @ path2) = Some w \<and> w_existence w
      \<and> reach a db' m path2 x \<inter> P \<noteq> {}"
proof (induction parts arbitrary: m path hops ws x)
  case (Cons n rest)
  have deeper: ?case
    if t: "hop_target a m l = Some t" and step: "db_step a db' m l x = db_step a db m n x"
        "db_step a db m n x \<subseteq> db_rows db t"
      and parse: "parse_parts a k t (path @ [l]) (hops + 1) ws1 rest = Inr ws'"
      and y: "y \<in> db_step a db m n x" "\<not> same_view a gen db db' t rest y" for l t ws1 y
  proof -
    have "\<not> (t = W \<and> y \<in> P)" using y(1) step(2) ad by (auto simp: adds_def)
    from Cons.IH [OF parse y(2) this]
    obtain path2 w where "dict_get ws' (W, (path @ [l]) @ path2) = Some w" "w_existence w"
      "reach a db' t path2 y \<inter> P \<noteq> {}" by blast
    moreover have "reach a db' t path2 y \<subseteq> reach a db' m (l # path2) x"
      using reach_hop [OF t, of y db'] y(1) step by auto
    ultimately show ?thesis by (intro exI [of _ "l # path2"] exI [of _ w]) auto
  qed
  have found: ?case
    if t: "hop_target a m l = Some W" and p: "p \<in> P" "p \<in> db_step a db' m l x"
      and w: "dict_get ws1 (W, path @ [l]) = Some w" "w_existence w"
      and parse: "parse_parts a k W (path @ [l]) (hops + 1) ws1 rest = Inr ws'" for l p ws1 w
  proof -
    obtain w' where "dict_get ws' (W, path @ [l]) = Some w'" "watch_le w w'"
      using watches_leD [OF parse_parts_le [OF parse] w(1)] by blast
    with t p w(2) show ?thesis by (intro exI [of _ "[l]"] exI [of _ w']) (auto simp: watch_le_def)
  qed
  have same: "db_links db' m c x = db_links db m c x" for c
    using ad Cons.prems(3) unfolding adds_def by blast
  from Cons.prems(1) show ?case
  proof (cases rule: parse_parts_ConsE)
    case (plain c)
    then obtain v where "db_value db' m v x \<noteq> db_value db m v x"
      using Cons.prems(2) read_value_changed [of gen db m c x db'] by auto
    with ad Cons.prems(3) show ?thesis unfolding adds_def by blast
  next
    case (forward c t m2m)
    note lk = step_by_lookup(1) [OF wf forward(1)]
    show ?thesis
    proof (cases "db_step a db m n x = db_step a db' m n x")
      case True
      with Cons.prems(2) forward(1) obtain y where "y \<in> db_step a db m n x" "\<not> same_view a gen db db' t rest y"
        by auto
      with lk True forward(1) show ?thesis
        by (intro deeper [OF _ _ _ forward(3)]) (auto simp: db_step_def)
    next
      case False
      then obtain p where p: "p \<in> db_step a db' m n x" "p \<in> P" "t = W"
        using forward(1) same ad by (auto simp: db_step_def adds_def split: if_splits)
      obtain w where "dict_get (forward_watches m path c t ws) (t, path @ [col_name c]) = Some w" "w_existence w"
        using forward_watches_get(2) by blast
      with p lk forward(3) show ?thesis by (intro found [of "col_name c" p]) auto
    qed
  next
    case (reverse l c t m2m)
    note lk = step_by_lookup(2) [OF wf reverse(1)]
    show ?thesis
    proof (cases "db_step a db m n x = db_step a db' m n x")
      case True
      with Cons.prems(2) reverse(1) obtain y where "y \<in> db_step a db m n x" "\<not> same_view a gen db db' t rest y"
        by auto
      with lk True reverse(1) show ?thesis
        by (intro deeper [OF _ _ _ reverse(3)]) (auto simp: db_step_def)
    next
      case False
      have old: "db_links db' t c' y = db_links db t c' y" if "y \<in> db_rows db t" for c' y
        using ad that unfolding adds_def by blast
      from False obtain p where p: "p \<in> db_step a db' m n x" "p \<in> P" "t = W"
        using reverse(1) old ad by (auto simp: db_step_def adds_def split: if_splits)
      obtain w where "dict_get (reverse_watches path l c t m2m ws) (t, path @ [l]) = Some w" "w_existence w"
        using reverse_watches_get by blast
      with p lk reverse(3) show ?thesis by (intro found [of l p]) auto
    qed
  qed
qed simp

end
