(* ===== verification/Refresh_Flush.thy ===== *)
theory Refresh_Flush
  imports Refresh_Correct
begin

text \<open>
  What the context records and what the flush does with it: every stale value is pending on its
  row before a flush, and none is left after it.
\<close>

declare split_paired_All [simp del] split_paired_Ex [simp del]

subsection \<open>Pending work\<close>

definition pend :: "pending \<Rightarrow> computed_field \<Rightarrow> pk set" where
  "pend p f = (case dict_get p f of None \<Rightarrow> {} | Some s \<Rightarrow> s)"

lemma pend_update [simp]: "pend (pending_update f pks p) g = pend p g \<union> (if g = f then pks else {})"
  by (simp add: pend_def pending_update_def)

lemma pend_add [simp]:
  "pend (ctx_add b rs p) g = pend p g \<union> (if g = bind_field b then {pk. Some pk \<in> rs} else {})"
  by (auto simp: ctx_add_def Let_def)

definition queued :: "pending \<Rightarrow> computed_field set" where
  "queued p = set (dict_keys p)"

definition dict_like :: "pending \<Rightarrow> bool" where
  "dict_like p \<longleftrightarrow> distinct (dict_keys p)"

lemma queued_update [simp]: "queued (pending_update f pks p) = insert f (queued p)"
  unfolding queued_def pending_update_def by (rule dict_keys_put)

lemma queued_add: "queued (ctx_add b rs p) \<subseteq> insert (bind_field b) (queued p)"
  unfolding ctx_add_def Let_def using queued_update by auto

lemma dict_like_update [simp]: "dict_like p \<Longrightarrow> dict_like (pending_update f pks p)"
  unfolding dict_like_def pending_update_def by (rule distinct_dict_put)

lemma dict_like_add: "dict_like p \<Longrightarrow> dict_like (ctx_add b rs p)"
  by (simp add: ctx_add_def Let_def)

text \<open>The cache never loses a root that the query of a binding finds.\<close>

definition query_roots :: "apps \<Rightarrow> 'v database \<Rightarrow> binding \<Rightarrow> pk set \<Rightarrow> pk set" where
  "query_roots a db b pks = roots_query a db (root_model b) (bind_path b) pks"

lemma resolve_loop_spec:
  assumes "\<forall>b \<in> set bs. Some ` query_roots a db b pks \<subseteq> ctx_roots a db b pks insts"
    and "\<forall>m path r. dict_get cache (m, path) = Some r \<longrightarrow> Some ` roots_query a db m path pks \<subseteq> r"
  shows "pend p f \<subseteq> pend (resolve_loop a db bs pks insts cache p) f
     \<and> (\<forall>b \<in> set bs. query_roots a db b pks \<subseteq> pend (resolve_loop a db bs pks insts cache p) (bind_field b))
     \<and> queued (resolve_loop a db bs pks insts cache p) \<subseteq> queued p \<union> bind_field ` set bs
     \<and> (dict_like p \<longrightarrow> dict_like (resolve_loop a db bs pks insts cache p))"
  using assms
proof (induction bs arbitrary: cache p f)
  case (Cons b bs)
  let ?r = "case dict_get cache (root_model b, bind_path b) of None \<Rightarrow> ctx_roots a db b pks insts | Some r \<Rightarrow> r"
  let ?cache = "dict_put (root_model b, bind_path b) ?r cache"
  have r: "Some ` query_roots a db b pks \<subseteq> ?r"
    using Cons.prems(1) Cons.prems(2) [rule_format, of "root_model b" "bind_path b"]
    by (auto simp: query_roots_def split: option.splits)
  have cache: "\<forall>m path r. dict_get ?cache (m, path) = Some r \<longrightarrow> Some ` roots_query a db m path pks \<subseteq> r"
    using r Cons.prems(2) by (simp add: query_roots_def)
  have bs: "\<forall>b \<in> set bs. Some ` query_roots a db b pks \<subseteq> ctx_roots a db b pks insts"
    using Cons.prems(1) by simp
  have eq: "resolve_loop a db (b # bs) pks insts cache p = resolve_loop a db bs pks insts ?cache (ctx_add b ?r p)"
    by (simp add: Let_def)
  have IH: "pend (ctx_add b ?r p) f \<subseteq> pend (resolve_loop a db (b # bs) pks insts cache p) f"
    "\<forall>b' \<in> set bs. query_roots a db b' pks \<subseteq> pend (resolve_loop a db (b # bs) pks insts cache p) (bind_field b')"
    "queued (resolve_loop a db (b # bs) pks insts cache p) \<subseteq> queued (ctx_add b ?r p) \<union> bind_field ` set bs"
    "dict_like (ctx_add b ?r p) \<longrightarrow> dict_like (resolve_loop a db (b # bs) pks insts cache p)"
    for f
    using Cons.IH [OF bs cache, of "ctx_add b ?r p" f] unfolding eq by blast+
  have "query_roots a db b pks \<subseteq> pend (ctx_add b ?r p) (bind_field b)" using r by auto
  then have "query_roots a db b pks \<subseteq> pend (resolve_loop a db (b # bs) pks insts cache p) (bind_field b)"
    using IH(1) by blast
  moreover have "pend p f \<subseteq> pend (resolve_loop a db (b # bs) pks insts cache p) f"
    using IH(1) [of f] by simp
  moreover have "queued (resolve_loop a db (b # bs) pks insts cache p) \<subseteq> queued p \<union> bind_field ` set (b # bs)"
    using IH(3) queued_add [of b ?r p] by auto
  ultimately show ?case
    using IH(2,4) dict_like_add [of p b ?r] by (auto simp del: resolve_loop.simps)
qed simp

lemma ctx_roots_query: "Some ` query_roots a db b pks \<subseteq> ctx_roots a db b pks None"
  by (auto simp: query_roots_def ctx_roots_def is_local_def roots_query_def)

lemma ctx_resolve_spec:
  assumes "\<forall>b \<in> set bs. Some ` query_roots a db b pks \<subseteq> ctx_roots a db b pks insts"
  shows "pend p f \<subseteq> pend (ctx_resolve a db bs pks insts p) f"
    and "b \<in> set bs \<Longrightarrow> query_roots a db b pks \<subseteq> pend (ctx_resolve a db bs pks insts p) (bind_field b)"
    and "queued (ctx_resolve a db bs pks insts p) \<subseteq> queued p \<union> bind_field ` set bs"
    and "dict_like p \<Longrightarrow> dict_like (ctx_resolve a db bs pks insts p)"
  using resolve_loop_spec [of bs a db pks insts "[]" p f, OF assms] unfolding ctx_resolve_def by auto

lemma resolve_query_spec:
  "pend p f \<subseteq> pend (ctx_resolve a db bs pks None p) f"
  "b \<in> set bs \<Longrightarrow> query_roots a db b pks \<subseteq> pend (ctx_resolve a db bs pks None p) (bind_field b)"
  "queued (ctx_resolve a db bs pks None p) \<subseteq> queued p \<union> bind_field ` set bs"
  "dict_like p \<Longrightarrow> dict_like (ctx_resolve a db bs pks None p)"
proof -
  have h: "\<forall>b \<in> set bs. Some ` query_roots a db b pks \<subseteq> ctx_roots a db b pks None"
    by (simp add: ctx_roots_query)
  show "pend p f \<subseteq> pend (ctx_resolve a db bs pks None p) f" by (rule ctx_resolve_spec(1) [OF h])
  show "b \<in> set bs \<Longrightarrow> query_roots a db b pks \<subseteq> pend (ctx_resolve a db bs pks None p) (bind_field b)"
    by (rule ctx_resolve_spec(2) [OF h])
  show "queued (ctx_resolve a db bs pks None p) \<subseteq> queued p \<union> bind_field ` set bs"
    by (rule ctx_resolve_spec(3) [OF h])
  show "dict_like p \<Longrightarrow> dict_like (ctx_resolve a db bs pks None p)"
    by (rule ctx_resolve_spec(4) [OF h])
qed

lemma ctx_modified_keeps: "pend p f \<subseteq> pend (ctx_modified a reg db m pks U before p) f"
  by (simp add: ctx_modified_def resolve_query_spec(1))

lemma ctx_modified_finds:
  "pks \<noteq> {} \<Longrightarrow> U \<noteq> {} \<Longrightarrow> b \<in> set (bindings_for reg m) \<Longrightarrow> trigger_fields b \<inter> U \<noteq> {} \<Longrightarrow>
     \<not> before \<or> membership_fields b \<inter> U \<noteq> {} \<Longrightarrow>
     query_roots a db b pks \<subseteq> pend (ctx_modified a reg db m pks U before p) (bind_field b)"
  by (simp add: ctx_modified_def resolve_query_spec(2))

lemma ctx_modified_queued:
  "queued (ctx_modified a reg db m pks U before p) \<subseteq> queued p
     \<union> bind_field ` {b \<in> set (bindings_for reg m). trigger_fields b \<inter> U \<noteq> {}}"
proof (cases "pks = {} \<or> U = {}")
  case False
  let ?bs = "filter (\<lambda>b. trigger_fields b \<inter> U \<noteq> {} \<and> (\<not> before \<or> membership_fields b \<inter> U \<noteq> {})) (bindings_for reg m)"
  have "ctx_modified a reg db m pks U before p = ctx_resolve a db ?bs pks None p"
    using False by (simp add: ctx_modified_def)
  moreover have "bind_field ` set ?bs \<subseteq> bind_field ` {b \<in> set (bindings_for reg m). trigger_fields b \<inter> U \<noteq> {}}"
    by (rule image_mono) auto
  ultimately show ?thesis using resolve_query_spec(3) [of a db ?bs pks p] by (simp only:) blast
qed (simp add: ctx_modified_def)

lemma ctx_modified_dict: "dict_like p \<Longrightarrow> dict_like (ctx_modified a reg db m pks U before p)"
  by (simp add: ctx_modified_def resolve_query_spec(4))

subsection \<open>Staleness\<close>

definition stale :: "apps \<Rightarrow> (computed_field \<Rightarrow> 'v database \<Rightarrow> pk \<Rightarrow> 'v) \<Rightarrow> 'v database \<Rightarrow> computed_field \<Rightarrow> pk \<Rightarrow> bool" where
  "stale a compute db f x \<longleftrightarrow> f \<in> set (all_stored a) \<and> x \<in> db_rows db (cf_model f)
     \<and> db_value db (cf_model f) (cf_name f) x \<noteq> compute f db x"

definition tracked :: "apps \<Rightarrow> (computed_field \<Rightarrow> 'v database \<Rightarrow> pk \<Rightarrow> 'v) \<Rightarrow> pending \<Rightarrow> 'v database \<Rightarrow> bool" where
  "tracked a compute p db \<longleftrightarrow> (\<forall>f x. stale a compute db f x \<longrightarrow> x \<in> pend p f)"

lemma all_stored_iff: "wf_apps a \<Longrightarrow> f \<in> set (all_stored a) \<longleftrightarrow> f \<in> set (computed_fields a (cf_model f))"
proof -
  assume wf: "wf_apps a"
  have "f \<in> set (computed_fields a m) \<longrightarrow> cf_model f = m \<and> m \<in> set (app_models a)" for m
    using wf unfolding wf_apps_def by blast
  then show ?thesis unfolding all_stored_def by (auto simp del: split_paired_All)
qed

text \<open>A value whose field reads only what it declares changes only where a binding watches.\<close>

lemma compute_changed:
  assumes reg: "build_registry a k = Some (Inr reg)" and wf: "wf_apps a" and rd: "reads_declared a gen compute"
    and wr: "writes a db db' W P U" and f: "f \<in> set (all_stored a)" and x: "x \<in> db_rows db (cf_model f)"
    and ch: "compute f db x \<noteq> compute f db' x"
  shows "\<exists>b \<in> set (bindings_for reg W). bind_field b = f \<and> trigger_fields b \<inter> U \<noteq> {} \<and> P \<noteq> {} \<and> U \<noteq> {}
      \<and> (x \<in> query_roots a db' b P \<or> membership_fields b \<inter> U \<noteq> {} \<and> x \<in> query_roots a db b P)"
proof -
  have rows: "db_rows db' = db_rows db" using wr by (simp add: writes_def)
  from rd f x ch rows obtain dep where dep: "dep \<in> set (cf_depends_on f)"
    "\<not> same_view a gen db db' (cf_model f) (split_lookup dep) x"
    unfolding reads_declared_def by metis
  obtain ws where ws: "parse_parts a k (cf_model f) [] 0 [] (split_lookup dep) = Inr ws"
    and b: "\<And>m path w. dict_get ws (m, path) = Some w \<Longrightarrow>
      \<exists>b \<in> set (bindings_for reg m). bind_field b = f \<and> root_model b = cf_model f \<and> bind_path b = path
        \<and> w_triggers w \<subseteq> trigger_fields b \<and> w_membership w \<subseteq> membership_fields b"
    using registry_watches [OF reg f dep(1)] by blast
  obtain path w where w: "dict_get ws (W, [] @ path) = Some w" "w_triggers w \<inter> U \<noteq> {}"
    "reach a db' (cf_model f) path x \<inter> P \<noteq> {}
     \<or> w_membership w \<inter> U \<noteq> {} \<and> reach a db (cf_model f) path x \<inter> P \<noteq> {}"
    using written_view [OF wf wr ws dep(2)] by blast
  obtain b' where b': "b' \<in> set (bindings_for reg W)" "bind_field b' = f" "root_model b' = cf_model f"
    "bind_path b' = path" "w_triggers w \<subseteq> trigger_fields b'" "w_membership w \<subseteq> membership_fields b'"
    using b [OF w(1)] by auto
  show ?thesis
    by (rule bexI [OF _ b'(1)]) (use w b' x rows in \<open>auto simp: query_roots_def roots_query_def\<close>)
qed

text \<open>A write declared as the services declare it keeps every stale value pending.\<close>

lemma modified_keeps_tracked:
  assumes reg: "build_registry a k = Some (Inr reg)" and wf: "wf_apps a" and rd: "reads_declared a gen compute"
    and tr: "tracked a compute p db" and wr: "writes a db db' W P U"
    and U: "U \<inter> cf_name ` set (computed_fields a W) = {}"
    and p1: "p1 = (if has_relation_to_modify reg W U then ctx_modified a reg db W P U True p else p)"
  shows "tracked a compute (ctx_modified a reg db' W P U False p1) db'"
  unfolding tracked_def
proof (intro allI impI)
  fix f x assume st: "stale a compute db' f x"
  let ?p2 = "ctx_modified a reg db' W P U False p1"
  have f: "f \<in> set (all_stored a)" "f \<in> set (computed_fields a (cf_model f))" "x \<in> db_rows db (cf_model f)"
    using st wr all_stored_iff [OF wf] by (auto simp: stale_def writes_def)
  have kept: "pend p f \<subseteq> pend p1 f" "pend p1 f \<subseteq> pend ?p2 f"
    unfolding p1 using ctx_modified_keeps by (metis order_refl)+
  have col: "db_value db' (cf_model f) (cf_name f) x = db_value db (cf_model f) (cf_name f) x"
    using wr U f(2) unfolding writes_def by blast
  show "x \<in> pend ?p2 f"
  proof (cases "compute f db x = compute f db' x")
    case True
    with st col f have "stale a compute db f x" by (auto simp: stale_def)
    with tr kept show ?thesis by (auto simp: tracked_def)
  next
    case False
    from compute_changed [OF reg wf rd wr f(1,3) False]
    obtain b where b: "b \<in> set (bindings_for reg W)" "bind_field b = f" "trigger_fields b \<inter> U \<noteq> {}"
      "P \<noteq> {}" "U \<noteq> {}"
      "x \<in> query_roots a db' b P \<or> membership_fields b \<inter> U \<noteq> {} \<and> x \<in> query_roots a db b P" by blast
    from b(6) show ?thesis
    proof
      assume "x \<in> query_roots a db' b P"
      with ctx_modified_finds [OF b(4,5,1,3), of False a db' p1] b(2) show ?thesis by auto
    next
      assume m: "membership_fields b \<inter> U \<noteq> {} \<and> x \<in> query_roots a db b P"
      with b(1) have "has_relation_to_modify reg W U" by (auto simp: has_relation_to_modify_def)
      with ctx_modified_finds [OF b(4,5,1,3), of True a db p] m b(2) have "x \<in> pend p1 f" by (auto simp: p1)
      with kept(2) show ?thesis by blast
    qed
  qed
qed

text \<open>An insertion declared after the relations of the new rows are written.\<close>

definition insts_match :: "apps \<Rightarrow> 'v database \<Rightarrow> model \<Rightarrow> instance_row list \<Rightarrow> bool" where
  "insts_match a db m insts \<longleftrightarrow>
     (\<forall>i \<in> set insts. \<forall>pk n c t s. inst_pk i = Some pk \<longrightarrow> get_field a m n = Some (Forward c t False) \<longrightarrow>
        col_attname c = Some s \<longrightarrow> db_links db m (col_name c) pk \<subseteq> {x. inst_attr i s = Some x})"

definition inst_pks :: "instance_row list \<Rightarrow> pk set" where
  "inst_pks insts = {pk. Some pk \<in> inst_pk ` set insts}"

lemma shortcut_roots:
  assumes reg: "build_registry a k = Some (Inr reg)" and wf: "wf_apps a"
    and b: "b \<in> set (bindings_for reg m)" and insts: "insts_match a db m insts"
  shows "Some ` query_roots a db b (inst_pks insts) \<subseteq> ctx_roots a db b (inst_pks insts) (Some insts)"
proof (cases "is_local b \<or> fk_attname b = None \<or> fk_attname b = Some []")
  case True
  then show ?thesis
    using ctx_roots_query [of a db b "inst_pks insts"]
    by (auto simp: ctx_roots_def split: option.splits list.splits)
next
  case False
  then obtain h hs where s: "fk_attname b = Some (h # hs)" "\<not> is_local b" by (cases "fk_attname b") (auto simp: neq_Nil_conv)
  from registry_own [OF reg b] s(1) obtain n lookup c where fk: "bind_path b = [lookup]"
    "get_field a (root_model b) n = Some (Reverse lookup c (Some m) False)" "col_attname c = Some (h # hs)"
    unfolding own_binding_def fk_direct_def by metis
  have fwd: "get_field a m (col_name c) = Some (Forward c (Some (root_model b)) False)"
    using wf fk(2) by (auto simp: wf_apps_def)
  have "Some x \<in> (\<lambda>i. inst_attr i (h # hs)) ` set insts" if "x \<in> query_roots a db b (inst_pks insts)" for x
  proof -
    have "hop_target a (root_model b) lookup = Some m"
      "db_step a db (root_model b) lookup x = {y \<in> db_rows db m. x \<in> db_links db m (col_name c) y}"
      using step_by_lookup(2) [OF wf fk(2)] fk(2) by (auto simp: db_step_def)
    with that fk(1) obtain y where y: "y \<in> inst_pks insts" "x \<in> db_links db m (col_name c) y"
      by (auto simp: query_roots_def roots_query_def)
    then obtain i where i: "i \<in> set insts" "inst_pk i = Some y" by (force simp: inst_pks_def)
    with insts fwd fk(3) y(2) have "inst_attr i (h # hs) = Some x" unfolding insts_match_def by blast
    with i(1) show ?thesis by (force simp: image_iff)
  qed
  with s show ?thesis by (auto simp: ctx_roots_def)
qed

lemma pend_fold_update:
  "pend (fold (\<lambda>f q. pending_update f pks q) fs p) g = pend p g \<union> (if g \<in> set fs then pks else {})"
  by (induction fs arbitrary: p) auto

lemma created_keeps_tracked:
  assumes reg: "build_registry a k = Some (Inr reg)" and wf: "wf_apps a" and rd: "reads_declared a gen compute"
    and tr: "tracked a compute p db" and ad: "adds db db' W (inst_pks insts)"
    and im: "insts_match a db' W insts"
  shows "tracked a compute (ctx_created a reg db' W insts p) db'"
  unfolding tracked_def
proof (intro allI impI)
  fix f x assume st: "stale a compute db' f x"
  let ?P = "inst_pks insts" and ?p' = "ctx_created a reg db' W insts p"
  let ?insts = "filter (\<lambda>i. inst_pk i \<noteq> None) insts"
  let ?bs = "filter (\<lambda>b. on_existence b \<and> \<not> is_local b) (bindings_for reg W)"
  have "inst_pk ` set ?insts = inst_pk ` set insts - {None}" by auto
  then have P: "inst_pks ?insts = ?P" by (simp add: inst_pks_def)
  have f: "f \<in> set (all_stored a)" "f \<in> set (computed_fields a (cf_model f))" "x \<in> db_rows db' (cf_model f)"
    using st all_stored_iff [OF wf] by (auto simp: stale_def)
  have im': "insts_match a db' W ?insts" using im by (auto simp: insts_match_def)
  have roots: "\<forall>b \<in> set ?bs. Some ` query_roots a db' b ?P \<subseteq> ctx_roots a db' b ?P (Some ?insts)"
    using shortcut_roots [OF reg wf _ im'] unfolding P by auto
  have eq: "?p' = (if ?insts = [] then p
      else ctx_resolve a db' ?bs ?P (Some ?insts) (fold (\<lambda>f q. pending_update f ?P q) (computed_fields a W) p))"
    by (simp only: ctx_created_def existence_changed_def Let_def P flip: inst_pks_def)
  have keep: "pend p f \<subseteq> pend ?p' f"
    and new: "?P \<noteq> {} \<Longrightarrow> f \<in> set (computed_fields a W) \<Longrightarrow> ?P \<subseteq> pend ?p' f"
    and found: "?P \<noteq> {} \<Longrightarrow> b \<in> set ?bs \<Longrightarrow> query_roots a db' b ?P \<subseteq> pend ?p' (bind_field b)" for b
  proof -
    have "inst_pks [] = {}" by (simp add: inst_pks_def)
    with P have ne: "?insts \<noteq> []" if "?P \<noteq> {}" using that by metis
    let ?q = "fold (\<lambda>f q. pending_update f ?P q) (computed_fields a W) p"
    let ?r = "ctx_resolve a db' ?bs ?P (Some ?insts) ?q"
    have q: "pend p f \<union> (if f \<in> set (computed_fields a W) then ?P else {}) \<subseteq> pend ?r f"
      using ctx_resolve_spec(1) [OF roots, of ?q f] unfolding pend_fold_update .
    have full: "?p' = ?r" if "?insts \<noteq> []" unfolding eq using that by (rule if_not_P)
    show "pend p f \<subseteq> pend ?p' f"
    proof (cases "?insts = []")
      case True
      then have "?p' = p" unfolding eq by (rule if_P)
      then show ?thesis by simp
    next
      case False
      show ?thesis unfolding full [OF False] using q by blast
    qed
    show "?P \<subseteq> pend ?p' f" if "?P \<noteq> {}" "f \<in> set (computed_fields a W)"
      unfolding full [OF ne [OF that(1)]] using q that(2) by simp
    show "query_roots a db' b ?P \<subseteq> pend ?p' (bind_field b)" if "?P \<noteq> {}" "b \<in> set ?bs" for b
      unfolding full [OF ne [OF that(1)]] by (rule ctx_resolve_spec(2) [OF roots that(2)])
  qed
  show "x \<in> pend ?p' f"
  proof (cases "cf_model f = W \<and> x \<in> ?P")
    case True
    with f(2) new show ?thesis by auto
  next
    case False
    have old: "x \<in> db_rows db (cf_model f)" using f(3) ad False by (auto simp: adds_def split: if_splits)
    have col: "db_value db' (cf_model f) (cf_name f) x = db_value db (cf_model f) (cf_name f) x"
      using ad False unfolding adds_def by blast
    show ?thesis
    proof (cases "compute f db x = compute f db' x")
      case True
      with st col f old have "stale a compute db f x" by (auto simp: stale_def)
      with tr keep show ?thesis by (auto simp: tracked_def)
    next
      case ch: False
      from rd f old ch obtain dep where dep: "dep \<in> set (cf_depends_on f)"
        "\<not> same_view a gen db db' (cf_model f) (split_lookup dep) x"
        unfolding reads_declared_def by metis
      obtain ws where ws: "parse_parts a k (cf_model f) [] 0 [] (split_lookup dep) = Inr ws"
        and b: "\<And>m path w. dict_get ws (m, path) = Some w \<Longrightarrow>
          \<exists>b \<in> set (bindings_for reg m). bind_field b = f \<and> root_model b = cf_model f \<and> bind_path b = path
            \<and> (w_existence w \<and> path \<noteq> [] \<longrightarrow> on_existence b)"
        using registry_watches [OF reg f(1) dep(1)] by blast
      obtain path w where w: "path \<noteq> []" "dict_get ws (W, [] @ path) = Some w" "w_existence w"
        "reach a db' (cf_model f) path x \<inter> ?P \<noteq> {}"
        using added_view [OF wf ad ws dep(2) False] by blast
      obtain b' where b': "b' \<in> set (bindings_for reg W)" "bind_field b' = f" "root_model b' = cf_model f"
        "bind_path b' = path" "on_existence b'"
        using b [OF w(2)] w(1,3) by auto
      have "b' \<in> set ?bs" using b' w(1) by (simp add: is_local_def)
      moreover have "x \<in> query_roots a db' b' ?P" using w(4) b' f(3) by (simp add: query_roots_def roots_query_def)
      moreover have "?P \<noteq> {}" using w(4) by blast
      ultimately show ?thesis using found [of b'] b'(2) by blast
    qed
  qed
qed

subsection \<open>One statement\<close>

lemma write_values_at:
  assumes "f \<in> set fs" "inj_on cf_name (set fs)" "x \<in> pks" "x \<in> db_rows db m"
  shows "db_value (write_values compute m pks fs db) m (cf_name f) x = compute f db x"
proof -
  obtain g where g: "find (\<lambda>g. cf_name g = cf_name f) fs = Some g"
    using assms(1) by (cases "find (\<lambda>g. cf_name g = cf_name f) fs") (auto simp: find_None_mem)
  from find_Some_iff_mem [OF g] assms(1,2) have "g = f" by (meson inj_onD)
  with g assms(3,4) show ?thesis by (simp add: write_values_def)
qed

lemma write_values_other:
  "\<not> (m' = m \<and> x \<in> pks \<and> n \<in> cf_name ` set fs) \<Longrightarrow>
   db_value (write_values compute m pks fs db) m' n x = db_value db m' n x"
  by (auto simp: write_values_def dest: find_Some_iff_mem split: option.splits)

lemma write_values_outside:
  assumes "\<not> (m' = m \<and> x \<in> pks \<and> n \<in> cf_name ` set fs)" "set gs \<subseteq> set fs"
  shows "db_value (write_values compute m pks gs db) m' n x = db_value db m' n x"
  by (rule write_values_other) (use assms in blast)

lemma write_values_frame [simp]:
  "db_rows (write_values compute m pks fs db) = db_rows db"
  "db_links (write_values compute m pks fs db) = db_links db"
  by (simp_all add: write_values_def)

lemma write_values_writes:
  "set fs \<subseteq> F \<Longrightarrow> writes a db (write_values compute m pks fs db) m pks (cf_name ` F)"
  using write_values_other [of _ m _ pks _ fs compute db] unfolding writes_def
  by (auto simp del: split_paired_All) (meson image_mono subsetD)+

lemma bulk_refresh_frame [simp]:
  "db_rows (bulk_refresh_fields compute m pks fs db) = db_rows db"
  "db_links (bulk_refresh_fields compute m pks fs db) = db_links db"
  by (simp_all add: bulk_refresh_fields_def Let_def)

lemma bulk_refresh_other:
  "\<not> (m' = m \<and> x \<in> pks \<and> n \<in> cf_name ` set fs) \<Longrightarrow>
   db_value (bulk_refresh_fields compute m pks fs db) m' n x = db_value db m' n x"
  by (simp add: bulk_refresh_fields_def Let_def write_values_outside [where fs = fs])

lemma bulk_refresh_writes: "writes a db (bulk_refresh_fields compute m pks fs db) m pks (cf_name ` set fs)"
  using bulk_refresh_other [of _ m _ pks _ fs compute db] unfolding writes_def by (simp, blast)

text \<open>Each refreshed value was computed on a state that differs from the last one in refreshed columns only.\<close>

lemma bulk_refresh_at:
  fixes compute :: "computed_field \<Rightarrow> 'v database \<Rightarrow> pk \<Rightarrow> 'v"
  assumes f: "f \<in> set fs" and inj: "inj_on cf_name (set fs)" and x: "x \<in> pks" "x \<in> db_rows db m"
  defines "db' \<equiv> bulk_refresh_fields compute m pks fs db"
  shows "\<exists>d. db_value db' m (cf_name f) x = compute f d x \<and> db_rows d = db_rows db
     \<and> writes a d db' m pks (cf_name ` set fs)"
proof -
  let ?an = "filter cf_annotated fs" and ?pre = "filter (\<lambda>f. \<not> cf_annotated f) fs"
  let ?db1 = "if ?an \<noteq> [] then write_values compute m pks ?an db else db"
  have inj': "inj_on cf_name (set ?an)" "inj_on cf_name (set ?pre)"
    using inj by (auto intro: inj_on_subset)
  have ne: "pks \<noteq> {}" "fs \<noteq> []" using f x by auto
  have db': "db' = (if ?pre \<noteq> [] then write_values compute m pks ?pre ?db1 else ?db1)"
    using ne by (simp add: db'_def bulk_refresh_fields_def Let_def)
  have w1: "writes a ?db1 db' m pks (cf_name ` set fs)"
  proof (cases "?pre = []")
    case True
    then show ?thesis unfolding db' by (simp add: writes_def)
  next
    case False
    then have "db' = write_values compute m pks ?pre ?db1" unfolding db' by (rule if_P)
    then show ?thesis using write_values_writes [of ?pre "set fs" a ?db1 compute m pks] by simp
  qed
  show ?thesis
  proof (cases "cf_annotated f")
    case True
    then have fa: "f \<in> set ?an" using f by simp
    then have an: "?an \<noteq> []" by (intro notI) (simp only: list.set empty_iff)
    have "cf_name f \<notin> cf_name ` set ?pre"
      using inj f True by (auto simp: inj_on_def)
    then have "db_value db' m (cf_name f) x = db_value ?db1 m (cf_name f) x"
      unfolding db' by (simp add: write_values_other)
    also have "\<dots> = compute f db x" using an write_values_at [OF fa inj'(1) x] by simp
    finally show ?thesis
      using bulk_refresh_writes [of a db compute m pks fs] unfolding db'_def by (intro exI [of _ db]) simp
  next
    case False
    then have fp: "f \<in> set ?pre" using f by simp
    then have pre: "?pre \<noteq> []" by (intro notI) (simp only: list.set empty_iff)
    have "x \<in> db_rows ?db1 m" using x by simp
    from write_values_at [OF fp inj'(2) x(1) this] pre
    have "db_value db' m (cf_name f) x = compute f ?db1 x" unfolding db' by simp
    with w1 show ?thesis by (intro exI [of _ ?db1]) simp
  qed
qed

text \<open>Within one level nothing reads anything else of it, so what was written is what is computed.\<close>

lemma level_not_read:
  assumes reg: "build_registry a k = Some (Inr reg)" and wf: "wf_apps a" and rd: "reads_declared a gen compute"
    and wr: "writes a d db' m pks (cf_name ` set fs)"
    and fs: "set fs \<subseteq> set (computed_fields a m)" "\<forall>g \<in> set fs. depth_of reg (field_id g) = L"
    and f: "f \<in> set (all_stored a)" "depth_of reg (field_id f) \<le> L" and x: "x \<in> db_rows d (cf_model f)"
  shows "compute f d x = compute f db' x"
proof (rule ccontr)
  assume "compute f d x \<noteq> compute f db' x"
  from compute_changed [OF reg wf rd wr f(1) x this]
  obtain b where b: "b \<in> set (bindings_for reg m)" "bind_field b = f" "trigger_fields b \<inter> cf_name ` set fs \<noteq> {}"
    by blast
  then obtain g where "g \<in> set fs" "cf_name g \<in> trigger_fields b" by blast
  with registry_orders [OF reg b(1)] fs b(2) f(2) show False by fastforce
qed

lemma computed_names_inj: "wf_apps a \<Longrightarrow> set fs \<subseteq> set (computed_fields a m) \<Longrightarrow> inj_on cf_name (set fs)"
proof -
  assume "wf_apps a" "set fs \<subseteq> set (computed_fields a m)"
  moreover from this(1) have "inj_on cf_name (set (computed_fields a m))" by (auto simp: wf_apps_def distinct_map)
  ultimately show ?thesis by (blast intro: inj_on_subset)
qed

lemma reach_frame:
  "db_rows db' = db_rows db \<Longrightarrow> db_links db' = db_links db \<Longrightarrow> reach a db' m path x = reach a db m path x"
proof (induction path arbitrary: m x)
  case (Cons n path)
  have "db_step a db' m n x = db_step a db m n x" unfolding db_step_def Cons.prems by (rule refl)
  with Cons.IH [OF Cons.prems] show ?case by (simp cong: image_cong split: option.splits)
qed simp

lemma refresh_keeps_tracked:
  assumes reg: "build_registry a k = Some (Inr reg)" and wf: "wf_apps a" and rd: "reads_declared a gen compute"
    and fs: "set fs \<subseteq> set (computed_fields a m)" "\<forall>g \<in> set fs. depth_of reg (field_id g) = L"
    and st: "stale a compute (bulk_refresh_fields compute m pks fs db) f x"
  shows "stale a compute db f x \<and> \<not> (f \<in> set fs \<and> x \<in> pks)
     \<or> x \<in> pend (ctx_modified a reg (bulk_refresh_fields compute m pks fs db) m pks (cf_name ` set fs) False p) f"
proof -
  let ?db' = "bulk_refresh_fields compute m pks fs db" and ?N = "cf_name ` set fs"
  note wr = bulk_refresh_writes [of a db compute m pks fs]
  have inj: "inj_on cf_name (set fs)" by (rule computed_names_inj [OF wf fs(1)])
  have f: "f \<in> set (all_stored a)" "f \<in> set (computed_fields a (cf_model f))" "x \<in> db_rows db (cf_model f)"
    using st all_stored_iff [OF wf] by (auto simp: stale_def)
  have fresh: "\<not> (f \<in> set fs \<and> x \<in> pks)"
  proof
    assume in_fs: "f \<in> set fs \<and> x \<in> pks"
    with fs(1) wf have m: "cf_model f = m" by (auto simp: wf_apps_def)
    obtain d where d: "db_value ?db' m (cf_name f) x = compute f d x" "db_rows d = db_rows db"
      "writes a d ?db' m pks ?N"
      using bulk_refresh_at [of f fs x pks db m compute a] in_fs inj f(3) m by auto
    have "compute f d x = compute f ?db' x"
      by (rule level_not_read [OF reg wf rd d(3) fs f(1)]) (use fs(2) in_fs f(3) d(2) in auto)
    with st d(1) m show False by (simp add: stale_def)
  qed
  show ?thesis
  proof (cases "compute f db x = compute f ?db' x")
    case True
    have "db_value ?db' (cf_model f) (cf_name f) x = db_value db (cf_model f) (cf_name f) x"
    proof (rule bulk_refresh_other, rule notI)
      assume h: "cf_model f = m \<and> x \<in> pks \<and> cf_name f \<in> ?N"
      then obtain g where "g \<in> set fs" "cf_name g = cf_name f" by auto
      moreover have "inj_on cf_name (set (computed_fields a m))" by (rule computed_names_inj [OF wf subset_refl])
      ultimately have "g = f" using f(2) fs(1) h by (auto dest: inj_onD)
      with fresh h \<open>g \<in> set fs\<close> show False by simp
    qed
    with st True f have "stale a compute db f x" by (auto simp: stale_def)
    with fresh show ?thesis by blast
  next
    case False
    from compute_changed [OF reg wf rd wr f(1,3) False]
    obtain b where b: "b \<in> set (bindings_for reg m)" "bind_field b = f" "trigger_fields b \<inter> ?N \<noteq> {}"
      "pks \<noteq> {}" "?N \<noteq> {}" "x \<in> query_roots a ?db' b pks \<or> x \<in> query_roots a db b pks" by blast
    have "reach a ?db' m' path y = reach a db m' path y" for m' path y by (rule reach_frame) simp_all
    with b(6) have "x \<in> query_roots a ?db' b pks" by (auto simp: query_roots_def roots_query_def)
    with ctx_modified_finds [OF b(4,5,1,3), of False a ?db' p] b(2) show ?thesis by auto
  qed
qed

end
