(* ===== verification/Refresh_Deletion.thy ===== *)
theory Refresh_Deletion
  imports Refresh_Flush
begin

text \<open>
  Deletions: what \<open>deleted()\<close> records before the rows go, with the cascade Django's collector
  reports, covers every value that changes when they are gone. The static cascades of the
  registry are shown to contain every watched model a deletion can reach.
\<close>

declare split_paired_All [simp del] split_paired_Ex [simp del]

subsection \<open>The rows that go\<close>

text \<open>
  The rows \<open>D\<close> disappear; a kept row keeps its values and its links to kept rows, so a key to
  a deleted row is nulled and a many-to-many link to it vanishes.
\<close>

definition removes :: "apps \<Rightarrow> 'v database \<Rightarrow> 'v database \<Rightarrow> (model \<Rightarrow> pk set) \<Rightarrow> bool" where
  "removes a db db' D \<longleftrightarrow>
     (\<forall>m. db_rows db' m = db_rows db m - D m)
   \<and> (\<forall>m n x. x \<in> db_rows db' m \<longrightarrow> db_value db' m n x = db_value db m n x)
   \<and> (\<forall>m n c t m2m x. get_field a m n = Some (Forward c (Some t) m2m) \<longrightarrow> x \<in> db_rows db' m \<longrightarrow>
        db_links db' m (col_name c) x \<inter> db_rows db' t = db_links db m (col_name c) x \<inter> db_rows db' t)"

lemma removed_step:
  assumes wf: "wf_apps a" and rm: "removes a db db' D" and x: "x \<in> db_rows db' m"
    and t: "get_field a m n = Some (Forward c (Some t) m2m) \<or> get_field a m n = Some (Reverse l c (Some t) m2m)"
  shows "db_step a db' m n x = db_step a db m n x - D t"
  using t
proof
  assume f: "get_field a m n = Some (Forward c (Some t) m2m)"
  with rm x have "db_links db' m (col_name c) x \<inter> db_rows db' t = db_links db m (col_name c) x \<inter> db_rows db' t"
    unfolding removes_def by blast
  with f rm show ?thesis by (auto simp: db_step_def removes_def)
next
  assume f: "get_field a m n = Some (Reverse l c (Some t) m2m)"
  with wf have g: "get_field a t (col_name c) = Some (Forward c (Some m) m2m)" by (auto simp: wf_apps_def)
  have "x \<in> db_links db' t (col_name c) y \<longleftrightarrow> x \<in> db_links db t (col_name c) y" if "y \<in> db_rows db' t" for y
    using rm g that x unfolding removes_def by blast
  with f rm show ?thesis by (auto simp: db_step_def removes_def)
qed

lemma removed_view:
  assumes wf: "wf_apps a" and rm: "removes a db db' D"
  shows "parse_parts a k m path hops ws parts = Inr ws' \<Longrightarrow> \<not> same_view a gen db db' m parts x \<Longrightarrow>
    x \<in> db_rows db' m \<Longrightarrow>
    \<exists>t path2 w. path2 \<noteq> [] \<and> dict_get ws' (t, path @ path2) = Some w \<and> w_existence w
      \<and> reach a db m path2 x \<inter> D t \<noteq> {}"
proof (induction parts arbitrary: m path hops ws x)
  case (Cons n rest)
  have hop: ?case
    if h: "hop_target a m l = Some t" "db_step a db m l x = db_step a db m n x"
      and step: "db_step a db' m n x = db_step a db m n x - D t" "db_step a db' m n x \<subseteq> db_rows db' t"
      and parse: "parse_parts a k t (path @ [l]) (hops + 1) ws1 rest = Inr ws'"
      and w: "dict_get ws1 (t, path @ [l]) = Some w" "w_existence w"
      and view: "db_step a db m n x \<noteq> db_step a db' m n x
         \<or> (\<exists>y \<in> db_step a db m n x. \<not> same_view a gen db db' t rest y)" for l t ws1 w
  proof (cases "db_step a db m n x \<inter> D t = {}")
    case True
    with step(1) view obtain y where y: "y \<in> db_step a db m n x" "\<not> same_view a gen db db' t rest y" by blast
    have "y \<in> db_rows db' t" using y(1) True step by blast
    from Cons.IH [OF parse y(2) this] obtain u path2 v where "path2 \<noteq> []"
      "dict_get ws' (u, (path @ [l]) @ path2) = Some v" "w_existence v" "reach a db t path2 y \<inter> D u \<noteq> {}" by blast
    moreover have "reach a db t path2 y \<subseteq> reach a db m (l # path2) x"
      using reach_hop [OF h(1), of y db x] y(1) h(2) by auto
    ultimately show ?thesis by (intro exI [of _ u] exI [of _ "l # path2"] exI [of _ v]) auto
  next
    case False
    obtain w' where w': "dict_get ws' (t, path @ [l]) = Some w'" "watch_le w w'"
      using watches_leD [OF parse_parts_le [OF parse] w(1)] by blast
    have "reach a db m [l] x \<inter> D t \<noteq> {}" using False h by auto
    with w' w(2) show ?thesis
      by (intro exI [of _ t] exI [of _ "[l]"] exI [of _ w']) (auto simp: watch_le_def)
  qed
  from Cons.prems(1) show ?case
  proof (cases rule: parse_parts_ConsE)
    case (plain c)
    then obtain v where "db_value db' m v x \<noteq> db_value db m v x"
      using Cons.prems(2) read_value_changed [of gen db m c x db'] by auto
    with rm Cons.prems(3) show ?thesis unfolding removes_def by blast
  next
    case (forward c t m2m)
    obtain w where "dict_get (forward_watches m path c t ws) (t, path @ [col_name c]) = Some w" "w_existence w"
      using forward_watches_get(2) by blast
    moreover have "db_step a db' m n x \<subseteq> db_rows db' t" using forward(1) by (auto simp: db_step_def)
    ultimately show ?thesis
      using step_by_lookup(1) [OF wf forward(1)] removed_step [OF wf rm Cons.prems(3) disjI1 [OF forward(1)]]
        Cons.prems(2) forward(1)
      by (intro hop [OF _ _ _ _ forward(3)]) auto
  next
    case (reverse l c t m2m)
    obtain w where "dict_get (reverse_watches path l c t m2m ws) (t, path @ [l]) = Some w" "w_existence w"
      using reverse_watches_get by blast
    moreover have "db_step a db' m n x \<subseteq> db_rows db' t" using reverse(1) by (auto simp: db_step_def)
    ultimately show ?thesis
      using step_by_lookup(2) [OF wf reverse(1)] removed_step [OF wf rm Cons.prems(3) disjI2 [OF reverse(1)]]
        Cons.prems(2) reverse(1)
      by (intro hop [OF _ _ _ _ reverse(3)]) auto
  qed
qed simp

subsection \<open>Cascades\<close>

definition cascade_targets :: "related_object list \<Rightarrow> model set" where
  "cascade_targets rels = ro_model ` {r \<in> set rels. \<not> ro_many_to_many r \<and> ro_on_delete r = CASCADE}"

definition cascades_to :: "apps \<Rightarrow> (model \<times> model) set" where
  "cascades_to a = {(m, t). t \<in> cascade_targets (dict_default (app_related a) m)}"

lemma related_models_mem: "r \<in> set (dict_default (app_related a) m) \<Longrightarrow> ro_model r \<in> related_models a"
  by (drule dict_defaultD) (force simp: related_models_def)

lemma collect_cascade_closed:
  "\<forall>r \<in> set rels. ro_model r \<in> related_models a \<Longrightarrow>
   \<forall>v \<in> visited. watches_existence bindings v \<longrightarrow> v \<in> casc_deleted c \<Longrightarrow>
   \<forall>v \<in> visited. cascade_targets (dict_default (app_related a) v) \<subseteq> visited \<union> cascade_targets rels \<Longrightarrow>
   \<exists>V. visited \<union> cascade_targets rels \<subseteq> V
     \<and> (\<forall>v \<in> V. cascade_targets (dict_default (app_related a) v) \<subseteq> V)
     \<and> (\<forall>v \<in> V. watches_existence bindings v \<longrightarrow> v \<in> casc_deleted (collect_cascade a bindings rels visited c))"
proof (induction a bindings rels visited c rule: collect_cascade.induct)
  case (1 a bindings visited c)
  then show ?case by (intro exI [of _ visited]) (simp add: cascade_targets_def)
next
  case (2 a bindings rel rels visited c)
  let ?t = "ro_model rel"
  let ?follow = "\<not> ro_many_to_many rel \<and> ro_on_delete rel = CASCADE"
  have skip: "cascade_targets (rel # rels) = cascade_targets rels" if "\<not> ?follow"
    using that by (auto simp: cascade_targets_def)
  show ?case
  proof (cases ?follow)
    case False
    then show ?thesis
    proof (cases "ro_many_to_many rel")
      case True
      with "2.IH"(1) [OF True] "2.prems" skip [OF False] show ?thesis by simp
    next
      case nm: False
      with False have nc: "ro_on_delete rel \<noteq> CASCADE" by simp
      show ?thesis
      proof (cases "rewriting (ro_on_delete rel) \<and> field_names (ro_field rel) \<inter> model_triggers bindings ?t \<noteq> {}")
        case True
        with "2.IH"(4) [OF nm nc True] "2.prems" skip [OF False] nm nc show ?thesis by simp
      next
        case no: False
        have "collect_cascade a bindings (rel # rels) visited c = collect_cascade a bindings rels visited c"
          using nm nc no by (auto simp del: collect_cascade.simps(1))
        with "2.IH"(5) [OF nm nc no] "2.prems" skip [OF False] show ?thesis by simp
      qed
    qed
  next
    case f: True
    have t: "?t \<in> related_models a" using "2.prems"(1) by simp
    have ts: "cascade_targets (rel # rels) = insert ?t (cascade_targets rels)"
      using f by (auto simp: cascade_targets_def)
    show ?thesis
    proof (cases "?t \<in> visited")
      case True
      with f have eq: "collect_cascade a bindings (rel # rels) visited c = collect_cascade a bindings rels visited c"
        by simp
      have "visited \<union> cascade_targets (rel # rels) = visited \<union> cascade_targets rels" using ts True by auto
      moreover have vis: "?t \<in> visited \<or> ?t \<notin> related_models a" using True by simp
      ultimately show ?thesis
        using "2.IH"(2) [OF _ _ vis] f "2.prems" unfolding eq by simp
    next
      case False
      let ?rels = "dict_default (app_related a) ?t @ rels"
      let ?c = "if watches_existence bindings ?t then c\<lparr>casc_deleted := insert ?t (casc_deleted c)\<rparr> else c"
      have eq: "collect_cascade a bindings (rel # rels) visited c
          = collect_cascade a bindings ?rels (insert ?t visited) ?c"
        using f False t by simp
      have app: "cascade_targets ?rels = cascade_targets (dict_default (app_related a) ?t) \<union> cascade_targets rels"
        by (auto simp: cascade_targets_def)
      have "\<exists>V. insert ?t visited \<union> cascade_targets ?rels \<subseteq> V
         \<and> (\<forall>v \<in> V. cascade_targets (dict_default (app_related a) v) \<subseteq> V)
         \<and> (\<forall>v \<in> V. watches_existence bindings v \<longrightarrow>
              v \<in> casc_deleted (collect_cascade a bindings ?rels (insert ?t visited) ?c))"
      proof (rule "2.IH"(3))
        show "\<not> ro_many_to_many rel" "ro_on_delete rel = CASCADE" using f by simp_all
        show "\<not> (?t \<in> visited \<or> ?t \<notin> related_models a)" using False t by simp
        show "\<forall>r \<in> set ?rels. ro_model r \<in> related_models a"
          using "2.prems"(1) related_models_mem by auto
        show "\<forall>v \<in> insert ?t visited. watches_existence bindings v \<longrightarrow> v \<in> casc_deleted ?c"
          using "2.prems"(2) by auto
        show "\<forall>v \<in> insert ?t visited. cascade_targets (dict_default (app_related a) v)
            \<subseteq> insert ?t visited \<union> cascade_targets ?rels"
          using "2.prems"(3) unfolding ts app by blast
      qed
      then obtain V where V: "insert ?t visited \<union> cascade_targets ?rels \<subseteq> V"
        "\<forall>v \<in> V. cascade_targets (dict_default (app_related a) v) \<subseteq> V"
        "\<forall>v \<in> V. watches_existence bindings v \<longrightarrow>
           v \<in> casc_deleted (collect_cascade a bindings (rel # rels) visited c)"
        unfolding eq by (elim exE conjE)
      have "visited \<union> cascade_targets (rel # rels) \<subseteq> V" using V(1) unfolding ts app by blast
      with V(2,3) show ?thesis by (intro exI conjI)
    qed
  qed
qed

lemma cascades_watched:
  assumes "build_registry a k = Some (Inr reg)" "m \<in> set (app_models a)" "(m, t) \<in> (cascades_to a)\<^sup>+"
    and "watches_existence (reg_bindings reg) t"
  shows "\<exists>c. dict_get (reg_cascades reg) m = Some c \<and> t \<in> casc_deleted c"
proof -
  let ?rels = "dict_default (app_related a) m"
  let ?c = "collect_cascade a (reg_bindings reg) ?rels {} empty_cascade"
  obtain V where V: "cascade_targets ?rels \<subseteq> V"
    "\<forall>v \<in> V. cascade_targets (dict_default (app_related a) v) \<subseteq> V"
    "\<forall>v \<in> V. watches_existence (reg_bindings reg) v \<longrightarrow> v \<in> casc_deleted ?c"
    using collect_cascade_closed [of ?rels a "{}" "reg_bindings reg" empty_cascade] related_models_mem by auto
  have "t \<in> V"
    using assms(3) by (induction rule: trancl_induct) (use V(1,2) in \<open>auto simp: cascades_to_def\<close>)
  with V(3) assms(4) have t: "t \<in> casc_deleted ?c" by blast
  have casc: "reg_cascades reg = compute_cascades a (reg_bindings reg)" using assms(1) by (rule build_registryE)
  have get: "m \<in> set ms \<Longrightarrow> P (G m) \<Longrightarrow> dict_get (filter (\<lambda>(m, c). P c) (map (\<lambda>m. (m, G m)) ms)) m = Some (G m)"
    for ms :: "model list" and P and G :: "model \<Rightarrow> cascade"
    by (induction ms) auto
  have "dict_get (reg_cascades reg) m = Some ?c"
    unfolding casc compute_cascades_def
    by (rule get [of "app_models a" "\<lambda>c. casc_deleted c \<noteq> {} \<or> casc_nulled c \<noteq> {}"
          "\<lambda>m. collect_cascade a (reg_bindings reg) (dict_default (app_related a) m) {} empty_cascade"])
      (use assms(2) t in auto)
  with t show ?thesis by blast
qed

subsection \<open>What \<open>deleted()\<close> records\<close>

text \<open>
  What the collector is documented to report: every row that goes is one that was asked for, or
  belongs to a model some chain of cascading keys leads to and is in its report.
\<close>

definition collector_law :: "apps \<Rightarrow> model \<Rightarrow> pk set \<Rightarrow> collected \<Rightarrow> (model \<Rightarrow> pk set) \<Rightarrow> bool" where
  "collector_law a m pks coll D \<longleftrightarrow>
     (\<forall>t. \<forall>p \<in> D t. t = m \<and> p \<in> pks
        \<or> (m, t) \<in> (cascades_to a)\<^sup>+ \<and> (\<exists>s. p \<in> s \<and> ((t, s) \<in> set (coll_data coll) \<or> (t, s) \<in> set (coll_fast coll))))
   \<and> (pks = {} \<longrightarrow> (\<forall>t. D t = {}))"

lemma existence_changed_spec:
  "pend p f \<subseteq> pend (existence_changed a reg db m pks None p) f"
  "b \<in> set (bindings_for reg m) \<Longrightarrow> on_existence b \<Longrightarrow> \<not> is_local b \<Longrightarrow>
     query_roots a db b pks \<subseteq> pend (existence_changed a reg db m pks None p) (bind_field b)"
  by (simp_all add: existence_changed_def resolve_query_spec)

lemma fold_pend_mono:
  "(\<And>e q. e \<in> set es \<Longrightarrow> pend q f \<subseteq> pend (G e q) f) \<Longrightarrow> pend q f \<subseteq> pend (fold G es q) f"
proof (induction es arbitrary: q)
  case (Cons e es)
  have "pend q f \<subseteq> pend (G e q) f" using Cons.prems by simp
  also have "\<dots> \<subseteq> pend (fold G es (G e q)) f" using Cons by simp
  finally show ?case by simp
qed simp

lemma fold_pend_hit:
  assumes mono: "\<And>e q. pend q f \<subseteq> pend (G e q) f" and e: "e \<in> set es" and hit: "\<And>q. A \<subseteq> pend (G e q) f"
  shows "A \<subseteq> pend (fold G es q) f"
  using e
proof (induction es arbitrary: q)
  case (Cons e' es)
  show ?case
  proof (cases "e' = e")
    case True
    have "A \<subseteq> pend (G e q) f" by (rule hit)
    also have "\<dots> \<subseteq> pend (fold G es (G e q)) f" by (rule fold_pend_mono [OF mono])
    finally show ?thesis using True by simp
  next
    case False
    with Cons show ?thesis by simp
  qed
qed simp

lemma delete_mono:
  "pend q f \<subseteq> pend (delete_data a reg db m pks c e q) f"
  "pend q f \<subseteq> pend (delete_fast a reg db c e q) f"
  "pend q f \<subseteq> pend (delete_update a reg db c u q) f"
  by (simp_all add: delete_data_def delete_fast_def delete_update_def existence_changed_spec(1)
      ctx_modified_keeps split: prod.splits)

lemma ctx_deleted_keeps: "pend p f \<subseteq> pend (ctx_deleted a reg db m pks coll p) f"
proof -
  have "pend p f \<subseteq> pend (fold (delete_update a reg db c) us (fold (delete_fast a reg db c) fs
      (fold (delete_data a reg db m pks c) ds (existence_changed a reg db m pks None p)))) f" for c us fs ds
    by (rule subset_trans [OF existence_changed_spec(1)], rule subset_trans [OF fold_pend_mono [OF delete_mono(1)]],
        rule subset_trans [OF fold_pend_mono [OF delete_mono(2)]], rule fold_pend_mono [OF delete_mono(3)])
  then show ?thesis unfolding ctx_deleted_def Let_def by (simp add: existence_changed_spec(1) split: option.split)
qed

lemma ctx_deleted_finds:
  assumes reg: "build_registry a k = Some (Inr reg)" and m: "m \<in> set (app_models a)"
    and coll: "collector_law a m pks coll D" and p0: "p0 \<in> D t"
    and b: "b \<in> set (bindings_for reg t)" "on_existence b" "\<not> is_local b"
  shows "\<exists>S. p0 \<in> S \<and> query_roots a db b S \<subseteq> pend (ctx_deleted a reg db m pks coll p) (bind_field b)"
proof -
  let ?f = "bind_field b" and ?p1 = "existence_changed a reg db m pks None p"
  let ?p2 = "\<lambda>c. fold (delete_data a reg db m pks c) (coll_data coll) ?p1"
  let ?p3 = "\<lambda>c. fold (delete_fast a reg db c) (coll_fast coll) (?p2 c)"
  let ?p4 = "\<lambda>c. fold (delete_update a reg db c) (coll_updates coll) (?p3 c)"
  have m12: "pend ?p1 ?f \<subseteq> pend (?p2 c) ?f" and m23: "pend (?p2 c) ?f \<subseteq> pend (?p3 c) ?f"
    and m34: "pend (?p3 c) ?f \<subseteq> pend (?p4 c) ?f" for c
    by (rule fold_pend_mono, rule delete_mono)+
  have pks: "pks \<noteq> {}" using coll p0 by (auto simp: collector_law_def)
  show ?thesis
  proof (cases "t = m \<and> p0 \<in> pks")
    case True
    have "query_roots a db b pks \<subseteq> pend ?p1 ?f" using existence_changed_spec(2) b True by blast
    moreover have "ctx_deleted a reg db m pks coll p \<in> insert ?p1 (range ?p4)"
      unfolding ctx_deleted_def Let_def using pks b True by (auto split: option.splits)
    ultimately have "query_roots a db b pks \<subseteq> pend (ctx_deleted a reg db m pks coll p) ?f"
      using m12 m23 m34 by (auto dest: subsetD) (meson subsetD)
    with True show ?thesis by blast
  next
    case False
    with coll p0 obtain s where s: "(m, t) \<in> (cascades_to a)\<^sup>+" "p0 \<in> s"
      "(t, s) \<in> set (coll_data coll) \<or> (t, s) \<in> set (coll_fast coll)"
      unfolding collector_law_def by blast
    have "watches_existence (reg_bindings reg) t"
      using b by (auto simp: watches_existence_def bindings_for_def)
    from cascades_watched [OF reg m s(1) this] obtain c
      where c: "dict_get (reg_cascades reg) m = Some c" "t \<in> casc_deleted c" by blast
    have eq: "ctx_deleted a reg db m pks coll p = ?p4 c"
      unfolding ctx_deleted_def Let_def using pks c(1) by simp
    let ?S = "s - (if t = m then pks else {})"
    have p0S: "p0 \<in> ?S" using False s(2) by simp
    from s(3) show ?thesis
    proof
      assume e: "(t, s) \<in> set (coll_data coll)"
      have hit: "query_roots a db b ?S \<subseteq> pend (delete_data a reg db m pks c (t, s) q) ?f" for q
        using c(2) existence_changed_spec(2) [OF b, of a db ?S q] by (simp only: delete_data_def prod.case if_True)
      have "query_roots a db b ?S \<subseteq> pend (?p2 c) ?f" by (rule fold_pend_hit, rule delete_mono, rule e, rule hit)
      with p0S m23 [of c] m34 [of c] eq show ?thesis by (intro exI [of _ ?S]) auto
    next
      assume e: "(t, s) \<in> set (coll_fast coll)"
      have hit: "query_roots a db b s \<subseteq> pend (delete_fast a reg db c (t, s) q) ?f" for q
        using c(2) existence_changed_spec(2) [OF b, of a db s q] by (simp only: delete_fast_def prod.case if_True)
      have "query_roots a db b s \<subseteq> pend (?p3 c) ?f" by (rule fold_pend_hit, rule delete_mono, rule e, rule hit)
      with s(2) m34 [of c] eq show ?thesis by (intro exI [of _ s]) auto
    qed
  qed
qed

lemma deleted_keeps_tracked:
  assumes reg: "build_registry a k = Some (Inr reg)" and wf: "wf_apps a" and rd: "reads_declared a gen compute"
    and tr: "tracked a compute p db" and m: "m \<in> set (app_models a)"
    and rm: "removes a db db' D" and coll: "collector_law a m pks coll D"
  shows "tracked a compute (ctx_deleted a reg db m pks coll p) db'"
  unfolding tracked_def
proof (intro allI impI)
  fix f x assume st: "stale a compute db' f x"
  let ?p' = "ctx_deleted a reg db m pks coll p"
  have f: "f \<in> set (all_stored a)" "x \<in> db_rows db' (cf_model f)" "x \<in> db_rows db (cf_model f)"
    using st rm by (auto simp: stale_def removes_def)
  have col: "db_value db' (cf_model f) (cf_name f) x = db_value db (cf_model f) (cf_name f) x"
    using rm f(2) unfolding removes_def by blast
  show "x \<in> pend ?p' f"
  proof (cases "compute f db x = compute f db' x")
    case True
    with st col f have "stale a compute db f x" by (auto simp: stale_def)
    with tr ctx_deleted_keeps show ?thesis unfolding tracked_def by blast
  next
    case ch: False
    from rd f ch obtain dep where dep: "dep \<in> set (cf_depends_on f)"
      "\<not> same_view a gen db db' (cf_model f) (split_lookup dep) x"
      unfolding reads_declared_def by metis
    obtain ws where ws: "parse_parts a k (cf_model f) [] 0 [] (split_lookup dep) = Inr ws"
      and b: "\<And>m path w. dict_get ws (m, path) = Some w \<Longrightarrow>
        \<exists>b \<in> set (bindings_for reg m). bind_field b = f \<and> root_model b = cf_model f \<and> bind_path b = path
          \<and> (w_existence w \<and> path \<noteq> [] \<longrightarrow> on_existence b)"
      using registry_watches [OF reg f(1) dep(1)] by blast
    obtain t path w where w: "path \<noteq> []" "dict_get ws (t, [] @ path) = Some w" "w_existence w"
      "reach a db (cf_model f) path x \<inter> D t \<noteq> {}"
      using removed_view [OF wf rm ws dep(2) f(2)] by blast
    obtain b' where b': "b' \<in> set (bindings_for reg t)" "bind_field b' = f" "root_model b' = cf_model f"
      "bind_path b' = path" "on_existence b'"
      using b [OF w(2)] w(1,3) by auto
    obtain p0 where p0: "p0 \<in> D t" "p0 \<in> reach a db (cf_model f) path x" using w(4) by blast
    have "\<not> is_local b'" using b'(4) w(1) by (simp add: is_local_def)
    from ctx_deleted_finds [OF reg m coll p0(1) b'(1,5) this, of db p]
    obtain S where "p0 \<in> S" "query_roots a db b' S \<subseteq> pend ?p' f" using b'(2) by auto
    moreover from this(1) p0(2) b' f(3) have "x \<in> query_roots a db b' S"
      by (auto simp: query_roots_def roots_query_def)
    ultimately show ?thesis by blast
  qed
qed

end
