(* ===== verification/Refresh_Unit.thy ===== *)
theory Refresh_Unit
  imports Refresh_Deletion
begin

text \<open>
  The flush as a queue drained by increasing depth, and the whole unit of work: any sequence of
  declared writes inside the outermost \<open>with\<close>, then its exit.
\<close>

declare split_paired_All [simp del] split_paired_Ex [simp del]

subsection \<open>Batches\<close>

definition batch_has :: "batch \<Rightarrow> computed_field \<Rightarrow> pk \<Rightarrow> bool" where
  "batch_has b f x \<longleftrightarrow> (\<exists>fs s. (cf_model f, (fs, s)) \<in> set b \<and> f \<in> set fs \<and> x \<in> s)"

definition batch_ok :: "apps \<Rightarrow> dep_registry \<Rightarrow> nat \<Rightarrow> batch \<Rightarrow> bool" where
  "batch_ok a reg L b \<longleftrightarrow>
     (\<forall>m fs s. (m, (fs, s)) \<in> set b \<longrightarrow>
        set fs \<subseteq> set (computed_fields a m) \<and> (\<forall>g \<in> set fs. depth_of reg (field_id g) = L))"

definition batch_get :: "batch \<Rightarrow> model \<Rightarrow> computed_field list \<times> pk set" where
  "batch_get b m = (case dict_get b m of None \<Rightarrow> ([], {}) | Some e \<Rightarrow> e)"

definition batch_mem :: "batch \<Rightarrow> computed_field \<Rightarrow> pk \<Rightarrow> bool" where
  "batch_mem b f x \<longleftrightarrow> f \<in> set (fst (batch_get b (cf_model f))) \<and> x \<in> snd (batch_get b (cf_model f))"

lemma batch_mem_has: "batch_mem b f x \<Longrightarrow> batch_has b f x"
proof -
  assume mem: "batch_mem b f x"
  obtain fs s where e: "batch_get b (cf_model f) = (fs, s)" by (cases "batch_get b (cf_model f)")
  with mem have "f \<in> set fs" "x \<in> s" by (simp_all add: batch_mem_def)
  moreover from this e have "(cf_model f, (fs, s)) \<in> set b"
    unfolding batch_get_def by (cases "dict_get b (cf_model f)") (auto dest: map_of_SomeD)
  ultimately show ?thesis unfolding batch_has_def by blast
qed

lemma batch_add_get:
  "batch_get (batch_add f pks b) m =
     (if m = cf_model f then (fst (batch_get b m) @ [f], snd (batch_get b m) \<union> pks) else batch_get b m)"
  by (auto simp: batch_get_def batch_add_def split: option.splits prod.splits)

lemma batch_add_mem:
  "batch_mem b g x \<Longrightarrow> batch_mem (batch_add f pks b) g x"
  "x \<in> pks \<Longrightarrow> batch_mem (batch_add f pks b) f x"
  by (auto simp: batch_mem_def batch_add_get)

lemma batch_add_ok:
  assumes "batch_ok a reg L b" "f \<in> set (computed_fields a (cf_model f))" "depth_of reg (field_id f) = L"
  shows "batch_ok a reg L (batch_add f pks b)"
proof -
  obtain fs s where e: "batch_get b (cf_model f) = (fs, s)" by (cases "batch_get b (cf_model f)")
  have old: "fs = [] \<or> (cf_model f, (fs, s)) \<in> set b"
    using e unfolding batch_get_def by (cases "dict_get b (cf_model f)") (auto dest: map_of_SomeD)
  have new: "batch_add f pks b = dict_put (cf_model f) (fs @ [f], s \<union> pks) b"
    using e by (simp add: batch_add_def batch_get_def split: option.splits prod.splits)
  show ?thesis
    unfolding batch_ok_def
  proof (intro allI impI)
    fix m gs t assume "(m, (gs, t)) \<in> set (batch_add f pks b)"
    then have "(m, (gs, t)) = (cf_model f, (fs @ [f], s \<union> pks)) \<or> (m, (gs, t)) \<in> set b"
      unfolding new using set_dict_put_subset by fast
    then show "set gs \<subseteq> set (computed_fields a m) \<and> (\<forall>g \<in> set gs. depth_of reg (field_id g) = L)"
    proof
      assume eq: "(m, (gs, t)) = (cf_model f, (fs @ [f], s \<union> pks))"
      have "set fs \<subseteq> set (computed_fields a (cf_model f)) \<and> (\<forall>g \<in> set fs. depth_of reg (field_id g) = L)"
        using old assms(1) unfolding batch_ok_def by auto
      with eq assms(2,3) show ?thesis by simp
    next
      assume "(m, (gs, t)) \<in> set b"
      with assms(1) show ?thesis unfolding batch_ok_def by blast
    qed
  qed
qed

lemma batch_fold:
  "batch_ok a reg L b \<Longrightarrow>
   \<forall>(f, pks) \<in> set ps. f \<in> set (computed_fields a (cf_model f)) \<and> depth_of reg (field_id f) = L \<Longrightarrow>
   batch_ok a reg L (fold (\<lambda>(f, pks) b. batch_add f pks b) ps b)
   \<and> (\<forall>g x. batch_mem b g x \<longrightarrow> batch_mem (fold (\<lambda>(f, pks) b. batch_add f pks b) ps b) g x)
   \<and> (\<forall>(f, pks) \<in> set ps. \<forall>x \<in> pks. batch_mem (fold (\<lambda>(f, pks) b. batch_add f pks b) ps b) f x)"
proof (induction ps arbitrary: b)
  case (Cons p ps)
  obtain f pks where p: "p = (f, pks)" by (cases p)
  have ok: "batch_ok a reg L (batch_add f pks b)" using Cons.prems p by (intro batch_add_ok) auto
  have rest: "\<forall>(f, pks) \<in> set ps. f \<in> set (computed_fields a (cf_model f)) \<and> depth_of reg (field_id f) = L"
    using Cons.prems(2) by simp
  note IH = Cons.IH [OF ok rest]
  let ?r = "fold (\<lambda>(f, pks) b. batch_add f pks b) (p # ps) b"
  have r: "?r = fold (\<lambda>(f, pks) b. batch_add f pks b) ps (batch_add f pks b)" by (simp add: p)
  have "\<forall>g x. batch_mem b g x \<longrightarrow> batch_mem ?r g x" "\<forall>x \<in> pks. batch_mem ?r f x"
    unfolding r using IH batch_add_mem by meson+
  with IH show ?case unfolding r by (simp add: p)
qed simp

text \<open>What a step of the flush starts from: everything pending is in its batch or left pending.\<close>

definition pend_ok :: "apps \<Rightarrow> pending \<Rightarrow> bool" where
  "pend_ok a p \<longleftrightarrow> dict_like p \<and> queued p \<subseteq> set (all_stored a)"

lemma pend_in: "dict_like p \<Longrightarrow> x \<in> pend p f \<Longrightarrow> \<exists>s. (f, s) \<in> set p \<and> x \<in> s"
  unfolding pend_def by (cases "dict_get p f") (auto dest: map_of_SomeD)

lemma flush_batch_ok:
  assumes "wf_apps a" "pend_ok a p"
  shows "batch_ok a reg L (flush_batch reg L p)"
    and "x \<in> pend p f \<Longrightarrow> depth_of reg (field_id f) = L \<Longrightarrow> batch_has (flush_batch reg L p) f x"
proof -
  let ?ps = "filter (\<lambda>(f, pks). depth_of reg (field_id f) = L) p"
  have b0: "batch_ok a reg L []" by (simp add: batch_ok_def)
  have "\<forall>(f, pks) \<in> set ?ps. f \<in> set (computed_fields a (cf_model f)) \<and> depth_of reg (field_id f) = L"
    using assms(2) all_stored_iff [OF assms(1)] by (force simp: pend_ok_def queued_def)
  note fold = batch_fold [OF b0 this]
  show "batch_ok a reg L (flush_batch reg L p)" unfolding flush_batch_def using fold by blast
  assume x: "x \<in> pend p f" "depth_of reg (field_id f) = L"
  from pend_in [OF _ x(1)] assms(2) obtain s where s: "(f, s) \<in> set p" "x \<in> s" by (auto simp: pend_ok_def)
  with x(2) have "(f, s) \<in> set ?ps" by simp
  with fold s(2) have "batch_mem (flush_batch reg L p) f x" unfolding flush_batch_def by blast
  then show "batch_has (flush_batch reg L p) f x" by (rule batch_mem_has)
qed

lemma flush_rest_pend:
  assumes "dict_like p" "x \<in> pend p f" "depth_of reg (field_id f) \<noteq> L"
  shows "x \<in> pend (flush_rest reg L p) f"
proof -
  obtain s where s: "(f, s) \<in> set p" "x \<in> s" using pend_in [OF assms(1,2)] by blast
  have d: "distinct (dict_keys (flush_rest reg L p))"
    using assms(1) unfolding flush_rest_def dict_like_def by (rule distinct_map_filter)
  have "(f, s) \<in> set (flush_rest reg L p)" using s(1) assms(3) by (simp add: flush_rest_def)
  with d have "dict_get (flush_rest reg L p) f = Some s" by simp
  with s(2) show ?thesis by (simp add: pend_def)
qed

lemma flush_rest_ok: "pend_ok a p \<Longrightarrow> pend_ok a (flush_rest reg L p)"
  by (auto simp: pend_ok_def flush_rest_def dict_like_def queued_def intro: distinct_map_filter)

subsection \<open>Running a batch\<close>

lemma run_batch_queued:
  assumes reg: "build_registry a k = Some (Inr reg)"
  shows "batch_ok a reg L b \<Longrightarrow> pend_ok a p \<Longrightarrow> \<forall>f \<in> queued p. L < depth_of reg (field_id f) \<Longrightarrow>
    pend_ok a (fst (run_batch a reg compute b (p, db)))
    \<and> (\<forall>f \<in> queued (fst (run_batch a reg compute b (p, db))). L < depth_of reg (field_id f))"
proof (induction b arbitrary: p db)
  case (Cons e b)
  obtain m fs s where e: "e = (m, (fs, s))" by (cases e) auto
  let ?db = "bulk_refresh_fields compute m s fs db"
  let ?p = "ctx_modified a reg ?db m s (cf_name ` set fs) False p"
  have fs: "set fs \<subseteq> set (computed_fields a m)" "\<forall>g \<in> set fs. depth_of reg (field_id g) = L"
    and b: "batch_ok a reg L b"
    using Cons.prems(1) unfolding batch_ok_def by (auto simp: e)
  have new: "f \<in> set (all_stored a) \<and> L < depth_of reg (field_id f)"
    if "b \<in> set (bindings_for reg m)" "trigger_fields b \<inter> cf_name ` set fs \<noteq> {}" "f = bind_field b" for b f
  proof -
    from that(2) obtain g where "g \<in> set fs" "cf_name g \<in> trigger_fields b" by blast
    with registry_orders [OF reg that(1), of g] fs that(3) have "L < depth_of reg (field_id f)" by auto
    with registry_own [OF reg that(1)] that(3) show ?thesis by simp
  qed
  have q: "f \<in> queued p \<or> (f \<in> set (all_stored a) \<and> L < depth_of reg (field_id f))" if "f \<in> queued ?p" for f
    using ctx_modified_queued [of a reg ?db m s "cf_name ` set fs" False p] that new by blast
  have "pend_ok a ?p"
    using Cons.prems(2) q ctx_modified_dict unfolding pend_ok_def by blast
  moreover have "\<forall>f \<in> queued ?p. L < depth_of reg (field_id f)" using Cons.prems(3) q by blast
  ultimately show ?case using Cons.IH [OF b, of ?p ?db] by (simp add: e Let_def)
qed simp

lemma run_batch_tracked:
  assumes reg: "build_registry a k = Some (Inr reg)" and wf: "wf_apps a" and rd: "reads_declared a gen compute"
  shows "batch_ok a reg L b \<Longrightarrow>
    \<forall>f x. stale a compute db f x \<longrightarrow> x \<in> pend p f \<or> batch_has b f x \<Longrightarrow>
    (\<lambda>(p', db'). tracked a compute p' db') (run_batch a reg compute b (p, db))"
proof (induction b arbitrary: p db)
  case Nil
  then show ?case by (simp add: tracked_def batch_has_def)
next
  case (Cons e b)
  obtain m fs s where e: "e = (m, (fs, s))" by (cases e) auto
  let ?db = "bulk_refresh_fields compute m s fs db"
  let ?p = "ctx_modified a reg ?db m s (cf_name ` set fs) False p"
  have fs: "set fs \<subseteq> set (computed_fields a m)" "\<forall>g \<in> set fs. depth_of reg (field_id g) = L"
    and b: "batch_ok a reg L b"
    using Cons.prems(1) unfolding batch_ok_def by (auto simp: e)
  have "x \<in> pend ?p f \<or> batch_has b f x" if "stale a compute ?db f x" for f x
    using refresh_keeps_tracked [OF reg wf rd fs that, of p]
  proof
    assume old: "stale a compute db f x \<and> \<not> (f \<in> set fs \<and> x \<in> s)"
    with Cons.prems(2) have "x \<in> pend p f \<or> batch_has (e # b) f x" by blast
    then show ?thesis
    proof
      assume "x \<in> pend p f"
      then show ?thesis using ctx_modified_keeps by blast
    next
      assume "batch_has (e # b) f x"
      with old show ?thesis by (auto simp: batch_has_def e)
    qed
  qed blast
  with Cons.IH [OF b, of ?db ?p] show ?case by (simp add: e Let_def)
qed

subsection \<open>The flush\<close>

definition levels_of :: "dep_registry \<Rightarrow> pending \<Rightarrow> nat set" where
  "levels_of reg p = (\<lambda>f. depth_of reg (field_id f)) ` queued p"

definition depth_bound :: "dep_registry \<Rightarrow> nat" where
  "depth_bound reg = Max (insert 0 (snd ` set (reg_depth reg)))"

lemma depth_bounded: "depth_of reg f \<le> depth_bound reg"
proof (cases "dict_get (reg_depth reg) f")
  case (Some d)
  then have "d \<in> snd ` set (reg_depth reg)" by (metis image_eqI map_of_SomeD snd_conv)
  then have "d \<le> depth_bound reg" unfolding depth_bound_def by (intro Max_ge) auto
  with Some show ?thesis by (simp add: depth_of_def)
qed (simp add: depth_of_def)

lemma flush_level_Min: "flush_level reg p = Min (levels_of reg p)"
  by (simp add: flush_level_def levels_of_def queued_def image_image case_prod_unfold)

lemma levels_empty [simp]: "levels_of reg p = {} \<longleftrightarrow> p = []"
  by (auto simp: levels_of_def queued_def)

text \<open>The step meets the contract of the queue for every registry that was built.\<close>

definition flushable :: "apps \<Rightarrow> nat \<Rightarrow> dep_registry \<Rightarrow> pending \<times> 'v database \<Rightarrow> bool" where
  "flushable a k reg s \<longleftrightarrow> build_registry a k = Some (Inr reg) \<and> wf_apps a \<and> pend_ok a (fst s)"

lemma flush_step_queue:
  assumes "flushable a k reg s" "levels_of reg (fst s) \<noteq> {}"
  shows "flushable a k reg (flush_step a reg compute s)
    \<and> (\<forall>f \<in> queued (fst (flush_step a reg compute s)). Min (levels_of reg (fst s)) < depth_of reg (field_id f))"
proof -
  obtain p db where s: "s = (p, db)" by (cases s)
  let ?L = "Min (levels_of reg p)"
  have reg: "build_registry a k = Some (Inr reg)" and wf: "wf_apps a" and ok: "pend_ok a p"
    using assms(1) by (auto simp: flushable_def s)
  have "finite (levels_of reg p)" by (simp add: levels_of_def queued_def)
  then have "\<forall>f \<in> queued p. ?L \<le> depth_of reg (field_id f)" by (auto simp: levels_of_def)
  then have "\<forall>f \<in> queued (flush_rest reg ?L p). ?L < depth_of reg (field_id f)"
    by (force simp: queued_def flush_rest_def)
  from run_batch_queued [OF reg flush_batch_ok(1) [OF wf ok] flush_rest_ok [OF ok] this]
  show ?thesis using reg wf by (simp add: flush_step_def s flush_level_Min flushable_def Let_def)
qed

interpretation flush_queue: level_queue "\<lambda>s. levels_of reg (fst s)" "flush_step a reg compute"
    "flushable a k reg" "depth_bound reg"
proof
  fix s :: "pending \<times> 'a database" and l
  assume s: "flushable a k reg s"
  show "l \<in> levels_of reg (fst s) \<Longrightarrow> l \<le> depth_bound reg" by (auto simp: levels_of_def depth_bounded)
  assume ne: "levels_of reg (fst s) \<noteq> {}"
  show "flushable a k reg (flush_step a reg compute s)" using flush_step_queue [OF s ne] by blast
  assume "l \<in> levels_of reg (fst (flush_step a reg compute s))"
  then obtain f where "f \<in> queued (fst (flush_step a reg compute s))" "l = depth_of reg (field_id f)"
    by (auto simp: levels_of_def)
  with flush_step_queue [OF s ne, of compute] show "Min (levels_of reg (fst s)) < l" by simp
qed

lemma flush_unroll:
  "fst ((flush_step a reg compute ^^ n) s) = [] \<Longrightarrow>
   \<forall>i < n. fst ((flush_step a reg compute ^^ i) s) \<noteq> [] \<Longrightarrow>
   flush a reg compute s = Some (snd ((flush_step a reg compute ^^ n) s))"
proof (induction n arbitrary: s)
  case 0
  then show ?case by (subst flush.simps) simp
next
  case (Suc n)
  have sw: "(flush_step a reg compute ^^ Suc i) s = (flush_step a reg compute ^^ i) (flush_step a reg compute s)" for i
    by (simp add: funpow_swap1)
  have "fst s \<noteq> []" using Suc.prems(2) by force
  moreover have "\<forall>i < n. fst ((flush_step a reg compute ^^ i) (flush_step a reg compute s)) \<noteq> []"
    using Suc.prems(2) sw by (metis Suc_less_eq)
  ultimately show ?case
    using Suc.IH [of "flush_step a reg compute s"] Suc.prems(1) unfolding sw by (subst flush.simps) simp
qed

lemma flush_step_tracked:
  assumes ok: "flushable a k reg s" and rd: "reads_declared a gen compute"
    and tr: "tracked a compute (fst s) (snd s)"
  shows "tracked a compute (fst (flush_step a reg compute s)) (snd (flush_step a reg compute s))"
proof -
  obtain p db where s: "s = (p, db)" by (cases s)
  let ?L = "flush_level reg p"
  have reg: "build_registry a k = Some (Inr reg)" and wf: "wf_apps a" and p: "pend_ok a p"
    using ok by (auto simp: flushable_def s)
  have "x \<in> pend (flush_rest reg ?L p) f \<or> batch_has (flush_batch reg ?L p) f x" if "stale a compute db f x" for f x
  proof -
    have x: "x \<in> pend p f" using tr that by (simp add: tracked_def s)
    show ?thesis
      using flush_batch_ok(2) [OF wf p x] flush_rest_pend [OF _ x] p unfolding pend_ok_def by blast
  qed
  then have "(\<lambda>(p', db'). tracked a compute p' db')
      (run_batch a reg compute (flush_batch reg ?L p) (flush_rest reg ?L p, db))"
    by (intro run_batch_tracked [OF reg wf rd flush_batch_ok(1) [OF wf p]]) blast
  then show ?thesis by (simp add: flush_step_def s Let_def case_prod_unfold)
qed

lemma flush_refreshes:
  assumes "flushable a k reg s" and rd: "reads_declared a gen compute"
    and "tracked a compute (fst s) (snd s)"
  shows "\<exists>db'. flush a reg compute s = Some db' \<and> (\<forall>f x. \<not> stale a compute db' f x)"
proof -
  obtain n where n: "levels_of reg (fst ((flush_step a reg compute ^^ n) s)) = {}"
    "\<forall>i < n. levels_of reg (fst ((flush_step a reg compute ^^ i) s)) \<noteq> {}
       \<and> flushable a k reg ((flush_step a reg compute ^^ i) s)"
    using assms(1) by (rule flush_queue.drains)
  have "tracked a compute (fst ((flush_step a reg compute ^^ n) s)) (snd ((flush_step a reg compute ^^ n) s))"
    by (rule flush_queue.kept_until_drained
          [where I = "\<lambda>s. tracked a compute (fst s) (snd s)", OF flush_step_tracked [OF _ rd] n(2) assms(3)])
  moreover have "flush a reg compute s = Some (snd ((flush_step a reg compute ^^ n) s))"
    by (rule flush_unroll) (use n in auto)
  ultimately show ?thesis using n(1) by (auto simp: tracked_def pend_def)
qed

subsection \<open>The unit of work\<close>

text \<open>
  What happens between the outermost \<open>with\<close> and its exit: the writes of the services, each
  declared the way \<open>core/services/mixins.py\<close> declares it, explicit refreshes, and nested blocks
  entered and left, with or without an exception.
\<close>

inductive uow_step ::
    "apps \<Rightarrow> dep_registry \<Rightarrow> (computed_field \<Rightarrow> 'v database \<Rightarrow> pk \<Rightarrow> 'v)
     \<Rightarrow> refresh_state \<times> 'v database \<Rightarrow> refresh_state \<times> 'v database \<Rightarrow> bool" for a reg compute where
  uow_modify:
    "writes a db db' W P U \<Longrightarrow> U \<inter> cf_name ` set (computed_fields a W) = {} \<Longrightarrow>
     p1 = (if has_relation_to_modify reg W U then ctx_modified a reg db W P U True (rs_pending s) else rs_pending s) \<Longrightarrow>
     uow_step a reg compute (s, db) (s\<lparr>rs_pending := ctx_modified a reg db' W P U False p1\<rparr>, db')"
| uow_create:
    "adds db db' W (inst_pks insts) \<Longrightarrow> insts_match a db' W insts \<Longrightarrow>
     uow_step a reg compute (s, db) (s\<lparr>rs_pending := ctx_created a reg db' W insts (rs_pending s)\<rparr>, db')"
| uow_delete:
    "m \<in> set (app_models a) \<Longrightarrow> removes a db db' D \<Longrightarrow> collector_law a m pks coll D \<Longrightarrow>
     uow_step a reg compute (s, db) (s\<lparr>rs_pending := ctx_deleted a reg db m pks coll (rs_pending s)\<rparr>, db')"
| uow_refresh:
    "ctx_refresh a m pks names (rs_pending s) = Some p' \<Longrightarrow>
     uow_step a reg compute (s, db) (s\<lparr>rs_pending := p'\<rparr>, db)"
| uow_enter: "uow_step a reg compute (s, db) (ctx_enter s, db)"
| uow_leave:
    "2 \<le> rs_depth s \<Longrightarrow> ctx_exit a reg compute raised s db = Some (s', db') \<Longrightarrow>
     uow_step a reg compute (s, db) (s', db')"

inductive uow_run ::
    "apps \<Rightarrow> dep_registry \<Rightarrow> (computed_field \<Rightarrow> 'v database \<Rightarrow> pk \<Rightarrow> 'v)
     \<Rightarrow> refresh_state \<times> 'v database \<Rightarrow> refresh_state \<times> 'v database \<Rightarrow> bool" for a reg compute where
  uow_start: "uow_run a reg compute s s"
| uow_more: "uow_run a reg compute s t \<Longrightarrow> uow_step a reg compute t u \<Longrightarrow> uow_run a reg compute s u"

text \<open>Only declared fields are ever queued.\<close>

lemma resolve_pend_ok:
  assumes reg: "build_registry a k = Some (Inr reg)" and ok: "pend_ok a p"
    and bs: "set bs \<subseteq> set (bindings_for reg m)"
    and roots: "\<forall>b \<in> set bs. Some ` query_roots a db b pks \<subseteq> ctx_roots a db b pks insts"
  shows "pend_ok a (ctx_resolve a db bs pks insts p)"
proof -
  have "bind_field ` set bs \<subseteq> set (all_stored a)" using registry_own [OF reg] bs by blast
  then show ?thesis
    using ctx_resolve_spec(3,4) [OF roots, of p] ok unfolding pend_ok_def by blast
qed

lemma resolve_query_ok:
  "build_registry a k = Some (Inr reg) \<Longrightarrow> pend_ok a p \<Longrightarrow> set bs \<subseteq> set (bindings_for reg m) \<Longrightarrow>
   pend_ok a (ctx_resolve a db bs pks None p)"
  by (rule resolve_pend_ok, assumption, assumption, assumption, rule ballI, rule ctx_roots_query)

lemma modified_pend_ok:
  "build_registry a k = Some (Inr reg) \<Longrightarrow> pend_ok a p \<Longrightarrow> pend_ok a (ctx_modified a reg db m pks U before p)"
  unfolding ctx_modified_def by (cases "pks = {} \<or> U = {}") (auto intro!: resolve_query_ok [of a k reg p _ m])

lemma existence_pend_ok:
  "build_registry a k = Some (Inr reg) \<Longrightarrow> pend_ok a p \<Longrightarrow> pend_ok a (existence_changed a reg db m pks None p)"
  unfolding existence_changed_def by (rule resolve_query_ok) auto

lemma stored_in_all: "wf_apps a \<Longrightarrow> f \<in> set (computed_fields a m) \<Longrightarrow> f \<in> set (all_stored a)"
proof -
  assume "wf_apps a" and f: "f \<in> set (computed_fields a m)"
  then have "m \<in> set (app_models a)" unfolding wf_apps_def by blast
  with f show ?thesis by (auto simp: all_stored_def)
qed

lemma update_pend_ok: "pend_ok a p \<Longrightarrow> f \<in> set (all_stored a) \<Longrightarrow> pend_ok a (pending_update f pks p)"
  by (simp add: pend_ok_def)

lemma fold_pend_ok:
  "(\<And>e q. e \<in> set es \<Longrightarrow> pend_ok a q \<Longrightarrow> pend_ok a (G e q)) \<Longrightarrow> pend_ok a q \<Longrightarrow> pend_ok a (fold G es q)"
  by (induction es arbitrary: q) auto

lemma created_pend_ok:
  assumes reg: "build_registry a k = Some (Inr reg)" and wf: "wf_apps a" and ok: "pend_ok a p"
    and im: "insts_match a db m insts"
  shows "pend_ok a (ctx_created a reg db m insts p)"
proof -
  let ?insts = "filter (\<lambda>i. inst_pk i \<noteq> None) insts"
  let ?P = "inst_pks ?insts"
  let ?q = "fold (\<lambda>f q. pending_update f ?P q) (computed_fields a m) p"
  let ?bs = "filter (\<lambda>b. on_existence b \<and> \<not> is_local b) (bindings_for reg m)"
  have im': "insts_match a db m ?insts" using im by (auto simp: insts_match_def)
  have fields: "set (computed_fields a m) \<subseteq> set (all_stored a)" using stored_in_all [OF wf] by blast
  have q: "pend_ok a ?q" using fields by (intro fold_pend_ok ok update_pend_ok) auto
  have roots: "\<forall>b \<in> set ?bs. Some ` query_roots a db b ?P \<subseteq> ctx_roots a db b ?P (Some ?insts)"
    using shortcut_roots [OF reg wf _ im'] by auto
  have bs: "set ?bs \<subseteq> set (bindings_for reg m)" by auto
  have "pend_ok a (ctx_resolve a db ?bs ?P (Some ?insts) ?q)" by (rule resolve_pend_ok [OF reg q bs roots])
  moreover have "ctx_created a reg db m insts p = (if ?insts = [] then p else ctx_resolve a db ?bs ?P (Some ?insts) ?q)"
    by (simp only: ctx_created_def existence_changed_def Let_def flip: inst_pks_def)
  ultimately show ?thesis using ok by (simp only: split: if_split) blast
qed

lemma deleted_pend_ok:
  assumes reg: "build_registry a k = Some (Inr reg)" and ok: "pend_ok a p"
  shows "pend_ok a (ctx_deleted a reg db m pks coll p)"
proof -
  have "pend_ok a (delete_data a reg db m pks c e q)" "pend_ok a (delete_fast a reg db c e q)"
    "pend_ok a (delete_update a reg db c u q)" if "pend_ok a q" for c e u q
    using that by (auto simp: delete_data_def delete_fast_def delete_update_def existence_pend_ok [OF reg]
        modified_pend_ok [OF reg] split: prod.splits)
  then show ?thesis
    using ok unfolding ctx_deleted_def Let_def
    by (auto intro!: fold_pend_ok existence_pend_ok [OF reg] split: option.splits)
qed

lemma refresh_spec:
  "wf_apps a \<Longrightarrow> ctx_refresh a m pks names p = Some p' \<Longrightarrow> pend_ok a p \<Longrightarrow> pend_ok a p' \<and> pend p f \<subseteq> pend p' f"
proof (induction a m pks names p rule: ctx_refresh.induct)
  case (2 a m pks name names p)
  then obtain g where g: "stored_named a m name = Some g"
    "ctx_refresh a m pks names (pending_update g pks p) = Some p'" by (auto split: option.splits)
  have "g \<in> set (computed_fields a m)" using g(1) find_Some_iff_mem by (fastforce simp: stored_named_def)
  then have "g \<in> set (all_stored a)" by (rule stored_in_all [OF 2(2)])
  with "2.IH" [OF g(1) 2(2) g(2)] 2(4) show ?case by (auto intro: update_pend_ok)
qed simp

text \<open>Inside the unit of work everything stale is pending.\<close>

definition uow_inv :: "apps \<Rightarrow> (computed_field \<Rightarrow> 'v database \<Rightarrow> pk \<Rightarrow> 'v) \<Rightarrow> refresh_state \<times> 'v database \<Rightarrow> bool" where
  "uow_inv a compute s \<longleftrightarrow> 1 \<le> rs_depth (fst s) \<and> pend_ok a (rs_pending (fst s))
     \<and> tracked a compute (rs_pending (fst s)) (snd s)"

lemma uow_step_inv:
  assumes reg: "build_registry a k = Some (Inr reg)" and wf: "wf_apps a" and rd: "reads_declared a gen compute"
    and "uow_step a reg compute s t" "uow_inv a compute s"
  shows "uow_inv a compute t"
  using assms(4,5)
proof (induction rule: uow_step.induct)
  case (uow_modify db db' W P U p1 s)
  then have s: "1 \<le> rs_depth s" "pend_ok a (rs_pending s)" "tracked a compute (rs_pending s) db"
    by (simp_all add: uow_inv_def)
  have "pend_ok a p1" using s(2) by (simp add: uow_modify(3) modified_pend_ok [OF reg])
  then have "pend_ok a (ctx_modified a reg db' W P U False p1)" by (rule modified_pend_ok [OF reg])
  with s(1) modified_keeps_tracked [OF reg wf rd s(3) uow_modify(1-3)] show ?case by (simp add: uow_inv_def)
next
  case (uow_create db db' W insts s)
  then have s: "1 \<le> rs_depth s" "pend_ok a (rs_pending s)" "tracked a compute (rs_pending s) db"
    by (simp_all add: uow_inv_def)
  from s(1) created_pend_ok [OF reg wf s(2) uow_create(2)]
    created_keeps_tracked [OF reg wf rd s(3) uow_create(1,2)]
  show ?case by (simp add: uow_inv_def)
next
  case (uow_delete m db db' D pks coll s)
  then have s: "1 \<le> rs_depth s" "pend_ok a (rs_pending s)" "tracked a compute (rs_pending s) db"
    by (simp_all add: uow_inv_def)
  from s(1) deleted_pend_ok [OF reg s(2)] deleted_keeps_tracked [OF reg wf rd s(3) uow_delete(1-3)]
  show ?case by (simp add: uow_inv_def)
next
  case (uow_refresh m pks names s p' db)
  with refresh_spec [OF wf uow_refresh(1)] show ?case by (fastforce simp: uow_inv_def tracked_def)
next
  case (uow_enter s db)
  then show ?case by (simp add: uow_inv_def ctx_enter_def)
next
  case (uow_leave s raised db s' db')
  then show ?case by (auto simp: uow_inv_def ctx_exit_def Let_def split: if_splits)
qed

lemma uow_run_inv:
  assumes "build_registry a k = Some (Inr reg)" "wf_apps a" "reads_declared a gen compute"
  shows "uow_run a reg compute s t \<Longrightarrow> uow_inv a compute s \<Longrightarrow> uow_inv a compute t"
  by (induction rule: uow_run.induct) (auto intro: uow_step_inv [OF assms])

end
