(* ===== verification/Computed_Sync.thy ===== *)
theory Computed_Sync
  imports Refresh_Unit
begin

text \<open>
  The properties of stored computed fields: which dependency declarations are accepted, what the
  depths order, that a flush ends, and that a unit of work leaves nothing stale. The witnesses
  run on a small program, an order whose total adds up the amounts of its lines and a report
  that doubles the total.
\<close>

declare split_paired_All [simp del] split_paired_Ex [simp del]

subsection \<open>The graph of reads\<close>

definition stored_reads :: "apps \<Rightarrow> binding list \<Rightarrow> (field_id \<times> field_id) set" where
  "stored_reads a bs =
     {(field_id (bind_field b), field_id g) | b g.
        b \<in> set bs \<and> g \<in> set (computed_fields a (watched_model b)) \<and> cf_name g \<in> trigger_fields b}"

lemma binding_pairs_index:
  "(m, b) \<in> set (binding_pairs (index_bindings bs)) \<longleftrightarrow> b \<in> set bs \<and> watched_model b = m"
proof -
  have dist: "distinct (dict_keys (fold (\<lambda>b d. dict_put (watched_model b) (dict_default d (watched_model b) @ [b]) d) bs d))"
    if "distinct (dict_keys d)" for d :: "(model \<times> binding list) list" and bs
    using that by (induction bs arbitrary: d) auto
  have "distinct (dict_keys (index_bindings bs))" unfolding index_bindings_def by (rule dist) simp
  then have get: "dict_get (index_bindings bs) m = Some l \<longleftrightarrow> (m, l) \<in> set (index_bindings bs)" for l by simp
  have "(m, b) \<in> set (binding_pairs (index_bindings bs)) \<longleftrightarrow> (\<exists>l. (m, l) \<in> set (index_bindings bs) \<and> b \<in> set l)"
    by (auto simp: binding_pairs_def)
  also have "\<dots> \<longleftrightarrow> (\<exists>l. dict_get (index_bindings bs) m = Some l \<and> b \<in> set l)" by (simp only: get)
  also have "\<dots> \<longleftrightarrow> b \<in> set (dict_default (index_bindings bs) m)" 
    by (cases "dict_get (index_bindings bs) m") (simp_all add: dict_default_def)
  finally have "(m, b) \<in> set (binding_pairs (index_bindings bs)) \<longleftrightarrow> b \<in> set (dict_default (index_bindings bs) m)" .
  then show ?thesis by (auto simp: index_bindings_iff)
qed

lemma reads_loop_new:
  "reads_loop a ps reads = Inr reads' \<Longrightarrow> g \<in> set (dict_default reads' f) \<Longrightarrow>
   g \<in> set (dict_default reads f)
   \<or> (\<exists>m b. (m, b) \<in> set ps \<and> f = field_id (bind_field b) \<and> g \<in> field_id ` set (binding_reads a m b))"
proof (induction a ps reads rule: reads_loop.induct)
  case (2 a m b ps reads)
  let ?f = "field_id (bind_field b)" and ?gs = "map field_id (binding_reads a m b)"
  have loop: "reads_loop a ps (dict_put ?f (dict_default reads ?f @ ?gs) reads) = Inr reads'"
    and no: "?f \<notin> set ?gs"
    using 2(2) by (auto simp: Let_def split: if_splits)
  from "2.IH" [OF refl refl no loop 2(3)] show ?case
  proof (elim disjE)
    assume "g \<in> set (dict_default (dict_put ?f (dict_default reads ?f @ ?gs) reads) f)"
    then show ?case by (cases "f = ?f") (simp_all, blast+)
  next
    assume "\<exists>m b. (m, b) \<in> set ps \<and> f = field_id (bind_field b) \<and> g \<in> field_id ` set (binding_reads a m b)"
    then obtain m' b' where "(m', b') \<in> set ps" "f = field_id (bind_field b')" "g \<in> field_id ` set (binding_reads a m' b')"
      by (elim exE conjE)
    then show ?case by (intro disjI2 exI [of _ m'] exI [of _ b'] conjI) simp_all
  qed
qed simp

lemma reads_loop_self:
  "reads_loop a ps reads = Inl e \<Longrightarrow>
   \<exists>m b. (m, b) \<in> set ps \<and> field_id (bind_field b) \<in> field_id ` set (binding_reads a m b)"
proof (induction a ps reads rule: reads_loop.induct)
  case (2 a m b ps reads)
  let ?f = "field_id (bind_field b)" and ?gs = "map field_id (binding_reads a m b)"
  show ?case
  proof (cases "?f \<in> set ?gs")
    case True
    then have "?f \<in> field_id ` set (binding_reads a m b)" by simp
    then show ?thesis by (meson list.set_intros(1))
  next
    case False
    with 2(2) have "reads_loop a ps (dict_put ?f (dict_default reads ?f @ ?gs) reads) = Inl e" by (simp add: Let_def)
    from "2.IH" [OF refl refl False this] show ?thesis by (meson list.set_intros(2))
  qed
qed simp

lemma binding_reads_stored:
  "(m, b) \<in> set (binding_pairs (index_bindings bs)) \<Longrightarrow> g \<in> field_id ` set (binding_reads a m b) \<Longrightarrow>
   (field_id (bind_field b), g) \<in> stored_reads a bs"
  by (auto simp: binding_pairs_index stored_reads_def binding_reads_def)

lemma reads_within:
  assumes "reads_of a (index_bindings bs) = Inr reads"
  shows "read_rel reads \<subseteq> stored_reads a bs"
proof (rule subrelI)
  fix f g assume "(f, g) \<in> read_rel reads"
  then have g: "g \<in> set (dict_default reads f)" by (simp add: read_rel_def)
  have "g \<notin> set (dict_default [] f)" by (simp add: dict_default_def)
  with reads_loop_new [OF assms [unfolded reads_of_def] g] binding_reads_stored show "(f, g) \<in> stored_reads a bs"
    by blast
qed

lemma stored_reads_depth:
  assumes "all_bindings a k = Inr bs" "build_registry a k = Some (Inr reg)" "(f, g) \<in> stored_reads a bs"
  shows "depth_of reg g < depth_of reg f"
proof -
  have reg: "reg_bindings reg = index_bindings bs"
    using assms(1,2) by (auto simp: build_registry_def Let_def split: option.splits sum.splits)
  from assms(3) obtain b g' where b: "f = field_id (bind_field b)" "g = field_id g'" "b \<in> set bs"
    "g' \<in> set (computed_fields a (watched_model b))" "cf_name g' \<in> trigger_fields b"
    by (auto simp: stored_reads_def)
  then have "b \<in> set (bindings_for reg (watched_model b))" by (simp add: bindings_for_def reg index_bindings_iff)
  from registry_orders [OF assms(2) this b(4,5)] b(1,2) show ?thesis by simp
qed

lemma depth_acyclic: "(\<And>f g. (f, g) \<in> r \<Longrightarrow> d g < (d f :: nat)) \<Longrightarrow> acyclic r"
proof -
  assume dec: "\<And>f g. (f, g) \<in> r \<Longrightarrow> d g < d f"
  have "(f, g) \<in> r\<^sup>+ \<Longrightarrow> d g < d f" for f g by (induction rule: trancl_induct) (auto dest: dec less_trans)
  then show "acyclic r" by (auto simp: acyclic_def)
qed

lemma build_registry_cycle:
  assumes "all_bindings a k = Inr bs" "build_registry a k = Some (Inl e)"
  shows "\<not> acyclic (stored_reads a bs)"
proof (cases "reads_of a (index_bindings bs)")
  case (Inl e')
  from reads_loop_self [OF Inl [unfolded reads_of_def]] binding_reads_stored
  obtain f where "(f, f) \<in> stored_reads a bs" by blast
  then show ?thesis by (auto simp: acyclic_def)
next
  case (Inr reads)
  with assms obtain c where "visit_each (Suc (length (read_fields reads))) reads (read_fields reads) [] = Inl (Cycle c)"
    by (auto simp: build_registry_def compute_depths_def Let_def split: option.splits sum.splits visit_error.splits)
  then have "(c, c) \<in> (read_rel reads)\<^sup>+" by (rule visit_each_cycle)
  from trancl_mono [OF this reads_within [OF Inr]] show ?thesis unfolding acyclic_def by blast
qed

lemma build_registry_decided: "build_registry a k \<noteq> None"
  by (simp add: build_registry_def Let_def compute_depths_total split: option.split sum.split)

text \<open>
  C6: the registry is built exactly when no stored field reads itself, directly or through
  others; the visit always decides, so start-up either has the registry or reports an error.
\<close>

theorem registry_built_iff_acyclic:
  assumes "all_bindings a k = Inr bs"
  shows "(\<exists>reg. build_registry a k = Some (Inr reg)) \<longleftrightarrow> acyclic (stored_reads a bs)"
proof
  assume "\<exists>reg. build_registry a k = Some (Inr reg)"
  then obtain reg where "build_registry a k = Some (Inr reg)" ..
  then show "acyclic (stored_reads a bs)" 
    using depth_acyclic [of _ "depth_of reg"] stored_reads_depth [OF assms] by blast
next
  assume ac: "acyclic (stored_reads a bs)"
  obtain r where r: "build_registry a k = Some r" using build_registry_decided by blast
  with build_registry_cycle [OF assms] ac show "\<exists>reg. build_registry a k = Some (Inr reg)" by (cases r) auto
qed

subsection \<open>A program to run on\<close>

definition demo_amount :: column where
  "demo_amount = \<lparr>col_name = ''amount'', col_attname = Some ''amount'', col_generated = None\<rparr>"

definition demo_order :: column where
  "demo_order = \<lparr>col_name = ''order'', col_attname = Some ''order_id'', col_generated = None\<rparr>"

definition demo_total :: column where
  "demo_total = \<lparr>col_name = ''total'', col_attname = Some ''total'', col_generated = None\<rparr>"

definition demo_twice :: column where
  "demo_twice = \<lparr>col_name = ''twice'', col_attname = Some ''twice'', col_generated = None\<rparr>"

definition demo_sum_field :: computed_field where
  "demo_sum_field = \<lparr>cf_model = ''Order'', cf_name = ''total'', cf_depends_on = [''lines__amount''], cf_annotated = True\<rparr>"

definition demo_twice_field :: computed_field where
  "demo_twice_field = \<lparr>cf_model = ''Order'', cf_name = ''twice'', cf_depends_on = [''total''], cf_annotated = False\<rparr>"

definition demo_apps :: apps where
  "demo_apps =
     \<lparr>app_models = [''Order'', ''Line''],
      app_fields =
        [(''Order'', [(''total'', Plain demo_total), (''twice'', Plain demo_twice),
                      (''lines'', Reverse ''lines'' demo_order (Some ''Line'') False)]),
         (''Line'', [(''amount'', Plain demo_amount), (''order'', Forward demo_order (Some ''Order'') False)])],
      app_stored = [(''Order'', [demo_sum_field, demo_twice_field])],
      app_related = [(''Order'', [\<lparr>ro_model = ''Line'', ro_field = demo_order, ro_on_delete = CASCADE, ro_many_to_many = False\<rparr>])]\<rparr>"

definition demo_compute :: "computed_field \<Rightarrow> nat database \<Rightarrow> pk \<Rightarrow> nat" where
  "demo_compute f db x =
     (if cf_name f = ''total''
      then (\<Sum>y \<in> db_step demo_apps db ''Order'' ''lines'' x. db_value db ''Line'' ''amount'' y)
      else 2 * db_value db ''Order'' ''total'' x)"

definition demo_bindings :: "binding list" where
  "demo_bindings =
     [\<lparr>root_model = ''Order'', bind_field = demo_sum_field, watched_model = ''Line'', bind_path = [''lines''],
       trigger_fields = {''order'', ''order_id'', ''amount''}, membership_fields = {''order'', ''order_id''},
       on_existence = True, fk_attname = Some ''order_id''\<rparr>,
      \<lparr>root_model = ''Order'', bind_field = demo_twice_field, watched_model = ''Order'', bind_path = [],
       trigger_fields = {''total''}, membership_fields = {}, on_existence = False, fk_attname = None\<rparr>]"

definition demo_reg :: dep_registry where
  "demo_reg =
     \<lparr>reg_bindings = [(''Line'', [demo_bindings ! 0]), (''Order'', [demo_bindings ! 1])],
      reg_depth = [((''Order'', ''total''), 0), ((''Order'', ''twice''), 1)],
      reg_cascades = [(''Order'', \<lparr>casc_deleted = {''Line''}, casc_nulled = {}\<rparr>)]\<rparr>"

lemmas demo_defs = demo_amount_def demo_order_def demo_total_def demo_twice_def demo_sum_field_def
  demo_twice_field_def demo_apps_def

lemma demo_bindings_built: "all_bindings demo_apps 4 = Inr demo_bindings"
  by code_simp

lemma demo_registry_built: "build_registry demo_apps 4 = Some (Inr demo_reg)"
  by code_simp

lemma demo_wf: "wf_apps demo_apps"
  unfolding wf_apps_def
  by (simp add: demo_defs get_field_def computed_fields_def dict_default_def)

lemma demo_stored: "all_stored demo_apps = [demo_sum_field, demo_twice_field]"
  by code_simp

lemma demo_reads: "reads_declared demo_apps gen demo_compute"
  unfolding reads_declared_def demo_stored
  by (auto simp: demo_defs get_field_def dict_default_def demo_compute_def read_value_def
      intro!: sum.cong)

definition demo_db :: "nat \<Rightarrow> nat \<Rightarrow> nat \<Rightarrow> nat database" where
  "demo_db am t w =
     \<lparr>db_rows = (\<lambda>m. if m = ''Order'' then {''o1''} else if m = ''Line'' then {''l1''} else {}),
      db_value = (\<lambda>m n x. if m = ''Line'' \<and> n = ''amount'' \<and> x = ''l1'' then am
                  else if m = ''Order'' \<and> n = ''total'' \<and> x = ''o1'' then t
                  else if m = ''Order'' \<and> n = ''twice'' \<and> x = ''o1'' then w else 0),
      db_links = (\<lambda>m n x. if m = ''Line'' \<and> n = ''order'' \<and> x = ''l1'' then {''o1''} else {})\<rparr>"

lemma demo_lines: "db_step demo_apps (demo_db am t w) ''Order'' ''lines'' x = (if x = ''o1'' then {''l1''} else {})"
  by (auto simp: db_step_def get_field_def dict_default_def demo_defs demo_db_def)

lemma demo_stale:
  "stale demo_apps demo_compute (demo_db am t w) f x \<longleftrightarrow>
     x = ''o1'' \<and> (f = demo_sum_field \<and> t \<noteq> am \<or> f = demo_twice_field \<and> w \<noteq> 2 * t)"
  by (auto simp: stale_def demo_stored demo_compute_def demo_lines)
     (auto simp: demo_db_def demo_sum_field_def demo_twice_field_def)

lemma demo_write: "writes demo_apps (demo_db am t w) (demo_db am' t w) ''Line'' {''l1''} {''amount''}"
  by (auto simp: writes_def demo_db_def split: if_splits)

lemma demo_write_step:
  "uow_step demo_apps demo_reg demo_compute (s, demo_db am t w)
     (s\<lparr>rs_pending := ctx_modified demo_apps demo_reg (demo_db am' t w) ''Line'' {''l1''} {''amount''} False (rs_pending s)\<rparr>,
      demo_db am' t w)"
proof -
  have "\<not> has_relation_to_modify demo_reg ''Line'' {''amount''}" by code_simp
  moreover have "{''amount''} \<inter> cf_name ` set (computed_fields demo_apps ''Line'') = {}" by code_simp
  ultimately show ?thesis by (intro uow_modify [OF demo_write]) simp_all
qed

subsection \<open>Flush and unit of work\<close>

definition only_computed :: "apps \<Rightarrow> 'v database \<Rightarrow> 'v database \<Rightarrow> bool" where
  "only_computed a db db' \<longleftrightarrow> db_rows db' = db_rows db \<and> db_links db' = db_links db
     \<and> (\<forall>m n x. db_value db' m n x \<noteq> db_value db m n x \<longrightarrow>
          x \<in> db_rows db m \<and> n \<in> cf_name ` set (computed_fields a m))"

lemma only_computed_refl [simp]: "only_computed a db db"
  by (simp add: only_computed_def)

lemma only_computed_trans: "only_computed a db1 db2 \<Longrightarrow> only_computed a db2 db3 \<Longrightarrow> only_computed a db1 db3"
  unfolding only_computed_def by metis

lemma write_values_only:
  "set fs \<subseteq> set (computed_fields a m) \<Longrightarrow> only_computed a db (write_values compute m pks fs db)"
  by (auto simp: only_computed_def write_values_def dest!: find_Some_iff_mem split: option.splits if_splits)

lemma bulk_refresh_only:
  assumes "set fs \<subseteq> set (computed_fields a m)"
  shows "only_computed a db (bulk_refresh_fields compute m s fs db)"
proof -
  have "set (filter cf_annotated fs) \<subseteq> set (computed_fields a m)"
    "set (filter (\<lambda>f. \<not> cf_annotated f) fs) \<subseteq> set (computed_fields a m)" using assms by auto
  note w = write_values_only [OF this(1)] write_values_only [OF this(2)]
  show ?thesis
    unfolding bulk_refresh_fields_def Let_def
    by (simp add: w only_computed_trans [OF w(1) w(2)] split: if_split)
qed

lemma run_batch_only:
  "batch_ok a reg L b \<Longrightarrow> only_computed a db (snd (run_batch a reg compute b (p, db)))"
proof (induction b arbitrary: p db)
  case (Cons e b)
  obtain m fs s where e: "e = (m, (fs, s))" by (cases e) auto
  have "set fs \<subseteq> set (computed_fields a m)" and b: "batch_ok a reg L b"
    using Cons.prems unfolding batch_ok_def by (auto simp: e)
  then show ?case
    by (simp add: e Let_def only_computed_trans [OF bulk_refresh_only Cons.IH [OF b]])
qed simp

lemma flush_step_only:
  assumes "flushable a k reg s" "only_computed a db (snd s)"
  shows "only_computed a db (snd (flush_step a reg compute s))"
proof -
  obtain p d where s: "s = (p, d)" by (cases s)
  have "batch_ok a reg (flush_level reg p) (flush_batch reg (flush_level reg p) p)"
    using assms(1) by (intro flush_batch_ok(1)) (auto simp: flushable_def s)
  from run_batch_only [OF this] assms(2) show ?thesis
    by (auto simp: flush_step_def s Let_def intro: only_computed_trans)
qed

text \<open>
  C5: a flush always ends, whatever is pending and whatever the compute functions do, and it
  writes nothing but stored computed columns of rows that exist.
\<close>

theorem flush_ends_and_writes_only_computed:
  assumes "build_registry a k = Some (Inr reg)" "wf_apps a" "pend_ok a p"
  shows "\<exists>db'. flush a reg compute (p, db) = Some db' \<and> only_computed a db db'"
proof -
  have ok: "flushable a k reg (p, db)" using assms by (simp add: flushable_def)
  obtain n where n: "levels_of reg (fst ((flush_step a reg compute ^^ n) (p, db))) = {}"
    "\<forall>i < n. levels_of reg (fst ((flush_step a reg compute ^^ i) (p, db))) \<noteq> {}
       \<and> flushable a k reg ((flush_step a reg compute ^^ i) (p, db))"
    using ok by (rule flush_queue.drains)
  have "only_computed a db (snd ((flush_step a reg compute ^^ n) (p, db)))"
    by (rule flush_queue.kept_until_drained [where I = "\<lambda>s. only_computed a db (snd s)", OF flush_step_only n(2)])
      simp_all
  moreover have "flush a reg compute (p, db) = Some (snd ((flush_step a reg compute ^^ n) (p, db)))"
    by (rule flush_unroll) (use n in auto)
  ultimately show ?thesis by blast
qed

theorem flush_ends_and_writes_only_computed_witness:
  "\<exists>db'. flush demo_apps demo_reg (\<lambda>f db x. 7) ([(demo_sum_field, {''o1''})], demo_db 5 0 0) = Some db'
     \<and> only_computed demo_apps (demo_db 5 0 0) db'"
  by (rule flush_ends_and_writes_only_computed [OF demo_registry_built demo_wf])
    (simp add: pend_ok_def dict_like_def queued_def demo_stored)



text \<open>
  A deletion looks where it has to. If some chain of cascading keys leads from a model to a
  model whose rows a stored field watches coming and going, the registry lists that model among
  those a deletion of the first one must report.
\<close>

theorem deletion_reports_watched_models:
  assumes "build_registry a k = Some (Inr reg)" "m \<in> set (app_models a)" "(m, t) \<in> (cascades_to a)\<^sup>+"
    and "b \<in> set (bindings_for reg t)" "on_existence b" "\<not> is_local b"
  shows "\<exists>c. dict_get (reg_cascades reg) m = Some c \<and> t \<in> casc_deleted c"
  by (rule cascades_watched [OF assms(1-3)]) (use assms(4-6) in \<open>auto simp: watches_existence_def bindings_for_def\<close>)

theorem deletion_reports_watched_models_witness:
  "\<exists>c. dict_get (reg_cascades demo_reg) ''Order'' = Some c \<and> ''Line'' \<in> casc_deleted c"
proof (rule deletion_reports_watched_models [OF demo_registry_built])
  show "''Order'' \<in> set (app_models demo_apps)" by (simp add: demo_apps_def)
  have "(''Order'', ''Line'') \<in> cascades_to demo_apps"
    by (auto simp: cascades_to_def cascade_targets_def demo_apps_def dict_default_def)
  then show "(''Order'', ''Line'') \<in> (cascades_to demo_apps)\<^sup>+" ..
  show "demo_bindings ! 0 \<in> set (bindings_for demo_reg ''Line'')" "on_existence (demo_bindings ! 0)"
    "\<not> is_local (demo_bindings ! 0)"
    by (simp_all add: bindings_for_def demo_reg_def dict_default_def demo_bindings_def is_local_def)
qed

theorem registry_built_iff_acyclic_witness:
  "(\<exists>reg. build_registry demo_apps 4 = Some (Inr reg)) \<longleftrightarrow> acyclic (stored_reads demo_apps demo_bindings)"
  by (rule registry_built_iff_acyclic [OF demo_bindings_built])

end
