(* ===== verification/Service_Values.thy ===== *)
theory Service_Values
  imports Totem_Prelude
begin

text \<open>
  The service layer up to the database: its errors (\<open>core/services/exceptions.py\<close>), the
  registry of the services (\<open>registry.py\<close>), and how a validated input becomes the values a
  write stores (\<open>base.py\<close>, the first half of \<open>mixins.py\<close>): the values taken from the schema,
  the defaults of what was left out, the checks of each field and the relations, resolved
  through the service of the related model so that a record the acting user may not read
  cannot be linked to.
\<close>

subsection \<open>Errors\<close>

datatype messages = One string | Several "string list"

definition NON_FIELD_ERRORS :: string where
  "NON_FIELD_ERRORS = ''__all__''"

type_synonym service_error = "(string \<times> string list) list"

fun message_list :: "messages \<Rightarrow> string list" where
  "message_list (One s) = [s]"
| "message_list (Several ss) = ss"

text \<open>The two ways to build one: from a dictionary, or from messages and a key.\<close>

definition service_error_dict :: "(string \<times> messages) list \<Rightarrow> service_error" where
  "service_error_dict d = map (\<lambda>(k, v). (k, message_list v)) d"

definition service_error :: "messages \<Rightarrow> string option \<Rightarrow> service_error" where
  "service_error ms key = [(case key of None \<Rightarrow> NON_FIELD_ERRORS | Some k \<Rightarrow> k, message_list ms)]"

definition add_message :: "messages \<Rightarrow> string option \<Rightarrow> service_error \<Rightarrow> service_error" where
  "add_message ms key e =
     (let k = (case key of None \<Rightarrow> NON_FIELD_ERRORS | Some k \<Rightarrow> k);
          old = (case dict_get e k of None \<Rightarrow> [] | Some l \<Rightarrow> l)
      in dict_put k (old @ message_list ms) e)"

definition relation_not_found :: "string \<Rightarrow> string \<Rightarrow> service_error" where
  "relation_not_found msg key = service_error (One msg) (Some key)"

text \<open>An entry of a multi-error is keyed by a position in the batch, a name or a pk.\<close>

datatype entry_key = At nat | Named string

datatype entry = Messages "string list" | Error service_error

record multi_error =
  me_errors :: "(entry_key \<times> entry) list"
  me_code :: "string option"

definition multi_error :: "(entry_key \<times> entry) list \<Rightarrow> string \<Rightarrow> multi_error" where
  "multi_error es c = \<lparr>me_errors = es, me_code = Some c\<rparr>"

definition add_error :: "entry_key \<Rightarrow> service_error \<Rightarrow> multi_error \<Rightarrow> multi_error" where
  "add_error k e m = m\<lparr>me_errors := dict_put k (Error e) (me_errors m)\<rparr>"

datatype rendered = RMessages "string list" | RFields "(string \<times> string list) list"

definition multi_dict :: "multi_error \<Rightarrow> (entry_key \<times> rendered) list" where
  "multi_dict m = map (\<lambda>(k, v). (k, case v of Error e \<Rightarrow> RFields e | Messages l \<Rightarrow> RMessages l)) (me_errors m)"

subsection \<open>Models, values and records\<close>

datatype val = Null | Str string | Num int | Ref string string | Many "val list"

record field_meta =
  fm_name :: string
  fm_is_relation :: bool
  fm_concrete :: bool
  fm_many_to_many :: bool
  fm_null :: bool
  fm_foreign_key :: bool
  fm_m2m_field :: bool
  fm_related :: "string option"

record model_meta =
  mm_label :: string
  mm_fields :: "field_meta list"

definition meta_field :: "model_meta \<Rightarrow> string \<Rightarrow> field_meta option" where
  "meta_field m name = find (\<lambda>f. fm_name f = name) (mm_fields m)"

text \<open>
  What the environment of a unit of work answers: the services registered, the rows of each
  model, which of them the access rules let the acting user read, and \<open>to_python\<close> of the
  primary key, \<open>None\<close> being its \<open>ValidationError\<close>.
\<close>

record environment =
  env_services :: "(string \<times> string) list"
  env_rows :: "string \<Rightarrow> string list"
  env_readable :: "string \<Rightarrow> string \<Rightarrow> bool"
  env_to_python :: "string \<Rightarrow> val \<Rightarrow> string option"

text \<open>What a service operation raises.\<close>

datatype failure =
    Invalid multi_error
  | UnknownField string
  | NoService string
  | NotASchema string string
  | Denied string
  | BadConfig "string list"
  | NoAttribute string
  | DatabaseRaised string

subsection \<open>The registry of services\<close>

type_synonym service_registry = "(string \<times> string) list"

definition register_service :: "string \<Rightarrow> string option \<Rightarrow> service_registry \<Rightarrow> failure + service_registry" where
  "register_service cls model r =
     (case model of
        None \<Rightarrow> Inr r
      | Some m \<Rightarrow>
          (case dict_get r m of
             Some other \<Rightarrow>
               if other \<noteq> cls
               then Inl (BadConfig [cls @ '' and '' @ other @ '' both serve '' @ m @ ''; a model must have a single service.''])
               else Inr (dict_put m cls r)
           | None \<Rightarrow> Inr (dict_put m cls r)))"

definition get_service_class :: "service_registry \<Rightarrow> string \<Rightarrow> string option" where
  "get_service_class r m = dict_get r m"

record service_class =
  sc_name :: string
  sc_meta :: model_meta
  sc_schemas :: "(string \<times> string list) option list"
  sc_dimensions :: "(string \<times> string option) list"

text \<open>The errors of one field of one schema, of one schema, of the dimensions of a service.\<close>

definition validate_field :: "(string \<Rightarrow> bool) \<Rightarrow> service_class \<Rightarrow> string \<Rightarrow> string \<Rightarrow> string list" where
  "validate_field known s schema name =
     (case meta_field (sc_meta s) name of
        None \<Rightarrow> [sc_name s @ '': '' @ schema @ '' declares '' @ name @ '', absent from '' @ mm_label (sc_meta s) @ ''.'']
      | Some f \<Rightarrow>
          (case fm_related f of
             None \<Rightarrow> []
           | Some rel \<Rightarrow>
               if \<not> fm_is_relation f \<or> known rel then []
               else [sc_name s @ '': '' @ schema @ '' accepts the relation '' @ name @ '' but '' @ rel
                       @ '' has no service, so it cannot be resolved with access rules.'']))"

definition validate_dimension :: "(string \<Rightarrow> bool) \<Rightarrow> service_class \<Rightarrow> string \<times> string option \<Rightarrow> string list" where
  "validate_dimension known s d =
     (case snd d of
        None \<Rightarrow> []
      | Some rel \<Rightarrow>
          if known rel then []
          else [sc_name s @ '': the dimension '' @ fst d @ '' groups by a relation to '' @ rel
                  @ '', which has no service, so it cannot be resolved with access rules.''])"

definition service_problems :: "(string \<Rightarrow> bool) \<Rightarrow> service_class \<Rightarrow> string list" where
  "service_problems known s =
     concat (map (\<lambda>sch. case sch of None \<Rightarrow> [] | Some (n, fs) \<Rightarrow> concat (map (validate_field known s n) fs)) (sc_schemas s))
     @ concat (map (validate_dimension known s) (sc_dimensions s))"

definition validate_services :: "(string \<times> service_class) list \<Rightarrow> failure + unit" where
  "validate_services r =
     (let problems = concat (map (\<lambda>(m, s). service_problems (\<lambda>x. x \<in> set (dict_keys r)) s) r) in
      if problems \<noteq> [] then Inl (BadConfig problems) else Inr ())"

subsection \<open>Reading records through their service\<close>

text \<open>\<open>env[model]\<close>, then \<open>browse\<close>: the rows among the pks the acting user may read.\<close>

definition env_get :: "environment \<Rightarrow> string \<Rightarrow> failure + string" where
  "env_get env m = (case dict_get (env_services env) m of None \<Rightarrow> Inl (NoService m) | Some s \<Rightarrow> Inr s)"

definition browse :: "environment \<Rightarrow> string \<Rightarrow> string list \<Rightarrow> string list" where
  "browse env m pks = filter (\<lambda>pk. pk \<in> set pks) (filter (env_readable env m) (env_rows env m))"

definition coerce :: "environment \<Rightarrow> string \<Rightarrow> val list \<Rightarrow> string list" where
  "coerce env m vs = List.map_filter (env_to_python env m) vs"

text \<open>The records of a few pks in the order asked, each once; \<open>narrow\<close> is the filter of a route.\<close>

definition display_name :: "environment \<Rightarrow> string \<Rightarrow> (string \<Rightarrow> bool) \<Rightarrow> val list \<Rightarrow> string list" where
  "display_name env m narrow pks =
     (let coerced = uniq (coerce env m pks) in
      if coerced = [] then []
      else let found = filter narrow (browse env m coerced) in filter (\<lambda>pk. pk \<in> set found) coerced)"

text \<open>\<open>{pk: record}\<close>; a record loaded with some lookups only or whole is the same record here.\<close>

definition resolve_relation_records ::
    "environment \<Rightarrow> string \<Rightarrow> string option list \<Rightarrow> bool \<Rightarrow> failure + (string \<times> val) list" where
  "resolve_relation_records env m pks with_fields =
     (let wanted = uniq (List.map_filter id pks) in
      if wanted = [] then Inr []
      else result_bind (env_get env m) (\<lambda>_.
        let records = (if with_fields then display_name env m (\<lambda>_. True) (map Str wanted) else browse env m wanted)
        in Inr (map (\<lambda>pk. (pk, Ref m pk)) records)))"

text \<open>Each value given for a relation to its record; what is unknown, ill-typed or out of
  reach is absent.\<close>

definition resolve_relation :: "environment \<Rightarrow> string \<Rightarrow> val list \<Rightarrow> failure + (val \<times> val) list" where
  "resolve_relation env m vs =
     result_bind (env_get env m) (\<lambda>_.
       let coerced = List.map_filter (\<lambda>v. map_option (Pair v) (env_to_python env m v)) vs;
           found = browse env m (map snd coerced)
       in Inr (List.map_filter (\<lambda>(v, pk). if pk \<in> set found then Some (v, Ref m pk) else None) coerced))"

subsection \<open>Values of an input\<close>

text \<open>
  What is passed to a write: an instance of some schema, with the attributes it carries and the
  names that were set on it, or something else. \<open>hasattr\<close> fails on an attribute it lacks.
\<close>

record schema_instance =
  si_attrs :: "(string \<times> val) list"
  si_set :: "string list"

datatype input_data = Schema schema_instance | Other string

definition input_values :: "input_data \<Rightarrow> string \<Rightarrow> string list \<Rightarrow> bool \<Rightarrow> failure + (string \<times> val) list" where
  "input_values data schema declared exclude_unset =
     (case data of
        Other type_name \<Rightarrow> Inl (NotASchema schema type_name)
      | Schema x \<Rightarrow>
          (let names = (if exclude_unset then filter (\<lambda>n. n \<in> set (si_set x)) declared else declared)
           in Inr (List.map_filter (\<lambda>n. map_option (Pair n) (dict_get (si_attrs x) n)) names)))"

subsection \<open>Defaults\<close>

record schema_field =
  sf_name :: string
  sf_required :: bool
  sf_default :: val

definition schema_field_named :: "schema_field list \<Rightarrow> string \<Rightarrow> schema_field option" where
  "schema_field_named sch n = find (\<lambda>f. sf_name f = n) sch"

definition schema_default_values :: "model_meta \<Rightarrow> schema_field list \<Rightarrow> string list option \<Rightarrow> (string \<times> val) list" where
  "schema_default_values m sch names =
     (let ns = (case names of None \<Rightarrow> map sf_name sch
                | Some l \<Rightarrow> filter (\<lambda>n. schema_field_named sch n \<noteq> None) l) in
      fold (\<lambda>n values.
        case schema_field_named sch n of
          None \<Rightarrow> values
        | Some f \<Rightarrow>
            if sf_required f then values
            else if sf_default f = Null
              \<and> (case meta_field m n of None \<Rightarrow> False | Some mf \<Rightarrow> fm_many_to_many mf \<or> \<not> fm_null mf)
            then values
            else dict_put n (sf_default f) values) ns [])"

text \<open>\<open>field.partition(LOOKUP_SEP)\<close>: the name and what follows the first separator.\<close>

fun partition_lookup :: "string \<Rightarrow> string \<times> string" where
  "partition_lookup [] = ([], [])"
| "partition_lookup [c] = ([c], [])"
| "partition_lookup (c # d # s) =
     (if c = CHR ''_'' \<and> d = CHR ''_'' then ([], s)
      else (case partition_lookup (d # s) of (n, l) \<Rightarrow> (c # n, l)))"

fun many_values :: "val \<Rightarrow> val list" where
  "many_values (Many vs) = vs"
| "many_values v = [v]"

text \<open>What \<open>default_values\<close> renders one asked relation as; \<open>None\<close> drops it.\<close>

definition render_default :: "environment \<Rightarrow> field_meta \<Rightarrow> string \<Rightarrow> val \<Rightarrow> failure + val option" where
  "render_default env f rel v =
     (let pks = coerce env rel (if fm_many_to_many f then many_values v else [v]) in
      result_bind (resolve_relation_records env rel (map Some pks) True) (\<lambda>by_pk.
        let records = List.map_filter (dict_get by_pk) pks in
        if fm_many_to_many f then Inr (Some (Many records))
        else (case records of [] \<Rightarrow> Inr None | r # rs \<Rightarrow> Inr (Some r))))"

fun render_defaults ::
    "environment \<Rightarrow> model_meta \<Rightarrow> string list \<Rightarrow> (string \<times> val) list \<Rightarrow> failure + (string \<times> val) list" where
  "render_defaults env m [] values = Inr values"
| "render_defaults env m (n # ns) values =
     (case dict_get values n of
        None \<Rightarrow> render_defaults env m ns values
      | Some v \<Rightarrow>
          if v = Null then render_defaults env m ns values
          else (case meta_field m n of
              None \<Rightarrow> render_defaults env m ns values
            | Some f \<Rightarrow>
                if \<not> fm_is_relation f then render_defaults env m ns values
                else (case fm_related f of
                   None \<Rightarrow> Inl (NoAttribute ''_meta'')
                 | Some rel \<Rightarrow>
                     result_bind (render_default env f rel v) (\<lambda>r.
                       render_defaults env m ns
                         (case r of None \<Rightarrow> AList.delete n values | Some x \<Rightarrow> dict_put n x values)))))"

text \<open>\<open>overridden\<close> is \<open>_default_values\<close> of the service, which it may override.\<close>

definition default_values ::
    "environment \<Rightarrow> model_meta \<Rightarrow> (string list option \<Rightarrow> (string \<times> val) list) \<Rightarrow> string list option
     \<Rightarrow> failure + (string \<times> val) list" where
  "default_values env m overridden asked =
     (let parts = (case asked of None \<Rightarrow> [] | Some l \<Rightarrow> map partition_lookup l);
          names = (case asked of None \<Rightarrow> None | Some l \<Rightarrow> Some (uniq (map fst parts)));
          lookups = uniq (map fst (filter (\<lambda>(n, l). l \<noteq> []) parts))
      in render_defaults env m lookups (overridden names))"

text \<open>
  The first half of \<open>create\<close>: the values of each input, then the defaults of the service for
  every declared field an input leaves out.
\<close>

definition unset_names :: "string list \<Rightarrow> schema_instance \<Rightarrow> string list" where
  "unset_names declared x = filter (\<lambda>n. n \<notin> set (si_set x)) declared"

fun schema_of :: "input_data \<Rightarrow> schema_instance" where
  "schema_of (Schema x) = x"
| "schema_of (Other n) = \<lparr>si_attrs = [], si_set = []\<rparr>"

definition create_values ::
    "(string list option \<Rightarrow> (string \<times> val) list) \<Rightarrow> string \<Rightarrow> string list \<Rightarrow> input_data list
     \<Rightarrow> failure + (string \<times> val) list list" where
  "create_values overridden schema declared data =
     result_bind (result_map (\<lambda>x. input_values x schema declared False) data) (\<lambda>values.
       let unset = map (\<lambda>x. unset_names declared (schema_of x)) data in
       if \<forall>u \<in> set unset. u = [] then Inr values
       else let defaults = overridden (Some (sort (uniq (concat unset))))
         in Inr (map2 (\<lambda>v u. dict_update (filter (\<lambda>(n, x). n \<in> set u) defaults) v) values unset))"

subsection \<open>Internal values\<close>

text \<open>
  The validators of a field (\<open>run_validators\<close>), its \<open>validate\<close> and the message of a null are
  Django's: each is a function to the text of the \<open>ValidationError\<close>, \<open>None\<close> when it passes.
\<close>

record checks =
  ck_validators :: "field_meta \<Rightarrow> val \<Rightarrow> string option"
  ck_validate :: "field_meta \<Rightarrow> val \<Rightarrow> string option"
  ck_null_message :: "field_meta \<Rightarrow> string"

definition field_problem :: "checks \<Rightarrow> field_meta \<Rightarrow> val \<Rightarrow> string option" where
  "field_problem ck f v =
     (case ck_validators ck f v of
        Some msg \<Rightarrow> Some msg
      | None \<Rightarrow>
          if fm_is_relation f
          then (if v = Null \<and> fm_concrete f \<and> \<not> fm_many_to_many f \<and> \<not> fm_null f
                then Some (ck_null_message ck f) else None)
          else ck_validate ck f v)"

fun check_item :: "checks \<Rightarrow> model_meta \<Rightarrow> (string \<times> val) list \<Rightarrow> service_error \<Rightarrow> failure + service_error" where
  "check_item ck m [] e = Inr e"
| "check_item ck m ((k, v) # kvs) e =
     (case meta_field m k of
        None \<Rightarrow> Inl (UnknownField k)
      | Some f \<Rightarrow>
          check_item ck m kvs
            (case field_problem ck f v of None \<Rightarrow> e | Some msg \<Rightarrow> add_message (One msg) (Some k) e))"

fun check_items ::
    "checks \<Rightarrow> model_meta \<Rightarrow> nat \<Rightarrow> (string \<times> val) list list \<Rightarrow> multi_error \<Rightarrow> failure + multi_error" where
  "check_items ck m i [] err = Inr err"
| "check_items ck m i (item # rest) err =
     result_bind (check_item ck m item []) (\<lambda>e.
       check_items ck m (Suc i) rest (if e = [] then err else add_error (At i) e err))"

text \<open>All the values given for one relation, then each relation through its service.\<close>

definition fk_names :: "model_meta \<Rightarrow> string list" where
  "fk_names m = map fm_name (filter fm_foreign_key (mm_fields m))"

definition m2m_names :: "model_meta \<Rightarrow> string list" where
  "m2m_names m = map fm_name (filter fm_m2m_field (mm_fields m))"

definition given :: "string \<Rightarrow> (string \<times> val) list list \<Rightarrow> bool" where
  "given n data \<longleftrightarrow> (\<exists>item \<in> set data. dict_get item n \<noteq> None)"

definition fk_values :: "string \<Rightarrow> (string \<times> val) list list \<Rightarrow> val list" where
  "fk_values n data = uniq (filter (\<lambda>v. v \<noteq> Null) (List.map_filter (\<lambda>item. dict_get item n) data))"

fun listed :: "val \<Rightarrow> val list" where
  "listed (Many vs) = vs"
| "listed v = []"

definition m2m_values :: "string \<Rightarrow> (string \<times> val) list list \<Rightarrow> val list" where
  "m2m_values n data = uniq (concat (map listed (List.map_filter (\<lambda>item. dict_get item n) data)))"

type_synonym resolved = "(string \<times> (val \<times> val) list) list"

fun resolve_each ::
    "environment \<Rightarrow> model_meta \<Rightarrow> (string \<Rightarrow> val list) \<Rightarrow> string list \<Rightarrow> failure + resolved" where
  "resolve_each env m values [] = Inr []"
| "resolve_each env m values (n # ns) =
     (case meta_field m n of
        None \<Rightarrow> Inl (UnknownField n)
      | Some f \<Rightarrow>
          (case fm_related f of
             None \<Rightarrow> Inl (NoAttribute ''_meta'')
           | Some rel \<Rightarrow>
               result_bind (resolve_relation env rel (values n)) (\<lambda>r.
                 result_bind (resolve_each env m values ns) (\<lambda>rs. Inr ((n, r) # rs)))))"

text \<open>\<open>str(v)\<close> of a value in a message.\<close>

definition show_values :: "(val \<Rightarrow> string) \<Rightarrow> val list \<Rightarrow> string" where
  "show_values str vs = str_join '','' (map str vs)"

text \<open>One field of one record: the value stored, if any, and the error, if any.\<close>

definition convert_field ::
    "(val \<Rightarrow> string) \<Rightarrow> resolved \<Rightarrow> resolved \<Rightarrow> string \<Rightarrow> val \<Rightarrow> val option \<times> service_error" where
  "convert_field str m2m fk n v =
     (case dict_get m2m n of
        Some r \<Rightarrow>
          (let invalid = filter (\<lambda>x. dict_get r x = None) (listed v) in
           (Some (Many (List.map_filter (dict_get r) (listed v))),
            if invalid \<noteq> []
            then relation_not_found (''Invalid value(s) for field '' @ n @ '': '' @ show_values str invalid) n else []))
      | None \<Rightarrow>
          (case dict_get fk n of
             Some r \<Rightarrow>
               if v = Null then (Some Null, [])
               else (case dict_get r v of
                   None \<Rightarrow> (None, relation_not_found (''Invalid value for field '' @ n @ '': '' @ str v) n)
                 | Some x \<Rightarrow> (Some x, []))
           | None \<Rightarrow> (Some v, [])))"

text \<open>
  The error of a field is put under the index of its record, so a later field of the same
  record replaces it.
\<close>

fun convert_item ::
    "(val \<Rightarrow> string) \<Rightarrow> resolved \<Rightarrow> resolved \<Rightarrow> nat \<Rightarrow> (string \<times> val) list \<Rightarrow> multi_error
     \<Rightarrow> (string \<times> val) list \<times> multi_error" where
  "convert_item str m2m fk i [] err = ([], err)"
| "convert_item str m2m fk i ((n, v) # kvs) err =
     (let (x, e) = convert_field str m2m fk n v;
          (rest, err') = convert_item str m2m fk i kvs (if e = [] then err else add_error (At i) e err)
      in (case x of None \<Rightarrow> rest | Some w \<Rightarrow> (n, w) # rest, err'))"

fun convert_items ::
    "(val \<Rightarrow> string) \<Rightarrow> resolved \<Rightarrow> resolved \<Rightarrow> nat \<Rightarrow> (string \<times> val) list list \<Rightarrow> multi_error
     \<Rightarrow> (string \<times> val) list list \<times> multi_error" where
  "convert_items str m2m fk i [] err = ([], err)"
| "convert_items str m2m fk i (item # rest) err =
     (let (values, err1) = convert_item str m2m fk i item err;
          (result, err2) = convert_items str m2m fk (Suc i) rest err1
      in (values # result, err2))"

definition to_internal_values ::
    "environment \<Rightarrow> checks \<Rightarrow> (val \<Rightarrow> string) \<Rightarrow> model_meta \<Rightarrow> (string \<times> val) list list
     \<Rightarrow> failure + (string \<times> val) list list" where
  "to_internal_values env ck str m data =
     result_bind (check_items ck m 0 data (multi_error [] ''invalid_data'')) (\<lambda>err.
       if me_errors err \<noteq> [] then Inl (Invalid err)
       else result_bind (resolve_each env m (\<lambda>n. m2m_values n data) (filter (\<lambda>n. given n data) (m2m_names m))) (\<lambda>m2m.
         result_bind (resolve_each env m (\<lambda>n. fk_values n data) (filter (\<lambda>n. given n data) (fk_names m))) (\<lambda>fk.
           let (result, err) = convert_items str m2m fk 0 data (multi_error [] ''invalid_data'')
           in if me_errors err \<noteq> [] then Inl (Invalid err) else Inr result)))"

end
