(* ===== verification/Service_Laws.thy ===== *)
theory Service_Laws
  imports Service_Values
begin

text \<open>
  What the values of a write are: exactly those the schema declares, completed by the defaults
  the service announces, and with every relation resolved to a record the acting user may read
  or refused.
\<close>

subsection \<open>Resolving a relation\<close>

definition visible_ref :: "environment \<Rightarrow> string \<Rightarrow> val \<Rightarrow> val option" where
  "visible_ref env rel v =
     (case env_to_python env rel v of
        None \<Rightarrow> None
      | Some pk \<Rightarrow> if pk \<in> set (env_rows env rel) \<and> env_readable env rel pk then Some (Ref rel pk) else None)"

lemma map_of_map_filter_Pair: "map_of (List.map_filter (\<lambda>v. map_option (Pair v) (g v)) vs) v
    = (if v \<in> set vs then g v else None)"
  by (induction vs) (auto simp: List.map_filter_simps split: option.splits)

lemma map_filter_same: "\<forall>x \<in> set xs. f x = g x \<Longrightarrow> List.map_filter f xs = List.map_filter g xs"
  by (induction xs) (simp_all add: List.map_filter_simps split: option.split)

lemma map_filter_compose:
  "List.map_filter (\<lambda>(v, pk). h v pk) (List.map_filter (\<lambda>v. map_option (Pair v) (g v)) vs)
   = List.map_filter (\<lambda>v. case g v of None \<Rightarrow> None | Some pk \<Rightarrow> h v pk) vs"
  by (induction vs) (auto simp: List.map_filter_simps split: option.splits)

lemma set_coerced: "pk \<in> set (map snd (List.map_filter (\<lambda>v. map_option (Pair v) (g v)) vs)) \<longleftrightarrow> (\<exists>v \<in> set vs. g v = Some pk)"
  by (induction vs) (auto simp: List.map_filter_simps split: option.splits)

lemma resolve_relation_get:
  assumes "resolve_relation env rel vs = Inr r"
  shows "dict_get r v = (if v \<in> set vs then visible_ref env rel v else None)"
proof -
  let ?co = "List.map_filter (\<lambda>v. map_option (Pair v) (env_to_python env rel v)) vs"
  let ?found = "browse env rel (map snd ?co)"
  have r: "r = List.map_filter (\<lambda>v. case env_to_python env rel v of None \<Rightarrow> None
        | Some pk \<Rightarrow> if pk \<in> set ?found then Some (v, Ref rel pk) else None) vs"
    using assms unfolding resolve_relation_def Let_def by (auto simp: map_filter_compose)
  have found: "pk \<in> set ?found \<longleftrightarrow> pk \<in> set (env_rows env rel) \<and> env_readable env rel pk"
    if "env_to_python env rel u = Some pk" "u \<in> set vs" for u pk
    using that set_coerced [of pk "env_to_python env rel" vs] by (auto simp: browse_def)
  have "r = List.map_filter (\<lambda>v. map_option (Pair v) (visible_ref env rel v)) vs"
    unfolding r by (rule map_filter_same) (auto simp: visible_ref_def found split: option.splits)
  then show ?thesis by (simp add: map_of_map_filter_Pair)
qed

lemma resolve_each_get:
  "resolve_each env m values ns = Inr rs \<Longrightarrow>
   case dict_get rs n of
     None \<Rightarrow> n \<notin> set ns
   | Some r \<Rightarrow> n \<in> set ns \<and> (\<exists>f rel. meta_field m n = Some f \<and> fm_related f = Some rel
       \<and> (\<forall>v. dict_get r v = (if v \<in> set (values n) then visible_ref env rel v else None)))"
proof (induction ns arbitrary: rs)
  case (Cons k ns)
  then obtain f rel r rest where k: "meta_field m k = Some f" "fm_related f = Some rel"
    "resolve_relation env rel (values k) = Inr r" "resolve_each env m values ns = Inr rest" "rs = (k, r) # rest"
    by (auto split: option.splits)
  from Cons.IH [OF k(4)] show ?case
    using k(1,2,5) resolve_relation_get [OF k(3)] by (auto split: option.splits)
qed simp

lemma resolve_each_total:
  "\<forall>n \<in> set ns. \<exists>f rel s. meta_field m n = Some f \<and> fm_related f = Some rel \<and> dict_get (env_services env) rel = Some s \<Longrightarrow>
   \<exists>rs. resolve_each env m values ns = Inr rs"
  by (induction ns) (auto simp: resolve_relation_def env_get_def Let_def)

subsection \<open>Checking and converting\<close>

definition item_checked :: "checks \<Rightarrow> model_meta \<Rightarrow> (string \<times> val) list \<Rightarrow> bool" where
  "item_checked ck m item \<longleftrightarrow>
     (\<forall>(k, v) \<in> set item. \<exists>f. meta_field m k = Some f \<and> field_problem ck f v = None)"

lemma dict_put_not_Nil [simp]: "dict_put k v d \<noteq> []"
  by (induction d) auto

lemma check_item_grows: "check_item ck m item e = Inr e' \<Longrightarrow> e \<noteq> [] \<Longrightarrow> e' \<noteq> []"
  by (induction ck m item e rule: check_item.induct) (auto simp: add_message_def Let_def split: option.splits)

lemma check_item_iff: "check_item ck m item [] = Inr [] \<longleftrightarrow> item_checked ck m item"
proof (induction item)
  case (Cons kv item)
  obtain k v where kv: "kv = (k, v)" by (cases kv)
  show ?case
  proof (cases "\<exists>f. meta_field m k = Some f \<and> field_problem ck f v = None")
    case True
    then show ?thesis using Cons.IH by (auto simp: kv item_checked_def)
  next
    case False
    have "check_item ck m (kv # item) [] \<noteq> Inr []"
      using False check_item_grows [of ck m item _ "[]"]
      by (auto simp: kv add_message_def Let_def split: option.splits)
    with False show ?thesis by (auto simp: kv item_checked_def)
  qed
qed (simp add: item_checked_def)

lemma check_items_grows: "check_items ck m i data err = Inr err' \<Longrightarrow> me_errors err \<noteq> [] \<Longrightarrow> me_errors err' \<noteq> []"
proof (induction data arbitrary: i err)
  case (Cons item data)
  then obtain e where e: "check_items ck m (Suc i) data (if e = [] then err else add_error (At i) e err) = Inr err'"
    by auto
  show ?case by (rule Cons.IH [OF e]) (use Cons.prems(2) in \<open>simp add: add_error_def\<close>)
qed simp

lemma check_items_iff:
  "me_errors err = [] \<Longrightarrow>
   (\<exists>err'. check_items ck m i data err = Inr err' \<and> me_errors err' = []) \<longleftrightarrow> (\<forall>item \<in> set data. item_checked ck m item)"
proof (induction data arbitrary: i err)
  case (Cons item data)
  show ?case
  proof (cases "item_checked ck m item")
    case True
    then have "check_item ck m item [] = Inr []" by (simp add: check_item_iff)
    with True Cons.IH [OF Cons.prems] show ?thesis by simp
  next
    case False
    then have "check_item ck m item [] \<noteq> Inr []" by (simp add: check_item_iff)
    then have "\<not> (\<exists>err'. check_items ck m i (item # data) err = Inr err' \<and> me_errors err' = [])"
      by (cases "check_item ck m item []") (auto dest: check_items_grows simp: add_error_def)
    with False show ?thesis by simp
  qed
qed simp

text \<open>The value a field of a record is stored with, \<open>None\<close> when it is refused.\<close>

definition related_of :: "model_meta \<Rightarrow> string \<Rightarrow> string" where
  "related_of m n = (case meta_field m n of None \<Rightarrow> [] | Some f \<Rightarrow> (case fm_related f of None \<Rightarrow> [] | Some rel \<Rightarrow> rel))"

definition internal_value :: "environment \<Rightarrow> model_meta \<Rightarrow> string \<Rightarrow> val \<Rightarrow> val option" where
  "internal_value env m n v =
     (if n \<in> set (m2m_names m)
      then (if \<forall>x \<in> set (listed v). visible_ref env (related_of m n) x \<noteq> None
            then Some (Many (List.map_filter (visible_ref env (related_of m n)) (listed v))) else None)
      else if n \<in> set (fk_names m)
      then (if v = Null then Some Null else visible_ref env (related_of m n) v)
      else Some v)"

lemma m2m_values_mem: "item \<in> set data \<Longrightarrow> dict_get item n = Some v \<Longrightarrow> set (listed v) \<subseteq> set (m2m_values n data)"
  by (force simp: m2m_values_def List.map_filter_def)

lemma fk_values_mem: "item \<in> set data \<Longrightarrow> dict_get item n = Some v \<Longrightarrow> v \<noteq> Null \<Longrightarrow> v \<in> set (fk_values n data)"
  by (force simp: fk_values_def List.map_filter_def)

lemma convert_field_iff:
  assumes m2m: "resolve_each env m (\<lambda>n. m2m_values n data) (filter (\<lambda>n. given n data) (m2m_names m)) = Inr m2m"
    and fk: "resolve_each env m (\<lambda>n. fk_values n data) (filter (\<lambda>n. given n data) (fk_names m)) = Inr fk"
    and item: "item \<in> set data" "dict_get item n = Some v"
  shows "snd (convert_field str m2m fk n v) = [] \<longleftrightarrow> internal_value env m n v \<noteq> None"
    and "internal_value env m n v = Some w \<Longrightarrow> fst (convert_field str m2m fk n v) = Some w"
    and "length (snd (convert_field str m2m fk n v)) \<le> 1"
proof -
  have g: "given n data" using item by (auto simp: given_def)
  note rm = resolve_each_get [OF m2m, of n] and rf = resolve_each_get [OF fk, of n]
  show "length (snd (convert_field str m2m fk n v)) \<le> 1"
    by (simp add: convert_field_def relation_not_found_def service_error_def Let_def split: option.split)
  consider (many) "n \<in> set (m2m_names m)" | (key) "n \<notin> set (m2m_names m)" "n \<in> set (fk_names m)"
    | (plain) "n \<notin> set (m2m_names m)" "n \<notin> set (fk_names m)" by blast
  then have "(snd (convert_field str m2m fk n v) = [] \<longleftrightarrow> internal_value env m n v \<noteq> None)
      \<and> (internal_value env m n v = Some w \<longrightarrow> fst (convert_field str m2m fk n v) = Some w)"
  proof cases
    case many
    with rm g obtain r where r: "dict_get m2m n = Some r" by (auto split: option.splits)
    with rm have get: "dict_get r x = (if x \<in> set (m2m_values n data) then visible_ref env (related_of m n) x else None)" for x
      by (auto simp: related_of_def)
    have same: "dict_get r x = visible_ref env (related_of m n) x" if "x \<in> set (listed v)" for x
      using get m2m_values_mem [OF item] that by auto
    have "List.map_filter (dict_get r) (listed v) = List.map_filter (visible_ref env (related_of m n)) (listed v)"
      by (rule map_filter_same) (simp add: same)
    moreover have "filter (\<lambda>x. dict_get r x = None) (listed v) = filter (\<lambda>x. visible_ref env (related_of m n) x = None) (listed v)"
      by (rule filter_cong) (simp_all add: same)
    ultimately show ?thesis
      using many by (auto simp: convert_field_def r internal_value_def relation_not_found_def service_error_def Let_def filter_empty_conv)
  next
    case key
    have no: "dict_get m2m n = None" using rm key by (auto split: option.splits)
    from rf key g obtain r where r: "dict_get fk n = Some r" by (auto split: option.splits)
    with rf have get: "dict_get r x = (if x \<in> set (fk_values n data) then visible_ref env (related_of m n) x else None)" for x
      by (auto simp: related_of_def)
    have same: "v \<noteq> Null \<Longrightarrow> dict_get r v = visible_ref env (related_of m n) v"
      using get fk_values_mem [OF item] by auto
    then show ?thesis
      using key by (auto simp: convert_field_def no r internal_value_def relation_not_found_def service_error_def split: option.split)
  next
    case plain
    then have "dict_get m2m n = None" "dict_get fk n = None" using rm rf by (auto split: option.splits)
    with plain show ?thesis by (simp add: convert_field_def internal_value_def)
  qed
  then show "snd (convert_field str m2m fk n v) = [] \<longleftrightarrow> internal_value env m n v \<noteq> None"
    and "internal_value env m n v = Some w \<Longrightarrow> fst (convert_field str m2m fk n v) = Some w" by blast+
qed

lemma convert_item_Cons:
  "convert_item str m2m fk i ((n, v) # kvs) err =
     (let r = convert_item str m2m fk i kvs
        (if snd (convert_field str m2m fk n v) = [] then err else add_error (At i) (snd (convert_field str m2m fk n v)) err)
      in (case fst (convert_field str m2m fk n v) of None \<Rightarrow> fst r | Some w \<Rightarrow> (n, w) # fst r, snd r))"
  by (simp add: Let_def case_prod_unfold)

declare convert_item.simps(2) [simp del]

lemma convert_item_grows:
  "me_errors err \<noteq> [] \<Longrightarrow> me_errors (snd (convert_item str m2m fk i item err)) \<noteq> []"
proof (induction item arbitrary: err)
  case (Cons kv item)
  obtain n v where kv: "kv = (n, v)" by (cases kv)
  have "me_errors (if snd (convert_field str m2m fk n v) = [] then err
      else add_error (At i) (snd (convert_field str m2m fk n v)) err) \<noteq> []"
    using Cons.prems by (simp add: add_error_def)
  from Cons.IH [OF this] show ?case by (simp add: kv convert_item_Cons Let_def)
qed simp

lemma convert_items_grows:
  "me_errors err \<noteq> [] \<Longrightarrow> me_errors (snd (convert_items str m2m fk i data err)) \<noteq> []"
proof (induction str m2m fk i data err rule: convert_items.induct)
  case (2 str m2m fk i item rest err)
  obtain vals err1 where c: "convert_item str m2m fk i item err = (vals, err1)" by fastforce
  with convert_item_grows [OF 2(2), of str m2m fk i item] have "me_errors err1 \<noteq> []" by simp
  with 2(1) [OF c [symmetric] refl] c show ?case by (simp add: Let_def case_prod_unfold)
qed simp

definition internal_item :: "environment \<Rightarrow> model_meta \<Rightarrow> (string \<times> val) list \<Rightarrow> (string \<times> val) list \<Rightarrow> bool" where
  "internal_item env m item row \<longleftrightarrow>
     list_all2 (\<lambda>(n, v) (k, w). k = n \<and> internal_value env m n v = Some w) item row"

lemma convert_item_iff:
  assumes conv: "\<And>n v. (n, v) \<in> set item \<Longrightarrow>
      (snd (convert_field str m2m fk n v) = [] \<longleftrightarrow> internal_value env m n v \<noteq> None)
      \<and> (\<forall>w. internal_value env m n v = Some w \<longrightarrow> fst (convert_field str m2m fk n v) = Some w)"
    and "me_errors err = []"
  shows "(\<exists>err'. convert_item str m2m fk i item err = (row, err') \<and> me_errors err' = []) \<longleftrightarrow> internal_item env m item row"
  using assms
proof (induction item arbitrary: err row)
  case Nil
  then show ?case by (auto simp: internal_item_def)
next
  case (Cons kv item)
  obtain n v where kv: "kv = (n, v)" by (cases kv)
  note c = Cons.prems(1) [of n v]
  show ?case
  proof (cases "internal_value env m n v")
    case None
    with c kv have "snd (convert_field str m2m fk n v) \<noteq> []" by simp
    then have "me_errors (snd (convert_item str m2m fk i (kv # item) err)) \<noteq> []"
      using convert_item_grows [of "add_error (At i) (snd (convert_field str m2m fk n v)) err" str m2m fk i item]
      by (simp add: kv convert_item_Cons Let_def add_error_def)
    then have "\<not> (\<exists>err'. convert_item str m2m fk i (kv # item) err = (row, err') \<and> me_errors err' = [])" by auto
    moreover have "\<not> internal_item env m (kv # item) row"
      using None by (auto simp: internal_item_def kv list_all2_Cons1)
    ultimately show ?thesis by blast
  next
    case (Some w)
    with c kv have cf: "snd (convert_field str m2m fk n v) = []" "fst (convert_field str m2m fk n v) = Some w" by auto
    have IH: "(\<exists>err'. convert_item str m2m fk i item err = (rest, err') \<and> me_errors err' = []) \<longleftrightarrow> internal_item env m item rest"
      for rest using Cons.prems by (intro Cons.IH) auto
    obtain row1 err1 where r: "convert_item str m2m fk i item err = (row1, err1)" by fastforce
    have full: "convert_item str m2m fk i (kv # item) err = ((n, w) # row1, err1)"
      by (simp add: kv convert_item_Cons cf r)
    have "internal_item env m (kv # item) row \<longleftrightarrow> (\<exists>rest. row = (n, w) # rest \<and> internal_item env m item rest)"
      using Some by (auto simp: internal_item_def kv list_all2_Cons1)
    moreover have "internal_item env m item rest \<longleftrightarrow> rest = row1 \<and> me_errors err1 = []" for rest
      using IH [of rest] r by auto
    ultimately have "internal_item env m (kv # item) row \<longleftrightarrow> row = (n, w) # row1 \<and> me_errors err1 = []" by auto
    then show ?thesis unfolding full by auto
  qed
qed

lemma convert_items_iff:
  assumes "\<And>item i err row. item \<in> set data \<Longrightarrow> me_errors err = [] \<Longrightarrow>
      (\<exists>err'. convert_item str m2m fk i item err = (row, err') \<and> me_errors err' = []) \<longleftrightarrow> internal_item env m item row"
    and "me_errors err = []"
  shows "(\<exists>err'. convert_items str m2m fk i data err = (result, err') \<and> me_errors err' = [])
    \<longleftrightarrow> list_all2 (internal_item env m) data result"
  using assms
proof (induction data arbitrary: i err result)
  case Nil
  then show ?case by auto
next
  case (Cons item data)
  obtain vals err1 where c: "convert_item str m2m fk i item err = (vals, err1)" by fastforce
  obtain rest err2 where cs: "convert_items str m2m fk (Suc i) data err1 = (rest, err2)" by fastforce
  have full: "convert_items str m2m fk i (item # data) err = (vals # rest, err2)" using c cs by simp
  show ?case
  proof (cases "me_errors err1 = []")
    case True
    have "(\<exists>err'. convert_items str m2m fk (Suc i) data err1 = (r, err') \<and> me_errors err' = [])
      \<longleftrightarrow> list_all2 (internal_item env m) data r" for r
      using Cons.prems(1) True by (intro Cons.IH) auto
    moreover have "internal_item env m item row \<longleftrightarrow> row = vals" for row
      using Cons.prems(1) [of item err i row] Cons.prems(2) c True by auto
    ultimately show ?thesis using full cs by (cases result) auto
  next
    case False
    then have "\<not> internal_item env m item row" for row
      using Cons.prems(1) [of item err i row] Cons.prems(2) c by auto
    moreover have "me_errors err2 \<noteq> []" using convert_items_grows [OF False, of str m2m fk "Suc i" data] cs by simp
    ultimately show ?thesis using full by (cases result) auto
  qed
qed

text \<open>Every relation a schema may write has its service, which \<open>validate_services\<close> checks.\<close>

definition relations_served :: "environment \<Rightarrow> model_meta \<Rightarrow> bool" where
  "relations_served env m \<longleftrightarrow>
     (\<forall>n \<in> set (m2m_names m) \<union> set (fk_names m).
        \<exists>f rel s. meta_field m n = Some f \<and> fm_related f = Some rel \<and> dict_get (env_services env) rel = Some s)"

lemma only_readable_rows:
  assumes served: "relations_served env m" and dist: "\<forall>item \<in> set data. distinct (dict_keys item)"
  shows "to_internal_values env ck str m data = Inr result \<longleftrightarrow>
    (\<forall>item \<in> set data. item_checked ck m item) \<and> list_all2 (internal_item env m) data result"
proof -
  have "\<forall>n \<in> set (filter (\<lambda>n. given n data) ns). \<exists>f rel s. meta_field m n = Some f \<and> fm_related f = Some rel
      \<and> dict_get (env_services env) rel = Some s" if "ns = m2m_names m \<or> ns = fk_names m" for ns
    using served that unfolding relations_served_def by auto
  then obtain m2m fk where
    m2m: "resolve_each env m (\<lambda>n. m2m_values n data) (filter (\<lambda>n. given n data) (m2m_names m)) = Inr m2m"
    and fk: "resolve_each env m (\<lambda>n. fk_values n data) (filter (\<lambda>n. given n data) (fk_names m)) = Inr fk"
    using resolve_each_total by metis
  have get: "dict_get item n = Some v" if "item \<in> set data" "(n, v) \<in> set item" for item n v
    using that dist by simp
  have conv: "(\<exists>err'. convert_item str m2m fk i item err = (row, err') \<and> me_errors err' = []) \<longleftrightarrow> internal_item env m item row"
    if "item \<in> set data" "me_errors err = []" for item i err row
    using convert_field_iff(1,2) [OF m2m fk that(1) get [OF that(1)]] that(2) by (intro convert_item_iff) auto
  note conv_all = convert_items_iff [of data str m2m fk env m "multi_error [] ''invalid_data''" 0 result, OF conv]
  note check_all = check_items_iff [of "multi_error [] ''invalid_data''" ck m 0 data]
  show ?thesis
  proof (cases "\<forall>item \<in> set data. item_checked ck m item")
    case True
    with check_all obtain err where "check_items ck m 0 data (multi_error [] ''invalid_data'') = Inr err" "me_errors err = []"
      by (auto simp: multi_error_def)
    with m2m fk conv_all True show ?thesis
      by (auto simp: to_internal_values_def multi_error_def split: prod.splits if_splits)
  next
    case False
    with check_all show ?thesis
      by (auto simp: to_internal_values_def multi_error_def split: if_splits)
  qed
qed

text \<open>
  A batch of inputs is accepted exactly when every value passes its field's checks and every
  relation given names records that exist and that the acting user may read; the values stored
  are then the given ones, with each relation replaced by those records.
\<close>

theorem only_readable_records_are_linked:
  assumes served: "relations_served env m" and dist: "\<forall>item \<in> set data. distinct (dict_keys item)"
  shows "to_internal_values env ck str m data = Inr result \<longleftrightarrow>
    (\<forall>item \<in> set data. item_checked ck m item) \<and> list_all2 (internal_item env m) data result"
  by (rule only_readable_rows [OF assms])

subsection \<open>One error per record\<close>

definition single_errors :: "multi_error \<Rightarrow> bool" where
  "single_errors err \<longleftrightarrow> (\<forall>x \<in> snd ` set (me_errors err). \<exists>n msg. x = Error [(n, [msg])])"

lemma set_dict_put: "snd ` set (dict_put k v d) \<subseteq> insert v (snd ` set d)"
  by (induction d) auto

lemma single_errors_add:
  "single_errors err \<Longrightarrow> single_errors (add_error k [(n, [msg])] err)"
proof -
  assume "single_errors err"
  moreover have "snd ` set (me_errors (add_error k [(n, [msg])] err)) \<subseteq> insert (Error [(n, [msg])]) (snd ` set (me_errors err))"
    by (simp add: add_error_def set_dict_put)
  ultimately show ?thesis unfolding single_errors_def by blast
qed

lemma convert_field_error:
  "snd (convert_field str m2m fk n v) = [] \<or> (\<exists>msg. snd (convert_field str m2m fk n v) = [(n, [msg])])"
  by (simp add: convert_field_def relation_not_found_def service_error_def Let_def split: option.split)

lemma convert_item_single: "single_errors err \<Longrightarrow> single_errors (snd (convert_item str m2m fk i item err))"
proof (induction item arbitrary: err)
  case (Cons kv item)
  obtain n v where kv: "kv = (n, v)" by (cases kv)
  have "single_errors (if snd (convert_field str m2m fk n v) = [] then err
      else add_error (At i) (snd (convert_field str m2m fk n v)) err)"
    using Cons.prems convert_field_error [of str m2m fk n v] by (auto intro: single_errors_add)
  from Cons.IH [OF this] show ?case by (simp add: kv convert_item_Cons Let_def)
qed simp

lemma convert_items_single: "single_errors err \<Longrightarrow> single_errors (snd (convert_items str m2m fk i data err))"
proof (induction data arbitrary: i err)
  case (Cons item data)
  from Cons.IH [OF convert_item_single [OF Cons.prems]] show ?case by (simp add: Let_def case_prod_unfold)
qed simp

lemma resolve_each_not_invalid: "resolve_each env m values ns \<noteq> Inl (Invalid err)"
  by (induction ns) (auto simp: result_bind_def resolve_relation_def env_get_def Let_def split: option.splits sum.splits)

text \<open>
  When the values pass the checks of their fields and a relation is refused, the error lists
  exactly one field per record, however many relations of that record are invalid.
\<close>

theorem one_relation_error_per_record:
  assumes "to_internal_values env ck str m data = Inl (Invalid err)" "\<forall>item \<in> set data. item_checked ck m item"
  shows "\<forall>x \<in> snd ` set (me_errors err). \<exists>n msg. x = Error [(n, [msg])]"
proof -
  have empty: "me_errors (multi_error [] ''invalid_data'') = []" by (simp add: multi_error_def)
  from check_items_iff [OF empty, of ck m 0 data] assms(2) obtain err0
    where "check_items ck m 0 data (multi_error [] ''invalid_data'') = Inr err0" "me_errors err0 = []" by auto
  with assms(1) have "\<exists>m2m fk. snd (convert_items str m2m fk 0 data (multi_error [] ''invalid_data'')) = err"
    unfolding to_internal_values_def result_bind_def
    by (auto split: sum.splits prod.splits if_splits simp: resolve_each_not_invalid)
      (metis snd_conv)
  then obtain m2m fk where
    "err = snd (convert_items str m2m fk 0 data (multi_error [] ''invalid_data''))" by metis
  moreover have "single_errors (multi_error [] ''invalid_data'')" by (simp add: single_errors_def multi_error_def)
  ultimately show ?thesis using convert_items_single unfolding single_errors_def by metis
qed

subsection \<open>Defaults\<close>

definition announced_default :: "model_meta \<Rightarrow> schema_field list \<Rightarrow> string \<Rightarrow> val option" where
  "announced_default m sch n =
     (case schema_field_named sch n of
        None \<Rightarrow> None
      | Some f \<Rightarrow>
          if sf_required f \<or> sf_default f = Null
            \<and> (case meta_field m n of None \<Rightarrow> False | Some mf \<Rightarrow> fm_many_to_many mf \<or> \<not> fm_null mf)
          then None else Some (sf_default f))"

lemma default_fold:
  fixes G :: "string \<Rightarrow> val option"
  shows "dict_get (fold (\<lambda>n d. case G n of None \<Rightarrow> d | Some v \<Rightarrow> dict_put n v d) ns d) k
    = (if k \<in> set ns \<and> G k \<noteq> None then G k else dict_get d k)"
  by (induction ns arbitrary: d) (auto split: option.splits)

lemma default_fold_distinct:
  fixes G :: "string \<Rightarrow> val option"
  shows "distinct (dict_keys d) \<Longrightarrow> distinct (dict_keys (fold (\<lambda>n d. case G n of None \<Rightarrow> d | Some v \<Rightarrow> dict_put n v d) ns d))"
  by (induction ns arbitrary: d) (auto split: option.splits)

lemma schema_default_fold:
  "schema_default_values m sch names =
     fold (\<lambda>n d. case announced_default m sch n of None \<Rightarrow> d | Some v \<Rightarrow> dict_put n v d)
       (case names of None \<Rightarrow> map sf_name sch | Some l \<Rightarrow> filter (\<lambda>n. schema_field_named sch n \<noteq> None) l) []"
  unfolding schema_default_values_def Let_def
  by (rule arg_cong [of _ _ "\<lambda>F. fold F _ []"]) (auto simp: fun_eq_iff announced_default_def split: option.splits)

lemma named_iff: "schema_field_named sch n \<noteq> None \<longleftrightarrow> n \<in> sf_name ` set sch"
  by (auto simp: schema_field_named_def find_None_iff)

lemma schema_default_get:
  "dict_get (schema_default_values m sch names) n =
     (if names = None \<or> n \<in> set (the names) then announced_default m sch n else None)"
proof -
  have "announced_default m sch n = None" if "n \<notin> sf_name ` set sch"
    using that named_iff [of sch n] by (auto simp: announced_default_def)
  then show ?thesis
    using named_iff [of sch n] by (cases names) (auto simp: schema_default_fold default_fold)
qed

lemma map_of_filter_key: "dict_get (filter (\<lambda>(n, y). P n) d) k = (if P k then dict_get d k else None)"
  by (induction d) auto

text \<open>
  A creation agrees with what \<open>default_values\<close> announced. A declared field that an input
  leaves out takes the announced value, whichever other fields other inputs leave out; a field
  that was given, even as null, keeps its value.
\<close>

theorem creation_uses_announced_defaults:
  assumes "create_values (schema_default_values m sch) schema (map sf_name sch) data = Inr vs"
    and "i < length data" "data ! i = Schema x" "n \<in> sf_name ` set sch"
  shows "\<exists>announced. default_values env m (schema_default_values m sch) None = Inr announced
    \<and> dict_get (vs ! i) n =
        (if n \<in> set (si_set x) then dict_get (si_attrs x) n
         else case dict_get announced n of Some d \<Rightarrow> Some d | None \<Rightarrow> dict_get (si_attrs x) n)"
proof (intro exI conjI)
  let ?ns = "map sf_name sch" and ?u = "\<lambda>x. unset_names (map sf_name sch) (schema_of x)"
  show "default_values env m (schema_default_values m sch) None = Inr (schema_default_values m sch None)"
    by (simp add: default_values_def)
  obtain rows where rows: "result_map (\<lambda>x. input_values x schema ?ns False) data = Inr rows"
    using assms(1) by (auto simp: create_values_def)
  note len = result_map_Inr [OF rows]
  have "(data ! i, rows ! i) \<in> set (zip data rows)" using len assms(2) by (metis in_set_zip fst_conv snd_conv)
  with len have "input_values (data ! i) schema ?ns False = Inr (rows ! i)" by auto
  then have "rows ! i = List.map_filter (\<lambda>n. map_option (Pair n) (dict_get (si_attrs x) n)) ?ns"
    using assms(3) by (simp add: input_values_def)
  then have row: "dict_get (rows ! i) n = dict_get (si_attrs x) n"
    using assms(4) by (simp add: map_of_map_filter_Pair)
  let ?d = "schema_default_values m sch (Some (sort (uniq (concat (map ?u data)))))"
  show "dict_get (vs ! i) n =
        (if n \<in> set (si_set x) then dict_get (si_attrs x) n
         else case dict_get (schema_default_values m sch None) n of Some d \<Rightarrow> Some d | None \<Rightarrow> dict_get (si_attrs x) n)"
  proof (cases "\<forall>u \<in> set (map ?u data). u = []")
    case True
    then have "?u (data ! i) = []" using assms(2) by simp
    then have "n \<in> set (si_set x)" using assms(3,4) by (auto simp: unset_names_def filter_empty_conv)
    moreover have "vs = rows" using assms(1) rows True unfolding create_values_def by simp
    ultimately show ?thesis using row by simp
  next
    case False
    then have "vs = map2 (\<lambda>v u. dict_update (filter (\<lambda>(n, x). n \<in> set u) ?d) v) rows (map ?u data)"
      using assms(1) rows unfolding create_values_def Let_def by (simp only: result_bind_simps if_False) simp
    then have v: "vs ! i = dict_update (filter (\<lambda>(n, y). n \<in> set (?u (data ! i))) ?d) (rows ! i)"
      using len assms(2) by simp
    have dist: "distinct (dict_keys ?d)" unfolding schema_default_fold by (rule default_fold_distinct) simp
    then have dist': "distinct (dict_keys (filter (\<lambda>(n, y). n \<in> set (?u (data ! i))) ?d))"
      by (rule distinct_map_filter)
    have get: "dict_get (filter (\<lambda>(n, y). n \<in> set U) ?d) n = (if n \<in> set U then dict_get ?d n else None)" for U
      by (simp add: map_of_filter_key)
    have mem: "n \<in> set (?u (data ! i)) \<longleftrightarrow> n \<notin> set (si_set x)" using assms(3,4) by (auto simp: unset_names_def)
    have "n \<in> set (concat (map ?u data))" if "n \<notin> set (si_set x)"
      using mem that assms(2) by auto
    then show ?thesis
      unfolding v dict_update_get [OF dist'] get mem schema_default_get row by auto
  qed
qed

subsection \<open>The registry\<close>

lemma validate_field_served:
  "validate_field known s schema n = [] \<longleftrightarrow>
     (\<exists>f. meta_field (sc_meta s) n = Some f
        \<and> (fm_is_relation f \<longrightarrow> (case fm_related f of None \<Rightarrow> True | Some rel \<Rightarrow> known rel)))"
  by (auto simp: validate_field_def split: option.splits if_splits)

definition service_ok :: "(string \<Rightarrow> bool) \<Rightarrow> service_class \<Rightarrow> bool" where
  "service_ok known s \<longleftrightarrow>
     (\<forall>sch fs. Some (sch, fs) \<in> set (sc_schemas s) \<longrightarrow>
        (\<forall>n \<in> set fs. \<exists>f. meta_field (sc_meta s) n = Some f
           \<and> (fm_is_relation f \<longrightarrow> (case fm_related f of None \<Rightarrow> True | Some rel \<Rightarrow> known rel))))
   \<and> (\<forall>d rel. (d, Some rel) \<in> set (sc_dimensions s) \<longrightarrow> known rel)"

lemma service_problems_ok: "service_problems known s = [] \<longleftrightarrow> service_ok known s"
proof -
  have dim: "validate_dimension known s d = [] \<longleftrightarrow> (\<forall>rel. snd d = Some rel \<longrightarrow> known rel)" for d
    by (auto simp: validate_dimension_def split: option.split)
  have "concat (map (validate_dimension known s) (sc_dimensions s)) = [] \<longleftrightarrow>
      (\<forall>d \<in> set (sc_dimensions s). \<forall>rel. snd d = Some rel \<longrightarrow> known rel)"
    by (simp add: dim)
  also have "\<dots> \<longleftrightarrow> (\<forall>d rel. (d, Some rel) \<in> set (sc_dimensions s) \<longrightarrow> known rel)"
    by (metis prod.collapse snd_conv)
  moreover have "concat (map (\<lambda>sch. case sch of None \<Rightarrow> [] | Some (n, fs) \<Rightarrow> concat (map (validate_field known s n) fs)) (sc_schemas s)) = []
      \<longleftrightarrow> (\<forall>sch fs. Some (sch, fs) \<in> set (sc_schemas s) \<longrightarrow> (\<forall>n \<in> set fs. validate_field known s sch n = []))"
    by (simp only: concat_eq_Nil_conv set_map ball_simps) (force split: option.splits)
  ultimately show ?thesis
    unfolding service_problems_def service_ok_def validate_field_served by (simp only: append_is_Nil_conv)
qed

text \<open>
  Start-up succeeds exactly when every field a service's schemas accept exists on its model
  and every relation among them, or grouped by, leads to a model that has a service.
\<close>

theorem services_validated_iff:
  "validate_services r = Inr () \<longleftrightarrow> (\<forall>s \<in> snd ` set r. service_ok (\<lambda>x. x \<in> set (dict_keys r)) s)"
proof -
  have "validate_services r = Inr () \<longleftrightarrow> (\<forall>s \<in> snd ` set r. service_problems (\<lambda>x. x \<in> set (dict_keys r)) s = [])"
    by (simp add: validate_services_def Let_def case_prod_unfold)
  then show ?thesis unfolding service_problems_ok .
qed

subsection \<open>A program to run on\<close>

definition demo_meta :: model_meta where
  "demo_meta = \<lparr>mm_label = ''page'', mm_fields =
     [\<lparr>fm_name = ''title'', fm_is_relation = False, fm_concrete = True, fm_many_to_many = False, fm_null = False,
       fm_foreign_key = False, fm_m2m_field = False, fm_related = None\<rparr>,
      \<lparr>fm_name = ''site'', fm_is_relation = True, fm_concrete = True, fm_many_to_many = False, fm_null = True,
       fm_foreign_key = True, fm_m2m_field = False, fm_related = Some ''site''\<rparr>,
      \<lparr>fm_name = ''tags'', fm_is_relation = True, fm_concrete = True, fm_many_to_many = True, fm_null = False,
       fm_foreign_key = False, fm_m2m_field = True, fm_related = Some ''tag''\<rparr>]\<rparr>"

definition demo_env :: environment where
  "demo_env = \<lparr>env_services = [(''site'', ''SiteService''), (''tag'', ''TagService'')],
     env_rows = (\<lambda>m. if m = ''site'' then [''s1'', ''s2''] else [''t1'']),
     env_readable = (\<lambda>m pk. pk \<noteq> ''s2''),
     env_to_python = (\<lambda>m v. case v of Str s \<Rightarrow> Some s | _ \<Rightarrow> None)\<rparr>"

definition demo_checks :: checks where
  "demo_checks = \<lparr>ck_validators = (\<lambda>f v. None), ck_validate = (\<lambda>f v. if v = Str [] then Some ''blank'' else None),
     ck_null_message = (\<lambda>f. ''null'')\<rparr>"

definition demo_item :: "string \<Rightarrow> string \<Rightarrow> (string \<times> val) list" where
  "demo_item site tag = [(''title'', Str ''Home''), (''site'', Str site), (''tags'', Many [Str tag])]"

lemma demo_served: "relations_served demo_env demo_meta"
  by (auto simp: relations_served_def demo_meta_def demo_env_def m2m_names_def fk_names_def meta_field_def)

theorem only_readable_records_are_linked_witness:
  "to_internal_values demo_env demo_checks (\<lambda>v. []) demo_meta [demo_item ''s1'' ''t1'']
     = Inr [ [(''title'', Str ''Home''), (''site'', Ref ''site'' ''s1''), (''tags'', Many [Ref ''tag'' ''t1''])]]
   \<and> (\<forall>result. to_internal_values demo_env demo_checks (\<lambda>v. []) demo_meta [demo_item ''s2'' ''t1''] \<noteq> Inr result)"
proof -
  have d: "\<forall>item \<in> set [demo_item s tg]. distinct (dict_keys item)" for s tg by (simp add: demo_item_def)
  note iff = only_readable_records_are_linked [OF demo_served d]
  have "item_checked demo_checks demo_meta (demo_item s tg)" for s tg
    by (simp add: item_checked_def demo_item_def demo_meta_def meta_field_def field_problem_def demo_checks_def)
  moreover have "internal_item demo_env demo_meta (demo_item ''s1'' ''t1'')
      [(''title'', Str ''Home''), (''site'', Ref ''site'' ''s1''), (''tags'', Many [Ref ''tag'' ''t1''])]"
    by (simp add: internal_item_def demo_item_def internal_value_def m2m_names_def fk_names_def demo_meta_def
        related_of_def meta_field_def visible_ref_def demo_env_def List.map_filter_simps)
  moreover have "\<not> internal_item demo_env demo_meta (demo_item ''s2'' ''t1'') row" for row
    by (auto simp: internal_item_def demo_item_def internal_value_def m2m_names_def fk_names_def demo_meta_def
        related_of_def meta_field_def visible_ref_def demo_env_def List.map_filter_simps list_all2_Cons1)
  ultimately show ?thesis unfolding iff by (simp add: list_all2_Cons1)
qed

definition demo_service :: "string list \<Rightarrow> service_class" where
  "demo_service fs = \<lparr>sc_name = ''PageService'', sc_meta = demo_meta, sc_schemas = [Some (''PageIn'', fs)], sc_dimensions = []\<rparr>"

theorem services_validated_iff_witness:
  "validate_services [(''page'', demo_service [''title''])] = Inr ()
   \<and> validate_services [(''page'', demo_service [''site''])] \<noteq> Inr ()"
  unfolding services_validated_iff
  by (simp add: service_ok_def demo_service_def demo_meta_def meta_field_def)

definition demo_errors :: multi_error where
  "demo_errors = multi_error [(At 0, Error [(''tags'', [''Invalid value(s) for field tags: ?''])])] ''invalid_data''"

theorem one_relation_error_per_record_witness:
  "to_internal_values demo_env demo_checks (\<lambda>v. ''?'') demo_meta [demo_item ''s2'' ''t2''] = Inl (Invalid demo_errors)
   \<and> single_errors demo_errors"
proof -
  have run: "to_internal_values demo_env demo_checks (\<lambda>v. ''?'') demo_meta [demo_item ''s2'' ''t2''] = Inl (Invalid demo_errors)"
    by code_simp
  have "\<forall>item \<in> set [demo_item ''s2'' ''t2'']. item_checked demo_checks demo_meta item"
    by (simp add: item_checked_def demo_item_def demo_meta_def meta_field_def field_problem_def demo_checks_def)
  from one_relation_error_per_record [OF run this] run show ?thesis unfolding single_errors_def by blast
qed

definition demo_schema :: "schema_field list" where
  "demo_schema =
     [\<lparr>sf_name = ''title'', sf_required = True, sf_default = Null\<rparr>,
      \<lparr>sf_name = ''site'', sf_required = False, sf_default = Str ''s1''\<rparr>]"

definition demo_input :: schema_instance where
  "demo_input = \<lparr>si_attrs = [(''title'', Str ''a''), (''site'', Null)], si_set = [''title'']\<rparr>"

definition demo_row :: "(string \<times> val) list" where
  "demo_row = [(''title'', Str ''a''), (''site'', Str ''s1'')]"

theorem creation_uses_announced_defaults_witness:
  "\<exists>announced. default_values demo_env demo_meta (schema_default_values demo_meta demo_schema) None = Inr announced
    \<and> dict_get ([demo_row] ! 0) ''site'' =
        (if ''site'' \<in> set (si_set demo_input) then dict_get (si_attrs demo_input) ''site''
         else case dict_get announced ''site'' of Some d \<Rightarrow> Some d | None \<Rightarrow> dict_get (si_attrs demo_input) ''site'')"
proof (rule creation_uses_announced_defaults)
  show "create_values (schema_default_values demo_meta demo_schema) ''CreateSchema'' (map sf_name demo_schema)
      [Schema demo_input] = Inr [demo_row]" by code_simp
  show "''site'' \<in> sf_name ` set demo_schema" by (simp add: demo_schema_def)
qed simp_all

end
