(* ===== verification/Service_Writes.thy ===== *)
theory Service_Writes
  imports Service_Values
begin

text \<open>
  The transactional bodies of the operation mixins (\<open>core/services/mixins.py\<close>): create, update,
  delete and resequence of the rows of one model, with its many-to-many tables. What the write
  declares to the computed-field context is a log of events, each with the store it was made on.
  The hooks a service overrides, the constraints of the database and Django's deletion collector
  are parameters.
\<close>

subsection \<open>State\<close>

type_synonym row = "(string \<times> val) list"

text \<open>A link is a row of a through table: its key, the source, the target.\<close>

record store =
  st_rows :: "(string \<times> row) list"
  st_links :: "(string \<times> (nat \<times> string \<times> string) list) list"
  st_next :: nat

definition row_pks :: "store \<Rightarrow> string list" where
  "row_pks s = map fst (st_rows s)"

definition links_of :: "store \<Rightarrow> string \<Rightarrow> (nat \<times> string \<times> string) list" where
  "links_of s n = (case dict_get (st_links s) n of None \<Rightarrow> [] | Some l \<Rightarrow> l)"

text \<open>A queryset: what it selects, read each time it is evaluated.\<close>

type_synonym queryset = "store \<Rightarrow> string \<Rightarrow> bool"

definition selected :: "queryset \<Rightarrow> store \<Rightarrow> string list" where
  "selected q s = filter (q s) (row_pks s)"

datatype event = Created "string list" | Modified "string list" "string list" bool | Deleted "string list"

type_synonym declared = "(store \<times> event) list"

datatype database_error = ProtectedError string | OtherError string

text \<open>
  What a service and its model bring: the hooks, the checks the database makes of a store after
  a statement, what the collector deletes with some rows or why it refuses, the constraints with
  their messages, and which fields move rows between roots.
\<close>

record service_spec =
  sp_meta :: model_meta
  sp_validate :: "row \<Rightarrow> (string \<times> row) option \<Rightarrow> service_error option"
  sp_created_hook :: "string list \<Rightarrow> store \<Rightarrow> failure + store"
  sp_updated_hook :: "string list \<Rightarrow> row \<Rightarrow> store \<Rightarrow> failure + store"
  sp_deleted_hook :: "store \<Rightarrow> failure + store"
  sp_constraints :: "(string \<times> string option) list"
  sp_database :: "store \<Rightarrow> string option"
  sp_collect :: "store \<Rightarrow> string list \<Rightarrow> database_error + string list"
  sp_moves :: "string list \<Rightarrow> bool"

text \<open>\<open>transaction.atomic()\<close>: an exception leaves the store as it was.\<close>

definition atomic :: "(store \<Rightarrow> failure + ('r \<times> store)) \<Rightarrow> store \<Rightarrow> (failure + 'r) \<times> store" where
  "atomic body s = (case body s of Inl e \<Rightarrow> (Inl e, s) | Inr (r, s') \<Rightarrow> (Inr r, s'))"

text \<open>\<open>name in error_message\<close> for strings.\<close>

fun contains_string :: "string \<Rightarrow> string \<Rightarrow> bool" where
  "contains_string p [] = (p = [])"
| "contains_string p (c # s) = (starts_with p (c # s) \<or> contains_string p s)"

definition global_error :: "messages \<Rightarrow> string \<Rightarrow> failure" where
  "global_error ms code = Invalid (multi_error [(Named NON_FIELD_ERRORS, Error (service_error ms None))] code)"

definition database_error_to_validation_error :: "service_spec \<Rightarrow> database_error \<Rightarrow> failure" where
  "database_error_to_validation_error sp exc =
     (case exc of
        ProtectedError msg \<Rightarrow> global_error (One msg) ''protected_error''
      | OtherError msg \<Rightarrow>
          (case find (\<lambda>(n, m). contains_string n msg \<and> m \<noteq> None \<and> m \<noteq> Some []) (sp_constraints sp) of
             Some (n, Some m) \<Rightarrow> global_error (Several [m]) ''integrity_error''
           | _ \<Rightarrow> global_error (Several [''A global validation error occurred: '' @ msg]) ''integrity_error''))"

text \<open>A statement is refused when the database finds a constraint violated by its result.\<close>

definition statement :: "service_spec \<Rightarrow> store \<Rightarrow> failure + store" where
  "statement sp s =
     (case sp_database sp s of
        Some msg \<Rightarrow> Inl (database_error_to_validation_error sp (OtherError msg))
      | None \<Rightarrow> Inr s)"

subsection \<open>Validation of the batch\<close>

fun validate_all ::
    "service_spec \<Rightarrow> (entry_key \<times> row \<times> (string \<times> row) option) list \<Rightarrow> multi_error \<Rightarrow> multi_error" where
  "validate_all sp [] err = err"
| "validate_all sp ((k, data, instance_row) # rest) err =
     validate_all sp rest
       (case sp_validate sp data instance_row of None \<Rightarrow> err | Some e \<Rightarrow> add_error k e err)"

subsection \<open>Create\<close>

definition without :: "string list \<Rightarrow> row \<Rightarrow> row" where
  "without ns r = filter (\<lambda>(n, v). n \<notin> set ns) r"

fun refs :: "val \<Rightarrow> string list" where
  "refs (Many vs) = concat (map refs vs)"
| "refs (Ref m pk) = [pk]"
| "refs v = []"

text \<open>\<open>relation.add(...)\<close> on a new row: each target once.\<close>

definition add_links :: "string \<Rightarrow> string \<Rightarrow> string list \<Rightarrow> store \<Rightarrow> store" where
  "add_links n src dsts s =
     (let new = uniq dsts in
      s\<lparr>st_links := dict_put n (links_of s n @ map2 (\<lambda>i d. (st_next s + i, src, d)) [0..<length new] new) (st_links s),
        st_next := st_next s + length new\<rparr>)"

definition given_refs :: "row \<Rightarrow> string \<Rightarrow> string list" where
  "given_refs r n = (case dict_get r n of None \<Rightarrow> [] | Some v \<Rightarrow> refs v)"

fun create_links :: "service_spec \<Rightarrow> (string \<times> string \<times> string list) list \<Rightarrow> store \<Rightarrow> failure + store" where
  "create_links sp [] s = Inr s"
| "create_links sp ((pk, n, dsts) # rest) s =
     (if dsts = [] then create_links sp rest s
      else result_bind (statement sp (add_links n pk dsts s)) (create_links sp rest))"

text \<open>
  The keys of the new rows are drawn by the model; \<open>scoped\<close> is the queryset under the access
  rules, evaluated once the rows are there.
\<close>

definition create_atomic ::
    "service_spec \<Rightarrow> string list \<Rightarrow> queryset \<Rightarrow> row list \<Rightarrow> store \<Rightarrow> failure + ((string list \<times> declared) \<times> store)" where
  "create_atomic sp pks scoped data s =
     (let err = validate_all sp (map2 (\<lambda>i d. (At i, d, None)) [0..<length data] data) (multi_error [] ''creation_invalid_data'')
      in if me_errors err \<noteq> [] then Inl (Invalid err)
      else let m2m = m2m_names (sp_meta sp); rows = map (without m2m) data in
        result_bind (statement sp (s\<lparr>st_rows := st_rows s @ zip pks rows\<rparr>)) (\<lambda>s1.
          if length (filter (\<lambda>pk. pk \<in> set pks) (selected scoped s1)) \<noteq> length pks
          then Inl (Denied ''You do not have permission to create some of the objects.'')
          else result_bind (create_links sp
                 (concat (map2 (\<lambda>pk d. map (\<lambda>n. (pk, n, given_refs d n)) m2m) pks data)) s1) (\<lambda>s2.
            result_bind (sp_created_hook sp pks s2) (\<lambda>s3. Inr ((pks, [(s2, Created pks)]), s3)))))"

definition create_rows ::
    "service_spec \<Rightarrow> string list \<Rightarrow> queryset \<Rightarrow> row list \<Rightarrow> store \<Rightarrow> (failure + (string list \<times> declared)) \<times> store" where
  "create_rows sp pks scoped data = atomic (create_atomic sp pks scoped data)"

subsection \<open>Update\<close>

definition write_row :: "row \<Rightarrow> row \<Rightarrow> row" where
  "write_row new r = fold (\<lambda>(n, v). dict_put n v) new r"

definition write_rows :: "string list \<Rightarrow> row \<Rightarrow> store \<Rightarrow> store" where
  "write_rows pks new s = s\<lparr>st_rows := map (\<lambda>(pk, r). (pk, if pk \<in> set pks then write_row new r else r)) (st_rows s)\<rparr>"

text \<open>
  One many-to-many field: the links of the rows written, by source and target; the missing ones
  are created, each as often as it is asked, the obsolete ones deleted.
\<close>

definition existing_links :: "store \<Rightarrow> string \<Rightarrow> string list \<Rightarrow> ((string \<times> string) \<times> nat) list" where
  "existing_links s n pks =
     fold (\<lambda>(k, src, dst) d. dict_put (src, dst) k d) (filter (\<lambda>(k, src, dst). src \<in> set pks) (links_of s n)) []"

definition links_to_create :: "((string \<times> string) \<times> nat) list \<Rightarrow> string list \<Rightarrow> string list \<Rightarrow> (string \<times> string) list" where
  "links_to_create existing pks dsts =
     filter (\<lambda>p. dict_get existing p = None) (concat (map (\<lambda>pk. map (Pair pk) dsts) pks))"

definition links_to_keep :: "((string \<times> string) \<times> nat) list \<Rightarrow> string list \<Rightarrow> string list \<Rightarrow> nat list" where
  "links_to_keep existing pks dsts =
     List.map_filter (dict_get existing) (concat (map (\<lambda>pk. map (Pair pk) dsts) pks))"

definition remove_links :: "string \<Rightarrow> nat list \<Rightarrow> store \<Rightarrow> store" where
  "remove_links n ks s =
     s\<lparr>st_links := dict_put n (filter (\<lambda>(k, src, dst). k \<notin> set ks) (links_of s n)) (st_links s)\<rparr>"

definition insert_links :: "string \<Rightarrow> (string \<times> string) list \<Rightarrow> store \<Rightarrow> store" where
  "insert_links n ps s =
     s\<lparr>st_links := dict_put n (links_of s n @ map2 (\<lambda>i (src, dst). (st_next s + i, src, dst)) [0..<length ps] ps) (st_links s),
       st_next := st_next s + length ps\<rparr>"

definition update_many_to_many :: "service_spec \<Rightarrow> string list \<Rightarrow> string \<Rightarrow> string list \<Rightarrow> store \<Rightarrow> failure + store" where
  "update_many_to_many sp pks n dsts s =
     (let existing = existing_links s n pks;
          create = links_to_create existing pks dsts;
          keep = links_to_keep existing pks dsts;
          remove = filter (\<lambda>k. k \<notin> set keep) (map snd existing);
          s1 = (if remove \<noteq> [] then remove_links n remove s else s)
      in if create \<noteq> [] then statement sp (insert_links n create s1) else Inr s1)"

fun update_relations :: "service_spec \<Rightarrow> string list \<Rightarrow> (string \<times> string list) list \<Rightarrow> store \<Rightarrow> failure + store" where
  "update_relations sp pks [] s = Inr s"
| "update_relations sp pks ((n, dsts) # rest) s =
     result_bind (update_many_to_many sp pks n dsts s) (update_relations sp pks rest)"

definition update_atomic ::
    "service_spec \<Rightarrow> queryset \<Rightarrow> row \<Rightarrow> store \<Rightarrow> failure + ((string list \<times> declared) \<times> store)" where
  "update_atomic sp q values s =
     (let instances = filter (\<lambda>(pk, r). q s pk) (st_rows s);
          pks = map fst instances;
          update_fields = map fst values;
          err = validate_all sp (map (\<lambda>(pk, r). (Named pk, values, Some (pk, r))) instances) (multi_error [] ''update_invalid_data'')
      in if me_errors err \<noteq> [] then Inl (Invalid err)
      else if pks = [] then Inr (([], []), s)
      else let m2m = filter (\<lambda>n. dict_get values n \<noteq> None) (m2m_names (sp_meta sp));
               plain = without m2m values;
               before = (if sp_moves sp update_fields then [(s, Modified pks update_fields True)] else [])
        in result_bind (statement sp (write_rows pks plain s)) (\<lambda>s1.
             result_bind (update_relations sp pks (map (\<lambda>n. (n, given_refs values n)) m2m) s1) (\<lambda>s2.
               result_bind (sp_updated_hook sp pks plain s2) (\<lambda>s3.
                 Inr ((pks, before @ [(s2, Modified pks update_fields False)]), s3)))))"

definition update_rows :: "service_spec \<Rightarrow> queryset \<Rightarrow> row \<Rightarrow> store \<Rightarrow> (failure + (string list \<times> declared)) \<times> store" where
  "update_rows sp q values = atomic (update_atomic sp q values)"

subsection \<open>Delete\<close>

definition delete_atomic :: "service_spec \<Rightarrow> queryset \<Rightarrow> store \<Rightarrow> failure + ((nat \<times> declared) \<times> store)" where
  "delete_atomic sp q s =
     (let pks = selected q s in
      case sp_collect sp s pks of
        Inl exc \<Rightarrow> Inl (database_error_to_validation_error sp exc)
      | Inr gone \<Rightarrow>
          result_bind (statement sp (s\<lparr>st_rows := filter (\<lambda>(pk, r). pk \<notin> set gone) (st_rows s),
              st_links := map (\<lambda>(n, l). (n, filter (\<lambda>(k, src, dst). src \<notin> set gone) l)) (st_links s)\<rparr>)) (\<lambda>s1.
            result_bind (sp_deleted_hook sp s1) (\<lambda>s2.
              Inr ((length (filter (\<lambda>(pk, r). pk \<in> set gone) (st_rows s)), [(s, Deleted pks)]), s2))))"

definition delete_rows :: "service_spec \<Rightarrow> queryset \<Rightarrow> store \<Rightarrow> (failure + (nat \<times> declared)) \<times> store" where
  "delete_rows sp q = atomic (delete_atomic sp q)"

subsection \<open>Resequence\<close>

text \<open>
  The values given, read as keys of the model; those that are none are kept apart. A database
  error is not turned into a validation error here.
\<close>

definition repeated :: "string list \<Rightarrow> string list" where
  "repeated pks = filter (\<lambda>pk. 1 < count_list pks pk) pks"

definition resequence_error :: "string \<Rightarrow> string list \<Rightarrow> failure" where
  "resequence_error what vs =
     Invalid (multi_error [(Named ''ids'', Error (service_error (One (what @ str_join '','' vs)) (Some ''ids'')))] ''invalid_data'')"

definition sequence_of :: "int \<Rightarrow> string list \<Rightarrow> string \<Rightarrow> int option" where
  "sequence_of offset pks pk = map_of (zip pks (map (\<lambda>i. offset + int i + 1) [0..<length pks])) pk"

definition resequence_atomic ::
    "service_spec \<Rightarrow> string \<Rightarrow> queryset \<Rightarrow> string list \<Rightarrow> string list \<Rightarrow> int \<Rightarrow> store \<Rightarrow> failure + ((nat \<times> declared) \<times> store)" where
  "resequence_atomic sp field q pks invalid offset s =
     (let found = filter (\<lambda>pk. pk \<in> set pks) (selected q s);
          missing = invalid @ filter (\<lambda>pk. pk \<notin> set found) pks
      in if missing \<noteq> [] then Inl (resequence_error ''Invalid value(s): '' missing)
      else let s1 = s\<lparr>st_rows := map (\<lambda>(pk, r). (pk, if pk \<in> set found
                 then dict_put field (case sequence_of offset pks pk of None \<Rightarrow> Null | Some i \<Rightarrow> Num i) r else r)) (st_rows s)\<rparr>
        in (case sp_database sp s1 of
              Some msg \<Rightarrow> Inl (DatabaseRaised msg)
            | None \<Rightarrow> Inr ((length pks, [(s1, Modified pks [field] False)]), s1)))"

definition resequence ::
    "service_spec \<Rightarrow> string \<Rightarrow> (val \<Rightarrow> string option) \<Rightarrow> (val \<Rightarrow> string) \<Rightarrow> queryset \<Rightarrow> val list \<Rightarrow> int \<Rightarrow> store
     \<Rightarrow> (failure + (nat \<times> declared)) \<times> store" where
  "resequence sp field to_python str q pks offset s =
     (if pks = [] then (Inr (0, []), s)
      else let coerced = List.map_filter to_python pks;
               invalid = map str (filter (\<lambda>v. to_python v = None) pks)
        in if repeated coerced \<noteq> []
           then (Inl (resequence_error ''Repeated value(s): '' (sort (uniq (repeated coerced)))), s)
           else atomic (resequence_atomic sp field q coerced invalid offset) s)"

end
