(* ===== verification/Service_Write_Laws.thy ===== *)
theory Service_Write_Laws
  imports Service_Writes
begin

text \<open>
  What the writes of the service layer guarantee: nothing is kept of a write that fails, a
  creation ends inside the scope of the acting user, an update leaves exactly the relations
  asked, a resequence numbers exactly the records given.
\<close>

lemma atomic_cases:
  "atomic body s = r \<Longrightarrow> (\<exists>x s'. body s = Inr (x, s') \<and> r = (Inr x, s')) \<or> (\<exists>e. body s = Inl e \<and> r = (Inl e, s))"
  by (auto simp: atomic_def split: sum.splits)

lemma statement_Inr [simp]: "statement sp s = Inr s' \<longleftrightarrow> s' = s \<and> sp_database sp s = None"
  by (auto simp: statement_def split: option.splits)

lemma write_fold_get:
  "dict_get (write_row new r) k = (case dict_get (rev new) k of Some v \<Rightarrow> Some v | None \<Rightarrow> dict_get r k)"
proof (induction new arbitrary: r)
  case (Cons kv new)
  obtain n v where kv: "kv = (n, v)" by (cases kv)
  have "write_row (kv # new) r = write_row new (dict_put n v r)" by (simp add: write_row_def kv)
  then show ?case using Cons.IH [of "dict_put n v r"] by (simp add: kv map_add_def split: option.split)
qed (simp add: write_row_def)

subsection \<open>Create\<close>

definition inserted :: "service_spec \<Rightarrow> string list \<Rightarrow> row list \<Rightarrow> store \<Rightarrow> store" where
  "inserted sp pks data s = s\<lparr>st_rows := st_rows s @ zip pks (map (without (m2m_names (sp_meta sp))) data)\<rparr>"

lemma filter_all_length: "distinct xs \<Longrightarrow> set ys \<subseteq> set xs \<Longrightarrow> distinct ys \<Longrightarrow>
    length (filter (\<lambda>x. x \<in> set ys) (filter P xs)) = length ys \<longleftrightarrow> (\<forall>y \<in> set ys. P y)"
proof -
  assume a: "distinct xs" "set ys \<subseteq> set xs" "distinct ys"
  let ?zs = "filter (\<lambda>x. x \<in> set ys) (filter P xs)"
  have "distinct ?zs" using a(1) by simp
  then have "length ?zs = card (set ?zs)" by (rule distinct_card [symmetric])
  also have "set ?zs = {y \<in> set ys. P y}" using a(2) by auto
  finally have "length ?zs = card {y \<in> set ys. P y}" .
  moreover have "length ys = card (set ys)" using a(3) by (simp add: distinct_card)
  moreover have "card {y \<in> set ys. P y} = card (set ys) \<longleftrightarrow> {y \<in> set ys. P y} = set ys"
    using card_subset_eq [of "set ys" "{y \<in> set ys. P y}"] by auto
  ultimately show ?thesis by auto
qed

lemma created_in_scope:
  assumes "distinct (row_pks s @ pks)" "length pks = length data"
  shows "case create_rows sp pks scoped data s of
      (Inl e, s') \<Rightarrow> s' = s
    | (Inr (created, ev), s') \<Rightarrow>
        created = pks \<and> (\<forall>pk \<in> set pks. scoped (inserted sp pks data s) pk)
        \<and> (\<exists>s2. st_rows s2 = st_rows (inserted sp pks data s) \<and> ev = [(s2, Created pks)] \<and> sp_created_hook sp pks s2 = Inr s')"
proof -
  have links_rows: "create_links sp ls s1 = Inr s2 \<Longrightarrow> st_rows s2 = st_rows s1" for ls s1 s2
    by (induction sp ls s1 rule: create_links.induct) (auto simp: add_links_def Let_def split: if_splits)
  have pks: "row_pks (inserted sp pks data s) = row_pks s @ pks"
    using assms(2) by (simp add: row_pks_def inserted_def)
  have sel: "length (filter (\<lambda>pk. pk \<in> set pks) (selected scoped (inserted sp pks data s))) = length pks
      \<longleftrightarrow> (\<forall>pk \<in> set pks. scoped (inserted sp pks data s) pk)"
    unfolding selected_def pks by (rule filter_all_length) (use assms(1) in auto)
  show ?thesis
    unfolding create_rows_def atomic_def create_atomic_def Let_def
    by (auto simp: sel [unfolded inserted_def] inserted_def split: sum.splits if_splits dest!: links_rows)
qed

text \<open>
  A creation either fails and leaves the store as it was, or every row it created was in
  the scope of the acting user once inserted, the event is declared after the relations are
  written, and the keys returned are the new ones.
\<close>

theorem creation_in_scope_or_nothing:
  assumes "distinct (row_pks s @ pks)" "length pks = length data"
  shows "case create_rows sp pks scoped data s of
      (Inl e, s') \<Rightarrow> s' = s
    | (Inr (created, ev), s') \<Rightarrow>
        created = pks \<and> (\<forall>pk \<in> set pks. scoped (inserted sp pks data s) pk)
        \<and> (\<exists>s2. st_rows s2 = st_rows (inserted sp pks data s) \<and> ev = [(s2, Created pks)] \<and> sp_created_hook sp pks s2 = Inr s')"
  by (rule created_in_scope [OF assms])

subsection \<open>Update\<close>

text \<open>A through table: one link per pair, one key per link, keys drawn in order.\<close>

definition links_ok :: "store \<Rightarrow> string \<Rightarrow> bool" where
  "links_ok s n \<longleftrightarrow> distinct (map snd (links_of s n)) \<and> distinct (map fst (links_of s n))
     \<and> (\<forall>l \<in> set (links_of s n). fst l < st_next s)"

definition linked :: "store \<Rightarrow> string \<Rightarrow> string \<Rightarrow> string set" where
  "linked s n src = {dst. \<exists>k. (k, src, dst) \<in> set (links_of s n)}"

lemma existing_fold:
  "distinct (map snd ls) \<Longrightarrow>
   dict_get (fold (\<lambda>(k, src, dst) d. dict_put (src, dst) k d) ls d) p
     = (case find (\<lambda>l. snd l = p) ls of Some l \<Rightarrow> Some (fst l) | None \<Rightarrow> dict_get d p)"
proof (induction ls arbitrary: d)
  case (Cons l ls)
  obtain k src dst where l: "l = (k, src, dst)" by (cases l)
  have "find (\<lambda>l. snd l = (src, dst)) ls = None" using Cons.prems by (force simp: l find_None_iff)
  then show ?case using Cons.IH [of "dict_put (src, dst) k d"] Cons.prems by (auto simp: l split: option.split)
qed simp

lemma existing_links_iff:
  assumes "links_ok s n"
  shows "dict_get (existing_links s n pks) (src, dst) = Some k \<longleftrightarrow> src \<in> set pks \<and> (k, src, dst) \<in> set (links_of s n)"
proof -
  let ?ls = "filter (\<lambda>(k, src, dst). src \<in> set pks) (links_of s n)"
  have d: "distinct (map snd ?ls)" using assms unfolding links_ok_def by (blast intro: distinct_map_filter)
  have "find (\<lambda>l. snd l = (src, dst)) ?ls = Some l \<longleftrightarrow> l \<in> set ?ls \<and> snd l = (src, dst)" for l
    using find_unique [OF d, of l] find_Some_iff_mem [of "\<lambda>l. snd l = (src, dst)" ?ls l] by auto
  note f = this
  have none: "find (\<lambda>l. snd l = (src, dst)) ?ls = None \<longleftrightarrow> (\<forall>l \<in> set ?ls. snd l \<noteq> (src, dst))"
    by (auto simp: find_None_iff)
  show ?thesis
  proof (cases "find (\<lambda>l. snd l = (src, dst)) ?ls")
    case None
    then show ?thesis unfolding existing_links_def existing_fold [OF d] using none by auto
  next
    case (Some l)
    then have "existing_get = Some (fst l)" if "existing_get = dict_get (existing_links s n pks) (src, dst)" for existing_get
      unfolding that existing_links_def existing_fold [OF d] by simp
    moreover have "l \<in> set ?ls" "snd l = (src, dst)" using f Some by blast+
    moreover have "(k, src, dst) = l" if "(k, src, dst) \<in> set ?ls"
      using distinct_map_unique [OF d that \<open>l \<in> set ?ls\<close>] \<open>snd l = (src, dst)\<close> by simp
    ultimately show ?thesis by (cases l) auto
  qed
qed

lemma existing_keys_distinct: "distinct (dict_keys (existing_links s n pks))"
proof -
  have "distinct (dict_keys d) \<Longrightarrow> distinct (dict_keys (fold (\<lambda>(k, src, dst) d. dict_put (src, dst) k d) ls d))" for ls and d :: "((string \<times> string) \<times> nat) list"
    by (induction ls arbitrary: d) auto
  then show ?thesis by (simp add: existing_links_def)
qed

lemma links_of_insert: "links_of (insert_links n ps s) n'
    = (if n' = n then links_of s n @ map2 (\<lambda>i (src, dst). (st_next s + i, src, dst)) [0..<length ps] ps else links_of s n')"
  by (simp add: insert_links_def links_of_def)

lemma links_of_remove: "links_of (remove_links n ks s) n'
    = (if n' = n then filter (\<lambda>(k, src, dst). k \<notin> set ks) (links_of s n) else links_of s n')"
  by (simp add: remove_links_def links_of_def)

lemma snd_new_links: "map snd (map2 (\<lambda>i (src, dst). (b + i, src, dst)) [0..<length ps] ps) = ps"
  by (rule nth_equalityI) (auto simp: case_prod_unfold)

lemma fst_new_links: "map fst (map2 (\<lambda>i (src, dst). (b + i, src, dst)) [0..<length ps] ps) = map (\<lambda>i. b + i) [0..<length ps]"
  by (rule nth_equalityI) (auto simp: case_prod_unfold)

lemma new_links_mem:
  fixes p :: "string \<times> string"
  shows "(\<exists>k. (k, p) \<in> set (map2 (\<lambda>i (src, dst). (b + i, src, dst)) [0..<length ps] ps)) \<longleftrightarrow> p \<in> set ps"
proof -
  have "(\<exists>k. (k, p) \<in> set l) \<longleftrightarrow> p \<in> set (map snd l)" for l :: "(nat \<times> string \<times> string) list" by force
  then show ?thesis by (simp only: snd_new_links)
qed

lemma linked_insert:
  "linked (insert_links n ps s) n src = linked s n src \<union> {dst. (src, dst) \<in> set ps}"
  unfolding linked_def links_of_insert
  using new_links_mem [of "(src, _)" "st_next s" ps] by (auto simp: ex_disj_distrib)

lemma insert_links_pairs: "map snd (links_of (insert_links n ps s) n) = map snd (links_of s n) @ ps"
  by (simp only: links_of_insert refl if_True map_append snd_new_links)

lemma remove_some_links:
  "set (links_of (if R \<noteq> [] then remove_links n R s else s) n) = {l \<in> set (links_of s n). fst l \<notin> set R}"
  by (cases "R = []") (auto simp: links_of_remove)

lemma set_map_filter: "x \<in> set (List.map_filter f xs) \<longleftrightarrow> (\<exists>y \<in> set xs. f y = Some x)"
  by (induction xs) (auto simp: List.map_filter_simps split: option.splits)

lemma set_pairs: "set (concat (map (\<lambda>pk. map (Pair pk) dsts) pks)) = set pks \<times> set dsts"
  by auto

text \<open>What the update of one relation keeps and removes.\<close>

lemma removed_links:
  assumes ok: "links_ok s n" and l: "(k, src, dst) \<in> set (links_of s n)"
  shows "k \<in> set (filter (\<lambda>k. k \<notin> set (links_to_keep (existing_links s n pks) pks dsts)) (map snd (existing_links s n pks)))
    \<longleftrightarrow> src \<in> set pks \<and> dst \<notin> set dsts"
proof -
  let ?e = "existing_links s n pks"
  have same: "src' = src \<and> dst' = dst" if "(k, src', dst') \<in> set (links_of s n)" for src' dst'
    using distinct_map_unique [of fst "links_of s n" "(k, src, dst)" "(k, src', dst')"] ok l that
    by (simp add: links_ok_def)
  have key: "dict_get ?e p = Some k \<longleftrightarrow> p = (src, dst) \<and> src \<in> set pks" for p
  proof -
    obtain a b where p: "p = (a, b)" by (cases p)
    show ?thesis unfolding p existing_links_iff [OF ok] using l same by blast
  qed
  have "dict_get ?e p = Some k \<longleftrightarrow> (p, k) \<in> set ?e" for p
    by (rule map_of_eq_Some_iff [OF existing_keys_distinct])
  then have "k \<in> set (map snd ?e) \<longleftrightarrow> (\<exists>p. dict_get ?e p = Some k)" by force
  then have in_e: "k \<in> set (map snd ?e) \<longleftrightarrow> src \<in> set pks" using key by auto
  have "k \<in> set (links_to_keep ?e pks dsts) \<longleftrightarrow> (\<exists>p \<in> set pks \<times> set dsts. dict_get ?e p = Some k)"
    unfolding links_to_keep_def set_map_filter set_pairs ..
  then have "k \<in> set (links_to_keep ?e pks dsts) \<longleftrightarrow> src \<in> set pks \<and> dst \<in> set dsts" using key by auto
  with in_e show ?thesis by auto
qed

lemma created_links:
  assumes ok: "links_ok s n"
  shows "(src, dst) \<in> set (links_to_create (existing_links s n pks) pks dsts)
    \<longleftrightarrow> src \<in> set pks \<and> dst \<in> set dsts \<and> dst \<notin> linked s n src"
proof -
  have "dict_get (existing_links s n pks) (src, dst) = None \<longleftrightarrow> src \<notin> set pks \<or> dst \<notin> linked s n src"
    using existing_links_iff [OF ok, of pks src dst] unfolding linked_def by (cases "dict_get (existing_links s n pks) (src, dst)") auto
  then show ?thesis by (auto simp: links_to_create_def)
qed

text \<open>
  An update of a many-to-many field leaves each of its records linked to exactly the records
  asked, the other records as they were, and a link that stays is the same row of the table.
\<close>

theorem update_replaces_relations:
  assumes ok: "links_ok s n" and up: "update_many_to_many sp pks n dsts s = Inr s'"
  shows "(\<forall>src. linked s' n src = (if src \<in> set pks then set dsts else linked s n src))
    \<and> {l \<in> set (links_of s n). fst (snd l) \<notin> set pks \<or> snd (snd l) \<in> set dsts} \<subseteq> set (links_of s' n)"
proof -
  let ?e = "existing_links s n pks"
  let ?create = "links_to_create ?e pks dsts"
  let ?remove = "filter (\<lambda>k. k \<notin> set (links_to_keep ?e pks dsts)) (map snd ?e)"
  let ?s1 = "if ?remove \<noteq> [] then remove_links n ?remove s else s"
  have links1: "set (links_of ?s1 n) = {l \<in> set (links_of s n). fst (snd l) \<notin> set pks \<or> snd (snd l) \<in> set dsts}"
  proof -
    have "set (links_of ?s1 n) = {l \<in> set (links_of s n). fst l \<notin> set ?remove}"
      by (rule remove_some_links)
    also have "\<dots> = {l \<in> set (links_of s n). fst (snd l) \<notin> set pks \<or> snd (snd l) \<in> set dsts}"
    proof (rule Collect_cong)
      fix l
      show "l \<in> set (links_of s n) \<and> fst l \<notin> set ?remove \<longleftrightarrow>
          l \<in> set (links_of s n) \<and> (fst (snd l) \<notin> set pks \<or> snd (snd l) \<in> set dsts)"
        using removed_links [OF ok, of "fst l" "fst (snd l)" "snd (snd l)" pks dsts] by (simp del: set_filter) blast
    qed
    finally show ?thesis .
  qed
  have s': "s' = (if ?create \<noteq> [] then insert_links n ?create ?s1 else ?s1)"
    using up unfolding update_many_to_many_def Let_def by (simp split: if_splits)
  have "linked s' n src = linked ?s1 n src \<union> {dst. (src, dst) \<in> set ?create}" for src
    unfolding s' using linked_insert [of n ?create ?s1 src] by auto
  moreover have "linked ?s1 n src = (if src \<in> set pks then linked s n src \<inter> set dsts else linked s n src)" for src
    unfolding linked_def links1 by auto
  ultimately have "linked s' n src = (if src \<in> set pks then set dsts else linked s n src)" for src
    unfolding created_links [OF ok] by auto
  moreover have "set (links_of ?s1 n) \<subseteq> set (links_of s' n)"
    unfolding s' by (auto simp: links_of_insert)
  ultimately show ?thesis using links1 by blast
qed

text \<open>
  A target repeated in the values of an update is created as often as it is asked, so the
  unique constraint of the through table refuses the update, whereas a creation given the same
  values links it once.
\<close>

theorem repeated_target_refused_by_update:
  assumes "links_ok s n" "pk \<in> set pks" "dst \<notin> linked s n pk" "dsts = xs @ dst # ys @ dst # zs"
    and "\<forall>t. \<not> distinct (map snd (links_of t n)) \<longrightarrow> sp_database sp t \<noteq> None"
  shows "\<not> is_inr (update_many_to_many sp pks n dsts s)
    \<and> map (snd \<circ> snd) (links_of (add_links n pk dsts s) n) = map (snd \<circ> snd) (links_of s n) @ uniq dsts"
proof -
  let ?create = "links_to_create (existing_links s n pks) pks dsts"
  have none: "dict_get (existing_links s n pks) (pk, dst) = None"
    using existing_links_iff [OF assms(1), of pks pk dst] assms(3)
    by (cases "dict_get (existing_links s n pks) (pk, dst)") (auto simp: linked_def)
  obtain as bs where pks: "pks = as @ pk # bs" using assms(2) by (meson split_list)
  have "\<not> distinct ?create"
    unfolding links_to_create_def pks assms(4) using none by (simp add: pks)
  then have "\<not> distinct (map snd (links_of (insert_links n ?create t) n))" for t
    unfolding insert_links_pairs by simp
  with assms(5) have "sp_database sp (insert_links n ?create t) \<noteq> None" for t by blast
  moreover have "?create \<noteq> []" using \<open>\<not> distinct ?create\<close> by force
  moreover have "\<not> is_inr (statement sp t)" if "sp_database sp t \<noteq> None" for t
    using that by (cases "sp_database sp t") (simp_all add: statement_def)
  ultimately have "\<not> is_inr (update_many_to_many sp pks n dsts s)"
    unfolding update_many_to_many_def Let_def by (simp only: if_True not_False_eq_True)
  moreover have "map (snd \<circ> snd) (map2 (\<lambda>i d. (b + i, pk, d)) [0..<length l] l) = l" for b :: nat and l :: "string list"
    by (rule nth_equalityI) auto
  ultimately show ?thesis by (simp add: add_links_def Let_def links_of_def)
qed

lemma update_rows_cases:
  "case update_rows sp q vs s of
     (Inl e, s') \<Rightarrow> s' = s
   | (Inr (pks, ev), s') \<Rightarrow> pks = filter (q s) (row_pks s) \<and>
       (if pks = [] then s' = s \<and> ev = []
        else \<exists>s2. st_rows s2 = st_rows (write_rows pks (without (m2m_names (sp_meta sp)) vs) s)
          \<and> ev = (if sp_moves sp (map fst vs) then [(s, Modified pks (map fst vs) True)] else [])
                   @ [(s2, Modified pks (map fst vs) False)]
          \<and> sp_updated_hook sp pks (without (m2m_names (sp_meta sp)) vs) s2 = Inr s')"
proof -
  have rel_rows: "update_relations sp pks rels s1 = Inr s2 \<Longrightarrow> st_rows s2 = st_rows s1" for pks rels s1 s2
    by (induction sp pks rels s1 rule: update_relations.induct)
      (auto simp: update_many_to_many_def Let_def remove_links_def insert_links_def split: if_splits)
  have pks: "map fst (filter (\<lambda>(pk, r). q s pk) (st_rows s)) = filter (q s) (row_pks s)"
    by (simp add: row_pks_def filter_map comp_def case_prod_unfold)
  have without_values: "without (filter (\<lambda>n. dict_get vs n \<noteq> None) ns) vs = without ns vs" for ns
    by (force simp: without_def map_of_eq_None_iff intro!: filter_cong)
  show ?thesis
    unfolding update_rows_def atomic_def update_atomic_def Let_def pks without_values
    by (auto split: sum.splits if_splits dest!: rel_rows)
qed

text \<open>
  An update declares its writes around them. When the fields written can move a row between
  roots, the rows are declared on the store as it was; then, once plain values and relations are
  all written and before the hook, they are declared again. An update that fails leaves the
  store as it was.
\<close>

theorem update_declares_around_the_write:
  "case update_rows sp q vs s of
     (Inl e, s') \<Rightarrow> s' = s
   | (Inr (pks, ev), s') \<Rightarrow> pks = filter (q s) (row_pks s) \<and>
       (if pks = [] then s' = s \<and> ev = []
        else \<exists>s2. st_rows s2 = st_rows (write_rows pks (without (m2m_names (sp_meta sp)) vs) s)
          \<and> ev = (if sp_moves sp (map fst vs) then [(s, Modified pks (map fst vs) True)] else [])
                   @ [(s2, Modified pks (map fst vs) False)]
          \<and> sp_updated_hook sp pks (without (m2m_names (sp_meta sp)) vs) s2 = Inr s')"
  by (rule update_rows_cases)

subsection \<open>Delete\<close>

text \<open>
  A deletion is declared on the store before it, takes every row it selects when the
  collector takes at least those, keeps the others that the collector leaves, and counts what
  went; a refused one leaves the store as it was.
\<close>

theorem deletion_takes_what_it_selects:
  assumes "\<forall>t pks gone. sp_collect sp t pks = Inr gone \<longrightarrow> set pks \<subseteq> set gone"
    and "\<forall>t t'. sp_deleted_hook sp t = Inr t' \<longrightarrow> st_rows t' = st_rows t"
  shows "case delete_rows sp q s of
      (Inl e, s') \<Rightarrow> s' = s
    | (Inr (n, ev), s') \<Rightarrow> ev = [(s, Deleted (selected q s))]
        \<and> (\<forall>pk \<in> set (selected q s). pk \<notin> set (row_pks s')) \<and> length (st_rows s') + n = length (st_rows s)"
proof -
  have gone: "sp_collect sp s (selected q s) = Inr gone \<Longrightarrow> pk \<in> set (selected q s) \<Longrightarrow> pk \<in> set gone" for gone pk
    using assms(1) by blast
  have hook: "sp_deleted_hook sp t = Inr t' \<Longrightarrow> st_rows t' = st_rows t" for t t' using assms(2) by blast
  have len: "length (filter (\<lambda>(pk, r). pk \<notin> set g) l) + length (filter (\<lambda>(pk, r). pk \<in> set g) l) = length l"
    for g and l :: "(string \<times> row) list"
    by (induction l) auto
  show ?thesis
    unfolding delete_rows_def atomic_def delete_atomic_def Let_def
    by (auto simp: row_pks_def len dest!: hook dest: gone split: sum.splits)
qed

subsection \<open>Resequence\<close>

lemma repeated_Nil: "repeated pks = [] \<longleftrightarrow> distinct pks"
proof -
  have "(\<forall>pk \<in> set pks. count_list pks pk \<le> 1) \<longleftrightarrow> distinct pks"
    by (induction pks) (auto simp: count_list_0_iff)
  then show ?thesis by (auto simp: repeated_def filter_empty_conv not_less)
qed

lemma map_filter_total: "\<forall>v \<in> set vs. f v \<noteq> None \<Longrightarrow> List.map_filter f vs = map (\<lambda>v. the (f v)) vs"
  by (induction vs) (auto simp: List.map_filter_simps)

lemma map_keeps_others:
  "x \<in> set l \<Longrightarrow> fst x \<notin> S \<Longrightarrow> x \<in> set (map (\<lambda>(k, r). (k, if k \<in> S then g k r else r)) l)"
  by (induction l) auto

lemma sequence_of_nth: "distinct pks \<Longrightarrow> i < length pks \<Longrightarrow> sequence_of offset pks (pks ! i) = Some (offset + int i + 1)"
  unfolding sequence_of_def by (subst map_of_zip_nth) auto

text \<open>
  A resequence is all or nothing. It succeeds only when every value given is the key of a
  row in reach and none is repeated; the \<open>i\<close>-th row then holds \<open>offset + i + 1\<close>, every other row
  is as it was, and the count is the number of keys given.
\<close>

theorem resequence_numbers_in_order:
  assumes "distinct (row_pks s)"
  shows "case resequence sp field to_python str q pks offset s of
      (Inl e, s') \<Rightarrow> s' = s
    | (Inr (n, ev), s') \<Rightarrow> n = length pks
        \<and> (\<forall>i < length pks. \<exists>pk r. to_python (pks ! i) = Some pk \<and> q s pk
             \<and> (pk, r) \<in> set (st_rows s') \<and> dict_get r field = Some (Num (offset + int i + 1)))
        \<and> {x \<in> set (st_rows s). \<forall>v \<in> set pks. to_python v \<noteq> Some (fst x)} \<subseteq> set (st_rows s')"
proof (cases "pks = []")
  case True
  then show ?thesis by (auto simp: resequence_def)
next
  case False
  let ?co = "List.map_filter to_python pks" and ?inv = "map str (filter (\<lambda>v. to_python v = None) pks)"
  let ?found = "filter (\<lambda>pk. pk \<in> set ?co) (selected q s)"
  show ?thesis
  proof (cases "resequence sp field to_python str q pks offset s")
    case (Pair r s')
    show ?thesis
    proof (cases r)
      case (Inl e)
      with Pair False show ?thesis
        by (auto simp: resequence_def Let_def atomic_def split: if_splits sum.splits)
    next
      case (Inr ne)
      obtain n ev where ne: "ne = (n, ev)" by (cases ne)
      from Pair Inr ne False have rep: "repeated ?co = []"
        and body: "resequence_atomic sp field q ?co ?inv offset s = Inr ((n, ev), s')"
        by (auto simp: resequence_def Let_def atomic_def split: if_splits sum.splits)
      from body have missing: "?inv @ filter (\<lambda>pk. pk \<notin> set ?found) ?co = []"
        and n: "n = length ?co"
        and s': "st_rows s' = map (\<lambda>(pk, r). (pk, if pk \<in> set ?found
           then dict_put field (case sequence_of offset ?co pk of None \<Rightarrow> Null | Some i \<Rightarrow> Num i) r else r)) (st_rows s)"
        by (auto simp: resequence_atomic_def Let_def split: if_splits option.splits)
      from missing have total: "\<forall>v \<in> set pks. to_python v \<noteq> None" by (auto simp: filter_empty_conv)
      then have co: "?co = map (\<lambda>v. the (to_python v)) pks" by (rule map_filter_total)
      have dist: "distinct ?co" using rep repeated_Nil by blast
      have reach: "\<forall>pk \<in> set ?co. pk \<in> set (row_pks s) \<and> q s pk"
        using missing by (auto simp: filter_empty_conv selected_def)
      have "\<exists>pk r. to_python (pks ! i) = Some pk \<and> q s pk \<and> (pk, r) \<in> set (st_rows s')
          \<and> dict_get r field = Some (Num (offset + int i + 1))" if i: "i < length pks" for i
      proof -
        have pk: "to_python (pks ! i) = Some (?co ! i)" "?co ! i \<in> set ?co" using i total co by auto
        with reach obtain r where r: "(?co ! i, r) \<in> set (st_rows s)" by (auto simp: row_pks_def)
        have "?co ! i \<in> set ?found" using reach pk(2) by (auto simp: selected_def)
        moreover have "sequence_of offset ?co (?co ! i) = Some (offset + int i + 1)"
          by (rule sequence_of_nth [OF dist]) (simp add: co i)
        ultimately have "(?co ! i, dict_put field (Num (offset + int i + 1)) r) \<in> set (st_rows s')"
          unfolding s' using r by force
        with pk reach show ?thesis by (intro exI conjI) auto
      qed
      moreover have "{x \<in> set (st_rows s). \<forall>v \<in> set pks. to_python v \<noteq> Some (fst x)} \<subseteq> set (st_rows s')"
      proof
        fix x assume "x \<in> {x \<in> set (st_rows s). \<forall>v \<in> set pks. to_python v \<noteq> Some (fst x)}"
        moreover from this have "fst x \<notin> set ?found" using total unfolding co by force
        ultimately show "x \<in> set (st_rows s')" unfolding s' by (intro map_keeps_others) auto
      qed
      ultimately show ?thesis using Pair Inr ne n co by simp
    qed
  qed
qed

subsection \<open>A service to run on\<close>

text \<open>Pages with tags; the table of the tags has the unique constraint Django gives it.\<close>

definition demo_spec :: service_spec where
  "demo_spec = \<lparr>
     sp_meta = \<lparr>mm_label = ''page'', mm_fields =
       [\<lparr>fm_name = ''tags'', fm_is_relation = True, fm_concrete = True, fm_many_to_many = True, fm_null = False,
         fm_foreign_key = False, fm_m2m_field = True, fm_related = Some ''tag''\<rparr>]\<rparr>,
     sp_validate = (\<lambda>d r. None),
     sp_created_hook = (\<lambda>pks s. Inr s), sp_updated_hook = (\<lambda>pks v s. Inr s), sp_deleted_hook = Inr,
     sp_constraints = [],
     sp_database = (\<lambda>s. if distinct (map snd (links_of s ''tags'')) then None else Some ''unique''),
     sp_collect = (\<lambda>s pks. Inr pks),
     sp_moves = (\<lambda>ns. False)\<rparr>"

definition demo_store :: store where
  "demo_store = \<lparr>st_rows = [(''p1'', [(''sequence'', Num 1)]), (''p2'', [(''sequence'', Num 2)])],
     st_links = [(''tags'', [(0, ''p1'', ''t1''), (1, ''p2'', ''t1'')])], st_next = 2\<rparr>"

definition mine :: queryset where
  "mine s pk \<longleftrightarrow> pk \<noteq> ''p3''"

lemma demo_links_ok: "links_ok demo_store ''tags''"
  by (simp add: links_ok_def demo_store_def links_of_def)

theorem creation_in_scope_or_nothing_witness:
  "create_rows demo_spec [''p3''] mine [ [(''sequence'', Num 3)] ] demo_store
     = (Inl (Denied ''You do not have permission to create some of the objects.''), demo_store)
   \<and> (case create_rows demo_spec [''p4''] mine [ [(''sequence'', Num 3)] ] demo_store of
      (Inl e, s') \<Rightarrow> s' = demo_store
    | (Inr (created, ev), s') \<Rightarrow>
        created = [''p4''] \<and> (\<forall>pk \<in> set [''p4'']. mine (inserted demo_spec [''p4''] [ [(''sequence'', Num 3)] ] demo_store) pk)
        \<and> (\<exists>s2. st_rows s2 = st_rows (inserted demo_spec [''p4''] [ [(''sequence'', Num 3)] ] demo_store)
             \<and> ev = [(s2, Created [''p4''])] \<and> sp_created_hook demo_spec [''p4''] s2 = Inr s'))"
proof (rule conjI)
  show "create_rows demo_spec [''p3''] mine [ [(''sequence'', Num 3)] ] demo_store
     = (Inl (Denied ''You do not have permission to create some of the objects.''), demo_store)" by code_simp
qed (rule creation_in_scope_or_nothing, simp_all add: row_pks_def demo_store_def)

theorem update_replaces_relations_witness:
  "\<exists>s'. update_many_to_many demo_spec [''p1''] ''tags'' [''t1'', ''t2''] demo_store = Inr s'
     \<and> linked s' ''tags'' ''p1'' = {''t1'', ''t2''} \<and> (0, ''p1'', ''t1'') \<in> set (links_of s' ''tags'')"
proof -
  have run: "is_inr (update_many_to_many demo_spec [''p1''] ''tags'' [''t1'', ''t2''] demo_store)" by code_simp
  then obtain s' where s': "update_many_to_many demo_spec [''p1''] ''tags'' [''t1'', ''t2''] demo_store = Inr s'"
    by (cases "update_many_to_many demo_spec [''p1''] ''tags'' [''t1'', ''t2''] demo_store") auto
  have "(0, ''p1'', ''t1'') \<in> set (links_of demo_store ''tags'')" by (simp add: demo_store_def links_of_def)
  with update_replaces_relations [OF demo_links_ok s'] s' show ?thesis by auto
qed

theorem repeated_target_refused_by_update_witness:
  "\<not> is_inr (update_many_to_many demo_spec [''p1''] ''tags'' [''t2'', ''t2''] demo_store)
   \<and> map (snd \<circ> snd) (links_of (add_links ''tags'' ''p1'' [''t2'', ''t2''] demo_store) ''tags'')
      = map (snd \<circ> snd) (links_of demo_store ''tags'') @ uniq [''t2'', ''t2'']"
  by (rule repeated_target_refused_by_update [OF demo_links_ok, where xs = "[]" and ys = "[]" and zs = "[]"])
    (auto simp: linked_def demo_store_def links_of_def demo_spec_def)

theorem deletion_takes_what_it_selects_witness:
  "case delete_rows demo_spec mine demo_store of
      (Inl e, s') \<Rightarrow> s' = demo_store
    | (Inr (n, ev), s') \<Rightarrow> ev = [(demo_store, Deleted (selected mine demo_store))]
        \<and> (\<forall>pk \<in> set (selected mine demo_store). pk \<notin> set (row_pks s')) \<and> length (st_rows s') + n = length (st_rows demo_store)"
  by (rule deletion_takes_what_it_selects) (simp_all add: demo_spec_def)

theorem resequence_numbers_in_order_witness:
  "case resequence demo_spec ''sequence'' (\<lambda>v. case v of Str s \<Rightarrow> Some s | _ \<Rightarrow> None) (\<lambda>v. ''?'') mine
       [Str ''p2'', Str ''p1''] 20 demo_store of
      (Inl e, s') \<Rightarrow> s' = demo_store
    | (Inr (n, ev), s') \<Rightarrow> n = length [Str ''p2'', Str ''p1'']
        \<and> (\<forall>i < length [Str ''p2'', Str ''p1'']. \<exists>pk r.
             (\<lambda>v. case v of Str s \<Rightarrow> Some s | _ \<Rightarrow> None) ([Str ''p2'', Str ''p1''] ! i) = Some pk \<and> mine demo_store pk
             \<and> (pk, r) \<in> set (st_rows s') \<and> dict_get r ''sequence'' = Some (Num (20 + int i + 1)))
        \<and> {x \<in> set (st_rows demo_store). \<forall>v \<in> set [Str ''p2'', Str ''p1''].
             (\<lambda>v. case v of Str s \<Rightarrow> Some s | _ \<Rightarrow> None) v \<noteq> Some (fst x)} \<subseteq> set (st_rows s')"
  by (rule resequence_numbers_in_order) (simp add: demo_store_def row_pks_def)

end
