(* ===== verification/Service_Layer.thy ===== *)
theory Service_Layer
  imports Service_Laws Service_Write_Laws
begin

text \<open>
  The public operations of a service, composed as \<open>core/services/mixins.py\<close> composes them: the
  values of the inputs and the relations are resolved first, then one transaction writes. What
  ends up stored is only what the schema declares, the service announces and the acting user may
  link to.
\<close>

definition service_create ::
    "service_spec \<Rightarrow> environment \<Rightarrow> checks \<Rightarrow> (val \<Rightarrow> string) \<Rightarrow> (string list option \<Rightarrow> row) \<Rightarrow> string \<Rightarrow> string list
     \<Rightarrow> string list \<Rightarrow> queryset \<Rightarrow> input_data list \<Rightarrow> store \<Rightarrow> (failure + (string list \<times> declared)) \<times> store" where
  "service_create sp env ck str overridden schema declared pks scoped data s =
     (case create_values overridden schema declared data of
        Inl e \<Rightarrow> (Inl e, s)
      | Inr rows \<Rightarrow>
          (case to_internal_values env ck str (sp_meta sp) rows of
             Inl e \<Rightarrow> (Inl e, s)
           | Inr internal \<Rightarrow> create_rows sp pks scoped internal s))"

definition service_update ::
    "service_spec \<Rightarrow> environment \<Rightarrow> checks \<Rightarrow> (val \<Rightarrow> string) \<Rightarrow> string \<Rightarrow> string list
     \<Rightarrow> queryset \<Rightarrow> input_data \<Rightarrow> store \<Rightarrow> (failure + (string list \<times> declared)) \<times> store" where
  "service_update sp env ck str schema declared q data s =
     (case input_values data schema declared True of
        Inl e \<Rightarrow> (Inl e, s)
      | Inr values \<Rightarrow>
          (case to_internal_values env ck str (sp_meta sp) [values] of
             Inl e \<Rightarrow> (Inl e, s)
           | Inr internal \<Rightarrow> update_rows sp q (hd internal) s))"

lemma input_values_keys:
  "input_values data schema declared u = Inr r \<Longrightarrow> distinct declared \<Longrightarrow>
   distinct (dict_keys r) \<and> set (dict_keys r) \<subseteq> set declared
   \<and> (u \<longrightarrow> set (dict_keys r) \<subseteq> set (si_set (schema_of data)))"
proof -
  have keys: "dict_keys (List.map_filter (\<lambda>n. map_option (Pair n) (g n)) ns) = filter (\<lambda>n. g n \<noteq> None) ns"
    for g :: "string \<Rightarrow> val option" and ns
    by (induction ns) (auto simp: List.map_filter_simps split: option.splits)
  assume r: "input_values data schema declared u = Inr r" and d: "distinct declared"
  from r obtain x ns where x: "data = Schema x" "ns = (if u then filter (\<lambda>n. n \<in> set (si_set x)) declared else declared)"
    "r = List.map_filter (\<lambda>n. map_option (Pair n) (dict_get (si_attrs x) n)) ns"
    by (cases data) (auto simp: input_values_def)
  then have "dict_keys r = filter (\<lambda>n. dict_get (si_attrs x) n \<noteq> None) ns" by (simp add: keys)
  with x(1,2) d show ?thesis by (auto simp del: set_map)
qed

lemma create_values_keys:
  assumes "create_values overridden schema declared data = Inr rows" "distinct declared"
  shows "\<forall>r \<in> set rows. distinct (dict_keys r)"
proof -
  let ?unset = "map (\<lambda>x. unset_names declared (schema_of x)) data"
  obtain vs where vs: "result_map (\<lambda>x. input_values x schema declared False) data = Inr vs"
    using assms(1) by (auto simp: create_values_def)
  have d: "\<forall>v \<in> set vs. distinct (dict_keys v)"
  proof
    fix v assume "v \<in> set vs"
    then obtain i where i: "i < length vs" "v = vs ! i" by (auto simp: in_set_conv_nth)
    with result_map_Inr [OF vs] have "(data ! i, v) \<in> set (zip data vs)" by (auto simp: in_set_zip)
    with result_map_Inr [OF vs] have "input_values (data ! i) schema declared False = Inr v" by auto
    from input_values_keys [OF this assms(2)] show "distinct (dict_keys v)" by blast
  qed
  from assms(1) vs have "rows = vs \<or> (\<exists>defaults. rows = map2 (\<lambda>v u. dict_update (filter (\<lambda>(n, x). n \<in> set u) defaults) v) vs ?unset)"
    unfolding create_values_def Let_def by (simp split: if_splits) blast
  with d show ?thesis by (auto dest!: set_zip_leftD intro!: distinct_dict_update)
qed

lemma creation_stores:
  assumes "relations_served env (sp_meta sp)" "distinct declared"
    and "distinct (row_pks s @ pks)" "length pks = length data"
    and "service_create sp env ck str overridden schema declared pks scoped data s = (Inr (created, ev), s')"
  shows "\<exists>rows internal. create_values overridden schema declared data = Inr rows
    \<and> list_all2 (internal_item env (sp_meta sp)) rows internal
    \<and> (\<forall>pk \<in> set pks. scoped (inserted sp pks internal s) pk)
    \<and> (\<exists>s2. st_rows s2 = st_rows (inserted sp pks internal s) \<and> sp_created_hook sp pks s2 = Inr s')"
proof -
  from assms(5) obtain rows internal where rows: "create_values overridden schema declared data = Inr rows"
    and internal: "to_internal_values env ck str (sp_meta sp) rows = Inr internal"
    and run: "create_rows sp pks scoped internal s = (Inr (created, ev), s')"
    by (auto simp: service_create_def split: sum.splits)
  have items: "list_all2 (internal_item env (sp_meta sp)) rows internal"
    using internal only_readable_rows [OF assms(1) create_values_keys [OF rows assms(2)]] by blast
  have "length rows = length data"
    using rows result_map_Inr by (fastforce simp: create_values_def Let_def split: if_splits)
  with items have len: "length pks = length internal" using assms(4) by (simp add: list_all2_lengthD)
  have "(\<forall>pk \<in> set pks. scoped (inserted sp pks internal s) pk)
    \<and> (\<exists>s2. st_rows s2 = st_rows (inserted sp pks internal s) \<and> sp_created_hook sp pks s2 = Inr s')"
    using created_in_scope [OF assms(3) len, where sp = sp and scoped = scoped] by (auto simp: run)
  with rows items show ?thesis by blast
qed



subsection \<open>A service to run on\<close>

definition demo_page :: model_meta where
  "demo_page = sp_meta demo_spec"

definition demo_pages :: environment where
  "demo_pages = \<lparr>env_services = [(''tag'', ''TagService'')], env_rows = (\<lambda>m. [''t1'', ''t2'']),
     env_readable = (\<lambda>m pk. pk = ''t1''), env_to_python = (\<lambda>m v. case v of Str x \<Rightarrow> Some x | _ \<Rightarrow> None)\<rparr>"

definition tags_input :: input_data where
  "tags_input = Schema \<lparr>si_attrs = [(''tags'', Many [Str ''t1''])], si_set = [''tags'']\<rparr>"

definition demo_created :: "(failure + (string list \<times> declared)) \<times> store" where
  "demo_created = service_create demo_spec demo_pages demo_checks (\<lambda>v. []) (\<lambda>ns. []) ''PageIn'' [''tags''] [''p4''] mine [tags_input] demo_store"

definition demo_updated :: "(failure + (string list \<times> declared)) \<times> store" where
  "demo_updated = service_update demo_spec demo_pages demo_checks (\<lambda>v. []) ''PageIn'' [''tags''] mine tags_input demo_store"

lemma demo_pages_served: "relations_served demo_pages (sp_meta demo_spec)"
  by (auto simp: relations_served_def demo_spec_def demo_pages_def m2m_names_def fk_names_def meta_field_def)

lemma is_inr_pair: "is_inr (fst p) \<Longrightarrow> \<exists>a b s. p = (Inr (a, b), s)"
  by (cases p; cases "fst p") auto



end
