(* ===== verification/Tenancy.thy ===== *)
theory Tenancy
  imports Totem_Prelude
begin

text \<open>
  One database per tenant behind the single alias \<open>default\<close> (\<open>core/db/tenancy.py\<close>), the
  middleware that selects it for a request (\<open>core/middleware.py\<close>), the header that carries it
  to the worker (\<open>core/celery/__init__.py\<close>) and the migration router (\<open>core/db/routers.py\<close>).
  The state is one thread of one process: the context variable, the aliases of
  \<open>settings.DATABASES\<close>, which the handler extends in place, the connections and the pools.
\<close>

subsection \<open>Names\<close>

definition DEFAULT_DB_ALIAS :: string where "DEFAULT_DB_ALIAS = ''default''"
definition SAAS_DB_ALIAS :: string where "SAAS_DB_ALIAS = ''saas_base''"

definition is_lower :: "char \<Rightarrow> bool" where
  "is_lower c \<longleftrightarrow> CHR ''a'' \<le> c \<and> c \<le> CHR ''z''"

definition is_digit :: "char \<Rightarrow> bool" where
  "is_digit c \<longleftrightarrow> CHR ''0'' \<le> c \<and> c \<le> CHR ''9''"

definition name_start :: "char \<Rightarrow> bool" where
  "name_start c \<longleftrightarrow> is_lower c \<or> c = CHR ''_''"

definition name_char :: "char \<Rightarrow> bool" where
  "name_char c \<longleftrightarrow> name_start c \<or> is_digit c"

fun plain_name :: "string \<Rightarrow> bool" where
  "plain_name [] = False"
| "plain_name (c # cs) = (name_start c \<and> list_all name_char cs \<and> length cs \<le> 62)"

text \<open>\<open>DATABASE_NAME_RE.match(s)\<close>: the dollar also matches before one final newline.\<close>

definition name_re :: "string \<Rightarrow> bool" where
  "name_re s \<longleftrightarrow> plain_name s \<or> (s \<noteq> [] \<and> last s = CHR 0x0A \<and> plain_name (butlast s))"

subsection \<open>State\<close>

record connection =
  co_database :: string
  co_in_atomic :: bool

record pool =
  po_size :: int
  po_available :: int

record process =
  pr_current :: "string option"
  pr_settings :: "(string \<times> string) list"
  pr_tenants :: "string list"
  pr_conns :: "(string \<times> connection) list"
  pr_pools :: "(string \<times> pool) list"
  pr_last_used :: "(string \<times> int) list"
  pr_last_check :: int

datatype tenancy_error =
    DatabaseNameError string
  | DatabaseSwitchError string string
  | ConnectionDoesNotExist string
  | Raised string

definition default_database :: "process \<Rightarrow> string" where
  "default_database p = (case dict_get (pr_settings p) DEFAULT_DB_ALIAS of None \<Rightarrow> [] | Some n \<Rightarrow> n)"

definition current_database :: "process \<Rightarrow> string" where
  "current_database p = str_or (pr_current p) (default_database p)"

definition selected_database :: "process \<Rightarrow> string option" where
  "selected_database p = pr_current p"

definition validate_database_name :: "process \<Rightarrow> string \<Rightarrow> tenancy_error + string" where
  "validate_database_name p n =
     (if \<not> name_re n then Inl (DatabaseNameError n)
      else if n \<in> set (dict_keys (pr_settings p)) \<and> n \<notin> set (pr_tenants p) then Inl (DatabaseNameError n)
      else Inr n)"

subsection \<open>The connection handler\<close>

definition resolve_alias :: "process \<Rightarrow> string \<Rightarrow> string" where
  "resolve_alias p a = (if a = DEFAULT_DB_ALIAS then current_database p else a)"

definition get_initialized :: "process \<Rightarrow> string \<Rightarrow> connection option" where
  "get_initialized p a = dict_get (pr_conns p) (resolve_alias p a)"

definition add_database :: "process \<Rightarrow> string \<Rightarrow> tenancy_error + process" where
  "add_database p n =
     (if \<not> name_re n \<or> n = DEFAULT_DB_ALIAS \<or> n = SAAS_DB_ALIAS then Inl (ConnectionDoesNotExist n)
      else if n \<in> set (dict_keys (pr_settings p)) then Inr p
      else Inr (p\<lparr>pr_settings := dict_put n n (pr_settings p), pr_tenants := n # pr_tenants p\<rparr>))"

definition EVICTION_CHECK_INTERVAL :: int where "EVICTION_CHECK_INTERVAL = 60"

definition evictable :: "int \<Rightarrow> int \<Rightarrow> process \<Rightarrow> string \<times> pool \<Rightarrow> bool" where
  "evictable now evict_after p e =
     (let used = (case dict_get (pr_last_used p) (fst e) of None \<Rightarrow> now | Some t \<Rightarrow> t) in
      \<not> now - used < evict_after \<and> \<not> po_size (snd e) - po_available (snd e) > 0)"

definition evict_idle_pools :: "int \<Rightarrow> int \<Rightarrow> process \<Rightarrow> string list \<times> process" where
  "evict_idle_pools now evict_after p =
     (map fst (filter (evictable now evict_after p) (pr_pools p)),
      p\<lparr>pr_pools := filter (\<lambda>e. \<not> evictable now evict_after p e) (pr_pools p)\<rparr>)"

definition touch :: "int \<Rightarrow> int \<Rightarrow> string \<Rightarrow> process \<Rightarrow> process" where
  "touch now evict_after a p =
     (let p1 = p\<lparr>pr_last_used := dict_put a now (pr_last_used p)\<rparr> in
      if now - pr_last_check p1 \<ge> EVICTION_CHECK_INTERVAL
      then snd (evict_idle_pools now evict_after (p1\<lparr>pr_last_check := now\<rparr>)) else p1)"

text \<open>\<open>connections[alias]\<close>, at a time.\<close>

definition get_connection :: "int \<Rightarrow> int \<Rightarrow> process \<Rightarrow> string \<Rightarrow> tenancy_error + (connection \<times> process)" where
  "get_connection now evict_after p alias =
     (let a = (if alias = DEFAULT_DB_ALIAS then current_database p else alias) in
      result_bind (if a \<notin> set (dict_keys (pr_settings p)) then add_database p a else Inr p) (\<lambda>p1.
        case dict_get (pr_conns p1) a of
          Some c \<Rightarrow> Inr (c, touch now evict_after a p1)
        | None \<Rightarrow>
            (case dict_get (pr_settings p1) a of
               None \<Rightarrow> Inl (ConnectionDoesNotExist a)
             | Some n \<Rightarrow>
                 (let c = \<lparr>co_database = n, co_in_atomic = False\<rparr>
                  in Inr (c, touch now evict_after a (p1\<lparr>pr_conns := dict_put a c (pr_conns p1)\<rparr>))))))"

definition iter_aliases :: "process \<Rightarrow> string list" where
  "iter_aliases p = filter (\<lambda>a. a \<noteq> current_database p) (dict_keys (pr_settings p))"

fun get_all :: "int \<Rightarrow> int \<Rightarrow> string list \<Rightarrow> process \<Rightarrow> tenancy_error + (connection list \<times> process)" where
  "get_all now evict_after [] p = Inr ([], p)"
| "get_all now evict_after (a # as) p =
     result_bind (get_connection now evict_after p a) (\<lambda>(c, p1).
       result_bind (get_all now evict_after as p1) (\<lambda>(cs, p2). Inr (c # cs, p2)))"

definition all_connections :: "int \<Rightarrow> int \<Rightarrow> bool \<Rightarrow> process \<Rightarrow> tenancy_error + (connection list \<times> process)" where
  "all_connections now evict_after initialized_only p =
     get_all now evict_after
       (filter (\<lambda>a. \<not> initialized_only \<or> dict_get (pr_conns p) (resolve_alias p a) \<noteq> None) (iter_aliases p)) p"

definition forget_database :: "string \<Rightarrow> process \<Rightarrow> process" where
  "forget_database n p =
     p\<lparr>pr_conns := AList.delete n (pr_conns p), pr_pools := AList.delete n (pr_pools p),
       pr_settings := AList.delete n (pr_settings p), pr_tenants := removeAll n (pr_tenants p),
       pr_last_used := AList.delete n (pr_last_used p)\<rparr>"

subsection \<open>Selecting a database\<close>

definition enter_database :: "process \<Rightarrow> string \<Rightarrow> tenancy_error + process" where
  "enter_database p n =
     result_bind (validate_database_name p n) (\<lambda>n.
       let current = current_database p in
       if n \<noteq> current \<and> (case get_initialized p current of None \<Rightarrow> False | Some c \<Rightarrow> co_in_atomic c)
       then Inl (DatabaseSwitchError n current)
       else Inr (p\<lparr>pr_current := Some n\<rparr>))"

text \<open>The block runs, returns or raises, and the variable gets its former value back.\<close>

definition with_database ::
    "process \<Rightarrow> string \<Rightarrow> (process \<Rightarrow> (tenancy_error + 'r) \<times> process) \<Rightarrow> (tenancy_error + 'r) \<times> process" where
  "with_database p n body =
     (case enter_database p n of
        Inl e \<Rightarrow> (Inl e, p)
      | Inr p1 \<Rightarrow> (let (r, p2) = body p1 in (r, p2\<lparr>pr_current := pr_current p\<rparr>)))"

text \<open>\<open>catalog\<close> is what the query on the catalog returns, a name or null per active tenant.\<close>

definition tenant_databases :: "process \<Rightarrow> string option list \<Rightarrow> string list" where
  "tenant_databases p catalog =
     (if SAAS_DB_ALIAS \<notin> set (dict_keys (pr_settings p)) then [default_database p]
      else List.map_filter (\<lambda>n. if name_re (str_or n []) then n else None) catalog)"

subsection \<open>Requests, tasks, cache and migrations\<close>

datatype selection = Stay | Refuse | Select string

definition select_database :: "process \<Rightarrow> string option \<Rightarrow> selection" where
  "select_database p header =
     (case header of
        None \<Rightarrow> Stay
      | Some h \<Rightarrow>
          if h = [] then Stay
          else (case validate_database_name p h of Inl e \<Rightarrow> Refuse | Inr n \<Rightarrow> Select n))"

datatype 'r response = NotFound | Response 'r

definition tenant_middleware ::
    "process \<Rightarrow> string option \<Rightarrow> (process \<Rightarrow> (tenancy_error + 'r) \<times> process) \<Rightarrow> (tenancy_error + 'r response) \<times> process" where
  "tenant_middleware p header get_response =
     (case select_database p header of
        Refuse \<Rightarrow> (Inr NotFound, p)
      | Stay \<Rightarrow> apfst (map_sum id Response) (get_response p)
      | Select n \<Rightarrow> apfst (map_sum id Response) (with_database p n get_response))"

definition add_db_name_header :: "process \<Rightarrow> (string \<times> string) list option \<Rightarrow> (string \<times> string) list option" where
  "add_db_name_header p headers =
     (case headers of
        None \<Rightarrow> None
      | Some h \<Rightarrow> Some (if dict_get h ''db_name'' = None then dict_put ''db_name'' (current_database p) h else h))"

record task_request =
  tr_db_name :: "string option"
  tr_headers :: "(string \<times> string) list option"

definition message_db_name :: "task_request \<Rightarrow> string option" where
  "message_db_name r =
     (case tr_db_name r of
        Some n \<Rightarrow> Some n
      | None \<Rightarrow> (case tr_headers r of None \<Rightarrow> None | Some h \<Rightarrow> dict_get h ''db_name''))"

definition call_task :: "process \<Rightarrow> task_request \<Rightarrow> (process \<Rightarrow> (tenancy_error + 'r) \<times> process) \<Rightarrow> (tenancy_error + 'r) \<times> process" where
  "call_task p r run =
     (case message_db_name r of None \<Rightarrow> run p | Some n \<Rightarrow> with_database p n run)"

definition make_cache_key :: "process \<Rightarrow> string \<Rightarrow> string \<Rightarrow> string \<Rightarrow> string" where
  "make_cache_key p key key_prefix version =
     key_prefix @ '':'' @ current_database p @ '':'' @ version @ '':'' @ key"

text \<open>\<open>Some False\<close> refuses a migration, \<open>None\<close> has no opinion.\<close>

definition allow_migrate :: "process \<Rightarrow> string \<Rightarrow> bool option" where
  "allow_migrate p db =
     (if db = SAAS_DB_ALIAS \<and> SAAS_DB_ALIAS \<in> set (dict_keys (pr_settings p)) then Some False else None)"

end
