(* ===== verification/Tenancy_Laws.thy ===== *)
theory Tenancy_Laws
  imports Tenancy
begin

text \<open>
  Isolation of the tenants: in every state a process can reach, the connection \<open>default\<close> stands
  for is one to the database selected, a request runs on the database its header names and
  leaves no trace of it, and a cached value of one tenant is never read by another.
\<close>

declare split_paired_All [simp del] split_paired_Ex [simp del]

subsection \<open>Names\<close>

lemma plain_name_chars: "plain_name s \<Longrightarrow> list_all name_char s"
  by (cases s) (auto simp: name_char_def)

lemma name_re_chars: "name_re s \<Longrightarrow> c \<in> set s \<Longrightarrow> name_char c \<or> c = CHR 0x0A"
proof -
  assume re: "name_re s" and c: "c \<in> set s"
  from re consider "plain_name s" | "s \<noteq> []" "last s = CHR 0x0A" "plain_name (butlast s)"
    by (auto simp: name_re_def)
  then show ?thesis
  proof cases
    case 1
    with c plain_name_chars show ?thesis by (auto simp: list_all_iff)
  next
    case 2
    from 2(1) have "set s = insert (last s) (set (butlast s))" by (metis append_butlast_last_id insert_is_Un set_append list.simps(15) empty_set sup_commute)
    with 2 c plain_name_chars [OF 2(3)] show ?thesis by (auto simp: list_all_iff)
  qed
qed

lemma name_re_not_Nil: "name_re s \<Longrightarrow> s \<noteq> []"
  by (auto simp: name_re_def)

text \<open>A name with a final newline passes, and is another name than the one without it.\<close>

lemma name_re_newline: "plain_name s \<Longrightarrow> name_re (s @ [CHR 0x0A])"
  by (simp add: name_re_def)

lemma name_char_colon [simp]: "\<not> name_char (CHR '':'')"
  by (simp add: name_char_def name_start_def is_lower_def is_digit_def less_eq_char_def)

subsection \<open>What a process can do\<close>

text \<open>With the tokens of the blocks entered and not left yet, the innermost first.\<close>

inductive tenancy_step :: "string option list \<times> process \<Rightarrow> string option list \<times> process \<Rightarrow> bool" where
  ts_enter: "enter_database p n = Inr p' \<Longrightarrow> tenancy_step (ts, p) (pr_current p # ts, p')"
| ts_leave: "tenancy_step (t # ts, p) (ts, p\<lparr>pr_current := t\<rparr>)"
| ts_connect: "get_connection now ev p a = Inr (c, p') \<Longrightarrow> tenancy_step (ts, p) (ts, p')"
| ts_atomic: "dict_get (pr_conns p) a = Some c \<Longrightarrow>
    tenancy_step (ts, p) (ts, p\<lparr>pr_conns := dict_put a (c\<lparr>co_in_atomic := b\<rparr>) (pr_conns p)\<rparr>)"
| ts_forget: "validate_database_name p n = Inr n \<Longrightarrow> tenancy_step (ts, p) (ts, forget_database n p)"
| ts_evict: "tenancy_step (ts, p) (ts, snd (evict_idle_pools now ev p))"
| ts_pools: "tenancy_step (ts, p) (ts, p\<lparr>pr_pools := pools\<rparr>)"

inductive tenancy_run :: "string option list \<times> process \<Rightarrow> string option list \<times> process \<Rightarrow> bool" where
  tr_start: "tenancy_run s s"
| tr_more: "tenancy_run s t \<Longrightarrow> tenancy_step t u \<Longrightarrow> tenancy_run s u"

definition started :: "process \<Rightarrow> bool" where
  "started p \<longleftrightarrow> pr_current p = None \<and> pr_tenants p = [] \<and> pr_conns p = []
     \<and> (\<exists>d. dict_get (pr_settings p) DEFAULT_DB_ALIAS = Some d \<and> d \<noteq> [] \<and> d \<noteq> DEFAULT_DB_ALIAS)"

text \<open>The name may be selected: it is an alias added for itself, or none yet.\<close>

definition selectable :: "process \<Rightarrow> string option \<Rightarrow> bool" where
  "selectable p t \<longleftrightarrow>
     (case t of None \<Rightarrow> True
      | Some n \<Rightarrow> name_re n \<and> (n \<in> set (pr_tenants p) \<or> n \<notin> set (dict_keys (pr_settings p))))"

definition tenancy_ok :: "string option list \<times> process \<Rightarrow> bool" where
  "tenancy_ok s \<longleftrightarrow> (case s of (ts, p) \<Rightarrow>
     (\<forall>t \<in> set (pr_current p # ts). selectable p t)
   \<and> (\<forall>n \<in> set (pr_tenants p). n \<noteq> DEFAULT_DB_ALIAS \<and> dict_get (pr_settings p) n = Some n)
   \<and> (\<forall>a c. dict_get (pr_conns p) a = Some c \<longrightarrow>
        a \<noteq> DEFAULT_DB_ALIAS \<and> dict_get (pr_settings p) a = Some (co_database c))
   \<and> (\<exists>d. dict_get (pr_settings p) DEFAULT_DB_ALIAS = Some d \<and> d \<noteq> [] \<and> d \<noteq> DEFAULT_DB_ALIAS))"

lemma tenancy_okD:
  assumes "tenancy_ok (ts, p)"
  shows "selectable p (pr_current p)" "t \<in> set ts \<Longrightarrow> selectable p t"
    "n \<in> set (pr_tenants p) \<Longrightarrow> n \<noteq> DEFAULT_DB_ALIAS \<and> dict_get (pr_settings p) n = Some n"
    "dict_get (pr_conns p) a = Some c \<Longrightarrow> a \<noteq> DEFAULT_DB_ALIAS \<and> dict_get (pr_settings p) a = Some (co_database c)"
    "default_database p \<noteq> [] \<and> default_database p \<noteq> DEFAULT_DB_ALIAS"
    "dict_get (pr_settings p) DEFAULT_DB_ALIAS = Some (default_database p)"
  using assms by (auto simp: tenancy_ok_def default_database_def)

lemma tenancy_okI:
  assumes "selectable p (pr_current p)" "\<forall>t \<in> set ts. selectable p t"
    "\<forall>n \<in> set (pr_tenants p). n \<noteq> DEFAULT_DB_ALIAS \<and> dict_get (pr_settings p) n = Some n"
    "\<forall>a c. dict_get (pr_conns p) a = Some c \<longrightarrow> a \<noteq> DEFAULT_DB_ALIAS \<and> dict_get (pr_settings p) a = Some (co_database c)"
    "default_database p \<noteq> []" "default_database p \<noteq> DEFAULT_DB_ALIAS"
    "dict_get (pr_settings p) DEFAULT_DB_ALIAS = Some (default_database p)"
  shows "tenancy_ok (ts, p)"
  using assms by (auto simp: tenancy_ok_def)

lemma current_not_default:
  assumes "tenancy_ok (ts, p)"
  shows "current_database p \<noteq> DEFAULT_DB_ALIAS"
proof (cases "pr_current p")
  case None
  then show ?thesis using tenancy_okD(5) [OF assms] by (simp add: current_database_def)
next
  case (Some n)
  then have n: "name_re n" "n \<in> set (pr_tenants p) \<or> n \<notin> set (dict_keys (pr_settings p))"
    using tenancy_okD(1) [OF assms] by (auto simp: selectable_def)
  have "DEFAULT_DB_ALIAS \<in> set (dict_keys (pr_settings p))"
    using tenancy_okD(6) [OF assms] by (metis dict_get_None_keys option.distinct(1))
  with n(2) tenancy_okD(3) [OF assms, of n] have "n \<noteq> DEFAULT_DB_ALIAS" by blast
  with Some name_re_not_Nil [OF n(1)] show ?thesis by (simp add: current_database_def)
qed

lemma touch_simps [simp]:
  "pr_current (touch now ev a p) = pr_current p" "pr_settings (touch now ev a p) = pr_settings p"
  "pr_tenants (touch now ev a p) = pr_tenants p" "pr_conns (touch now ev a p) = pr_conns p"
  by (simp_all add: touch_def Let_def evict_idle_pools_def)

lemma default_database_cong: "pr_settings q = pr_settings p \<Longrightarrow> default_database q = default_database p"
  by (simp add: default_database_def)

lemma tenancy_ok_cong:
  "pr_current q = pr_current p \<Longrightarrow> pr_settings q = pr_settings p \<Longrightarrow> pr_tenants q = pr_tenants p \<Longrightarrow>
   pr_conns q = pr_conns p \<Longrightarrow> tenancy_ok (ts, q) \<longleftrightarrow> tenancy_ok (ts, p)"
proof -
  assume eq: "pr_current q = pr_current p" "pr_settings q = pr_settings p" "pr_tenants q = pr_tenants p" "pr_conns q = pr_conns p"
  then have "selectable q = selectable p" by (intro ext) (simp add: selectable_def split: option.split)
  with eq show ?thesis by (simp add: tenancy_ok_def)
qed

lemma touch_ok [simp]: "tenancy_ok (ts, touch now ev a p) \<longleftrightarrow> tenancy_ok (ts, p)"
  by (rule tenancy_ok_cong) simp_all

lemma add_database_ok:
  assumes ok: "tenancy_ok (ts, p)" and add: "add_database p n = Inr q" and n: "n \<notin> set (dict_keys (pr_settings p))"
  shows "tenancy_ok (ts, q)" "dict_get (pr_settings q) n = Some n" "pr_conns q = pr_conns p" "pr_current q = pr_current p"
    "n \<noteq> DEFAULT_DB_ALIAS"
proof -
  from add n have q: "q = p\<lparr>pr_settings := dict_put n n (pr_settings p), pr_tenants := n # pr_tenants p\<rparr>"
    and nd: "n \<noteq> DEFAULT_DB_ALIAS" by (auto simp: add_database_def split: if_splits)
  show "dict_get (pr_settings q) n = Some n" "pr_conns q = pr_conns p" "pr_current q = pr_current p" by (simp_all add: q)
  show "n \<noteq> DEFAULT_DB_ALIAS" by (rule nd)
  have sel: "selectable p t \<Longrightarrow> selectable q t" for t by (auto simp: selectable_def q dict_keys_put simp del: set_map split: option.splits)
  have no_conn: "dict_get (pr_conns p) n = None"
    using tenancy_okD(4) [OF ok, of n] n by (metis dict_get_None_keys not_None_eq option.distinct(1))
  have dd: "default_database q = default_database p" using nd by (simp add: q default_database_def)
  show "tenancy_ok (ts, q)"
  proof (rule tenancy_okI)
    show "selectable q (pr_current q)" "\<forall>t \<in> set ts. selectable q t"
      using tenancy_okD(1,2) [OF ok] sel by (auto simp: q)
    show "\<forall>n \<in> set (pr_tenants q). n \<noteq> DEFAULT_DB_ALIAS \<and> dict_get (pr_settings q) n = Some n"
      using tenancy_okD(3) [OF ok] nd by (auto simp: q)
    show "\<forall>a c. dict_get (pr_conns q) a = Some c \<longrightarrow> a \<noteq> DEFAULT_DB_ALIAS \<and> dict_get (pr_settings q) a = Some (co_database c)"
      using tenancy_okD(4) [OF ok] no_conn by (auto simp: q)
    show "default_database q \<noteq> []" "default_database q \<noteq> DEFAULT_DB_ALIAS"
      "dict_get (pr_settings q) DEFAULT_DB_ALIAS = Some (default_database q)"
      using tenancy_okD(5,6) [OF ok] nd by (simp_all add: dd) (simp add: q)
  qed
qed

lemma connect_known:
  assumes ok: "tenancy_ok (ts, p)" and a: "a \<noteq> DEFAULT_DB_ALIAS" and n: "dict_get (pr_settings p) a = Some n"
    and q: "pr_current q = pr_current p" "pr_settings q = pr_settings p" "pr_tenants q = pr_tenants p"
    and c: "pr_conns q = dict_put a c (pr_conns p)" "co_database c = n"
  shows "tenancy_ok (ts, q)"
proof -
  have sel: "selectable q t \<longleftrightarrow> selectable p t" for t by (simp add: selectable_def q split: option.split)
  have dd: "default_database q = default_database p" by (rule default_database_cong [OF q(2)])
  show ?thesis
    by (rule tenancy_okI) (use tenancy_okD [OF ok] a n c in \<open>auto simp: sel q dd\<close>)
qed

text \<open>Any lookup keeps the invariant and reaches the database its alias is configured for.\<close>

lemma get_connection_ok:
  assumes ok: "tenancy_ok (ts, p)" and get: "get_connection now ev p alias = Inr (c, q)"
  shows "tenancy_ok (ts, q) \<and> dict_get (pr_settings q) (resolve_alias p alias) = Some (co_database c)"
proof -
  let ?a = "resolve_alias p alias"
  have a: "?a \<noteq> DEFAULT_DB_ALIAS" using current_not_default [OF ok] by (simp add: resolve_alias_def)
  from get obtain p1 where p1: "(if ?a \<notin> set (dict_keys (pr_settings p)) then add_database p ?a else Inr p) = Inr p1"
    and got: "(case dict_get (pr_conns p1) ?a of
          Some c \<Rightarrow> Inr (c, touch now ev ?a p1)
        | None \<Rightarrow>
            (case dict_get (pr_settings p1) ?a of
               None \<Rightarrow> Inl (ConnectionDoesNotExist ?a)
             | Some n \<Rightarrow>
                 (let c = \<lparr>co_database = n, co_in_atomic = False\<rparr>
                  in Inr (c, touch now ev ?a (p1\<lparr>pr_conns := dict_put ?a c (pr_conns p1)\<rparr>))))) = Inr (c, q)"
    unfolding get_connection_def Let_def resolve_alias_def [symmetric] by auto
  have ok1: "tenancy_ok (ts, p1)"
    using p1 ok add_database_ok(1) [OF ok] by (auto split: if_splits)
  show ?thesis
  proof (cases "dict_get (pr_conns p1) ?a")
    case (Some c')
    with got have "c = c'" "q = touch now ev ?a p1" by simp_all
    with Some tenancy_okD(4) [OF ok1, of ?a c'] ok1 show ?thesis by simp
  next
    case None
    with got obtain n where n: "dict_get (pr_settings p1) ?a = Some n" "co_database c = n"
      "q = touch now ev ?a (p1\<lparr>pr_conns := dict_put ?a c (pr_conns p1)\<rparr>)"
      by (auto simp: Let_def split: option.splits)
    have "tenancy_ok (ts, q)" by (rule connect_known [OF ok1 a n(1), where c = c]) (simp_all add: n(2,3))
    with n show ?thesis by simp
  qed
qed

lemma forget_ok:
  assumes ok: "tenancy_ok (ts, p)" and v: "validate_database_name p n = Inr n"
  shows "tenancy_ok (ts, forget_database n p)"
proof -
  let ?q = "forget_database n p"
  have nd: "n \<noteq> DEFAULT_DB_ALIAS"
  proof
    assume n: "n = DEFAULT_DB_ALIAS"
    have "n \<in> set (dict_keys (pr_settings p))" using tenancy_okD(6) [OF ok] n by (metis dict_get_None_keys option.distinct(1))
    with v have "n \<in> set (pr_tenants p)" by (auto simp: validate_database_name_def split: if_splits)
    with n tenancy_okD(3) [OF ok] show False by blast
  qed
  have get: "dict_get (AList.delete n d) k = (if k = n then None else dict_get d k)" for k and d :: "(string \<times> 'v) list"
    by (simp add: delete_conv)
  have keys: "set (dict_keys (pr_settings ?q)) = set (dict_keys (pr_settings p)) - {n}"
    by (simp add: forget_database_def delete_keys)
  have sel: "selectable p t \<Longrightarrow> selectable ?q t" for t
    unfolding selectable_def keys by (auto simp: forget_database_def split: option.splits)
  have dd: "default_database ?q = default_database p"
    using nd by (simp add: default_database_def forget_database_def get)
  show ?thesis
  proof (rule tenancy_okI)
    show "selectable ?q (pr_current ?q)" "\<forall>t \<in> set ts. selectable ?q t"
      using tenancy_okD(1,2) [OF ok] sel by (auto simp: forget_database_def)
    show "\<forall>m \<in> set (pr_tenants ?q). m \<noteq> DEFAULT_DB_ALIAS \<and> dict_get (pr_settings ?q) m = Some m"
      using tenancy_okD(3) [OF ok] by (auto simp: forget_database_def get)
    show "\<forall>a c. dict_get (pr_conns ?q) a = Some c \<longrightarrow> a \<noteq> DEFAULT_DB_ALIAS \<and> dict_get (pr_settings ?q) a = Some (co_database c)"
      using tenancy_okD(4) [OF ok] by (auto simp: forget_database_def get split: if_splits)
    show "default_database ?q \<noteq> []" "default_database ?q \<noteq> DEFAULT_DB_ALIAS"
      "dict_get (pr_settings ?q) DEFAULT_DB_ALIAS = Some (default_database ?q)"
      using tenancy_okD(5,6) [OF ok] nd by (simp_all add: dd) (simp add: forget_database_def get)
  qed
qed

lemma enter_ok:
  assumes ok: "tenancy_ok (ts, p)" and en: "enter_database p n = Inr q"
  shows "tenancy_ok (pr_current p # ts, q)" "q = p\<lparr>pr_current := Some n\<rparr>" "name_re n"
proof -
  from en have q: "q = p\<lparr>pr_current := Some n\<rparr>" and v: "validate_database_name p n = Inr n"
    by (auto simp: enter_database_def Let_def validate_database_name_def split: if_splits)
  from v have n: "name_re n" "n \<in> set (pr_tenants p) \<or> n \<notin> set (dict_keys (pr_settings p))"
    by (auto simp: validate_database_name_def split: if_splits)
  show "q = p\<lparr>pr_current := Some n\<rparr>" "name_re n" by (rule q, rule n(1))
  from n have seln: "selectable p (Some n)" by (simp add: selectable_def)
  have sel: "selectable (p\<lparr>pr_current := Some n\<rparr>) t \<longleftrightarrow> selectable p t" for t by (simp add: selectable_def split: option.split)
  have dd: "default_database (p\<lparr>pr_current := Some n\<rparr>) = default_database p" by (rule default_database_cong) simp
  show "tenancy_ok (pr_current p # ts, q)"
    by (rule tenancy_okI) (use tenancy_okD [OF ok] seln in \<open>auto simp: sel dd q\<close>)
qed

lemma tenancy_step_ok: "tenancy_step s t \<Longrightarrow> tenancy_ok s \<Longrightarrow> tenancy_ok t"
proof (induction rule: tenancy_step.induct)
  case (ts_enter p n p' ts)
  then show ?case by (intro enter_ok(1))
next
  case (ts_leave t ts p)
  have sel: "selectable (p\<lparr>pr_current := t\<rparr>) u \<longleftrightarrow> selectable p u" for u by (simp add: selectable_def split: option.split)
  have dd: "default_database (p\<lparr>pr_current := t\<rparr>) = default_database p" by (rule default_database_cong) simp
  show ?case by (rule tenancy_okI) (use tenancy_okD [OF ts_leave] in \<open>auto simp: sel dd\<close>)
next
  case (ts_connect now ev p a c p' ts)
  then show ?case using get_connection_ok by blast
next
  case (ts_atomic p a c ts b)
  from tenancy_okD(4) [OF ts_atomic(2,1)] show ?case
    by (intro connect_known [OF ts_atomic(2)]) auto
next
  case (ts_forget p n ts)
  then show ?case by (intro forget_ok)
next
  case (ts_evict ts p now ev)
  then show ?case by (subst tenancy_ok_cong [of _ p]) (simp_all add: evict_idle_pools_def)
next
  case (ts_pools ts p pools)
  then show ?case by (subst tenancy_ok_cong [of _ p]) simp_all
qed

lemma tenancy_run_ok: "tenancy_run s t \<Longrightarrow> tenancy_ok s \<Longrightarrow> tenancy_ok t"
  by (induction rule: tenancy_run.induct) (auto intro: tenancy_step_ok)

lemma started_ok: "started p \<Longrightarrow> tenancy_ok ([], p)"
  by (auto simp: started_def tenancy_ok_def selectable_def)

subsection \<open>Isolation\<close>

text \<open>
  In every state a process can reach, \<open>connections["default"]\<close> gives a connection to the
  database that is selected, whatever databases were selected, connected to or forgotten before
  and whichever pools were evicted. The alias of the catalog is the one name that is refused.
\<close>

theorem default_reaches_the_selected_database:
  assumes "started p0" "tenancy_run ([], p0) (ts, p)" "pr_current p = Some n" "n \<noteq> SAAS_DB_ALIAS"
  shows "\<exists>c q. get_connection now ev p DEFAULT_DB_ALIAS = Inr (c, q) \<and> co_database c = n"
proof -
  have ok: "tenancy_ok (ts, p)" using tenancy_run_ok [OF assms(2) started_ok [OF assms(1)]] .
  then have n: "name_re n" "n \<in> set (pr_tenants p) \<or> n \<notin> set (dict_keys (pr_settings p))"
    using tenancy_okD(1) [OF ok] assms(3) by (auto simp: selectable_def)
  have cur: "current_database p = n" using assms(3) name_re_not_Nil [OF n(1)] by (simp add: current_database_def)
  have nd: "n \<noteq> DEFAULT_DB_ALIAS" using current_not_default [OF ok] cur by simp
  show ?thesis
  proof (cases "n \<in> set (dict_keys (pr_settings p))")
    case True
    with n(2) tenancy_okD(3) [OF ok] have set: "dict_get (pr_settings p) n = Some n" by blast
    with True tenancy_okD(4) [OF ok, of n] show ?thesis
      by (auto simp: get_connection_def cur Let_def simp del: set_map split: option.split)
  next
    case False
    then have "add_database p n = Inr (p\<lparr>pr_settings := dict_put n n (pr_settings p), pr_tenants := n # pr_tenants p\<rparr>)"
      using n(1) nd assms(4) by (simp add: add_database_def)
    moreover have "dict_get (pr_conns p) n = None"
      using tenancy_okD(4) [OF ok, of n] False by (metis dict_get_None_keys not_None_eq option.distinct(1))
    ultimately show ?thesis using False
      by (simp add: get_connection_def cur Let_def del: set_map)
  qed
qed


text \<open>A task runs on the database it was sent from, unless its sender named another one.\<close>

lemma task_runs_where_it_was_sent:
  assumes "add_db_name_header p (Some h) = Some h'" "dict_get h ''db_name'' = None"
  shows "call_task w \<lparr>tr_db_name = dict_get h' ''db_name'', tr_headers = hs\<rparr> run = with_database w (current_database p) run"
  using assms by (auto simp: add_db_name_header_def call_task_def message_db_name_def)

text \<open>A pool that is evicted had no connection borrowed and was not used for the time set.\<close>

lemma evicted_pool_is_idle:
  assumes "a \<in> set (fst (evict_idle_pools now ev p))" "dict_get (pr_last_used p) a = Some t" "0 < ev"
  shows "\<exists>po. (a, po) \<in> set (pr_pools p) \<and> po_size po \<le> po_available po \<and> t + ev \<le> now"
  using assms by (auto simp: evict_idle_pools_def evictable_def Let_def)

lemma prefix_before_separator:
  "x \<notin> set xs \<Longrightarrow> x \<notin> set ys \<Longrightarrow> xs @ x # us = ys @ x # vs \<Longrightarrow> xs = ys"
proof (induction xs arbitrary: ys)
  case Nil
  then show ?case by (cases ys) auto
next
  case (Cons a xs)
  then show ?case by (cases ys) auto
qed

text \<open>
  A cache key names its database. Two processes on databases with acceptable names never
  build the same key under one deployment prefix, whatever the keys and versions, unless they
  are on the same database.
\<close>

theorem cache_keys_of_tenants_are_disjoint:
  assumes "make_cache_key p key pre version = make_cache_key p' key' pre version'"
    and "name_re (current_database p)" "name_re (current_database p')"
  shows "current_database p = current_database p'"
proof (rule prefix_before_separator)
  show "CHR '':'' \<notin> set (current_database p)" "CHR '':'' \<notin> set (current_database p')"
    using name_re_chars [OF assms(2), of "CHR '':''"] name_re_chars [OF assms(3), of "CHR '':''"] by auto
  show "current_database p @ CHR '':'' # (version @ '':'' @ key) = current_database p' @ CHR '':'' # (version' @ '':'' @ key')"
    using assms(1) by (simp add: make_cache_key_def)
qed

subsection \<open>A process to run on\<close>

definition demo_process :: process where
  "demo_process = \<lparr>pr_current = None, pr_settings = [(''default'', ''totem'')], pr_tenants = [], pr_conns = [],
     pr_pools = [], pr_last_used = [], pr_last_check = 0\<rparr>"

definition demo_inside :: process where
  "demo_inside = demo_process\<lparr>pr_current := Some ''acme''\<rparr>"

lemma demo_enter: "enter_database demo_process ''acme'' = Inr demo_inside"
  by code_simp

theorem default_reaches_the_selected_database_witness:
  "\<exists>c q. get_connection 5 600 demo_inside DEFAULT_DB_ALIAS = Inr (c, q) \<and> co_database c = ''acme''"
proof (rule default_reaches_the_selected_database)
  show "started demo_process" by (simp add: started_def demo_process_def DEFAULT_DB_ALIAS_def)
  show "tenancy_run ([], demo_process) ([pr_current demo_process], demo_inside)"
    by (rule tr_more [OF tr_start ts_enter [OF demo_enter]])
  show "pr_current demo_inside = Some ''acme''" by (simp add: demo_inside_def)
  show "''acme'' \<noteq> SAAS_DB_ALIAS" by (simp add: SAAS_DB_ALIAS_def)
qed


theorem cache_keys_of_tenants_are_disjoint_witness:
  "make_cache_key demo_inside ''k'' ''totem'' ''1'' \<noteq> make_cache_key demo_process ''k'' ''totem'' ''1''"
proof
  assume same: "make_cache_key demo_inside ''k'' ''totem'' ''1'' = make_cache_key demo_process ''k'' ''totem'' ''1''"
  have re: "name_re (current_database demo_inside)" "name_re (current_database demo_process)" by code_simp+
  have "current_database demo_inside \<noteq> current_database demo_process" by code_simp
  with cache_keys_of_tenants_are_disjoint [OF same re] show False by blast
qed

end
