(* ===== verification/Tenants.thy ===== *)
theory Tenants
  imports Tenancy_Laws
begin

text \<open>
  The life of the tenants: creation and migration of a tenant database
  (\<open>saas/services.py\<close>), and the beat that runs one scheduler per tenant
  (\<open>core/celery/scheduler.py\<close>). The database server is the list of its databases; the
  management commands and the content written inside the new database are parameters that
  return or raise. The lookup of the operator's own connection, and a \<open>DROP DATABASE\<close> that
  fails, are not modelled.
\<close>

subsection \<open>The tenant service\<close>

record server =
  sv_databases :: "string list"
  sv_process :: process

datatype tenant_error =
    DatabaseExists string
  | TenantCreationFailed string
  | DatabaseNotFound string
  | DatabaseBusy string
  | TenantMigrationFailed string
  | InvalidName string
  | SwitchRefused string
  | ServerError string

definition database_exists :: "server \<Rightarrow> string \<Rightarrow> bool" where
  "database_exists s n \<longleftrightarrow> n \<in> set (sv_databases s)"

text \<open>
  \<open>CREATE DATABASE\<close> can fail for a database another call created since the check: \<open>raced\<close> is
  the error it then raises, with whether the database is there by now.
\<close>

definition create_database :: "server \<Rightarrow> string \<Rightarrow> (string \<times> bool) option \<Rightarrow> tenant_error + server" where
  "create_database s n raced =
     (if database_exists s n then Inl (DatabaseExists n)
      else case raced of
          Some (msg, there) \<Rightarrow> if there then Inl (DatabaseExists n) else Inl (ServerError msg)
        | None \<Rightarrow> Inr (s\<lparr>sv_databases := sv_databases s @ [n]\<rparr>))"

definition drop_database :: "server \<Rightarrow> string \<Rightarrow> server" where
  "drop_database s n =
     s\<lparr>sv_databases := removeAll n (sv_databases s), sv_process := forget_database n (sv_process s)\<rparr>"

text \<open>The steps run inside the new database, in order, the first one that raises ending them.\<close>

type_synonym tenant_step = "process \<Rightarrow> (tenancy_error + unit) \<times> process"

fun run_steps :: "tenant_step list \<Rightarrow> process \<Rightarrow> (tenancy_error + unit) \<times> process" where
  "run_steps [] p = (Inr (), p)"
| "run_steps (step # steps) p =
     (case step p of (Inl e, p') \<Rightarrow> (Inl e, p') | (Inr u, p') \<Rightarrow> run_steps steps p')"

definition create_tenant ::
    "tenant_step \<Rightarrow> tenant_step \<Rightarrow> tenant_step \<Rightarrow> tenant_step \<Rightarrow> (string \<times> bool) option \<Rightarrow> server \<Rightarrow> string
     \<Rightarrow> (tenant_error + unit) \<times> server" where
  "create_tenant migrate populate create_admin rename_website raced s n =
     (case validate_database_name (sv_process s) n of
        Inl e \<Rightarrow> (Inl (InvalidName n), s)
      | Inr n \<Rightarrow>
          (case create_database s n raced of
             Inl e \<Rightarrow> (Inl e, s)
           | Inr s1 \<Rightarrow>
               (case with_database (sv_process s1) n (run_steps [migrate, populate, create_admin, rename_website]) of
                  (Inl e, p) \<Rightarrow> (Inl (TenantCreationFailed n), drop_database (s1\<lparr>sv_process := p\<rparr>) n)
                | (Inr u, p) \<Rightarrow> (Inr (), s1\<lparr>sv_process := p\<rparr>))))"

text \<open>
  The migration of a tenant that serves. \<open>commands\<close> sets the lock timeout, migrates and loads the
  system data; \<open>busy\<close> tells a lock timeout among what it raises. A reset of the timeout that fails
  drops what the process holds on the database. \<open>before\<close> and \<open>after\<close> are the applied migrations.
\<close>

definition kill_connections :: "nat \<Rightarrow> string \<Rightarrow> server \<Rightarrow> nat \<times> server" where
  "kill_connections sessions n s = (sessions, s\<lparr>sv_process := forget_database n (sv_process s)\<rparr>)"

definition reset_lock_timeout :: "bool \<Rightarrow> string \<Rightarrow> process \<Rightarrow> process" where
  "reset_lock_timeout resets n p = (if resets then p else forget_database n p)"

definition applied_names :: "(string \<times> string) list \<Rightarrow> (string \<times> string) list \<Rightarrow> string list" where
  "applied_names before after =
     sort (map (\<lambda>(app, name). app @ ''.'' @ name) (remdups (filter (\<lambda>m. m \<notin> set before) after)))"

definition migrate_tenant ::
    "tenant_step \<Rightarrow> (tenancy_error \<Rightarrow> bool) \<Rightarrow> bool \<Rightarrow> (string \<times> string) list \<Rightarrow> (string \<times> string) list
     \<Rightarrow> nat \<Rightarrow> bool \<Rightarrow> server \<Rightarrow> string \<Rightarrow> (tenant_error + (nat \<times> string list)) \<times> server" where
  "migrate_tenant commands busy resets before after sessions kill s n =
     (case validate_database_name (sv_process s) n of
        Inl e \<Rightarrow> (Inl (InvalidName n), s)
      | Inr n \<Rightarrow>
          if \<not> database_exists s n then (Inl (DatabaseNotFound n), s)
          else
            (let (killed, s1) = (if kill then kill_connections sessions n s else (0, s)) in
             case enter_database (sv_process s1) n of
               Inl e \<Rightarrow> (Inl (SwitchRefused n), s1)
             | Inr p \<Rightarrow>
                 (let (r, p1) = commands p;
                      s2 = s1\<lparr>sv_process := (reset_lock_timeout resets n p1)\<lparr>pr_current := pr_current (sv_process s1)\<rparr>\<rparr>
                  in case r of
                       Inl e \<Rightarrow> (Inl (if busy e then DatabaseBusy n else TenantMigrationFailed n), s2)
                     | Inr u \<Rightarrow> (Inr (killed, applied_names before after), s2))))"

text \<open>A migration neither creates nor drops a database, and leaves the operator's one selected.\<close>

lemma migration_keeps_the_databases:
  "migrate_tenant commands busy resets before after sessions kill s n = (r, s')
   \<Longrightarrow> sv_databases s' = sv_databases s \<and> pr_current (sv_process s') = pr_current (sv_process s)"
  by (auto simp: migrate_tenant_def kill_connections_def forget_database_def Let_def case_prod_unfold
      split: sum.splits if_splits)

text \<open>
  C14: the creation of a tenant is all or nothing. When it fails, the databases of the server are
  those there were (a database that already existed is never dropped) and, once the new one was
  there, the process forgot it; when it succeeds, exactly the new database was added. The
  database the operator works on stays selected.
\<close>

theorem tenant_creation_all_or_nothing:
  "case create_tenant migrate populate create_admin rename_website raced s n of
     (Inl e, s') \<Rightarrow> sv_databases s' = sv_databases s \<and> pr_current (sv_process s') = pr_current (sv_process s)
       \<and> (e = TenantCreationFailed n \<longrightarrow> dict_get (pr_conns (sv_process s')) n = None)
   | (Inr u, s') \<Rightarrow> n \<notin> set (sv_databases s) \<and> sv_databases s' = sv_databases s @ [n]
       \<and> pr_current (sv_process s') = pr_current (sv_process s)"
proof -
  have cur: "pr_current (snd (with_database p m body)) = pr_current p" for p m and body :: tenant_step
    by (simp add: with_database_def Let_def case_prod_unfold split: sum.split)
  have valid: "validate_database_name (sv_process s) n = Inr m \<Longrightarrow> m = n" for m
    by (auto simp: validate_database_name_def split: if_splits)
  show ?thesis
  proof (cases "validate_database_name (sv_process s) n")
    case (Inl e)
    then show ?thesis by (simp add: create_tenant_def)
  next
    case (Inr m)
    show ?thesis
    proof (cases "create_database s n raced")
      case (Inl e)
      then have "e \<noteq> TenantCreationFailed n"
        by (auto simp: create_database_def split: if_splits option.splits)
      with Inl Inr valid show ?thesis by (simp add: create_tenant_def)
    next
      case s1: (Inr s1)
      then have new: "n \<notin> set (sv_databases s)" "s1 = s\<lparr>sv_databases := sv_databases s @ [n]\<rparr>"
        by (auto simp: create_database_def database_exists_def split: if_splits option.splits)
      let ?run = "with_database (sv_process s) n (run_steps [migrate, populate, create_admin, rename_website])"
      obtain r p where run: "?run = (r, p)" by (cases ?run)
      with cur [of "sv_process s" n "run_steps [migrate, populate, create_admin, rename_website]"]
      have "pr_current p = pr_current (sv_process s)" by simp
      with run new s1 Inr valid [OF Inr] show ?thesis
        by (cases r) (auto simp: create_tenant_def drop_database_def forget_database_def removeAll_id delete_conv)
    qed
  qed
qed

definition demo_server :: server where
  "demo_server = \<lparr>sv_databases = [''totem''], sv_process = demo_process\<rparr>"

theorem tenant_creation_all_or_nothing_witness:
  "create_tenant (\<lambda>p. (Inr (), p)) (\<lambda>p. (Inl (Raised ''populate''), p)) (\<lambda>p. (Inr (), p)) (\<lambda>p. (Inr (), p)) None
     demo_server ''acme'' = (Inl (TenantCreationFailed ''acme''), drop_database demo_server ''acme'')
   \<and> sv_databases (drop_database demo_server ''acme'') = sv_databases demo_server"
proof -
  have run: "create_tenant (\<lambda>p. (Inr (), p)) (\<lambda>p. (Inl (Raised ''populate''), p)) (\<lambda>p. (Inr (), p)) (\<lambda>p. (Inr (), p)) None
     demo_server ''acme'' = (Inl (TenantCreationFailed ''acme''), drop_database demo_server ''acme'')"
    by code_simp
  from tenant_creation_all_or_nothing [where migrate = "\<lambda>p. (Inr (), p)"
      and populate = "\<lambda>p. (Inl (Raised ''populate''), p)" and create_admin = "\<lambda>p. (Inr (), p)"
      and rename_website = "\<lambda>p. (Inr (), p)" and raced = None and s = demo_server and n = "''acme''"] run
  show ?thesis by simp
qed

subsection \<open>One scheduler per tenant\<close>

text \<open>
  A scheduler is known by its database; \<open>loads\<close>, \<open>ticks\<close> and \<open>syncs\<close> say which operation on
  which database returns at a given time, with the delay a tick asks for. An operation that
  raises is logged.
\<close>

record beat =
  bt_schedulers :: "string list"
  bt_last_refresh :: int

definition remove_scheduler :: "string \<Rightarrow> string list \<Rightarrow> string list" where
  "remove_scheduler n l = removeAll n l"

definition add_scheduler :: "(string \<Rightarrow> bool) \<Rightarrow> string \<Rightarrow> string list \<Rightarrow> string list" where
  "add_scheduler loads n l = (if loads n then l @ [n] else l)"

definition refresh_databases :: "int \<Rightarrow> string list option \<Rightarrow> (string \<Rightarrow> bool) \<Rightarrow> beat \<Rightarrow> beat" where
  "refresh_databases now tenants loads b =
     (let b1 = b\<lparr>bt_last_refresh := now\<rparr> in
      case tenants of
        None \<Rightarrow> b1
      | Some ns \<Rightarrow>
          let kept = fold remove_scheduler (filter (\<lambda>n. n \<notin> set ns) (bt_schedulers b)) (bt_schedulers b)
          in b1\<lparr>bt_schedulers := fold (\<lambda>n l. if n \<in> set l then l else add_scheduler loads n l) ns kept\<rparr>)"

definition refresh_due :: "int \<Rightarrow> int \<Rightarrow> beat \<Rightarrow> bool" where
  "refresh_due now every b \<longleftrightarrow> now - bt_last_refresh b \<ge> every"

definition beat_tick ::
    "int \<Rightarrow> int \<Rightarrow> int \<Rightarrow> string list option \<Rightarrow> (string \<Rightarrow> bool) \<Rightarrow> (string \<Rightarrow> int option) \<Rightarrow> beat \<Rightarrow> int \<times> string list \<times> beat" where
  "beat_tick now every max_interval tenants loads ticks b =
     (let b1 = (if refresh_due now every b then refresh_databases now tenants loads b else b);
          intervals = List.map_filter ticks (bt_schedulers b1)
      in (if intervals = [] then max_interval else Min (set intervals), bt_schedulers b1, b1))"

lemma removed_schedulers: "set (fold remove_scheduler ns l) = set l - set ns"
  by (induction ns arbitrary: l) (auto simp: remove_scheduler_def)

lemma added_schedulers:
  "set (fold (\<lambda>n l. if n \<in> set l then l else add_scheduler loads n l) ns l) = set l \<union> {n \<in> set ns. loads n}"
proof (induction ns arbitrary: l)
  case (Cons n ns)
  show ?case by (cases "n \<in> set l"; cases "loads n") (auto simp: Cons.IH add_scheduler_def)
qed simp

text \<open>
  A refresh that reads the list of tenants leaves exactly one scheduler per active tenant whose
  schedule loads; a tenant that cannot be loaded or ticked does not stop the others.
\<close>

lemma refresh_follows_the_tenants:
  "set (bt_schedulers (refresh_databases now (Some ns) loads b)) =
     {n \<in> set ns. n \<in> set (bt_schedulers b) \<or> loads n}"
  by (auto simp: refresh_databases_def Let_def added_schedulers removed_schedulers)

lemma tick_reaches_every_tenant:
  assumes "beat_tick now every max_interval tenants loads ticks b = (d, ticked, b')" "n \<in> set ticked" "ticks n = Some i"
  shows "d \<le> i"
proof -
  have "i \<in> set (List.map_filter ticks ticked)" using assms(2,3) by (auto simp: List.map_filter_def intro!: image_eqI [of _ _ n])
  then show ?thesis using assms(1) by (auto simp: beat_tick_def Let_def split: if_splits)
qed

end
