(* ===== verification/Populate.thy ===== *)
theory Populate
  imports Totem_Prelude
begin

text \<open>
  The order in which the applications are populated: the layered topological sort
  (\<open>core/utils/topological_sort.py\<close>) and the \<open>populate\<close> command
  (\<open>core/management/commands/populate.py\<close>). A Python set is a list of its elements; the order
  in which a set is iterated is a parameter. The command is modelled by the calls it makes, in
  order; the fixtures and the populate methods themselves are outside.
\<close>

subsection \<open>Topological sort\<close>

type_synonym 'a graph = "('a \<times> 'a list) list"

text \<open>\<open>node => dependencies\<close> without the nodes of a layer, in the nodes and in the dependencies.\<close>

definition free_nodes :: "'a graph \<Rightarrow> 'a list" where
  "free_nodes todo = map fst (filter (\<lambda>(n, ds). ds = []) todo)"

definition strip_nodes :: "'a list \<Rightarrow> 'a graph \<Rightarrow> 'a graph" where
  "strip_nodes current todo =
     map (\<lambda>(n, ds). (n, filter (\<lambda>d. d \<notin> set current) ds)) (filter (\<lambda>(n, ds). n \<notin> set current) todo)"

lemma strip_nodes_shorter:
  assumes "free_nodes todo \<noteq> []"
  shows "length (strip_nodes (free_nodes todo) todo) < length todo"
proof -
  from assms obtain n where n: "n \<in> set (free_nodes todo)" by (cases "free_nodes todo") auto
  then obtain ds where "(n, ds) \<in> set todo" by (auto simp: free_nodes_def)
  with n show ?thesis by (auto simp: strip_nodes_def intro: length_filter_less)
qed

text \<open>The layers the generator yields, and whether it raises after them.\<close>

function topological_sort_as_sets :: "'a graph \<Rightarrow> 'a list list \<times> bool" where
  "topological_sort_as_sets todo =
     (if todo = [] then ([], False)
      else let current = free_nodes todo in
        if current = [] then ([], True)
        else apfst ((#) current) (topological_sort_as_sets (strip_nodes current todo)))"
  by pat_completeness auto
termination
  by (relation "measure length") (auto simp: strip_nodes_shorter)

declare topological_sort_as_sets.simps [simp del]

definition stable_topological_sort :: "'a list \<Rightarrow> 'a graph \<Rightarrow> unit + 'a list" where
  "stable_topological_sort nodes graph =
     (case topological_sort_as_sets graph of
        (layers, True) \<Rightarrow> Inl ()
      | (layers, False) \<Rightarrow> Inr (concat (map (\<lambda>layer. filter (\<lambda>n. n \<in> set layer) nodes) layers)))"

subsection \<open>The command\<close>

record app_config =
  ac_label :: string
  ac_dependencies :: "string list"
  ac_fixtures :: "string list"
  ac_methods :: "string list"

datatype populate_error = CyclicDependency | CircularReference | NoSuchApp string

definition dependency_map :: "app_config list \<Rightarrow> string graph" where
  "dependency_map configs = map (\<lambda>c. (ac_label c, uniq (ac_dependencies c))) configs"

text \<open>
  \<open>unresolved\<close> is the chain of calls in progress: a call that returns removes the name it
  appended. \<open>resolve_edges\<close> is the loop on the dependencies.
\<close>

function dep_resolve :: "string graph \<Rightarrow> string \<Rightarrow> string list \<Rightarrow> string list \<Rightarrow> populate_error + string list"
  and resolve_edges :: "string graph \<Rightarrow> string list \<Rightarrow> string list \<Rightarrow> string list \<Rightarrow> populate_error + string list" where
  "dep_resolve g app resolved unresolved =
     (case dict_get g app of
        None \<Rightarrow> Inl (NoSuchApp app)
      | Some edges \<Rightarrow>
          (case resolve_edges g edges resolved (unresolved @ [app]) of
             Inl e \<Rightarrow> Inl e
           | Inr resolved' \<Rightarrow> Inr (resolved' @ [app])))"
| "resolve_edges g [] resolved unresolved = Inr resolved"
| "resolve_edges g (edge # edges) resolved unresolved =
     (if edge \<in> set resolved then resolve_edges g edges resolved unresolved
      else if edge \<in> set unresolved then Inl CircularReference
      else case dep_resolve g edge resolved unresolved of
          Inl e \<Rightarrow> Inl e
        | Inr resolved' \<Rightarrow> resolve_edges g edges resolved' unresolved)"
  by pat_completeness auto
termination
proof (relation "measures
    [case_sum (\<lambda>(g, a, res, unr). card (fst ` set g - insert a (set unr))) (\<lambda>(g, es, res, unr). card (fst ` set g - set unr)),
     case_sum (\<lambda>(g, a, res, unr). case dict_get g a of None \<Rightarrow> 0 | Some es \<Rightarrow> Suc (length es)) (\<lambda>(g, es, res, unr). length es)]",
    goal_cases)
  case (4 g edge edges resolved unresolved)
  show ?case
  proof (cases "dict_get g edge")
    case None
    then have "edge \<notin> fst ` set g" by (simp add: map_of_eq_None_iff)
    then have "fst ` set g - insert edge (set unresolved) = fst ` set g - set unresolved" by blast
    with None show ?thesis by simp
  next
    case (Some ds)
    then have "edge \<in> fst ` set g" by (metis map_of_SomeD fst_conv image_eqI)
    with 4 have "fst ` set g - insert edge (set unresolved) \<subset> fst ` set g - set unresolved" by blast
    then show ?thesis by (simp add: psubset_card_mono)
  qed
qed auto

text \<open>The dependencies of each application asked for, then the sort of them all.\<close>

fun collect_deps :: "string graph \<Rightarrow> string list \<Rightarrow> populate_error + string list" where
  "collect_deps g [] = Inr []"
| "collect_deps g (app # apps) =
     result_bind (dep_resolve g app [] []) (\<lambda>resolved.
       result_bind (collect_deps g apps) (\<lambda>deps. Inr (resolved @ deps)))"

definition resolve_dependency_order ::
    "(string list \<Rightarrow> string list) \<Rightarrow> string graph \<Rightarrow> string list \<Rightarrow> populate_error + string list" where
  "resolve_dependency_order iterate g app_list =
     result_bind (collect_deps g app_list) (\<lambda>deps.
       case stable_topological_sort (iterate deps) g of Inl u \<Rightarrow> Inl CyclicDependency | Inr order \<Rightarrow> Inr order)"

datatype populate_call =
    DbReset
  | Flush
  | Migrate
  | LoadData string string string
  | PopulateApp string string

definition populate_env :: "app_config list \<Rightarrow> string list \<Rightarrow> string \<Rightarrow> populate_call list" where
  "populate_env configs order env =
     concat (map (\<lambda>app. case find (\<lambda>c. ac_label c = app) configs of
                          None \<Rightarrow> [] | Some c \<Rightarrow> map (LoadData env app) (ac_fixtures c)) order)
     @ concat (map (\<lambda>app. case find (\<lambda>c. ac_label c = app) configs of
                          None \<Rightarrow> [] | Some c \<Rightarrow> if env \<in> set (ac_methods c) then [PopulateApp env app] else []) order)"

definition populate_command ::
    "(string list \<Rightarrow> string list) \<Rightarrow> app_config list \<Rightarrow> string list \<Rightarrow> string \<Rightarrow> bool \<Rightarrow> bool
     \<Rightarrow> populate_error + populate_call list" where
  "populate_command iterate configs apps env drop_db resets =
     (let app_list = (if apps = [] then map ac_label configs else apps) in
      result_bind (resolve_dependency_order iterate (dependency_map configs) app_list) (\<lambda>order.
        if drop_db \<and> apps \<noteq> [] then Inr []
        else let reset = (if drop_db then (if resets then [DbReset, Migrate] else [DbReset, Flush, Migrate]) else []);
                 env_list = (if env = ''system'' then [env] else [''system'', env])
             in Inr (reset @ concat (map (populate_env configs order) env_list))))"

subsection \<open>Layers\<close>

definition needs :: "'a graph \<Rightarrow> ('a \<times> 'a) set" where
  "needs g = {(n, d). \<exists>ds. (n, ds) \<in> set g \<and> d \<in> set ds}"

definition closed_graph :: "'a graph \<Rightarrow> bool" where
  "closed_graph g \<longleftrightarrow> (\<forall>(n, d) \<in> needs g. d \<in> set (dict_keys g))"

lemma finite_needs [simp]: "finite (needs g)"
proof (rule finite_subset)
  show "needs g \<subseteq> set (dict_keys g) \<times> (\<Union>(n, ds) \<in> set g. set ds)" by (force simp: needs_def)
  show "finite (set (dict_keys g) \<times> (\<Union>(n, ds) \<in> set g. set ds))" by (auto intro!: finite_cartesian_product)
qed

text \<open>A finite acyclic relation has ranks.\<close>

lemma acyclic_ranks:
  assumes "finite r" "acyclic r"
  shows "\<exists>rank :: 'a \<Rightarrow> nat. \<forall>(n, d) \<in> r. rank d < rank n"
proof (intro exI ballI, clarify)
  fix n d assume nd: "(n, d) \<in> r"
  have "finite (r\<^sup>+ `` {n})" using assms(1) by (simp add: finite_Image)
  moreover have "r\<^sup>+ `` {d} \<subset> r\<^sup>+ `` {n}"
  proof
    show "r\<^sup>+ `` {d} \<subseteq> r\<^sup>+ `` {n}" using nd by (auto intro: trancl_into_trancl2)
    show "r\<^sup>+ `` {d} \<noteq> r\<^sup>+ `` {n}" using nd assms(2) by (auto simp: acyclic_def)
  qed
  ultimately show "card (r\<^sup>+ `` {d}) < card (r\<^sup>+ `` {n})" by (rule psubset_card_mono)
qed

lemma ranked_acyclic:
  assumes "\<And>n d. (n, d) \<in> r \<Longrightarrow> rank d < (rank n :: nat)"
  shows "acyclic r"
proof -
  have "(n, d) \<in> r\<^sup>+ \<Longrightarrow> rank d < rank n" for n d
    by (induction rule: trancl_induct) (auto dest: assms)
  then show ?thesis by (auto simp: acyclic_def)
qed

lemma strip_nodes_needs:
  "needs (strip_nodes c g) = {(n, d) \<in> needs g. n \<notin> set c \<and> d \<notin> set c}"
  by (auto simp: needs_def strip_nodes_def; force)

lemma strip_nodes_keys: "fst ` set (strip_nodes c g) = fst ` set g - set c"
  by (force simp: strip_nodes_def)

lemma strip_nodes_distinct: "distinct (dict_keys g) \<Longrightarrow> distinct (dict_keys (strip_nodes c g))"
proof -
  have "dict_keys (strip_nodes c g) = filter (\<lambda>n. n \<notin> set c) (dict_keys g)"
    by (induction g) (auto simp: strip_nodes_def)
  then show "distinct (dict_keys g) \<Longrightarrow> ?thesis" by simp
qed

lemma free_nodes_needs:
  assumes "distinct (dict_keys g)" "n \<in> set (free_nodes g)"
  shows "(n, d) \<notin> needs g"
proof
  assume "(n, d) \<in> needs g"
  then obtain ds where ds: "(n, ds) \<in> set g" "d \<in> set ds" by (auto simp: needs_def)
  from assms(2) have "(n, []) \<in> set g" by (auto simp: free_nodes_def)
  with assms(1) ds(1) have "ds = []" by (auto dest: eq_key_imp_eq_value)
  with ds(2) show False by simp
qed

text \<open>What a sort that does not raise yields, and that it does not raise exactly when it can.\<close>

lemma layers_cases:
  assumes "topological_sort_as_sets g = (layers, False)" "g \<noteq> []"
  obtains ls where "free_nodes g \<noteq> []" "layers = free_nodes g # ls"
    "topological_sort_as_sets (strip_nodes (free_nodes g) g) = (ls, False)"
  using assms
  by (subst (asm) topological_sort_as_sets.simps)
    (auto simp: Let_def apfst_def map_prod_def split: prod.splits if_splits)

lemma layers_sound:
  assumes "topological_sort_as_sets g = (layers, False)" "distinct (dict_keys g)"
  shows "set (concat layers) = set (dict_keys g) \<and> distinct (concat layers) \<and>
    (\<forall>i < length layers. \<forall>n \<in> set (layers ! i). \<forall>d. (n, d) \<in> needs g \<longrightarrow> d \<in> set (concat (take i layers)))"
  using assms
proof (induction g arbitrary: layers rule: topological_sort_as_sets.induct)
  case (1 g)
  show ?case
  proof (cases "g = []")
    case True
    with "1.prems" show ?thesis by (simp add: topological_sort_as_sets.simps)
  next
    case False
    let ?c = "free_nodes g" and ?g = "strip_nodes (free_nodes g) g"
    from layers_cases [OF "1.prems"(1) False] obtain ls
      where free: "?c \<noteq> []" and ls: "layers = ?c # ls" "topological_sort_as_sets ?g = (ls, False)" .
    note IH = "1.IH" [OF False refl free ls(2) strip_nodes_distinct [OF "1.prems"(2)]]
    have sub: "set ?c \<subseteq> set (dict_keys g)" by (auto simp: free_nodes_def)
    have "distinct ?c" using "1.prems"(2)
      by (auto simp: free_nodes_def distinct_map intro: inj_on_subset)
    moreover from IH have rest: "set (concat ls) = fst ` set g - set ?c" "distinct (concat ls)"
      by (simp_all add: strip_nodes_keys)
    ultimately have keys: "set (concat layers) = set (dict_keys g)" "distinct (concat layers)"
      using sub ls(1) by (simp_all only: concat.simps set_append distinct_append set_map) blast+
    have "d \<in> set (concat (take i layers))"
      if "i < length layers" "n \<in> set (layers ! i)" "(n, d) \<in> needs g" for i n d
    proof (cases i)
      case 0
      with that ls(1) free_nodes_needs [OF "1.prems"(2)] show ?thesis by auto
    next
      case (Suc j)
      with that ls(1) have j: "j < length ls" "n \<in> set (ls ! j)" by auto
      then have "n \<in> set (concat ls)" by auto
      with rest(1) have "n \<notin> set ?c" by blast
      with that(3) have "d \<in> set ?c \<or> (n, d) \<in> needs ?g" by (simp add: strip_nodes_needs)
      with IH j ls(1) Suc show ?thesis by auto
    qed
    with keys show ?thesis by blast
  qed
qed

lemma layers_complete:
  assumes "closed_graph g" "\<forall>(n, d) \<in> needs g. rank d < (rank n :: nat)"
  shows "snd (topological_sort_as_sets g) = False"
  using assms
proof (induction g rule: topological_sort_as_sets.induct)
  case (1 g)
  show ?case
  proof (cases "g = []")
    case True
    then show ?thesis by (simp add: topological_sort_as_sets.simps)
  next
    case False
    let ?c = "free_nodes g"
    from False obtain k where "k \<in> fst ` set g" by (cases g) auto
    from ex_has_least_nat [of "\<lambda>n. n \<in> fst ` set g", OF this, of rank]
    obtain n where n: "n \<in> fst ` set g" "\<And>m. m \<in> fst ` set g \<Longrightarrow> rank n \<le> rank m" by blast
    from n(1) obtain ds where ds: "(n, ds) \<in> set g" by auto
    have "ds = []"
    proof (rule ccontr)
      assume "ds \<noteq> []"
      then obtain d where "d \<in> set ds" by (cases ds) auto
      with ds have nd: "(n, d) \<in> needs g" by (auto simp: needs_def)
      with "1.prems" have "d \<in> set (dict_keys g)" "rank d < rank n" by (auto simp: closed_graph_def)
      with n(2) show False by fastforce
    qed
    with ds have free: "?c \<noteq> []" by (auto simp: free_nodes_def filter_empty_conv)
    have "closed_graph (strip_nodes ?c g)" "\<forall>(n, d) \<in> needs (strip_nodes ?c g). rank d < rank n"
      using "1.prems" by (auto simp: closed_graph_def strip_nodes_needs strip_nodes_keys)
    from "1.IH" [OF False refl free this] show ?thesis
      using False free by (subst topological_sort_as_sets.simps) (simp add: Let_def)
  qed
qed

lemma layers_ranked:
  assumes "snd (topological_sort_as_sets g) = False" "distinct (dict_keys g)"
  shows "closed_graph g \<and> (\<exists>rank :: 'a \<Rightarrow> nat. \<forall>(n, d) \<in> needs g. rank d < rank n)"
  using assms
proof (induction g rule: topological_sort_as_sets.induct)
  case (1 g)
  show ?case
  proof (cases "g = []")
    case True
    then show ?thesis by (simp add: needs_def closed_graph_def)
  next
    case False
    let ?c = "free_nodes g" and ?g = "strip_nodes (free_nodes g) g"
    from "1.prems"(1) obtain layers where "topological_sort_as_sets g = (layers, False)"
      by (cases "topological_sort_as_sets g") auto
    from layers_cases [OF this False] obtain ls
      where free: "?c \<noteq> []" and ls: "topological_sort_as_sets ?g = (ls, False)" .
    from "1.IH" [OF False refl free _ strip_nodes_distinct [OF "1.prems"(2)]] ls
    obtain rank :: "'a \<Rightarrow> nat" where IH: "closed_graph ?g" "\<forall>(n, d) \<in> needs ?g. rank d < rank n"
      by auto
    define rank' where "rank' n = (if n \<in> set ?c then 0 else Suc (rank n))" for n
    have sub: "set ?c \<subseteq> fst ` set g" by (auto simp: free_nodes_def)
    have "rank' d < rank' n \<and> d \<in> fst ` set g" if nd: "(n, d) \<in> needs g" for n d
    proof -
      from nd free_nodes_needs [OF "1.prems"(2)] have n: "n \<notin> set ?c" by blast
      show ?thesis
      proof (cases "d \<in> set ?c")
        case True
        with n sub show ?thesis by (auto simp: rank'_def)
      next
        case False
        with n nd have "(n, d) \<in> needs ?g" by (simp add: strip_nodes_needs)
        with IH n False show ?thesis by (fastforce simp: rank'_def closed_graph_def strip_nodes_keys)
      qed
    qed
    then show ?thesis by (auto simp: closed_graph_def)
  qed
qed

lemma layers_raise_iff:
  assumes "distinct (dict_keys g)"
  shows "snd (topological_sort_as_sets g) = False \<longleftrightarrow> closed_graph g \<and> acyclic (needs g)"
proof
  assume "closed_graph g \<and> acyclic (needs g)"
  with acyclic_ranks [OF finite_needs] layers_complete show "snd (topological_sort_as_sets g) = False"
    by metis
next
  assume "snd (topological_sort_as_sets g) = False"
  from layers_ranked [OF this assms] obtain rank :: "'a \<Rightarrow> nat"
    where "closed_graph g" "\<forall>(n, d) \<in> needs g. rank d < rank n" by blast
  then show "closed_graph g \<and> acyclic (needs g)" by (auto intro!: ranked_acyclic [of _ rank])
qed

subsection \<open>Dependencies\<close>

definition settled_deps :: "string graph \<Rightarrow> string list \<Rightarrow> bool" where
  "settled_deps g res \<longleftrightarrow> set res \<subseteq> set (dict_keys g) \<and> (\<forall>(n, d) \<in> needs g. n \<in> set res \<longrightarrow> d \<in> set res)"

lemma needs_get: "distinct (dict_keys g) \<Longrightarrow> dict_get g n = Some es \<Longrightarrow> (n, d) \<in> needs g \<longleftrightarrow> d \<in> set es"
  by (force simp: needs_def dest: map_of_SomeD eq_key_imp_eq_value)

lemma resolve_sound:
  "dep_resolve g a res unr = Inr res' \<Longrightarrow> distinct (dict_keys g) \<Longrightarrow> settled_deps g res \<Longrightarrow>
     settled_deps g res' \<and> insert a (set res) \<subseteq> set res' \<and> set res' \<subseteq> set res \<union> (needs g)\<^sup>* `` {a}"
  "resolve_edges g es res unr = Inr res' \<Longrightarrow> distinct (dict_keys g) \<Longrightarrow> settled_deps g res \<Longrightarrow>
     settled_deps g res' \<and> set es \<union> set res \<subseteq> set res' \<and> set res' \<subseteq> set res \<union> (needs g)\<^sup>* `` set es"
proof (induction g a res unr and g es res unr arbitrary: res' and res' rule: dep_resolve_resolve_edges.induct)
  case (1 g a res unr)
  then obtain es r where es: "dict_get g a = Some es" "resolve_edges g es res (unr @ [a]) = Inr r" "res' = r @ [a]"
    by (auto split: option.splits sum.splits)
  note IH = "1.IH" [OF es(1,2) "1.prems"(2,3)]
  have a: "a \<in> fst ` set g" using es(1) by (force dest: map_of_SomeD)
  have "(needs g)\<^sup>* `` set es \<subseteq> (needs g)\<^sup>* `` {a}"
    using needs_get [OF "1.prems"(2) es(1)] by (auto intro: converse_rtrancl_into_rtrancl)
  with IH es(3) have "set res' \<subseteq> set res \<union> (needs g)\<^sup>* `` {a}" by simp blast
  moreover have "settled_deps g res'"
    using IH es(3) a needs_get [OF "1.prems"(2) es(1)] by (auto simp: settled_deps_def)
  ultimately show ?case using IH es(3) by auto
next
  case (2 g res unr)
  then show ?case by auto
next
  case (3 g e es res unr)
  show ?case
  proof (cases "e \<in> set res")
    case True
    with 3 have "resolve_edges g es res unr = Inr res'" by simp
    from "3.IH"(1) [OF True this "3.prems"(2,3)] True show ?thesis by auto
  next
    case False
    with "3.prems"(1) obtain r where r: "e \<notin> set unr" "dep_resolve g e res unr = Inr r" "resolve_edges g es r unr = Inr res'"
      by (auto split: if_splits sum.splits)
    from "3.IH"(2) [OF False r(1,2) "3.prems"(2,3)] have one: "settled_deps g r"
      "insert e (set res) \<subseteq> set r" "set r \<subseteq> set res \<union> (needs g)\<^sup>* `` {e}" by auto
    have "(needs g)\<^sup>* `` set (e # es) = (needs g)\<^sup>* `` {e} \<union> (needs g)\<^sup>* `` set es" by auto
    with "3.IH"(3) [OF False r(1,2,3) "3.prems"(2) one(1)] one show ?thesis by simp blast
  qed
qed

lemma resolve_complete:
  "closed_graph g \<Longrightarrow> distinct (dict_keys g) \<Longrightarrow> \<forall>(n, d) \<in> needs g. rank d < (rank n :: nat) \<Longrightarrow>
     a \<in> set (dict_keys g) \<Longrightarrow> \<forall>u \<in> set unr. rank a < rank u \<Longrightarrow> \<exists>res'. dep_resolve g a res unr = Inr res'"
  "closed_graph g \<Longrightarrow> distinct (dict_keys g) \<Longrightarrow> \<forall>(n, d) \<in> needs g. rank d < (rank n :: nat) \<Longrightarrow>
     set es \<subseteq> set (dict_keys g) \<Longrightarrow> \<forall>e \<in> set es. \<forall>u \<in> set unr. rank e < rank u \<Longrightarrow>
     \<exists>res'. resolve_edges g es res unr = Inr res'"
proof (induction g a res unr and g es res unr rule: dep_resolve_resolve_edges.induct)
  case (1 g a res unr)
  then obtain es where es: "dict_get g a = Some es" by (cases "dict_get g a") (auto simp: map_of_eq_None_iff)
  have deps: "(a, d) \<in> needs g" if "d \<in> set es" for d using that needs_get [OF "1.prems"(2) es] by simp
  then have "set es \<subseteq> set (dict_keys g)" using "1.prems"(1) unfolding closed_graph_def by blast
  moreover have "\<forall>e \<in> set es. \<forall>u \<in> set (unr @ [a]). rank e < rank u"
    using deps "1.prems"(3,5) by fastforce
  ultimately obtain r where "resolve_edges g es res (unr @ [a]) = Inr r"
    using "1.IH" [OF es "1.prems"(1,2,3)] by blast
  with es show ?case by simp
next
  case (2 g res unr)
  then show ?case by simp
next
  case (3 g e es res unr)
  from "3.prems" have e: "e \<in> set (dict_keys g)" "\<forall>u \<in> set unr. rank e < rank u" and
    es: "set es \<subseteq> set (dict_keys g)" "\<forall>e \<in> set es. \<forall>u \<in> set unr. rank e < rank u" by auto
  show ?case
  proof (cases "e \<in> set res")
    case True
    from "3.IH"(1) [OF True "3.prems"(1-3) es] True show ?thesis by simp
  next
    case False
    from e(2) have u: "e \<notin> set unr" by blast
    from "3.IH"(2) [OF False u "3.prems"(1-3) e] obtain r where r: "dep_resolve g e res unr = Inr r" by blast
    from "3.IH"(3) [OF False u r "3.prems"(1-3) es] False u r show ?thesis by simp
  qed
qed

lemma settled_reach:
  assumes "settled_deps g res" "a \<in> set res"
  shows "(needs g)\<^sup>* `` {a} \<subseteq> set res"
proof -
  have "(a, n) \<in> (needs g)\<^sup>* \<Longrightarrow> n \<in> set res" for n
    by (induction rule: rtrancl_induct) (use assms in \<open>auto simp: settled_deps_def\<close>)
  then show ?thesis by auto
qed

lemma collect_deps_spec:
  assumes "distinct (dict_keys g)"
  shows "collect_deps g apps = Inr deps \<Longrightarrow>
    set deps = (needs g)\<^sup>* `` set apps \<and> set deps \<subseteq> set (dict_keys g) \<and> set apps \<subseteq> set (dict_keys g)"
proof (induction apps arbitrary: deps)
  case (Cons a apps)
  then obtain r ds where r: "dep_resolve g a [] [] = Inr r" "collect_deps g apps = Inr ds" "deps = r @ ds" by auto
  from resolve_sound(1) [OF r(1) assms] have sound: "settled_deps g r" "a \<in> set r" "set r \<subseteq> (needs g)\<^sup>* `` {a}"
    by (auto simp: settled_deps_def)
  from settled_reach [OF sound(1,2)] sound have "set r = (needs g)\<^sup>* `` {a}" "set r \<subseteq> set (dict_keys g)" "a \<in> set (dict_keys g)"
    by (auto simp: settled_deps_def)
  with Cons.IH [OF r(2)] r(3) show ?case by auto
qed simp

lemma collect_deps_total:
  assumes "closed_graph g" "distinct (dict_keys g)" "acyclic (needs g)" "set apps \<subseteq> set (dict_keys g)"
  shows "\<exists>deps. collect_deps g apps = Inr deps"
proof -
  from acyclic_ranks [OF finite_needs assms(3)] obtain rank :: "string \<Rightarrow> nat"
    where rank: "\<forall>(n, d) \<in> needs g. rank d < rank n" by blast
  have one: "\<exists>r. dep_resolve g a [] [] = Inr r" if "a \<in> set (dict_keys g)" for a
    by (rule resolve_complete(1) [OF assms(1,2) rank that]) simp
  show ?thesis using assms(4)
  proof (induction apps)
    case (Cons a apps)
    with one [of a] show ?case by auto
  qed simp
qed

subsection \<open>The order\<close>

lemma layered_order:
  assumes "\<And>i n d. i < length layers \<Longrightarrow> n \<in> set (layers ! i) \<Longrightarrow> (n, d) \<in> r \<Longrightarrow> d \<in> set (concat (take i layers))"
    and "\<And>n d. n \<in> set nodes \<Longrightarrow> (n, d) \<in> r \<Longrightarrow> d \<in> set nodes"
    and "k \<le> length layers" "ord = concat (map (\<lambda>l. filter (\<lambda>n. n \<in> set l) nodes) (take k layers))"
    and "i < length ord" "(ord ! i, d) \<in> r"
  shows "d \<in> set (take i ord)"
  using assms(3-6)
proof (induction k arbitrary: ord i)
  case (Suc k)
  let ?f = "\<lambda>l. filter (\<lambda>n. n \<in> set l) nodes"
  define xs where "xs = concat (map ?f (take k layers))"
  from Suc.prems(1,2) have ord: "ord = xs @ ?f (layers ! k)"
    by (simp add: take_Suc_conv_app_nth xs_def)
  show ?case
  proof (cases "i < length xs")
    case True
    with ord Suc.prems(4) have "(xs ! i, d) \<in> r" by (simp only: nth_append if_True)
    from Suc.IH [OF _ xs_def True this] Suc.prems(1) have "d \<in> set (take i xs)" by simp
    with ord show ?thesis by (simp only: take_append set_append Un_iff simp_thms)
  next
    case False
    with Suc.prems(3) ord have "ord ! i = ?f (layers ! k) ! (i - length xs)" "i - length xs < length (?f (layers ! k))"
      by (auto simp: nth_append)
    then have "ord ! i \<in> set (?f (layers ! k))" by (metis nth_mem)
    then have n: "ord ! i \<in> set nodes" "ord ! i \<in> set (layers ! k)" by auto
    with assms(1) [OF _ n(2) Suc.prems(4)] assms(2) [OF n(1) Suc.prems(4)] Suc.prems(1)
    have "d \<in> set xs" by (auto simp: xs_def)
    with False ord show ?thesis by simp
  qed
qed simp

lemma layers_distinct_filter:
  "distinct (concat layers) \<Longrightarrow> distinct nodes \<Longrightarrow>
     distinct (concat (map (\<lambda>l. filter (\<lambda>n. n \<in> set l) nodes) layers))"
  by (induction layers) auto

lemma dependency_map_keys: "dict_keys (dependency_map configs) = map ac_label configs"
  by (simp add: dependency_map_def)


definition demo_apps :: "app_config list" where
  "demo_apps =
     [\<lparr>ac_label = ''website'', ac_dependencies = [''user'', ''base''], ac_fixtures = [''pages''], ac_methods = [''system'']\<rparr>,
      \<lparr>ac_label = ''user'', ac_dependencies = [''base''], ac_fixtures = [], ac_methods = [''local'']\<rparr>,
      \<lparr>ac_label = ''base'', ac_dependencies = [], ac_fixtures = [], ac_methods = []\<rparr>]"


end
