(* ===== verification/Menu_Tree.thy ===== *)
theory Menu_Tree
  imports Totem_Prelude "HOL-Library.Multiset"
begin

text \<open>
  The menus of the website (\<open>website/models/menu.py\<close>, \<open>MenuService\<close> in
  \<open>website/services.py\<close>) and the tree built to read them (\<open>core/utils/tree.py\<close>). The table is
  the list of its rows. A row keeps the path from the top of its tree, one identifier and a
  slash per level; the recursive statement that computes the paths walks the levels, with as
  many rounds as there are rows. The access rules are a predicate on the rows.
\<close>

subsection \<open>Rows\<close>

record menu =
  mn_id :: string
  mn_parent :: "string option"
  mn_path :: string
  mn_sequence :: int

datatype menu_error =
    OwnParent string
  | UnderOwnChild string
  | ParentNotFound string
  | PathTooLong
  | IntegrityViolation
  | ProtectedRows

definition PATH_MAX :: nat where "PATH_MAX = 256"

definition segment :: "string \<Rightarrow> string" where
  "segment i = i @ ''/''"

text \<open>A column of 256 characters refuses a longer path, whichever statement writes it.\<close>

definition stored :: "menu list \<Rightarrow> menu_error + menu list" where
  "stored ms =
     (if \<exists>m \<in> set ms. length (mn_path m) > PATH_MAX then Inl PathTooLong
      else if \<not> distinct (map mn_id ms) \<or> (\<exists>m \<in> set ms. case mn_parent m of None \<Rightarrow> False | Some q \<Rightarrow> q \<notin> mn_id ` set ms)
      then Inl IntegrityViolation
      else Inr ms)"

subsection \<open>The query set\<close>

text \<open>An object to create has its parent as the identifier and the path of the loaded instance.\<close>

record new_menu =
  nm_id :: string
  nm_parent :: "(string \<times> string) option"
  nm_sequence :: int

definition new_row :: "new_menu \<Rightarrow> menu" where
  "new_row obj =
     \<lparr>mn_id = nm_id obj, mn_parent = map_option fst (nm_parent obj),
      mn_path = (case nm_parent obj of
                   Some (q, path) \<Rightarrow> path @ segment (nm_id obj)
                 | None \<Rightarrow> segment (nm_id obj)),
      mn_sequence = nm_sequence obj\<rparr>"

definition menu_bulk_create :: "new_menu list \<Rightarrow> menu list \<Rightarrow> menu_error + menu list" where
  "menu_bulk_create objs ms = stored (ms @ map new_row objs)"

text \<open>The rows without a parent, then at each round the rows below those of the round before.\<close>

definition root_paths :: "menu list \<Rightarrow> (string \<times> string) list" where
  "root_paths ms = map (\<lambda>m. (mn_id m, segment (mn_id m))) (filter (\<lambda>m. mn_parent m = None) ms)"

definition child_paths :: "menu list \<Rightarrow> (string \<times> string) list \<Rightarrow> (string \<times> string) list" where
  "child_paths ms work =
     concat (map (\<lambda>(i, path). map (\<lambda>m. (mn_id m, path @ segment (mn_id m)))
                                  (filter (\<lambda>m. mn_parent m = Some i) ms)) work)"

fun parent_store :: "nat \<Rightarrow> menu list \<Rightarrow> (string \<times> string) list \<Rightarrow> (string \<times> string) list" where
  "parent_store 0 ms work = []"
| "parent_store (Suc n) ms work = (if work = [] then [] else work @ parent_store n ms (child_paths ms work))"

definition recompute_parent_store :: "(menu \<Rightarrow> bool) \<Rightarrow> menu list \<Rightarrow> menu_error + menu list" where
  "recompute_parent_store qs ms =
     (let store = parent_store (length ms) ms (root_paths ms) in
      stored (map (\<lambda>m. if qs m then (case dict_get store (mn_id m) of None \<Rightarrow> m | Some p \<Rightarrow> m\<lparr>mn_path := p\<rparr>) else m) ms))"

text \<open>
  \<open>queryset.update(**kwargs)\<close>: \<open>parent\<close> is the value of \<open>parent\<close> or \<open>parent_id\<close> when one of them
  is given.
\<close>

definition menu_update :: "(menu \<Rightarrow> bool) \<Rightarrow> string option option \<Rightarrow> int option \<Rightarrow> menu list \<Rightarrow> menu_error + menu list" where
  "menu_update qs parent sequence ms =
     (let write = (\<lambda>m. m\<lparr>mn_parent := (case parent of None \<Rightarrow> mn_parent m | Some q \<Rightarrow> q),
                          mn_sequence := (case sequence of None \<Rightarrow> mn_sequence m | Some n \<Rightarrow> n)\<rparr>) in
      result_bind (stored (map (\<lambda>m. if qs m then write m else m) ms)) (\<lambda>ms1.
        if parent \<noteq> None then recompute_parent_store (\<lambda>m. True) ms1 else Inr ms1))"

text \<open>\<open>Menu.save()\<close> of an existing row.\<close>

definition menu_save :: "menu \<Rightarrow> string option \<Rightarrow> menu list \<Rightarrow> menu_error + menu list" where
  "menu_save m parent_path ms =
     (let m1 = m\<lparr>mn_path := (case parent_path of Some p \<Rightarrow> p @ segment (mn_id m) | None \<Rightarrow> segment (mn_id m))\<rparr> in
      result_bind (stored (map (\<lambda>r. if mn_id r = mn_id m then m1 else r) ms)) (\<lambda>ms1.
        if mn_path m \<noteq> [] then recompute_parent_store (\<lambda>r. starts_with (mn_path m) (mn_path r)) ms1 else Inr ms1))"

text \<open>The parent of a menu is protected: a row other rows hang from cannot be deleted.\<close>

definition menu_delete :: "(menu \<Rightarrow> bool) \<Rightarrow> menu list \<Rightarrow> menu_error + menu list" where
  "menu_delete qs ms =
     (if \<exists>m \<in> set ms. \<exists>d \<in> set ms. qs d \<and> mn_parent m = Some (mn_id d) then Inl ProtectedRows
      else Inr (filter (\<lambda>m. \<not> qs m) ms))"

subsection \<open>The service\<close>

definition browse_menu :: "(menu \<Rightarrow> bool) \<Rightarrow> menu list \<Rightarrow> string \<Rightarrow> menu option" where
  "browse_menu readable ms i = find (\<lambda>m. mn_id m = i \<and> readable m) ms"

text \<open>\<open>MenuService.validate_data\<close> of a record, with the resolved parent when one was given.\<close>

definition validate_menu :: "menu option option \<Rightarrow> menu option \<Rightarrow> menu_error + unit" where
  "validate_menu parent instance =
     (case (parent, instance) of
        (Some (Some p), Some m) \<Rightarrow>
          if mn_id p = mn_id m then Inl (OwnParent (mn_id m))
          else if mn_id m \<in> set (str_split (CHR ''/'') (mn_path p)) then Inl (UnderOwnChild (mn_id m))
          else Inr ()
      | _ \<Rightarrow> Inr ())"

definition resolve_parent :: "(menu \<Rightarrow> bool) \<Rightarrow> menu list \<Rightarrow> string option \<Rightarrow> menu_error + menu option" where
  "resolve_parent readable ms parent =
     (case parent of
        None \<Rightarrow> Inr None
      | Some q \<Rightarrow> (case browse_menu readable ms q of None \<Rightarrow> Inl (ParentNotFound q) | Some p \<Rightarrow> Inr (Some p)))"

definition menu_service_create ::
    "(menu \<Rightarrow> bool) \<Rightarrow> (string \<times> string option \<times> int) list \<Rightarrow> menu list \<Rightarrow> menu_error + menu list" where
  "menu_service_create readable inputs ms =
     result_bind (result_map (\<lambda>(i, parent, sequence).
         result_bind (resolve_parent readable ms parent) (\<lambda>p.
           Inr \<lparr>nm_id = i, nm_parent = map_option (\<lambda>p. (mn_id p, mn_path p)) p, nm_sequence = sequence\<rparr>)) inputs)
       (\<lambda>objs. menu_bulk_create objs ms)"

definition menu_service_update ::
    "(menu \<Rightarrow> bool) \<Rightarrow> (menu \<Rightarrow> bool) \<Rightarrow> string option option \<Rightarrow> int option \<Rightarrow> menu list \<Rightarrow> menu_error + menu list" where
  "menu_service_update readable qs parent sequence ms =
     result_bind (case parent of
          None \<Rightarrow> Inr None
        | Some q \<Rightarrow> result_bind (resolve_parent readable ms q) (\<lambda>p. Inr (Some p))) (\<lambda>p.
       result_bind (result_map (\<lambda>m. validate_menu p (Some m)) (filter qs ms)) (\<lambda>us.
         menu_update qs (map_option (map_option mn_id) p) sequence ms))"

subsection \<open>Reading a tree\<close>

text \<open>A node is found by its key; it has no data while only a child of it was inserted.\<close>

record tree_node =
  tn_data :: "menu option"
  tn_children :: "string list"
  tn_parent :: "string option"

type_synonym node_map = "(string \<times> tree_node) list"

definition empty_node :: tree_node where
  "empty_node = \<lparr>tn_data = None, tn_children = [], tn_parent = None\<rparr>"

definition add_child :: "string \<Rightarrow> string \<Rightarrow> node_map \<Rightarrow> node_map" where
  "add_child q i nodes =
     (let nodes1 = (case dict_get nodes i of None \<Rightarrow> nodes | Some n \<Rightarrow> dict_put i (n\<lparr>tn_parent := Some q\<rparr>) nodes) in
      case dict_get nodes1 q of None \<Rightarrow> nodes1 | Some n \<Rightarrow> dict_put q (n\<lparr>tn_children := tn_children n @ [i]\<rparr>) nodes1)"

definition tree_insert :: "string \<Rightarrow> string option \<Rightarrow> menu \<Rightarrow> node_map \<Rightarrow> node_map" where
  "tree_insert key parent_key data nodes =
     (let nodes1 = (case parent_key of
                      None \<Rightarrow> nodes
                    | Some q \<Rightarrow> if dict_get nodes q = None then dict_put q empty_node nodes else nodes);
          nodes2 = (case dict_get nodes1 key of
                      Some n \<Rightarrow> dict_put key (n\<lparr>tn_data := Some data\<rparr>) nodes1
                    | None \<Rightarrow> dict_put key (empty_node\<lparr>tn_data := Some data\<rparr>) nodes1)
      in case parent_key of None \<Rightarrow> nodes2 | Some q \<Rightarrow> add_child q key nodes2)"

definition get_roots :: "node_map \<Rightarrow> tree_node list" where
  "get_roots nodes = filter (\<lambda>n. tn_parent n = None) (map snd nodes)"

definition build_tree :: "string \<Rightarrow> menu list \<Rightarrow> node_map" where
  "build_tree root rows =
     fold (\<lambda>m. tree_insert (mn_id m) (if mn_id m = root then None else mn_parent m) m) rows []"

text \<open>\<open>fetch\<close> is the order in which the database returns the rows of the ordered query.\<close>

definition read_tree ::
    "(menu \<Rightarrow> bool) \<Rightarrow> (menu list \<Rightarrow> menu list) \<Rightarrow> menu list \<Rightarrow> string \<Rightarrow> (node_map \<times> tree_node) option" where
  "read_tree readable fetch ms root_pk =
     (case browse_menu readable ms root_pk of
        None \<Rightarrow> None
      | Some root \<Rightarrow>
          let nodes = build_tree (mn_id root)
                (fetch (filter (\<lambda>m. readable m \<and> starts_with (mn_path root) (mn_path m)) ms))
          in map_option (\<lambda>n. (nodes, n)) (dict_get nodes (mn_id root)))"

end
