(* ===== verification/Menu_Laws.thy ===== *)
theory Menu_Laws
  imports Menu_Tree
begin

text \<open>
  Chains of ancestors, the paths that write them, and the invariant of the table: every row
  hangs from the top, and its path lists its ancestors. Then what the recursive statement
  computes, what the guard of a move refuses, and what the tree of a read holds.
\<close>

inductive menu_chain :: "menu list \<Rightarrow> string \<Rightarrow> string list \<Rightarrow> bool" for ms where
  top: "m \<in> set ms \<Longrightarrow> mn_parent m = None \<Longrightarrow> menu_chain ms (mn_id m) [mn_id m]"
| below: "m \<in> set ms \<Longrightarrow> mn_parent m = Some q \<Longrightarrow> menu_chain ms q c \<Longrightarrow> menu_chain ms (mn_id m) (c @ [mn_id m])"

definition chain_path :: "string list \<Rightarrow> string" where
  "chain_path c = concat (map segment c)"

definition plain_id :: "string \<Rightarrow> bool" where
  "plain_id i \<longleftrightarrow> i \<noteq> [] \<and> CHR ''/'' \<notin> set i"

definition menus_ok :: "menu list \<Rightarrow> bool" where
  "menus_ok ms \<longleftrightarrow> distinct (map mn_id ms) \<and>
     (\<forall>m \<in> set ms. plain_id (mn_id m) \<and> length (mn_path m) \<le> PATH_MAX \<and>
        (\<exists>c. menu_chain ms (mn_id m) c \<and> mn_path m = chain_path c))"

subsection \<open>Chains\<close>

lemma chain_row: "menu_chain ms i c \<Longrightarrow> i \<in> mn_id ` set ms \<and> c \<noteq> [] \<and> last c = i"
  by (induction rule: menu_chain.induct) auto

lemma chain_fun:
  assumes "distinct (map mn_id ms)"
  shows "menu_chain ms i c \<Longrightarrow> menu_chain ms i c' \<Longrightarrow> c' = c"
proof (induction arbitrary: c' rule: menu_chain.induct)
  case (top m)
  from top.prems show ?case
    by (cases rule: menu_chain.cases) (use top.hyps distinct_map_unique [OF assms] in force)+
next
  case (below m q c)
  from below.prems show ?case
  proof (cases rule: menu_chain.cases)
    case (top m')
    with below.hyps distinct_map_unique [OF assms] show ?thesis by force
  next
    case (below m' q' d)
    with below.hyps(1) distinct_map_unique [OF assms] have "m' = m" by force
    with below below.hyps(2) have "q' = q" by simp
    with below below.IH [of d] \<open>m' = m\<close> show ?thesis by simp
  qed
qed

lemma chain_prefix:
  "menu_chain ms i c \<Longrightarrow> k < length c \<Longrightarrow> menu_chain ms (c ! k) (take (Suc k) c)"
proof (induction arbitrary: k rule: menu_chain.induct)
  case (top m)
  then show ?case by (auto intro: menu_chain.top)
next
  case (below m q c)
  show ?case
  proof (cases "k < length c")
    case True
    with below.IH show ?thesis by (simp add: nth_append)
  next
    case False
    with below.prems have "k = length c" by simp
    with below.hyps show ?thesis by (auto intro: menu_chain.below)
  qed
qed

lemma chain_mem_prefix:
  assumes "menu_chain ms i c" "a \<in> set c"
  obtains d e where "menu_chain ms a d" "c = d @ e"
proof -
  from assms(2) obtain k where k: "k < length c" "c ! k = a" by (auto simp: in_set_conv_nth)
  with chain_prefix [OF assms(1) k(1)] that [of "take (Suc k) c" "drop (Suc k) c"] show ?thesis by simp
qed

lemma chain_ids: "menu_chain ms i c \<Longrightarrow> set c \<subseteq> mn_id ` set ms"
  by (induction rule: menu_chain.induct) auto

lemma chain_distinct:
  assumes "distinct (map mn_id ms)" "menu_chain ms i c"
  shows "distinct c"
proof (rule ccontr)
  assume "\<not> distinct c"
  then obtain j k where jk: "j < k" "k < length c" "c ! j = c ! k"
    by (auto simp: distinct_conv_nth) (metis linorder_neqE_nat)
  with chain_prefix [OF assms(2), of j] chain_prefix [OF assms(2), of k]
  have "take (Suc j) c = take (Suc k) c" by (auto dest: chain_fun [OF assms(1)])
  from arg_cong [OF this, of length] jk show False by simp
qed

lemma chain_length:
  assumes "distinct (map mn_id ms)" "menu_chain ms i c"
  shows "length c \<le> length ms"
proof -
  have "length c = card (set c)" using chain_distinct [OF assms] by (simp add: distinct_card)
  also have "\<dots> \<le> card (mn_id ` set ms)" by (intro card_mono chain_ids [OF assms(2)]) simp
  also have "\<dots> \<le> length ms" by (metis card_image_le card_length finite_set le_trans)
  finally show ?thesis .
qed

subsection \<open>Paths\<close>

lemma chain_path_simps [simp]:
  "chain_path [] = []" "chain_path (i # c) = segment i @ chain_path c" "chain_path (c @ d) = chain_path c @ chain_path d"
  by (simp_all add: chain_path_def)

lemma segment_split:
  assumes "CHR ''/'' \<notin> set i" "CHR ''/'' \<notin> set j" "segment i @ s = segment j @ t"
  shows "i = j \<and> s = t"
proof -
  have head: "takeWhile (\<lambda>x. x \<noteq> CHR ''/'') (segment a @ u) = a" if "CHR ''/'' \<notin> set a" for a u
    using that by (induction a) (auto simp: segment_def)
  from head [OF assms(1)] head [OF assms(2)] assms(3) have "i = j" by metis
  with assms(3) show ?thesis by simp
qed

text \<open>A path is a prefix of another exactly when one chain is a prefix of the other.\<close>

lemma chain_path_prefix:
  assumes "\<forall>i \<in> set c \<union> set d. plain_id i"
  shows "starts_with (chain_path c) (chain_path d) \<longleftrightarrow> (\<exists>e. d = c @ e)"
  using assms
proof (induction c arbitrary: d)
  case (Cons i c)
  show ?case
  proof (cases d)
    case Nil
    then show ?thesis by (simp add: starts_with_iff segment_def)
  next
    case (Cons j d')
    with Cons.prems have "CHR ''/'' \<notin> set i" "CHR ''/'' \<notin> set j" "\<forall>i \<in> set c \<union> set d'. plain_id i"
      by (auto simp: plain_id_def)
    then have ij: "CHR ''/'' \<notin> set i" "CHR ''/'' \<notin> set j" and IH: "starts_with (chain_path c) (chain_path d') \<longleftrightarrow> (\<exists>e. d' = c @ e)"
      using Cons.IH [of d'] by simp_all
    have "starts_with (chain_path (i # c)) (chain_path (j # d')) \<longleftrightarrow> i = j \<and> starts_with (chain_path c) (chain_path d')"
    proof
      assume "starts_with (chain_path (i # c)) (chain_path (j # d'))"
      then obtain t where "segment j @ chain_path d' = segment i @ chain_path c @ t" by (auto simp: starts_with_iff)
      from segment_split [OF ij(2,1) this] show "i = j \<and> starts_with (chain_path c) (chain_path d')"
        by (auto simp: starts_with_iff)
    qed (auto simp: starts_with_iff)
    with IH Cons show ?thesis by auto
  qed
qed (simp add: starts_with_iff)

lemma split_path:
  assumes "\<forall>i \<in> set c. plain_id i"
  shows "str_split (CHR ''/'') (chain_path c) = c @ [ [] ]"
  using assms
proof (induction c)
  case (Cons i c)
  then have "\<forall>x \<in> set i. x \<noteq> CHR ''/''" by (auto simp: plain_id_def)
  from split_on_append_sep [OF this, of "CHR ''/''"] Cons show ?case
    by (simp add: str_split_def segment_def)
qed (simp add: str_split_def)

subsection \<open>The recursive statement\<close>

definition links_up :: "menu list \<Rightarrow> (string \<times> string option) set" where
  "links_up ms = (\<lambda>m. (mn_id m, mn_parent m)) ` set ms"

lemma chain_cong_le:
  assumes "menu_chain ms i c" "links_up ms \<subseteq> links_up ms'"
  shows "menu_chain ms' i c"
  using assms(1)
proof (induction rule: menu_chain.induct)
  case (top m)
  then have "(mn_id m, None) \<in> links_up ms'" using assms(2) by (force simp: links_up_def)
  then show ?case by (auto simp: links_up_def dest: menu_chain.top)
next
  case (below m q c)
  then have "(mn_id m, Some q) \<in> links_up ms'" using assms(2) by (force simp: links_up_def)
  then obtain m' where "m' \<in> set ms'" "mn_id m' = mn_id m" "mn_parent m' = Some q" by (auto simp: links_up_def)
  with menu_chain.below [of m' ms' q c] below show ?case by simp
qed

lemma chain_cong: "links_up ms' = links_up ms \<Longrightarrow> menu_chain ms' i c \<longleftrightarrow> menu_chain ms i c"
  using chain_cong_le by blast

lemma child_paths_Nil [simp]: "child_paths ms [] = []"
  by (simp add: child_paths_def)

lemma child_paths_mem:
  "(i, p) \<in> set (child_paths ms work) \<longleftrightarrow>
     (\<exists>q r. (q, r) \<in> set work \<and> (\<exists>m \<in> set ms. mn_parent m = Some q \<and> i = mn_id m \<and> p = r @ segment i))"
  by (auto simp: child_paths_def; force)

lemma parent_store_levels:
  "parent_store n ms work = concat (map (\<lambda>k. (child_paths ms ^^ k) work) [0..<n])"
proof (induction n arbitrary: work)
  case (Suc n)
  have empty: "(child_paths ms ^^ k) [] = []" for k by (induction k) auto
  have "[0..<Suc n] = 0 # map Suc [0..<n]" by (simp add: map_Suc_upt upt_conv_Cons)
  then have "concat (map (\<lambda>k. (child_paths ms ^^ k) work) [0..<Suc n]) =
      work @ concat (map (\<lambda>k. (child_paths ms ^^ k) (child_paths ms work)) [0..<n])"
    by (simp add: o_def funpow_swap1 del: upt_Suc)
  with Suc.IH show ?case by (simp add: empty del: upt_Suc)
qed simp

lemma level_mem:
  "(i, p) \<in> set ((child_paths ms ^^ k) (root_paths ms)) \<longleftrightarrow>
     (\<exists>c. menu_chain ms i c \<and> length c = Suc k \<and> p = chain_path c)"
proof (induction k arbitrary: i p)
  case 0
  show ?case
  proof
    assume "\<exists>c. menu_chain ms i c \<and> length c = Suc 0 \<and> p = chain_path c"
    then obtain c where c: "menu_chain ms i c" "length c = Suc 0" "p = chain_path c" by blast
    from c(1,2) obtain m where "m \<in> set ms" "i = mn_id m" "mn_parent m = None" "c = [mn_id m]"
      by (cases rule: menu_chain.cases) (auto dest: chain_row)
    with c(3) show "(i, p) \<in> set ((child_paths ms ^^ 0) (root_paths ms))"
      by (force simp: root_paths_def)
  qed (force simp: root_paths_def intro: menu_chain.top)
next
  case (Suc k)
  show ?case
  proof
    assume "(i, p) \<in> set ((child_paths ms ^^ Suc k) (root_paths ms))"
    then obtain q r m where "(q, r) \<in> set ((child_paths ms ^^ k) (root_paths ms))" "m \<in> set ms"
      "mn_parent m = Some q" "i = mn_id m" "p = r @ segment i"
      by (auto simp: child_paths_mem)
    with Suc.IH show "\<exists>c. menu_chain ms i c \<and> length c = Suc (Suc k) \<and> p = chain_path c"
      by (force intro: menu_chain.below)
  next
    assume "\<exists>c. menu_chain ms i c \<and> length c = Suc (Suc k) \<and> p = chain_path c"
    then obtain c where c: "menu_chain ms i c" "length c = Suc (Suc k)" "p = chain_path c" by blast
    from c(1,2) obtain m q d where d: "m \<in> set ms" "i = mn_id m" "mn_parent m = Some q" "menu_chain ms q d" "c = d @ [i]"
      by (cases rule: menu_chain.cases) auto
    with Suc.IH [of q "chain_path d"] c(2) have up: "(q, chain_path d) \<in> set ((child_paths ms ^^ k) (root_paths ms))" by auto
    from c(3) d(2,5) have "p = chain_path d @ segment (mn_id m)" by simp
    with up d(1-3) show "(i, p) \<in> set ((child_paths ms ^^ Suc k) (root_paths ms))"
      by (simp add: child_paths_mem) blast
  qed
qed

lemma store_mem:
  assumes "distinct (map mn_id ms)"
  shows "(i, p) \<in> set (parent_store (length ms) ms (root_paths ms)) \<longleftrightarrow>
    (\<exists>c. menu_chain ms i c \<and> p = chain_path c)"
proof
  assume "\<exists>c. menu_chain ms i c \<and> p = chain_path c"
  then obtain c where c: "menu_chain ms i c" "p = chain_path c" by blast
  with chain_row [OF c(1)] obtain k where k: "length c = Suc k" by (cases c) auto
  with chain_length [OF assms c(1)] have "k < length ms" by simp
  moreover from c k have "(i, p) \<in> set ((child_paths ms ^^ k) (root_paths ms))" by (auto simp: level_mem)
  ultimately show "(i, p) \<in> set (parent_store (length ms) ms (root_paths ms))"
    by (auto simp: parent_store_levels)
qed (auto simp: parent_store_levels level_mem)

lemma store_get:
  assumes "distinct (map mn_id ms)"
  shows "dict_get (parent_store (length ms) ms (root_paths ms)) i = Some p \<longleftrightarrow>
    (\<exists>c. menu_chain ms i c \<and> p = chain_path c)"
proof
  assume "\<exists>c. menu_chain ms i c \<and> p = chain_path c"
  then obtain c where c: "menu_chain ms i c" "p = chain_path c" by blast
  with store_mem [OF assms, of i p] obtain p' where
    p': "dict_get (parent_store (length ms) ms (root_paths ms)) i = Some p'"
    by (metis dict_get_None_keys fst_conv image_eqI list.set_map not_None_eq)
  with map_of_SomeD [OF p'] store_mem [OF assms, of i p'] obtain d where "menu_chain ms i d" "p' = chain_path d" by blast
  with c p' chain_fun [OF assms] show "dict_get (parent_store (length ms) ms (root_paths ms)) i = Some p" by metis
qed (use store_mem [OF assms] in \<open>auto dest!: map_of_SomeD\<close>)

lemma storedE:
  assumes "stored ms = Inr ms'"
  shows "ms' = ms \<and> distinct (map mn_id ms) \<and> (\<forall>m \<in> set ms. length (mn_path m) \<le> PATH_MAX)"
  using assms by (force simp: stored_def split: if_splits)

text \<open>What the recomputation of all the rows leaves.\<close>

lemma recompute_spec:
  assumes "recompute_parent_store qs ms = Inr ms'" "distinct (map mn_id ms)"
    and "\<forall>m \<in> set ms. plain_id (mn_id m) \<and> (\<exists>c. menu_chain ms (mn_id m) c \<and> (\<not> qs m \<longrightarrow> mn_path m = chain_path c))"
  shows "menus_ok ms' \<and> links_up ms' = links_up ms"
proof -
  let ?store = "parent_store (length ms) ms (root_paths ms)"
  define w where "w m = (if qs m then (case dict_get ?store (mn_id m) of None \<Rightarrow> m | Some p \<Rightarrow> m\<lparr>mn_path := p\<rparr>) else m)" for m
  have "stored (map w ms) = Inr ms'" using assms(1) by (simp add: recompute_parent_store_def Let_def w_def [abs_def])
  from storedE [OF this] have ms': "ms' = map w ms" and short: "\<forall>m \<in> set ms'. length (mn_path m) \<le> PATH_MAX" by auto
  have keep [simp]: "mn_id (w m) = mn_id m" "mn_parent (w m) = mn_parent m" for m
    by (simp_all add: w_def split: option.split)
  have links: "links_up ms' = links_up ms" by (simp add: links_up_def ms' image_image)
  have "\<exists>c. menu_chain ms' (mn_id (w m)) c \<and> mn_path (w m) = chain_path c" if "m \<in> set ms" for m
  proof -
    from assms(3) that obtain c where c: "menu_chain ms (mn_id m) c" "\<not> qs m \<longrightarrow> mn_path m = chain_path c" by blast
    with store_get [OF assms(2)] have "dict_get ?store (mn_id m) = Some (chain_path c)" by blast
    with c chain_cong [OF links] show ?thesis by (auto simp: w_def)
  qed
  moreover have "distinct (map mn_id ms')" using assms(2) by (simp add: ms' o_def)
  moreover have "plain_id (mn_id (w m))" if "m \<in> set ms" for m using assms(3) that by simp
  ultimately have "menus_ok ms'" using short unfolding menus_ok_def ms' by auto
  with links show ?thesis by blast
qed

subsection \<open>Every operation keeps the paths\<close>

lemma browse_chain:
  assumes "menus_ok ms" "browse_menu readable ms q = Some p"
  obtains c where "p \<in> set ms" "mn_id p = q" "readable p" "menu_chain ms q c" "mn_path p = chain_path c"
  using assms by (auto simp: browse_menu_def menus_ok_def dest!: find_Some_iff_mem)

lemma menus_ok_links:
  assumes "menus_ok ms" "links_up ms' = links_up ms" "map (\<lambda>m. (mn_id m, mn_path m)) ms' = map (\<lambda>m. (mn_id m, mn_path m)) ms"
  shows "menus_ok ms'"
proof -
  from arg_cong [OF assms(3), of "map fst"] have "map mn_id ms' = map mn_id ms" by (simp add: o_def)
  moreover have "plain_id (mn_id m) \<and> length (mn_path m) \<le> PATH_MAX \<and> (\<exists>c. menu_chain ms' (mn_id m) c \<and> mn_path m = chain_path c)"
    if "m \<in> set ms'" for m
  proof -
    from that have "(mn_id m, mn_path m) \<in> set (map (\<lambda>m. (mn_id m, mn_path m)) ms')" by simp
    then obtain r where r: "r \<in> set ms" "mn_id r = mn_id m" "mn_path r = mn_path m" unfolding assms(3) by auto
    from assms(1) r(1) have "plain_id (mn_id r) \<and> length (mn_path r) \<le> PATH_MAX \<and> (\<exists>c. menu_chain ms (mn_id r) c \<and> mn_path r = chain_path c)"
      by (simp add: menus_ok_def)
    then show ?thesis by (simp add: r(2,3) chain_cong [OF assms(2)])
  qed
  ultimately show ?thesis using assms(1) by (auto simp: menus_ok_def)
qed

lemma create_keeps:
  assumes "menus_ok ms" "menu_service_create readable inputs ms = Inr ms'" "\<forall>(i, q, n) \<in> set inputs. plain_id i"
  shows "menus_ok ms'"
proof -
  from assms(2) obtain objs where objs: "result_map (\<lambda>(i, parent, sequence).
      result_bind (resolve_parent readable ms parent) (\<lambda>p.
        Inr \<lparr>nm_id = i, nm_parent = map_option (\<lambda>p. (mn_id p, mn_path p)) p, nm_sequence = sequence\<rparr>)) inputs = Inr objs"
    "menu_bulk_create objs ms = Inr ms'" by (auto simp: menu_service_create_def)
  from storedE [of "ms @ map new_row objs" ms'] objs(2) have ms': "ms' = ms @ map new_row objs" and
    dist: "distinct (map mn_id ms')" and short: "\<forall>m \<in> set ms'. length (mn_path m) \<le> PATH_MAX"
    by (auto simp: menu_bulk_create_def)
  have old: "menu_chain ms' i c" if "menu_chain ms i c" for i c
    by (rule chain_cong_le [OF that]) (auto simp: ms' links_up_def)
  have new: "plain_id (mn_id (new_row obj)) \<and> (\<exists>c. menu_chain ms' (mn_id (new_row obj)) c \<and> mn_path (new_row obj) = chain_path c)"
    if "obj \<in> set objs" for obj
  proof -
    from result_map_mem(2) [OF objs(1) that] obtain i q n p where inp: "(i, q, n) \<in> set inputs" "resolve_parent readable ms q = Inr p"
      "obj = \<lparr>nm_id = i, nm_parent = map_option (\<lambda>p. (mn_id p, mn_path p)) p, nm_sequence = n\<rparr>"
      by auto
    have row: "new_row obj \<in> set ms'" using that by (simp add: ms')
    have plain: "plain_id (mn_id (new_row obj))" using inp(1,3) assms(3) by (auto simp: new_row_def)
    show ?thesis
    proof (cases p)
      case None
      with inp(3) row plain show ?thesis
        using menu_chain.top [OF row] by (auto simp: new_row_def)
    next
      case (Some r)
      with inp(2) obtain q' where "q = Some q'" "browse_menu readable ms q' = Some r"
        by (auto simp: resolve_parent_def split: option.splits)
      from browse_chain [OF assms(1) this(2)] obtain c where c: "mn_id r = q'" "menu_chain ms q' c" "mn_path r = chain_path c" .
      with menu_chain.below [OF row _ old [OF c(2)]] inp(3) Some plain show ?thesis by (auto simp: new_row_def)
    qed
  qed
  show ?thesis unfolding menus_ok_def
  proof (intro conjI ballI dist)
    fix m assume m: "m \<in> set ms'"
    then have "m \<in> set ms \<or> (\<exists>obj \<in> set objs. m = new_row obj)" by (auto simp: ms')
    then show "plain_id (mn_id m)" "\<exists>c. menu_chain ms' (mn_id m) c \<and> mn_path m = chain_path c"
      using assms(1) old new by (auto simp: menus_ok_def) blast
    show "length (mn_path m) \<le> PATH_MAX" using short m by blast
  qed
qed

lemma delete_keeps:
  assumes "menus_ok ms" "menu_delete qs ms = Inr ms'"
  shows "menus_ok ms'"
proof -
  from assms(2) have ms': "ms' = filter (\<lambda>m. \<not> qs m) ms"
    and kept: "\<And>m d. m \<in> set ms \<Longrightarrow> d \<in> set ms \<Longrightarrow> qs d \<Longrightarrow> mn_parent m \<noteq> Some (mn_id d)"
    by (auto simp: menu_delete_def split: if_splits)
  have chain: "menu_chain ms i c \<Longrightarrow> (\<forall>m \<in> set ms. mn_id m = i \<longrightarrow> \<not> qs m) \<Longrightarrow> menu_chain ms' i c" for i c
  proof (induction rule: menu_chain.induct)
    case (top m)
    then show ?case by (intro menu_chain.top) (auto simp: ms')
  next
    case (below m q c)
    from below.hyps(2) have "\<forall>d \<in> set ms. mn_id d = q \<longrightarrow> \<not> qs d" using kept [OF below.hyps(1)] by auto
    with below show ?case by (intro menu_chain.below) (auto simp: ms')
  qed
  have dist: "distinct (map mn_id ms)" using assms(1) by (simp add: menus_ok_def)
  show ?thesis unfolding menus_ok_def
  proof (intro conjI ballI)
    show "distinct (map mn_id ms')" unfolding ms' using dist by (rule distinct_map_filter)
    fix m assume "m \<in> set ms'"
    then have m: "m \<in> set ms" "\<not> qs m" by (simp_all add: ms')
    with assms(1) show "plain_id (mn_id m)" "length (mn_path m) \<le> PATH_MAX" by (simp_all add: menus_ok_def)
    from m assms(1) obtain c where c: "menu_chain ms (mn_id m) c" "mn_path m = chain_path c" by (auto simp: menus_ok_def)
    have "\<forall>m' \<in> set ms. mn_id m' = mn_id m \<longrightarrow> \<not> qs m'" using m distinct_map_unique [OF dist] by blast
    with chain [OF c(1)] c(2) show "\<exists>c. menu_chain ms' (mn_id m) c \<and> mn_path m = chain_path c" by blast
  qed
qed

text \<open>A move whose guard passed: no moved row is above the new parent, so all chains survive.\<close>

lemma moved_chains:
  assumes "menus_ok ms" "ms' = map (\<lambda>m. if qs m then w m else m) ms"
    and "\<And>m. mn_id (w m) = mn_id m" "\<And>m. mn_parent (w m) = q"
    and "\<And>p. q = Some p \<Longrightarrow> \<exists>c. menu_chain ms p c \<and> (\<forall>m \<in> set ms. qs m \<longrightarrow> mn_id m \<notin> set c)"
  shows "\<forall>m \<in> set ms'. \<exists>c. menu_chain ms' (mn_id m) c"
proof -
  have dist: "distinct (map mn_id ms)" using assms(1) by (simp add: menus_ok_def)
  have row: "m \<in> set ms \<Longrightarrow> (if qs m then w m else m) \<in> set ms'" for m by (simp add: assms(2))
  have same: "menu_chain ms i c \<Longrightarrow> (\<forall>m \<in> set ms. qs m \<longrightarrow> mn_id m \<notin> set c) \<Longrightarrow> menu_chain ms' i c" for i c
  proof (induction rule: menu_chain.induct)
    case (top m)
    then have "\<not> qs m" by auto
    with row [OF top(1)] have "m \<in> set ms'" by simp
    then show ?case using top(2) by (rule menu_chain.top)
  next
    case (below m r c)
    then have "\<not> qs m" by auto
    with row [OF below(1)] have "m \<in> set ms'" by simp
    moreover have "menu_chain ms' r c" using below by auto
    ultimately show ?case using below(2) by (intro menu_chain.below)
  qed
  have "menu_chain ms i c \<Longrightarrow> \<exists>c. menu_chain ms' i c" for i c
  proof (induction rule: menu_chain.induct)
    case (top m)
    show ?case
    proof (cases "qs m \<and> q \<noteq> None")
      case True
      then obtain p where "q = Some p" by auto
      with assms(5) same obtain d where "menu_chain ms' p d" by blast
      with row [OF top(1)] True \<open>q = Some p\<close> assms(3,4) [of m] menu_chain.below [of "w m" ms' p d] show ?thesis by auto
    next
      case False
      with row [OF top(1)] top assms(3,4) [of m] menu_chain.top [of "if qs m then w m else m" ms'] show ?thesis
        by (auto split: if_splits)
    qed
  next
    case (below m r c)
    then obtain e where e: "menu_chain ms' r e" by blast
    show ?case
    proof (cases "qs m")
      case True
      show ?thesis
      proof (cases q)
        case None
        with row [OF below(1)] True assms(3,4) [of m] menu_chain.top [of "w m" ms'] show ?thesis by auto
      next
        case (Some p)
        with assms(5) same obtain d where "menu_chain ms' p d" by blast
        with row [OF below(1)] True Some assms(3,4) [of m] menu_chain.below [of "w m" ms' p d] show ?thesis by auto
      qed
    next
      case False
      with row [OF below(1)] below(2) e menu_chain.below [of m ms' r e] show ?thesis by auto
    qed
  qed
  moreover have "mn_id m \<in> mn_id ` set ms" if "m \<in> set ms'" for m using that assms(2,3) by auto
  moreover have "\<exists>c. menu_chain ms i c" if "i \<in> mn_id ` set ms" for i using that assms(1) by (auto simp: menus_ok_def)
  ultimately show ?thesis by blast
qed

lemma resolve_parent_id:
  assumes "resolve_parent readable ms q = Inr p"
  shows "map_option mn_id p = q"
proof (cases q)
  case (Some t)
  with assms obtain r where "browse_menu readable ms t = Some r" "p = Some r"
    by (cases "browse_menu readable ms t") (auto simp: resolve_parent_def)
  with Some show ?thesis by (auto simp: browse_menu_def dest!: find_Some_iff_mem)
qed (use assms in \<open>simp add: resolve_parent_def\<close>)

lemma update_keeps:
  assumes "menus_ok ms" "menu_service_update readable qs parent sequence ms = Inr ms'"
  shows "menus_ok ms'"
proof -
  define w where "w m = m\<lparr>mn_parent := (case parent of None \<Rightarrow> mn_parent m | Some q \<Rightarrow> q),
      mn_sequence := (case sequence of None \<Rightarrow> mn_sequence m | Some n \<Rightarrow> n)\<rparr>" for m :: menu
  have [simp]: "mn_id (w m) = mn_id m" "mn_path (w m) = mn_path m" for m by (simp_all add: w_def)
  let ?ms1 = "map (\<lambda>m. if qs m then w m else m) ms"
  have dist: "distinct (map mn_id ms)" using assms(1) by (simp add: menus_ok_def)
  have ids: "map mn_id ?ms1 = map mn_id ms" "map (\<lambda>m. (mn_id m, mn_path m)) ?ms1 = map (\<lambda>m. (mn_id m, mn_path m)) ms"
    by simp_all
  have written: "menu_update qs parent sequence ms = result_bind (stored ?ms1) (\<lambda>ms1.
      if parent \<noteq> None then recompute_parent_store (\<lambda>m. True) ms1 else Inr ms1)"
    by (simp only: menu_update_def Let_def w_def)
  show ?thesis
  proof (cases parent)
    case None
    with assms(2) have "menu_update qs parent sequence ms = Inr ms'"
      by (auto simp: menu_service_update_def)
    with written None storedE have "ms' = ?ms1" by auto
    moreover have eq: "mn_id (if qs m then w m else m) = mn_id m" "mn_parent (if qs m then w m else m) = mn_parent m" for m
      using None by (simp_all add: w_def)
    have "links_up ?ms1 = links_up ms" by (simp only: links_up_def set_map image_image eq)
    ultimately show ?thesis using menus_ok_links [OF assms(1) _ ids(2)] by simp
  next
    case (Some q)
    with assms(2) obtain p us where p: "resolve_parent readable ms q = Inr p"
      "result_map (\<lambda>m. validate_menu (Some p) (Some m)) (filter qs ms) = Inr us"
      "menu_update qs (Some (map_option mn_id p)) sequence ms = Inr ms'"
      by (auto simp: menu_service_update_def)
    have q: "map_option mn_id p = q"
      using p(1) by (rule resolve_parent_id)
    with p(3) Some written have up: "stored ?ms1 = Inr ?ms1" "recompute_parent_store (\<lambda>m. True) ?ms1 = Inr ms'"
      using storedE by fastforce+
    have above: "\<exists>c. menu_chain ms t c \<and> (\<forall>m \<in> set ms. qs m \<longrightarrow> mn_id m \<notin> set c)" if "q = Some t" for t
    proof -
      from that q p(1) obtain r where r: "p = Some r" "browse_menu readable ms t = Some r"
        by (auto simp: resolve_parent_def split: option.splits)
      from browse_chain [OF assms(1) r(2)] obtain c where c: "mn_id r = t" "menu_chain ms t c" "mn_path r = chain_path c" .
      have "set c \<subseteq> mn_id ` set ms" by (rule chain_ids [OF c(2)])
      then have plain: "\<forall>i \<in> set c. plain_id i" using assms(1) by (auto simp: menus_ok_def)
      have "mn_id m \<notin> set c" if "m \<in> set ms" "qs m" for m
        using result_map_mem(1) [OF p(2), of m] that r(1) c(3) split_path [OF plain]
        by (auto simp: validate_menu_def split: if_splits)
      with c(2) show ?thesis by blast
    qed
    have "\<forall>m \<in> set ?ms1. \<exists>c. menu_chain ?ms1 (mn_id m) c"
      by (rule moved_chains [OF assms(1) refl _ _ above]) (simp_all add: w_def Some)
    moreover have "\<forall>m \<in> set ?ms1. plain_id (mn_id m)" using assms(1) by (auto simp: menus_ok_def)
    moreover have "distinct (map mn_id ?ms1)" unfolding ids(1) by (rule dist)
    ultimately show ?thesis using recompute_spec [OF up(2)] by simp
  qed
qed

subsection \<open>What a run of the service leaves\<close>

inductive menu_step :: "menu list \<Rightarrow> menu list \<Rightarrow> bool" where
  create: "menu_service_create readable inputs ms = Inr ms' \<Longrightarrow> \<forall>(i, q, n) \<in> set inputs. plain_id i \<Longrightarrow> menu_step ms ms'"
| update: "menu_service_update readable qs parent sequence ms = Inr ms' \<Longrightarrow> menu_step ms ms'"
| delete: "menu_delete qs ms = Inr ms' \<Longrightarrow> menu_step ms ms'"

inductive_cases menu_stepE: "menu_step ms ms'"

inductive menu_run :: "menu list \<Rightarrow> bool" where
  start: "menu_run []"
| step: "menu_run ms \<Longrightarrow> menu_step ms ms' \<Longrightarrow> menu_run ms'"

lemma menu_run_ok: "menu_run ms \<Longrightarrow> menus_ok ms"
proof (induction rule: menu_run.induct)
  case start
  then show ?case by (simp add: menus_ok_def)
next
  case (step ms ms')
  from step.hyps(2) step.IH show ?case
    by (auto elim!: menu_stepE intro: create_keeps update_keeps delete_keeps)
qed

lemma ulid_depth:
  "\<forall>i \<in> set c. length i = 26 \<Longrightarrow> length (chain_path c) = 27 * length c"
  by (induction c) (simp_all add: segment_def)

end
