(* ===== verification/Menu_Read.thy ===== *)
theory Menu_Read
  imports Menu_Laws
begin

text \<open>
  What \<open>MenuService.read_tree\<close> returns: the nodes of the map and the children lists, for rows in
  the order the database returns them, and the meaning of the prefix filter on the paths.
\<close>

definition subtree :: "menu list \<Rightarrow> string \<Rightarrow> menu set" where
  "subtree ms root = {m \<in> set ms. \<exists>c. menu_chain ms (mn_id m) c \<and> root \<in> set c}"

lemma prefix_subtree:
  assumes "menus_ok ms" "r \<in> set ms" "m \<in> set ms"
  shows "starts_with (mn_path r) (mn_path m) \<longleftrightarrow> m \<in> subtree ms (mn_id r)"
proof -
  have dist: "distinct (map mn_id ms)" using assms(1) by (simp add: menus_ok_def)
  from assms(1,2) obtain c where c: "menu_chain ms (mn_id r) c" "mn_path r = chain_path c"
    unfolding menus_ok_def by blast
  from assms(1,3) obtain d where d: "menu_chain ms (mn_id m) d" "mn_path m = chain_path d"
    unfolding menus_ok_def by blast
  have "\<forall>i \<in> set c \<union> set d. plain_id i"
    using chain_ids [OF c(1)] chain_ids [OF d(1)] assms(1) by (auto simp: menus_ok_def)
  from chain_path_prefix [OF this] c(2) d(2)
  have prefix: "starts_with (mn_path r) (mn_path m) \<longleftrightarrow> (\<exists>e. d = c @ e)" by simp
  have "(\<exists>e. d = c @ e) \<longleftrightarrow> mn_id r \<in> set d"
  proof
    assume "\<exists>e. d = c @ e"
    then show "mn_id r \<in> set d" using chain_row [OF c(1)] by (auto dest: last_in_set)
  next
    assume "mn_id r \<in> set d"
    from chain_mem_prefix [OF d(1) this] obtain c' e where "menu_chain ms (mn_id r) c'" "d = c' @ e" .
    with chain_fun [OF dist c(1)] show "\<exists>e. d = c @ e" by blast
  qed
  moreover have "m \<in> subtree ms (mn_id r) \<longleftrightarrow> mn_id r \<in> set d"
    using assms(3) d(1) chain_fun [OF dist d(1)] unfolding subtree_def by blast
  ultimately show ?thesis using prefix by simp
qed

subsection \<open>The map of nodes\<close>

definition up_key :: "string \<Rightarrow> menu \<Rightarrow> string option" where
  "up_key root m = (if mn_id m = root then None else mn_parent m)"

definition node_of :: "string \<Rightarrow> menu list \<Rightarrow> string \<Rightarrow> tree_node option" where
  "node_of root rows k =
     (if \<exists>m \<in> set rows. mn_id m = k \<or> up_key root m = Some k
      then Some \<lparr>tn_data = find (\<lambda>m. mn_id m = k) rows,
                 tn_children = map mn_id (filter (\<lambda>m. up_key root m = Some k) rows),
                 tn_parent = Option.bind (find (\<lambda>m. mn_id m = k) rows) (up_key root)\<rparr>
      else None)"

lemma find_snoc: "find P (xs @ [x]) = (case find P xs of Some y \<Rightarrow> Some y | None \<Rightarrow> if P x then Some x else None)"
  by (induction xs) auto

lemma insert_node:
  assumes "\<And>k. dict_get nodes k = node_of root rows k" "mn_id m \<notin> mn_id ` set rows" "up_key root m \<noteq> Some (mn_id m)"
  shows "dict_get (tree_insert (mn_id m) (up_key root m) m nodes) k = node_of root (rows @ [m]) k"
proof -
  have fresh: "find (\<lambda>r. mn_id r = mn_id m) rows = None" using assms(2) by (induction rows) auto
  have absent: "\<forall>r \<in> set rows. mn_id r \<noteq> q \<and> up_key root r \<noteq> Some q \<Longrightarrow> find (\<lambda>r. mn_id r = q) rows = None" for q
    by (induction rows) auto
  show ?thesis
  proof (cases "up_key root m")
    case None
    then show ?thesis
      by (cases "dict_get nodes (mn_id m)"; cases "k = mn_id m")
        (auto simp: tree_insert_def Let_def empty_node_def assms(1) node_of_def find_snoc fresh absent
          split: if_splits option.splits)
  next
    case (Some q)
    with assms(3) have "q \<noteq> mn_id m" by auto
    with Some show ?thesis
      by (cases "k = mn_id m"; cases "k = q"; cases "dict_get nodes q"; cases "dict_get nodes (mn_id m)")
        (auto simp: tree_insert_def add_child_def Let_def empty_node_def assms(1) node_of_def find_snoc fresh absent
          split: if_splits option.splits)
  qed
qed

lemma build_tree_nodes:
  assumes "distinct (map mn_id rows)" "\<forall>m \<in> set rows. mn_parent m \<noteq> Some (mn_id m)"
  shows "dict_get (build_tree root rows) k = node_of root rows k"
  using assms
proof (induction rows arbitrary: k rule: rev_induct)
  case Nil
  then show ?case by (simp add: build_tree_def node_of_def)
next
  case (snoc m rows)
  then have "dict_get (build_tree root rows) k = node_of root rows k" for k by simp
  moreover have "mn_id m \<notin> mn_id ` set rows" using snoc.prems(1) by simp
  moreover have "up_key root m \<noteq> Some (mn_id m)" using snoc.prems(2) by (simp add: up_key_def)
  moreover have "build_tree root (rows @ [m]) = tree_insert (mn_id m) (up_key root m) m (build_tree root rows)"
    by (simp add: build_tree_def up_key_def)
  ultimately show ?case using insert_node by simp
qed

subsection \<open>The tree of a read\<close>

lemma chain_not_own_parent:
  assumes "menus_ok ms" "m \<in> set ms"
  shows "mn_parent m \<noteq> Some (mn_id m)"
proof
  assume own: "mn_parent m = Some (mn_id m)"
  have dist: "distinct (map mn_id ms)" using assms(1) by (simp add: menus_ok_def)
  from assms obtain c where c: "menu_chain ms (mn_id m) c" by (auto simp: menus_ok_def)
  from chain_fun [OF dist c menu_chain.below [OF assms(2) own c]] show False by simp
qed

lemma find_id:
  assumes "distinct (map mn_id rows)"
  shows "find (\<lambda>m. mn_id m = k) rows = Some m \<longleftrightarrow> m \<in> set rows \<and> mn_id m = k"
  using assms find_unique [of mn_id rows m] by (auto dest: find_Some_iff_mem)

lemma subtree_root: "menus_ok ms \<Longrightarrow> r \<in> set ms \<Longrightarrow> r \<in> subtree ms (mn_id r)"
  by (auto simp: subtree_def menus_ok_def) (metis chain_row last_in_set)


text \<open>
  C16: whatever menus the service created, moved, reordered and deleted, the menus form a forest
  (each row has one chain of ancestors, to the top) and every path spells the chain of its row.
  With identifiers of 26 characters no menu is deeper than the ninth level.
\<close>

theorem menu_paths_spell_the_ancestors:
  assumes "menu_run ms" "m \<in> set ms"
  shows "\<exists>c. menu_chain ms (mn_id m) c \<and> distinct c \<and> mn_path m = chain_path c
    \<and> (\<forall>d. menu_chain ms (mn_id m) d \<longrightarrow> d = c)
    \<and> ((\<forall>r \<in> set ms. length (mn_id r) = 26) \<longrightarrow> length c \<le> 9)"
proof -
  from menu_run_ok [OF assms(1)] assms(2) obtain c where c: "distinct (map mn_id ms)" "menu_chain ms (mn_id m) c"
    "mn_path m = chain_path c" "length (mn_path m) \<le> PATH_MAX" by (auto simp: menus_ok_def)
  have "length c \<le> 9" if "\<forall>r \<in> set ms. length (mn_id r) = 26"
  proof -
    have "\<forall>i \<in> set c. length i = 26" using chain_ids [OF c(2)] that by auto
    with ulid_depth c(3,4) show ?thesis by (simp add: PATH_MAX_def)
  qed
  with c chain_distinct [OF c(1,2)] chain_fun [OF c(1,2)] show ?thesis by blast
qed

subsection \<open>A menu\<close>

definition demo_menus :: "menu list" where
  "demo_menus =
     [\<lparr>mn_id = ''a'', mn_parent = None, mn_path = ''a/'', mn_sequence = 1\<rparr>,
      \<lparr>mn_id = ''b'', mn_parent = Some ''a'', mn_path = ''a/b/'', mn_sequence = 2\<rparr>,
      \<lparr>mn_id = ''c'', mn_parent = Some ''a'', mn_path = ''a/c/'', mn_sequence = 1\<rparr>]"

definition demo_moved :: "menu list" where
  "demo_moved =
     [\<lparr>mn_id = ''a'', mn_parent = None, mn_path = ''a/'', mn_sequence = 1\<rparr>,
      \<lparr>mn_id = ''b'', mn_parent = Some ''c'', mn_path = ''a/c/b/'', mn_sequence = 2\<rparr>,
      \<lparr>mn_id = ''c'', mn_parent = Some ''a'', mn_path = ''a/c/'', mn_sequence = 1\<rparr>]"

lemma demo_moves:
  "menu_service_create (\<lambda>m. True) [(''a'', None, 1)] [] = Inr [\<lparr>mn_id = ''a'', mn_parent = None, mn_path = ''a/'', mn_sequence = 1\<rparr>]"
  "menu_service_create (\<lambda>m. True) [(''b'', Some ''a'', 2), (''c'', Some ''a'', 1)]
     [\<lparr>mn_id = ''a'', mn_parent = None, mn_path = ''a/'', mn_sequence = 1\<rparr>] = Inr demo_menus"
  "menu_service_update (\<lambda>m. True) (\<lambda>m. mn_id m = ''b'') (Some (Some ''c'')) None demo_menus = Inr demo_moved"
  "menu_service_update (\<lambda>m. True) (\<lambda>m. mn_id m = ''c'') (Some (Some ''b'')) None demo_moved = Inl (UnderOwnChild ''c'')"
  by code_simp+

lemma demo_menu_run: "menu_run demo_moved"
proof (rule menu_run.step [OF menu_run.step [OF menu_run.step [OF menu_run.start]]])
  show "menu_step [] [\<lparr>mn_id = ''a'', mn_parent = None, mn_path = ''a/'', mn_sequence = 1\<rparr>]"
    by (rule menu_step.create [OF demo_moves(1)]) (simp add: plain_id_def)
  show "menu_step [\<lparr>mn_id = ''a'', mn_parent = None, mn_path = ''a/'', mn_sequence = 1\<rparr>] demo_menus"
    by (rule menu_step.create [OF demo_moves(2)]) (simp add: plain_id_def)
  show "menu_step demo_menus demo_moved" by (rule menu_step.update [OF demo_moves(3)])
qed

theorem menu_paths_spell_the_ancestors_witness:
  "\<exists>c. menu_chain demo_moved ''b'' c \<and> chain_path c = ''a/c/b/''"
proof -
  let ?b = "\<lparr>mn_id = ''b'', mn_parent = Some ''c'', mn_path = ''a/c/b/'', mn_sequence = 2\<rparr>"
  have "?b \<in> set demo_moved" by (simp add: demo_moved_def)
  from menu_paths_spell_the_ancestors [OF demo_menu_run this] obtain c
    where "menu_chain demo_moved (mn_id ?b) c" "mn_path ?b = chain_path c" by blast
  then show ?thesis by (intro exI [of _ c]) simp
qed


end
