(* ===== verification/Group_By.thy ===== *)
theory Group_By
  imports Service_Values "HOL-Library.Multiset"
begin

text \<open>
  Grouped aggregates (\<open>core/services/group_by.py\<close>): the declarations of dimensions and
  measures and how they are bound to a model when the service class is created, then
  \<open>group_by\<close> itself: the checks of a request, the records it reads, the groups, their order
  and page. What the database computes of an expression on a row, and of an aggregate on the
  rows of a group, are functions of the environment.
\<close>

subsection \<open>Declarations\<close>

text \<open>What an expression denotes: a column, a truncation (in a time zone or in none), an
  aggregate the module builds, or one a service wrote itself.\<close>

datatype 'e expression =
    Column string
  | Truncated string string "string option"
  | CountPk
  | Aggregate string string
  | AverageAsFloat string
  | ShareAcross string "string list"
  | Written 'e

text \<open>An expression, or a callable building one from the service, known by its time zone.\<close>

datatype 'e expression_spec = Ready "'e expression" | Built "string \<Rightarrow> 'e expression"

datatype output_field = FieldItself string | BareField string | IntegerOutput | FloatOutput | GivenOutput string

record 'e dimension =
  dm_field :: string
  dm_truncate :: "string option"
  dm_expression :: "'e expression_spec option"
  dm_output :: "output_field option"
  dm_label :: "string option"

record 'e measure =
  ms_expression :: "'e expression_spec"
  ms_field :: "string option"
  ms_output :: "output_field option"
  ms_label :: "string option"

record 'e bound =
  bd_name :: string
  bd_expression :: "'e expression_spec option"
  bd_output :: output_field
  bd_label :: string
  bd_related :: "string option"

definition COUNT :: "(string \<times> 'e measure) list" where
  "COUNT = [(''count'', \<lparr>ms_expression = Ready CountPk, ms_field = None, ms_output = Some IntegerOutput,
                         ms_label = Some ''Count''\<rparr>)]"

definition DATE_KINDS :: "string list" where
  "DATE_KINDS = [''day'', ''week'', ''month'', ''quarter'', ''year'']"

definition DATETIME_KINDS :: "string list" where
  "DATETIME_KINDS = ''hour'' # DATE_KINDS"

text \<open>\<open>str.lower\<close> of one character, in ASCII.\<close>

definition lower_char :: "char \<Rightarrow> char" where
  "lower_char c = (if 65 \<le> (of_char c :: nat) \<and> of_char c \<le> (90 :: nat) then char_of (of_char c + (32 :: nat)) else c)"

definition capitalize :: "string \<Rightarrow> string" where
  "capitalize s = (case s of [] \<Rightarrow> [] | c # cs \<Rightarrow> upper_char c # map lower_char cs)"

definition prefix_or :: "string option \<Rightarrow> string \<Rightarrow> string" where
  "prefix_or prefix field = str_or prefix field"

definition date_dimensions :: "string \<Rightarrow> string list \<Rightarrow> string option \<Rightarrow> (string \<times> 'e dimension) list" where
  "date_dimensions field kinds prefix =
     fold (\<lambda>kind d. dict_put (prefix_or prefix field @ ''_'' @ kind)
         \<lparr>dm_field = field, dm_truncate = Some kind, dm_expression = None, dm_output = None,
          dm_label = Some (''{field} ('' @ kind @ '')'')\<rparr> d) kinds []"

datatype config_error =
    BadName string
  | NoSuchField string
  | NotAColumn string
  | BadTruncation string string
  | ShadowsField string
  | NoOutputField string
  | BothKinds "string list"
  | UnknownFunction string

fun number_measure :: "string \<Rightarrow> string \<Rightarrow> config_error + 'e measure" where
  "number_measure field function =
     (let label = Some (capitalize function @ '' of {field}'') in
      if function = ''avg''
      then Inr \<lparr>ms_expression = Ready (AverageAsFloat field), ms_field = Some field, ms_output = Some FloatOutput, ms_label = label\<rparr>
      else if function \<in> set [''sum'', ''min'', ''max'']
      then Inr \<lparr>ms_expression = Ready (Aggregate function field), ms_field = Some field, ms_output = None, ms_label = label\<rparr>
      else Inl (UnknownFunction function))"

definition number_measures :: "string \<Rightarrow> string list \<Rightarrow> string option \<Rightarrow> config_error + (string \<times> 'e measure) list" where
  "number_measures field functions prefix =
     result_bind (result_map (\<lambda>f. result_bind (number_measure field f) (\<lambda>m. Inr (prefix_or prefix field @ ''_'' @ f, m))) functions)
       (\<lambda>ms. Inr (fold (\<lambda>(n, m) d. dict_put n m d) ms []))"

definition share_measure :: "string \<Rightarrow> string list \<Rightarrow> string option \<Rightarrow> (string \<times> 'e measure) list" where
  "share_measure field exclude name =
     [(str_or name (field @ ''_share''),
       \<lparr>ms_expression = Built (\<lambda>tz. ShareAcross field exclude), ms_field = Some field, ms_output = Some FloatOutput,
        ms_label = Some (''Share of {field} (%, across '' @ str_join '', '' exclude @ '')'')\<rparr>)]"

definition build :: "string \<Rightarrow> 'e expression_spec \<Rightarrow> 'e expression" where
  "build tz spec = (case spec of Ready e \<Rightarrow> e | Built f \<Rightarrow> f tz)"

subsection \<open>Binding to a model\<close>

datatype field_type = DateTimeType | DateType | OtherType

record field_info =
  fi_name :: string
  fi_type :: field_type
  fi_class :: string
  fi_holds :: "string option"
  fi_to_many :: bool
  fi_concrete :: bool
  fi_related :: "string option"
  fi_verbose :: string

text \<open>The pattern ends with a dollar: a newline may follow.\<close>

fun name_tail :: "string \<Rightarrow> bool" where
  "name_tail [] = True"
| "name_tail [c] = (c = CHR 0x0A \<or> c \<in> set ''abcdefghijklmnopqrstuvwxyz0123456789_'')"
| "name_tail (c # d # cs) = (c \<in> set ''abcdefghijklmnopqrstuvwxyz0123456789_'' \<and> name_tail (d # cs))"

definition name_pattern :: "string \<Rightarrow> bool" where
  "name_pattern s = (case s of [] \<Rightarrow> False | c # cs \<Rightarrow> c \<in> set ''abcdefghijklmnopqrstuvwxyz'' \<and> name_tail cs)"

definition check_name :: "string \<Rightarrow> config_error + unit" where
  "check_name name = (if name_pattern name then Inr () else Inl (BadName name))"

definition find_field :: "field_info list \<Rightarrow> string \<Rightarrow> field_info option" where
  "find_field model f = find (\<lambda>i. fi_name i = f) model"

definition is_field_name :: "field_info list \<Rightarrow> string \<Rightarrow> bool" where
  "is_field_name model n \<longleftrightarrow> find_field model n \<noteq> None"

definition get_field :: "field_info list \<Rightarrow> string \<Rightarrow> config_error + field_info" where
  "get_field model f =
     (case find_field model f of
        None \<Rightarrow> Inl (NoSuchField f)
      | Some i \<Rightarrow> if fi_to_many i \<or> \<not> fi_concrete i then Inl (NotAColumn f) else Inr i)"

text \<open>\<open>fi_holds\<close> is the class of the output field of a computed or generated one.\<close>

definition bare_output_field :: "field_info \<Rightarrow> output_field" where
  "bare_output_field i = BareField (case fi_holds i of Some c \<Rightarrow> c | None \<Rightarrow> fi_class i)"

definition label_of :: "string \<Rightarrow> field_info option \<Rightarrow> string" where
  "label_of label field =
     (let l = (case field of None \<Rightarrow> label | Some i \<Rightarrow> str_replace ''{field}'' (fi_verbose i) label)
      in (case l of [] \<Rightarrow> [] | c # cs \<Rightarrow> upper_char c # cs))"

definition truncation :: "field_info \<Rightarrow> string \<Rightarrow> 'e expression_spec" where
  "truncation i kind =
     Built (\<lambda>tz. Truncated (fi_name i) kind (if fi_type i = DateTimeType then Some tz else None))"

definition truncation_kinds :: "field_info \<Rightarrow> string list" where
  "truncation_kinds i = (case fi_type i of DateTimeType \<Rightarrow> DATETIME_KINDS | DateType \<Rightarrow> DATE_KINDS | OtherType \<Rightarrow> [])"

definition bind_dimension :: "field_info list \<Rightarrow> string \<Rightarrow> 'e dimension \<Rightarrow> config_error + 'e bound" where
  "bind_dimension model name d =
     result_bind (check_name name) (\<lambda>u. result_bind (get_field model (dm_field d)) (\<lambda>i.
       result_bind (case dm_truncate d of
           Some kind \<Rightarrow> if kind \<in> set (truncation_kinds i) then Inr (Some (truncation i kind)) else Inl (BadTruncation name kind)
         | None \<Rightarrow> Inr (if dm_expression d = None \<and> name \<noteq> fi_name i then Some (Ready (Column (fi_name i))) else dm_expression d))
       (\<lambda>expression.
         if expression \<noteq> None \<and> is_field_name model name then Inl (ShadowsField name)
         else let related = (if dm_expression d = None \<and> dm_truncate d = None then fi_related i else None) in
           Inr \<lparr>bd_name = name, bd_expression = expression,
                bd_output = (case dm_output d of Some out \<Rightarrow> out
                             | None \<Rightarrow> if related \<noteq> None then FieldItself (fi_name i) else bare_output_field i),
                bd_label = label_of (str_or (dm_label d) ''{field}'') (Some i), bd_related = related\<rparr>)))"

definition bind_measure :: "field_info list \<Rightarrow> string \<Rightarrow> 'e measure \<Rightarrow> config_error + 'e bound" where
  "bind_measure model name m =
     result_bind (check_name name) (\<lambda>u.
       if is_field_name model name then Inl (ShadowsField name)
       else result_bind (case ms_field m of None \<Rightarrow> Inr None | Some f \<Rightarrow> result_bind (get_field model f) (\<lambda>i. Inr (Some i))) (\<lambda>field.
         result_bind (case (ms_output m, field) of
             (Some out, _) \<Rightarrow> Inr out
           | (None, None) \<Rightarrow> Inl (NoOutputField name)
           | (None, Some i) \<Rightarrow> Inr (bare_output_field i)) (\<lambda>out.
           Inr \<lparr>bd_name = name, bd_expression = Some (ms_expression m), bd_output = out,
                bd_label = label_of (str_or (ms_label m) name) field, bd_related = None\<rparr>)))"

text \<open>\<open>__init_subclass__\<close>: the bound dimensions and measures of a service class.\<close>

definition bind_all :: "(string \<Rightarrow> 'd \<Rightarrow> config_error + 'e bound) \<Rightarrow> (string \<times> 'd) list \<Rightarrow> config_error + (string \<times> 'e bound) list" where
  "bind_all bind ds = result_map (\<lambda>(n, d). result_bind (bind n d) (\<lambda>b. Inr (n, b))) ds"

definition init_group_by ::
    "field_info list \<Rightarrow> (string \<times> 'e dimension) list \<Rightarrow> (string \<times> 'e measure) list
     \<Rightarrow> config_error + ((string \<times> 'e bound) list \<times> (string \<times> 'e bound) list)" where
  "init_group_by model dimensions meas =
     result_bind (bind_all (bind_dimension model) dimensions) (\<lambda>ds.
     result_bind (bind_all (bind_measure model) (fold (\<lambda>(n, m) d. dict_put n m d) meas COUNT)) (\<lambda>ms.
       let both = filter (\<lambda>n. n \<in> set (dict_keys ms)) (dict_keys ds) in
       if both \<noteq> [] then Inl (BothKinds (sort both)) else Inr (ds, ms)))"

subsection \<open>Checks of a request\<close>

definition ordering_name :: "string \<Rightarrow> string" where
  "ordering_name token = (if starts_with ''-'' token then drop 1 token else token)"

definition repeated_names :: "string list \<Rightarrow> string list" where
  "repeated_names names = sort (uniq (filter (\<lambda>n. count_list names n > 1) names))"

definition list_text :: "string list \<Rightarrow> string" where
  "list_text names = ''['' @ str_join '', '' (map (\<lambda>n. [CHR 0x27] @ n @ [CHR 0x27]) names) @ '']''"

definition repeated_message :: "string \<Rightarrow> string list \<Rightarrow> service_error \<Rightarrow> service_error" where
  "repeated_message key names e =
     (let repeated = repeated_names names in
      if repeated = [] then e
      else add_message (One (''Repeated value(s): '' @ str_join '','' repeated @ ''.'')) (Some key) e)"

definition check_names :: "string \<Rightarrow> string list \<Rightarrow> string list \<Rightarrow> service_error \<Rightarrow> service_error" where
  "check_names key names declared e =
     (let e1 = (if names = []
                then add_message (One (''At least one of '' @ list_text (sort declared) @ '' is required.'')) (Some key) e else e);
          unknown = filter (\<lambda>n. n \<notin> set declared) names;
          e2 = (if unknown = [] then e1
                else add_message (One (''Unknown value(s): '' @ str_join '','' unknown @ ''. Possible values are ''
                       @ str_join '','' (sort declared) @ ''.'')) (Some key) e1)
      in repeated_message key names e2)"

definition group_by_error ::
    "string list \<Rightarrow> string list \<Rightarrow> string list \<Rightarrow> string list \<Rightarrow> string list option \<Rightarrow> nat option \<Rightarrow> nat \<Rightarrow> service_error" where
  "group_by_error declared_dims declared_measures dims meas order_by limit offset =
     (let e1 = check_names ''dimensions'' dims declared_dims [];
          e2 = check_names ''measures'' meas declared_measures e1;
          ordered = map ordering_name (case order_by of None \<Rightarrow> [] | Some ts \<Rightarrow> ts);
          unasked = filter (\<lambda>n. n \<notin> set dims \<union> set meas) ordered;
          e3 = (if unasked = [] then e2
                else add_message (One (''Ordering on value(s) not grouped by nor measured: '' @ str_join '','' unasked @ ''.''))
                       (Some ''ordering'') e2);
          e4 = repeated_message ''ordering'' ordered e3
      in if offset \<noteq> 0 \<and> limit = None
         then add_message (One ''An offset requires a limit.'') (Some ''offset'') e4 else e4)"

definition group_by_check ::
    "string list \<Rightarrow> string list \<Rightarrow> string list \<Rightarrow> string list \<Rightarrow> string list option \<Rightarrow> nat option \<Rightarrow> nat \<Rightarrow> multi_error + unit" where
  "group_by_check declared_dims declared_measures dims meas order_by limit offset =
     (let e = group_by_error declared_dims declared_measures dims meas order_by limit offset in
      if e \<noteq> [] then Inl (multi_error [(Named ''__all__'', Error e)] ''invalid_group_by'') else Inr ())"

subsection \<open>Groups\<close>

text \<open>A term of an ordering is a name, with whether it descends; nulls come last both ways.\<close>

definition group_by_ordering :: "string list \<Rightarrow> string list option \<Rightarrow> (string \<times> bool) list" where
  "group_by_ordering dims order_by =
     (let tokens = (case order_by of None \<Rightarrow> [] | Some ts \<Rightarrow> ts);
          named = map ordering_name tokens
      in map (\<lambda>t. (ordering_name t, starts_with ''-'' t)) tokens
         @ map (\<lambda>n. (n, False)) (filter (\<lambda>n. n \<notin> set named) dims))"

definition cell_before :: "bool \<Rightarrow> 'v::linorder option \<Rightarrow> 'v option \<Rightarrow> bool" where
  "cell_before descending a b =
     (case (a, b) of
        (Some x, Some y) \<Rightarrow> (if descending then y < x else x < y)
      | (Some x, None) \<Rightarrow> True
      | (None, _) \<Rightarrow> False)"

definition cell :: "(string \<times> 'v option) list \<Rightarrow> string \<Rightarrow> 'v option" where
  "cell row n = (case dict_get row n of None \<Rightarrow> None | Some v \<Rightarrow> v)"

fun row_le :: "(string \<times> bool) list \<Rightarrow> (string \<times> 'v::linorder option) list \<Rightarrow> (string \<times> 'v option) list \<Rightarrow> bool" where
  "row_le [] r s = True"
| "row_le ((n, descending) # terms) r s =
     (if cell_before descending (cell r n) (cell s n) then True
      else if cell_before descending (cell s n) (cell r n) then False
      else row_le terms r s)"

fun insert_row :: "('a \<Rightarrow> 'a \<Rightarrow> bool) \<Rightarrow> 'a \<Rightarrow> 'a list \<Rightarrow> 'a list" where
  "insert_row le x [] = [x]"
| "insert_row le x (y # ys) = (if le x y then x # y # ys else y # insert_row le x ys)"

definition order_rows :: "('a \<Rightarrow> 'a \<Rightarrow> bool) \<Rightarrow> 'a list \<Rightarrow> 'a list" where
  "order_rows le rows = foldr (insert_row le) rows []"

text \<open>What the database answers: an expression on a row, an aggregate on the rows of a group.\<close>

record ('r, 'e, 'v) database =
  db_column :: "string \<Rightarrow> 'r \<Rightarrow> 'v option"
  db_value :: "'e expression \<Rightarrow> 'r \<Rightarrow> 'v option"
  db_aggregate :: "'e expression \<Rightarrow> 'r list \<Rightarrow> 'v option"

type_synonym 'e declarations = "(string \<times> 'e bound) list"

text \<open>The value of a dimension: the annotation of its name, or the column of that name.\<close>

definition dimension_value :: "('r, 'e, 'v) database \<Rightarrow> string \<Rightarrow> 'e declarations \<Rightarrow> 'r \<Rightarrow> string \<Rightarrow> 'v option" where
  "dimension_value db tz ds r n =
     (case dict_get ds n of
        None \<Rightarrow> db_column db n r
      | Some b \<Rightarrow> (case bd_expression b of None \<Rightarrow> db_column db n r | Some spec \<Rightarrow> db_value db (build tz spec) r))"

definition measure_value :: "('r, 'e, 'v) database \<Rightarrow> string \<Rightarrow> 'e declarations \<Rightarrow> 'r list \<Rightarrow> string \<Rightarrow> 'v option" where
  "measure_value db tz ms rs n =
     (case dict_get ms n of
        None \<Rightarrow> None
      | Some b \<Rightarrow> (case bd_expression b of None \<Rightarrow> None | Some spec \<Rightarrow> db_aggregate db (build tz spec) rs))"

definition group_key :: "('r, 'e, 'v) database \<Rightarrow> string \<Rightarrow> 'e declarations \<Rightarrow> string list \<Rightarrow> 'r \<Rightarrow> (string \<times> 'v option) list" where
  "group_key db tz ds dims r = map (\<lambda>n. (n, dimension_value db tz ds r n)) dims"

definition groups :: "('r \<Rightarrow> 'k) \<Rightarrow> 'r list \<Rightarrow> ('k \<times> 'r list) list" where
  "groups key rs = map (\<lambda>k. (k, filter (\<lambda>r. key r = k) rs)) (uniq (map key rs))"

text \<open>\<open>pk IN (subquery)\<close> selects: a record the joins of \<open>scoped\<close> repeat is selected once.\<close>

definition semi_join :: "('r \<Rightarrow> 'k) \<Rightarrow> 'r list \<Rightarrow> 'r list \<Rightarrow> 'r list" where
  "semi_join pk table scoped = filter (\<lambda>r. pk r \<in> pk ` set scoped) table"

definition group_rows ::
    "('r, 'e, 'v) database \<Rightarrow> string \<Rightarrow> 'e declarations \<Rightarrow> 'e declarations \<Rightarrow> string list \<Rightarrow> string list \<Rightarrow> 'r list
     \<Rightarrow> (string \<times> 'v option) list list" where
  "group_rows db tz ds ms dims meas rs =
     map (\<lambda>(k, g). k @ map (\<lambda>n. (n, measure_value db tz ms g n)) meas) (groups (group_key db tz ds dims) rs)"

text \<open>The relation dimensions: a value is replaced by its record when it was found.\<close>

datatype ('v, 'm) shown = Bare "'v option" | Record 'm

definition resolve_cells :: "string \<Rightarrow> ('v \<times> 'm) list \<Rightarrow> (string \<times> ('v, 'm) shown) list \<Rightarrow> (string \<times> ('v, 'm) shown) list" where
  "resolve_cells n by_pk row =
     (case dict_get row n of
        Some (Bare (Some v)) \<Rightarrow> (case dict_get by_pk v of None \<Rightarrow> row | Some m \<Rightarrow> dict_put n (Record m) row)
      | _ \<Rightarrow> row)"

definition pks_of :: "string \<Rightarrow> (string \<times> ('v, 'm) shown) list list \<Rightarrow> 'v list" where
  "pks_of n rows = uniq (List.map_filter (\<lambda>row. case dict_get row n of Some (Bare v) \<Rightarrow> v | _ \<Rightarrow> None) rows)"

definition group_by_resolve_relations ::
    "(string \<Rightarrow> 'v list \<Rightarrow> string list option \<Rightarrow> ('v \<times> 'm) list) \<Rightarrow> 'e declarations \<Rightarrow> string list
     \<Rightarrow> (string \<times> string list) list \<Rightarrow> (string \<times> ('v, 'm) shown) list list \<Rightarrow> (string \<times> ('v, 'm) shown) list list" where
  "group_by_resolve_relations records ds dims relation_fields rows =
     fold (\<lambda>n rows.
         case Option.bind (dict_get ds n) bd_related of
           None \<Rightarrow> rows
         | Some model \<Rightarrow>
             if dict_get relation_fields n = Some [] then rows
             else map (resolve_cells n (records model (pks_of n rows) (dict_get relation_fields n))) rows)
       dims rows"

definition page_of :: "nat option \<Rightarrow> nat \<Rightarrow> 'a list \<Rightarrow> 'a list" where
  "page_of limit offset rows = (case limit of None \<Rightarrow> rows | Some l \<Rightarrow> take l (drop offset rows))"

text \<open>\<open>scoped\<close> is what the access rules and the filters select, join duplicates included.\<close>

definition group_by ::
    "('r, 'e, 'v::linorder) database \<Rightarrow> (string \<Rightarrow> 'v list \<Rightarrow> string list option \<Rightarrow> ('v \<times> 'm) list) \<Rightarrow> string
     \<Rightarrow> 'e declarations \<Rightarrow> 'e declarations \<Rightarrow> ('r \<Rightarrow> 'k) \<Rightarrow> 'r list \<Rightarrow> 'r list
     \<Rightarrow> string list \<Rightarrow> string list \<Rightarrow> string list option \<Rightarrow> nat option \<Rightarrow> nat \<Rightarrow> (string \<times> string list) list
     \<Rightarrow> multi_error + (nat \<times> (string \<times> ('v, 'm) shown) list list)" where
  "group_by db records tz ds ms pk table scoped dims meas order_by limit offset relation_fields =
     result_bind (group_by_check (dict_keys ds) (dict_keys ms) dims meas order_by limit offset) (\<lambda>u.
       let selected = semi_join pk table scoped;
           total = length (groups (group_key db tz ds dims) selected);
           rows = order_rows (row_le (group_by_ordering dims order_by)) (group_rows db tz ds ms dims meas selected);
           page = page_of limit offset rows
       in Inr (total, group_by_resolve_relations records ds dims relation_fields
                        (map (map (\<lambda>(n, v). (n, Bare v))) page)))"

end
