(* ===== verification/Group_Laws.thy ===== *)
theory Group_Laws
  imports Group_By Service_Laws
begin

text \<open>
  What \<open>group_by\<close> refuses, that its groups partition the selected records, and that its order
  leaves no tie, so that a page holds the same groups whatever order the database found them in.
\<close>

subsection \<open>Requests\<close>

definition option_list :: "'a option \<Rightarrow> 'a list" where
  "option_list o' = (case o' of None \<Rightarrow> [] | Some x \<Rightarrow> [x])"

lemma option_list_simps [simp]: "option_list None = []" "option_list (Some x) = [x]"
  by (simp_all add: option_list_def)

lemma add_message_not_Nil [simp]: "add_message m k e \<noteq> []"
  by (simp add: add_message_def Let_def dict_put_not_Nil)

lemma distinct_count: "distinct xs \<longleftrightarrow> (\<forall>x \<in> set xs. \<not> Suc 0 < count_list xs x)"
proof (induction xs)
  case (Cons a xs)
  show ?case
  proof (cases "a \<in> set xs")
    case True
    then have "count_list xs a \<noteq> 0" by (simp add: count_list_0_iff)
    with True show ?thesis by auto
  next
    case False
    then have "count_list xs a = 0" by (simp add: count_list_0_iff)
    with False Cons.IH show ?thesis by auto
  qed
qed simp

lemma repeated_names_iff: "repeated_names names = [] \<longleftrightarrow> distinct names"
proof -
  have "repeated_names names = [] \<longleftrightarrow> filter (\<lambda>n. count_list names n > 1) names = []"
    by (metis repeated_names_def set_empty set_sort set_uniq)
  then show ?thesis by (auto simp: distinct_count filter_empty_conv)
qed

lemma repeated_message_iff: "repeated_message key names e = [] \<longleftrightarrow> e = [] \<and> distinct names"
  by (simp add: repeated_message_def Let_def repeated_names_iff)

lemma check_names_iff:
  "check_names key names declared e = [] \<longleftrightarrow>
     e = [] \<and> names \<noteq> [] \<and> set names \<subseteq> set declared \<and> distinct names"
  by (auto simp: check_names_def Let_def repeated_message_iff filter_empty_conv)

lemma group_by_check_iff:
  "group_by_check declared_dims declared_measures dims meas order_by limit offset = Inr () \<longleftrightarrow>
     dims \<noteq> [] \<and> set dims \<subseteq> set declared_dims \<and> distinct dims \<and>
     meas \<noteq> [] \<and> set meas \<subseteq> set declared_measures \<and> distinct meas \<and>
     (let ordered = map ordering_name (case order_by of None \<Rightarrow> [] | Some ts \<Rightarrow> ts)
      in set ordered \<subseteq> set dims \<union> set meas \<and> distinct ordered) \<and>
     (offset = 0 \<or> limit \<noteq> None)"
  by (auto simp: group_by_check_def group_by_error_def Let_def check_names_iff repeated_message_iff filter_empty_conv
      split: if_splits)

subsection \<open>Groups\<close>

lemma groups_keys: "map fst (groups key rs) = uniq (map key rs)"
  by (simp add: groups_def o_def)

lemma groups_rows: "(k, g) \<in> set (groups key rs) \<Longrightarrow> g = filter (\<lambda>r. key r = k) rs \<and> g \<noteq> []"
  by (auto simp: groups_def filter_empty_conv)

lemma mset_partition:
  "distinct ks \<Longrightarrow> key ` set rs \<subseteq> set ks \<Longrightarrow> mset (concat (map (\<lambda>k. filter (\<lambda>r. key r = k) rs) ks)) = mset rs"
proof (induction ks arbitrary: rs)
  case (Cons k ks)
  let ?rest = "filter (\<lambda>r. key r \<noteq> k) rs"
  have eq: "map (\<lambda>x. filter (\<lambda>r. key r = x) rs) ks = map (\<lambda>x. filter (\<lambda>r. key r = x) ?rest) ks"
    using Cons.prems(1) by (auto intro!: map_cong arg_cong2 [where f = filter])
  have "mset (concat (map (\<lambda>x. filter (\<lambda>r. key r = x) ?rest) ks)) = mset ?rest"
    using Cons.prems by (intro Cons.IH) auto
  moreover have "mset (filter (\<lambda>r. key r = k) rs) + mset ?rest = mset rs" by (induction rs) auto
  ultimately show ?case unfolding list.map(2) concat.simps(2) eq mset_append by simp
qed simp

lemma groups_partition: "mset (concat (map snd (groups key rs))) = mset rs"
proof -
  have "mset (concat (map (\<lambda>k. filter (\<lambda>r. key r = k) rs) (uniq (map key rs)))) = mset rs"
    by (rule mset_partition) auto
  then show ?thesis by (simp add: groups_def o_def)
qed

subsection \<open>Order\<close>

lemma cell_before_total: "\<not> cell_before d a b \<Longrightarrow> \<not> cell_before d b a \<Longrightarrow> a = b"
  by (auto simp: cell_before_def split: option.splits if_splits)

lemma cell_before_asym: "cell_before d a b \<Longrightarrow> \<not> cell_before d b a"
  by (auto simp: cell_before_def split: option.splits if_splits)

lemma cell_before_trans: "cell_before d a b \<Longrightarrow> cell_before d b c \<Longrightarrow> cell_before d a c"
  by (auto simp: cell_before_def split: option.splits if_splits)

lemma row_le_total: "row_le terms r s \<or> row_le terms s r"
  by (induction terms r s rule: row_le.induct) auto

lemma row_le_trans: "row_le terms r s \<Longrightarrow> row_le terms s t \<Longrightarrow> row_le terms r t"
proof (induction terms r s arbitrary: t rule: row_le.induct)
  case (2 n d terms r s)
  then show ?case
    using cell_before_trans [of d "cell r n" "cell s n" "cell t n"] cell_before_asym [of d "cell r n" "cell s n"]
      cell_before_total [of d "cell s n" "cell t n"] cell_before_total [of d "cell r n" "cell s n"]
    by (auto split: if_splits)
qed simp

lemma row_le_antisym: "row_le terms r s \<Longrightarrow> row_le terms s r \<Longrightarrow> (n, d) \<in> set terms \<Longrightarrow> cell r n = cell s n"
proof (induction terms r s rule: row_le.induct)
  case (2 m e terms r s)
  then show ?case
    using cell_before_total [of e "cell r m" "cell s m"] cell_before_asym [of e "cell r m" "cell s m"]
    by (auto split: if_splits)
qed simp

lemma mset_insert_row [simp]: "mset (insert_row le x xs) = add_mset x (mset xs)"
  by (induction xs) auto

lemma mset_order_rows [simp]: "mset (order_rows le xs) = mset xs"
  by (induction xs) (simp_all add: order_rows_def)

lemma sorted_insert_row:
  assumes "\<And>x y. le x y \<or> le y x" "\<And>x y z. le x y \<Longrightarrow> le y z \<Longrightarrow> le x z"
  shows "sorted_wrt le xs \<Longrightarrow> sorted_wrt le (insert_row le x xs)"
proof (induction xs)
  case (Cons y ys)
  have set: "set (insert_row le x ys) = insert x (set ys)" by (metis mset_insert_row set_mset_add_mset_insert set_mset_mset)
  show ?case
  proof (cases "le x y")
    case True
    with Cons.prems assms(2) [OF True] show ?thesis by auto
  next
    case False
    with assms(1) [of x y] Cons set show ?thesis by auto
  qed
qed simp

lemma sorted_order_rows:
  assumes "\<And>x y. le x y \<or> le y x" "\<And>x y z. le x y \<Longrightarrow> le y z \<Longrightarrow> le x z"
  shows "sorted_wrt le (order_rows le xs)"
  by (induction xs) (simp_all add: order_rows_def sorted_insert_row [OF assms])

lemma sorted_unique:
  assumes "\<And>x y. x \<in> set xs \<Longrightarrow> y \<in> set xs \<Longrightarrow> le x y \<Longrightarrow> le y x \<Longrightarrow> x = y"
  shows "mset ys = mset xs \<Longrightarrow> sorted_wrt le xs \<Longrightarrow> sorted_wrt le ys \<Longrightarrow> ys = xs"
  using assms
proof (induction xs arbitrary: ys)
  case (Cons x xs)
  then obtain y zs where ys: "ys = y # zs" by (cases ys) auto
  from Cons.prems(1) have sets: "set ys = insert x (set xs)" by (metis list.simps(15) mset_eq_setD)
  have "x = y"
  proof (rule ccontr)
    assume ne: "x \<noteq> y"
    with sets ys have "x \<in> set zs" "y \<in> set xs" by auto
    with Cons.prems(2,3) ys have "le y x" "le x y" by auto
    with Cons.prems(4) [of x y] \<open>y \<in> set xs\<close> ne show False by auto
  qed
  with Cons.prems ys show ?case using Cons.IH [of zs] by auto
qed simp

subsection \<open>The result of a request\<close>

lemma group_terms:
  "n \<in> set dims \<Longrightarrow> n \<in> fst ` set (group_by_ordering dims order_by)"
  by (auto simp: group_by_ordering_def Let_def image_Un image_image)

lemma group_key_cell:
  assumes "distinct dims" "n \<in> set dims"
  shows "cell (group_key db tz ds dims r @ rest) n = dimension_value db tz ds r n"
proof -
  have "map_of (map (\<lambda>n. (n, dimension_value db tz ds r n)) dims) n = Some (dimension_value db tz ds r n)"
    using assms by (induction dims) auto
  then show ?thesis by (simp add: cell_def group_key_def map_add_def)
qed

lemma group_rows_antisym:
  assumes "distinct dims" "x \<in> set (group_rows db tz ds ms dims meas rs)" "y \<in> set (group_rows db tz ds ms dims meas rs)"
    and "row_le (group_by_ordering dims order_by) x y" "row_le (group_by_ordering dims order_by) y x"
  shows "x = y"
proof -
  let ?key = "group_key db tz ds dims"
  have row: "\<exists>r. x = ?key r @ map (\<lambda>n. (n, measure_value db tz ms (filter (\<lambda>s. ?key s = ?key r) rs) n)) meas"
    if "x \<in> set (group_rows db tz ds ms dims meas rs)" for x
    using that by (auto simp: group_rows_def groups_def)
  from row [OF assms(2)] row [OF assms(3)] obtain r s where
    r: "x = ?key r @ map (\<lambda>n. (n, measure_value db tz ms (filter (\<lambda>s. ?key s = ?key r) rs) n)) meas" and
    s: "y = ?key s @ map (\<lambda>n. (n, measure_value db tz ms (filter (\<lambda>t. ?key t = ?key s) rs) n)) meas" by blast
  have "dimension_value db tz ds r n = dimension_value db tz ds s n" if n: "n \<in> set dims" for n
  proof -
    from group_terms [OF n, of order_by] obtain d where "(n, d) \<in> set (group_by_ordering dims order_by)" by force
    from row_le_antisym [OF assms(4,5) this] show ?thesis
      by (simp add: r s group_key_cell [OF assms(1) n])
  qed
  then have "?key r = ?key s" by (simp add: group_key_def)
  with r s show ?thesis by simp
qed

text \<open>
  C18: a request that is not refused counts each selected record in exactly one group, once,
  however many times the joins of the access rules and filters matched it; the total is the
  number of groups; and the page is a slice of the one order of the groups the request allows,
  so that it does not depend on the order the database finds them in.
\<close>

theorem groups_count_each_record_once:
  assumes "group_by db records tz ds ms pk table scoped dims meas order_by limit offset relation_fields = Inr (nb, page)"
  shows "let key = group_key db tz ds dims; terms = group_by_ordering dims order_by;
      gs = groups key (semi_join pk table scoped); rows = group_rows db tz ds ms dims meas (semi_join pk table scoped) in
    nb = length gs \<and> distinct (map fst gs)
    \<and> mset (concat (map snd gs)) = filter_mset (\<lambda>r. pk r \<in> pk ` set scoped) (mset table)
    \<and> (\<forall>(k, g) \<in> set gs. g \<noteq> [] \<and> (\<forall>r \<in> set g. key r = k))
    \<and> (\<exists>!result. mset result = mset rows \<and> sorted_wrt (row_le terms) result)
    \<and> (\<forall>result. mset result = mset rows \<and> sorted_wrt (row_le terms) result \<longrightarrow>
         page = group_by_resolve_relations records ds dims relation_fields
           (map (map (\<lambda>(n, v). (n, Bare v))) (page_of limit offset result)))"
proof -
  define sel where "sel = semi_join pk table scoped"
  define rows where "rows = group_rows db tz ds ms dims meas sel"
  let ?le = "row_le (group_by_ordering dims order_by)"
  from assms have check: "group_by_check (dict_keys ds) (dict_keys ms) dims meas order_by limit offset = Inr ()"
    and nb: "nb = length (groups (group_key db tz ds dims) sel)"
    and page: "page = group_by_resolve_relations records ds dims relation_fields
        (map (map (\<lambda>(n, v). (n, Bare v))) (page_of limit offset (order_rows ?le rows)))"
    by (auto simp: group_by_def Let_def sel_def rows_def)
  from check have dims: "distinct dims" by (simp add: group_by_check_iff)
  have sorted: "sorted_wrt ?le (order_rows ?le rows)"
    by (rule sorted_order_rows [OF row_le_total row_le_trans])
  have unique: "s = order_rows ?le rows" if "mset s = mset rows" "sorted_wrt ?le s" for s
  proof (rule sorted_unique [OF _ _ sorted that(2)])
    show "mset s = mset (order_rows ?le rows)" using that(1) by simp
    have "set (order_rows ?le rows) = set rows" by (metis mset_order_rows set_mset_mset)
    then show "x = y" if "x \<in> set (order_rows ?le rows)" "y \<in> set (order_rows ?le rows)" "?le x y" "?le y x" for x y
      using group_rows_antisym [OF dims, of x db tz ds ms meas sel y order_by] that by (simp add: rows_def)
  qed
  have "\<forall>(k, g) \<in> set (groups (group_key db tz ds dims) sel). g \<noteq> [] \<and> (\<forall>r \<in> set g. group_key db tz ds dims r = k)"
    using groups_rows by fastforce
  moreover have "\<exists>!s. mset s = mset rows \<and> sorted_wrt ?le s"
    by (rule ex1I [of _ "order_rows ?le rows"]) (use sorted unique in auto)
  moreover have "mset sel = filter_mset (\<lambda>r. pk r \<in> pk ` set scoped) (mset table)"
    by (simp add: sel_def semi_join_def mset_filter)
  ultimately show ?thesis
    using nb page unique groups_keys [of "group_key db tz ds dims" sel] groups_partition [of "group_key db tz ds dims" sel]
    by (auto simp: Let_def simp flip: sel_def rows_def)
qed

text \<open>
  A request is answered exactly when it names at least one dimension and one measure, all
  of them declared and none twice, orders by names it asked for, none twice, and gives no offset
  without a limit; any other one is refused with a single error, under the key of all fields.
\<close>

theorem group_by_refused_iff:
  "case group_by db records tz ds ms pk table scoped dims meas order_by limit offset relation_fields of
     Inl e \<Rightarrow> me_code e = Some ''invalid_group_by'' \<and> map fst (me_errors e) = [Named ''__all__''] \<and>
       \<not> (dims \<noteq> [] \<and> set dims \<subseteq> set (dict_keys ds) \<and> distinct dims \<and>
          meas \<noteq> [] \<and> set meas \<subseteq> set (dict_keys ms) \<and> distinct meas \<and>
          set (map ordering_name (concat (option_list order_by))) \<subseteq> set dims \<union> set meas \<and>
          distinct (map ordering_name (concat (option_list order_by))) \<and> (offset = 0 \<or> limit \<noteq> None))
   | Inr r \<Rightarrow> dims \<noteq> [] \<and> set dims \<subseteq> set (dict_keys ds) \<and> distinct dims \<and>
          meas \<noteq> [] \<and> set meas \<subseteq> set (dict_keys ms) \<and> distinct meas \<and>
          set (map ordering_name (concat (option_list order_by))) \<subseteq> set dims \<union> set meas \<and>
          distinct (map ordering_name (concat (option_list order_by))) \<and> (offset = 0 \<or> limit \<noteq> None)"
proof -
  let ?check = "group_by_check (dict_keys ds) (dict_keys ms) dims meas order_by limit offset"
  have tokens: "(case order_by of None \<Rightarrow> [] | Some ts \<Rightarrow> ts) = concat (option_list order_by)"
    by (cases order_by) simp_all
  show ?thesis
  proof (cases ?check)
    case (Inl e)
    then have "e = multi_error [(Named ''__all__'', Error (group_by_error (dict_keys ds) (dict_keys ms) dims meas order_by limit offset))] ''invalid_group_by''"
      by (auto simp: group_by_check_def Let_def split: if_splits)
    moreover from Inl have "?check \<noteq> Inr ()" by simp
    ultimately show ?thesis using Inl unfolding group_by_check_iff
      by (auto simp: group_by_def multi_error_def Let_def tokens)
  next
    case (Inr u)
    then have "?check = Inr ()" by simp
    then show ?thesis using Inr unfolding group_by_check_iff by (auto simp: group_by_def Let_def tokens)
  qed
qed

subsection \<open>A request\<close>

text \<open>Three records, the first matched twice by a join, by category.\<close>

definition demo_records :: "(nat \<times> int option) list" where
  "demo_records = [(1, Some 7), (2, None), (3, Some 7), (4, Some 9)]"

definition demo_scoped :: "(nat \<times> int option) list" where
  "demo_scoped = [(1, Some 7), (1, Some 7), (2, None), (3, Some 7)]"

definition demo_database :: "(nat \<times> int option, unit, int) database" where
  "demo_database = \<lparr>db_column = (\<lambda>n r. snd r), db_value = (\<lambda>e r. None), db_aggregate = (\<lambda>e rs. Some (int (length rs)))\<rparr>"

definition demo_fields :: "field_info list" where
  "demo_fields =
     [\<lparr>fi_name = ''category'', fi_type = OtherType, fi_class = ''ForeignKey'', fi_holds = None, fi_to_many = False,
       fi_concrete = True, fi_related = Some ''account.AccountCategory'', fi_verbose = ''category''\<rparr>]"

definition demo_dims :: "unit declarations" where
  "demo_dims = [(''category'', \<lparr>bd_name = ''category'', bd_expression = None, bd_output = FieldItself ''category'',
     bd_label = ''Category'', bd_related = Some ''account.AccountCategory''\<rparr>)]"

definition demo_measures :: "unit declarations" where
  "demo_measures = [(''count'', \<lparr>bd_name = ''count'', bd_expression = Some (Ready CountPk), bd_output = IntegerOutput,
     bd_label = ''Count'', bd_related = None\<rparr>)]"

lemma demo_declared:
  "map_sum id (\<lambda>(ds, ms). (map (\<lambda>(n, b :: unit bound). (n, bd_output b, bd_label b, bd_related b)) ds, map (\<lambda>(n, b). (n, bd_output b, bd_label b)) ms))
     (init_group_by demo_fields
       [(''category'', \<lparr>dm_field = ''category'', dm_truncate = None, dm_expression = None, dm_output = None, dm_label = None\<rparr>)] [])
   = Inr ([(''category'', FieldItself ''category'', ''Category'', Some ''account.AccountCategory'')],
          [(''count'', IntegerOutput, ''Count'')])"
  by code_simp

theorem groups_count_each_record_once_witness:
  "group_by demo_database (\<lambda>m pks fs. [(7, ''food'')]) ''UTC'' demo_dims demo_measures fst demo_records demo_scoped
     [''category''] [''count''] (Some [''-count'']) (Some 1) 0 []
   = Inr (2, [ [(''category'', Record ''food''), (''count'', Bare (Some 2))] ])
   \<and> length (groups (group_key demo_database ''UTC'' demo_dims [''category'']) (semi_join fst demo_records demo_scoped)) = 2"
proof -
  have run: "group_by demo_database (\<lambda>m pks fs. [(7, ''food'')]) ''UTC'' demo_dims demo_measures fst demo_records demo_scoped
     [''category''] [''count''] (Some [''-count'']) (Some 1) 0 []
   = Inr (2, [ [(''category'', Record ''food''), (''count'', Bare (Some 2))] ])"
    by code_simp
  from groups_count_each_record_once [OF run] run show ?thesis by (simp add: Let_def)
qed

theorem group_by_refused_iff_witness:
  "is_inr (group_by demo_database (\<lambda>m pks fs. [] :: (int \<times> string) list) ''UTC'' demo_dims demo_measures fst demo_records
     demo_scoped [''category''] [''count''] (Some [''-count'']) None 0 [])
   \<and> \<not> is_inr (group_by demo_database (\<lambda>m pks fs. [] :: (int \<times> string) list) ''UTC'' demo_dims demo_measures fst demo_records
     demo_scoped [''category''] [''count''] None None 5 [])"
proof -
  let ?run = "\<lambda>order_by offset. group_by demo_database (\<lambda>m pks fs. [] :: (int \<times> string) list) ''UTC'' demo_dims demo_measures fst
     demo_records demo_scoped [''category''] [''count''] order_by None offset []"
  have name: "ordering_name ''-count'' = ''count''" by code_simp
  have keys: "dict_keys demo_dims = [''category'']" "dict_keys demo_measures = [''count'']"
    by (simp_all add: demo_dims_def demo_measures_def)
  note iff = group_by_refused_iff [where db = demo_database and records = "\<lambda>m pks fs. [] :: (int \<times> string) list"
      and tz = "''UTC''" and ds = demo_dims and ms = demo_measures and pk = fst and table = demo_records
      and scoped = demo_scoped and dims = "[''category'']" and meas = "[''count'']" and limit = None and relation_fields = "[]",
      unfolded keys]
  from iff [where order_by = "Some [''-count'']" and offset = 0] have "is_inr (?run (Some [''-count'']) 0)"
    by (cases "?run (Some [''-count'']) 0") (simp_all add: name)
  moreover from iff [where order_by = None and offset = 5] have "\<not> is_inr (?run None 5)"
    by (cases "?run None 5") simp_all
  ultimately show ?thesis by simp
qed

end
