(* ===== verification/Theme.thy ===== *)
theory Theme
  imports Service_Values
begin

text \<open>
  Themes (\<open>website/theme.py\<close>): the registry filled when a theme class is created, the options a
  theme accepts, the style block rendered from them, the templates a layout falls back to; and
  the rules of \<open>website/services.py\<close> on a website and on a media. The option schemas are lists
  of fields with the values they accept, as pydantic reads them from the annotations.
\<close>

subsection \<open>Vocabulary\<close>

definition LAYOUTS :: "(string \<times> string) list" where
  "LAYOUTS =
     [(''full-width'', ''Full Width''), (''narrow'', ''Narrow Article''), (''sidebar-left'', ''Sidebar, Left''),
      (''sidebar-right'', ''Sidebar, Right''), (''landing'', ''Landing'')]"

definition LAYOUT_DEFAULT :: string where "LAYOUT_DEFAULT = ''full-width''"

definition DEFAULT_THEME_ID :: string where "DEFAULT_THEME_ID = ''default''"

definition get_layouts :: "(string \<times> string) list" where
  "get_layouts = map (\<lambda>k. (k, the (dict_get LAYOUTS k))) (sort (dict_keys LAYOUTS))"

definition get_layout_ids :: "string list" where
  "get_layout_ids = dict_keys LAYOUTS"

subsection \<open>Options\<close>

text \<open>A stored or submitted option: null, a text, or anything else with its \<open>str\<close>.\<close>

datatype raw = RNone | RText string | ROther string

fun raw_text :: "raw \<Rightarrow> string" where
  "raw_text RNone = ''None''"
| "raw_text (RText s) = s"
| "raw_text (ROther s) = s"

record option_field =
  of_name :: string
  of_default :: "raw option"
  of_accepts :: "raw \<Rightarrow> bool"

record option_schema =
  os_fields :: "option_field list"
  os_forbid_extra :: bool

datatype option_error = ExtraForbidden string | InvalidOption string | MissingOption string

type_synonym options = "(string \<times> raw) list"

definition schema_names :: "option_schema \<Rightarrow> string list" where
  "schema_names s = map of_name (os_fields s)"

fun option_value :: "options \<Rightarrow> option_field \<Rightarrow> option_error + (string \<times> raw)" where
  "option_value opts f =
     (case dict_get opts (of_name f) of
        Some v \<Rightarrow> if of_accepts f v then Inr (of_name f, v) else Inl (InvalidOption (of_name f))
      | None \<Rightarrow> (case of_default f of Some d \<Rightarrow> Inr (of_name f, d) | None \<Rightarrow> Inl (MissingOption (of_name f))))"

definition option_errors :: "option_schema \<Rightarrow> options \<Rightarrow> option_error list" where
  "option_errors s opts =
     List.map_filter (\<lambda>f. case option_value opts f of Inl e \<Rightarrow> Some e | Inr v \<Rightarrow> None) (os_fields s)
     @ (if os_forbid_extra s then map ExtraForbidden (filter (\<lambda>n. n \<notin> set (schema_names s)) (dict_keys opts)) else [])"

text \<open>\<open>option_schema(**values)\<close>: every error at once, or the fields in the order of the schema.\<close>

definition make_options :: "option_schema \<Rightarrow> options \<Rightarrow> option_error list + options" where
  "make_options s opts =
     (let errors = option_errors s opts in
      if errors \<noteq> [] then Inl errors
      else Inr (List.map_filter (\<lambda>f. case option_value opts f of Inl e \<Rightarrow> None | Inr v \<Rightarrow> Some v) (os_fields s)))"

definition NoOptions :: option_schema where
  "NoOptions = \<lparr>os_fields = [], os_forbid_extra = True\<rparr>"

subsection \<open>The registry\<close>

record theme_class =
  tc_id :: "string option"
  tc_title :: "string option"
  tc_template_dir :: "string option"
  tc_layouts :: "string list"
  tc_default_layout :: string
  tc_stylesheets :: "string list"
  tc_scripts :: "string list"
  tc_options :: option_schema

record theme =
  th_id :: string
  th_title :: string
  th_template_dir :: string
  th_layouts :: "string list"
  th_default_layout :: string
  th_options :: option_schema

type_synonym themes = "(string \<times> theme) list"

datatype theme_error =
    NoTitle string
  | AlreadyDefined string
  | NoTemplateDir string
  | BadTemplateDir string string
  | UnknownLayouts string "string list"
  | MissingDefaultLayout string string
  | OptionsWithoutDefault string "string list"
  | NoDefaultTheme

definition rstrip_slash :: "string \<Rightarrow> string" where
  "rstrip_slash s = rev (dropWhile (\<lambda>c. c = CHR ''/'') (rev s))"

definition required_options :: "option_schema \<Rightarrow> string list" where
  "required_options s = map of_name (filter (\<lambda>f. of_default f = None) (os_fields s))"

text \<open>\<open>ThemeMetaclass.__new__\<close>, with the registry it leaves.\<close>

definition new_theme_class :: "theme_class \<Rightarrow> themes \<Rightarrow> theme_error + themes" where
  "new_theme_class c reg =
     (case tc_id c of
        None \<Rightarrow> Inr reg
      | Some i \<Rightarrow>
          let title = str_or (tc_title c) []; dir = str_or (tc_template_dir c) [];
              unknown = filter (\<lambda>l. l \<notin> set get_layout_ids) (uniq (tc_layouts c)) in
          if title = [] then Inl (NoTitle i)
          else if dict_get reg i \<noteq> None then Inl (AlreadyDefined i)
          else if dir = [] then Inl (NoTemplateDir i)
          else if \<not> ends_with (''/'' @ i) (rstrip_slash dir) then Inl (BadTemplateDir i dir)
          else if unknown \<noteq> [] then Inl (UnknownLayouts i (sort unknown))
          else if tc_default_layout c \<notin> set (tc_layouts c) then Inl (MissingDefaultLayout i (tc_default_layout c))
          else if required_options (tc_options c) \<noteq> [] then Inl (OptionsWithoutDefault i (required_options (tc_options c)))
          else Inr (dict_put i \<lparr>th_id = i, th_title = title, th_template_dir = dir, th_layouts = tc_layouts c,
                                th_default_layout = tc_default_layout c, th_options = tc_options c\<rparr> reg))"

fun register_themes :: "theme_class list \<Rightarrow> themes \<Rightarrow> theme_error + themes" where
  "register_themes [] reg = Inr reg"
| "register_themes (c # cs) reg = result_bind (new_theme_class c reg) (register_themes cs)"

definition get_theme :: "themes \<Rightarrow> string \<Rightarrow> theme option" where
  "get_theme reg i = dict_get reg i"

definition get_themes :: "themes \<Rightarrow> theme list" where
  "get_themes reg = List.map_filter (dict_get reg) (sort (dict_keys reg))"

definition get_theme_choices :: "themes \<Rightarrow> (string \<times> string) list" where
  "get_theme_choices reg = map (\<lambda>t. (th_id t, th_title t)) (get_themes reg)"

definition validate_themes :: "themes \<Rightarrow> theme_error + unit" where
  "validate_themes reg = (if DEFAULT_THEME_ID \<notin> set (dict_keys reg) then Inl NoDefaultTheme else Inr ())"

subsection \<open>Templates\<close>

definition base_template :: "theme \<Rightarrow> string" where
  "base_template t = th_template_dir t @ ''/base.html''"

definition get_template_names :: "theme \<Rightarrow> string \<Rightarrow> string list" where
  "get_template_names t name = [th_template_dir t @ ''/'' @ name, name]"

definition layout_path :: "string \<Rightarrow> string \<Rightarrow> string" where
  "layout_path dir layout = dir @ ''/layouts/'' @ layout @ ''.html''"

definition default_layout_path :: string where
  "default_layout_path = layout_path (''website/themes/'' @ DEFAULT_THEME_ID) LAYOUT_DEFAULT"

definition get_layout_template_names :: "theme \<Rightarrow> string \<Rightarrow> string list" where
  "get_layout_template_names t layout =
     uniq [layout_path (th_template_dir t) layout, layout_path (th_template_dir t) (th_default_layout t), default_layout_path]"

text \<open>\<open>select_template\<close>: the first candidate that exists.\<close>

definition select_template :: "(string \<Rightarrow> bool) \<Rightarrow> string list \<Rightarrow> string option" where
  "select_template exists candidates = find exists candidates"

subsection \<open>Reading and rendering the options\<close>

definition validate_options :: "theme \<Rightarrow> options option \<Rightarrow> option_error list + options" where
  "validate_options t opts = make_options (th_options t) (case opts of None \<Rightarrow> [] | Some d \<Rightarrow> d)"

definition resolve_options :: "theme \<Rightarrow> options option \<Rightarrow> option_error list + options" where
  "resolve_options t opts =
     (let known = filter (\<lambda>(n, v). n \<in> set (schema_names (th_options t))) (case opts of None \<Rightarrow> [] | Some d \<Rightarrow> d)
      in case make_options (th_options t) known of Inr v \<Rightarrow> Inr v | Inl e \<Rightarrow> make_options (th_options t) [])"

definition css_name :: "string \<Rightarrow> string" where
  "css_name n = ''--t-'' @ map (\<lambda>c. if c = CHR ''_'' then CHR ''-'' else c) n"

definition css_variables :: "options \<Rightarrow> (string \<times> raw) list" where
  "css_variables vs = fold (\<lambda>(n, v) d. if v = RNone then d else dict_put (css_name n) v d) vs []"

text \<open>The pattern of a plain value; its dollar also matches before a final newline.\<close>

definition css_value_char :: "char \<Rightarrow> bool" where
  "css_value_char c \<longleftrightarrow>
     c \<in> set ''ABCDEFGHIJKLMNOPQRSTUVWXYZabcdefghijklmnopqrstuvwxyz0123456789 #%,.()_+-'' \<or> c = CHR 0x27 \<or> c = CHR 0x22"

definition plain_css_value :: "string \<Rightarrow> bool" where
  "plain_css_value s \<longleftrightarrow> s \<noteq> [] \<and> length s \<le> 256 \<and> list_all css_value_char s"

definition css_value_re :: "string \<Rightarrow> bool" where
  "css_value_re s \<longleftrightarrow> plain_css_value s \<or> (s \<noteq> [] \<and> last s = CHR 0x0A \<and> plain_css_value (butlast s))"

definition css_declaration :: "string \<times> string \<Rightarrow> string" where
  "css_declaration nv = ''  '' @ fst nv @ '': '' @ snd nv @ '';''"

definition kept_declarations :: "options \<Rightarrow> (string \<times> string) list" where
  "kept_declarations vs = filter (\<lambda>(n, s). css_value_re s) (map (\<lambda>(n, v). (n, raw_text v)) (css_variables vs))"

definition render_css_variables :: "options \<Rightarrow> string" where
  "render_css_variables vs =
     (let ds = kept_declarations vs in
      if ds = [] then [] else '':root {'' @ [CHR 0x0A] @ str_join [CHR 0x0A] (map css_declaration ds) @ [CHR 0x0A] @ ''}'')"

subsection \<open>The shipped themes\<close>

definition is_hex :: "char \<Rightarrow> bool" where
  "is_hex c \<longleftrightarrow> c \<in> set ''0123456789abcdefABCDEF''"

definition css_color :: "string \<Rightarrow> bool" where
  "css_color s = (case s of c # h \<Rightarrow> c = CHR ''#'' \<and> length h \<in> {3, 6, 8} \<and> list_all is_hex h | [] \<Rightarrow> False)"

definition is_digits :: "string \<Rightarrow> bool" where
  "is_digits s \<longleftrightarrow> s \<noteq> [] \<and> list_all (\<lambda>c. c \<in> set ''0123456789'') s"

text \<open>\<open>-?digits(.digits)?unit\<close>: the unit taken off, then the sign, then at most one dot.\<close>

definition css_length :: "string \<Rightarrow> bool" where
  "css_length s \<longleftrightarrow>
     (\<exists>u \<in> set [''px'', ''rem'', ''em'', ''%'', ''vh'', ''vw''].
        ends_with u s \<and>
        (let n = take (length s - length u) s; n = (if starts_with ''-'' n then drop 1 n else n) in
         case str_split (CHR ''.'') n of [a] \<Rightarrow> is_digits a | [a, b] \<Rightarrow> is_digits a \<and> is_digits b | _ \<Rightarrow> False))"

definition css_font_stack :: "string \<Rightarrow> bool" where
  "css_font_stack s \<longleftrightarrow> s \<noteq> [] \<and> length s \<le> 128 \<and>
     list_all (\<lambda>c. c \<in> set ''ABCDEFGHIJKLMNOPQRSTUVWXYZabcdefghijklmnopqrstuvwxyz0123456789 ,-'' \<or> c = CHR 0x27 \<or> c = CHR 0x22) s"

definition optional_text :: "(string \<Rightarrow> bool) \<Rightarrow> raw \<Rightarrow> bool" where
  "optional_text ok v = (case v of RNone \<Rightarrow> True | RText s \<Rightarrow> ok s | ROther s \<Rightarrow> False)"

definition text_option :: "string \<Rightarrow> (string \<Rightarrow> bool) \<Rightarrow> option_field" where
  "text_option n ok = \<lparr>of_name = n, of_default = Some RNone, of_accepts = optional_text ok\<rparr>"

definition shipped_theme :: "string \<Rightarrow> string \<Rightarrow> option_field list \<Rightarrow> theme_class" where
  "shipped_theme i title fs =
     \<lparr>tc_id = Some i, tc_title = Some title, tc_template_dir = Some (''website/themes/'' @ i), tc_layouts = dict_keys LAYOUTS,
      tc_default_layout = LAYOUT_DEFAULT, tc_stylesheets = [''website/themes/'' @ i @ ''/theme.css''], tc_scripts = [],
      tc_options = \<lparr>os_fields = fs, os_forbid_extra = True\<rparr>\<rparr>"

definition DefaultTheme :: theme_class where
  "DefaultTheme = shipped_theme DEFAULT_THEME_ID ''Superhero''
     [text_option ''color_primary'' css_color, text_option ''color_body_bg'' css_color,
      text_option ''font_family_base'' css_font_stack, text_option ''content_max_width'' css_length]"

definition FurniTheme :: theme_class where
  "FurniTheme = shipped_theme ''furni'' ''Furni''
     [text_option ''color_primary'' css_color, text_option ''color_accent'' css_color, text_option ''color_body_bg'' css_color,
      text_option ''font_family_base'' css_font_stack, text_option ''content_max_width'' css_length]"

definition EntropyTheme :: theme_class where
  "EntropyTheme = shipped_theme ''entropy'' ''Entropy''
     [text_option ''color_primary'' css_color, text_option ''color_body_bg'' css_color, text_option ''color_surface'' css_color,
      text_option ''font_family_base'' css_font_stack, text_option ''content_max_width'' css_length]"

subsection \<open>A website and its media\<close>

record media =
  md_mimetype :: "string option"

definition validate_cover_media :: "media option \<Rightarrow> string option" where
  "validate_cover_media m =
     (case m of
        None \<Rightarrow> None
      | Some m \<Rightarrow> if starts_with ''image/'' (str_or (md_mimetype m) []) then None
                  else Some (''The cover must be an image, not '' @ str_or (md_mimetype m) ''an unknown type'' @ ''.''))"

record website_input =
  wi_cover :: "media option option"
  wi_theme :: "string option"
  wi_options :: "options option option"

text \<open>A refusal: the key of the field, and what is wrong with it.\<close>

datatype website_error = CoverError string | UnknownTheme string | ThemeGone string | OptionErrors "option_error list"

definition validate_website :: "themes \<Rightarrow> website_input \<Rightarrow> string option \<Rightarrow> (string \<times> website_error) + unit" where
  "validate_website reg data instance_theme =
     (case validate_cover_media (Option.bind (wi_cover data) id) of
        Some e \<Rightarrow> Inl (''cover_media'', CoverError e)
      | None \<Rightarrow>
          let theme_id = str_or (wi_theme data) (case instance_theme of Some t \<Rightarrow> t | None \<Rightarrow> DEFAULT_THEME_ID) in
          if wi_theme data \<noteq> None \<and> get_theme reg theme_id = None then Inl (''theme'', UnknownTheme theme_id)
          else (case wi_options data of
                  None \<Rightarrow> Inr ()
                | Some opts \<Rightarrow>
                    (case get_theme reg theme_id of
                       None \<Rightarrow> Inl (''theme'', ThemeGone theme_id)
                     | Some t \<Rightarrow> (case validate_options t opts of
                                    Inl es \<Rightarrow> Inl (''theme_options'', OptionErrors es)
                                  | Inr v \<Rightarrow> Inr ()))))"

text \<open>The theme of a render: the stored one, or the default when it is no longer registered.\<close>

definition render_theme :: "themes \<Rightarrow> string option \<Rightarrow> theme option" where
  "render_theme reg stored_theme =
     (case get_theme reg (str_or stored_theme DEFAULT_THEME_ID) of
        Some t \<Rightarrow> Some t
      | None \<Rightarrow> get_theme reg DEFAULT_THEME_ID)"

definition REFUSED_MIMETYPES :: "string list" where
  "REFUSED_MIMETYPES = [''image/svg+xml'', ''text/html'', ''application/xhtml+xml'', ''application/xml'', ''text/xml'']"

definition MAX_UPLOAD_SIZE :: nat where "MAX_UPLOAD_SIZE = 5 * 1024 * 1024"

datatype upload_error = TooLarge nat | RefusedType string

definition validate_upload :: "(string \<Rightarrow> string option) \<Rightarrow> (nat \<times> string option) option \<Rightarrow> upload_error + unit" where
  "validate_upload guess_type upload =
     (case upload of
        None \<Rightarrow> Inr ()
      | Some (bytes, name) \<Rightarrow>
          if bytes > MAX_UPLOAD_SIZE then Inl (TooLarge bytes)
          else (case guess_type (str_or name []) of
                  Some m \<Rightarrow> if m \<in> set REFUSED_MIMETYPES then Inl (RefusedType m) else Inr ()
                | None \<Rightarrow> Inr ()))"

end
