(* ===== verification/Theme_Laws.thy ===== *)
theory Theme_Laws
  imports Theme
begin

text \<open>
  What the registry guarantees of every registered theme, that reading stored options never
  fails, that every layout has a template, and that a rendered style block cannot be left.
\<close>

subsection \<open>The registry\<close>

definition theme_ok :: "theme \<Rightarrow> bool" where
  "theme_ok t \<longleftrightarrow> th_title t \<noteq> [] \<and> set (th_layouts t) \<subseteq> set get_layout_ids \<and> th_default_layout t \<in> set (th_layouts t)
     \<and> required_options (th_options t) = [] \<and> ends_with (''/'' @ th_id t) (rstrip_slash (th_template_dir t))"

definition themes_ok :: "themes \<Rightarrow> bool" where
  "themes_ok reg \<longleftrightarrow> distinct (dict_keys reg) \<and> (\<forall>i t. dict_get reg i = Some t \<longrightarrow> th_id t = i \<and> theme_ok t)"

lemma themes_ok_empty: "themes_ok []"
  by (simp add: themes_ok_def)

lemma new_theme_keeps:
  assumes "themes_ok reg" "new_theme_class c reg = Inr reg'"
  shows "themes_ok reg'"
proof (cases "tc_id c")
  case None
  with assms show ?thesis by (simp add: new_theme_class_def)
next
  case (Some i)
  let ?t = "\<lparr>th_id = i, th_title = str_or (tc_title c) [], th_template_dir = str_or (tc_template_dir c) [],
    th_layouts = tc_layouts c, th_default_layout = tc_default_layout c, th_options = tc_options c\<rparr>"
  from Some assms(2) have "reg' = dict_put i ?t reg" "theme_ok ?t"
    by (auto simp: new_theme_class_def Let_def theme_ok_def filter_empty_conv subset_iff split: if_splits)
  then show ?thesis using assms(1) by (simp add: themes_ok_def distinct_dict_put)
qed

lemma register_themes_keeps: "themes_ok reg \<Longrightarrow> register_themes cs reg = Inr reg' \<Longrightarrow> themes_ok reg'"
  by (induction cs arbitrary: reg) (auto dest: new_theme_keeps)

text \<open>A second class cannot take the id of a registered theme.\<close>

lemma theme_id_taken:
  assumes "dict_get reg i = Some t" "tc_id c = Some i"
  shows "\<not> is_inr (new_theme_class c reg)"
  using assms by (simp add: new_theme_class_def Let_def)

subsection \<open>Options\<close>

lemma map_filter_None: "(\<And>x. x \<in> set xs \<Longrightarrow> f x = None) \<Longrightarrow> List.map_filter f xs = []"
  by (induction xs) (auto simp: List.map_filter_simps)

lemma defaults_total:
  assumes "required_options s = []"
  shows "is_inr (make_options s [])"
proof -
  have "of_default f \<noteq> None" if "f \<in> set (os_fields s)" for f
    using assms that by (auto simp: required_options_def filter_empty_conv)
  then have "List.map_filter (\<lambda>f. case option_value [] f of Inl e \<Rightarrow> Some e | Inr v \<Rightarrow> None) (os_fields s) = []"
    by (intro map_filter_None) (auto split: option.splits)
  then show ?thesis by (simp add: make_options_def option_errors_def)
qed

text \<open>Whatever is stored, a registered theme can be rendered.\<close>

lemma resolve_options_total: "theme_ok t \<Longrightarrow> is_inr (resolve_options t stored)"
  using defaults_total [of "th_options t"]
  by (auto simp: resolve_options_def theme_ok_def Let_def split: sum.split)

lemma make_options_accepts:
  assumes "make_options s opts = Inr vs" "(n, v) \<in> set vs"
  shows "\<exists>f \<in> set (os_fields s). of_name f = n \<and> (of_accepts f v \<or> of_default f = Some v)"
proof -
  from assms(1) have "vs = List.map_filter (\<lambda>f. case option_value opts f of Inl e \<Rightarrow> None | Inr v \<Rightarrow> Some v) (os_fields s)"
    by (auto simp: make_options_def Let_def split: if_splits)
  with assms(2) obtain f where f: "f \<in> set (os_fields s)" "option_value opts f = Inr (n, v)"
    by (auto simp: List.map_filter_def split: sum.splits)
  then show ?thesis by (auto split: option.splits if_splits)
qed

subsection \<open>Templates\<close>

lemma layout_found:
  assumes "exists default_layout_path"
  shows "\<exists>name. select_template exists (get_layout_template_names t layout) = Some name \<and> exists name"
proof -
  have "default_layout_path \<in> set (get_layout_template_names t layout)" by (simp add: get_layout_template_names_def)
  with assms have "find exists (get_layout_template_names t layout) \<noteq> None" by (auto simp: find_None_mem)
  then obtain name where "find exists (get_layout_template_names t layout) = Some name" by blast
  with find_Some_iff_mem [OF this] show ?thesis by (simp add: select_template_def)
qed

lemma render_theme_total:
  assumes "validate_themes reg = Inr ()"
  shows "\<exists>t. render_theme reg stored_theme = Some t"
proof -
  from assms have "dict_get reg DEFAULT_THEME_ID \<noteq> None"
    by (auto simp: validate_themes_def dict_get_None_keys split: if_splits)
  then show ?thesis by (auto simp: render_theme_def get_theme_def split: option.split)
qed

subsection \<open>The style block\<close>

definition css_dangerous :: "string" where
  "css_dangerous = ''<>;{}:@/'' @ [CHR 0x5C]"

lemma css_value_safe: "css_value_re s \<Longrightarrow> c \<in> set s \<Longrightarrow> c \<notin> set css_dangerous"
proof -
  assume re: "css_value_re s" and c: "c \<in> set s"
  have plain: "c \<notin> set css_dangerous" if "css_value_char c" for c
    using that by (auto simp: css_value_char_def css_dangerous_def)
  from re consider "plain_css_value s" | "s \<noteq> []" "last s = CHR 0x0A" "plain_css_value (butlast s)"
    by (auto simp: css_value_re_def)
  then show ?thesis
  proof cases
    case 1
    with c plain show ?thesis by (auto simp: plain_css_value_def list_all_iff)
  next
    case 2
    from 2(1) c have "c \<in> set (butlast s) \<or> c = last s" by (metis append_butlast_last_id in_set_conv_decomp set_append Un_iff list.set(1) list.set(2) insertE empty_iff)
    with 2 plain show ?thesis by (auto simp: plain_css_value_def list_all_iff css_dangerous_def)
  qed
qed

lemma css_variables_names:
  "(n, v) \<in> set (css_variables vs) \<Longrightarrow> \<exists>m. (m, v) \<in> set vs \<and> n = css_name m \<and> v \<noteq> RNone"
proof -
  have "(n, v) \<in> set (fold (\<lambda>(n, v) d. if v = RNone then d else dict_put (css_name n) v d) vs d)
      \<Longrightarrow> (n, v) \<in> set d \<or> (\<exists>m. (m, v) \<in> set vs \<and> n = css_name m \<and> v \<noteq> RNone)" for d
  proof (induction vs arbitrary: d)
    case (Cons x vs)
    obtain m w where x: "x = (m, w)" by (cases x)
    have put: "(n, v) \<in> set (dict_put k u d) \<Longrightarrow> (n, v) \<in> set d \<or> n = k \<and> v = u" for k u
      by (induction d) (auto split: if_splits)
    show ?case
    proof (cases "w = RNone")
      case True
      with Cons x show ?thesis by fastforce
    next
      case False
      with Cons.prems x have "(n, v) \<in> set (fold (\<lambda>(n, v) d. if v = RNone then d else dict_put (css_name n) v d) vs (dict_put (css_name m) w d))"
        by simp
      from Cons.IH [OF this] put [of "css_name m" w] False x show ?thesis by auto
    qed
  qed simp
  then show "(n, v) \<in> set (css_variables vs) \<Longrightarrow> ?thesis" unfolding css_variables_def by fastforce
qed

text \<open>
  C19: whatever options are stored, a registered theme resolves them, and the style block rendered
  from them is empty, or one \<open>:root\<close> rule whose declarations are options of the theme with
  values it accepts or its defaults, made of characters that can neither end the declaration,
  the rule or the element, nor start a url, an import or an escape.
\<close>

theorem style_block_is_confined:
  assumes "register_themes cs [] = Inr reg" "get_theme reg i = Some t"
  shows "\<exists>vs. resolve_options t stored = Inr vs \<and>
    (render_css_variables vs = [] \<or>
     (\<exists>ds. render_css_variables vs = '':root {'' @ [CHR 0x0A] @ str_join [CHR 0x0A] (map css_declaration ds) @ [CHR 0x0A] @ ''}''
      \<and> (\<forall>(n, s) \<in> set ds. (\<forall>c \<in> set s. c \<notin> set css_dangerous)
          \<and> (\<exists>f \<in> set (os_fields (th_options t)). n = css_name (of_name f)
               \<and> (\<exists>v. s = raw_text v \<and> (of_accepts f v \<or> of_default f = Some v))))))"
proof -
  from register_themes_keeps [OF themes_ok_empty assms(1)] assms(2) have "theme_ok t"
    by (auto simp: themes_ok_def get_theme_def)
  from resolve_options_total [OF this, of stored] obtain vs where vs: "resolve_options t stored = Inr vs"
    by (cases "resolve_options t stored") auto
  then obtain opts where made: "make_options (th_options t) opts = Inr vs"
    by (auto simp: resolve_options_def Let_def split: sum.splits)
  have "(\<forall>c \<in> set s. c \<notin> set css_dangerous)
          \<and> (\<exists>f \<in> set (os_fields (th_options t)). n = css_name (of_name f)
               \<and> (\<exists>v. s = raw_text v \<and> (of_accepts f v \<or> of_default f = Some v)))"
    if "(n, s) \<in> set (kept_declarations vs)" for n s
  proof -
    from that obtain v where v: "(n, v) \<in> set (css_variables vs)" "s = raw_text v" "css_value_re s"
      by (auto simp: kept_declarations_def)
    from css_variables_names [OF v(1)] obtain m where "(m, v) \<in> set vs" "n = css_name m" by blast
    with make_options_accepts [OF made] v css_value_safe show ?thesis by blast
  qed
  then have "render_css_variables vs = [] \<or>
      (\<exists>ds. render_css_variables vs = '':root {'' @ [CHR 0x0A] @ str_join [CHR 0x0A] (map css_declaration ds) @ [CHR 0x0A] @ ''}''
        \<and> (\<forall>(n, s) \<in> set ds. (\<forall>c \<in> set s. c \<notin> set css_dangerous)
          \<and> (\<exists>f \<in> set (os_fields (th_options t)). n = css_name (of_name f)
               \<and> (\<exists>v. s = raw_text v \<and> (of_accepts f v \<or> of_default f = Some v)))))"
    by (cases "kept_declarations vs = []") (auto simp: render_css_variables_def Let_def intro!: exI [of _ "kept_declarations vs"])
  with vs show ?thesis by blast
qed

subsection \<open>The shipped themes\<close>

definition shipped_themes :: "theme_class list" where
  "shipped_themes = [DefaultTheme, FurniTheme, EntropyTheme]"

lemma shipped_themes_register:
  "map_sum id (map fst) (register_themes shipped_themes []) = Inr [''default'', ''furni'', ''entropy'']"
  by code_simp

text \<open>Options of another theme are dropped, a value that would leave the rule resets the options.\<close>

theorem style_block_is_confined_witness:
  "\<exists>reg t vs. register_themes shipped_themes [] = Inr reg \<and> get_theme reg ''furni'' = Some t
     \<and> resolve_options t (Some [(''color_surface'', RText ''#000''), (''color_accent'', RText ''#fff'')]) = Inr vs
     \<and> render_css_variables vs = '':root {'' @ [CHR 0x0A] @ ''  --t-color-accent: #fff;'' @ [CHR 0x0A] @ ''}''"
proof -
  have run: "map_sum id (\<lambda>reg. map_option (\<lambda>t. map_sum id render_css_variables
       (resolve_options t (Some [(''color_surface'', RText ''#000''), (''color_accent'', RText ''#fff'')])))
     (get_theme reg ''furni'')) (register_themes shipped_themes [])
     = Inr (Some (Inr ('':root {'' @ [CHR 0x0A] @ ''  --t-color-accent: #fff;'' @ [CHR 0x0A] @ ''}'')))"
    by code_simp
  from run obtain reg where reg: "register_themes shipped_themes [] = Inr reg"
    by (cases "register_themes shipped_themes []") auto
  with run obtain t where t: "get_theme reg ''furni'' = Some t" by (cases "get_theme reg ''furni''") auto
  from style_block_is_confined [OF reg t, of "Some [(''color_surface'', RText ''#000''), (''color_accent'', RText ''#fff'')]"]
  obtain vs where "resolve_options t (Some [(''color_surface'', RText ''#000''), (''color_accent'', RText ''#fff'')]) = Inr vs" by blast
  with reg t run show ?thesis by auto
qed

end
