(* ===== verification/Ledger.thy ===== *)
theory Ledger
  imports Service_Values
begin

text \<open>
  Accounts and budgets (\<open>account/models/*.py\<close>, \<open>account/services.py\<close>): the tables with their
  constraints, the rules of the services on what they write, the deletions with what they
  cascade to, and the computed totals. Amounts are in cents, dates in days. A write that leaves
  the tables inconsistent is an integrity error, and changes nothing. The names, descriptions
  and notes that no rule reads are left out where nothing depends on them.
\<close>

subsection \<open>Tables\<close>

record account =
  acc_id :: string
  acc_name :: string
  acc_code :: string
  acc_active :: bool

record category =
  cat_id :: string
  cat_name :: string
  cat_color :: int
  cat_account :: "string option"

record movement =
  mv_id :: string
  mv_account :: string
  mv_amount :: int
  mv_name :: string
  mv_date :: int
  mv_category :: "string option"

record budget =
  bg_id :: string
  bg_name :: string
  bg_user :: "string option"
  bg_account :: string
  bg_active :: bool

record budget_position =
  ps_id :: string
  ps_sequence :: int
  ps_budget :: string
  ps_category :: string

record budget_line =
  ln_id :: string
  ln_name :: string
  ln_sequence :: int
  ln_position :: string
  ln_planned :: int
  ln_budget :: string

record ledger =
  lg_accounts :: "account list"
  lg_categories :: "category list"
  lg_movements :: "movement list"
  lg_budgets :: "budget list"
  lg_positions :: "budget_position list"
  lg_lines :: "budget_line list"

datatype ledger_error =
    IntegrityError
  | Protected
  | NotFound string
  | Refused service_error

definition code_char :: "char \<Rightarrow> bool" where
  "code_char c \<longleftrightarrow> c \<in> set ''ABCDEFGHIJKLMNOPQRSTUVWXYZ0123456789_-''"

definition account_code_format :: "string \<Rightarrow> bool" where
  "account_code_format s \<longleftrightarrow> s \<noteq> [] \<and> length s \<le> 50 \<and> list_all code_char s"

definition account_constraints :: "account list \<Rightarrow> bool" where
  "account_constraints as \<longleftrightarrow> distinct (map acc_id as) \<and> distinct (map acc_name as) \<and> distinct (map acc_code as)
     \<and> list_all (\<lambda>a. account_code_format (acc_code a)) as"

definition category_constraints :: "string list \<Rightarrow> category list \<Rightarrow> bool" where
  "category_constraints accounts cs \<longleftrightarrow> distinct (map cat_id cs)
     \<and> distinct (map cat_name (filter (\<lambda>c. cat_account c = None) cs))
     \<and> distinct (map (\<lambda>c. (cat_account c, cat_name c)) (filter (\<lambda>c. cat_account c \<noteq> None) cs))
     \<and> list_all (\<lambda>c. 0 \<le> cat_color c \<and> cat_color c \<le> 15) cs
     \<and> list_all (\<lambda>c. case cat_account c of None \<Rightarrow> True | Some a \<Rightarrow> a \<in> set accounts) cs"

definition movement_constraints :: "string list \<Rightarrow> string list \<Rightarrow> movement list \<Rightarrow> bool" where
  "movement_constraints accounts categories ms \<longleftrightarrow> distinct (map mv_id ms)
     \<and> list_all (\<lambda>m. mv_amount m \<noteq> 0 \<and> mv_account m \<in> set accounts
          \<and> (case mv_category m of None \<Rightarrow> True | Some c \<Rightarrow> c \<in> set categories)) ms"

definition budget_constraints :: "string list \<Rightarrow> budget list \<Rightarrow> bool" where
  "budget_constraints accounts bs \<longleftrightarrow> distinct (map bg_id bs) \<and> list_all (\<lambda>b. bg_account b \<in> set accounts) bs"

definition position_constraints :: "string list \<Rightarrow> string list \<Rightarrow> budget_position list \<Rightarrow> bool" where
  "position_constraints budgets categories ps \<longleftrightarrow> distinct (map ps_id ps)
     \<and> distinct (map (\<lambda>p. (ps_budget p, ps_category p)) ps)
     \<and> list_all (\<lambda>p. ps_budget p \<in> set budgets \<and> ps_category p \<in> set categories) ps"

definition line_constraints :: "string list \<Rightarrow> string list \<Rightarrow> budget_line list \<Rightarrow> bool" where
  "line_constraints positions budgets ls \<longleftrightarrow> distinct (map ln_id ls)
     \<and> list_all (\<lambda>l. ln_position l \<in> set positions \<and> ln_budget l \<in> set budgets) ls"

definition constraints :: "ledger \<Rightarrow> bool" where
  "constraints db \<longleftrightarrow> account_constraints (lg_accounts db)
     \<and> category_constraints (map acc_id (lg_accounts db)) (lg_categories db)
     \<and> movement_constraints (map acc_id (lg_accounts db)) (map cat_id (lg_categories db)) (lg_movements db)
     \<and> budget_constraints (map acc_id (lg_accounts db)) (lg_budgets db)
     \<and> position_constraints (map bg_id (lg_budgets db)) (map cat_id (lg_categories db)) (lg_positions db)
     \<and> line_constraints (map ps_id (lg_positions db)) (map bg_id (lg_budgets db)) (lg_lines db)"

definition commit :: "ledger \<Rightarrow> ledger_error + ledger" where
  "commit db = (if constraints db then Inr db else Inl IntegrityError)"

subsection \<open>Relations\<close>

definition find_account :: "ledger \<Rightarrow> string \<Rightarrow> ledger_error + account" where
  "find_account db i = (case find (\<lambda>a. acc_id a = i) (lg_accounts db) of None \<Rightarrow> Inl (NotFound i) | Some a \<Rightarrow> Inr a)"

definition find_category :: "ledger \<Rightarrow> string \<Rightarrow> ledger_error + category" where
  "find_category db i = (case find (\<lambda>c. cat_id c = i) (lg_categories db) of None \<Rightarrow> Inl (NotFound i) | Some c \<Rightarrow> Inr c)"

definition find_budget :: "ledger \<Rightarrow> string \<Rightarrow> ledger_error + budget" where
  "find_budget db i = (case find (\<lambda>b. bg_id b = i) (lg_budgets db) of None \<Rightarrow> Inl (NotFound i) | Some b \<Rightarrow> Inr b)"

definition find_position :: "ledger \<Rightarrow> string \<Rightarrow> ledger_error + budget_position" where
  "find_position db i = (case find (\<lambda>p. ps_id p = i) (lg_positions db) of None \<Rightarrow> Inl (NotFound i) | Some p \<Rightarrow> Inr p)"

text \<open>A relation that is not given, given as null, or given and resolved.\<close>

definition resolve_optional :: "(string \<Rightarrow> ledger_error + 'a) \<Rightarrow> string option option \<Rightarrow> ledger_error + 'a option option" where
  "resolve_optional look v =
     (case v of
        None \<Rightarrow> Inr None
      | Some None \<Rightarrow> Inr (Some None)
      | Some (Some i) \<Rightarrow> result_bind (look i) (\<lambda>a. Inr (Some (Some a))))"

definition raise_if :: "service_error \<Rightarrow> ledger_error + unit" where
  "raise_if e = (if e \<noteq> [] then Inl (Refused e) else Inr ())"

subsection \<open>Accounts and categories\<close>

definition create_accounts :: "account list \<Rightarrow> ledger \<Rightarrow> ledger_error + ledger" where
  "create_accounts as db = commit (db\<lparr>lg_accounts := lg_accounts db @ as\<rparr>)"

definition update_accounts :: "(account \<Rightarrow> bool) \<Rightarrow> string option \<Rightarrow> string option \<Rightarrow> bool option \<Rightarrow> ledger \<Rightarrow> ledger_error + ledger" where
  "update_accounts qs name code active db =
     commit (db\<lparr>lg_accounts := map (\<lambda>a. if qs a
        then a\<lparr>acc_name := (case name of None \<Rightarrow> acc_name a | Some v \<Rightarrow> v), acc_code := (case code of None \<Rightarrow> acc_code a | Some v \<Rightarrow> v),
                acc_active := (case active of None \<Rightarrow> acc_active a | Some v \<Rightarrow> v)\<rparr>
        else a) (lg_accounts db)\<rparr>)"

definition create_categories :: "category list \<Rightarrow> ledger \<Rightarrow> ledger_error + ledger" where
  "create_categories cs db = commit (db\<lparr>lg_categories := lg_categories db @ cs\<rparr>)"

text \<open>The update schema of a category holds its name and color only.\<close>

definition update_categories :: "(category \<Rightarrow> bool) \<Rightarrow> string option \<Rightarrow> int option \<Rightarrow> ledger \<Rightarrow> ledger_error + ledger" where
  "update_categories qs name color db =
     commit (db\<lparr>lg_categories := map (\<lambda>c. if qs c
        then c\<lparr>cat_name := (case name of None \<Rightarrow> cat_name c | Some n \<Rightarrow> n), cat_color := (case color of None \<Rightarrow> cat_color c | Some n \<Rightarrow> n)\<rparr>
        else c) (lg_categories db)\<rparr>)"

definition drop_positions :: "(budget_position \<Rightarrow> bool) \<Rightarrow> ledger \<Rightarrow> ledger" where
  "drop_positions qs db =
     db\<lparr>lg_positions := filter (\<lambda>p. \<not> qs p) (lg_positions db),
        lg_lines := filter (\<lambda>l. ln_position l \<notin> ps_id ` set (filter qs (lg_positions db))) (lg_lines db)\<rparr>"

text \<open>The movements lose their category; the positions on it go, with their lines.\<close>

definition drop_categories :: "(category \<Rightarrow> bool) \<Rightarrow> ledger \<Rightarrow> ledger" where
  "drop_categories qs db =
     (let gone = map cat_id (filter qs (lg_categories db));
          db1 = drop_positions (\<lambda>p. ps_category p \<in> set gone) db
      in db1\<lparr>lg_categories := filter (\<lambda>c. \<not> qs c) (lg_categories db1),
             lg_movements := map (\<lambda>m. case mv_category m of
                None \<Rightarrow> m | Some c \<Rightarrow> if c \<in> set gone then m\<lparr>mv_category := None\<rparr> else m) (lg_movements db1)\<rparr>)"

definition delete_categories :: "(category \<Rightarrow> bool) \<Rightarrow> ledger \<Rightarrow> ledger_error + ledger" where
  "delete_categories qs db = commit (drop_categories qs db)"

text \<open>Movements and budgets protect their account, whose categories go with it.\<close>

definition delete_accounts :: "(account \<Rightarrow> bool) \<Rightarrow> ledger \<Rightarrow> ledger_error + ledger" where
  "delete_accounts qs db =
     (let gone = map acc_id (filter qs (lg_accounts db)) in
      if (\<exists>m \<in> set (lg_movements db). mv_account m \<in> set gone) \<or> (\<exists>b \<in> set (lg_budgets db). bg_account b \<in> set gone)
      then Inl Protected
      else let db1 = drop_categories (\<lambda>c. case cat_account c of None \<Rightarrow> False | Some a \<Rightarrow> a \<in> set gone) db
           in commit (db1\<lparr>lg_accounts := filter (\<lambda>a. \<not> qs a) (lg_accounts db1)\<rparr>))"

subsection \<open>Movements\<close>

record movement_data =
  md_amount :: "int option"
  md_date :: "int option"
  md_category :: "category option option"
  md_account :: "account option"

definition validate_movement :: "int \<Rightarrow> movement_data \<Rightarrow> movement option \<Rightarrow> service_error" where
  "validate_movement today data inst =
     (let e1 = (if md_amount data = Some 0
                then add_message (One ''The amount cannot be zero.'') (Some ''amount'') [] else []);
          e2 = (case md_date data of
                  None \<Rightarrow> e1
                | Some d \<Rightarrow> if d > today then add_message (One ''The date cannot be in the future.'') (Some ''date'') e1 else e1)
      in case md_category data of
           Some (Some c) \<Rightarrow>
             (case cat_account c of
                None \<Rightarrow> e2
              | Some a \<Rightarrow>
                  (let account_id = (case inst of Some m \<Rightarrow> mv_account m
                                     | None \<Rightarrow> (case md_account data of Some acc \<Rightarrow> acc_id acc | None \<Rightarrow> [])) in
                   if a \<noteq> account_id
                   then add_message (One ''This category belongs to another account.'') (Some ''category'') e2 else e2))
         | _ \<Rightarrow> e2)"

text \<open>An input of a creation: the row to insert, with its relations as identifiers.\<close>

definition create_movement :: "int \<Rightarrow> ledger \<Rightarrow> movement \<Rightarrow> ledger_error + movement" where
  "create_movement today db m =
     result_bind (find_account db (mv_account m)) (\<lambda>a.
     result_bind (resolve_optional (find_category db) (Some (mv_category m))) (\<lambda>c.
     result_bind (raise_if (validate_movement today
         \<lparr>md_amount = Some (mv_amount m), md_date = Some (mv_date m), md_category = c, md_account = Some a\<rparr> None)) (\<lambda>u.
       Inr m)))"

definition create_movements :: "int \<Rightarrow> movement list \<Rightarrow> ledger \<Rightarrow> ledger_error + ledger" where
  "create_movements today ms db =
     result_bind (result_map (create_movement today db) ms) (\<lambda>rows.
       commit (db\<lparr>lg_movements := lg_movements db @ rows\<rparr>))"

text \<open>An update changes no account: its schema has none.\<close>

record movement_changes =
  mc_amount :: "int option"
  mc_date :: "int option"
  mc_name :: "string option"
  mc_category :: "string option option"

definition write_movement :: "movement_changes \<Rightarrow> movement \<Rightarrow> movement" where
  "write_movement ch m =
     m\<lparr>mv_amount := (case mc_amount ch of None \<Rightarrow> mv_amount m | Some v \<Rightarrow> v),
        mv_date := (case mc_date ch of None \<Rightarrow> mv_date m | Some v \<Rightarrow> v),
        mv_name := (case mc_name ch of None \<Rightarrow> mv_name m | Some v \<Rightarrow> v),
        mv_category := (case mc_category ch of None \<Rightarrow> mv_category m | Some v \<Rightarrow> v)\<rparr>"

definition update_movements :: "int \<Rightarrow> (movement \<Rightarrow> bool) \<Rightarrow> movement_changes \<Rightarrow> ledger \<Rightarrow> ledger_error + ledger" where
  "update_movements today qs ch db =
     result_bind (resolve_optional (find_category db) (mc_category ch)) (\<lambda>c.
     result_bind (result_map (\<lambda>m. raise_if (validate_movement today
         \<lparr>md_amount = mc_amount ch, md_date = mc_date ch, md_category = c, md_account = None\<rparr> (Some m)))
       (filter qs (lg_movements db))) (\<lambda>us.
     commit (db\<lparr>lg_movements := map (\<lambda>m. if qs m then write_movement ch m else m) (lg_movements db)\<rparr>)))"

definition delete_movements :: "(movement \<Rightarrow> bool) \<Rightarrow> ledger \<Rightarrow> ledger_error + ledger" where
  "delete_movements qs db = commit (db\<lparr>lg_movements := filter (\<lambda>m. \<not> qs m) (lg_movements db)\<rparr>)"

subsection \<open>Budgets\<close>

text \<open>A budget whose user is not given is the acting user's.\<close>

definition budget_default_user :: "string option \<Rightarrow> string option option \<Rightarrow> string option" where
  "budget_default_user acting u = (case u of Some v \<Rightarrow> v | None \<Rightarrow> acting)"

definition create_budgets :: "string option \<Rightarrow> (budget \<times> string option option) list \<Rightarrow> ledger \<Rightarrow> ledger_error + ledger" where
  "create_budgets acting inputs db =
     commit (db\<lparr>lg_budgets := lg_budgets db @ map (\<lambda>(b, u). b\<lparr>bg_user := budget_default_user acting u\<rparr>) inputs\<rparr>)"

definition update_budgets :: "(budget \<Rightarrow> bool) \<Rightarrow> string option \<Rightarrow> string option option \<Rightarrow> bool option \<Rightarrow> ledger \<Rightarrow> ledger_error + ledger" where
  "update_budgets qs name user active db =
     commit (db\<lparr>lg_budgets := map (\<lambda>b. if qs b
        then b\<lparr>bg_name := (case name of None \<Rightarrow> bg_name b | Some v \<Rightarrow> v), bg_user := (case user of None \<Rightarrow> bg_user b | Some v \<Rightarrow> v),
                bg_active := (case active of None \<Rightarrow> bg_active b | Some v \<Rightarrow> v)\<rparr>
        else b) (lg_budgets db)\<rparr>)"

definition delete_budgets :: "(budget \<Rightarrow> bool) \<Rightarrow> ledger \<Rightarrow> ledger_error + ledger" where
  "delete_budgets qs db =
     (let gone = map bg_id (filter qs (lg_budgets db));
          db1 = drop_positions (\<lambda>p. ps_budget p \<in> set gone) db
      in commit (db1\<lparr>lg_budgets := filter (\<lambda>b. \<not> qs b) (lg_budgets db1),
                      lg_lines := filter (\<lambda>l. ln_budget l \<notin> set gone) (lg_lines db1)\<rparr>))"

text \<open>\<open>account\<close> is the account of the budget, as the record or its creation names it.\<close>

definition validate_position :: "string \<Rightarrow> category option \<Rightarrow> service_error" where
  "validate_position account category =
     (case category of
        None \<Rightarrow> []
      | Some c \<Rightarrow>
          (case cat_account c of
             None \<Rightarrow> []
           | Some a \<Rightarrow> if a \<noteq> account
                       then service_error (One ''This category belongs to another account than the budget's.'') (Some ''category'')
                       else []))"

definition create_position :: "ledger \<Rightarrow> budget_position \<Rightarrow> ledger_error + budget_position" where
  "create_position db p =
     result_bind (find_budget db (ps_budget p)) (\<lambda>b.
     result_bind (find_category db (ps_category p)) (\<lambda>c.
     result_bind (raise_if (validate_position (bg_account b) (Some c))) (\<lambda>u. Inr p)))"

definition create_positions :: "budget_position list \<Rightarrow> ledger \<Rightarrow> ledger_error + ledger" where
  "create_positions ps db =
     result_bind (result_map (create_position db) ps) (\<lambda>rows. commit (db\<lparr>lg_positions := lg_positions db @ rows\<rparr>))"

definition write_position :: "string option \<Rightarrow> int option \<Rightarrow> budget_position \<Rightarrow> budget_position" where
  "write_position category sequence p =
     p\<lparr>ps_category := (case category of None \<Rightarrow> ps_category p | Some v \<Rightarrow> v),
        ps_sequence := (case sequence of None \<Rightarrow> ps_sequence p | Some v \<Rightarrow> v)\<rparr>"

definition update_positions ::
    "(budget_position \<Rightarrow> bool) \<Rightarrow> string option \<Rightarrow> int option \<Rightarrow> ledger \<Rightarrow> ledger_error + ledger" where
  "update_positions qs category sequence db =
     result_bind (case category of None \<Rightarrow> Inr None | Some i \<Rightarrow> result_bind (find_category db i) (\<lambda>c. Inr (Some c))) (\<lambda>c.
     result_bind (result_map (\<lambda>p. result_bind (find_budget db (ps_budget p)) (\<lambda>b. raise_if (validate_position (bg_account b) c)))
       (filter qs (lg_positions db))) (\<lambda>us.
     commit (db\<lparr>lg_positions := map (\<lambda>p. if qs p then write_position category sequence p else p) (lg_positions db)\<rparr>)))"

definition delete_positions :: "(budget_position \<Rightarrow> bool) \<Rightarrow> ledger \<Rightarrow> ledger_error + ledger" where
  "delete_positions qs db = commit (drop_positions qs db)"

subsection \<open>Lines\<close>

definition validate_line :: "string \<Rightarrow> budget_position option \<Rightarrow> service_error" where
  "validate_line budget_id position =
     (case position of
        None \<Rightarrow> []
      | Some p \<Rightarrow> if ps_budget p \<noteq> budget_id
                  then service_error (One ''This position belongs to another budget.'') (Some ''position'') else [])"

text \<open>\<open>BudgetLineQuerySet.bulk_create\<close> takes the budget of the resolved position.\<close>

definition create_line :: "ledger \<Rightarrow> budget_line \<Rightarrow> ledger_error + budget_line" where
  "create_line db l =
     result_bind (find_budget db (ln_budget l)) (\<lambda>b.
     result_bind (find_position db (ln_position l)) (\<lambda>p.
     result_bind (raise_if (validate_line (bg_id b) (Some p))) (\<lambda>u.
       Inr (l\<lparr>ln_budget := ps_budget p\<rparr>))))"

definition create_lines :: "budget_line list \<Rightarrow> ledger \<Rightarrow> ledger_error + ledger" where
  "create_lines ls db =
     result_bind (result_map (create_line db) ls) (\<lambda>rows. commit (db\<lparr>lg_lines := lg_lines db @ rows\<rparr>))"

record line_changes =
  lc_name :: "string option"
  lc_sequence :: "int option"
  lc_planned :: "int option"
  lc_position :: "string option"

text \<open>\<open>BudgetLineQuerySet.update\<close> writes the budget of the new position with it.\<close>

definition write_line :: "line_changes \<Rightarrow> budget_position option \<Rightarrow> budget_line \<Rightarrow> budget_line" where
  "write_line ch position l =
     (let l1 = l\<lparr>ln_name := (case lc_name ch of None \<Rightarrow> ln_name l | Some v \<Rightarrow> v),
                 ln_sequence := (case lc_sequence ch of None \<Rightarrow> ln_sequence l | Some v \<Rightarrow> v),
                 ln_planned := (case lc_planned ch of None \<Rightarrow> ln_planned l | Some v \<Rightarrow> v)\<rparr>
      in case position of None \<Rightarrow> l1 | Some p \<Rightarrow> l1\<lparr>ln_position := ps_id p, ln_budget := ps_budget p\<rparr>)"

definition update_lines :: "(budget_line \<Rightarrow> bool) \<Rightarrow> line_changes \<Rightarrow> ledger \<Rightarrow> ledger_error + ledger" where
  "update_lines qs ch db =
     result_bind (case lc_position ch of None \<Rightarrow> Inr None | Some i \<Rightarrow> result_bind (find_position db i) (\<lambda>p. Inr (Some p))) (\<lambda>p.
     result_bind (result_map (\<lambda>l. raise_if (validate_line (ln_budget l) p)) (filter qs (lg_lines db))) (\<lambda>us.
     commit (db\<lparr>lg_lines := map (\<lambda>l. if qs l then write_line ch p l else l) (lg_lines db)\<rparr>)))"

definition delete_lines :: "(budget_line \<Rightarrow> bool) \<Rightarrow> ledger \<Rightarrow> ledger_error + ledger" where
  "delete_lines qs db = commit (db\<lparr>lg_lines := filter (\<lambda>l. \<not> qs l) (lg_lines db)\<rparr>)"

subsection \<open>Totals\<close>

text \<open>A grouped sum, as the dictionary the query returns, then the totals of the instances.\<close>

definition grouped_sum :: "('r \<Rightarrow> 'k) \<Rightarrow> ('r \<Rightarrow> int) \<Rightarrow> 'r list \<Rightarrow> ('k \<times> int) list" where
  "grouped_sum key amount rs = map (\<lambda>k. (k, sum_list (map amount (filter (\<lambda>r. key r = k) rs)))) (uniq (map key rs))"

definition sum_movements :: "ledger \<Rightarrow> (movement \<Rightarrow> bool) \<Rightarrow> string list \<Rightarrow> (string \<times> int) list" where
  "sum_movements db cond pks =
     (let totals = grouped_sum mv_account mv_amount (filter cond (filter (\<lambda>m. mv_account m \<in> set pks) (lg_movements db)))
      in map (\<lambda>pk. (pk, case dict_get totals pk of None \<Rightarrow> 0 | Some t \<Rightarrow> t)) pks)"

definition total_debit :: "ledger \<Rightarrow> string list \<Rightarrow> (string \<times> int) list" where
  "total_debit db pks = sum_movements db (\<lambda>m. mv_amount m < 0) pks"

definition total_credit :: "ledger \<Rightarrow> string list \<Rightarrow> (string \<times> int) list" where
  "total_credit db pks = sum_movements db (\<lambda>m. mv_amount m > 0) pks"

definition value_of :: "('k \<times> int) list \<Rightarrow> 'k \<Rightarrow> int" where
  "value_of d k = (case dict_get d k of None \<Rightarrow> 0 | Some v \<Rightarrow> v)"

definition balance :: "ledger \<Rightarrow> string \<Rightarrow> int" where
  "balance db a = value_of (total_credit db [a]) a + value_of (total_debit db [a]) a"

definition position_keys :: "ledger \<Rightarrow> string list \<Rightarrow> (string \<times> string \<times> string) list" where
  "position_keys db pks =
     List.map_filter (\<lambda>p. if ps_id p \<in> set pks
        then map_option (\<lambda>b. (ps_id p, bg_account b, ps_category p)) (find (\<lambda>b. bg_id b = ps_budget p) (lg_budgets db))
        else None) (lg_positions db)"

definition total_practical :: "ledger \<Rightarrow> string list \<Rightarrow> (string \<times> int) list" where
  "total_practical db pks =
     (let keys = position_keys db pks;
          rows = filter (\<lambda>m. mv_account m \<in> (\<lambda>(pk, a, c). a) ` set keys
                   \<and> (case mv_category m of None \<Rightarrow> False | Some c \<Rightarrow> c \<in> (\<lambda>(pk, a, c). c) ` set keys)) (lg_movements db);
          totals = grouped_sum (\<lambda>m. (mv_account m, mv_category m)) mv_amount rows
      in map (\<lambda>(pk, a, c). (pk, value_of totals (a, Some c))) keys)"

definition total_planned :: "ledger \<Rightarrow> string \<Rightarrow> int" where
  "total_planned db p = sum_list (map ln_planned (filter (\<lambda>l. ln_position l = p) (lg_lines db)))"

definition budget_positions :: "ledger \<Rightarrow> string \<Rightarrow> budget_position list" where
  "budget_positions db b = filter (\<lambda>p. ps_budget p = b) (lg_positions db)"

definition total_planned_amount :: "ledger \<Rightarrow> string \<Rightarrow> int" where
  "total_planned_amount db b = sum_list (map (\<lambda>p. total_planned db (ps_id p)) (budget_positions db b))"

definition total_practical_amount :: "ledger \<Rightarrow> string \<Rightarrow> int" where
  "total_practical_amount db b =
     (let ps = map ps_id (budget_positions db b) in sum_list (map (value_of (total_practical db ps)) ps))"

definition uncategorized_movement_count :: "ledger \<Rightarrow> budget list \<Rightarrow> (string \<times> int) list" where
  "uncategorized_movement_count db bs =
     (let accounts = map (\<lambda>b. (bg_id b, bg_account b)) bs;
          rows = filter (\<lambda>m. mv_account m \<in> snd ` set accounts) (lg_movements db);
          counts = grouped_sum (\<lambda>m. (mv_account m, mv_category m)) (\<lambda>m. 1) rows
      in map (\<lambda>(pk, a). (pk, sum_list (map snd (filter (\<lambda>((a', c), n). a' = a
              \<and> (case c of None \<Rightarrow> True | Some c \<Rightarrow> c \<notin> ps_category ` set (budget_positions db pk))) counts)))) accounts)"

end
