(* ===== verification/Ledger_Laws.thy ===== *)
theory Ledger_Laws
  imports Ledger
begin

text \<open>
  The scope rules every write of the services keeps, and what the totals add up to.
\<close>

subsection \<open>Scopes\<close>

definition cat_applies :: "ledger \<Rightarrow> string \<Rightarrow> string \<Rightarrow> bool" where
  "cat_applies db c a \<longleftrightarrow> (\<exists>k \<in> set (lg_categories db). cat_id k = c \<and> (cat_account k = None \<or> cat_account k = Some a))"

definition movements_scoped :: "ledger \<Rightarrow> bool" where
  "movements_scoped db \<longleftrightarrow> (\<forall>m \<in> set (lg_movements db). \<forall>c. mv_category m = Some c \<longrightarrow> cat_applies db c (mv_account m))"

definition positions_scoped :: "ledger \<Rightarrow> bool" where
  "positions_scoped db \<longleftrightarrow> (\<forall>p \<in> set (lg_positions db). \<forall>b \<in> set (lg_budgets db).
      bg_id b = ps_budget p \<longrightarrow> cat_applies db (ps_category p) (bg_account b))"

definition lines_scoped :: "ledger \<Rightarrow> bool" where
  "lines_scoped db \<longleftrightarrow> (\<forall>l \<in> set (lg_lines db). \<forall>p \<in> set (lg_positions db). ps_id p = ln_position l \<longrightarrow> ps_budget p = ln_budget l)"

definition ledger_ok :: "ledger \<Rightarrow> bool" where
  "ledger_ok db \<longleftrightarrow> constraints db \<and> movements_scoped db \<and> positions_scoped db \<and> lines_scoped db"

lemmas scoped_defs = movements_scoped_def positions_scoped_def lines_scoped_def cat_applies_def

lemma commitD: "commit db = Inr db' \<Longrightarrow> db' = db \<and> constraints db"
  by (auto simp: commit_def split: if_splits)

lemma commit_ok:
  "commit db = Inr db' \<Longrightarrow> movements_scoped db \<Longrightarrow> positions_scoped db \<Longrightarrow> lines_scoped db \<Longrightarrow> ledger_ok db'"
  using commitD by (auto simp: ledger_ok_def)

lemma resolve_optional_Some:
  "resolve_optional look v = Inr r \<Longrightarrow> v = Some (Some i) \<Longrightarrow> \<exists>a. look i = Inr a \<and> r = Some (Some a)"
  by (auto simp: resolve_optional_def)

lemma find_categoryD: "find_category db i = Inr c \<Longrightarrow> c \<in> set (lg_categories db) \<and> cat_id c = i"
  by (auto simp: find_category_def split: option.splits dest!: find_Some_iff_mem)

lemma find_budgetD: "find_budget db i = Inr b \<Longrightarrow> b \<in> set (lg_budgets db) \<and> bg_id b = i"
  by (auto simp: find_budget_def split: option.splits dest!: find_Some_iff_mem)

lemma find_accountD: "find_account db i = Inr a \<Longrightarrow> a \<in> set (lg_accounts db) \<and> acc_id a = i"
  by (auto simp: find_account_def split: option.splits dest!: find_Some_iff_mem)

lemma find_positionD: "find_position db i = Inr p \<Longrightarrow> p \<in> set (lg_positions db) \<and> ps_id p = i"
  by (auto simp: find_position_def split: option.splits dest!: find_Some_iff_mem)

lemmas findD = find_categoryD find_budgetD find_accountD find_positionD

lemma raise_if_Inr [simp]: "raise_if e = Inr u \<longleftrightarrow> e = []"
  by (simp add: raise_if_def)

lemma message_added [simp]: "add_message m k e \<noteq> []"
proof -
  have "dict_put k v d \<noteq> []" for k :: string and v :: "string list" and d by (induction d) auto
  then show ?thesis by (simp add: add_message_def Let_def)
qed

lemma service_error_not_Nil [simp]: "service_error m k \<noteq> []"
  by (simp add: service_error_def)

text \<open>What an accepted movement satisfies.\<close>

lemma validate_movement_iff:
  "validate_movement today data inst = [] \<longleftrightarrow>
     md_amount data \<noteq> Some 0 \<and> (\<forall>d. md_date data = Some d \<longrightarrow> d \<le> today) \<and>
     (\<forall>c a. md_category data = Some (Some c) \<and> cat_account c = Some a \<longrightarrow>
        a = (case inst of Some m \<Rightarrow> mv_account m | None \<Rightarrow> (case md_account data of Some acc \<Rightarrow> acc_id acc | None \<Rightarrow> [])))"
  by (auto simp: validate_movement_def Let_def split: option.splits)

lemma validate_position_iff:
  "validate_position account category = [] \<longleftrightarrow> (\<forall>c a. category = Some c \<and> cat_account c = Some a \<longrightarrow> a = account)"
  by (auto simp: validate_position_def split: option.splits)

lemma validate_line_iff: "validate_line b position = [] \<longleftrightarrow> (\<forall>p. position = Some p \<longrightarrow> ps_budget p = b)"
  by (auto simp: validate_line_def split: option.splits)

subsection \<open>Every write keeps them\<close>

lemma create_accounts_ok: "ledger_ok db \<Longrightarrow> create_accounts as db = Inr db' \<Longrightarrow> ledger_ok db'"
  unfolding create_accounts_def by (erule commit_ok) (auto simp: ledger_ok_def scoped_defs)

lemma update_accounts_ok: "ledger_ok db \<Longrightarrow> update_accounts qs name code active db = Inr db' \<Longrightarrow> ledger_ok db'"
  unfolding update_accounts_def by (erule commit_ok) (auto simp: ledger_ok_def scoped_defs)

definition category_scopes :: "ledger \<Rightarrow> (string \<times> string option) set" where
  "category_scopes db = (\<lambda>k. (cat_id k, cat_account k)) ` set (lg_categories db)"

lemma cat_applies_scopes: "cat_applies db c a \<longleftrightarrow> (c, None) \<in> category_scopes db \<or> (c, Some a) \<in> category_scopes db"
  by (force simp: cat_applies_def category_scopes_def)

text \<open>A write of the categories that keeps their scopes keeps everything scoped.\<close>

lemma categories_written_ok:
  assumes "ledger_ok db" "commit (db\<lparr>lg_categories := cs\<rparr>) = Inr db'"
    and "category_scopes db \<subseteq> (\<lambda>k. (cat_id k, cat_account k)) ` set cs"
  shows "ledger_ok db'"
proof -
  have "cat_applies db c a \<Longrightarrow> cat_applies (db\<lparr>lg_categories := cs\<rparr>) c a" for c a
    using assms(3) by (auto simp: cat_applies_scopes category_scopes_def)
  with assms(1) show ?thesis
    by (intro commit_ok [OF assms(2)]) (auto simp: ledger_ok_def movements_scoped_def positions_scoped_def lines_scoped_def)
qed

lemma create_categories_ok: "ledger_ok db \<Longrightarrow> create_categories cs db = Inr db' \<Longrightarrow> ledger_ok db'"
  unfolding create_categories_def by (erule (1) categories_written_ok) (auto simp: category_scopes_def)

lemma update_categories_ok: "ledger_ok db \<Longrightarrow> update_categories qs name color db = Inr db' \<Longrightarrow> ledger_ok db'"
  unfolding update_categories_def
  by (erule (1) categories_written_ok, subst image_map_keep) (auto simp: category_scopes_def)

lemma drop_positions_scoped:
  "movements_scoped db \<Longrightarrow> movements_scoped (drop_positions qs db)"
  "positions_scoped db \<Longrightarrow> positions_scoped (drop_positions qs db)"
  "lines_scoped db \<Longrightarrow> lines_scoped (drop_positions qs db)"
  by (auto simp: drop_positions_def scoped_defs)

lemma drop_categories_scoped:
  assumes "movements_scoped db" "positions_scoped db" "lines_scoped db"
  shows "movements_scoped (drop_categories qs db) \<and> positions_scoped (drop_categories qs db) \<and> lines_scoped (drop_categories qs db)"
proof -
  have kept: "cat_applies db c a \<Longrightarrow> c \<notin> cat_id ` set (filter qs (lg_categories db)) \<Longrightarrow> cat_applies (drop_categories qs db) c a" for c a
    by (auto simp: cat_applies_def drop_categories_def drop_positions_def Let_def)
  have "movements_scoped (drop_categories qs db)" unfolding movements_scoped_def
  proof (intro ballI allI impI)
    fix m c assume m: "m \<in> set (lg_movements (drop_categories qs db))" "mv_category m = Some c"
    then obtain r where "r \<in> set (lg_movements db)" "mv_category r = Some c" "mv_account r = mv_account m"
      "c \<notin> cat_id ` set (filter qs (lg_categories db))"
      by (auto simp: drop_categories_def drop_positions_def Let_def split: option.splits if_splits)
    with assms(1) kept show "cat_applies (drop_categories qs db) c (mv_account m)" by (metis movements_scoped_def)
  qed
  moreover have "positions_scoped (drop_categories qs db)" unfolding positions_scoped_def
  proof (intro ballI impI)
    fix p b assume "p \<in> set (lg_positions (drop_categories qs db))" "b \<in> set (lg_budgets (drop_categories qs db))" "bg_id b = ps_budget p"
    then have "p \<in> set (lg_positions db)" "b \<in> set (lg_budgets db)" "bg_id b = ps_budget p"
      "ps_category p \<notin> cat_id ` set (filter qs (lg_categories db))"
      by (auto simp: drop_categories_def drop_positions_def Let_def)
    with assms(2) kept show "cat_applies (drop_categories qs db) (ps_category p) (bg_account b)" by (metis positions_scoped_def)
  qed
  moreover have "lines_scoped (drop_categories qs db)"
    using assms(3) by (auto simp: drop_categories_def drop_positions_def Let_def lines_scoped_def)
  ultimately show ?thesis by blast
qed

lemma delete_categories_ok: "ledger_ok db \<Longrightarrow> delete_categories qs db = Inr db' \<Longrightarrow> ledger_ok db'"
  unfolding delete_categories_def by (erule commit_ok) (simp_all add: ledger_ok_def drop_categories_scoped)

lemma delete_accounts_ok:
  assumes "ledger_ok db" "delete_accounts qs db = Inr db'"
  shows "ledger_ok db'"
proof -
  define db1 where "db1 = drop_categories (\<lambda>c. case cat_account c of None \<Rightarrow> False
      | Some a \<Rightarrow> a \<in> set (map acc_id (filter qs (lg_accounts db)))) db"
  from assms(2) have c: "commit (db1\<lparr>lg_accounts := filter (\<lambda>a. \<not> qs a) (lg_accounts db1)\<rparr>) = Inr db'"
    by (auto simp: delete_accounts_def Let_def db1_def cong: option.case_cong split: if_splits)
  from assms(1) have "movements_scoped db1" "positions_scoped db1" "lines_scoped db1"
    unfolding db1_def by (simp_all add: ledger_ok_def drop_categories_scoped del: set_map)
  then show ?thesis by (intro commit_ok [OF c]) (auto simp: scoped_defs)
qed

lemma create_movements_ok:
  assumes "ledger_ok db" "create_movements today ms db = Inr db'"
  shows "ledger_ok db'"
proof -
  from assms(2) obtain rows where rows: "result_map (create_movement today db) ms = Inr rows"
    "commit (db\<lparr>lg_movements := lg_movements db @ rows\<rparr>) = Inr db'" by (auto simp: create_movements_def)
  have new: "cat_applies db c (mv_account r)" if r: "r \<in> set rows" "mv_category r = Some c" for r c
  proof -
    from result_map_mem(2) [OF rows(1) r(1)] obtain m where "create_movement today db m = Inr r" by blast
    then obtain a k where a: "find_account db (mv_account m) = Inr a" and k: "resolve_optional (find_category db) (Some (mv_category m)) = Inr k"
      and valid: "validate_movement today \<lparr>md_amount = Some (mv_amount m), md_date = Some (mv_date m), md_category = k, md_account = Some a\<rparr> None = []"
      and m: "m = r" by (auto simp: create_movement_def)
    from resolve_optional_Some [OF k] r(2) m obtain cat where "find_category db c = Inr cat" "k = Some (Some cat)" by auto
    with valid findD [of db c] findD(3) [OF a] m show ?thesis
      by (cases "cat_account cat") (auto simp: validate_movement_iff cat_applies_def dest!: findD(1))
  qed
  have "cat_applies (db\<lparr>lg_movements := lg_movements db @ rows\<rparr>) c a \<longleftrightarrow> cat_applies db c a" for c a
    by (simp add: cat_applies_def)
  with assms(1) new show ?thesis
    by (intro commit_ok [OF rows(2)]) (auto simp: ledger_ok_def movements_scoped_def positions_scoped_def lines_scoped_def)
qed

lemma update_movements_ok:
  assumes "ledger_ok db" "update_movements today qs ch db = Inr db'"
  shows "ledger_ok db'"
proof -
  from assms(2) obtain k us where k: "resolve_optional (find_category db) (mc_category ch) = Inr k"
    and valid: "result_map (\<lambda>m. raise_if (validate_movement today
         \<lparr>md_amount = mc_amount ch, md_date = mc_date ch, md_category = k, md_account = None\<rparr> (Some m))) (filter qs (lg_movements db)) = Inr us"
    and c: "commit (db\<lparr>lg_movements := map (\<lambda>m. if qs m then write_movement ch m else m) (lg_movements db)\<rparr>) = Inr db'"
    by (auto simp: update_movements_def)
  have keep: "mv_account (write_movement ch m) = mv_account m" for m by (simp add: write_movement_def)
  have new: "cat_applies db i (mv_account m)"
    if m: "m \<in> set (lg_movements db)" "qs m" "mv_category (write_movement ch m) = Some i" for m i
  proof (cases "mc_category ch")
    case None
    with m(3) have "mv_category m = Some i" by (simp add: write_movement_def)
    with assms(1) m(1) show ?thesis by (simp add: ledger_ok_def movements_scoped_def)
  next
    case (Some v)
    with m(3) have "mc_category ch = Some (Some i)" by (simp add: write_movement_def)
    from resolve_optional_Some [OF k this] obtain cat where cat: "find_category db i = Inr cat" "k = Some (Some cat)" by blast
    from m(1,2) have "m \<in> set (filter qs (lg_movements db))" by simp
    from result_map_mem(1) [OF valid this] cat(2) findD(1) [OF cat(1)] show ?thesis
      by (cases "cat_account cat") (auto simp: validate_movement_iff cat_applies_def)
  qed
  have "cat_applies (db\<lparr>lg_movements := map (\<lambda>m. if qs m then write_movement ch m else m) (lg_movements db)\<rparr>) c a \<longleftrightarrow> cat_applies db c a" for c a
    by (simp add: cat_applies_def)
  with assms(1) new show ?thesis
    by (intro commit_ok [OF c]) (auto simp: ledger_ok_def movements_scoped_def positions_scoped_def lines_scoped_def keep split: if_splits)
qed

lemma delete_movements_ok: "ledger_ok db \<Longrightarrow> delete_movements qs db = Inr db' \<Longrightarrow> ledger_ok db'"
  unfolding delete_movements_def by (erule commit_ok) (auto simp: ledger_ok_def scoped_defs)

lemma appended_key: "distinct (map f (xs @ ys)) \<Longrightarrow> y \<in> set ys \<Longrightarrow> f y \<notin> f ` set xs"
  by (simp add: disjoint_iff) blast

text \<open>A new budget has an identifier no position refers to: the positions refer to those there are.\<close>

lemma budgets_written_ok:
  assumes "ledger_ok db" "commit (db\<lparr>lg_budgets := bs\<rparr>) = Inr db'"
    and "\<And>b. b \<in> set bs \<Longrightarrow> bg_id b \<in> bg_id ` set (lg_budgets db) \<Longrightarrow> \<exists>r \<in> set (lg_budgets db). bg_id r = bg_id b \<and> bg_account r = bg_account b"
  shows "ledger_ok db'"
proof -
  have refs: "ps_budget p \<in> bg_id ` set (lg_budgets db)" if "p \<in> set (lg_positions db)" for p
    using assms(1) that by (auto simp: ledger_ok_def constraints_def position_constraints_def list_all_iff)
  have "cat_applies (db\<lparr>lg_budgets := bs\<rparr>) c a \<longleftrightarrow> cat_applies db c a" for c a by (simp add: cat_applies_def)
  moreover have "cat_applies db (ps_category p) (bg_account b)"
    if pb: "p \<in> set (lg_positions db)" "b \<in> set bs" "bg_id b = ps_budget p" for p b
  proof -
    from assms(3) [OF pb(2)] refs [OF pb(1)] pb(3) obtain r
      where "r \<in> set (lg_budgets db)" "bg_id r = ps_budget p" "bg_account r = bg_account b" by auto
    with assms(1) pb(1) show ?thesis unfolding ledger_ok_def positions_scoped_def by metis
  qed
  ultimately show ?thesis using assms(1)
    by (intro commit_ok [OF assms(2)]) (auto simp: ledger_ok_def movements_scoped_def positions_scoped_def lines_scoped_def)
qed

lemma create_budgets_ok:
  assumes "ledger_ok db" "create_budgets acting inputs db = Inr db'"
  shows "ledger_ok db'"
proof -
  let ?bs = "lg_budgets db @ map (\<lambda>(b, u). b\<lparr>bg_user := budget_default_user acting u\<rparr>) inputs"
  from assms(2) have c: "commit (db\<lparr>lg_budgets := ?bs\<rparr>) = Inr db'" by (simp add: create_budgets_def)
  from commitD [OF c] have "distinct (map bg_id ?bs)" by (simp add: constraints_def budget_constraints_def del: map_append)
  from appended_key [OF this] have "b \<in> set (lg_budgets db)"
    if "b \<in> set ?bs" "bg_id b \<in> bg_id ` set (lg_budgets db)" for b
    using that by (metis Un_iff set_append)
  then show ?thesis by (intro budgets_written_ok [OF assms(1) c]) blast
qed

lemma update_budgets_ok:
  assumes "ledger_ok db" "update_budgets qs name user active db = Inr db'"
  shows "ledger_ok db'"
  using assms(2) unfolding update_budgets_def
  by (rule budgets_written_ok [OF assms(1)]) (auto split: if_splits)

lemma delete_budgets_ok:
  assumes "ledger_ok db" "delete_budgets qs db = Inr db'"
  shows "ledger_ok db'"
  using assms unfolding delete_budgets_def Let_def
  by (elim commit_ok) (auto simp: ledger_ok_def scoped_defs drop_positions_def)

lemma create_positions_ok:
  assumes "ledger_ok db" "create_positions ps db = Inr db'"
  shows "ledger_ok db'"
proof -
  from assms(2) obtain rows where rows: "result_map (create_position db) ps = Inr rows"
    and c: "commit (db\<lparr>lg_positions := lg_positions db @ rows\<rparr>) = Inr db'" by (auto simp: create_positions_def)
  from commitD [OF c] have dist: "distinct (map ps_id (lg_positions db @ rows))"
    by (simp add: constraints_def position_constraints_def del: map_append)
  have buds: "distinct (map bg_id (lg_budgets db))" using assms(1) by (simp add: ledger_ok_def constraints_def budget_constraints_def)
  have new: "cat_applies db (ps_category p) (bg_account b)"
    if pb: "p \<in> set rows" "b \<in> set (lg_budgets db)" "bg_id b = ps_budget p" for p b
  proof -
    from result_map_mem(2) [OF rows pb(1)] obtain q where "create_position db q = Inr p" by blast
    then obtain r k where rk: "find_budget db (ps_budget p) = Inr r" "find_category db (ps_category p) = Inr k"
      "validate_position (bg_account r) (Some k) = []" by (auto simp: create_position_def)
    from findD(2) [OF rk(1)] pb distinct_map_unique [OF buds] have "r = b" by auto
    with rk(3) findD(1) [OF rk(2)] show ?thesis
      by (cases "cat_account k") (auto simp: validate_position_iff cat_applies_def)
  qed
  have refs: "ln_position l \<in> ps_id ` set (lg_positions db)" if "l \<in> set (lg_lines db)" for l
    using assms(1) that by (auto simp: ledger_ok_def constraints_def line_constraints_def list_all_iff)
  have "ps_id p \<noteq> ln_position l" if "p \<in> set rows" "l \<in> set (lg_lines db)" for p l
    using refs [OF that(2)] appended_key [OF dist that(1)] by metis
  moreover have "cat_applies (db\<lparr>lg_positions := lg_positions db @ rows\<rparr>) c a \<longleftrightarrow> cat_applies db c a" for c a
    by (simp add: cat_applies_def)
  ultimately show ?thesis using assms(1) new
    by (intro commit_ok [OF c]) (auto simp: ledger_ok_def movements_scoped_def positions_scoped_def lines_scoped_def)
qed

lemma update_positions_ok:
  assumes "ledger_ok db" "update_positions qs cat sequence db = Inr db'"
  shows "ledger_ok db'"
proof -
  from assms(2) obtain k us where k: "(case cat of None \<Rightarrow> Inr None | Some i \<Rightarrow> result_bind (find_category db i) (\<lambda>c. Inr (Some c))) = Inr k"
    and valid: "result_map (\<lambda>p. result_bind (find_budget db (ps_budget p)) (\<lambda>b. raise_if (validate_position (bg_account b) k)))
       (filter qs (lg_positions db)) = Inr us"
    and c: "commit (db\<lparr>lg_positions := map (\<lambda>p. if qs p then write_position cat sequence p else p) (lg_positions db)\<rparr>) = Inr db'"
    by (auto simp: update_positions_def)
  have buds: "distinct (map bg_id (lg_budgets db))" using assms(1) by (simp add: ledger_ok_def constraints_def budget_constraints_def)
  have keep: "ps_id (write_position cat sequence p) = ps_id p" "ps_budget (write_position cat sequence p) = ps_budget p" for p
    by (simp_all add: write_position_def)
  have new: "cat_applies db (ps_category (write_position cat sequence p)) (bg_account b)"
    if p: "p \<in> set (lg_positions db)" "qs p" and b: "b \<in> set (lg_budgets db)" "bg_id b = ps_budget p" for p b
  proof (cases cat)
    case None
    with assms(1) p b show ?thesis by (simp add: ledger_ok_def positions_scoped_def write_position_def)
  next
    case (Some i)
    with k obtain r where r: "find_category db i = Inr r" "k = Some r" by auto
    from p have "p \<in> set (filter qs (lg_positions db))" by simp
    from result_map_mem(1) [OF valid this] obtain d where d: "find_budget db (ps_budget p) = Inr d" "validate_position (bg_account d) k = []" by auto
    from findD(2) [OF d(1)] b distinct_map_unique [OF buds] have "d = b" by auto
    with d(2) r(2) findD(1) [OF r(1)] Some show ?thesis
      by (cases "cat_account r") (auto simp: validate_position_iff cat_applies_def write_position_def)
  qed
  have "cat_applies (db\<lparr>lg_positions := map (\<lambda>p. if qs p then write_position cat sequence p else p) (lg_positions db)\<rparr>) c a \<longleftrightarrow> cat_applies db c a" for c a
    by (simp add: cat_applies_def)
  with assms(1) new show ?thesis
    by (intro commit_ok [OF c]) (auto simp: ledger_ok_def movements_scoped_def positions_scoped_def lines_scoped_def keep split: if_splits)
qed

lemma delete_positions_ok: "ledger_ok db \<Longrightarrow> delete_positions qs db = Inr db' \<Longrightarrow> ledger_ok db'"
  unfolding delete_positions_def by (erule commit_ok) (simp_all add: ledger_ok_def drop_positions_scoped)

lemma create_lines_ok:
  assumes "ledger_ok db" "create_lines ls db = Inr db'"
  shows "ledger_ok db'"
proof -
  from assms(2) obtain rows where rows: "result_map (create_line db) ls = Inr rows"
    and c: "commit (db\<lparr>lg_lines := lg_lines db @ rows\<rparr>) = Inr db'" by (auto simp: create_lines_def)
  have dist: "distinct (map ps_id (lg_positions db))" using assms(1) by (simp add: ledger_ok_def constraints_def position_constraints_def)
  have new: "ps_budget p = ln_budget l" if "l \<in> set rows" "p \<in> set (lg_positions db)" "ps_id p = ln_position l" for l p
  proof -
    from result_map_mem(2) [OF rows that(1)] obtain m where "create_line db m = Inr l" by blast
    then obtain q where q: "find_position db (ln_position l) = Inr q" "ln_budget l = ps_budget q" by (auto simp: create_line_def)
    from findD(4) [OF q(1)] that distinct_map_unique [OF dist] q(2) show ?thesis by metis
  qed
  show ?thesis using assms(1) new
    by (intro commit_ok [OF c]) (auto simp: ledger_ok_def scoped_defs)
qed

lemma update_lines_ok:
  assumes "ledger_ok db" "update_lines qs ch db = Inr db'"
  shows "ledger_ok db'"
proof -
  from assms(2) obtain q where q: "(case lc_position ch of None \<Rightarrow> Inr None | Some i \<Rightarrow> result_bind (find_position db i) (\<lambda>p. Inr (Some p))) = Inr q"
    and c: "commit (db\<lparr>lg_lines := map (\<lambda>l. if qs l then write_line ch q l else l) (lg_lines db)\<rparr>) = Inr db'"
    by (auto simp: update_lines_def)
  have dist: "distinct (map ps_id (lg_positions db))" using assms(1) by (simp add: ledger_ok_def constraints_def position_constraints_def)
  have new: "ps_budget p = ln_budget (write_line ch q l)"
    if "l \<in> set (lg_lines db)" "p \<in> set (lg_positions db)" "ps_id p = ln_position (write_line ch q l)" for l p
  proof (cases q)
    case None
    with that assms(1) show ?thesis by (simp add: write_line_def Let_def ledger_ok_def lines_scoped_def)
  next
    case (Some r)
    with q have "r \<in> set (lg_positions db)" by (auto dest: findD split: option.splits)
    with Some that distinct_map_unique [OF dist, of p r] show ?thesis by (simp add: write_line_def Let_def)
  qed
  have "movements_scoped (db\<lparr>lg_lines := ls\<rparr>) \<longleftrightarrow> movements_scoped db" "positions_scoped (db\<lparr>lg_lines := ls\<rparr>) \<longleftrightarrow> positions_scoped db" for ls
    by (simp_all add: scoped_defs)
  with assms(1) new show ?thesis
    by (intro commit_ok [OF c]) (auto simp: ledger_ok_def lines_scoped_def split: if_splits)
qed

lemma delete_lines_ok: "ledger_ok db \<Longrightarrow> delete_lines qs db = Inr db' \<Longrightarrow> ledger_ok db'"
  unfolding delete_lines_def by (erule commit_ok) (auto simp: ledger_ok_def scoped_defs)

end
