(* ===== verification/Ledger_Totals.thy ===== *)
theory Ledger_Totals
  imports Ledger_Laws
begin

text \<open>
  The runs of the account services, the scope rules they leave, and the identities between the
  computed totals of accounts, positions and budgets.
\<close>

subsection \<open>Runs\<close>

inductive ledger_step :: "ledger \<Rightarrow> ledger \<Rightarrow> bool" where
  "create_accounts as db = Inr db' \<Longrightarrow> ledger_step db db'"
| "update_accounts qa name code active db = Inr db' \<Longrightarrow> ledger_step db db'"
| "delete_accounts qa db = Inr db' \<Longrightarrow> ledger_step db db'"
| "create_categories cs db = Inr db' \<Longrightarrow> ledger_step db db'"
| "update_categories qc name color db = Inr db' \<Longrightarrow> ledger_step db db'"
| "delete_categories qc db = Inr db' \<Longrightarrow> ledger_step db db'"
| "create_movements today ms db = Inr db' \<Longrightarrow> ledger_step db db'"
| "update_movements today qm mc db = Inr db' \<Longrightarrow> ledger_step db db'"
| "delete_movements qm db = Inr db' \<Longrightarrow> ledger_step db db'"
| "create_budgets acting bs db = Inr db' \<Longrightarrow> ledger_step db db'"
| "update_budgets qb name user activity db = Inr db' \<Longrightarrow> ledger_step db db'"
| "delete_budgets qb db = Inr db' \<Longrightarrow> ledger_step db db'"
| "create_positions ps db = Inr db' \<Longrightarrow> ledger_step db db'"
| "update_positions qp cat sequence db = Inr db' \<Longrightarrow> ledger_step db db'"
| "delete_positions qp db = Inr db' \<Longrightarrow> ledger_step db db'"
| "create_lines ls db = Inr db' \<Longrightarrow> ledger_step db db'"
| "update_lines ql lc db = Inr db' \<Longrightarrow> ledger_step db db'"
| "delete_lines ql db = Inr db' \<Longrightarrow> ledger_step db db'"

definition empty_ledger :: ledger where
  "empty_ledger = \<lparr>lg_accounts = [], lg_categories = [], lg_movements = [], lg_budgets = [], lg_positions = [], lg_lines = []\<rparr>"

inductive ledger_run :: "ledger \<Rightarrow> bool" where
  start: "ledger_run empty_ledger"
| step: "ledger_run db \<Longrightarrow> ledger_step db db' \<Longrightarrow> ledger_run db'"

lemmas operations_ok =
  create_accounts_ok update_accounts_ok delete_accounts_ok create_categories_ok update_categories_ok delete_categories_ok
  create_movements_ok update_movements_ok delete_movements_ok create_budgets_ok update_budgets_ok delete_budgets_ok
  create_positions_ok update_positions_ok delete_positions_ok create_lines_ok update_lines_ok delete_lines_ok

lemma ledger_step_ok: "ledger_step db db' \<Longrightarrow> ledger_ok db \<Longrightarrow> ledger_ok db'"
  by (induction rule: ledger_step.induct) (blast intro: operations_ok)+

lemma ledger_run_ok: "ledger_run db \<Longrightarrow> ledger_ok db"
proof (induction rule: ledger_run.induct)
  case start
  show ?case
    by (simp add: ledger_ok_def scoped_defs empty_ledger_def constraints_def account_constraints_def category_constraints_def
        movement_constraints_def budget_constraints_def position_constraints_def line_constraints_def)
next
  case (step db db')
  then show ?case using ledger_step_ok by blast
qed


subsection \<open>Sums\<close>

lemma sum_filter_insert:
  "k \<notin> K \<Longrightarrow> sum_list (map f (filter (\<lambda>r. key r = k \<or> key r \<in> K) rs)) =
     sum_list (map f (filter (\<lambda>r. key r = k) rs)) + sum_list (map (f :: _ \<Rightarrow> int) (filter (\<lambda>r. key r \<in> K) rs))"
  by (induction rs) auto

lemma sum_partition:
  "distinct ks \<Longrightarrow> sum_list (map (\<lambda>k. sum_list (map f (filter (\<lambda>r. key r = k) rs))) ks) =
     sum_list (map (f :: _ \<Rightarrow> int) (filter (\<lambda>r. key r \<in> set ks) rs))"
  by (induction ks) (simp_all add: sum_filter_insert)

lemma sum_split:
  "sum_list (map (f :: _ \<Rightarrow> int) rs) = sum_list (map f (filter P rs)) + sum_list (map f (filter (\<lambda>r. \<not> P r) rs))"
  by (induction rs) auto

lemma value_grouped: "value_of (grouped_sum key f rs) k = sum_list (map f (filter (\<lambda>r. key r = k) rs))"
proof -
  have get: "dict_get (map (\<lambda>k. (k, g k)) ks) k = (if k \<in> set ks then Some (g k) else None)" for g :: "_ \<Rightarrow> int" and ks
    by (induction ks) auto
  have "k \<notin> key ` set rs \<Longrightarrow> filter (\<lambda>r. key r = k) rs = []" by (auto simp: filter_empty_conv)
  then show ?thesis by (auto simp: value_of_def grouped_sum_def get)
qed

lemma sum_grouped:
  "sum_list (map snd (filter (\<lambda>(k, n). P k) (grouped_sum key f rs))) = sum_list (map f (filter (\<lambda>r. P (key r)) rs))"
proof -
  have "map snd (filter (\<lambda>(k, n). P k) (map (\<lambda>k. (k, g k)) ks)) = map g (filter P ks)" for g :: "_ \<Rightarrow> int" and ks
    by (induction ks) auto
  then have "sum_list (map snd (filter (\<lambda>(k, n). P k) (grouped_sum key f rs))) =
      sum_list (map f (filter (\<lambda>r. key r \<in> set (filter P (uniq (map key rs)))) rs))"
    unfolding grouped_sum_def by (simp add: sum_partition del: set_filter)
  moreover have "filter (\<lambda>r. key r \<in> set (filter P (uniq (map key rs)))) rs = filter (\<lambda>r. P (key r)) rs"
    by (rule filter_cong) auto
  ultimately show ?thesis by simp
qed

lemma value_sum_movements:
  assumes "a \<in> set pks"
  shows "value_of (sum_movements db cond pks) a =
    sum_list (map mv_amount (filter (\<lambda>m. mv_account m = a \<and> cond m) (lg_movements db)))"
proof -
  let ?rows = "filter cond (filter (\<lambda>m. mv_account m \<in> set pks) (lg_movements db))"
  have get: "value_of (map (\<lambda>pk. (pk, g pk)) ks) a = g a" if "a \<in> set ks" for g :: "string \<Rightarrow> int" and ks
    using that by (induction ks) (auto simp: value_of_def)
  have "value_of (sum_movements db cond pks) a = value_of (grouped_sum mv_account mv_amount ?rows) a"
    using get [OF assms] by (simp add: sum_movements_def Let_def value_of_def)
  moreover have "filter (\<lambda>m. mv_account m = a) ?rows = filter (\<lambda>m. mv_account m = a \<and> cond m) (lg_movements db)"
    using assms by (auto intro: filter_cong)
  ultimately show ?thesis by (simp add: value_grouped)
qed

lemma balance_sum:
  "balance db a = sum_list (map mv_amount (filter (\<lambda>m. mv_account m = a) (lg_movements db)))"
proof -
  have "sum_list (map mv_amount (filter (\<lambda>m. mv_account m = a \<and> mv_amount m > 0) ms)) +
      sum_list (map mv_amount (filter (\<lambda>m. mv_account m = a \<and> mv_amount m < 0) ms)) =
      sum_list (map mv_amount (filter (\<lambda>m. mv_account m = a) ms))" for ms
    by (induction ms) auto
  then show ?thesis by (simp add: balance_def total_credit_def total_debit_def value_sum_movements)
qed

subsection \<open>A budget and its account\<close>

definition is_uncategorized :: "ledger \<Rightarrow> budget \<Rightarrow> movement \<Rightarrow> bool" where
  "is_uncategorized db b m \<longleftrightarrow> mv_account m = bg_account b \<and>
     (case mv_category m of None \<Rightarrow> True | Some c \<Rightarrow> c \<notin> ps_category ` set (budget_positions db (bg_id b)))"

lemma position_key:
  assumes "distinct (map bg_id (lg_budgets db))" "p \<in> set (lg_positions db)" "b \<in> set (lg_budgets db)" "bg_id b = ps_budget p"
    "ps_id p \<in> set pks"
  shows "(ps_id p, bg_account b, ps_category p) \<in> set (position_keys db pks)"
proof -
  from find_unique [OF assms(1,3)] assms(4) have "find (\<lambda>r. bg_id r = ps_budget p) (lg_budgets db) = Some b" by simp
  with assms(2,5) show ?thesis by (force simp: position_keys_def List.map_filter_def)
qed

lemma position_keys_distinct:
  "distinct (map ps_id (lg_positions db)) \<Longrightarrow> distinct (map fst (position_keys db pks))"
proof -
  have sub: "set (map fst (List.map_filter (\<lambda>p. if ps_id p \<in> set pks
        then map_option (\<lambda>b. (ps_id p, bg_account b, ps_category p)) (find (\<lambda>b. bg_id b = ps_budget p) (lg_budgets db))
        else None) ps)) \<subseteq> ps_id ` set ps" for ps
    by (auto simp: List.map_filter_def split: if_splits)
  have "distinct (map ps_id ps) \<Longrightarrow> distinct (map fst (List.map_filter (\<lambda>p. if ps_id p \<in> set pks
        then map_option (\<lambda>b. (ps_id p, bg_account b, ps_category p)) (find (\<lambda>b. bg_id b = ps_budget p) (lg_budgets db))
        else None) ps))" for ps
  proof (induction ps)
    case (Cons p ps)
    with sub [of ps] show ?case by (auto simp: List.map_filter_simps split: option.split)
  qed (simp add: List.map_filter_simps)
  then show "distinct (map ps_id (lg_positions db)) \<Longrightarrow> ?thesis" by (simp add: position_keys_def)
qed

lemma practical_value:
  assumes "distinct (map ps_id (lg_positions db))" "(pk, a, c) \<in> set (position_keys db pks)"
  shows "value_of (total_practical db pks) pk =
    sum_list (map mv_amount (filter (\<lambda>m. mv_account m = a \<and> mv_category m = Some c) (lg_movements db)))"
proof -
  let ?keys = "position_keys db pks"
  let ?rows = "filter (\<lambda>m. mv_account m \<in> (\<lambda>(pk, a, c). a) ` set ?keys
      \<and> (case mv_category m of None \<Rightarrow> False | Some c \<Rightarrow> c \<in> (\<lambda>(pk, a, c). c) ` set ?keys)) (lg_movements db)"
  have "map_of (map (\<lambda>(pk, a, c). (pk, g a c)) ks) pk = Some (g a c)"
    if "distinct (map fst ks)" "(pk, a, c) \<in> set ks" for g :: "string \<Rightarrow> string \<Rightarrow> int" and ks :: "(string \<times> string \<times> string) list"
    using that by (induction ks) (auto simp: image_iff)
  from this [OF position_keys_distinct [OF assms(1)] assms(2)]
  have "value_of (total_practical db pks) pk = value_of (grouped_sum (\<lambda>m. (mv_account m, mv_category m)) mv_amount ?rows) (a, Some c)"
    by (simp add: total_practical_def Let_def value_of_def)
  also have "\<dots> = sum_list (map mv_amount (filter (\<lambda>m. (mv_account m, mv_category m) = (a, Some c)) ?rows))"
    by (rule value_grouped)
  also have "filter (\<lambda>m. (mv_account m, mv_category m) = (a, Some c)) ?rows =
      filter (\<lambda>m. mv_account m = a \<and> mv_category m = Some c) (lg_movements db)"
    using assms(2) by (auto intro!: filter_cong simp: image_iff Bex_def) blast
  finally show ?thesis .
qed

lemma budget_practical:
  assumes "ledger_ok db" "b \<in> set (lg_budgets db)"
  shows "total_practical_amount db (bg_id b) = sum_list (map mv_amount
    (filter (\<lambda>m. mv_account m = bg_account b \<and> mv_category m \<in> Some ` ps_category ` set (budget_positions db (bg_id b))) (lg_movements db)))"
proof -
  let ?ps = "budget_positions db (bg_id b)" and ?on = "\<lambda>m. mv_account m = bg_account b"
  have con: "distinct (map bg_id (lg_budgets db))" "distinct (map ps_id (lg_positions db))"
    "distinct (map (\<lambda>p. (ps_budget p, ps_category p)) (lg_positions db))"
    using assms(1) by (auto simp: ledger_ok_def constraints_def budget_constraints_def position_constraints_def)
  have at: "value_of (total_practical db (map ps_id ?ps)) (ps_id p) =
      sum_list (map mv_amount (filter (\<lambda>m. mv_category m = Some (ps_category p)) (filter ?on (lg_movements db))))"
    if "p \<in> set ?ps" for p
  proof -
    from that have "p \<in> set (lg_positions db)" "bg_id b = ps_budget p" "ps_id p \<in> set (map ps_id ?ps)"
      by (auto simp: budget_positions_def)
    from practical_value [OF con(2) position_key [OF con(1) this(1) assms(2) this(2,3)]] show ?thesis
      by (simp add: conj_commute)
  qed
  have "distinct (map (\<lambda>p. (ps_budget p, ps_category p)) ?ps)"
    unfolding budget_positions_def using con(3) by (rule distinct_map_filter)
  then have cats: "distinct (map (\<lambda>p. Some (ps_category p)) ?ps)"
    by (auto simp: distinct_map inj_on_def budget_positions_def)
  have "total_practical_amount db (bg_id b) = sum_list (map (\<lambda>p. sum_list (map mv_amount
      (filter (\<lambda>m. mv_category m = Some (ps_category p)) (filter ?on (lg_movements db))))) ?ps)"
    by (simp add: total_practical_amount_def Let_def o_def at cong: map_cong)
  also have "\<dots> = sum_list (map mv_amount (filter (\<lambda>m. mv_category m \<in> set (map (\<lambda>p. Some (ps_category p)) ?ps)) (filter ?on (lg_movements db))))"
    using sum_partition [OF cats, of mv_amount mv_category "filter ?on (lg_movements db)"] by (simp add: o_def)
  finally show ?thesis by (simp add: image_image conj_commute)
qed

lemma budget_planned:
  assumes "ledger_ok db"
  shows "total_planned_amount db i = sum_list (map ln_planned (filter (\<lambda>l. ln_budget l = i) (lg_lines db)))"
proof -
  have con: "distinct (map ps_id (lg_positions db))"
    and refs: "\<And>l. l \<in> set (lg_lines db) \<Longrightarrow> ln_position l \<in> ps_id ` set (lg_positions db)"
    using assms by (auto simp: ledger_ok_def constraints_def position_constraints_def line_constraints_def list_all_iff)
  have ids: "distinct (map ps_id (budget_positions db i))"
    unfolding budget_positions_def using con by (rule distinct_map_filter)
  have "ln_position l \<in> set (map ps_id (budget_positions db i)) \<longleftrightarrow> ln_budget l = i" if l: "l \<in> set (lg_lines db)" for l
  proof -
    from refs [OF l] obtain p where p: "p \<in> set (lg_positions db)" "ps_id p = ln_position l" by force
    with assms l have "ps_budget p = ln_budget l" by (auto simp: ledger_ok_def lines_scoped_def)
    with p distinct_map_unique [OF con] show ?thesis by (auto simp: budget_positions_def image_iff) metis
  qed
  then have "filter (\<lambda>l. ln_position l \<in> set (map ps_id (budget_positions db i))) (lg_lines db) = filter (\<lambda>l. ln_budget l = i) (lg_lines db)"
    by (intro filter_cong) auto
  with sum_partition [OF ids, of ln_planned ln_position "lg_lines db"] show ?thesis
    by (simp add: total_planned_amount_def total_planned_def o_def)
qed

lemma uncategorized_value:
  "value_of (uncategorized_movement_count db [b]) (bg_id b) = int (length (filter (is_uncategorized db b) (lg_movements db)))"
proof -
  have ones: "sum_list (map (\<lambda>m. 1) ms) = int (length ms)" for ms :: "movement list" by (induction ms) auto
  let ?P = "\<lambda>k :: string \<times> string option. fst k = bg_account b \<and>
    (case snd k of None \<Rightarrow> True | Some c \<Rightarrow> c \<notin> ps_category ` set (budget_positions db (bg_id b)))"
  have "value_of (uncategorized_movement_count db [b]) (bg_id b) =
      sum_list (map snd (filter (\<lambda>(k, n). ?P k) (grouped_sum (\<lambda>m. (mv_account m, mv_category m)) (\<lambda>m. 1)
        (filter (\<lambda>m. mv_account m = bg_account b) (lg_movements db)))))"
    by (simp add: uncategorized_movement_count_def Let_def value_of_def case_prod_unfold cong: option.case_cong)
  also have "\<dots> = sum_list (map (\<lambda>m. 1) (filter (\<lambda>m. ?P (mv_account m, mv_category m)) (filter (\<lambda>m. mv_account m = bg_account b) (lg_movements db))))"
    by (rule sum_grouped)
  also have "filter (\<lambda>m. ?P (mv_account m, mv_category m)) (filter (\<lambda>m. mv_account m = bg_account b) (lg_movements db)) =
      filter (is_uncategorized db b) (lg_movements db)"
    by (auto intro!: filter_cong simp: is_uncategorized_def)
  finally show ?thesis using ones by simp
qed

text \<open>
  C21: the totals of a budget account for every movement of its account: what its positions
  practically amount to and what no position covers add up to the balance of the account; the
  uncovered movements are the ones it counts; and what it plans is the sum of its lines.
\<close>

theorem budget_accounts_for_every_movement:
  assumes "ledger_run db" "b \<in> set (lg_budgets db)"
  shows "total_practical_amount db (bg_id b) + (\<Sum>m\<leftarrow>filter (is_uncategorized db b) (lg_movements db). mv_amount m)
      = balance db (bg_account b)
    \<and> balance db (bg_account b) = (\<Sum>m\<leftarrow>filter (\<lambda>m. mv_account m = bg_account b) (lg_movements db). mv_amount m)
    \<and> value_of (uncategorized_movement_count db [b]) (bg_id b) = int (length (filter (is_uncategorized db b) (lg_movements db)))
    \<and> total_planned_amount db (bg_id b) = (\<Sum>l\<leftarrow>filter (\<lambda>l. ln_budget l = bg_id b) (lg_lines db). ln_planned l)"
proof -
  have ok: "ledger_ok db" by (rule ledger_run_ok [OF assms(1)])
  let ?on = "filter (\<lambda>m. mv_account m = bg_account b) (lg_movements db)"
  let ?in = "\<lambda>m. mv_category m \<in> Some ` ps_category ` set (budget_positions db (bg_id b))"
  have "filter ?in ?on = filter (\<lambda>m. mv_account m = bg_account b \<and> ?in m) (lg_movements db)"
    by (simp add: conj_commute)
  moreover have "filter (\<lambda>m. \<not> ?in m) ?on = filter (is_uncategorized db b) (lg_movements db)"
    by (auto intro!: filter_cong simp: is_uncategorized_def split: option.split)
  ultimately show ?thesis
    using sum_split [of mv_amount ?on ?in] budget_practical [OF ok assms(2)] budget_planned [OF ok] uncategorized_value
    by (simp add: balance_sum)
qed

subsection \<open>A ledger\<close>

definition demo_budget :: budget where
  "demo_budget = \<lparr>bg_id = ''b'', bg_name = ''2026'', bg_user = Some ''u'', bg_account = ''a'', bg_active = True\<rparr>"

definition demo_ledger :: "ledger_error + ledger" where
  "demo_ledger =
     result_bind (create_accounts [\<lparr>acc_id = ''a'', acc_name = ''Main'', acc_code = ''MAIN'', acc_active = True\<rparr>] empty_ledger) (\<lambda>d1.
     result_bind (create_categories [\<lparr>cat_id = ''food'', cat_name = ''Food'', cat_color = 1, cat_account = None\<rparr>,
                                     \<lparr>cat_id = ''rent'', cat_name = ''Rent'', cat_color = 2, cat_account = Some ''a''\<rparr>] d1) (\<lambda>d2.
     result_bind (create_budgets (Some ''u'') [(demo_budget, None)] d2) (\<lambda>d3.
     result_bind (create_positions [\<lparr>ps_id = ''p'', ps_sequence = 1, ps_budget = ''b'', ps_category = ''food''\<rparr>] d3) (\<lambda>d4.
     result_bind (create_lines [\<lparr>ln_id = ''l'', ln_name = ''Canteen'', ln_sequence = 1, ln_position = ''p'', ln_planned = -50, ln_budget = ''b''\<rparr>] d4) (\<lambda>d5.
     create_movements 20
       [\<lparr>mv_id = ''m1'', mv_account = ''a'', mv_amount = -30, mv_name = ''Lunch'', mv_date = 10, mv_category = Some ''food''\<rparr>,
        \<lparr>mv_id = ''m2'', mv_account = ''a'', mv_amount = 100, mv_name = ''Gift'', mv_date = 20, mv_category = None\<rparr>,
        \<lparr>mv_id = ''m3'', mv_account = ''a'', mv_amount = -60, mv_name = ''Rent'', mv_date = 1, mv_category = Some ''rent''\<rparr>] d5)))))"

lemma demo_budget_keys: "bg_id demo_budget = ''b''" "bg_account demo_budget = ''a''"
  by (simp_all add: demo_budget_def)

lemma accepted: "case_sum (\<lambda>e. False) Q r \<Longrightarrow> \<exists>x. r = Inr x \<and> Q x"
  by (cases r) auto

lemma ledger_run_bind:
  assumes "result_bind r f = Inr db" "\<And>d. r = Inr d \<Longrightarrow> ledger_run d" "\<And>d. ledger_run d \<Longrightarrow> f d = Inr db \<Longrightarrow> ledger_run db"
  shows "ledger_run db"
  using assms by (cases r) auto

lemma demo_ledger_run:
  assumes "demo_ledger = Inr db"
  shows "ledger_run db"
  using assms unfolding demo_ledger_def
  apply (rule ledger_run_bind)
   apply (rule ledger_run.step [OF ledger_run.start], erule ledger_step.intros)
  apply (erule ledger_run_bind)
   apply (erule ledger_run.step, erule ledger_step.intros)
  apply (erule ledger_run_bind)
   apply (erule ledger_run.step, erule ledger_step.intros)
  apply (erule ledger_run_bind)
   apply (erule ledger_run.step, erule ledger_step.intros)
  apply (erule ledger_run_bind)
   apply (erule ledger_run.step, erule ledger_step.intros)
  apply (erule ledger_run.step, erule ledger_step.intros)
  done

lemma demo_ledger_values:
  "case demo_ledger of Inl e \<Rightarrow> False
   | Inr db \<Rightarrow> lg_budgets db = [demo_budget] \<and> total_practical_amount db ''b'' = -30 \<and> balance db ''a'' = 10
       \<and> map ps_id (lg_positions db) = [''p'']"
  by code_simp

lemma demo_ledgerE:
  obtains db where "demo_ledger = Inr db" "lg_budgets db = [demo_budget]" "total_practical_amount db ''b'' = -30"
    "balance db ''a'' = 10" "map ps_id (lg_positions db) = [''p'']"
proof -
  from accepted [OF demo_ledger_values] obtain db where "demo_ledger = Inr db"
    "lg_budgets db = [demo_budget] \<and> total_practical_amount db ''b'' = -30 \<and> balance db ''a'' = 10
       \<and> map ps_id (lg_positions db) = [''p'']"
    by (elim exE conjE) (rule that, assumption, intro conjI)
  then show ?thesis by (elim conjE) (rule that)
qed


theorem budget_accounts_for_every_movement_witness:
  "\<exists>db. demo_ledger = Inr db \<and> balance db ''a'' = 10
     \<and> (\<Sum>m\<leftarrow>filter (is_uncategorized db demo_budget) (lg_movements db). mv_amount m) = 40"
proof -
  obtain db where db: "demo_ledger = Inr db" "lg_budgets db = [demo_budget]"
    "total_practical_amount db ''b'' = -30" "balance db ''a'' = 10" by (rule demo_ledgerE)
  then have "demo_budget \<in> set (lg_budgets db)" by simp
  from budget_accounts_for_every_movement [OF demo_ledger_run [OF db(1)] this] db
  have "(\<Sum>m\<leftarrow>filter (is_uncategorized db demo_budget) (lg_movements db). mv_amount m) = 40"
    by (simp add: demo_budget_keys)
  with db show ?thesis by blast
qed

end
