(* ===== verification/Controllers.thy ===== *)
theory Controllers
  imports Api_Keys
begin

text \<open>
  The routes a controller class registers when it is created (\<open>core/api/controller.py\<close>,
  \<open>core/api/route.py\<close>, the scopes of \<open>user/security.py\<close>). The view functions of the mixins are
  one object each, shared by every controller: the \<open>Route\<close> of the last class that registered it
  and the annotations of its parameters sit on that object. The state of the import is therefore
  a store of functions, threaded through the classes in the order they are created; a class
  whose creation raises is an \<open>Inl\<close>. The types the routes are declared with are their names.
\<close>

subsection \<open>Classes and functions\<close>

datatype mixin = MList | MRetrieve | MCreate | MUpdate | MDelete | MResequence | MDisplayName | MGroupBy

text \<open>
  What the method resolution order of a controller holds after the class itself: the mixins, the
  one that adds scopes to the decorators, and \<open>BaseController\<close>, which does not chain.
\<close>

datatype ancestor = Mixin mixin | ScopesMixin | BaseCtl

definition model_controller :: "ancestor list" where
  "model_controller = [Mixin MList, Mixin MCreate, Mixin MRetrieve, Mixin MUpdate, Mixin MDelete, BaseCtl]"

record service_info =
  srv_name :: string
  srv_model :: string
  srv_resequence :: bool
  srv_dimensions :: bool

text \<open>
  A class statement: the functions of its body in their order, those of them decorated as
  routes, and the attributes the registration reads.
\<close>

record route =
  ro_path :: string
  ro_methods :: "string list"
  ro_response :: "(nat \<times> string option) list"
  ro_scopes :: "string list option"
  ro_exclude_unset :: bool
  ro_tags :: "string list"
  ro_controller :: "string option"

record controller =
  ct_name :: string
  ct_body :: "string list"
  ct_routes :: "(string \<times> route) list"
  ct_mro :: "ancestor list"
  ct_service :: "service_info option"
  ct_declared_model :: "string option"
  ct_mounted :: bool
  ct_path_prefix :: string
  ct_path_model :: "string option"
  ct_permission_map :: permission_map
  ct_tag_group :: string
  ct_list_response :: "string option"
  ct_list_filter :: "string option"
  ct_retrieve_response :: "string option"
  ct_create_request :: "string option"
  ct_create_response :: "string option"
  ct_update_request :: "string option"
  ct_update_response :: "string option"
  ct_display_name_response :: "string option"

datatype func = MixinFunc string | OwnFunc string string

datatype annotation =
    PathModel string
  | PathParameters "string list"
  | QuerySchema string
  | BodySchema string
  | QueryText string

record operation =
  op_view :: string
  op_func :: func
  op_route :: route
  op_parameters :: "(string \<times> annotation) list"

record api =
  api_routes :: "(func \<times> route) list"
  api_annotations :: "(func \<times> (string \<times> annotation) list) list"
  api_routers :: "(string \<times> operation list) list"
  api_mounts :: "(string \<times> string) list"
  api_groups :: "(string \<times> string list) list"

datatype registration_error =
    ModelMismatch string
  | Misconfigured string
  | ScopesRefused improperly_configured
  | NotInDict string

fun view_name :: "route_action \<Rightarrow> string" where
  "view_name RList = ''list''"
| "view_name RRetrieve = ''retrieve''"
| "view_name RCreate = ''create''"
| "view_name RDefaultValues = ''default_values''"
| "view_name RUpdate = ''update''"
| "view_name RDelete = ''delete''"
| "view_name RResequence = ''resequence''"
| "view_name RDisplayName = ''display_name''"
| "view_name RGroupBy = ''group_by''"

fun mixin_actions :: "mixin \<Rightarrow> route_action list" where
  "mixin_actions MList = [RList]"
| "mixin_actions MRetrieve = [RRetrieve]"
| "mixin_actions MCreate = [RCreate, RDefaultValues]"
| "mixin_actions MUpdate = [RUpdate]"
| "mixin_actions MDelete = [RDelete]"
| "mixin_actions MResequence = [RResequence]"
| "mixin_actions MDisplayName = [RDisplayName]"
| "mixin_actions MGroupBy = [RGroupBy]"

text \<open>\<open>cls.<name>\<close>: the function of the body, or the one a mixin of the order defines.\<close>

definition class_attr :: "controller \<Rightarrow> string \<Rightarrow> func" where
  "class_attr c n = (if n \<in> set (ct_body c) then OwnFunc (ct_name c) n else MixinFunc n)"

definition annotations_of :: "api \<Rightarrow> func \<Rightarrow> (string \<times> annotation) list" where
  "annotations_of w f = (case dict_get (api_annotations w) f of None \<Rightarrow> [] | Some d \<Rightarrow> d)"

definition annotate :: "func \<Rightarrow> (string \<times> annotation) list \<Rightarrow> api \<Rightarrow> api" where
  "annotate f new w =
     w\<lparr>api_annotations := dict_put f (fold (\<lambda>(k, a). dict_put k a) new (annotations_of w f)) (api_annotations w)\<rparr>"

subsection \<open>The model of a controller\<close>

definition class_model :: "controller \<Rightarrow> registration_error + string option" where
  "class_model c =
     (case ct_service c of
        None \<Rightarrow> Inr (ct_declared_model c)
      | Some s \<Rightarrow>
          (case ct_declared_model c of
             None \<Rightarrow> Inr (Some (srv_model s))
           | Some m \<Rightarrow> if m \<noteq> srv_model s then Inl (ModelMismatch (ct_name c)) else Inr (Some m)))"

subsection \<open>The routes of the mixins\<close>

text \<open>\<open>params\<close> is ninja's \<open>get_path_param_names\<close> of a normalized path.\<close>

definition default_path_schema :: "(string \<Rightarrow> string list) \<Rightarrow> controller \<Rightarrow> string \<Rightarrow> annotation" where
  "default_path_schema params c path =
     (let names = params (ct_path_prefix c @ path) in
      case ct_path_model c of
        Some m \<Rightarrow> if names \<noteq> [] then PathModel m else PathParameters names
      | None \<Rightarrow> PathParameters names)"

fun action_path :: "route_action \<Rightarrow> string" where
  "action_path RList = ''/''"
| "action_path RRetrieve = ''/{id}/''"
| "action_path RCreate = ''/''"
| "action_path RDefaultValues = ''/default-values/''"
| "action_path RUpdate = ''/{id}/''"
| "action_path RDelete = ''/{id}/''"
| "action_path RResequence = ''/resequence/''"
| "action_path RDisplayName = ''/display-name/''"
| "action_path RGroupBy = ''/group-by/''"

fun action_method :: "route_action \<Rightarrow> string" where
  "action_method RList = ''GET''"
| "action_method RRetrieve = ''GET''"
| "action_method RCreate = ''POST''"
| "action_method RDefaultValues = ''GET''"
| "action_method RUpdate = ''PATCH''"
| "action_method RDelete = ''DELETE''"
| "action_method RResequence = ''POST''"
| "action_method RDisplayName = ''GET''"
| "action_method RGroupBy = ''POST''"

fun action_response :: "controller \<Rightarrow> string \<Rightarrow> route_action \<Rightarrow> (nat \<times> string option) list" where
  "action_response c m RList = [(200, ct_list_response c)]"
| "action_response c m RRetrieve = [(200, ct_retrieve_response c)]"
| "action_response c m RCreate = [(201, ct_create_response c)]"
| "action_response c m RDefaultValues = [(200, Some (m @ ''DefaultValuesSchema''))]"
| "action_response c m RUpdate = [(200, ct_update_response c)]"
| "action_response c m RDelete = [(204, None)]"
| "action_response c m RResequence = [(201, None)]"
| "action_response c m RDisplayName = [(200, ct_display_name_response c)]"
| "action_response c m RGroupBy = [(200, Some (m @ ''GroupByResponseSchema''))]"

text \<open>
  What the \<open>_annotate_*\<close> wrappers write over the annotations of the function, besides its path
  parameters. The list sets its query parameters only when the controller has a filter schema.
\<close>

fun action_annotations :: "controller \<Rightarrow> string \<Rightarrow> route_action \<Rightarrow> (string \<times> annotation) list" where
  "action_annotations c m RList =
     (case ct_list_filter c of None \<Rightarrow> [] | Some f \<Rightarrow> [(''query_parameters'', QuerySchema f)])"
| "action_annotations c m RCreate =
     (case ct_create_request c of None \<Rightarrow> [] | Some s \<Rightarrow> [(''request_body'', BodySchema s)])"
| "action_annotations c m RUpdate =
     (case ct_update_request c of None \<Rightarrow> [] | Some s \<Rightarrow> [(''request_body'', BodySchema s)])"
| "action_annotations c m RResequence = [(''request_body'', BodySchema (m @ ''ResequenceSchema''))]"
| "action_annotations c m RDisplayName = [(''ids'', QueryText ''id'')]"
| "action_annotations c m RGroupBy = [(''request_body'', BodySchema (m @ ''GroupBySchema''))]"
| "action_annotations c m RRetrieve = []"
| "action_annotations c m RDefaultValues = []"
| "action_annotations c m RDelete = []"

text \<open>
  \<open>cls._<view>_function_decorators()\<close>: the scopes, when the mixin that adds them comes before the
  one that declares the route.
\<close>

definition scoped :: "controller \<Rightarrow> mixin \<Rightarrow> bool" where
  "scoped c m = (ScopesMixin \<in> set (takeWhile (\<lambda>a. a \<noteq> Mixin m) (ct_mro c)))"

definition class_decorators :: "controller \<Rightarrow> mixin \<Rightarrow> route_action \<Rightarrow> registration_error + string list option" where
  "class_decorators c m act =
     (if scoped c m
      then case function_decorators (ct_permission_map c) act of Inl e \<Rightarrow> Inl (ScopesRefused e) | Inr s \<Rightarrow> Inr s
      else Inr None)"

text \<open>\<open>method_to_route_function\<close>, with the names of the class dictionary.\<close>

definition method_to_route_function ::
    "(string \<Rightarrow> string list) \<Rightarrow> controller \<Rightarrow> string \<Rightarrow> string list option \<Rightarrow> route_action \<Rightarrow> api \<times> string list \<Rightarrow> api \<times> string list" where
  "method_to_route_function params c m scopes act = (\<lambda>(w, names).
     let view = class_attr c (view_name act);
         w1 = annotate view ((''path_parameters'', default_path_schema params c (action_path act)) # action_annotations c m act) w;
         names' = (if view_name act \<in> set names then names else names @ [view_name act]);
         r = \<lparr>ro_path = action_path act, ro_methods = [action_method act], ro_response = action_response c m act,
              ro_scopes = scopes, ro_exclude_unset = act \<in> {RList, RDefaultValues, RGroupBy}, ro_tags = [m],
              ro_controller = Some (ct_name c)\<rparr>
     in (w1\<lparr>api_routes := dict_put view r (api_routes w1)\<rparr>, names'))"

text \<open>When the \<open>add_routes_to\<close> of a mixin registers, and what it refuses.\<close>

definition mixin_registers :: "controller \<Rightarrow> string option \<Rightarrow> mixin \<Rightarrow> bool" where
  "mixin_registers c model m \<longleftrightarrow> model \<noteq> None
     \<and> (case m of
          MList \<Rightarrow> ct_list_response c \<noteq> None
        | MRetrieve \<Rightarrow> ct_retrieve_response c \<noteq> None
        | MCreate \<Rightarrow> ct_create_request c \<noteq> None
        | MUpdate \<Rightarrow> ct_update_request c \<noteq> None
        | _ \<Rightarrow> True)"

definition mixin_refuses :: "controller \<Rightarrow> mixin \<Rightarrow> bool" where
  "mixin_refuses c m \<longleftrightarrow>
     (case m of
        MResequence \<Rightarrow> \<not> (case ct_service c of None \<Rightarrow> False | Some s \<Rightarrow> srv_resequence s)
      | MDisplayName \<Rightarrow> ct_display_name_response c = None
      | MGroupBy \<Rightarrow> \<not> (case ct_service c of None \<Rightarrow> False | Some s \<Rightarrow> srv_dimensions s)
      | _ \<Rightarrow> False)"

fun register_actions ::
    "(string \<Rightarrow> string list) \<Rightarrow> controller \<Rightarrow> string \<Rightarrow> mixin \<Rightarrow> route_action list \<Rightarrow> api \<times> string list
     \<Rightarrow> registration_error + (api \<times> string list)" where
  "register_actions params c m x [] s = Inr s"
| "register_actions params c m x (act # acts) s =
     result_bind (class_decorators c x act) (\<lambda>scopes.
       register_actions params c m x acts (method_to_route_function params c m scopes act s))"

definition mixin_add_routes ::
    "(string \<Rightarrow> string list) \<Rightarrow> controller \<Rightarrow> string option \<Rightarrow> mixin \<Rightarrow> api \<times> string list
     \<Rightarrow> registration_error + (api \<times> string list)" where
  "mixin_add_routes params c model x s =
     (case model of
        None \<Rightarrow> Inr s
      | Some m \<Rightarrow>
          if \<not> mixin_registers c model x then Inr s
          else if mixin_refuses c x then Inl (Misconfigured (ct_name c))
          else register_actions params c m x (mixin_actions x) s)"

subsection \<open>The router of a controller\<close>

definition index_of :: "'a list \<Rightarrow> 'a \<Rightarrow> nat" where
  "index_of xs x = length (takeWhile (\<lambda>y. y \<noteq> x) xs)"

text \<open>\<open>inspect.getmembers(cls)\<close>, as the functions of the class by name.\<close>

definition class_members :: "controller \<Rightarrow> string list" where
  "class_members c =
     sort (uniq (ct_body c @ concat (map (\<lambda>a. case a of Mixin m \<Rightarrow> map view_name (mixin_actions m) | _ \<Rightarrow> []) (ct_mro c))))"

definition add_operation :: "controller \<Rightarrow> api \<Rightarrow> string \<Rightarrow> operation" where
  "add_operation c w n =
     (let f = class_attr c n; r = the (dict_get (api_routes w) f) in
      \<lparr>op_view = n, op_func = f, op_route = r\<lparr>ro_controller := Some (ct_name c)\<rparr>, op_parameters = annotations_of w f\<rparr>)"

definition base_add_routes :: "controller \<Rightarrow> api \<times> string list \<Rightarrow> registration_error + api" where
  "base_add_routes c = (\<lambda>(w, names).
     let members = filter (\<lambda>n. dict_get (api_routes w) (class_attr c n) \<noteq> None) (class_members c) in
     case find (\<lambda>n. n \<notin> set names) members of
       Some n \<Rightarrow> Inl (NotInDict n)
     | None \<Rightarrow> Inr (w\<lparr>api_routers := dict_put (ct_name c)
         (map (add_operation c w) (sort_key (index_of names) members)) (api_routers w)\<rparr>))"

text \<open>\<open>cls.add_routes_to(cls._router)\<close>, along the method resolution order.\<close>

fun add_routes_to ::
    "(string \<Rightarrow> string list) \<Rightarrow> controller \<Rightarrow> string option \<Rightarrow> ancestor list \<Rightarrow> api \<times> string list
     \<Rightarrow> registration_error + api" where
  "add_routes_to params c model [] s = Inr (fst s)"
| "add_routes_to params c model (a # as) s =
     (case a of
        BaseCtl \<Rightarrow> base_add_routes c s
      | ScopesMixin \<Rightarrow> add_routes_to params c model as s
      | Mixin x \<Rightarrow> result_bind (mixin_add_routes params c model x s) (add_routes_to params c model as))"

definition add_tag_group :: "controller \<Rightarrow> api \<Rightarrow> api" where
  "add_tag_group c w =
     (let tags = fold (\<lambda>op tags. tags @ filter (\<lambda>t. t \<notin> set tags) (ro_tags (op_route op)))
            (case dict_get (api_routers w) (ct_name c) of None \<Rightarrow> [] | Some ops \<Rightarrow> ops) [];
          group = (case dict_get (api_groups w) (ct_tag_group c) of None \<Rightarrow> [] | Some g \<Rightarrow> g)
      in if tags = [] then w
         else w\<lparr>api_groups := dict_put (ct_tag_group c) (group @ filter (\<lambda>t. t \<notin> set group) tags) (api_groups w)\<rparr>)"

text \<open>
  The creation of a class: the decorators of its body run first, then \<open>__init_subclass__\<close> of
  \<open>BaseModelController\<close> and of \<open>BaseController\<close>.
\<close>

definition class_body :: "controller \<Rightarrow> api \<Rightarrow> api" where
  "class_body c w = w\<lparr>api_routes := fold (\<lambda>(n, r). dict_put (OwnFunc (ct_name c) n) r) (ct_routes c) (api_routes w)\<rparr>"

definition create_controller :: "(string \<Rightarrow> string list) \<Rightarrow> controller \<Rightarrow> api \<Rightarrow> registration_error + api" where
  "create_controller params c w =
     result_bind (class_model c) (\<lambda>model.
     result_bind (add_routes_to params c model (ct_mro c) (class_body c w, ct_body c)) (\<lambda>w1.
       Inr (if ct_mounted c
            then add_tag_group c (w1\<lparr>api_mounts := api_mounts w1 @ [(ct_path_prefix c, ct_name c)]\<rparr>)
            else w1)))"

fun import_controllers :: "(string \<Rightarrow> string list) \<Rightarrow> controller list \<Rightarrow> api \<Rightarrow> registration_error + api" where
  "import_controllers params [] w = Inr w"
| "import_controllers params (c # cs) w = result_bind (create_controller params c w) (import_controllers params cs)"

definition empty_api :: api where
  "empty_api = \<lparr>api_routes = [], api_annotations = [], api_routers = [], api_mounts = [], api_groups = []\<rparr>"

end
