(* ===== verification/Controller_Laws.thy ===== *)
theory Controller_Laws
  imports Controllers
begin

text \<open>
  What the creation of the controllers establishes: when it succeeds, the operations of the
  router it leaves, and what the functions shared by the classes carry from one to the next.
\<close>

subsection \<open>The actions a class registers\<close>

definition mixins_before :: "ancestor list \<Rightarrow> mixin list" where
  "mixins_before as = List.map_filter (\<lambda>a. case a of Mixin x \<Rightarrow> Some x | _ \<Rightarrow> None) (takeWhile (\<lambda>a. a \<noteq> BaseCtl) as)"

definition chained :: "controller \<Rightarrow> string option \<Rightarrow> mixin list" where
  "chained c model = filter (mixin_registers c model) (mixins_before (ct_mro c))"

definition registered_actions :: "controller \<Rightarrow> string option \<Rightarrow> route_action list" where
  "registered_actions c model = concat (map mixin_actions (chained c model))"

definition action_mixin :: "route_action \<Rightarrow> mixin" where
  "action_mixin act =
     (case act of RList \<Rightarrow> MList | RRetrieve \<Rightarrow> MRetrieve | RCreate \<Rightarrow> MCreate | RDefaultValues \<Rightarrow> MCreate
      | RUpdate \<Rightarrow> MUpdate | RDelete \<Rightarrow> MDelete | RResequence \<Rightarrow> MResequence | RDisplayName \<Rightarrow> MDisplayName
      | RGroupBy \<Rightarrow> MGroupBy)"

definition class_scopes :: "controller \<Rightarrow> route_action \<Rightarrow> string list option" where
  "class_scopes c act = (case class_decorators c (action_mixin act) act of Inl e \<Rightarrow> None | Inr s \<Rightarrow> s)"

text \<open>A class whose mixins are used the way they ask.\<close>

definition configured :: "controller \<Rightarrow> string option \<Rightarrow> bool" where
  "configured c model \<longleftrightarrow> (\<forall>x \<in> set (chained c model). \<not> mixin_refuses c x)
     \<and> (\<forall>act \<in> set (registered_actions c model). is_inr (class_decorators c (action_mixin act) act))"

lemma mixin_actions_iff [simp]: "act \<in> set (mixin_actions x) \<longleftrightarrow> action_mixin act = x"
  by (cases act; cases x) (simp_all add: action_mixin_def)

lemma distinct_mixin_actions [simp]: "distinct (mixin_actions x)"
  by (cases x) simp_all

lemma view_name_inj [simp]: "view_name a = view_name b \<longleftrightarrow> a = b"
  by (cases a; cases b) simp_all

lemma view_name_mem [simp]: "view_name a \<in> view_name ` S \<longleftrightarrow> a \<in> S"
  by auto

lemma inj_view_name [simp]: "inj_on view_name A"
  by (simp add: inj_on_def)

lemma class_attr_inj [simp]: "class_attr c n = class_attr c n' \<longleftrightarrow> n = n'"
  by (auto simp: class_attr_def)

lemma registered_actions_iff: "act \<in> set (registered_actions c model) \<longleftrightarrow> action_mixin act \<in> set (chained c model)"
  by (auto simp: registered_actions_def)

lemma mixins_before_simps [simp]:
  "mixins_before [] = []"
  "mixins_before (a # as) =
     (case a of BaseCtl \<Rightarrow> [] | ScopesMixin \<Rightarrow> mixins_before as | Mixin x \<Rightarrow> x # mixins_before as)"
  by (simp_all add: mixins_before_def List.map_filter_simps split: ancestor.split)

lemma mixins_before_mem: "x \<in> set (mixins_before as) \<Longrightarrow> Mixin x \<in> set as"
  by (induction as) (auto split: ancestor.splits)

lemma distinct_mixins_before: "distinct as \<Longrightarrow> distinct (mixins_before as)"
  by (induction as) (auto split: ancestor.split dest: mixins_before_mem)

lemma distinct_chained: "distinct (ct_mro c) \<Longrightarrow> distinct (chained c model)"
  by (simp add: chained_def distinct_mixins_before)

lemma distinct_actions: "distinct xs \<Longrightarrow> distinct (concat (map mixin_actions xs))"
  by (induction xs) auto

lemma distinct_registered: "distinct (ct_mro c) \<Longrightarrow> distinct (registered_actions c model)"
  by (simp add: registered_actions_def distinct_actions distinct_chained)

subsection \<open>What the registrations of a class leave\<close>

definition action_route :: "controller \<Rightarrow> string \<Rightarrow> route_action \<Rightarrow> route" where
  "action_route c m act =
     \<lparr>ro_path = action_path act, ro_methods = [action_method act], ro_response = action_response c m act,
      ro_scopes = class_scopes c act, ro_exclude_unset = act \<in> {RList, RDefaultValues, RGroupBy}, ro_tags = [m],
      ro_controller = Some (ct_name c)\<rparr>"

definition register_action :: "(string \<Rightarrow> string list) \<Rightarrow> controller \<Rightarrow> string \<Rightarrow> route_action \<Rightarrow> api \<times> string list \<Rightarrow> api \<times> string list" where
  "register_action params c m act = method_to_route_function params c m (class_scopes c act) act"

abbreviation action_writes :: "(string \<Rightarrow> string list) \<Rightarrow> controller \<Rightarrow> string \<Rightarrow> route_action \<Rightarrow> (string \<times> annotation) list" where
  "action_writes params c m act \<equiv>
     (''path_parameters'', default_path_schema params c (action_path act)) # action_annotations c m act"

lemma annotate_simps [simp]:
  "api_routes (annotate f new w) = api_routes w"
  "api_routers (annotate f new w) = api_routers w"
  "annotations_of (annotate f new w) g = (if g = f then fold (\<lambda>(k, a). dict_put k a) new (annotations_of w f) else annotations_of w g)"
  by (simp_all add: annotate_def annotations_of_def)

lemma annotations_of_routes [simp]: "annotations_of (w\<lparr>api_routes := x\<rparr>) f = annotations_of w f"
  by (simp add: annotations_of_def)

lemma register_action_simps:
  "dict_get (api_routes (fst (register_action params c m act (w, names)))) f =
     (if f = class_attr c (view_name act) then Some (action_route c m act) else dict_get (api_routes w) f)"
  "snd (register_action params c m act (w, names)) = (if view_name act \<in> set names then names else names @ [view_name act])"
  "api_routers (fst (register_action params c m act (w, names))) = api_routers w"
  "annotations_of (fst (register_action params c m act (w, names))) f =
     (if f = class_attr c (view_name act) then fold (\<lambda>(k, a). dict_put k a) (action_writes params c m act) (annotations_of w f)
      else annotations_of w f)"
  by (auto simp: register_action_def method_to_route_function_def Let_def action_route_def)

lemma register_actions_Inr:
  "(\<forall>act \<in> set acts. action_mixin act = x) \<Longrightarrow>
   register_actions params c m x acts s = Inr s'
     \<longleftrightarrow> (\<forall>act \<in> set acts. is_inr (class_decorators c x act)) \<and> s' = fold (register_action params c m) acts s"
proof (induction acts arbitrary: s)
  case (Cons act acts)
  then show ?case
    by (cases "class_decorators c x act") (auto simp: register_action_def class_scopes_def)
qed auto

lemma add_routes_to_Inr:
  assumes "BaseCtl \<in> set as" "m = (case model of None \<Rightarrow> [] | Some m \<Rightarrow> m)"
  shows "add_routes_to params c model as s = Inr w'
     \<longleftrightarrow> (\<forall>x \<in> set (filter (mixin_registers c model) (mixins_before as)).
           \<not> mixin_refuses c x \<and> (\<forall>act. action_mixin act = x \<longrightarrow> is_inr (class_decorators c x act)))
       \<and> base_add_routes c (fold (register_action params c m)
            (concat (map mixin_actions (filter (mixin_registers c model) (mixins_before as)))) s) = Inr w'"
  using assms(1)
proof (induction as arbitrary: s)
  case (Cons a as)
  show ?case
  proof (cases a)
    case (Mixin x)
    show ?thesis
    proof (cases "mixin_registers c model x")
      case True
      then obtain m' where m': "model = Some m'" by (auto simp: mixin_registers_def)
      have "mixin_add_routes params c model x s = Inr s'
        \<longleftrightarrow> \<not> mixin_refuses c x \<and> (\<forall>act. action_mixin act = x \<longrightarrow> is_inr (class_decorators c x act))
            \<and> s' = fold (register_action params c m) (mixin_actions x) s" for s'
        using True m' assms(2) register_actions_Inr [of "mixin_actions x" x params c m s s']
        by (auto simp: mixin_add_routes_def)
      with True Cons Mixin show ?thesis by auto
    next
      case False
      then have "mixin_add_routes params c model x s = Inr s"
        by (auto simp: mixin_add_routes_def split: option.split)
      with False Cons Mixin show ?thesis by auto
    qed
  qed (use Cons in auto)
qed simp

lemma run_snd:
  "snd (fold (register_action params c m) acts (w, names)) = names @ filter (\<lambda>n. n \<notin> set names) (map view_name acts)"
  if "distinct acts"
  using that
proof (induction acts arbitrary: w names)
  case (Cons act acts)
  obtain w1 names1 where s: "register_action params c m act (w, names) = (w1, names1)" by fastforce
  with register_action_simps(2) [of params c m act w names]
  have n: "names1 = (if view_name act \<in> set names then names else names @ [view_name act])" by simp
  have "filter (\<lambda>n. n \<notin> set (names @ [view_name act])) (map view_name acts) = filter (\<lambda>n. n \<notin> set names) (map view_name acts)"
    using Cons.prems by (intro filter_cong) auto
  with Cons s n show ?case by auto
qed simp

lemma run_routes:
  "distinct acts \<Longrightarrow> dict_get (api_routes (fst (fold (register_action params c m) acts (w, names)))) f =
     (case find (\<lambda>act. f = class_attr c (view_name act)) acts of
        Some act \<Rightarrow> Some (action_route c m act) | None \<Rightarrow> dict_get (api_routes w) f)"
proof (induction acts arbitrary: w names)
  case (Cons act acts)
  obtain w1 names1 where s: "register_action params c m act (w, names) = (w1, names1)" by fastforce
  with register_action_simps(1) [of params c m act w names f]
  have r: "dict_get (api_routes w1) f = (if f = class_attr c (view_name act) then Some (action_route c m act) else dict_get (api_routes w) f)"
    by simp
  have "find (\<lambda>act'. f = class_attr c (view_name act')) acts = None" if "f = class_attr c (view_name act)"
    using Cons.prems that by (auto simp: find_None_iff)
  with Cons s r show ?case by (auto split: option.split)
qed simp

lemma run_annotations:
  "distinct acts \<Longrightarrow> annotations_of (fst (fold (register_action params c m) acts (w, names))) f =
     (case find (\<lambda>act. f = class_attr c (view_name act)) acts of
        Some act \<Rightarrow> fold (\<lambda>(k, a). dict_put k a) (action_writes params c m act) (annotations_of w f)
      | None \<Rightarrow> annotations_of w f)"
proof (induction acts arbitrary: w names)
  case (Cons act acts)
  obtain w1 names1 where s: "register_action params c m act (w, names) = (w1, names1)" by fastforce
  with register_action_simps(4) [of params c m act w names f]
  have r: "annotations_of w1 f = (if f = class_attr c (view_name act)
      then fold (\<lambda>(k, a). dict_put k a) (action_writes params c m act) (annotations_of w f) else annotations_of w f)"
    by simp
  have "find (\<lambda>act'. f = class_attr c (view_name act')) acts = None" if "f = class_attr c (view_name act)"
    using Cons.prems that by (auto simp: find_None_iff)
  with Cons s r show ?case by (auto simp del: fold_simps(2) split: option.split)
qed simp

subsection \<open>The order of a class dictionary\<close>

lemma index_of_Cons: "index_of (x # xs) y = (if y = x then 0 else Suc (index_of xs y))"
  by (auto simp: index_of_def)

lemma index_of_nth: "distinct xs \<Longrightarrow> i < length xs \<Longrightarrow> index_of xs (xs ! i) = i"
  by (induction xs arbitrary: i) (auto simp: index_of_Cons nth_Cons split: nat.split)

lemma map_index_of: "distinct xs \<Longrightarrow> map (index_of xs) xs = [0..<length xs]"
  by (rule nth_equalityI) (auto simp: index_of_nth)

lemma inj_index_of: "distinct xs \<Longrightarrow> inj_on (index_of xs) (set xs)"
  using map_index_of [of xs] distinct_map [of "index_of xs" xs] by simp

lemma sort_index_of:
  assumes "distinct names" "distinct xs" "set xs \<subseteq> set names"
  shows "sort_key (index_of names) xs = filter (\<lambda>n. n \<in> set xs) names"
proof (rule map_sorted_distinct_set_unique [of "index_of names"])
  note inj = inj_on_subset [OF inj_index_of [OF assms(1)]]
  show "inj_on (index_of names) (set (sort_key (index_of names) xs) \<union> set (filter (\<lambda>n. n \<in> set xs) names))"
    using assms(3) by (intro inj) auto
  show "sorted (map (index_of names) (filter (\<lambda>n. n \<in> set xs) names))"
    using assms(1) by (intro sorted_filter) (simp add: map_index_of)
  show "distinct (map (index_of names) (sort_key (index_of names) xs))"
    using assms by (auto simp: distinct_map intro!: inj)
  show "distinct (map (index_of names) (filter (\<lambda>n. n \<in> set xs) names))"
    using assms by (auto simp: distinct_map intro!: inj)
qed (use assms in auto)

subsection \<open>The router of a class\<close>

definition fresh_class :: "api \<Rightarrow> controller \<Rightarrow> bool" where
  "fresh_class w c \<longleftrightarrow> distinct (ct_mro c) \<and> BaseCtl \<in> set (ct_mro c) \<and> distinct (ct_body c)
     \<and> distinct (map fst (ct_routes c)) \<and> fst ` set (ct_routes c) \<subseteq> set (ct_body c)
     \<and> (\<forall>n. dict_get (api_routes w) (OwnFunc (ct_name c) n) = None)"

text \<open>The views a class inherits and does not define.\<close>

definition inherited :: "controller \<Rightarrow> route_action \<Rightarrow> bool" where
  "inherited c act \<longleftrightarrow> Mixin (action_mixin act) \<in> set (ct_mro c) \<and> view_name act \<notin> set (ct_body c)"

lemma class_members_iff: "n \<in> set (class_members c) \<longleftrightarrow> n \<in> set (ct_body c) \<or> (\<exists>act. n = view_name act \<and> inherited c act)"
proof -
  have "n \<in> set (case a of Mixin m \<Rightarrow> map view_name (mixin_actions m) | _ \<Rightarrow> []) \<longleftrightarrow> (\<exists>act. n = view_name act \<and> a = Mixin (action_mixin act))" for a
    by (cases a) auto
  then show ?thesis by (auto simp: class_members_def inherited_def)
qed

lemma distinct_members: "distinct (class_members c)"
  by (simp add: class_members_def)

lemma registered_inherited:
  assumes "act \<in> set (registered_actions c model)"
  shows "inherited c act \<or> view_name act \<in> set (ct_body c)"
proof -
  from assms have "action_mixin act \<in> set (mixins_before (ct_mro c))"
    by (simp add: registered_actions_iff chained_def)
  then show ?thesis unfolding inherited_def using mixins_before_mem by blast
qed

lemma class_body_routes:
  assumes "distinct (map fst (ct_routes c))"
  shows "dict_get (api_routes (class_body c w)) f =
     (case f of MixinFunc n \<Rightarrow> dict_get (api_routes w) f
      | OwnFunc k n \<Rightarrow> if k = ct_name c \<and> n \<in> fst ` set (ct_routes c) then dict_get (ct_routes c) n else dict_get (api_routes w) f)"
proof -
  have "dict_get (fold (\<lambda>(n, r). dict_put (OwnFunc k n) r) rs d) f =
     (case f of MixinFunc n \<Rightarrow> dict_get d f
      | OwnFunc k' n \<Rightarrow> if k' = k \<and> n \<in> fst ` set rs then dict_get rs n else dict_get d f)"
    if "distinct (map fst rs)" for k and rs :: "(string \<times> route) list" and d
    using that
  proof (induction rs arbitrary: d)
    case (Cons r rs)
    then show ?case by (cases r; cases f) (auto simp: rev_image_eqI)
  qed (simp split: func.split)
  from this [OF assms] show ?thesis by (simp add: class_body_def)
qed

text \<open>The class dictionary after the registrations, and the functions that carry a route then.\<close>

definition class_names :: "controller \<Rightarrow> string option \<Rightarrow> string list" where
  "class_names c model = ct_body c @ filter (\<lambda>n. n \<notin> set (ct_body c)) (map view_name (registered_actions c model))"

definition routed :: "api \<Rightarrow> controller \<Rightarrow> string option \<Rightarrow> string \<Rightarrow> bool" where
  "routed w c model n \<longleftrightarrow> n \<in> view_name ` set (registered_actions c model) \<or> n \<in> fst ` set (ct_routes c)
     \<or> (n \<notin> set (ct_body c) \<and> dict_get (api_routes w) (MixinFunc n) \<noteq> None)"

definition class_run :: "(string \<Rightarrow> string list) \<Rightarrow> controller \<Rightarrow> string option \<Rightarrow> api \<Rightarrow> api" where
  "class_run params c model w =
     fst (fold (register_action params c (case model of None \<Rightarrow> [] | Some m \<Rightarrow> m)) (registered_actions c model) (class_body c w, ct_body c))"

lemma class_run_routed:
  assumes "fresh_class w c"
  shows "dict_get (api_routes (class_run params c model w)) (class_attr c n) \<noteq> None \<longleftrightarrow> routed w c model n"
proof -
  have d: "distinct (registered_actions c model)" using assms by (simp add: fresh_class_def distinct_registered)
  have "find (\<lambda>act. n = view_name act) acts = None \<longleftrightarrow> n \<notin> view_name ` set acts" for acts
    by (auto simp: find_None_iff)
  moreover have "dict_get (api_routes (class_body c w)) (class_attr c n) \<noteq> None
      \<longleftrightarrow> n \<in> fst ` set (ct_routes c) \<or> (n \<notin> set (ct_body c) \<and> dict_get (api_routes w) (MixinFunc n) \<noteq> None)"
  proof -
    have "dict_get (ct_routes c) n \<noteq> None \<longleftrightarrow> n \<in> fst ` set (ct_routes c)" by (simp add: map_of_eq_None_iff)
    with assms show ?thesis by (auto simp: class_body_routes fresh_class_def class_attr_def)
  qed
  ultimately show ?thesis
    unfolding class_run_def run_routes [OF d] routed_def
    by (auto simp: option.case_eq_if)
qed

text \<open>Every member that carries a route is in the class dictionary.\<close>

definition nothing_left_over :: "api \<Rightarrow> controller \<Rightarrow> string option \<Rightarrow> bool" where
  "nothing_left_over w c model \<longleftrightarrow>
     (\<forall>act. inherited c act \<and> act \<notin> set (registered_actions c model) \<longrightarrow> dict_get (api_routes w) (MixinFunc (view_name act)) = None)"

lemma base_add_routes_Inr:
  assumes "fresh_class w c"
  shows "base_add_routes c (fold (register_action params c (case model of None \<Rightarrow> [] | Some m \<Rightarrow> m)) (registered_actions c model)
           (class_body c w, ct_body c)) = Inr w'
     \<longleftrightarrow> nothing_left_over w c model
       \<and> w' = (class_run params c model w)\<lparr>api_routers := dict_put (ct_name c)
              (map (add_operation c (class_run params c model w)) (filter (routed w c model) (class_names c model)))
              (api_routers (class_run params c model w))\<rparr>"
proof -
  let ?run = "fold (register_action params c (case model of None \<Rightarrow> [] | Some m \<Rightarrow> m)) (registered_actions c model) (class_body c w, ct_body c)"
  have d: "distinct (registered_actions c model)" using assms by (simp add: fresh_class_def distinct_registered)
  have run: "?run = (class_run params c model w, class_names c model)"
    by (simp add: class_run_def class_names_def prod_eq_iff run_snd [OF d])
  let ?members = "filter (routed w c model) (class_members c)"
  have body: "n \<in> set (ct_body c)" if "(n, r) \<in> set (ct_routes c)" for n r
    using assms that by (force simp: fresh_class_def)
  have left: "find (\<lambda>n. n \<notin> set (class_names c model)) ?members = None \<longleftrightarrow> nothing_left_over w c model"
    by (auto simp: find_None_iff class_members_iff class_names_def nothing_left_over_def routed_def inherited_def dest: body)
  have sub: "set ?members \<subseteq> set (class_names c model)" if "nothing_left_over w c model"
    using that unfolding left [symmetric] by (auto simp: find_None_iff)
  have keep: "filter (\<lambda>n. n \<in> set ?members) (class_names c model) = filter (routed w c model) (class_names c model)"
    using registered_inherited [of _ c model]
    by (intro filter_cong) (auto simp: class_members_iff class_names_def)
  have "distinct (class_names c model)"
    using assms d by (auto simp: class_names_def fresh_class_def distinct_map intro: distinct_filter)
  with sub have "sort_key (index_of (class_names c model)) ?members = filter (routed w c model) (class_names c model)"
    if "nothing_left_over w c model"
    using that distinct_members by (simp only: sort_index_of keep distinct_filter)
  with left show ?thesis
    unfolding run base_add_routes_def prod.case class_run_routed [OF assms]
    by (auto split: option.split)
qed

lemma create_controller_Inr:
  assumes "fresh_class w c"
  shows "is_inr (create_controller params c w)
     \<longleftrightarrow> (\<exists>model. class_model c = Inr model \<and> configured c model \<and> nothing_left_over w c model)"
    and "create_controller params c w = Inr w' \<Longrightarrow> \<exists>model. class_model c = Inr model
     \<and> api_routes w' = api_routes (class_run params c model w) \<and> api_annotations w' = api_annotations (class_run params c model w)
     \<and> dict_get (api_routers w') (ct_name c) = Some (map (add_operation c (class_run params c model w)) (filter (routed w c model) (class_names c model)))"
proof -
  let ?m = "\<lambda>model. case model of None \<Rightarrow> [] | Some m \<Rightarrow> m"
  have chain: "BaseCtl \<in> set (ct_mro c)" using assms by (simp add: fresh_class_def)
  have conf: "configured c model \<longleftrightarrow> (\<forall>x \<in> set (filter (mixin_registers c model) (mixins_before (ct_mro c))).
      \<not> mixin_refuses c x \<and> (\<forall>act. action_mixin act = x \<longrightarrow> is_inr (class_decorators c x act)))" for model
    by (auto simp: configured_def registered_actions_iff chained_def)
  note run = add_routes_to_Inr [OF chain refl, of params c _ "(class_body c w, ct_body c)", folded conf chained_def registered_actions_def,
      unfolded base_add_routes_Inr [OF assms]]
  have mounted: "is_inr (result_bind r (\<lambda>w1. Inr (f w1))) \<longleftrightarrow> (\<exists>w1. r = Inr w1)" for r :: "registration_error + api" and f :: "api \<Rightarrow> api"
    by (cases r) auto
  show "is_inr (create_controller params c w)
     \<longleftrightarrow> (\<exists>model. class_model c = Inr model \<and> configured c model \<and> nothing_left_over w c model)"
  proof (cases "class_model c")
    case (Inr model)
    then show ?thesis unfolding create_controller_def by (simp add: mounted run)
  qed (simp add: create_controller_def)
  show "create_controller params c w = Inr w' \<Longrightarrow> \<exists>model. class_model c = Inr model
     \<and> api_routes w' = api_routes (class_run params c model w) \<and> api_annotations w' = api_annotations (class_run params c model w)
     \<and> dict_get (api_routers w') (ct_name c) = Some (map (add_operation c (class_run params c model w)) (filter (routed w c model) (class_names c model)))"
    by (auto simp: create_controller_def run add_tag_group_def Let_def split: if_splits)
qed

end
