(* ===== verification/Controller_Import.thy ===== *)
theory Controller_Import
  imports Controller_Laws
begin

text \<open>
  The properties of the import of the controllers: what a class registers, when its creation
  raises, and which query parameters a list takes from the classes created before it.
\<close>

subsection \<open>One class\<close>

abbreviation model_name :: "string option \<Rightarrow> string" where
  "model_name model \<equiv> (case model of None \<Rightarrow> [] | Some m \<Rightarrow> m)"

definition class_wf :: "controller \<Rightarrow> bool" where
  "class_wf c \<longleftrightarrow> distinct (ct_mro c) \<and> BaseCtl \<in> set (ct_mro c) \<and> distinct (ct_body c)
     \<and> distinct (map fst (ct_routes c)) \<and> fst ` set (ct_routes c) \<subseteq> set (ct_body c)"

lemma fresh_class_iff: "fresh_class w c \<longleftrightarrow> class_wf c \<and> (\<forall>n. dict_get (api_routes w) (OwnFunc (ct_name c) n) = None)"
  by (auto simp: fresh_class_def class_wf_def)

lemma find_attr:
  "distinct acts \<Longrightarrow> act \<in> set acts \<Longrightarrow> find (\<lambda>a. class_attr c (view_name act) = class_attr c (view_name a)) acts = Some act"
  by (induction acts) auto

lemma find_attr_None:
  "(\<forall>act \<in> set acts. f \<noteq> class_attr c (view_name act)) \<Longrightarrow> find (\<lambda>a. f = class_attr c (view_name a)) acts = None"
  by (auto simp: find_None_iff)

lemma class_run_route:
  assumes "fresh_class w c" "act \<in> set (registered_actions c model)"
  shows "dict_get (api_routes (class_run params c model w)) (class_attr c (view_name act)) = Some (action_route c (model_name model) act)"
proof -
  have "distinct (registered_actions c model)" using assms(1) by (simp add: fresh_class_def distinct_registered)
  then show ?thesis by (simp only: class_run_def run_routes find_attr [OF _ assms(2)] option.case)
qed


subsection \<open>A sequence of classes\<close>

definition program_wf :: "controller list \<Rightarrow> bool" where
  "program_wf cs \<longleftrightarrow> distinct (map ct_name cs) \<and> list_all class_wf cs"

text \<open>The functions of the mixins a class puts its routes on.\<close>

definition shared_views :: "controller \<Rightarrow> string list" where
  "shared_views c =
     (case class_model c of
        Inl e \<Rightarrow> []
      | Inr model \<Rightarrow> filter (\<lambda>n. n \<notin> set (ct_body c)) (map view_name (registered_actions c model)))"

definition last_list_filter :: "controller list \<Rightarrow> string option" where
  "last_list_filter cs =
     fold (\<lambda>c f. if ''list'' \<in> set (shared_views c) \<and> ct_list_filter c \<noteq> None then ct_list_filter c else f) cs None"

lemma import_snoc:
  "import_controllers params (cs @ [c]) w = result_bind (import_controllers params cs w) (create_controller params c)"
proof (induction cs arbitrary: w)
  case Nil
  then show ?case by (cases "create_controller params c w") auto
next
  case (Cons c' cs)
  then show ?case by (cases "create_controller params c' w") auto
qed

definition import_inv :: "controller list \<Rightarrow> api \<Rightarrow> bool" where
  "import_inv cs w \<longleftrightarrow>
     (\<forall>act. dict_get (api_routes w) (MixinFunc (view_name act)) \<noteq> None \<longleftrightarrow> (\<exists>c \<in> set cs. view_name act \<in> set (shared_views c)))
   \<and> (\<forall>k n. k \<notin> ct_name ` set cs \<longrightarrow> dict_get (api_routes w) (OwnFunc k n) = None)
   \<and> dict_get (annotations_of w (MixinFunc ''list'')) ''query_parameters'' = map_option QuerySchema (last_list_filter cs)"

lemma class_run_mixin:
  assumes "fresh_class w c"
  shows "dict_get (api_routes (class_run params c model w)) (MixinFunc (view_name act)) =
     (if act \<in> set (registered_actions c model) \<and> view_name act \<notin> set (ct_body c)
      then Some (action_route c (model_name model) act) else dict_get (api_routes w) (MixinFunc (view_name act)))"
proof -
  have d: "distinct (registered_actions c model)" "distinct (map fst (ct_routes c))"
    using assms by (simp_all add: fresh_class_def distinct_registered)
  show ?thesis
  proof (cases "act \<in> set (registered_actions c model) \<and> view_name act \<notin> set (ct_body c)")
    case True
    then have "class_attr c (view_name act) = MixinFunc (view_name act)" by (simp add: class_attr_def)
    with True class_run_route [OF assms, of act model params] show ?thesis by simp
  next
    case False
    then have "find (\<lambda>a. MixinFunc (view_name act) = class_attr c (view_name a)) (registered_actions c model) = None"
      by (intro find_attr_None) (auto simp: class_attr_def)
    with False show ?thesis by (auto simp: class_run_def run_routes [OF d(1)] class_body_routes [OF d(2)])
  qed
qed

lemma class_run_own:
  assumes "fresh_class w c" "k \<noteq> ct_name c"
  shows "dict_get (api_routes (class_run params c model w)) (OwnFunc k n) = dict_get (api_routes w) (OwnFunc k n)"
proof -
  have d: "distinct (registered_actions c model)" "distinct (map fst (ct_routes c))"
    using assms by (simp_all add: fresh_class_def distinct_registered)
  have "find (\<lambda>a. OwnFunc k n = class_attr c (view_name a)) (registered_actions c model) = None"
    using assms(2) by (intro find_attr_None) (auto simp: class_attr_def)
  with assms(2) show ?thesis by (simp add: class_run_def run_routes [OF d(1)] class_body_routes [OF d(2)])
qed

lemma class_run_list:
  assumes "fresh_class w c" "class_model c = Inr model"
  shows "dict_get (annotations_of (class_run params c model w) (MixinFunc ''list'')) ''query_parameters'' =
     (if ''list'' \<in> set (shared_views c) \<and> ct_list_filter c \<noteq> None then map_option QuerySchema (ct_list_filter c)
      else dict_get (annotations_of w (MixinFunc ''list'')) ''query_parameters'')"
proof -
  have d: "distinct (registered_actions c model)" using assms by (simp add: fresh_class_def distinct_registered)
  have body: "annotations_of (class_body c w) f = annotations_of w f" for f by (simp add: class_body_def)
  have shared: "''list'' \<in> set (shared_views c) \<longleftrightarrow> RList \<in> set (registered_actions c model) \<and> ''list'' \<notin> set (ct_body c)"
    using assms(2) view_name_mem [of RList "set (registered_actions c model)"] by (auto simp: shared_views_def)
  show ?thesis
  proof (cases "''list'' \<in> set (shared_views c)")
    case True
    with shared have reg: "RList \<in> set (registered_actions c model)" "class_attr c ''list'' = MixinFunc ''list''"
      by (simp_all add: class_attr_def)
    then have "find (\<lambda>a. MixinFunc ''list'' = class_attr c (view_name a)) (registered_actions c model) = Some RList"
      using find_attr [OF d reg(1), of c] by simp
    with True show ?thesis
      by (simp add: class_run_def run_annotations [OF d] body split: option.split)
  next
    case False
    have "find (\<lambda>a. MixinFunc ''list'' = class_attr c (view_name a)) (registered_actions c model) = None"
    proof (rule find_attr_None, safe)
      fix act assume "act \<in> set (registered_actions c model)" "MixinFunc ''list'' = class_attr c (view_name act)"
      then have "act \<in> set (registered_actions c model)" "view_name act = view_name RList" "''list'' \<notin> set (ct_body c)"
        by (auto simp: class_attr_def split: if_splits)
      with False shared show False by (simp only: view_name_inj) simp
    qed
    with False show ?thesis by (simp add: class_run_def run_annotations [OF d] body)
  qed
qed

lemma import_inv_step:
  assumes "import_inv cs w" "program_wf (cs @ [c])" "create_controller params c w = Inr w'"
  shows "import_inv (cs @ [c]) w'"
proof -
  have own: "ct_name c \<notin> ct_name ` set cs" and "class_wf c" using assms(2) by (auto simp: program_wf_def)
  with assms(1) have fresh: "fresh_class w c" by (auto simp: fresh_class_iff import_inv_def)
  from create_controller_Inr(2) [OF this assms(3)] obtain model where
    model: "class_model c = Inr model" "api_routes w' = api_routes (class_run params c model w)"
    "api_annotations w' = api_annotations (class_run params c model w)" by blast
  then have ann: "annotations_of w' f = annotations_of (class_run params c model w) f" for f by (simp add: annotations_of_def)
  have shared: "view_name act \<in> set (shared_views c) \<longleftrightarrow> act \<in> set (registered_actions c model) \<and> view_name act \<notin> set (ct_body c)" for act
    using model(1) by (auto simp: shared_views_def)
  show ?thesis
    unfolding import_inv_def model(2) ann
  proof (intro conjI allI impI)
    fix act
    show "dict_get (api_routes (class_run params c model w)) (MixinFunc (view_name act)) \<noteq> None
        \<longleftrightarrow> (\<exists>c' \<in> set (cs @ [c]). view_name act \<in> set (shared_views c'))"
      using assms(1) unfolding class_run_mixin [OF fresh] import_inv_def by (auto simp: shared)
  next
    fix k n assume "k \<notin> ct_name ` set (cs @ [c])"
    then show "dict_get (api_routes (class_run params c model w)) (OwnFunc k n) = None"
      using assms(1) class_run_own [OF fresh] by (simp add: import_inv_def)
  next
    show "dict_get (annotations_of (class_run params c model w) (MixinFunc ''list'')) ''query_parameters''
        = map_option QuerySchema (last_list_filter (cs @ [c]))"
      using assms(1) class_run_list [OF fresh model(1), of params] by (auto simp: import_inv_def last_list_filter_def)
  qed
qed

lemma import_inv_import:
  "import_controllers params cs empty_api = Inr w \<Longrightarrow> program_wf cs \<Longrightarrow> import_inv cs w"
proof (induction cs arbitrary: w rule: rev_induct)
  case Nil
  then show ?case by (auto simp: import_inv_def empty_api_def annotations_of_def last_list_filter_def)
next
  case (snoc c cs)
  from snoc.prems(1) obtain w1 where "import_controllers params cs empty_api = Inr w1" "create_controller params c w1 = Inr w"
    by (auto simp: import_snoc)
  moreover have "program_wf cs" using snoc.prems(2) by (simp add: program_wf_def)
  ultimately show ?case using snoc.IH import_inv_step [OF _ snoc.prems(2)] by blast
qed

text \<open>
  C23: after the controllers imported so far, a new one is created exactly when it agrees with its
  service, its mixins find what they ask and, for every view it inherits without registering it
  or defining its own, no earlier controller registered that view: whether a class can be
  imported depends on the classes before it.
\<close>

theorem controller_import_decided:
  assumes "program_wf (cs @ [c])" "import_controllers params cs empty_api = Inr w"
  shows "is_inr (create_controller params c w) \<longleftrightarrow>
    (\<exists>model. class_model c = Inr model \<and> configured c model
       \<and> (\<forall>act. inherited c act \<and> act \<notin> set (registered_actions c model) \<longrightarrow> (\<forall>c' \<in> set cs. view_name act \<notin> set (shared_views c'))))"
proof -
  have "program_wf cs" using assms(1) by (simp add: program_wf_def)
  with assms(2) have inv: "import_inv cs w" by (rule import_inv_import)
  have "ct_name c \<notin> ct_name ` set cs" "class_wf c" using assms(1) by (auto simp: program_wf_def)
  with inv have fresh: "fresh_class w c" by (auto simp: fresh_class_iff import_inv_def)
  have "nothing_left_over w c model \<longleftrightarrow>
    (\<forall>act. inherited c act \<and> act \<notin> set (registered_actions c model) \<longrightarrow> (\<forall>c' \<in> set cs. view_name act \<notin> set (shared_views c')))" for model
    using inv unfolding nothing_left_over_def import_inv_def by blast
  then show ?thesis unfolding create_controller_Inr(1) [OF fresh] by simp
qed

text \<open>
  The list of a controller takes the query parameters of its own filter schema or, when it
  has none, those of the last controller created before it that has one.
\<close>

theorem list_takes_the_last_filters:
  assumes "program_wf (cs @ [c])" "import_controllers params (cs @ [c]) empty_api = Inr w" "''list'' \<in> set (shared_views c)"
  shows "\<exists>ops op. dict_get (api_routers w) (ct_name c) = Some ops \<and> op \<in> set ops \<and> op_view op = ''list''
    \<and> dict_get (op_parameters op) ''query_parameters''
        = map_option QuerySchema (case ct_list_filter c of Some f \<Rightarrow> Some f | None \<Rightarrow> last_list_filter cs)"
proof -
  from assms(2) obtain w1 where w1: "import_controllers params cs empty_api = Inr w1" and create: "create_controller params c w1 = Inr w"
    by (auto simp: import_snoc)
  have "program_wf cs" using assms(1) by (simp add: program_wf_def)
  with w1 have inv: "import_inv cs w1" by (rule import_inv_import)
  have "ct_name c \<notin> ct_name ` set cs" "class_wf c" using assms(1) by (auto simp: program_wf_def)
  with inv have fresh: "fresh_class w1 c" by (auto simp: fresh_class_iff import_inv_def)
  from create_controller_Inr(2) [OF this create] obtain model where model: "class_model c = Inr model"
    and ops: "dict_get (api_routers w) (ct_name c)
      = Some (map (add_operation c (class_run params c model w1)) (filter (routed w1 c model) (class_names c model)))" by blast
  from assms(3) model have reg: "''list'' \<in> view_name ` set (registered_actions c model)" "''list'' \<notin> set (ct_body c)"
    by (auto simp: shared_views_def)
  then have "''list'' \<in> set (filter (routed w1 c model) (class_names c model))"
    by (auto simp: routed_def class_names_def)
  then have "add_operation c (class_run params c model w1) ''list''
      \<in> set (map (add_operation c (class_run params c model w1)) (filter (routed w1 c model) (class_names c model)))" by simp
  moreover have "op_parameters (add_operation c (class_run params c model w1) ''list'') = annotations_of (class_run params c model w1) (MixinFunc ''list'')"
    using reg(2) by (simp add: add_operation_def Let_def class_attr_def)
  moreover have "dict_get (annotations_of (class_run params c model w1) (MixinFunc ''list'')) ''query_parameters''
      = map_option QuerySchema (case ct_list_filter c of Some f \<Rightarrow> Some f | None \<Rightarrow> last_list_filter cs)"
    using class_run_list [OF fresh model, of params] assms(3) inv by (auto simp: import_inv_def split: option.split)
  ultimately show ?thesis using ops by (auto simp: add_operation_def Let_def)
qed


subsection \<open>A program of controllers\<close>

definition id_params :: "string \<Rightarrow> string list" where
  "id_params path = (if path = ''/users/{id}/'' then [''id''] else [])"

definition plain_controller :: "string \<Rightarrow> string option \<Rightarrow> string option \<Rightarrow> controller" where
  "plain_controller name list_filter create =
     \<lparr>ct_name = name, ct_body = [''current''],
      ct_routes = [(''current'', \<lparr>ro_path = ''/current/'', ro_methods = [''GET''], ro_response = [(200, None)], ro_scopes = None,
         ro_exclude_unset = False, ro_tags = [], ro_controller = None\<rparr>)],
      ct_mro = ScopesMixin # model_controller,
      ct_service = Some \<lparr>srv_name = name @ ''Service'', srv_model = name, srv_resequence = False, srv_dimensions = False\<rparr>,
      ct_declared_model = None, ct_mounted = True, ct_path_prefix = ''/users'', ct_path_model = None,
      ct_permission_map = [(''read'', [''totem.user.read''])], ct_tag_group = ''Users'',
      ct_list_response = Some ''UserList'', ct_list_filter = list_filter, ct_retrieve_response = Some ''User'',
      ct_create_request = create, ct_create_response = Some ''User'', ct_update_request = Some ''UserUpdate'',
      ct_update_response = Some ''User'', ct_display_name_response = None\<rparr>"

definition user_controller :: controller where
  "user_controller = plain_controller ''User'' (Some ''UserFilter'') (Some ''UserCreate'')"

definition order_controller :: controller where
  "order_controller = plain_controller ''Order'' None (Some ''OrderCreate'')"

definition report_controller :: controller where
  "report_controller = plain_controller ''Report'' (Some ''ReportFilter'') None"

lemma plain_controllers_wf: "program_wf [user_controller, order_controller]" "program_wf [user_controller, report_controller]"
  by (simp_all add: program_wf_def class_wf_def user_controller_def order_controller_def report_controller_def
      plain_controller_def model_controller_def)

lemma plain_import: "\<exists>w. import_controllers id_params [user_controller] empty_api = Inr w"
  "\<exists>w. import_controllers id_params [user_controller, order_controller] empty_api = Inr w"
proof -
  have "is_inr (import_controllers id_params [user_controller] empty_api)"
    "is_inr (import_controllers id_params [user_controller, order_controller] empty_api)"
    by code_simp+
  moreover have "is_inr r \<Longrightarrow> \<exists>w. r = Inr w" for r :: "registration_error + api" by (cases r) auto
  ultimately show "\<exists>w. import_controllers id_params [user_controller] empty_api = Inr w"
    "\<exists>w. import_controllers id_params [user_controller, order_controller] empty_api = Inr w" by blast+
qed


theorem controller_import_decided_witness:
  "\<exists>w. import_controllers id_params [user_controller] empty_api = Inr w
     \<and> \<not> is_inr (create_controller id_params report_controller w)
     \<and> is_inr (create_controller id_params report_controller empty_api)"
proof -
  from plain_import(1) obtain w where w: "import_controllers id_params [user_controller] empty_api = Inr w" by blast
  have m: "class_model report_controller = Inr (Some ''Report'')"
    by (simp add: report_controller_def plain_controller_def class_model_def)
  have left: "inherited report_controller RCreate" "RCreate \<notin> set (registered_actions report_controller (Some ''Report''))"
    by (simp_all add: inherited_def registered_actions_def chained_def report_controller_def plain_controller_def model_controller_def
        mixin_registers_def action_mixin_def)
  have before: "view_name RCreate \<in> set (shared_views user_controller)"
    by (simp add: shared_views_def registered_actions_def chained_def class_model_def user_controller_def plain_controller_def
        model_controller_def mixin_registers_def)
  have "\<not> is_inr (create_controller id_params report_controller w)"
  proof -
    have pw: "program_wf ([user_controller] @ [report_controller])" using plain_controllers_wf(2) by simp
    show ?thesis using m left before unfolding controller_import_decided [OF pw w] by (metis Inr_inject list.set_intros(1))
  qed
  moreover have "is_inr (create_controller id_params report_controller empty_api)" by code_simp
  ultimately show ?thesis using w by blast
qed

theorem list_takes_the_last_filters_witness:
  "\<exists>w ops op. import_controllers id_params [user_controller, order_controller] empty_api = Inr w
     \<and> dict_get (api_routers w) ''Order'' = Some ops \<and> op \<in> set ops \<and> op_view op = ''list''
     \<and> dict_get (op_parameters op) ''query_parameters'' = Some (QuerySchema ''UserFilter'')"
proof -
  from plain_import(2) obtain w where w: "import_controllers id_params [user_controller, order_controller] empty_api = Inr w" by blast
  have shared: "''list'' \<in> set (shared_views order_controller)" by code_simp
  have last: "last_list_filter [user_controller] = Some ''UserFilter''" by code_simp
  have o: "ct_name order_controller = ''Order''" "ct_list_filter order_controller = None"
    by (simp_all add: order_controller_def plain_controller_def)
  from list_takes_the_last_filters [of "[user_controller]" order_controller id_params w] w shared plain_controllers_wf(1) last o
  show ?thesis by auto
qed

end
