(* ===== verification/Response_Fields.thy ===== *)
theory Response_Fields
  imports Totem_Prelude "HOL-Library.Sublist"
begin

text \<open>
  From a response schema to the columns and relations a queryset loads for it
  (\<open>core/schemas/utils.py\<close>, \<open>core/orm/queryset.py\<close>, \<open>_response_orm_fields\<close> of
  \<open>core/api/controller.py\<close>). A schema is a tree: the annotations of its fields and the schemas in
  them. A lookup is a string, its parts separated by two underscores. \<open>deep_set\<close>, of the package
  \<open>dict_deep\<close>, is a parameter; what is relied on of it is \<open>deep_set_laws\<close>.
\<close>

subsection \<open>Models and schemas\<close>

datatype relation_kind = OneToOne | ManyToOne | ManyToMany | OneToMany

text \<open>A virtual computed field is in no \<open>get_fields()\<close>.\<close>

record orm_field =
  of_name :: string
  of_attname :: string
  of_relation :: "(relation_kind \<times> string) option"
  of_concrete :: bool
  of_virtual :: bool

record orm_model =
  om_pk :: string
  om_fields :: "orm_field list"

type_synonym orm = "(string \<times> orm_model) list"

definition model_fields :: "orm \<Rightarrow> string \<Rightarrow> orm_field list" where
  "model_fields orm m = (case dict_get orm m of None \<Rightarrow> [] | Some x \<Rightarrow> om_fields x)"

definition model_field_named :: "orm \<Rightarrow> string \<Rightarrow> string \<Rightarrow> orm_field option" where
  "model_field_named orm m n = find (\<lambda>f. of_name f = n) (model_fields orm m)"

definition orm_get_field :: "orm \<Rightarrow> string \<Rightarrow> string \<Rightarrow> orm_field option" where
  "orm_get_field orm m n = find (\<lambda>f. \<not> of_virtual f \<and> (of_name f = n \<or> of_attname f = n)) (model_fields orm m)"

datatype py_type =
    TNone
  | TPlain
  | TUnion "py_type list"
  | TList py_type
  | TModel string "(string \<times> string option \<times> py_type) list"

type_synonym schema_fields = "(string \<times> string option \<times> py_type) list"

fun py_size :: "py_type \<Rightarrow> nat" where
  "py_size TNone = 1"
| "py_size TPlain = 1"
| "py_size (TUnion ts) = Suc (sum_list (map py_size ts))"
| "py_size (TList t) = Suc (py_size t)"
| "py_size (TModel n fs) = Suc (sum_list (map (\<lambda>(n, a, t). Suc (py_size t)) fs))"

definition fields_size :: "schema_fields \<Rightarrow> nat" where
  "fields_size fs = sum_list (map (\<lambda>(n, a, t). Suc (py_size t)) fs)"

fun extract_schemas_from_annotation :: "py_type \<Rightarrow> schema_fields list" where
  "extract_schemas_from_annotation TNone = []"
| "extract_schemas_from_annotation TPlain = []"
| "extract_schemas_from_annotation (TUnion ts) = concat (map extract_schemas_from_annotation ts)"
| "extract_schemas_from_annotation (TList t) = extract_schemas_from_annotation t"
| "extract_schemas_from_annotation (TModel n fs) = [fs]"

fun unwrap_list_schema :: "py_type \<Rightarrow> py_type" where
  "unwrap_list_schema (TList t) = t"
| "unwrap_list_schema t = t"

lemma schemas_smaller: "fs \<in> set (extract_schemas_from_annotation t) \<Longrightarrow> fields_size fs < py_size t"
proof (induction t rule: extract_schemas_from_annotation.induct)
  case (3 ts)
  then obtain t where t: "t \<in> set ts" "fs \<in> set (extract_schemas_from_annotation t)" by auto
  have "py_size t \<le> sum_list (map py_size ts)" using t(1) by (simp add: member_le_sum_list)
  with 3(1) [OF t] show ?case by simp
qed (auto simp: fields_size_def)

subsection \<open>The table of a schema\<close>

datatype field_spec = Spec (fs_source: string) (fs_public: string) (fs_fields: "(string \<times> field_spec) list option")

function extract_orm_fields_map :: "orm \<Rightarrow> string \<Rightarrow> schema_fields \<Rightarrow> (string \<times> field_spec) list" where
  "extract_orm_fields_map orm m [] = []"
| "extract_orm_fields_map orm m ((name, alias, t) # rest) =
     (case model_field_named orm m name of
        None \<Rightarrow> extract_orm_fields_map orm m rest
      | Some f \<Rightarrow>
          (name, Spec name (case alias of None \<Rightarrow> name | Some a \<Rightarrow> if a = [] then name else a)
             (case of_relation f of
                None \<Rightarrow> None
              | Some (kind, m') \<Rightarrow>
                  Some (fold (\<lambda>fs d. fold (\<lambda>(k, s). dict_put k s) (extract_orm_fields_map orm m' fs) d)
                          (extract_schemas_from_annotation t) [])))
          # extract_orm_fields_map orm m rest)"
  by pat_completeness auto
termination
  by (relation "measure (\<lambda>(orm, m, fs). fields_size fs)")
    (auto simp: fields_size_def dest!: schemas_smaller)

definition schema_public_to_orm_fields :: "orm \<Rightarrow> string \<Rightarrow> schema_fields \<Rightarrow> (string \<times> string) list" where
  "schema_public_to_orm_fields orm m fs = fold (\<lambda>(n, s). dict_put (fs_public s) (fs_source s)) (extract_orm_fields_map orm m fs) []"

definition schema_orm_to_public_fields :: "orm \<Rightarrow> string \<Rightarrow> schema_fields \<Rightarrow> (string \<times> string) list" where
  "schema_orm_to_public_fields orm m fs = fold (\<lambda>(n, s). dict_put (fs_source s) (fs_public s)) (extract_orm_fields_map orm m fs) []"

text \<open>The lookups of one field: its own, and under it those of the schemas that render it.\<close>

fun spec_lookups :: "field_spec \<Rightarrow> string list" where
  "spec_lookups (Spec s p None) = [s]"
| "spec_lookups (Spec s p (Some subs)) =
     s # map (\<lambda>l. s @ ''__'' @ l) (concat (map (\<lambda>(n, spec). spec_lookups spec) subs))"

definition extract_orm_fields_from_specs :: "(string \<times> field_spec) list \<Rightarrow> string list \<Rightarrow> string list" where
  "extract_orm_fields_from_specs specs names =
     concat (map (\<lambda>n. case dict_get specs n of None \<Rightarrow> [] | Some s \<Rightarrow> spec_lookups s) names)"

definition response_orm_fields :: "orm \<Rightarrow> string \<Rightarrow> schema_fields \<Rightarrow> string list option \<Rightarrow> string list" where
  "response_orm_fields orm m fs names =
     (let specs = extract_orm_fields_map orm m fs
      in extract_orm_fields_from_specs specs (case names of None \<Rightarrow> dict_keys specs | Some ns \<Rightarrow> ns))"

subsection \<open>Lookups\<close>

text \<open>\<open>s.split("__")\<close>: from the left, without overlap.\<close>

fun split_lookup :: "string \<Rightarrow> string list" where
  "split_lookup [] = [[]]"
| "split_lookup [x] = [[x]]"
| "split_lookup (x # y # s) =
     (if x = CHR ''_'' \<and> y = CHR ''_'' then [] # split_lookup s
      else case split_lookup (y # s) of [] \<Rightarrow> [[x]] | p # ps \<Rightarrow> (x # p) # ps)"

datatype lookup_tree = Lookups (subtrees: "(string \<times> lookup_tree) list")

fun has_lookup :: "lookup_tree \<Rightarrow> string list \<Rightarrow> bool" where
  "has_lookup t [] = True"
| "has_lookup (Lookups kids) (x # xs) = (case map_of kids x of None \<Rightarrow> False | Some t \<Rightarrow> has_lookup t xs)"

fun tree_ok :: "lookup_tree \<Rightarrow> bool" where
  "tree_ok (Lookups kids) \<longleftrightarrow> distinct (map fst kids) \<and> list_all (\<lambda>(n, t). tree_ok t) kids"

text \<open>Setting \<open>{}\<close> at a path creates the dictionaries on the way and drops what was under it.\<close>

definition deep_set_laws :: "(lookup_tree \<Rightarrow> string list \<Rightarrow> lookup_tree \<Rightarrow> lookup_tree) \<Rightarrow> bool" where
  "deep_set_laws deep_set \<longleftrightarrow>
     (\<forall>t p q. p \<noteq> [] \<longrightarrow> tree_ok t \<longrightarrow> tree_ok (deep_set t p (Lookups []))
        \<and> has_lookup (deep_set t p (Lookups [])) q = (if prefix p q then q = p else prefix q p \<or> has_lookup t q))"

subsection \<open>What a queryset loads\<close>

datatype fetch_error = FieldDoesNotExist string string | NotSubscriptable

lemma result_map_cong [fundef_cong]:
  "xs = ys \<Longrightarrow> (\<And>x. x \<in> set ys \<Longrightarrow> f x = g x) \<Longrightarrow> result_map f xs = result_map g ys"
  by (induction ys arbitrary: xs) auto

definition to_one :: "relation_kind \<Rightarrow> bool" where
  "to_one k \<longleftrightarrow> k = OneToOne \<or> k = ManyToOne"

text \<open>
  The columns to load and the relations to prefetch, with the columns of each (all of them when
  none is named). The loop over the prefetches of a related model subscripts a \<open>Prefetch\<close>.
\<close>

fun model_prepare_fetch_fields :: "orm \<Rightarrow> string \<Rightarrow> lookup_tree \<Rightarrow> fetch_error + (string list \<times> (string \<times> string list) list)" where
  "model_prepare_fetch_fields orm m (Lookups kids) =
     result_bind (result_map (\<lambda>(name, t).
         case orm_get_field orm m name of
           None \<Rightarrow> Inl (FieldDoesNotExist m name)
         | Some f \<Rightarrow>
             (case of_relation f of
                None \<Rightarrow> Inr ([name], [])
              | Some (kind, m') \<Rightarrow>
                  (let only_fields = (if to_one kind \<and> of_concrete f then [name] else []) in
                   if to_one kind \<and> subtrees t = [] then Inr (only_fields, [])
                   else result_bind (model_prepare_fetch_fields orm m' t) (\<lambda>(related_only, related_prefetch).
                     if related_prefetch \<noteq> [] then Inl NotSubscriptable
                     else Inr (only_fields, [(name, related_only)])))))
       kids)
     (\<lambda>rs. Inr (concat (map fst rs), concat (map snd rs)))"

record fetch_plan =
  fp_only :: "string list"
  fp_prefetch :: "(string \<times> string list) list"

definition lookup_map :: "(lookup_tree \<Rightarrow> string list \<Rightarrow> lookup_tree \<Rightarrow> lookup_tree) \<Rightarrow> string list \<Rightarrow> lookup_tree" where
  "lookup_map deep_set lookups =
     fold (\<lambda>p t. deep_set t p (Lookups [])) (map split_lookup (sort lookups)) (Lookups [])"

definition queryset_fetch_fields ::
    "(lookup_tree \<Rightarrow> string list \<Rightarrow> lookup_tree \<Rightarrow> lookup_tree) \<Rightarrow> orm \<Rightarrow> string \<Rightarrow> string list \<Rightarrow> fetch_error + fetch_plan" where
  "queryset_fetch_fields deep_set orm m lookups =
     result_bind (model_prepare_fetch_fields orm m (lookup_map deep_set lookups)) (\<lambda>(only_fields, prefetches).
       Inr \<lparr>fp_only = (if only_fields \<noteq> [] then only_fields else case dict_get orm m of None \<Rightarrow> [] | Some x \<Rightarrow> [om_pk x]),
            fp_prefetch = prefetches\<rparr>)"

text \<open>\<open>apply_query_fields\<close>: the virtual fields of the model go through its computed API.\<close>

definition apply_query_fields ::
    "(lookup_tree \<Rightarrow> string list \<Rightarrow> lookup_tree \<Rightarrow> lookup_tree) \<Rightarrow> orm \<Rightarrow> string \<Rightarrow> string list
     \<Rightarrow> fetch_error + (fetch_plan \<times> string list)" where
  "apply_query_fields deep_set orm m lookups =
     (let virtual = map of_name (filter of_virtual (model_fields orm m)) in
      result_bind (queryset_fetch_fields deep_set orm m (filter (\<lambda>n. n \<notin> set virtual) lookups)) (\<lambda>plan.
        Inr (plan, filter (\<lambda>n. n \<in> set virtual) lookups)))"

end
