(* ===== verification/Response_Laws.thy ===== *)
theory Response_Laws
  imports Response_Fields
begin

text \<open>
  A response loads what it reads: the lookups of a schema name every field its serialization
  touches, and the plan built from lookups loads each of them, or cannot be built.
\<close>

subsection \<open>Lookups and paths\<close>

lemma split_not_Nil [simp]: "split_lookup s \<noteq> []"
  by (induction s rule: split_lookup.induct) (auto split: list.splits)

lemma join_split: "str_join ''__'' (split_lookup s) = s"
proof (induction s rule: split_lookup.induct)
  case (3 x y s)
  show ?case
  proof (cases "x = CHR ''_'' \<and> y = CHR ''_''")
    case True
    with 3(1) show ?thesis by (cases "split_lookup s") auto
  next
    case False
    with 3(2) show ?thesis
      by (cases "split_lookup (y # s)" rule: list.exhaust; cases "tl (split_lookup (y # s))") auto
  qed
qed simp_all

text \<open>What Django accepts as the name of a field.\<close>

definition plain_field :: "string \<Rightarrow> bool" where
  "plain_field n \<longleftrightarrow> n \<noteq> [] \<and> split_lookup n = [n] \<and> last n \<noteq> CHR ''_''"

lemma split_plain_append: "plain_field n \<Longrightarrow> split_lookup (n @ ''__'' @ s) = n # split_lookup s"
proof (induction n)
  case (Cons x n)
  show ?case
  proof (cases n)
    case Nil
    with Cons.prems show ?thesis by (auto simp: plain_field_def)
  next
    case (Cons y n')
    with Cons.prems have no: "\<not> (x = CHR ''_'' \<and> y = CHR ''_'')" by (auto simp: plain_field_def)
    with Cons Cons.prems have "plain_field n"
      by (auto simp: plain_field_def split: list.splits)
    with Cons.IH no Cons show ?thesis by simp
  qed
qed (simp add: plain_field_def)

lemma split_join: "ps \<noteq> [] \<Longrightarrow> \<forall>p \<in> set ps. plain_field p \<Longrightarrow> split_lookup (str_join ''__'' ps) = ps"
proof (induction "''__''" ps rule: str_join.induct)
  case (2 x)
  then show ?case by (simp add: plain_field_def)
next
  case (3 x y ys)
  then show ?case using split_plain_append [of x "str_join ''__'' (y # ys)"] by simp
qed simp

subsection \<open>What the lookups of a schema name\<close>

text \<open>The paths a serialization follows from an instance: each field of the schema that is a field
  of the model and, under a relation, those of the schema that renders it.\<close>

function schema_reads :: "orm \<Rightarrow> string \<Rightarrow> schema_fields \<Rightarrow> string list list" where
  "schema_reads orm m [] = []"
| "schema_reads orm m ((name, alias, t) # rest) =
     (case model_field_named orm m name of
        None \<Rightarrow> []
      | Some f \<Rightarrow> [name] #
          (case of_relation f of
             None \<Rightarrow> []
           | Some (kind, m') \<Rightarrow> map ((#) name) (concat (map (schema_reads orm m') (extract_schemas_from_annotation t)))))
     @ schema_reads orm m rest"
  by pat_completeness auto
termination
  by (relation "measure (\<lambda>(orm, m, fs). fields_size fs)")
    (auto simp: fields_size_def dest!: schemas_smaller)

text \<open>Fields once each, by plain names, and at most one schema in an annotation.\<close>

function schema_ok :: "schema_fields \<Rightarrow> bool" where
  "schema_ok [] = True"
| "schema_ok ((name, alias, t) # rest) \<longleftrightarrow> name \<notin> fst ` set rest \<and> plain_field name
     \<and> length (extract_schemas_from_annotation t) \<le> 1 \<and> list_all schema_ok (extract_schemas_from_annotation t) \<and> schema_ok rest"
  by pat_completeness auto
termination
  by (relation "measure fields_size") (auto simp: fields_size_def dest!: schemas_smaller)

lemma put_all_fresh:
  "distinct (map fst xs) \<Longrightarrow> fst ` set xs \<inter> fst ` set d = {} \<Longrightarrow> fold (\<lambda>(k, s). dict_put k s) xs d = d @ xs"
proof (induction xs arbitrary: d)
  case (Cons x xs)
  obtain k s where x: "x = (k, s)" by fastforce
  with Cons.prems(2) have "dict_get d k = None" by (auto simp: map_of_eq_None_iff)
  then have "dict_put k s d = d @ [(k, s)]" by (induction d) (auto split: if_splits)
  with x Cons show ?case by auto
qed simp

lemma table_keys: "set (dict_keys (extract_orm_fields_map orm m fs)) \<subseteq> fst ` set fs"
proof (induction fs)
  case (Cons x fs)
  then show ?case by (cases x) (auto split: option.splits)
qed simp

lemma table_distinct: "schema_ok fs \<Longrightarrow> distinct (dict_keys (extract_orm_fields_map orm m fs))"
proof (induction fs)
  case (Cons x fs)
  obtain name al t where x: "x = (name, al, t)" by (cases x)
  with Cons.prems table_keys [of orm m fs] have "name \<notin> set (dict_keys (extract_orm_fields_map orm m fs))" by auto
  with x Cons show ?case by (simp split: option.split)
qed simp

lemma specs_lookups:
  assumes "distinct (map fst specs)"
  shows "extract_orm_fields_from_specs specs (dict_keys specs) = concat (map (spec_lookups \<circ> snd) specs)"
proof -
  have "map (\<lambda>n. case dict_get specs n of None \<Rightarrow> [] | Some s \<Rightarrow> spec_lookups s) (dict_keys specs) = map (spec_lookups \<circ> snd) specs"
    using assms by (auto simp: comp_def)
  then show ?thesis by (simp only: extract_orm_fields_from_specs_def)
qed

lemma single_cases: "length xs \<le> 1 \<Longrightarrow> xs = [] \<or> (\<exists>x. xs = [x])"
  by (cases xs; cases "tl xs") auto

lemma reads_not_Nil: "[] \<notin> set (schema_reads orm m fs)"
  by (induction orm m fs rule: schema_reads.induct) (auto split: option.splits)

lemma join_Cons: "p \<noteq> [] \<Longrightarrow> str_join ''__'' (n # p) = n @ ''__'' @ str_join ''__'' p"
  by (cases p) auto

lemma table_lookups:
  "schema_ok fs \<Longrightarrow> concat (map (spec_lookups \<circ> snd) (extract_orm_fields_map orm m fs)) = map (str_join ''__'') (schema_reads orm m fs)"
proof (induction orm m fs rule: extract_orm_fields_map.induct)
  case (2 orm m name al t rest)
  show ?case
  proof (cases "model_field_named orm m name")
    case None
    with 2 show ?thesis by simp
  next
    case (Some f)
    show ?thesis
    proof (cases "of_relation f")
      case None
      with Some 2 show ?thesis by simp
    next
      case (Some r)
      obtain kind m' where r: "r = (kind, m')" by fastforce
      from 2(4) single_cases consider "extract_schemas_from_annotation t = []"
        | fs where "extract_schemas_from_annotation t = [fs]" "schema_ok fs" by fastforce
      then show ?thesis
      proof cases
        case 1
        with Some r \<open>model_field_named orm m name = Some f\<close> 2 show ?thesis by simp
      next
        case (2 fs)
        let ?sub = "extract_orm_fields_map orm m' fs"
        have sub: "concat (map (spec_lookups \<circ> snd) ?sub) = map (str_join ''__'') (schema_reads orm m' fs)"
          using "2.IH"(2) [OF \<open>model_field_named orm m name = Some f\<close> Some r [symmetric]] 2 r by (simp add: comp_def)
        have "fold (\<lambda>(k, s). dict_put k s) ?sub [] = ?sub" using put_all_fresh [OF table_distinct [OF 2(2)], of _ _ "[]"] by simp
        moreover have "concat (map (\<lambda>(n, spec). spec_lookups spec) ?sub) = map (str_join ''__'') (schema_reads orm m' fs)"
          using sub by (simp add: comp_def case_prod_unfold)
        moreover have "map (\<lambda>l. name @ ''__'' @ l) (map (str_join ''__'') (schema_reads orm m' fs))
            = map (str_join ''__'') (map ((#) name) (schema_reads orm m' fs))"
        proof -
          have "name @ ''__'' @ str_join ''__'' p = str_join ''__'' (name # p)" if "p \<in> set (schema_reads orm m' fs)" for p
            using that reads_not_Nil [of orm m' fs] join_Cons [of p name] by metis
          then show ?thesis by simp
        qed
        ultimately show ?thesis
          using Some r \<open>model_field_named orm m name = Some f\<close> 2 "2.IH" "2.prems" by simp
      qed
    qed
  qed
qed simp


lemma response_lookups:
  "schema_ok fs \<Longrightarrow> response_orm_fields orm m fs None = map (str_join ''__'') (schema_reads orm m fs)"
  by (simp add: response_orm_fields_def specs_lookups [OF table_distinct] table_lookups)

lemma reads_plain: "schema_ok fs \<Longrightarrow> p \<in> set (schema_reads orm m fs) \<Longrightarrow> \<forall>n \<in> set p. plain_field n"
proof (induction orm m fs arbitrary: p rule: schema_reads.induct)
  case (2 orm m name al t rest)
  from "2.prems" consider "p = [name]" | "p \<in> set (schema_reads orm m rest)"
    | f kind m' fs q where "model_field_named orm m name = Some f" "of_relation f = Some (kind, m')"
      "fs \<in> set (extract_schemas_from_annotation t)" "q \<in> set (schema_reads orm m' fs)" "p = name # q"
    by (cases "model_field_named orm m name"; cases "of_relation (the (model_field_named orm m name))") auto
  then show ?case
  proof cases
    case 3
    from "2.prems"(1) 3(3) have "schema_ok fs" by (simp add: list_all_iff)
    with "2.IH"(1) [OF 3(1,2) refl 3(3) _ 3(4)] 3(5) "2.prems"(1) show ?thesis by simp
  qed (use "2.IH"(2) "2.prems" in auto)
qed simp

lemma response_paths:
  assumes "schema_ok fs"
  shows "split_lookup ` set (response_orm_fields orm m fs None) = set (schema_reads orm m fs)"
proof -
  have "split_lookup (str_join ''__'' p) = p" if "p \<in> set (schema_reads orm m fs)" for p
    using split_join [of p] reads_plain [OF assms that] reads_not_Nil [of orm m fs] that by metis
  then show ?thesis by (force simp: response_lookups [OF assms])
qed

subsection \<open>The tree of lookups\<close>

lemma join_prefix:
  "strict_prefix ps qs \<Longrightarrow> ps \<noteq> [] \<Longrightarrow> \<exists>s. s \<noteq> [] \<and> str_join ''__'' qs = str_join ''__'' ps @ s"
proof (induction ps arbitrary: qs)
  case (Cons p ps)
  then obtain qs' where qs: "qs = p # qs'" "strict_prefix ps qs'" by (cases qs) auto
  show ?case
  proof (cases ps)
    case Nil
    with qs show ?thesis by (cases qs') auto
  next
    case (Cons p' ps')
    with Cons.IH [OF qs(2)] obtain s where "s \<noteq> []" "str_join ''__'' qs' = str_join ''__'' ps @ s" by auto
    moreover from qs(2) Cons have "qs' \<noteq> []" by auto
    ultimately show ?thesis using qs(1) Cons join_Cons [of qs' p] join_Cons [of ps p] by auto
  qed
qed simp

lemma sorted_no_later_prefix:
  assumes "strict_prefix (split_lookup l) (split_lookup l')"
  shows "l < l'"
proof -
  from join_prefix [OF assms] obtain s where "s \<noteq> []" "l' = l @ s" by (auto simp: join_split)
  then show ?thesis by (cases s) (auto simp: list_less_def intro!: lexord_append_rightI)
qed

lemma lookup_map_paths:
  assumes "deep_set_laws ds"
  shows "tree_ok (lookup_map ds ls) \<and> (has_lookup (lookup_map ds ls) q \<longleftrightarrow> q = [] \<or> (\<exists>l \<in> set ls. prefix q (split_lookup l)))"
proof -
  have "tree_ok (fold (\<lambda>p t. ds t p (Lookups [])) (map split_lookup xs) (Lookups []))
     \<and> (\<forall>q. has_lookup (fold (\<lambda>p t. ds t p (Lookups [])) (map split_lookup xs) (Lookups [])) q
          \<longleftrightarrow> q = [] \<or> (\<exists>l \<in> set xs. prefix q (split_lookup l)))" if "sorted xs" for xs
    using that
  proof (induction xs rule: rev_induct)
    case Nil
    then show ?case by (auto simp: has_lookup.simps(2) elim: has_lookup.elims)
  next
    case (snoc l xs)
    let ?t = "fold (\<lambda>p t. ds t p (Lookups [])) (map split_lookup xs) (Lookups [])"
    from snoc have ok: "tree_ok ?t"
      and IH: "\<And>q. has_lookup ?t q \<longleftrightarrow> q = [] \<or> (\<exists>l \<in> set xs. prefix q (split_lookup l))"
      by (auto simp: sorted_append)
    have later: "\<not> strict_prefix (split_lookup l) (split_lookup l')" if "l' \<in> set xs" for l'
      using snoc.prems that sorted_no_later_prefix [of l l'] by (auto simp: sorted_append)
    have laws: "tree_ok (ds ?t (split_lookup l) (Lookups []))"
      "has_lookup (ds ?t (split_lookup l) (Lookups [])) q
        \<longleftrightarrow> (if prefix (split_lookup l) q then q = split_lookup l else prefix q (split_lookup l) \<or> has_lookup ?t q)" for q
      using assms ok unfolding deep_set_laws_def by (metis split_not_Nil)+
    have "has_lookup (ds ?t (split_lookup l) (Lookups [])) q \<longleftrightarrow> q = [] \<or> (\<exists>l' \<in> set (xs @ [l]). prefix q (split_lookup l'))" for q
    proof (cases "prefix (split_lookup l) q \<and> q \<noteq> split_lookup l")
      case True
      then have "\<not> prefix q (split_lookup l')" if "l' \<in> set xs" for l'
        using later [OF that] by (auto simp: strict_prefix_def dest: prefix_order.trans)
      with True show ?thesis by (auto simp: laws(2) dest: prefix_order.antisym)
    next
      case False
      then show ?thesis by (auto simp: laws(2) IH)
    qed
    with laws(1) show ?case by simp
  qed
  from this [of "sort ls"] show ?thesis by (simp add: lookup_map_def)
qed


subsection \<open>The plan of a tree\<close>

definition prepare_one :: "orm \<Rightarrow> string \<Rightarrow> string \<times> lookup_tree \<Rightarrow> fetch_error + (string list \<times> (string \<times> string list) list)" where
  "prepare_one orm m = (\<lambda>(name, t).
     case orm_get_field orm m name of
       None \<Rightarrow> Inl (FieldDoesNotExist m name)
     | Some f \<Rightarrow>
         (case of_relation f of
            None \<Rightarrow> Inr ([name], [])
          | Some (kind, m') \<Rightarrow>
              (let only_fields = (if to_one kind \<and> of_concrete f then [name] else []) in
               if to_one kind \<and> subtrees t = [] then Inr (only_fields, [])
               else result_bind (model_prepare_fetch_fields orm m' t) (\<lambda>(related_only, related_prefetch).
                 if related_prefetch \<noteq> [] then Inl NotSubscriptable
                 else Inr (only_fields, [(name, related_only)])))))"

lemma prepare_by_one:
  "model_prepare_fetch_fields orm m t =
     result_bind (result_map (prepare_one orm m) (subtrees t)) (\<lambda>rs. Inr (concat (map fst rs), concat (map snd rs)))"
  by (cases t) (simp add: prepare_one_def)

declare model_prepare_fetch_fields.simps [simp del]

lemma result_map_is_inr: "is_inr (result_map f xs) \<longleftrightarrow> (\<forall>x \<in> set xs. is_inr (f x))"
proof (induction xs)
  case (Cons x xs)
  then show ?case by (cases "f x"; cases "result_map f xs") auto
qed simp

lemma is_inr_iff: "is_inr r \<longleftrightarrow> (\<exists>v. r = Inr v)"
  by (cases r) auto

lemma has_kid: "tree_ok t \<Longrightarrow> (n, t') \<in> set (subtrees t) \<Longrightarrow> tree_ok t' \<and> (\<forall>q. has_lookup t (n # q) \<longleftrightarrow> has_lookup t' q)"
  by (cases t) (auto simp: list_all_iff)

lemma has_kids: "has_lookup t (n # q) \<longleftrightarrow> (\<exists>t'. map_of (subtrees t) n = Some t' \<and> has_lookup t' q)"
  by (cases t) (auto split: option.split)

lemma kid_iff: "tree_ok t \<Longrightarrow> (\<exists>t'. (n, t') \<in> set (subtrees t)) \<longleftrightarrow> has_lookup t [n]"
  by (cases t) (force simp: weak_map_of_SomeI split: option.split dest: map_of_SomeD)

lemma kids_all:
  assumes "tree_ok t" "\<And>f t'. (f, t') \<in> set (subtrees t) \<Longrightarrow> Q (f, t') \<longleftrightarrow> P f"
  shows "(\<forall>x \<in> set (subtrees t). Q x) \<longleftrightarrow> (\<forall>f. has_lookup t [f] \<longrightarrow> P f)"
  using assms(2) by (simp add: kid_iff [OF assms(1), symmetric] Ball_def split_paired_All)

lemma subtrees_iff: "subtrees t \<noteq> [] \<longleftrightarrow> (\<exists>h. has_lookup t [h])"
proof (cases t)
  case (Lookups kids)
  then show ?thesis by (cases kids) (auto split: option.split)
qed

definition prefetched :: "orm_field \<Rightarrow> bool \<Rightarrow> bool" where
  "prefetched f deep \<longleftrightarrow> (case of_relation f of None \<Rightarrow> False | Some (kind, m') \<Rightarrow> \<not> to_one kind \<or> deep)"

definition related_model :: "orm_field \<Rightarrow> string" where
  "related_model f = (case of_relation f of None \<Rightarrow> [] | Some (kind, m') \<Rightarrow> m')"

lemma prepare_one_plain:
  "(\<exists>o1. prepare_one orm m (n, t) = Inr (o1, [])) \<longleftrightarrow> (\<exists>f. orm_get_field orm m n = Some f \<and> \<not> prefetched f (subtrees t \<noteq> []))"
  by (auto simp: prepare_one_def prefetched_def Let_def split: option.splits if_splits)

lemma prepare_plain:
  assumes "tree_ok t"
  shows "(\<exists>o1. model_prepare_fetch_fields orm m t = Inr (o1, [])) \<longleftrightarrow>
    (\<forall>g. has_lookup t [g] \<longrightarrow> (\<exists>y. orm_get_field orm m g = Some y \<and> \<not> prefetched y (\<exists>h. has_lookup t [g, h])))"
proof -
  have "(\<exists>o1. model_prepare_fetch_fields orm m t = Inr (o1, [])) \<longleftrightarrow> (\<forall>x \<in> set (subtrees t). \<exists>o1. prepare_one orm m x = Inr (o1, []))"
  proof
    assume "\<exists>o1. model_prepare_fetch_fields orm m t = Inr (o1, [])"
    then obtain rs where "result_map (prepare_one orm m) (subtrees t) = Inr rs" "\<forall>r \<in> set rs. snd r = []"
      by (auto simp: prepare_by_one)
    then show "\<forall>x \<in> set (subtrees t). \<exists>o1. prepare_one orm m x = Inr (o1, [])"
      using result_map_mem(1) by (metis prod.collapse)
  next
    assume all: "\<forall>x \<in> set (subtrees t). \<exists>o1. prepare_one orm m x = Inr (o1, [])"
    then have "is_inr (result_map (prepare_one orm m) (subtrees t))" by (auto simp: result_map_is_inr)
    then obtain rs where rs: "result_map (prepare_one orm m) (subtrees t) = Inr rs" by (auto simp: is_inr_iff)
    with all result_map_mem(2) [OF rs] have "\<forall>r \<in> set rs. snd r = []" by (metis Inr_inject snd_conv)
    then have "concat (map snd rs) = []" by simp
    with rs show "\<exists>o1. model_prepare_fetch_fields orm m t = Inr (o1, [])" by (simp add: prepare_by_one)
  qed
  also have "\<dots> \<longleftrightarrow> (\<forall>g. has_lookup t [g] \<longrightarrow> (\<exists>y. orm_get_field orm m g = Some y \<and> \<not> prefetched y (\<exists>h. has_lookup t [g, h])))"
  proof (rule kids_all [OF assms])
    fix g t' assume "(g, t') \<in> set (subtrees t)"
    from has_kid [OF assms this] show "(\<exists>o1. prepare_one orm m (g, t') = Inr (o1, []))
        \<longleftrightarrow> (\<exists>y. orm_get_field orm m g = Some y \<and> \<not> prefetched y (\<exists>h. has_lookup t [g, h]))"
      by (simp add: prepare_one_plain subtrees_iff)
  qed
  finally show ?thesis .
qed

lemma prepare_succeeds:
  assumes "tree_ok t"
  shows "is_inr (model_prepare_fetch_fields orm m t) \<longleftrightarrow>
    (\<forall>f. has_lookup t [f] \<longrightarrow> (\<exists>x. orm_get_field orm m f = Some x \<and>
       (prefetched x (\<exists>h. has_lookup t [f, h]) \<longrightarrow>
         (\<forall>g. has_lookup t [f, g] \<longrightarrow> (\<exists>y. orm_get_field orm (related_model x) g = Some y \<and> \<not> prefetched y (\<exists>h. has_lookup t [f, g, h]))))))"
proof -
  have bind: "is_inr (result_bind r (\<lambda>rs. Inr (k rs))) \<longleftrightarrow> is_inr r" for r :: "fetch_error + 'x" and k :: "'x \<Rightarrow> 'y"
    by (cases r) auto
  have one: "is_inr (prepare_one orm m (f, t')) \<longleftrightarrow> (\<exists>x. orm_get_field orm m f = Some x \<and>
       (prefetched x (\<exists>h. has_lookup t [f, h]) \<longrightarrow>
         (\<forall>g. has_lookup t [f, g] \<longrightarrow> (\<exists>y. orm_get_field orm (related_model x) g = Some y \<and> \<not> prefetched y (\<exists>h. has_lookup t [f, g, h])))))"
    if "(f, t') \<in> set (subtrees t)" for f t'
  proof -
    note kid = has_kid [OF assms that]
    have run: "is_inr (result_bind (model_prepare_fetch_fields orm m' t') (\<lambda>(related_only, related_prefetch).
        if related_prefetch \<noteq> [] then Inl NotSubscriptable else Inr (os, [(f, related_only)])))
      \<longleftrightarrow> (\<forall>g. has_lookup t [f, g] \<longrightarrow> (\<exists>y. orm_get_field orm m' g = Some y \<and> \<not> prefetched y (\<exists>h. has_lookup t [f, g, h])))" for m' os
    proof -
      have "is_inr (result_bind r (\<lambda>(related_only, related_prefetch).
        if related_prefetch \<noteq> [] then Inl NotSubscriptable else Inr (os, [(f, related_only)]))) \<longleftrightarrow> (\<exists>o1. r = Inr (o1, []))"
        for r :: "fetch_error + (string list \<times> (string \<times> string list) list)"
        by (cases r) (auto split: if_splits)
      then show ?thesis using kid by (simp only: prepare_plain)
    qed
    have deep: "subtrees t' = [] \<longleftrightarrow> \<not> (\<exists>h. has_lookup t [f, h])" using kid subtrees_iff [of t'] by auto
    show ?thesis
    proof (cases "orm_get_field orm m f")
      case None
      then show ?thesis by (simp add: prepare_one_def)
    next
      case (Some x)
      show ?thesis
      proof (cases "of_relation x")
        case None
        with Some show ?thesis by (simp add: prepare_one_def prefetched_def)
      next
        case (Some r)
        obtain k m' where r: "r = (k, m')" by fastforce
        let ?os = "if to_one k \<and> of_concrete x then [f] else []"
        have "prepare_one orm m (f, t') = (if to_one k \<and> subtrees t' = [] then Inr (?os, [])
           else result_bind (model_prepare_fetch_fields orm m' t') (\<lambda>(related_only, related_prefetch).
             if related_prefetch \<noteq> [] then Inl NotSubscriptable else Inr (?os, [(f, related_only)])))"
          using Some \<open>orm_get_field orm m f = Some x\<close> r by (simp add: prepare_one_def Let_def)
        then have "is_inr (prepare_one orm m (f, t')) \<longleftrightarrow> (to_one k \<and> subtrees t' = []) \<or>
            (\<forall>g. has_lookup t [f, g] \<longrightarrow> (\<exists>y. orm_get_field orm m' g = Some y \<and> \<not> prefetched y (\<exists>h. has_lookup t [f, g, h])))"
          using run [of m' ?os] by (simp only: is_inr.simps if_cancel split: if_split) blast
        with Some \<open>orm_get_field orm m f = Some x\<close> r deep show ?thesis
          by (simp add: prefetched_def related_model_def) blast
      qed
    qed
  qed
  show ?thesis
    unfolding prepare_by_one bind result_map_is_inr by (rule kids_all [OF assms]) (rule one)
qed

end
