(* ===== verification/Response_Plan.thy ===== *)
theory Response_Plan
  imports Response_Laws
begin

text \<open>
  The plan of a response: it exists exactly when no schema nested in a relation reads a further
  relation, and then every field the serialization touches is loaded.
\<close>

subsection \<open>Fields along a path\<close>

text \<open>Names once each, as Django has them, and no attribute name hiding another field.\<close>

definition orm_ok :: "orm \<Rightarrow> bool" where
  "orm_ok orm \<longleftrightarrow>
     (\<forall>m. \<forall>f \<in> set (model_fields orm m). plain_field (of_name f)
        \<and> orm_get_field orm m (of_name f) = (if of_virtual f then None else Some f)
        \<and> (of_virtual f \<longrightarrow> of_relation f = None))"

fun field_at :: "orm \<Rightarrow> string \<Rightarrow> string list \<Rightarrow> orm_field option" where
  "field_at orm m [] = None"
| "field_at orm m [n] = model_field_named orm m n"
| "field_at orm m (n # p) =
     (case model_field_named orm m n of
        None \<Rightarrow> None
      | Some f \<Rightarrow> (case of_relation f of None \<Rightarrow> None | Some (kind, m') \<Rightarrow> field_at orm m' p))"

definition reads_on :: "orm \<Rightarrow> string \<Rightarrow> schema_fields \<Rightarrow> string list \<Rightarrow> bool" where
  "reads_on orm m fs p \<longleftrightarrow> (\<exists>n. p @ [n] \<in> set (schema_reads orm m fs))"

lemma named_field: "model_field_named orm m n = Some f \<Longrightarrow> f \<in> set (model_fields orm m) \<and> of_name f = n"
  unfolding model_field_named_def by (drule find_Some_iff_mem) simp

lemma orm_okD:
  assumes "orm_ok orm" "model_field_named orm m n = Some f"
  shows "orm_get_field orm m n = (if of_virtual f then None else Some f)" "of_virtual f \<Longrightarrow> of_relation f = None" "plain_field n"
  using assms named_field [OF assms(2)] by (auto simp: orm_ok_def)

lemma reads_step:
  "n # p \<in> set (schema_reads orm m fs) \<Longrightarrow>
   \<exists>f. model_field_named orm m n = Some f \<and> [n] \<in> set (schema_reads orm m fs)
     \<and> (p \<noteq> [] \<longrightarrow> (\<exists>kind m' fs'. of_relation f = Some (kind, m') \<and> p \<in> set (schema_reads orm m' fs')
          \<and> (#) n ` set (schema_reads orm m' fs') \<subseteq> set (schema_reads orm m fs)))"
proof (induction fs)
  case (Cons x fs)
  obtain name al t where x: "x = (name, al, t)" by (cases x)
  have sub: "set (schema_reads orm m fs) \<subseteq> set (schema_reads orm m (x # fs))" by (simp add: x)
  show ?case
  proof (cases "n # p \<in> set (schema_reads orm m fs)")
    case True
    from Cons.IH [OF this] sub show ?thesis by blast
  next
    case False
    with Cons.prems x obtain f where f: "model_field_named orm m name = Some f" "n = name"
      by (cases "model_field_named orm m name") auto
    have "\<exists>kind m' fs'. of_relation f = Some (kind, m') \<and> p \<in> set (schema_reads orm m' fs')
        \<and> (#) n ` set (schema_reads orm m' fs') \<subseteq> set (schema_reads orm m (x # fs))" if "p \<noteq> []"
    proof -
      from that False Cons.prems x f obtain kind m' fs' where r: "of_relation f = Some (kind, m')"
        "fs' \<in> set (extract_schemas_from_annotation t)" "p \<in> set (schema_reads orm m' fs')"
        by (cases "of_relation f") auto
      then have "(#) n ` set (schema_reads orm m' fs') \<subseteq> set (schema_reads orm m (x # fs))"
        using x f by auto
      with r show ?thesis by blast
    qed
    with f x show ?thesis by auto
  qed
qed simp

lemma reads_cases:
  assumes "n # p \<in> set (schema_reads orm m fs)"
  obtains f where "model_field_named orm m n = Some f" "[n] \<in> set (schema_reads orm m fs)"
    "p \<noteq> [] \<longrightarrow> (\<exists>kind m' fs'. of_relation f = Some (kind, m') \<and> p \<in> set (schema_reads orm m' fs')
       \<and> (#) n ` set (schema_reads orm m' fs') \<subseteq> set (schema_reads orm m fs))"
  using reads_step [OF assms] by blast

lemma reads_prefix: "p @ q \<in> set (schema_reads orm m fs) \<Longrightarrow> p \<noteq> [] \<Longrightarrow> p \<in> set (schema_reads orm m fs)"
proof (induction p arbitrary: m fs)
  case (Cons n p)
  from Cons.prems(1) have "n # (p @ q) \<in> set (schema_reads orm m fs)" by simp
  then obtain f :: orm_field where f: "[n] \<in> set (schema_reads orm m fs)"
    "p @ q \<noteq> [] \<longrightarrow> (\<exists>kind m' fs'. of_relation f = Some (kind, m') \<and> p @ q \<in> set (schema_reads orm m' fs')
       \<and> (#) n ` set (schema_reads orm m' fs') \<subseteq> set (schema_reads orm m fs))"
    by (rule reads_cases) (rule that, assumption+)
  show ?case
  proof (cases "p = []")
    case False
    with f(2) obtain m' fs' where "p @ q \<in> set (schema_reads orm m' fs')"
      "(#) n ` set (schema_reads orm m' fs') \<subseteq> set (schema_reads orm m fs)" by auto
    with Cons.IH [of m' fs'] False show ?thesis by auto
  qed (use f(1) in simp)
qed simp

lemma reads_pair:
  assumes "[f, g] \<in> set (schema_reads orm m fs)"
  obtains x kind m' y where "model_field_named orm m f = Some x" "of_relation x = Some (kind, m')"
    "model_field_named orm m' g = Some y" "field_at orm m [f, g] = Some y"
proof -
  from assms obtain x where x: "model_field_named orm m f = Some x" and
    "\<exists>kind m' fs'. of_relation x = Some (kind, m') \<and> [g] \<in> set (schema_reads orm m' fs')"
    by (rule reads_cases) auto
  then obtain kind m' fs' where r: "of_relation x = Some (kind, m')" "[g] \<in> set (schema_reads orm m' fs')" by blast
  from r(2) obtain y where "model_field_named orm m' g = Some y" by (rule reads_cases)
  with x r(1) show ?thesis by (intro that) simp_all
qed

subsection \<open>The tree of a response\<close>

definition virtual_names :: "orm \<Rightarrow> string \<Rightarrow> string list" where
  "virtual_names orm m = map of_name (filter of_virtual (model_fields orm m))"

lemma virtual_leaf:
  assumes "orm_ok orm" "n # p \<in> set (schema_reads orm m fs)" "n \<in> set (virtual_names orm m)"
  shows "p = []"
proof -
  from assms(2) obtain f where f: "model_field_named orm m n = Some f" "p \<noteq> [] \<longrightarrow> (\<exists>kind m'. of_relation f = Some (kind, m'))"
    by (rule reads_cases) blast
  from assms(1,3) have "orm_get_field orm m n = None" by (auto simp: virtual_names_def orm_ok_def)
  with orm_okD [OF assms(1) f(1)] f(2) show ?thesis by (auto split: if_splits)
qed

lemma response_tree:
  assumes "deep_set_laws ds" "schema_ok fs" "orm_ok orm"
  shows "has_lookup (lookup_map ds (filter (\<lambda>n. n \<notin> set (virtual_names orm m)) (response_orm_fields orm m fs None))) q
     \<longleftrightarrow> q = [] \<or> (q \<in> set (schema_reads orm m fs) \<and> hd q \<notin> set (virtual_names orm m))"
proof -
  have plain: "split_lookup v = [v]" if "v \<in> set (virtual_names orm m)" for v
    using assms(3) that by (auto simp: virtual_names_def orm_ok_def plain_field_def)
  have keep: "l \<notin> set (virtual_names orm m) \<longleftrightarrow> hd (split_lookup l) \<notin> set (virtual_names orm m)"
    if "l \<in> set (response_orm_fields orm m fs None)" for l
  proof
    assume l: "l \<notin> set (virtual_names orm m)"
    show "hd (split_lookup l) \<notin> set (virtual_names orm m)"
    proof
      assume v: "hd (split_lookup l) \<in> set (virtual_names orm m)"
      obtain n p where p: "split_lookup l = n # p" by (cases "split_lookup l") auto
      with response_paths [OF assms(2), of orm m] that have "n # p \<in> set (schema_reads orm m fs)" by (metis image_eqI)
      from virtual_leaf [OF assms(3) this] v p have "split_lookup l = [n]" by simp
      with join_split [of l] have "l = n" by simp
      with v p l show False by simp
    qed
  qed (use plain in fastforce)
  have "(\<exists>l \<in> set (filter (\<lambda>n. n \<notin> set (virtual_names orm m)) (response_orm_fields orm m fs None)). prefix q (split_lookup l))
     \<longleftrightarrow> (\<exists>p \<in> set (schema_reads orm m fs). hd p \<notin> set (virtual_names orm m) \<and> prefix q p)"
    unfolding response_paths [OF assms(2), symmetric] using keep by auto
  moreover have "(\<exists>p \<in> set (schema_reads orm m fs). hd p \<notin> set (virtual_names orm m) \<and> prefix q p)
     \<longleftrightarrow> q \<in> set (schema_reads orm m fs) \<and> hd q \<notin> set (virtual_names orm m)" if "q \<noteq> []"
    using that reads_prefix [of q _ orm m fs] by (auto simp: prefix_def)
  ultimately show ?thesis
    using lookup_map_paths [OF assms(1)] by auto
qed

lemma deep_virtual:
  assumes "orm_ok orm" "f # g # p \<in> set (schema_reads orm m fs)"
  shows "f \<notin> set (virtual_names orm m)"
  using virtual_leaf [OF assms] by auto


subsection \<open>What the plan loads\<close>

fun loads :: "fetch_plan \<Rightarrow> string list \<Rightarrow> bool" where
  "loads plan [f] \<longleftrightarrow> f \<in> set (fp_only plan) \<or> f \<in> fst ` set (fp_prefetch plan)"
| "loads plan [f, g] \<longleftrightarrow> (\<exists>os. (f, os) \<in> set (fp_prefetch plan) \<and> (os = [] \<or> g \<in> set os))"
| "loads plan p \<longleftrightarrow> False"

text \<open>The far side of a one-to-one relation read without its record: there is no column to load.\<close>

definition reverse_key :: "orm_field \<Rightarrow> bool \<Rightarrow> bool" where
  "reverse_key f deep \<longleftrightarrow> (case of_relation f of None \<Rightarrow> False | Some (kind, m') \<Rightarrow> to_one kind \<and> \<not> of_concrete f \<and> \<not> deep)"

lemma prepare_members:
  assumes "tree_ok t" "model_prepare_fetch_fields orm m t = Inr (os, ps)" "has_lookup t [n]"
  shows "\<exists>x. orm_get_field orm m n = Some x
    \<and> (n \<in> set os \<or> n \<in> fst ` set ps \<or> reverse_key x (\<exists>h. has_lookup t [n, h]))
    \<and> (prefetched x (\<exists>h. has_lookup t [n, h]) \<longrightarrow>
        (\<exists>ro t'. (n, ro) \<in> set ps \<and> tree_ok t' \<and> (\<forall>q. has_lookup t (n # q) = has_lookup t' q)
           \<and> model_prepare_fetch_fields orm (related_model x) t' = Inr (ro, [])))"
proof -
  from kid_iff [OF assms(1)] assms(3) obtain t' where t': "(n, t') \<in> set (subtrees t)" by blast
  note kid = has_kid [OF assms(1) t']
  from assms(2) obtain rs where rs: "result_map (prepare_one orm m) (subtrees t) = Inr rs"
    "os = concat (map fst rs)" "ps = concat (map snd rs)" by (auto simp: prepare_by_one)
  from result_map_mem(1) [OF rs(1) t'] obtain o1 p1 where one: "(o1, p1) \<in> set rs" "prepare_one orm m (n, t') = Inr (o1, p1)" by auto
  with rs(2,3) have sub: "set o1 \<subseteq> set os" "set p1 \<subseteq> set ps" by force+
  have deep: "subtrees t' \<noteq> [] \<longleftrightarrow> (\<exists>h. has_lookup t [n, h])" using kid subtrees_iff [of t'] by auto
  from one(2) obtain x where x: "orm_get_field orm m n = Some x" by (auto simp: prepare_one_def split: option.splits)
  show ?thesis
  proof (cases "of_relation x")
    case None
    with one(2) x have "n \<in> set o1" by (auto simp: prepare_one_def)
    with None x sub show ?thesis by (auto simp: prefetched_def)
  next
    case (Some r)
    obtain k m' where r: "r = (k, m')" by fastforce
    let ?os = "if to_one k \<and> of_concrete x then [n] else []"
    show ?thesis
    proof (cases "to_one k \<and> subtrees t' = []")
      case True
      with one(2) x Some r have "o1 = ?os" by (auto simp: prepare_one_def Let_def)
      with True Some r x sub deep show ?thesis by (auto simp: prefetched_def reverse_key_def split: if_splits)
    next
      case False
      with one(2) x Some r obtain ro where "model_prepare_fetch_fields orm m' t' = Inr (ro, [])" "p1 = [(n, ro)]"
        by (cases "model_prepare_fetch_fields orm m' t'") (auto simp: prepare_one_def Let_def split: if_splits)
      with x kid sub Some r show ?thesis by (force simp: related_model_def)
    qed
  qed
qed

lemma prepare_leaf:
  assumes "tree_ok t" "model_prepare_fetch_fields orm m t = Inr (os, [])" "has_lookup t [n]"
  shows "\<exists>y. orm_get_field orm m n = Some y \<and> \<not> prefetched y (\<exists>h. has_lookup t [n, h])
    \<and> (n \<in> set os \<or> reverse_key y (\<exists>h. has_lookup t [n, h]))"
  using prepare_members [OF assms] by auto

subsection \<open>Properties\<close>

lemma apply_query_fields_plan:
  "apply_query_fields ds orm m ls =
     result_bind (queryset_fetch_fields ds orm m (filter (\<lambda>n. n \<notin> set (virtual_names orm m)) ls)) (\<lambda>plan.
       Inr (plan, filter (\<lambda>n. n \<in> set (virtual_names orm m)) ls))"
  by (simp add: apply_query_fields_def virtual_names_def Let_def)

lemma first_field:
  assumes "orm_ok orm" "[f] \<in> set (schema_reads orm m fs)" "f \<notin> set (virtual_names orm m)"
  obtains x where "orm_get_field orm m f = Some x" "model_field_named orm m f = Some x"
proof -
  from assms(2) obtain x where x: "model_field_named orm m f = Some x" by (rule reads_cases)
  with assms(3) named_field [OF x] have "\<not> of_virtual x" by (auto simp: virtual_names_def)
  with x orm_okD(1) [OF assms(1) x] show ?thesis by (intro that) auto
qed

text \<open>
  A queryset can be restricted to what a response reads exactly when no relation is read
  through a relation together with records of its own: the loop over nested prefetches raises.
\<close>

theorem response_plan_exists_iff:
  assumes "deep_set_laws ds" "schema_ok fs" "orm_ok orm"
  shows "is_inr (apply_query_fields ds orm m (response_orm_fields orm m fs None)) \<longleftrightarrow>
    (\<forall>f g. [f, g] \<in> set (schema_reads orm m fs) \<longrightarrow>
       (\<exists>y. field_at orm m [f, g] = Some y \<and> \<not> of_virtual y \<and> \<not> prefetched y (\<exists>h. [f, g, h] \<in> set (schema_reads orm m fs))))"
proof -
  let ?t = "lookup_map ds (filter (\<lambda>n. n \<notin> set (virtual_names orm m)) (response_orm_fields orm m fs None))"
  let ?R = "set (schema_reads orm m fs)"
  have bind: "is_inr (result_bind (result_bind r (\<lambda>(a, b). Inr (k a b))) (\<lambda>plan. Inr (j plan))) \<longleftrightarrow> is_inr r"
    for r :: "fetch_error + ('x \<times> 'y)" and k :: "'x \<Rightarrow> 'y \<Rightarrow> fetch_plan" and j :: "fetch_plan \<Rightarrow> fetch_plan \<times> string list"
    by (cases r) (auto split: prod.split)
  have has: "has_lookup ?t q \<longleftrightarrow> q = [] \<or> (q \<in> ?R \<and> hd q \<notin> set (virtual_names orm m))" for q
    by (rule response_tree [OF assms])
  have deep: "has_lookup ?t (f # g # p) \<longleftrightarrow> f # g # p \<in> ?R" for f g p
    using has [of "f # g # p"] deep_virtual [OF assms(3)] by auto
  have tree: "tree_ok ?t" using lookup_map_paths [OF assms(1)] by blast
  have "is_inr (apply_query_fields ds orm m (response_orm_fields orm m fs None)) \<longleftrightarrow> is_inr (model_prepare_fetch_fields orm m ?t)"
    by (simp only: apply_query_fields_plan queryset_fetch_fields_def bind)
  also have "\<dots> \<longleftrightarrow> (\<forall>f g. [f, g] \<in> ?R \<longrightarrow> (\<exists>y. field_at orm m [f, g] = Some y \<and> \<not> of_virtual y \<and> \<not> prefetched y (\<exists>h. [f, g, h] \<in> ?R)))"
    (is "_ \<longleftrightarrow> (\<forall>f g. [f, g] \<in> ?R \<longrightarrow> ?ok f g)")
  proof -
    have pair: "(\<exists>y. orm_get_field orm (related_model x) g = Some y \<and> \<not> prefetched y (\<exists>h. [f, g, h] \<in> ?R)) \<longleftrightarrow> ?ok f g"
      if fg: "[f, g] \<in> ?R" and x: "model_field_named orm m f = Some x" for f g x
    proof -
      from fg obtain x' k m' y where y: "model_field_named orm m f = Some x'" "of_relation x' = Some (k, m')"
        "model_field_named orm m' g = Some y" "field_at orm m [f, g] = Some y" by (rule reads_pair)
      with x orm_okD(1) [OF assms(3) y(3)] show ?thesis by (auto simp: related_model_def)
    qed
    have one: "(\<exists>x. orm_get_field orm m f = Some x \<and> (prefetched x (\<exists>h. [f, h] \<in> ?R) \<longrightarrow>
         (\<forall>g. [f, g] \<in> ?R \<longrightarrow> (\<exists>y. orm_get_field orm (related_model x) g = Some y \<and> \<not> prefetched y (\<exists>h. [f, g, h] \<in> ?R)))))
       \<longleftrightarrow> (\<forall>g. [f, g] \<in> ?R \<longrightarrow> ?ok f g)" if f: "[f] \<in> ?R" "f \<notin> set (virtual_names orm m)" for f
    proof -
      from first_field [OF assms(3) f] obtain x where x: "orm_get_field orm m f = Some x" "model_field_named orm m f = Some x" by blast
      have "prefetched x True" if "[f, g] \<in> ?R" for g
        using reads_pair [OF that] x(2) by (fastforce simp: prefetched_def)
      then have pf: "prefetched x (\<exists>h. [f, h] \<in> ?R) \<or> (\<forall>g. [f, g] \<notin> ?R)" by (cases "\<exists>h. [f, h] \<in> ?R") auto
      have "(\<forall>g. [f, g] \<in> ?R \<longrightarrow> (\<exists>y. orm_get_field orm (related_model x) g = Some y \<and> \<not> prefetched y (\<exists>h. [f, g, h] \<in> ?R)))
        \<longleftrightarrow> (\<forall>g. [f, g] \<in> ?R \<longrightarrow> ?ok f g)" using pair [OF _ x(2)] by blast
      with x(1) pf show ?thesis by (simp only: option.inject) blast
    qed
    have "[f] \<in> ?R" "f \<notin> set (virtual_names orm m)" if "[f, g] \<in> ?R" for f g
      using reads_prefix [of "[f]" "[g]" orm m fs] deep_virtual [OF assms(3), of f g "[]"] that by auto
    then show ?thesis
      unfolding prepare_succeeds [OF tree] deep has [of "[_]"] using one by (auto simp del: field_at.simps)
  qed
  finally show ?thesis .
qed

text \<open>
  C24: the plan of a response loads every field its serialization touches: a column, the records
  of a relation, a virtual field computed with the rows, or else it is the far side of a
  one-to-one relation read without its record.
\<close>

theorem response_loads_what_it_reads:
  assumes "deep_set_laws ds" "schema_ok fs" "orm_ok orm"
    and "apply_query_fields ds orm m (response_orm_fields orm m fs None) = Inr (plan, computed)"
    and "p \<in> set (schema_reads orm m fs)"
  shows "loads plan p \<or> p \<in> (\<lambda>n. [n]) ` set computed
    \<or> (\<exists>y. field_at orm m p = Some y \<and> reverse_key y (\<exists>h. p @ [h] \<in> set (schema_reads orm m fs)))"
proof -
  let ?t = "lookup_map ds (filter (\<lambda>n. n \<notin> set (virtual_names orm m)) (response_orm_fields orm m fs None))"
  let ?R = "set (schema_reads orm m fs)"
  from assms(4) obtain os ps where run: "model_prepare_fetch_fields orm m ?t = Inr (os, ps)"
    "set os \<subseteq> set (fp_only plan)" "fp_prefetch plan = ps"
    "computed = filter (\<lambda>n. n \<in> set (virtual_names orm m)) (response_orm_fields orm m fs None)"
    by (auto simp: apply_query_fields_plan queryset_fetch_fields_def)
  have has: "has_lookup ?t q \<longleftrightarrow> q = [] \<or> (q \<in> ?R \<and> hd q \<notin> set (virtual_names orm m))" for q
    by (rule response_tree [OF assms(1-3)])
  have tree: "tree_ok ?t" using lookup_map_paths [OF assms(1)] by blast
  have "p \<noteq> []" using assms(5) reads_not_Nil [of orm m fs] by metis
  then obtain f p' where p: "p = f # p'" by (cases p) auto
  with assms(5) have f: "[f] \<in> ?R" using reads_prefix [of "[f]" p' orm m fs] by simp
  show ?thesis
  proof (cases "f \<in> set (virtual_names orm m)")
    case True
    with virtual_leaf [OF assms(3)] p assms(5) have "p = [f]" by auto
    moreover have "f \<in> set (response_orm_fields orm m fs None)"
      using f by (force simp: response_lookups [OF assms(2)])
    ultimately show ?thesis using True run(4) by simp
  next
    case False
    with has f have hf: "has_lookup ?t [f]" by simp
    have deep: "has_lookup ?t (f # q) \<longleftrightarrow> q = [] \<or> f # q \<in> ?R" for q using has [of "f # q"] f False by auto
    from first_field [OF assms(3) f False] obtain x where x: "orm_get_field orm m f = Some x" "model_field_named orm m f = Some x" by blast
    from prepare_members [OF tree run(1) hf] x(1) have first: "f \<in> set os \<or> f \<in> fst ` set ps \<or> reverse_key x (\<exists>h. [f, h] \<in> ?R)"
      and sub: "prefetched x (\<exists>h. [f, h] \<in> ?R) \<longrightarrow> (\<exists>ro t'. (f, ro) \<in> set ps \<and> tree_ok t' \<and> (\<forall>q. has_lookup ?t (f # q) = has_lookup t' q)
           \<and> model_prepare_fetch_fields orm (related_model x) t' = Inr (ro, []))"
      by (auto simp: deep)
    show ?thesis
    proof (cases p')
      case Nil
      with first p run x(2) show ?thesis by auto
    next
      case (Cons g p'')
      then have fg: "[f, g] \<in> ?R" using reads_prefix [of "[f, g]" p'' orm m fs] assms(5) p by simp
      then obtain x' k m' y where y: "model_field_named orm m f = Some x'" "of_relation x' = Some (k, m')"
        "model_field_named orm m' g = Some y" "field_at orm m [f, g] = Some y" by (rule reads_pair)
      with x(2) fg sub obtain ro t' where t': "(f, ro) \<in> set ps" "tree_ok t'" "\<forall>q. has_lookup ?t (f # q) = has_lookup t' q"
        "model_prepare_fetch_fields orm m' t' = Inr (ro, [])"
        by (auto simp: prefetched_def related_model_def)
      then have "has_lookup t' [g]" using fg deep [of "[g]"] by simp
      have step: "has_lookup t' [g, h] \<longleftrightarrow> [f, g, h] \<in> ?R" for h
        using t'(3) [THEN spec, of "[g, h]"] deep [of "[g, h]"] by simp
      from prepare_leaf [OF t'(2,4) \<open>has_lookup t' [g]\<close>] have leaf: "\<exists>y'. orm_get_field orm m' g = Some y'
          \<and> \<not> prefetched y' (\<exists>h. [f, g, h] \<in> ?R) \<and> (g \<in> set ro \<or> reverse_key y' (\<exists>h. [f, g, h] \<in> ?R))"
        unfolding step .
      then have ok: "\<not> prefetched y (\<exists>h. [f, g, h] \<in> ?R)" "g \<in> set ro \<or> reverse_key y (\<exists>h. [f, g, h] \<in> ?R)"
        using orm_okD(1) [OF assms(3) y(3)] by (auto split: if_splits)
      show ?thesis
      proof (cases p'')
        case Nil
        with ok(2) y(4) t'(1) p Cons run(3) show ?thesis by auto
      next
        case (Cons h p3)
        then have fgh: "[f, g, h] \<in> ?R" using reads_prefix [of "[f, g, h]" p3 orm m fs] assms(5) p \<open>p' = g # p''\<close> by simp
        then obtain y' where "model_field_named orm m' g = Some y'" "of_relation y' \<noteq> None"
        proof -
          from fgh obtain x2 where x2: "model_field_named orm m f = Some x2"
            "[g, h] \<noteq> [] \<longrightarrow> (\<exists>kind m' fs'. of_relation x2 = Some (kind, m') \<and> [g, h] \<in> set (schema_reads orm m' fs')
               \<and> (#) f ` set (schema_reads orm m' fs') \<subseteq> ?R)" by (rule reads_cases) (rule that, assumption+)
          with y(1,2) obtain fs' where "[g, h] \<in> set (schema_reads orm m' fs')" by auto
          then show ?thesis by (rule reads_pair) (rule that, auto)
        qed
        with y(3) ok(1) fgh show ?thesis by (auto simp: prefetched_def)
      qed
    qed
  qed
qed

subsection \<open>An instance\<close>

fun put_lookup :: "lookup_tree \<Rightarrow> string list \<Rightarrow> lookup_tree \<Rightarrow> lookup_tree" where
  "put_lookup t [] v = v"
| "put_lookup (Lookups kids) (n # p) v =
     Lookups (dict_put n (put_lookup (case map_of kids n of None \<Rightarrow> Lookups [] | Some t \<Rightarrow> t) p v) kids)"

lemma put_members: "set (dict_put k v d) \<subseteq> insert (k, v) (set d)"
  by (induction d) auto

lemma tree_ok_put: "tree_ok (Lookups kids) \<Longrightarrow> tree_ok t \<Longrightarrow> tree_ok (Lookups (dict_put n t kids))"
  using put_members [of n t kids] by (auto simp: list_all_iff distinct_update)

lemma put_lookup_laws: "deep_set_laws put_lookup"
proof -
  have "tree_ok t \<Longrightarrow> tree_ok (put_lookup t p (Lookups []))
      \<and> has_lookup (put_lookup t p (Lookups [])) q = (if prefix p q then q = p else prefix q p \<or> has_lookup t q)" for t p q
  proof (induction t p "Lookups []" arbitrary: q rule: put_lookup.induct)
    case (1 t)
    then show ?case by (cases q) auto
  next
    case (2 kids n p)
    let ?t = "case map_of kids n of None \<Rightarrow> Lookups [] | Some t \<Rightarrow> t"
    have ok: "tree_ok ?t" using 2(2) by (auto simp: list_all_iff dest: map_of_SomeD split: option.split)
    note IH = 2(1) [OF ok]
    have "has_lookup (put_lookup (Lookups kids) (n # p) (Lookups [])) q
        = (if prefix (n # p) q then q = n # p else prefix q (n # p) \<or> has_lookup (Lookups kids) q)"
    proof (cases q)
      case (Cons x q')
      show ?thesis
      proof (cases "x = n")
        case True
        have "has_lookup (Lookups []) q' \<longleftrightarrow> q' = []" by (cases q') auto
        with True Cons IH show ?thesis by (auto split: option.splits)
      qed (use Cons in auto)
    qed simp
    moreover have "tree_ok (Lookups (dict_put n (put_lookup ?t p (Lookups [])) kids))"
      using 2(2) IH by (intro tree_ok_put) auto
    ultimately show ?case by simp
  qed
  then show ?thesis by (simp add: deep_set_laws_def)
qed

definition demo_orm :: orm where
  "demo_orm =
     [(''order'', \<lparr>om_pk = ''id'', om_fields =
        [\<lparr>of_name = ''label'', of_attname = ''label'', of_relation = None, of_concrete = True, of_virtual = False\<rparr>,
         \<lparr>of_name = ''total'', of_attname = ''total'', of_relation = None, of_concrete = False, of_virtual = True\<rparr>,
         \<lparr>of_name = ''customer'', of_attname = ''customer_id'', of_relation = Some (ManyToOne, ''partner''), of_concrete = True, of_virtual = False\<rparr>]\<rparr>),
      (''partner'', \<lparr>om_pk = ''id'', om_fields =
        [\<lparr>of_name = ''name'', of_attname = ''name'', of_relation = None, of_concrete = True, of_virtual = False\<rparr>,
         \<lparr>of_name = ''country'', of_attname = ''country_id'', of_relation = Some (ManyToOne, ''country''), of_concrete = True, of_virtual = False\<rparr>]\<rparr>),
      (''country'', \<lparr>om_pk = ''id'', om_fields =
        [\<lparr>of_name = ''code'', of_attname = ''code'', of_relation = None, of_concrete = True, of_virtual = False\<rparr>]\<rparr>)]"

definition partner_schema :: "py_type \<Rightarrow> schema_fields" where
  "partner_schema country =
     [(''label'', Some ''title'', TPlain), (''total'', None, TPlain), (''missing'', None, TPlain),
      (''customer'', None, TUnion [TModel ''Partner'' [(''name'', None, TPlain), (''country'', None, country)], TNone])]"

lemma demo_orm_ok: "orm_ok demo_orm"
  by (auto simp: orm_ok_def demo_orm_def model_fields_def orm_get_field_def plain_field_def)

lemma partner_schema_ok: "schema_ok (partner_schema TPlain)" "schema_ok (partner_schema (TModel ''Country'' [(''code'', None, TPlain)]))"
  by (simp_all add: partner_schema_def plain_field_def)

lemma partner_reads:
  "schema_reads demo_orm ''order'' (partner_schema TPlain) = [[''label''], [''total''], [''customer''], [''customer'', ''name''], [''customer'', ''country'']]"
  "schema_reads demo_orm ''order'' (partner_schema (TModel ''Country'' [(''code'', None, TPlain)])) =
     [[''label''], [''total''], [''customer''], [''customer'', ''name''], [''customer'', ''country''], [''customer'', ''country'', ''code'']]"
  by (simp_all add: partner_schema_def demo_orm_def model_field_named_def model_fields_def)

lemma partner_fields:
  "field_at demo_orm ''order'' [''customer'', ''name''] = Some \<lparr>of_name = ''name'', of_attname = ''name'', of_relation = None, of_concrete = True, of_virtual = False\<rparr>"
  "field_at demo_orm ''order'' [''customer'', ''country'']
     = Some \<lparr>of_name = ''country'', of_attname = ''country_id'', of_relation = Some (ManyToOne, ''country''), of_concrete = True, of_virtual = False\<rparr>"
  by (simp_all add: demo_orm_def model_field_named_def model_fields_def)

lemma partner_plan:
  "is_inr (apply_query_fields put_lookup demo_orm ''order'' (response_orm_fields demo_orm ''order'' (partner_schema TPlain) None))"
  by code_simp

theorem response_plan_exists_iff_witness:
  "is_inr (apply_query_fields put_lookup demo_orm ''order'' (response_orm_fields demo_orm ''order'' (partner_schema TPlain) None))
   \<and> \<not> is_inr (apply_query_fields put_lookup demo_orm ''order''
          (response_orm_fields demo_orm ''order'' (partner_schema (TModel ''Country'' [(''code'', None, TPlain)])) None))"
  unfolding response_plan_exists_iff [OF put_lookup_laws partner_schema_ok(1) demo_orm_ok]
    response_plan_exists_iff [OF put_lookup_laws partner_schema_ok(2) demo_orm_ok] partner_reads
  by (auto simp: partner_fields prefetched_def to_one_def simp del: field_at.simps)

theorem response_loads_what_it_reads_witness:
  "\<exists>plan computed. apply_query_fields put_lookup demo_orm ''order'' (response_orm_fields demo_orm ''order'' (partner_schema TPlain) None) = Inr (plan, computed)
     \<and> loads plan [''customer'', ''country'']"
proof -
  from partner_plan obtain plan computed where
    run: "apply_query_fields put_lookup demo_orm ''order'' (response_orm_fields demo_orm ''order'' (partner_schema TPlain) None) = Inr (plan, computed)"
    by (auto simp: is_inr_iff)
  have "[''customer'', ''country''] \<in> set (schema_reads demo_orm ''order'' (partner_schema TPlain))" by (simp add: partner_reads)
  from response_loads_what_it_reads [OF put_lookup_laws partner_schema_ok(1) demo_orm_ok run this]
  have "loads plan [''customer'', ''country'']"
    by (auto simp: partner_fields reverse_key_def simp del: field_at.simps)
  with run show ?thesis by blast
qed

end
