(* ===== verification/Api_Validation.thy ===== *)
theory Api_Validation
  imports Controller_Import Response_Fields Service_Values
begin

text \<open>
  The checks of the controllers at start-up (\<open>core/api/validation.py\<close>): the bodies and responses
  against the schemas of the service, the parameters of a nested prefix, the routes with a fixed
  path. A problem is a value of \<open>api_problem\<close>; a start-up with problems raises them all.
\<close>

subsection \<open>Schemas and classes\<close>

text \<open>A validation alias is a name, choices (\<open>None\<close> being one that is no string), or a path.\<close>

datatype alias_spec = AliasName string | AliasChoices "string option list" | AliasPath

record body_field =
  bf_name :: string
  bf_serialization_alias :: "string option"
  bf_validation_alias :: "alias_spec option"

record body_schema =
  bs_name :: string
  bs_fields :: "body_field list"

definition field_names :: "body_schema \<Rightarrow> string list" where
  "field_names s = map bf_name (bs_fields s)"

text \<open>
  A controller as the checks see it: the class, the names of its dictionary, the model it serves,
  its request schemas each with the schema of the service, its response schemas by attribute.
\<close>

record api_class =
  ac_class :: controller
  ac_names :: "string list"
  ac_model :: "string option"
  ac_requests :: "(body_schema option \<times> body_schema option) list"
  ac_create_body :: "body_schema option"
  ac_responses :: "(string \<times> body_schema \<times> schema_fields) list"
  ac_filter :: "body_schema option"
  ac_orderings :: "string list"

text \<open>What the models have besides their fields: which are computed, which are generated columns.\<close>

record model_info =
  mi_orm :: orm
  mi_computed :: "(string \<times> string) list"
  mi_generated :: "(string \<times> string) list"

datatype api_problem =
    NotRegistered string mixin
  | ShadowedRoute string mixin "string list"
  | UnknownParameter string string
  | FilterDeclares string "string list" string
  | BodyDeclares string "string list" string
  | ResponseRename string string string
  | LaxRename string string string
  | Dropped string "string list" string
  | UnreadableField string string string
  | DerivedInput string string string
  | VirtualThrough string string string
  | VirtualOrdering string string

subsection \<open>The checks\<close>

definition check_static_route :: "api_class \<Rightarrow> mixin \<Rightarrow> string \<Rightarrow> api_problem list" where
  "check_static_route ac m n =
     (if Mixin m \<notin> set (ct_mro (ac_class ac)) \<or> ac_model ac = None then []
      else if n \<notin> set (ac_names ac) then [NotRegistered (ct_name (ac_class ac)) m]
      else let shadowing = filter (\<lambda>other. other \<in> set (ac_names ac) \<and> index_of (ac_names ac) other < index_of (ac_names ac) n)
                 [''retrieve'', ''update'', ''delete'']
           in if shadowing \<noteq> [] then [ShadowedRoute (ct_name (ac_class ac)) m shadowing] else [])"

definition check_resequence_route :: "api_class \<Rightarrow> api_problem list" where
  "check_resequence_route ac = check_static_route ac MResequence ''resequence''"

definition check_display_name_route :: "api_class \<Rightarrow> api_problem list" where
  "check_display_name_route ac = check_static_route ac MDisplayName ''display_name''"

definition check_group_by_route :: "api_class \<Rightarrow> api_problem list" where
  "check_group_by_route ac = check_static_route ac MGroupBy ''group_by''"

definition check_default_values_route :: "api_class \<Rightarrow> api_problem list" where
  "check_default_values_route ac =
     (if ct_create_request (ac_class ac) = None then [] else check_static_route ac MCreate ''default_values'')"

definition check_path_parameters :: "(string \<Rightarrow> string list) \<Rightarrow> orm \<Rightarrow> api_class \<Rightarrow> api_problem list" where
  "check_path_parameters params orm ac =
     (let c = ct_name (ac_class ac) in
      concat (map (\<lambda>param.
        case orm_get_field orm (case ac_model ac of None \<Rightarrow> [] | Some m \<Rightarrow> m) param of
          None \<Rightarrow> [UnknownParameter c param]
        | Some f \<Rightarrow>
            (let declared = (\<lambda>s. sort (uniq (filter (\<lambda>n. n = param \<or> n = of_name f) (field_names s)))) in
             (case ac_filter ac of None \<Rightarrow> [] | Some s \<Rightarrow> if declared s \<noteq> [] then [FilterDeclares c (declared s) param] else [])
             @ (case ac_create_body ac of None \<Rightarrow> [] | Some s \<Rightarrow> if declared s \<noteq> [] then [BodyDeclares c (declared s) param] else [])))
        (params (ct_path_prefix (ac_class ac)))))"

text \<open>A rename exists and the Django name is still accepted.\<close>

definition is_lax_rename :: "string \<Rightarrow> alias_spec option \<Rightarrow> bool" where
  "is_lax_rename n a =
     (case a of
        Some (AliasChoices cs) \<Rightarrow> (let choices = List.map_filter id cs in n \<in> set choices \<and> (\<exists>c \<in> set choices. c \<noteq> n))
      | _ \<Rightarrow> False)"

definition is_readable_by_field_name :: "string \<Rightarrow> alias_spec option \<Rightarrow> bool" where
  "is_readable_by_field_name n a =
     (case a of
        None \<Rightarrow> True
      | Some (AliasName m) \<Rightarrow> m = n
      | Some (AliasChoices cs) \<Rightarrow> Some n \<in> set cs
      | Some AliasPath \<Rightarrow> False)"

definition check_request_field :: "string \<Rightarrow> string \<Rightarrow> body_field \<Rightarrow> api_problem list" where
  "check_request_field c schema f =
     (case bf_serialization_alias f of
        Some a \<Rightarrow>
          if a \<noteq> [] \<and> a \<noteq> bf_name f then [ResponseRename c schema (bf_name f)]
          else if is_lax_rename (bf_name f) (bf_validation_alias f) then [LaxRename c schema (bf_name f)] else []
      | None \<Rightarrow> if is_lax_rename (bf_name f) (bf_validation_alias f) then [LaxRename c schema (bf_name f)] else [])"

definition check_request_schemas :: "api_class \<Rightarrow> api_problem list" where
  "check_request_schemas ac =
     (let c = ct_name (ac_class ac) in
      concat (map (\<lambda>(request, service).
        case request of
          None \<Rightarrow> []
        | Some r \<Rightarrow>
            concat (map (check_request_field c (bs_name r)) (bs_fields r))
            @ (case service of
                 None \<Rightarrow> []
               | Some s \<Rightarrow>
                   (let dropped = sort (uniq (filter (\<lambda>n. n \<notin> set (field_names s)) (field_names r)))
                    in if dropped \<noteq> [] then [Dropped (bs_name r) dropped (bs_name s)] else [])))
        (ac_requests ac)))"

definition check_response_schemas :: "api_class \<Rightarrow> api_problem list" where
  "check_response_schemas ac =
     concat (map (\<lambda>(attr, r, fs).
        concat (map (\<lambda>f. if is_readable_by_field_name (bf_name f) (bf_validation_alias f) then []
                         else [UnreadableField (ct_name (ac_class ac)) (bs_name r) (bf_name f)]) (bs_fields r)))
        (ac_responses ac))"

definition is_derived :: "model_info \<Rightarrow> string \<Rightarrow> string \<Rightarrow> bool" where
  "is_derived mi m n \<longleftrightarrow> (m, n) \<in> set (mi_computed mi)
     \<or> (orm_get_field (mi_orm mi) m n \<noteq> None \<and> (m, n) \<in> set (mi_generated mi))"

definition virtual_fields :: "orm \<Rightarrow> string \<Rightarrow> string list" where
  "virtual_fields orm m = map of_name (filter of_virtual (model_fields orm m))"

text \<open>The model the relations of a lookup lead to, as \<open>get_field\<close> follows them.\<close>

fun follow_relations :: "orm \<Rightarrow> string \<Rightarrow> string list \<Rightarrow> string option" where
  "follow_relations orm m [] = Some m"
| "follow_relations orm m (r # rs) =
     (case orm_get_field orm m r of
        None \<Rightarrow> None
      | Some f \<Rightarrow> (case of_relation f of None \<Rightarrow> None | Some (kind, m') \<Rightarrow> follow_relations orm m' rs))"

definition check_derived_inputs :: "model_info \<Rightarrow> api_class \<Rightarrow> string \<Rightarrow> api_problem list" where
  "check_derived_inputs mi ac m =
     (let schemas = List.map_filter id (concat (map (\<lambda>(request, service). [request, service]) (ac_requests ac))) in
      concat (map (\<lambda>s. concat (map (\<lambda>n. if is_derived mi m n then [DerivedInput (ct_name (ac_class ac)) (bs_name s) n] else [])
                         (field_names s)))
        (uniq schemas)))"

definition check_virtual_lookups :: "model_info \<Rightarrow> api_class \<Rightarrow> string \<Rightarrow> api_problem list" where
  "check_virtual_lookups mi ac m =
     concat (map (\<lambda>(attr, r, fs).
        concat (map (\<lambda>lookup.
          (let parts = split_lookup lookup; relations = butlast parts; name = last parts in
           if relations = [] then []
           else case follow_relations (mi_orm mi) m relations of
             None \<Rightarrow> []
           | Some m' \<Rightarrow> if name \<in> set (virtual_fields (mi_orm mi) m') then [VirtualThrough (ct_name (ac_class ac)) attr lookup] else []))
          (response_orm_fields (mi_orm mi) m fs None)))
        (ac_responses ac))"

definition check_virtual_orderings :: "model_info \<Rightarrow> api_class \<Rightarrow> string \<Rightarrow> api_problem list" where
  "check_virtual_orderings mi ac m =
     concat (map (\<lambda>token.
        (let name = dropWhile (\<lambda>c. c = CHR ''-'') token in
         if name \<in> set (virtual_fields (mi_orm mi) m) then [VirtualOrdering (ct_name (ac_class ac)) name] else []))
        (ac_orderings ac))"

definition check_derived_fields :: "model_info \<Rightarrow> api_class \<Rightarrow> string \<Rightarrow> api_problem list" where
  "check_derived_fields mi ac m = check_derived_inputs mi ac m @ check_virtual_lookups mi ac m @ check_virtual_orderings mi ac m"

definition check_controller :: "(string \<Rightarrow> string list) \<Rightarrow> model_info \<Rightarrow> api_class \<Rightarrow> api_problem list" where
  "check_controller params mi ac =
     (case ac_model ac of
        None \<Rightarrow> []
      | Some m \<Rightarrow>
          check_request_schemas ac @ check_response_schemas ac @ check_derived_fields mi ac m
          @ check_path_parameters params (mi_orm mi) ac @ check_resequence_route ac @ check_display_name_route ac
          @ check_group_by_route ac @ check_default_values_route ac)"

definition validate_controllers :: "(string \<Rightarrow> string list) \<Rightarrow> model_info \<Rightarrow> api_class list \<Rightarrow> api_problem list + unit" where
  "validate_controllers params mi acs =
     (let errors = concat (map (check_controller params mi) (sort_key (ct_name \<circ> ac_class) acs))
      in if errors \<noteq> [] then Inl errors else Inr ())"

lemma validate_controllers_Inr:
  "validate_controllers params mi acs = Inr u \<longleftrightarrow> (\<forall>ac \<in> set acs. check_controller params mi ac = [])"
  by (simp add: validate_controllers_def Let_def)

end
