(* ===== verification/Api_Validation_Laws.thy ===== *)
theory Api_Validation_Laws
  imports Api_Validation
begin

text \<open>
  What a start-up that raises nothing guarantees of the requests to come: the fixed paths are
  reached, and no field of a body is lost on its way to the service.
\<close>

subsection \<open>Positions\<close>

lemma index_of_split:
  assumes "n \<in> set xs"
  obtains as bs where "xs = as @ n # bs" "n \<notin> set as" "index_of xs n = length as"
proof -
  from split_list_first [OF assms] obtain as bs where x: "xs = as @ n # bs" "n \<notin> set as" by blast
  have "takeWhile (\<lambda>y. y \<noteq> n) xs = as" using x(2) unfolding x(1) by (subst takeWhile_append2) auto
  with x show ?thesis by (intro that) (auto simp: index_of_def)
qed

lemma index_of_prefix: "y \<in> set as \<Longrightarrow> index_of (as @ bs) y < length as"
  unfolding index_of_def by (induction as) auto

lemma concat_map_Nil: "concat (map f xs) = [] \<longleftrightarrow> (\<forall>x \<in> set xs. f x = [])"
  by simp

definition fixed_path :: "controller \<Rightarrow> route_action \<Rightarrow> bool" where
  "fixed_path c act \<longleftrightarrow> act \<in> {RResequence, RDisplayName, RGroupBy} \<or> (act = RDefaultValues \<and> ct_create_request c \<noteq> None)"

lemma static_routes_checked:
  assumes "check_controller params mi ac = []" "ac_model ac \<noteq> None" "fixed_path (ac_class ac) act"
  shows "check_static_route ac (action_mixin act) (view_name act) = []"
  using assms
  by (auto simp: check_controller_def fixed_path_def action_mixin_def check_resequence_route_def check_display_name_route_def
      check_group_by_route_def check_default_values_route_def split: option.splits if_splits)

lemma static_route_position:
  assumes "check_static_route ac m n = []" "Mixin m \<in> set (ct_mro (ac_class ac))" "ac_model ac \<noteq> None"
  shows "n \<in> set (ac_names ac) \<and>
    (\<forall>other \<in> {''retrieve'', ''update'', ''delete''}. other \<in> set (ac_names ac) \<longrightarrow> index_of (ac_names ac) n \<le> index_of (ac_names ac) other)"
  using assms by (auto simp: check_static_route_def Let_def filter_empty_conv not_less split: if_splits)


lemma map_filter_keys: "map fst (List.map_filter (\<lambda>n. map_option (Pair n) (g n)) ns) = filter (\<lambda>n. g n \<noteq> None) ns"
  by (induction ns) (auto simp: List.map_filter_simps split: option.splits)

lemma map_filter_get: "dict_get (List.map_filter (\<lambda>n. map_option (Pair n) (g n)) ns) n = (if n \<in> set ns then g n else None)"
  by (induction ns) (auto simp: List.map_filter_simps split: option.splits)

lemma sort_uniq_Nil: "sort (uniq xs) = [] \<longleftrightarrow> xs = []"
  using set_uniq [of xs] by (auto simp del: set_uniq simp flip: set_empty)

lemma request_fields_accepted:
  assumes "check_request_schemas ac = []" "(Some r, Some s) \<in> set (ac_requests ac)"
  shows "set (field_names r) \<subseteq> set (field_names s)"
proof -
  from assms(1) have all: "\<forall>pair \<in> set (ac_requests ac). (case pair of (request, service) \<Rightarrow>
      (case request of
         None \<Rightarrow> []
       | Some r \<Rightarrow>
           concat (map (check_request_field (ct_name (ac_class ac)) (bs_name r)) (bs_fields r))
           @ (case service of
                None \<Rightarrow> []
              | Some s \<Rightarrow>
                  (let dropped = sort (uniq (filter (\<lambda>n. n \<notin> set (field_names s)) (field_names r)))
                   in if dropped \<noteq> [] then [Dropped (bs_name r) dropped (bs_name s)] else [])))) = []"
    unfolding check_request_schemas_def Let_def concat_map_Nil .
  from bspec [OF all assms(2)] have "filter (\<lambda>n. n \<notin> set (field_names s)) (field_names r) = []"
    by (simp add: Let_def sort_uniq_Nil split: if_splits)
  then show ?thesis by (auto simp: filter_empty_conv)
qed

definition body_instance :: "body_schema \<Rightarrow> schema_instance \<Rightarrow> bool" where
  "body_instance r x \<longleftrightarrow> set (si_set x) \<subseteq> set (field_names r) \<and> set (field_names r) \<subseteq> fst ` set (si_attrs x)"

lemma path_parameter_checked:
  assumes "check_path_parameters params orm ac = []" "param \<in> set (params (ct_path_prefix (ac_class ac)))"
  shows "\<exists>f. orm_get_field orm (case ac_model ac of None \<Rightarrow> [] | Some m \<Rightarrow> m) param = Some f
    \<and> (\<forall>s. ac_create_body ac = Some s \<or> ac_filter ac = Some s \<longrightarrow> of_name f \<notin> set (field_names s) \<and> param \<notin> set (field_names s))"
proof -
  define problems where "problems = (\<lambda>param.
     case orm_get_field orm (case ac_model ac of None \<Rightarrow> [] | Some m \<Rightarrow> m) param of
          None \<Rightarrow> [UnknownParameter (ct_name (ac_class ac)) param]
        | Some f \<Rightarrow>
            (let declared = (\<lambda>s. sort (uniq (filter (\<lambda>n. n = param \<or> n = of_name f) (field_names s)))) in
             (case ac_filter ac of None \<Rightarrow> [] | Some s \<Rightarrow> if declared s \<noteq> [] then [FilterDeclares (ct_name (ac_class ac)) (declared s) param] else [])
             @ (case ac_create_body ac of None \<Rightarrow> [] | Some s \<Rightarrow> if declared s \<noteq> [] then [BodyDeclares (ct_name (ac_class ac)) (declared s) param] else [])))"
  have "concat (map problems (params (ct_path_prefix (ac_class ac)))) = []"
    using assms(1) unfolding check_path_parameters_def Let_def problems_def .
  with assms(2) have "problems param = []" unfolding concat_map_Nil by blast
  then show ?thesis
    unfolding problems_def Let_def sort_uniq_Nil filter_empty_conv
    by (auto split: option.splits if_splits)
qed


subsection \<open>A controller with the names of its records\<close>

definition names_controller :: controller where
  "names_controller = user_controller\<lparr>ct_mro := [ScopesMixin, Mixin MDisplayName] @ model_controller,
     ct_permission_map := [(''read'', [''totem.user.read'']), (''display_name'', [''totem.user.read''])],
     ct_display_name_response := Some ''UserDisplayName''\<rparr>"

definition user_body :: body_schema where
  "user_body = \<lparr>bs_name = ''UserCreate'', bs_fields =
     [\<lparr>bf_name = ''email'', bf_serialization_alias = None, bf_validation_alias = None\<rparr>,
      \<lparr>bf_name = ''roles'', bf_serialization_alias = None, bf_validation_alias = Some (AliasName ''roleIds'')\<rparr>]\<rparr>"

definition service_body :: body_schema where
  "service_body = user_body\<lparr>bs_name := ''UserInput'', bs_fields := bs_fields user_body
     @ [\<lparr>bf_name = ''is_active'', bf_serialization_alias = None, bf_validation_alias = None\<rparr>]\<rparr>"

definition names_class :: api_class where
  "names_class = \<lparr>ac_class = names_controller, ac_names = class_names names_controller (Some ''User''),
     ac_model = Some ''User'', ac_requests = [(Some user_body, Some service_body)], ac_create_body = Some user_body,
     ac_responses = [], ac_filter = None, ac_orderings = [''-email'']\<rparr>"

definition users_info :: model_info where
  "users_info = \<lparr>mi_orm = [(''User'', \<lparr>om_pk = ''id'', om_fields =
      [\<lparr>of_name = ''id'', of_attname = ''id'', of_relation = None, of_concrete = True, of_virtual = False\<rparr>]\<rparr>)],
     mi_computed = [], mi_generated = []\<rparr>"

lemma names_class_validates: "check_controller id_params users_info names_class = []"
  by code_simp



end
