(* ===== verification/Query_Params.thy ===== *)
theory Query_Params
  imports Response_Fields
begin

text \<open>
  The parameters of a list (\<open>core/api/ordering.py\<close>, \<open>core/api/query_fields.py\<close>,
  \<open>core/api/filters.py\<close>, \<open>core/schemas/types.py\<close>) and the order of a queryset
  (\<open>queryset_order_by_fields\<close> of \<open>core/orm/queryset.py\<close>). A refused parameter is an \<open>Inl\<close>.
\<close>

subsection \<open>Lists of choices\<close>

text \<open>\<open>s.strip()\<close>.\<close>

definition str_strip :: "string \<Rightarrow> string" where
  "str_strip s = rev (dropWhile is_space (rev (dropWhile is_space s)))"

datatype raw_value = RawText string | RawList "string list" | RawOther

datatype param_error =
    NotText
  | InvalidChoices string
  | NoSuchInput string
  | TypeRaised string
  | UnknownColumn string
  | BadLookupSpec string

text \<open>\<open>DelimiterList.validate\<close>, for items that are strings.\<close>

definition delimiter_list :: "char \<Rightarrow> raw_value \<Rightarrow> param_error + string list" where
  "delimiter_list d v =
     (case v of
        RawText s \<Rightarrow> Inr (str_split d s)
      | RawList l \<Rightarrow> Inr (str_split d (str_join [d] l))
      | RawOther \<Rightarrow> Inl NotText)"

text \<open>\<open>MultiChoices.validate\<close>, for choices that are a dictionary.\<close>

definition multi_choices :: "(string \<times> string) list \<Rightarrow> string list \<Rightarrow> param_error + string list" where
  "multi_choices choices given_values =
     (let forbidden = filter (\<lambda>v. v \<notin> set (dict_keys choices)) given_values in
      if forbidden \<noteq> [] then Inl (InvalidChoices (str_join '','' forbidden @ '' are invalid choices.''))
      else Inr (map (\<lambda>v. the (dict_get choices v)) given_values))"

subsection \<open>Ordering\<close>

record ordering_params =
  op_field_map :: "(string \<times> string) list"
  op_defaults :: "string list"

definition is_descending :: "string \<Rightarrow> bool" where
  "is_descending token = starts_with ''-'' token"

definition bare_token :: "string \<Rightarrow> string" where
  "bare_token token = (if is_descending token then drop 1 token else token)"

definition name_in :: "(string \<times> string) list \<Rightarrow> string \<Rightarrow> string" where
  "name_in d n = (case dict_get d n of None \<Rightarrow> n | Some m \<Rightarrow> m)"

text \<open>\<open>Ordering.__init__\<close>: the tokens of a client are the public names; defaults are translated to them.\<close>

definition make_ordering :: "(string \<times> string) list \<Rightarrow> string list \<Rightarrow> string list \<Rightarrow> ordering_params" where
  "make_ordering orm_to_public ordering_fields default_fields =
     (let field_map = fold (\<lambda>f d. dict_put (name_in orm_to_public f) f d) ordering_fields [];
          orm_to_token = fold (\<lambda>(token, f) d. dict_put f token d) field_map [];
          translated = map (\<lambda>f. let token = name_in orm_to_token (bare_token f)
                             in if is_descending f then CHR ''-'' # token else token) default_fields
      in \<lparr>op_field_map = field_map, op_defaults = (if translated = [] then [''pk''] else translated)\<rparr>)"

definition allowed_tokens :: "(string \<times> string) list \<Rightarrow> (string \<times> string) list" where
  "allowed_tokens field_map =
     fold (\<lambda>(k, v) d. dict_put (CHR ''-'' # k) (CHR ''-'' # v) d) field_map field_map"

text \<open>
  The input of a request: what is not sent is the default, validated like the rest. With no
  ordering field the input has no attribute \<open>ordering\<close>.
\<close>

definition ordering_input :: "ordering_params \<Rightarrow> string option \<Rightarrow> param_error + string list" where
  "ordering_input op sent =
     (if op_field_map op = [] then Inl (NoSuchInput ''ordering'')
      else result_bind (delimiter_list (CHR '','')
             (RawText (case sent of None \<Rightarrow> str_join '','' (op_defaults op) | Some s \<Rightarrow> s)))
           (multi_choices (allowed_tokens (op_field_map op))))"

subsection \<open>The order of a queryset\<close>

text \<open>Which fields put their nulls last: those named, or all; \<open>None\<close> cannot be searched.\<close>

datatype nulls_last = AllFields | Named_Fields "string list" | Unspecified

record order_term =
  ot_field :: string
  ot_descending :: bool
  ot_nulls_last :: bool

definition order_name :: "string \<Rightarrow> string" where
  "order_name token = filter (\<lambda>c. c \<noteq> CHR ''-'') token"

definition order_term_of ::
    "(string \<Rightarrow> bool option) \<Rightarrow> nulls_last \<Rightarrow> string \<Rightarrow> param_error + order_term" where
  "order_term_of nullable nl token =
     (let n = order_name token; desc = CHR ''-'' \<in> set token;
          plain = (\<lambda>b. \<lparr>ot_field = n, ot_descending = desc, ot_nulls_last = b\<rparr>)
      in case nl of
           Unspecified \<Rightarrow> Inl (TypeRaised ''argument of type NoneType is not iterable'')
         | AllFields \<Rightarrow> (case nullable n of None \<Rightarrow> Inl (UnknownColumn n) | Some b \<Rightarrow> Inr (plain b))
         | Named_Fields ns \<Rightarrow>
             if n \<in> set ns then (case nullable n of None \<Rightarrow> Inl (UnknownColumn n) | Some b \<Rightarrow> Inr (plain b))
             else Inr (plain False))"

text \<open>\<open>nullable\<close> is \<open>_meta.get_field(name).null\<close>, \<open>None\<close> being its \<open>FieldDoesNotExist\<close>.\<close>

definition queryset_order_by_fields ::
    "string \<Rightarrow> (string \<Rightarrow> bool option) \<Rightarrow> nulls_last \<Rightarrow> bool \<Rightarrow> string list \<Rightarrow> param_error + order_term list" where
  "queryset_order_by_fields pk nullable nl add_pk tokens =
     result_map (order_term_of nullable nl)
       (if add_pk \<and> pk \<notin> set tokens \<and> CHR ''-'' # pk \<notin> set tokens then tokens @ [pk] else tokens)"

subsection \<open>Fields\<close>

definition fields_input :: "(string \<times> string) list \<Rightarrow> string option \<Rightarrow> param_error + string list" where
  "fields_input field_map sent =
     (if field_map = [] then Inl (NoSuchInput ''fields'')
      else result_bind (delimiter_list (CHR '','')
             (RawText (case sent of None \<Rightarrow> str_join '','' (dict_keys field_map) | Some s \<Rightarrow> s)))
           (multi_choices field_map))"

subsection \<open>Multi-valued filters\<close>

definition NULL_SENTINEL :: string where
  "NULL_SENTINEL = ''null''"

text \<open>An item of a parameter, and what it is split into: \<open>None\<close> stands for no value.\<close>

datatype filter_item = ItemText string | ItemNumber int

definition split_item :: "bool \<Rightarrow> filter_item \<Rightarrow> filter_item option list" where
  "split_item allow_null item =
     (case item of
        ItemNumber i \<Rightarrow> [Some (ItemNumber i)]
      | ItemText s \<Rightarrow>
          map (\<lambda>part. if allow_null \<and> part = NULL_SENTINEL then None else Some (ItemText part))
            (filter (\<lambda>part. part \<noteq> []) (map str_strip (str_split (CHR '','') s))))"

definition split_values :: "bool \<Rightarrow> filter_item list option \<Rightarrow> filter_item option list option" where
  "split_values allow_null v =
     (case v of
        None \<Rightarrow> None
      | Some items \<Rightarrow>
          (let found = concat (map (split_item allow_null) items) in if found = [] then None else Some found))"

text \<open>The condition a field compiles to: \<open>Q()\<close>, or the alternatives of the values and of the null.\<close>

datatype 'v condition = Everything | OneOf string "'v list" | IsNull string | Either "'v condition" "'v condition"

text \<open>The \<open>q\<close> of a field: a lookup, or something else, which a multi-valued field refuses.\<close>

datatype lookup_spec = NoLookup | OneLookup string | SeveralLookups

definition lookup_of :: "string \<Rightarrow> lookup_spec \<Rightarrow> string option" where
  "lookup_of field_name q =
     (case q of
        SeveralLookups \<Rightarrow> None
      | NoLookup \<Rightarrow> Some field_name
      | OneLookup l \<Rightarrow>
          Some (if l = [] then field_name else if starts_with ''__'' l then field_name @ l else l))"

definition multi_value_condition :: "string \<Rightarrow> lookup_spec \<Rightarrow> 'v option list option \<Rightarrow> param_error + 'v condition" where
  "multi_value_condition field_name q v =
     (case lookup_of field_name q of
        None \<Rightarrow> Inl (BadLookupSpec field_name)
      | Some l \<Rightarrow>
          Inr (case v of
             None \<Rightarrow> Everything
           | Some items \<Rightarrow>
               (let found = List.map_filter id items in
                if length found < length items
                then (if found \<noteq> [] then Either (OneOf l found) (IsNull l) else IsNull l)
                else if found \<noteq> [] then OneOf l found else Everything)))"

text \<open>A field that is not multi-valued, or has its own \<open>filter_<name>\<close> method, compiles as ninja compiles it.\<close>

definition resolve_field_expression ::
    "(string \<Rightarrow> 'v option list option \<Rightarrow> param_error + 'v condition) \<Rightarrow> bool \<Rightarrow> bool \<Rightarrow> string \<Rightarrow> lookup_spec
     \<Rightarrow> 'v option list option \<Rightarrow> param_error + 'v condition" where
  "resolve_field_expression base is_multi has_method field_name q v =
     (if \<not> is_multi \<or> has_method then base field_name v else multi_value_condition field_name q v)"

fun satisfies :: "(string \<Rightarrow> 'v option) \<Rightarrow> 'v condition \<Rightarrow> bool" where
  "satisfies r Everything = True"
| "satisfies r (OneOf l vs) = (case r l of None \<Rightarrow> False | Some v \<Rightarrow> v \<in> set vs)"
| "satisfies r (IsNull l) = (r l = None)"
| "satisfies r (Either c d) = (satisfies r c \<or> satisfies r d)"

end
