(* ===== verification/Controller_Views.thy ===== *)
theory Controller_Views
  imports Service_Layer Api_Validation Group_By Query_Params
begin

text \<open>
  The views the mixins of a controller bring (\<open>core/api/controller.py\<close>): the parameters of the
  path narrow what the service may reach, the body of a nested creation is completed from the
  path, a service error is reported under the names the client knows. What a view does to the
  store is what the service operations of \<open>Service_Layer\<close> do. Django's \<open>filter\<close>, pydantic's
  \<open>model_construct\<close> and \<open>TypeAdapter\<close> and the package \<open>dict_deep\<close> are parameters.
\<close>

subsection \<open>A controller and its service\<close>

text \<open>One operation of the access rules is the queryset they leave of the model.\<close>

record api_service =
  as_spec :: service_spec
  as_env :: environment
  as_checks :: checks
  as_str :: "val \<Rightarrow> string"
  as_defaults :: "string list option \<Rightarrow> row"
  as_create :: body_schema
  as_update :: body_schema
  as_sequence :: string
  as_scope :: "string \<Rightarrow> queryset"

record api_backend =
  ab_orm :: orm
  ab_deep_set :: "lookup_tree \<Rightarrow> string list \<Rightarrow> lookup_tree \<Rightarrow> lookup_tree"
  ab_filter :: "string \<Rightarrow> val \<Rightarrow> string + queryset"
  ab_construct :: "(string \<times> val) list \<Rightarrow> string list \<Rightarrow> schema_instance"
  ab_order :: "store \<Rightarrow> string list \<Rightarrow> string list"
  ab_path_params :: "string \<Rightarrow> string list"
  ab_pk :: "string \<Rightarrow> string + val"

record api_controller =
  av_class :: api_class
  av_model :: string
  av_verbose :: string
  av_service :: api_service

datatype loc_item = Step string | Index nat

record api_issue =
  is_loc :: "loc_item list"
  is_msg :: string
  is_key :: "entry_key option"

text \<open>
  How a request ends badly: the 404 and the 422 the views raise, and what they let through: an
  error of the service, a lookup or a response Django refuses, several records where one was
  asked, an entry with no fields to report, a response schema that is not declared.
\<close>

datatype view_error =
    NotFound string
  | Unprocessable "api_issue list"
  | Raised failure
  | BadLookup string
  | Unloadable fetch_error
  | SeveralFound
  | NoItems
  | NoSchema

type_synonym path_values = "(string \<times> val) list option"

definition not_found :: "api_controller \<Rightarrow> view_error" where
  "not_found av = NotFound (capitalize (av_verbose av) @ '' not found.'')"

definition response_schema :: "api_controller \<Rightarrow> string \<Rightarrow> schema_fields option" where
  "response_schema av attr = map_option snd (dict_get (ac_responses (av_class av)) attr)"

subsection \<open>Errors\<close>

definition service_validation_error_to_api_error ::
    "orm \<Rightarrow> string \<Rightarrow> schema_fields option \<Rightarrow> string list \<Rightarrow> (string \<times> string) list \<Rightarrow> multi_error \<Rightarrow> view_error" where
  "service_validation_error_to_api_error orm m schema loc_path given_map exc =
     (let fields_map = dict_update given_map
            (case schema of None \<Rightarrow> [] | Some fs \<Rightarrow> schema_orm_to_public_fields orm m fs);
          report = (\<lambda>(key, r).
            case r of
              RMessages l \<Rightarrow> Inl NoItems
            | RFields d \<Rightarrow> Inr (map (\<lambda>(f, messages).
                \<lparr>is_loc = map Step (loc_path @ [case dict_get fields_map f of None \<Rightarrow> f | Some p \<Rightarrow> p]),
                 is_msg = str_join ''.'' messages, is_key = Some key\<rparr>) d))
      in case result_map report (multi_dict exc) of Inl e \<Rightarrow> e | Inr issues \<Rightarrow> Unprocessable (concat issues))"

definition view_failure :: "api_backend \<Rightarrow> api_controller \<Rightarrow> schema_fields option \<Rightarrow> string list \<Rightarrow> failure \<Rightarrow> view_error" where
  "view_failure ab av schema loc_path e =
     (case e of
        Invalid exc \<Rightarrow> service_validation_error_to_api_error (ab_orm ab) (av_model av) schema loc_path [] exc
      | _ \<Rightarrow> Raised e)"

subsection \<open>The path\<close>

text \<open>\<open>path_parameters.model_dump() if path_parameters else {}\<close>, as one filter.\<close>

definition path_dump :: "path_values \<Rightarrow> (string \<times> val) list" where
  "path_dump path = (case path of None \<Rightarrow> [] | Some d \<Rightarrow> d)"

definition apply_path :: "api_backend \<Rightarrow> path_values \<Rightarrow> queryset \<Rightarrow> view_error + queryset" where
  "apply_path ab path q =
     (case result_map (\<lambda>(k, v). ab_filter ab k v) (path_dump path) of
        Inl e \<Rightarrow> Inl (BadLookup e)
      | Inr qs \<Rightarrow> Inr (\<lambda>s pk. q s pk \<and> (\<forall>f \<in> set qs. f s pk)))"

definition path_prefix_fields :: "api_backend \<Rightarrow> api_controller \<Rightarrow> (string \<times> string) list" where
  "path_prefix_fields ab av =
     fold (\<lambda>param d. dict_put param
         (case orm_get_field (ab_orm ab) (av_model av) param of None \<Rightarrow> param | Some f \<Rightarrow> of_name f) d)
       (ab_path_params ab (ct_path_prefix (ac_class (av_class av)))) []"

subsection \<open>Responses\<close>

definition load_response :: "api_backend \<Rightarrow> api_controller \<Rightarrow> string \<Rightarrow> view_error + (fetch_plan \<times> string list)" where
  "load_response ab av attr =
     (case response_schema av attr of
        None \<Rightarrow> Inl NoSchema
      | Some fs \<Rightarrow>
          (case apply_query_fields (ab_deep_set ab) (ab_orm ab) (av_model av)
                  (response_orm_fields (ab_orm ab) (av_model av) fs None) of
             Inl e \<Rightarrow> Inl (Unloadable e)
           | Inr plan \<Rightarrow> Inr plan))"

text \<open>\<open>afirst()\<close> of the rows with some keys, in the order of the model.\<close>

definition first_row :: "api_backend \<Rightarrow> store \<Rightarrow> string list \<Rightarrow> string option" where
  "first_row ab s pks =
     (case ab_order ab s (filter (\<lambda>pk. pk \<in> set pks) (row_pks s)) of [] \<Rightarrow> None | pk # rest \<Rightarrow> Some pk)"

subsection \<open>Retrieve\<close>

text \<open>A response schema that reads no field of the model leaves the queryset unrestricted.\<close>

definition retrieve_view :: "api_backend \<Rightarrow> api_controller \<Rightarrow> path_values \<Rightarrow> store \<Rightarrow> view_error + string" where
  "retrieve_view ab av path s =
     (case response_schema av ''retrieve_response_schema'' of
        None \<Rightarrow> Inl NoSchema
      | Some fs \<Rightarrow>
          result_bind (apply_path ab path (as_scope (av_service av) ''read'')) (\<lambda>q.
          result_bind
            (if response_orm_fields (ab_orm ab) (av_model av) fs None = [] then Inr ()
             else result_bind (load_response ab av ''retrieve_response_schema'') (\<lambda>plan. Inr ()))
            (\<lambda>u. case selected q s of
               [] \<Rightarrow> Inl (not_found av)
             | [pk] \<Rightarrow> Inr pk
             | _ \<Rightarrow> Inl SeveralFound)))"

subsection \<open>Create\<close>

definition create_input_from_path :: "api_backend \<Rightarrow> api_controller \<Rightarrow> body_schema \<Rightarrow> schema_instance \<Rightarrow> path_values \<Rightarrow> input_data" where
  "create_input_from_path ab av body x path =
     (let path_values = path_dump path in
      if path_values = [] then Schema x
      else let path_fields = path_prefix_fields ab av;
               field_of = (\<lambda>param. the (dict_get path_fields param));
               own = List.map_filter (\<lambda>n. map_option (Pair n) (dict_get (si_attrs x) n)) (field_names body);
               filled = dict_update (map (\<lambda>(param, v). (field_of param, v)) path_values) own
           in Schema (ab_construct ab filled (uniq (si_set x @ map (\<lambda>(param, v). field_of param) path_values))))"

definition create_view ::
    "api_backend \<Rightarrow> api_controller \<Rightarrow> body_schema \<Rightarrow> string \<Rightarrow> path_values \<Rightarrow> schema_instance \<Rightarrow> store
     \<Rightarrow> (view_error + string option) \<times> store" where
  "create_view ab av body pk path x s =
     (let srv = av_service av;
          data = create_input_from_path ab av body x path
      in case service_create (as_spec srv) (as_env srv) (as_checks srv) (as_str srv) (as_defaults srv)
                (bs_name (as_create srv)) (field_names (as_create srv)) [pk] (as_scope srv ''create'') [data] s of
           (Inl e, s') \<Rightarrow> (Inl (view_failure ab av (response_schema av ''create_response_schema'') [''body'', ''request_body''] e), s')
         | (Inr ([], d), s') \<Rightarrow> (Inr None, s')
         | (Inr (new # rest, d), s') \<Rightarrow>
             (case load_response ab av ''create_response_schema'' of
                Inl e \<Rightarrow> (Inl e, s')
              | Inr plan \<Rightarrow> (Inr (first_row ab s' [new]), s')))"

subsection \<open>Update and delete\<close>

text \<open>The service converts the body before it applies the path, so an invalid body comes first.\<close>

definition update_view ::
    "api_backend \<Rightarrow> api_controller \<Rightarrow> path_values \<Rightarrow> input_data \<Rightarrow> store \<Rightarrow> (view_error + string option) \<times> store" where
  "update_view ab av path body s =
     (let srv = av_service av;
          failed = view_failure ab av (response_schema av ''update_response_schema'') [''body'', ''request_body'']
      in case input_values body (bs_name (as_update srv)) (field_names (as_update srv)) True of
           Inl e \<Rightarrow> (Inl (failed e), s)
         | Inr written \<Rightarrow>
             (case to_internal_values (as_env srv) (as_checks srv) (as_str srv) (sp_meta (as_spec srv)) [written] of
                Inl e \<Rightarrow> (Inl (failed e), s)
              | Inr internal \<Rightarrow>
                  (case apply_path ab path (as_scope srv ''update'') of
                     Inl e \<Rightarrow> (Inl e, s)
                   | Inr q \<Rightarrow>
                       (case update_rows (as_spec srv) q (hd internal) s of
                          (Inl e, s') \<Rightarrow> (Inl (failed e), s')
                        | (Inr (pks, d), s') \<Rightarrow>
                            if pks = [] then (Inl (not_found av), s')
                            else (case load_response ab av ''update_response_schema'' of
                                    Inl e \<Rightarrow> (Inl e, s')
                                  | Inr plan \<Rightarrow> (Inr (first_row ab s' pks), s'))))))"

definition delete_view :: "api_backend \<Rightarrow> api_controller \<Rightarrow> path_values \<Rightarrow> store \<Rightarrow> (view_error + unit) \<times> store" where
  "delete_view ab av path s =
     (case apply_path ab path (as_scope (av_service av) ''delete'') of
        Inl e \<Rightarrow> (Inl e, s)
      | Inr q \<Rightarrow>
          (case delete_rows (as_spec (av_service av)) q s of
             (Inl e, s') \<Rightarrow> (Inl (view_failure ab av None [''path'', ''path_parameters''] e), s')
           | (Inr (n, d), s') \<Rightarrow> if n = 0 then (Inl (not_found av), s') else (Inr (), s')))"

subsection \<open>Resequence and display names\<close>

text \<open>The offset of the body is a \<open>Field(0, ge=0)\<close>.\<close>

definition resequence_view ::
    "api_backend \<Rightarrow> api_controller \<Rightarrow> path_values \<Rightarrow> val list \<Rightarrow> nat \<Rightarrow> store \<Rightarrow> (view_error + unit) \<times> store" where
  "resequence_view ab av path ids offset s =
     (let srv = av_service av;
          to_python = env_to_python (as_env srv) (av_model av);
          coerced = List.map_filter to_python ids;
          run = (\<lambda>q. case resequence (as_spec srv) (as_sequence srv) to_python (as_str srv) q ids (int offset) s of
                       (Inl e, s') \<Rightarrow> (Inl (view_failure ab av None [''body'', ''request_body''] e), s')
                     | (Inr (n, d), s') \<Rightarrow> (Inr (), s'))
      in if ids = [] \<or> repeated coerced \<noteq> [] then run (as_scope srv ''update'')
         else case apply_path ab path (as_scope srv ''update'') of
                Inl e \<Rightarrow> (Inl e, s)
              | Inr q \<Rightarrow> run q)"

text \<open>\<open>[value.strip() for value in ids.split(",") if value.strip()]\<close>.\<close>

definition listed_ids :: "string \<Rightarrow> string list" where
  "listed_ids ids = filter (\<lambda>v. v \<noteq> []) (map str_strip (str_split (CHR '','') ids))"

definition id_issues :: "(string \<Rightarrow> string + val) \<Rightarrow> string list \<Rightarrow> api_issue list" where
  "id_issues as_pk ids =
     List.map_filter (\<lambda>(i, v). case as_pk v of
         Inl msg \<Rightarrow> Some \<lparr>is_loc = [Step ''query'', Step ''id'', Index i], is_msg = msg, is_key = None\<rparr>
       | Inr x \<Rightarrow> None)
       (zip [0..<length ids] ids)"

definition display_name_view :: "api_backend \<Rightarrow> api_controller \<Rightarrow> path_values \<Rightarrow> string \<Rightarrow> store \<Rightarrow> view_error + string list" where
  "display_name_view ab av path ids s =
     (let srv = av_service av; given_ids = listed_ids ids in
      case result_map (ab_pk ab) given_ids of
        Inl msg \<Rightarrow> Inl (Unprocessable (id_issues (ab_pk ab) given_ids))
      | Inr pks \<Rightarrow>
          if coerce (as_env srv) (av_model av) pks = [] then Inr []
          else result_bind (apply_path ab path (\<lambda>s pk. True)) (\<lambda>q.
            result_bind (load_response ab av ''display_name_response_schema'') (\<lambda>plan.
            Inr (display_name (as_env srv) (av_model av) (q s) pks))))"


subsection \<open>List and groups\<close>

text \<open>
  The path and the filters of the query in one condition: the path can only narrow. \<open>query\<close> is
  the filter expression of the query parameters, \<open>None\<close> when there are none.
\<close>

definition narrowed :: "api_backend \<Rightarrow> path_values \<Rightarrow> queryset option \<Rightarrow> queryset \<Rightarrow> view_error + queryset" where
  "narrowed ab path query q =
     result_bind (apply_path ab path q) (\<lambda>q'.
       Inr (case query of None \<Rightarrow> q' | Some f \<Rightarrow> (\<lambda>s pk. q' s pk \<and> f s pk)))"

definition list_view ::
    "api_backend \<Rightarrow> api_controller \<Rightarrow> path_values \<Rightarrow> queryset option \<Rightarrow> string list option
     \<Rightarrow> view_error + (queryset \<times> (fetch_plan \<times> string list) option)" where
  "list_view ab av path query asked =
     (case response_schema av ''list_response_schema'' of
        None \<Rightarrow> Inl NoSchema
      | Some fs \<Rightarrow>
          result_bind (narrowed ab path query (as_scope (av_service av) ''read'')) (\<lambda>q.
            case asked of
              None \<Rightarrow> Inr (q, None)
            | Some names \<Rightarrow>
                (let lookups = response_orm_fields (ab_orm ab) (av_model av) fs (Some names) in
                 if lookups = [] then Inr (q, None)
                 else (case apply_query_fields (ab_deep_set ab) (ab_orm ab) (av_model av) lookups of
                         Inl e \<Rightarrow> Inl (Unloadable e)
                       | Inr plan \<Rightarrow> Inr (q, Some plan)))))"

text \<open>The records the grouped aggregates read are those of the list with the same filters.\<close>

definition group_by_view ::
    "api_backend \<Rightarrow> api_controller \<Rightarrow> (string, 'e, 'v::linorder) database
     \<Rightarrow> (string \<Rightarrow> 'v list \<Rightarrow> string list option \<Rightarrow> ('v \<times> 'm) list) \<Rightarrow> string
     \<Rightarrow> 'e declarations \<Rightarrow> 'e declarations \<Rightarrow> (string \<times> string list) list \<Rightarrow> path_values \<Rightarrow> queryset option
     \<Rightarrow> string list \<Rightarrow> string list \<Rightarrow> string list \<Rightarrow> nat option \<Rightarrow> nat \<Rightarrow> store
     \<Rightarrow> view_error + (nat \<times> (string \<times> ('v, 'm) shown) list list)" where
  "group_by_view ab av db records tz ds ms relation_fields path query dims meas order_by limit offset s =
     (case group_by_check (dict_keys ds) (dict_keys ms) dims meas (Some order_by) limit offset of
        Inl e \<Rightarrow> Inl (service_validation_error_to_api_error (ab_orm ab) (av_model av) None
                     [''body'', ''request_body''] [(''dimensions'', ''group_by_fields'')] e)
      | Inr u \<Rightarrow>
          result_bind (narrowed ab path query (as_scope (av_service av) ''read'')) (\<lambda>q.
            case group_by db records tz ds ms id (row_pks s) (selected q s) dims meas (Some order_by) limit offset relation_fields of
              Inl e \<Rightarrow> Inl (Raised (Invalid e))
            | Inr page \<Rightarrow> Inr page))"

subsection \<open>Default values\<close>

definition schema_type :: "schema_fields \<Rightarrow> string \<Rightarrow> py_type option" where
  "schema_type fs n = map_option (\<lambda>(name, a, t). t) (find (\<lambda>(name, a, t). name = n) fs)"

definition relation_schemas :: "orm \<Rightarrow> string \<Rightarrow> schema_fields \<Rightarrow> string list \<Rightarrow> (string \<times> schema_fields \<times> string list) list" where
  "relation_schemas orm m fs names =
     fold (\<lambda>n relations.
       case (case schema_type fs n of None \<Rightarrow> [] | Some t \<Rightarrow> extract_schemas_from_annotation t) of
         [] \<Rightarrow> relations
       | sub # rest \<Rightarrow>
           dict_put n (sub, List.map_filter (\<lambda>l. if starts_with (n @ ''__'') l then Some (drop (length n + 2) l) else None)
             (response_orm_fields orm m fs (Some [n]))) relations) names []"

definition default_values_public_names :: "body_schema \<Rightarrow> (string \<times> string) list" where
  "default_values_public_names body =
     fold (\<lambda>f d. dict_put (bf_name f)
         (case bf_validation_alias f of
            Some (AliasName a) \<Rightarrow> a
          | _ \<Rightarrow> str_or (bf_serialization_alias f) (bf_name f)) d) (bs_fields body) []"

definition default_values_relations :: "api_backend \<Rightarrow> api_controller \<Rightarrow> body_schema \<Rightarrow> (string \<times> schema_fields \<times> string list) list" where
  "default_values_relations ab av body =
     (case response_schema av ''create_response_schema'' of
        None \<Rightarrow> []
      | Some fs \<Rightarrow>
          relation_schemas (ab_orm ab) (av_model av) fs
            (filter (\<lambda>n. case orm_get_field (ab_orm ab) (av_model av) n of None \<Rightarrow> False | Some f \<Rightarrow> of_relation f \<noteq> None)
              (field_names body)))"

definition default_values_lookups :: "api_backend \<Rightarrow> api_controller \<Rightarrow> body_schema \<Rightarrow> string list \<Rightarrow> string list" where
  "default_values_lookups ab av body names =
     (let relations = default_values_relations ab av body in
      concat (map (\<lambda>n. case dict_get relations n of
          None \<Rightarrow> [n]
        | Some (sub, lookups) \<Rightarrow> map (\<lambda>l. n @ ''__'' @ l) lookups) names))"

text \<open>\<open>asked\<close> are the fields of the query, by their names in the body; all of them by default.\<close>

definition default_values_view ::
    "api_backend \<Rightarrow> api_controller \<Rightarrow> body_schema \<Rightarrow> string list option \<Rightarrow> view_error + (string \<times> val) list" where
  "default_values_view ab av body asked =
     (let srv = av_service av;
          names = (case asked of None \<Rightarrow> field_names body | Some l \<Rightarrow> l);
          public_names = default_values_public_names body
      in case default_values (as_env srv) (sp_meta (as_spec srv)) (as_defaults srv)
                (Some (default_values_lookups ab av body names)) of
           Inl e \<Rightarrow> Inl (Raised e)
         | Inr found \<Rightarrow>
             Inr (fold (\<lambda>(n, v) d. case dict_get public_names n of None \<Rightarrow> d | Some p \<Rightarrow> dict_put p v d) found []))"

end
