(* ===== verification/Controller_View_Laws.thy ===== *)
theory Controller_View_Laws
  imports Controller_Views Api_Validation_Laws Response_Plan
begin

text \<open>
  What the views of a controller reach and store: an update or a deletion stays under its path
  and in the scope of its user, a nested creation is filed under its path, an error of the
  service is always reported.
\<close>

subsection \<open>What a path selects\<close>

definition path_served :: "api_backend \<Rightarrow> path_values \<Rightarrow> bool" where
  "path_served ab path \<longleftrightarrow> (\<forall>(k, v) \<in> set (path_dump path). is_inr (ab_filter ab k v))"

definition reached :: "api_backend \<Rightarrow> path_values \<Rightarrow> queryset \<Rightarrow> queryset" where
  "reached ab path q s pk \<longleftrightarrow> q s pk
     \<and> (\<forall>(k, v) \<in> set (path_dump path). case ab_filter ab k v of Inl e \<Rightarrow> False | Inr f \<Rightarrow> f s pk)"

lemma result_map_filters:
  "result_map (\<lambda>(k, v). g k v) kvs = Inr qs \<Longrightarrow>
   (\<forall>(k, v) \<in> set kvs. is_inr (g k v)) \<and> ((\<forall>f \<in> set qs. f s pk) \<longleftrightarrow> (\<forall>(k, v) \<in> set kvs. case g k v of Inl e \<Rightarrow> False | Inr f \<Rightarrow> f s pk))"
proof (induction kvs arbitrary: qs)
  case (Cons kv kvs)
  obtain k v where kv: "kv = (k, v)" by (cases kv)
  from Cons.prems obtain f rest where f: "g k v = Inr f" "result_map (\<lambda>(k, v). g k v) kvs = Inr rest" "qs = f # rest"
    by (auto simp: kv result_bind_eq_Inr)
  from Cons.IH [OF f(2)] f(1,3) show ?case by (simp add: kv)
qed simp

lemma result_map_refused:
  "result_map (\<lambda>(k, v). g k v) kvs = Inl e \<Longrightarrow> \<not> (\<forall>(k, v) \<in> set kvs. is_inr (g k v))"
proof (induction kvs)
  case (Cons kv kvs)
  obtain k v where kv: "kv = (k, v)" by (cases kv)
  show ?case
  proof (cases "g k v")
    case (Inr f)
    with Cons.prems have "result_map (\<lambda>(k, v). g k v) kvs = Inl e"
      by (cases "result_map (\<lambda>(k, v). g k v) kvs") (simp_all add: kv)
    with Cons.IH show ?thesis by (simp add: kv)
  qed (simp add: kv)
qed simp

lemma apply_path_served:
  "path_served ab path \<Longrightarrow> apply_path ab path q = Inr (reached ab path q)"
  "\<not> path_served ab path \<Longrightarrow> \<exists>e. apply_path ab path q = Inl (BadLookup e)"
proof -
  let ?filters = "result_map (\<lambda>(k, v). ab_filter ab k v) (path_dump path)"
  show "apply_path ab path q = Inr (reached ab path q)" if "path_served ab path"
  proof (cases ?filters)
    case (Inl e)
    from result_map_refused [OF Inl] that show ?thesis by (simp add: path_served_def)
  next
    case (Inr qs)
    from result_map_filters [OF Inr] show ?thesis
      by (auto simp: apply_path_def Inr reached_def fun_eq_iff)
  qed
  show "\<exists>e. apply_path ab path q = Inl (BadLookup e)" if "\<not> path_served ab path"
  proof (cases ?filters)
    case (Inr qs)
    from result_map_filters [OF Inr] that show ?thesis by (simp add: path_served_def)
  qed (simp add: apply_path_def)
qed

subsection \<open>Update\<close>

definition body_accepted :: "api_controller \<Rightarrow> input_data \<Rightarrow> bool" where
  "body_accepted av body \<longleftrightarrow>
     (\<exists>written internal. input_values body (bs_name (as_update (av_service av))) (field_names (as_update (av_service av))) True = Inr written
        \<and> to_internal_values (as_env (av_service av)) (as_checks (av_service av)) (as_str (av_service av))
            (sp_meta (as_spec (av_service av))) [written] = Inr internal)"

lemma result_map_Inl: "result_map f xs = Inl e \<Longrightarrow> \<exists>x \<in> set xs. f x = Inl e"
proof (induction xs)
  case (Cons x xs)
  then show ?case by (cases "f x"; cases "result_map f xs") auto
qed simp

definition fielded :: "multi_error \<Rightarrow> bool" where
  "fielded exc \<longleftrightarrow> (\<forall>(k, v) \<in> set (me_errors exc). \<exists>e. v = Error e)"

lemma reported_issues:
  "(\<exists>issues. service_validation_error_to_api_error orm m schema loc given_map exc = Unprocessable issues)
   \<or> \<not> fielded exc \<and> service_validation_error_to_api_error orm m schema loc given_map exc = NoItems"
proof -
  have entry: "\<exists>k l. (k, Messages l) \<in> set (me_errors exc)" if "(k, RMessages l) \<in> set (multi_dict exc)" for k l
    using that by (force simp: multi_dict_def split: entry.splits)
  show ?thesis
    unfolding service_validation_error_to_api_error_def Let_def
    by (auto simp: fielded_def split: sum.split rendered.splits dest!: result_map_Inl entry) blast
qed

lemma view_failure_cases:
  "view_failure ab av schema loc e = Raised e \<and> (\<forall>exc. e \<noteq> Invalid exc)
   \<or> (\<exists>exc. e = Invalid exc \<and> ((\<exists>issues. view_failure ab av schema loc e = Unprocessable issues)
        \<or> \<not> fielded exc \<and> view_failure ab av schema loc e = NoItems))"
proof (cases e)
  case (Invalid exc)
  with reported_issues [of "ab_orm ab" "av_model av" schema loc "[]" exc] show ?thesis by (simp add: view_failure_def)
qed (simp_all add: view_failure_def)

lemma view_failure_found [simp]: "view_failure ab av schema loc e \<noteq> not_found av"
  using view_failure_cases [of ab av schema loc e] by (auto simp: not_found_def)

lemma bad_lookup_found [simp]: "BadLookup e \<noteq> not_found av"
  by (simp add: not_found_def)

lemma load_response_found [simp]: "load_response ab av attr \<noteq> Inl (not_found av)"
  by (auto simp: load_response_def not_found_def split: option.split sum.split)

lemma update_view_refused:
  "\<not> body_accepted av body \<Longrightarrow> \<exists>e schema loc. update_view ab av path body s = (Inl (view_failure ab av schema loc e), s)"
  "body_accepted av body \<Longrightarrow> \<not> path_served ab path \<Longrightarrow> \<exists>e. update_view ab av path body s = (Inl (BadLookup e), s)"
proof -
  show "\<exists>e schema loc. update_view ab av path body s = (Inl (view_failure ab av schema loc e), s)" if "\<not> body_accepted av body"
    using that by (auto simp: body_accepted_def update_view_def Let_def split: sum.split)
  assume "body_accepted av body" "\<not> path_served ab path"
  with apply_path_served(2) [of ab path "as_scope (av_service av) ''update''"]
  show "\<exists>e. update_view ab av path body s = (Inl (BadLookup e), s)"
    by (auto simp: body_accepted_def update_view_def Let_def)
qed

lemma update_view_runs:
  assumes "body_accepted av body" "path_served ab path"
  shows "\<exists>row schema loc. update_view ab av path body s =
    (case update_rows (as_spec (av_service av)) (reached ab path (as_scope (av_service av) ''update'')) row s of
       (Inl e, s') \<Rightarrow> (Inl (view_failure ab av schema loc e), s')
     | (Inr (pks, d), s') \<Rightarrow>
         if pks = [] then (Inl (not_found av), s')
         else (case load_response ab av ''update_response_schema'' of
                 Inl e \<Rightarrow> (Inl e, s') | Inr plan \<Rightarrow> (Inr (first_row ab s' pks), s')))"
proof -
  from assms(1) obtain written internal where
    "input_values body (bs_name (as_update (av_service av))) (field_names (as_update (av_service av))) True = Inr written"
    "to_internal_values (as_env (av_service av)) (as_checks (av_service av)) (as_str (av_service av))
       (sp_meta (as_spec (av_service av))) [written] = Inr internal"
    by (auto simp: body_accepted_def)
  with apply_path_served(1) [OF assms(2)] show ?thesis
    by (intro exI [of _ "hd internal"] exI [of _ "response_schema av ''update_response_schema''"]
        exI [of _ "[''body'', ''request_body'']"]) (simp add: update_view_def Let_def)
qed

lemma update_nothing: "filter (q s) (row_pks s) = [] \<Longrightarrow> update_rows sp q row s = (Inr ([], []), s)"
proof -
  assume "filter (q s) (row_pks s) = []"
  then have "filter (\<lambda>(pk, r). q s pk) (st_rows s) = []" by (auto simp: row_pks_def filter_empty_conv)
  then show ?thesis by (simp add: update_rows_def atomic_def update_atomic_def multi_error_def)
qed

lemma kept_rows: "(pk, r) \<in> set (st_rows s) \<Longrightarrow> pk \<notin> set pks \<Longrightarrow> st_rows s' = st_rows (write_rows pks vs s) \<Longrightarrow> (pk, r) \<in> set (st_rows s')"
  by (force simp: write_rows_def)

text \<open>
  An update changes no row its path and the access rules do not select, whatever the body,
  and is answered not found exactly when the body is acceptable and nothing is selected.
\<close>

theorem update_stays_under_its_path:
  assumes hook: "\<forall>pks r t. sp_updated_hook (as_spec (av_service av)) pks r t = Inr t"
  shows "(\<forall>(pk, r) \<in> set (st_rows s). \<not> reached ab path (as_scope (av_service av) ''update'') s pk
      \<longrightarrow> (pk, r) \<in> set (st_rows (snd (update_view ab av path body s))))
    \<and> (fst (update_view ab av path body s) = Inl (not_found av) \<longleftrightarrow>
      body_accepted av body \<and> path_served ab path
      \<and> (\<forall>pk \<in> set (row_pks s). \<not> reached ab path (as_scope (av_service av) ''update'') s pk))"
proof (cases "body_accepted av body \<and> path_served ab path")
  case False
  then consider e schema loc where "update_view ab av path body s = (Inl (view_failure ab av schema loc e), s)"
    | e where "update_view ab av path body s = (Inl (BadLookup e), s)"
    using update_view_refused [of av body ab path s] by blast
  then show ?thesis using False by cases auto
next
  case True
  let ?q = "reached ab path (as_scope (av_service av) ''update'')"
  from True update_view_runs obtain row schema loc where view: "update_view ab av path body s =
    (case update_rows (as_spec (av_service av)) ?q row s of
       (Inl e, s') \<Rightarrow> (Inl (view_failure ab av schema loc e), s')
     | (Inr (pks, d), s') \<Rightarrow>
         if pks = [] then (Inl (not_found av), s')
         else (case load_response ab av ''update_response_schema'' of
                 Inl e \<Rightarrow> (Inl e, s') | Inr plan \<Rightarrow> (Inr (first_row ab s' pks), s')))" by blast
  obtain r s' where run: "update_rows (as_spec (av_service av)) ?q row s = (r, s')" by fastforce
  note cases = update_rows_cases [where sp = "as_spec (av_service av)" and q = ?q and vs = row and s = s, unfolded run]
  have none: "filter (?q s) (row_pks s) = [] \<longleftrightarrow> (\<forall>pk \<in> set (row_pks s). \<not> ?q s pk)" by (simp add: filter_empty_conv)
  show ?thesis
  proof (cases r)
    case (Inl e)
    with cases have "s' = s" by simp
    moreover have "filter (?q s) (row_pks s) \<noteq> []"
      using run Inl update_nothing by fastforce
    ultimately show ?thesis using True view run Inl none by auto
  next
    case (Inr ok)
    obtain pks ev where ok: "ok = (pks, ev)" by fastforce
    with Inr cases have pks: "pks = filter (?q s) (row_pks s)" by simp
    have kept: "(pk, x) \<in> set (st_rows s')" if "(pk, x) \<in> set (st_rows s)" "\<not> ?q s pk" for pk x
    proof (cases "pks = []")
      case True
      with cases Inr ok that(1) show ?thesis by simp
    next
      case False
      with cases Inr ok hook have "st_rows s' = st_rows (write_rows pks (without (m2m_names (sp_meta (as_spec (av_service av)))) row) s)"
        by auto
      moreover have "pk \<notin> set pks" using that(2) pks by simp
      ultimately show ?thesis using kept_rows that(1) by blast
    qed
    have "load_response ab av ''update_response_schema'' \<noteq> Inl (not_found av)" by simp
    with True view run Inr ok pks none kept show ?thesis by (auto split: sum.split)
  qed
qed

subsection \<open>Nested creation\<close>

definition constructs :: "api_backend \<Rightarrow> string list \<Rightarrow> bool" where
  "constructs ab declared \<longleftrightarrow>
     (\<forall>given_values names. si_set (ab_construct ab given_values names) = names
        \<and> (\<forall>n \<in> set declared. dict_get given_values n \<noteq> None
             \<longrightarrow> dict_get (si_attrs (ab_construct ab given_values names)) n = dict_get given_values n))"

definition path_field :: "api_backend \<Rightarrow> api_controller \<Rightarrow> string \<Rightarrow> string" where
  "path_field ab av param =
     (case orm_get_field (ab_orm ab) (av_model av) param of None \<Rightarrow> param | Some f \<Rightarrow> of_name f)"

text \<open>A nested prefix as ninja reads it: a value per parameter, each naming its own field of the input.\<close>

definition nested_path :: "api_backend \<Rightarrow> api_controller \<Rightarrow> path_values \<Rightarrow> bool" where
  "nested_path ab av path \<longleftrightarrow>
     (let d = path_dump path; meta = sp_meta (as_spec (av_service av)) in
      d \<noteq> [] \<and> distinct (map (path_field ab av) (dict_keys d))
      \<and> set (dict_keys d) \<subseteq> set (ab_path_params ab (ct_path_prefix (ac_class (av_class av))))
      \<and> (\<forall>(param, v) \<in> set d. v \<noteq> Null \<and> path_field ab av param \<in> set (field_names (as_create (av_service av)))
           \<and> path_field ab av param \<in> set (fk_names meta) \<and> path_field ab av param \<notin> set (m2m_names meta)))"

lemma keyed_fold: "dict_get (fold (\<lambda>p d. dict_put p (g p) d) ps d) k = (if k \<in> set ps then Some (g k) else dict_get d k)"
  by (induction ps arbitrary: d) auto

lemma path_prefix_get:
  "param \<in> set (ab_path_params ab (ct_path_prefix (ac_class (av_class av)))) \<Longrightarrow>
   dict_get (path_prefix_fields ab av) param = Some (path_field ab av param)"
  by (simp add: path_prefix_fields_def path_field_def keyed_fold)

lemma body_carries_no_path_field:
  assumes "check_controller (ab_path_params ab) mi (av_class av) = []" "mi_orm mi = ab_orm ab"
    and "ac_model (av_class av) = Some (av_model av)" "ac_create_body (av_class av) = Some body"
    and "param \<in> set (ab_path_params ab (ct_path_prefix (ac_class (av_class av))))"
  shows "path_field ab av param \<notin> set (field_names body)"
proof -
  from assms(1,3) have "check_path_parameters (ab_path_params ab) (mi_orm mi) (av_class av) = []"
    by (auto simp: check_controller_def)
  from path_parameter_checked [OF this assms(5)] assms(2-4) show ?thesis
    by (auto simp: path_field_def)
qed

lemma created_value:
  assumes "create_values overridden schema declared [Schema y] = Inr rows" "n \<in> set declared" "n \<in> set (si_set y)"
    and "dict_get (si_attrs y) n = Some v"
  shows "\<exists>row. rows = [row] \<and> dict_get row n = Some v"
proof -
  let ?written = "List.map_filter (\<lambda>n. map_option (Pair n) (dict_get (si_attrs y) n)) declared"
  have "dict_get ?written n = Some v" using assms(2,4) by (simp add: map_filter_get)
  moreover have "n \<notin> set (dict_keys (filter (\<lambda>(k, w). k \<in> set (unset_names declared y)) d))" for d :: "(string \<times> val) list"
    using assms(3) by (auto simp: unset_names_def)
  ultimately show ?thesis using assms(1)
    by (auto simp: create_values_def input_values_def Let_def dict_get_update_other split: if_splits)
qed

lemma internal_item_get:
  "internal_item env m item row \<Longrightarrow> distinct (dict_keys item) \<Longrightarrow> dict_get item n = Some v \<Longrightarrow>
   \<exists>w. internal_value env m n v = Some w \<and> dict_get row n = Some w"
proof (induction item arbitrary: row)
  case (Cons kv item)
  obtain k x where kv: "kv = (k, x)" by (cases kv)
  from Cons.prems(1) obtain w rest where row: "row = (k, w) # rest" "internal_value env m k x = Some w" "internal_item env m item rest"
    by (auto simp: internal_item_def kv list_all2_Cons1)
  show ?case
  proof (cases "n = k")
    case True
    with row Cons.prems(3) kv show ?thesis by simp
  next
    case False
    with Cons.IH [OF row(3)] Cons.prems(2,3) kv row(1) show ?thesis by simp
  qed
qed simp

lemma create_view_stores:
  assumes "create_view ab av body pk path x s = (Inr r, s')"
    and "relations_served (as_env (av_service av)) (sp_meta (as_spec (av_service av)))"
    and "distinct (field_names (as_create (av_service av)))" "distinct (row_pks s)" "pk \<notin> set (row_pks s)"
    and "\<forall>pks t. sp_created_hook (as_spec (av_service av)) pks t = Inr t"
    and "create_input_from_path ab av body x path = Schema y"
    and "n \<in> set (field_names (as_create (av_service av)))" "n \<in> set (si_set y)" "dict_get (si_attrs y) n = Some v"
    and "n \<notin> set (m2m_names (sp_meta (as_spec (av_service av))))"
  shows "\<exists>row w. (pk, row) \<in> set (st_rows s') \<and> (\<forall>row'. (pk, row') \<in> set (st_rows s') \<longrightarrow> row' = row)
    \<and> dict_get row n = Some w \<and> internal_value (as_env (av_service av)) (sp_meta (as_spec (av_service av))) n v = Some w"
proof -
  let ?srv = "av_service av"
  from assms(1,7) obtain created ev where run: "service_create (as_spec ?srv) (as_env ?srv) (as_checks ?srv) (as_str ?srv)
      (as_defaults ?srv) (bs_name (as_create ?srv)) (field_names (as_create ?srv)) [pk] (as_scope ?srv ''create'') [Schema y] s
      = (Inr (created, ev), s')"
    by (auto simp: create_view_def Let_def split: sum.splits prod.splits list.splits)
  have fresh: "distinct (row_pks s @ [pk])" using assms(4,5) by simp
  from creation_stores [OF assms(2,3) fresh _ run] obtain rows internal s2 where
    rows: "create_values (as_defaults ?srv) (bs_name (as_create ?srv)) (field_names (as_create ?srv)) [Schema y] = Inr rows"
    and items: "list_all2 (internal_item (as_env ?srv) (sp_meta (as_spec ?srv))) rows internal"
    and s2: "st_rows s2 = st_rows (inserted (as_spec ?srv) [pk] internal s)" "sp_created_hook (as_spec ?srv) [pk] s2 = Inr s'"
    by auto
  from created_value [OF rows assms(8,9,10)] obtain given_row where g: "rows = [given_row]" "dict_get given_row n = Some v" by blast
  from items g(1) obtain row where row: "internal = [row]" "internal_item (as_env ?srv) (sp_meta (as_spec ?srv)) given_row row"
    by (auto simp: list_all2_Cons1)
  have "distinct (dict_keys given_row)" using create_values_keys [OF rows assms(3)] g(1) by simp
  from internal_item_get [OF row(2) this g(2)] obtain w where w:
    "internal_value (as_env ?srv) (sp_meta (as_spec ?srv)) n v = Some w" "dict_get row n = Some w" by blast
  have "st_rows s' = st_rows s @ [(pk, without (m2m_names (sp_meta (as_spec ?srv))) row)]"
    using s2 assms(6) by (simp add: inserted_def row(1))
  moreover have "dict_get (without (m2m_names (sp_meta (as_spec ?srv))) row) n = Some w"
    using w(2) assms(11) by (simp add: without_def map_of_filter_key)
  ultimately show ?thesis using w(1) assms(5)
    by (intro exI [of _ "without (m2m_names (sp_meta (as_spec ?srv))) row"] exI [of _ w]) (force simp: row_pks_def)
qed

lemma nested_input:
  assumes "nested_path ab av path" "constructs ab (field_names (as_create (av_service av)))"
  shows "\<exists>y. create_input_from_path ab av body x path = Schema y
    \<and> (\<forall>(param, v) \<in> set (path_dump path). path_field ab av param \<in> set (si_set y)
         \<and> dict_get (si_attrs y) (path_field ab av param) = Some v)
    \<and> (\<forall>n \<in> set (si_set x) \<inter> set (field_names body) \<inter> set (field_names (as_create (av_service av))).
         n \<notin> path_field ab av ` set (dict_keys (path_dump path)) \<longrightarrow>
         n \<in> set (si_set y) \<and> (dict_get (si_attrs x) n \<noteq> None \<longrightarrow> dict_get (si_attrs y) n = dict_get (si_attrs x) n))"
proof -
  let ?d = "path_dump path" and ?field = "path_field ab av"
  have d: "?d \<noteq> []" "distinct (map ?field (dict_keys ?d))"
    "\<And>param v. (param, v) \<in> set ?d \<Longrightarrow> dict_get (path_prefix_fields ab av) param = Some (?field param)"
    "\<And>param v. (param, v) \<in> set ?d \<Longrightarrow> ?field param \<in> set (field_names (as_create (av_service av)))"
    using assms(1) path_prefix_get by (force simp: nested_path_def Let_def)+
  let ?own = "List.map_filter (\<lambda>n. map_option (Pair n) (dict_get (si_attrs x) n)) (field_names body)"
  let ?new = "map (\<lambda>(param, v). (?field param, v)) ?d"
  let ?names = "uniq (si_set x @ map (\<lambda>(param, v). ?field param) ?d)"
  have same: "map (\<lambda>(param, v). (the (dict_get (path_prefix_fields ab av) param), v)) ?d = ?new"
    "map (\<lambda>(param, v). the (dict_get (path_prefix_fields ab av) param)) ?d = map (\<lambda>(param, v). ?field param) ?d"
    using d(3) by (auto intro!: map_cong)
  have input: "create_input_from_path ab av body x path = Schema (ab_construct ab (dict_update ?new ?own) ?names)"
    using d(1) by (simp add: create_input_from_path_def Let_def same)
  have keys: "dict_keys ?new = map ?field (dict_keys ?d)" by (simp add: case_prod_unfold)
  have new: "dict_get (dict_update ?new ?own) k = (case dict_get ?new k of Some v \<Rightarrow> Some v | None \<Rightarrow> dict_get ?own k)" for k
    by (rule dict_update_get) (unfold keys, rule d(2))
  have "dict_get (dict_update ?new ?own) (?field param) = Some v" if "(param, v) \<in> set ?d" for param v
  proof -
    have "(?field param, v) \<in> set ?new" using that by force
    moreover have "distinct (dict_keys ?new)" unfolding keys by (rule d(2))
    ultimately have "dict_get ?new (?field param) = Some v" by (rule map_of_is_SomeI [rotated])
    with new show ?thesis by simp
  qed
  moreover have "dict_get (dict_update ?new ?own) n = dict_get (si_attrs x) n"
    if "n \<in> set (field_names body)" "n \<notin> ?field ` set (dict_keys ?d)" for n
  proof -
    have "n \<notin> set (dict_keys ?new)" unfolding keys set_map by (rule that(2) [unfolded set_map])
    from dict_get_update_other [OF this] show ?thesis using that(1) by (simp only: map_filter_get if_True)
  qed
  ultimately show ?thesis
    unfolding input using assms(2) d(4) by (auto simp: constructs_def)
qed


subsection \<open>The lines of a budget\<close>

definition line_body :: body_schema where
  "line_body = \<lparr>bs_name = ''LineCreate'', bs_fields = [\<lparr>bf_name = ''label'', bf_serialization_alias = None, bf_validation_alias = None\<rparr>]\<rparr>"

definition line_input :: body_schema where
  "line_input = \<lparr>bs_name = ''LineInput'', bs_fields = bs_fields line_body
     @ [\<lparr>bf_name = ''budget'', bf_serialization_alias = None, bf_validation_alias = None\<rparr>]\<rparr>"

definition line_orm :: orm where
  "line_orm = [(''Line'', \<lparr>om_pk = ''id'', om_fields =
     [\<lparr>of_name = ''id'', of_attname = ''id'', of_relation = None, of_concrete = True, of_virtual = False\<rparr>,
      \<lparr>of_name = ''label'', of_attname = ''label'', of_relation = None, of_concrete = True, of_virtual = False\<rparr>,
      \<lparr>of_name = ''budget'', of_attname = ''budget_id'', of_relation = Some (ManyToOne, ''Budget''), of_concrete = True, of_virtual = False\<rparr>]\<rparr>),
     (''Budget'', \<lparr>om_pk = ''id'', om_fields = []\<rparr>)]"

definition line_schema :: schema_fields where
  "line_schema = [(''id'', None, TPlain), (''label'', None, TPlain)]"

definition line_backend :: api_backend where
  "line_backend = \<lparr>ab_orm = line_orm, ab_deep_set = put_lookup,
     ab_filter = (\<lambda>k v. case v of Str seg \<Rightarrow>
         if k = ''id'' then Inr (\<lambda>s pk. pk = seg)
         else if k = ''budget_id'' then Inr (\<lambda>s pk. case dict_get (st_rows s) pk of None \<Rightarrow> False
              | Some r \<Rightarrow> dict_get r ''budget'' = Some (Ref ''Budget'' seg))
         else Inl k
       | _ \<Rightarrow> Inl k),
     ab_construct = (\<lambda>vs names. \<lparr>si_attrs = vs, si_set = names\<rparr>),
     ab_order = (\<lambda>s pks. pks),
     ab_path_params = (\<lambda>p. if p = ''/budgets/{budget_id}/lines'' then [''budget_id''] else []),
     ab_pk = (\<lambda>x. Inr (Str x))\<rparr>"

definition line_service :: api_service where
  "line_service = \<lparr>as_spec = demo_spec\<lparr>sp_meta := \<lparr>mm_label = ''Line'', mm_fields =
       [\<lparr>fm_name = ''label'', fm_is_relation = False, fm_concrete = True, fm_many_to_many = False, fm_null = False,
         fm_foreign_key = False, fm_m2m_field = False, fm_related = None\<rparr>,
        \<lparr>fm_name = ''budget'', fm_is_relation = True, fm_concrete = True, fm_many_to_many = False, fm_null = False,
         fm_foreign_key = True, fm_m2m_field = False, fm_related = Some ''Budget''\<rparr>]\<rparr>\<rparr>,
     as_env = \<lparr>env_services = [(''Budget'', ''BudgetService'')], env_rows = (\<lambda>m. [''b1'', ''b2'']),
       env_readable = (\<lambda>m pk. pk = ''b1''), env_to_python = (\<lambda>m v. case v of Str k \<Rightarrow> Some k | _ \<Rightarrow> None)\<rparr>,
     as_checks = \<lparr>ck_validators = (\<lambda>f v. None), ck_validate = (\<lambda>f v. None), ck_null_message = (\<lambda>f. [])\<rparr>,
     as_str = (\<lambda>v. []), as_defaults = (\<lambda>ns. []), as_create = line_input, as_update = line_body,
     as_sequence = ''sequence'', as_scope = (\<lambda>operation s pk. True)\<rparr>"

definition line_class :: api_class where
  "line_class = \<lparr>ac_class = user_controller\<lparr>ct_path_prefix := ''/budgets/{budget_id}/lines''\<rparr>,
     ac_names = [''list'', ''create'', ''default_values'', ''retrieve'', ''update'', ''delete''], ac_model = Some ''Line'',
     ac_requests = [(Some line_body, Some line_input), (Some line_body, Some line_body)], ac_create_body = Some line_body,
     ac_responses = map (\<lambda>n. (n @ ''_response_schema'', line_body\<lparr>bs_name := ''Line''\<rparr>, line_schema)) [''create'', ''update'', ''retrieve'', ''list''],
     ac_filter = None, ac_orderings = []\<rparr>"

definition line_controller :: api_controller where
  "line_controller = \<lparr>av_class = line_class, av_model = ''Line'', av_verbose = ''line'', av_service = line_service\<rparr>"

definition line_info :: model_info where
  "line_info = \<lparr>mi_orm = line_orm, mi_computed = [], mi_generated = []\<rparr>"

definition line_store :: store where
  "line_store = \<lparr>st_rows = [(''l1'', [(''label'', Str ''a''), (''budget'', Ref ''Budget'' ''b1'')]),
     (''l2'', [(''label'', Str ''b''), (''budget'', Ref ''Budget'' ''b2'')])], st_links = [], st_next = 0\<rparr>"

definition new_label :: schema_instance where
  "new_label = \<lparr>si_attrs = [(''label'', Str ''c'')], si_set = [''label'']\<rparr>"

lemma line_class_validates: "check_controller (ab_path_params line_backend) line_info (av_class line_controller) = []"
  by code_simp

theorem update_stays_under_its_path_witness:
  "fst (update_view line_backend line_controller (Some [(''budget_id'', Str ''b1''), (''id'', Str ''l2'')]) (Schema new_label) line_store)
     = Inl (not_found line_controller)
   \<and> (''l2'', [(''label'', Str ''b''), (''budget'', Ref ''Budget'' ''b2'')]) \<in> set (st_rows (snd
       (update_view line_backend line_controller (Some [(''budget_id'', Str ''b1''), (''id'', Str ''l2'')]) (Schema new_label) line_store)))"
proof -
  let ?path = "Some [(''budget_id'', Str ''b1''), (''id'', Str ''l2'')]"
  have hook: "\<forall>pks r t. sp_updated_hook (as_spec (av_service line_controller)) pks r t = Inr t"
    by (simp add: line_controller_def line_service_def demo_spec_def)
  have out: "\<not> reached line_backend ?path (as_scope (av_service line_controller) ''update'') line_store pk"
    if "pk \<in> {''l1'', ''l2''}" for pk
    using that by (auto simp: reached_def path_dump_def line_backend_def line_store_def)
  have "is_inr (input_values (Schema new_label) (bs_name (as_update line_service)) (field_names (as_update line_service)) True)"
    "is_inr (to_internal_values (as_env line_service) (as_checks line_service) (as_str line_service) (sp_meta (as_spec line_service))
       [ [(''label'', Str ''c'')] ])"
    "input_values (Schema new_label) (bs_name (as_update line_service)) (field_names (as_update line_service)) True = Inr [(''label'', Str ''c'')]"
    by code_simp+
  moreover have "is_inr r \<Longrightarrow> \<exists>v. r = Inr v" for r :: "failure + (string \<times> val) list list" by (cases r) auto
  ultimately have "body_accepted line_controller (Schema new_label)"
    unfolding body_accepted_def by (simp add: line_controller_def)
  moreover have "path_served line_backend ?path" by (simp add: path_served_def path_dump_def line_backend_def)
  ultimately show ?thesis
    using update_stays_under_its_path [OF hook, of line_store line_backend ?path "Schema new_label"] out
    by (simp add: line_store_def row_pks_def)
qed


end
