(* ===== verification/Controller_View_Errors.thy ===== *)
theory Controller_View_Errors
  imports Controller_View_Laws
begin

text \<open>
  What a client is told when the service of a controller refuses: every validation error of a
  write reaches it as a 422 located in the request. A service whose hooks report their errors by
  field never breaks the conversion.
\<close>

subsection \<open>Errors by field\<close>

lemma fielded_empty [simp]: "fielded (multi_error [] code)"
  by (simp add: fielded_def multi_error_def)

lemma fielded_add: "fielded err \<Longrightarrow> fielded (add_error k e err)"
  using set_dict_put [of k "Error e" "me_errors err"] by (force simp: fielded_def add_error_def)

lemma check_items_fielded: "check_items ck m i data err = Inr err' \<Longrightarrow> fielded err \<Longrightarrow> fielded err'"
proof (induction ck m i data err rule: check_items.induct)
  case (2 ck m i item rest err)
  from 2(2) obtain e where "check_items ck m (Suc i) rest (if e = [] then err else add_error (At i) e err) = Inr err'"
    by (auto simp: result_bind_eq_Inr)
  from 2(1) [OF this] 2(3) fielded_add show ?case by simp
qed simp

lemma convert_item_fielded: "fielded err \<Longrightarrow> fielded (snd (convert_item str m2m fk i item err))"
proof (induction item arbitrary: err)
  case (Cons kv item)
  obtain n v where kv: "kv = (n, v)" by (cases kv)
  let ?e = "snd (convert_field str m2m fk n v)"
  have "fielded (if ?e = [] then err else add_error (At i) ?e err)" using Cons.prems fielded_add by simp
  from Cons.IH [OF this] show ?case by (simp add: kv convert_item_Cons Let_def del: convert_item.simps)
qed simp

lemma convert_items_fielded: "fielded err \<Longrightarrow> fielded (snd (convert_items str m2m fk i data err))"
proof (induction str m2m fk i data err rule: convert_items.induct)
  case (2 str m2m fk i item rest err)
  obtain vals err1 where c: "convert_item str m2m fk i item err = (vals, err1)" by fastforce
  with convert_item_fielded [OF 2(2), of str m2m fk i item] have "fielded err1" by simp
  with 2(1) [OF c [symmetric] refl] c show ?case by (simp add: Let_def case_prod_unfold)
qed simp

lemma validate_all_fielded: "fielded err \<Longrightarrow> fielded (validate_all sp rows err)"
  by (induction sp rows err rule: validate_all.induct) (auto simp: fielded_add split: option.split)

lemma check_item_not_invalid: "check_item ck m item e \<noteq> Inl (Invalid exc)"
  by (induction ck m item e rule: check_item.induct) (auto split: option.splits)

lemma check_items_not_invalid: "check_items ck m i data err \<noteq> Inl (Invalid exc)"
proof (induction ck m i data err rule: check_items.induct)
  case (2 ck m i item rest err)
  then show ?case using check_item_not_invalid [of ck m item "[]" exc] by (cases "check_item ck m item []") auto
qed simp

lemma to_internal_fielded:
  assumes "to_internal_values env ck str m data = Inl (Invalid exc)"
  shows "fielded exc"
proof (cases "check_items ck m 0 data (multi_error [] ''invalid_data'')")
  case (Inl e)
  with assms check_items_not_invalid [of ck m 0 data "multi_error [] ''invalid_data''" exc] show ?thesis
    by (simp add: to_internal_values_def)
next
  case (Inr err)
  with check_items_fielded [OF Inr] have err: "fielded err" by simp
  show ?thesis
  proof (cases "me_errors err = []")
    case True
    with assms Inr have "\<exists>m2m fk. snd (convert_items str m2m fk 0 data (multi_error [] ''invalid_data'')) = exc"
      unfolding to_internal_values_def result_bind_def
      by (auto split: sum.splits prod.splits if_splits simp: resolve_each_not_invalid) (metis snd_conv)
    then show ?thesis using convert_items_fielded [OF fielded_empty] by blast
  qed (use assms Inr err in \<open>simp add: to_internal_values_def\<close>)
qed

definition hooks_fielded :: "service_spec \<Rightarrow> bool" where
  "hooks_fielded sp \<longleftrightarrow>
     (\<forall>pks r t exc. sp_created_hook sp pks t = Inl (Invalid exc) \<or> sp_updated_hook sp pks r t = Inl (Invalid exc)
        \<or> sp_deleted_hook sp t = Inl (Invalid exc) \<longrightarrow> fielded exc)"

lemma database_fielded: "database_error_to_validation_error sp e = Invalid exc \<Longrightarrow> fielded exc"
  by (auto simp: database_error_to_validation_error_def global_error_def fielded_def multi_error_def
      split: database_error.splits option.splits)

lemma statement_fielded: "statement sp s = Inl (Invalid exc) \<Longrightarrow> fielded exc"
  by (auto simp: statement_def split: option.splits dest: database_fielded)

lemma result_bind_Inl: "result_bind r f = Inl e \<longleftrightarrow> r = Inl e \<or> (\<exists>x. r = Inr x \<and> f x = Inl e)"
  by (cases r) auto

lemma create_links_fielded: "create_links sp ls s = Inl (Invalid exc) \<Longrightarrow> fielded exc"
  by (induction sp ls s rule: create_links.induct) (auto simp: result_bind_Inl dest: statement_fielded split: if_splits)

lemma update_relations_fielded: "update_relations sp pks rels s = Inl (Invalid exc) \<Longrightarrow> fielded exc"
  by (induction sp pks rels s rule: update_relations.induct)
    (auto simp: result_bind_Inl update_many_to_many_def Let_def dest: statement_fielded split: if_splits)


lemma create_rows_fielded:
  assumes "create_rows sp pks q data s = (Inl (Invalid exc), s')" "hooks_fielded sp"
  shows "fielded exc"
proof -
  let ?err = "validate_all sp (map2 (\<lambda>i d. (At i, d, None)) [0..<length data] data) (multi_error [] ''creation_invalid_data'')"
  have err: "fielded ?err" by (rule validate_all_fielded) simp
  from assms(1) have "create_atomic sp pks q data s = Inl (Invalid exc)"
    by (auto simp: create_rows_def atomic_def split: sum.splits)
  with err assms(2) show ?thesis unfolding create_atomic_def Let_def
    by (auto simp: result_bind_Inl hooks_fielded_def dest: statement_fielded create_links_fielded split: if_splits)
qed

lemma update_rows_fielded:
  assumes "update_rows sp q row s = (Inl (Invalid exc), s')" "hooks_fielded sp"
  shows "fielded exc"
proof -
  let ?err = "validate_all sp (map (\<lambda>(pk, r). (Named pk, row, Some (pk, r))) (filter (\<lambda>(pk, r). q s pk) (st_rows s)))
    (multi_error [] ''update_invalid_data'')"
  have err: "fielded ?err" by (rule validate_all_fielded) simp
  from assms(1) have "update_atomic sp q row s = Inl (Invalid exc)"
    by (auto simp: update_rows_def atomic_def split: sum.splits)
  with err assms(2) show ?thesis unfolding update_atomic_def Let_def
    by (auto simp: result_bind_Inl hooks_fielded_def dest: statement_fielded update_relations_fielded split: if_splits)
qed

lemma delete_rows_fielded:
  assumes "delete_rows sp q s = (Inl (Invalid exc), s')" "hooks_fielded sp"
  shows "fielded exc"
proof -
  from assms(1) have "delete_atomic sp q s = Inl (Invalid exc)"
    by (auto simp: delete_rows_def atomic_def split: sum.splits)
  with assms(2) show ?thesis unfolding delete_atomic_def Let_def
    by (auto simp: result_bind_Inl hooks_fielded_def dest: statement_fielded database_fielded split: sum.splits)
qed

lemma resequence_fielded:
  "resequence sp field to_python str q pks offset s = (Inl (Invalid exc), s') \<Longrightarrow> fielded exc"
  by (auto simp: resequence_def Let_def atomic_def resequence_atomic_def resequence_error_def fielded_def multi_error_def
      split: if_splits sum.splits option.splits)

subsection \<open>Views\<close>

text \<open>An answer: no error, or one that is no failed conversion, with its issues in that part of the request.\<close>

definition reported :: "string list \<Rightarrow> view_error + 'r \<Rightarrow> bool" where
  "reported part r \<longleftrightarrow>
     (\<forall>e. r = Inl e \<longrightarrow> e \<noteq> NoItems
        \<and> (\<forall>issues. e = Unprocessable issues \<longrightarrow> (\<forall>i \<in> set issues. \<exists>n. is_loc i = map Step (part @ [n]))))"

lemma located_issues:
  assumes "service_validation_error_to_api_error orm m schema part given_map exc = Unprocessable issues" "i \<in> set issues"
  shows "\<exists>n. is_loc i = map Step (part @ [n])"
proof -
  define report where "report = (\<lambda>(key, r).
            case r of
              RMessages l \<Rightarrow> Inl NoItems
            | RFields d \<Rightarrow> Inr (map (\<lambda>(f, messages).
                \<lparr>is_loc = map Step (part @ [case dict_get (dict_update given_map
                    (case schema of None \<Rightarrow> [] | Some fs \<Rightarrow> schema_orm_to_public_fields orm m fs)) f of None \<Rightarrow> f | Some p \<Rightarrow> p]),
                 is_msg = str_join ''.'' messages, is_key = Some (key :: entry_key)\<rparr>) d))"
  from assms(1) have "\<exists>iss. result_map report (multi_dict exc) = Inr iss \<and> issues = concat iss"
    unfolding service_validation_error_to_api_error_def Let_def report_def [symmetric]
    by (auto simp: report_def split: sum.splits rendered.splits dest!: result_map_Inl)
  then obtain iss where iss: "result_map report (multi_dict exc) = Inr iss" "issues = concat iss" by blast
  with assms(2) obtain l where l: "l \<in> set iss" "i \<in> set l" by auto
  with result_map_mem(2) [OF iss(1) l(1)] obtain x where "report x = Inr l" by blast
  with l(2) show ?thesis by (auto simp: report_def split: prod.splits rendered.splits)
qed

lemma reported_failure:
  assumes "\<And>exc. e = Invalid exc \<Longrightarrow> fielded exc"
  shows "reported part (Inl (view_failure ab av schema part e))"
proof (cases "\<exists>exc. e = Invalid exc")
  case True
  then obtain exc where exc: "e = Invalid exc" by blast
  with assms reported_issues [of "ab_orm ab" "av_model av" schema part "[]" exc] obtain issues where
    "view_failure ab av schema part e = Unprocessable issues"
    "service_validation_error_to_api_error (ab_orm ab) (av_model av) schema part [] exc = Unprocessable issues"
    by (auto simp: view_failure_def)
  with located_issues show ?thesis by (fastforce simp: reported_def)
next
  case False
  with view_failure_cases [of ab av schema part e] show ?thesis by (auto simp: reported_def)
qed

lemma reported_simps [simp]:
  "reported part (Inr r)" "reported part (Inl (not_found av))" "reported part (Inl (BadLookup e))"
  by (simp_all add: reported_def not_found_def)

lemma reported_load: "load_response ab av attr = Inl e \<Longrightarrow> reported part (Inl e)"
  by (auto simp: load_response_def reported_def split: option.splits sum.splits)

lemma reported_path: "apply_path ab path q = Inl e \<Longrightarrow> reported part (Inl e)"
  by (auto simp: apply_path_def reported_def split: sum.splits)

lemma input_values_not_invalid: "input_values x schema declared b \<noteq> Inl (Invalid exc)"
  by (auto simp: input_values_def split: input_data.split)

lemma service_create_fielded:
  assumes "service_create sp env ck str overridden schema declared pks q data s = (Inl (Invalid exc), s')" "hooks_fielded sp"
  shows "fielded exc"
proof -
  have "create_values overridden schema declared data \<noteq> Inl (Invalid exc)"
    using input_values_not_invalid by (auto simp: create_values_def result_bind_Inl Let_def dest!: result_map_Inl split: if_splits)
  with assms to_internal_fielded create_rows_fielded show ?thesis
    unfolding service_create_def by (auto split: sum.splits)
qed

lemma update_reported:
  assumes "hooks_fielded (as_spec (av_service av))"
  shows "reported [''body'', ''request_body''] (fst (update_view ab av path body s))"
proof -
  note failed = reported_failure [of _ "[''body'', ''request_body'']" ab av "response_schema av ''update_response_schema''"]
  show ?thesis
    unfolding update_view_def Let_def
    by (auto split: sum.split prod.split intro!: failed intro: reported_path reported_load to_internal_fielded
        update_rows_fielded [OF _ assms] simp: input_values_not_invalid)
qed



end
