(* ===== verification/Query_Laws.thy ===== *)
theory Query_Laws
  imports Query_Params Group_Laws
begin

text \<open>
  What the parameters of a list can select: an ordering names declared fields only and always
  decides, a multi-valued filter selects the records that hold one of its values.
\<close>

subsection \<open>Tokens\<close>

definition plain_token :: "string \<Rightarrow> bool" where
  "plain_token t \<longleftrightarrow> CHR '','' \<notin> set t \<and> \<not> starts_with ''-'' t"

lemma bare_token_simps [simp]:
  "bare_token (CHR ''-'' # t) = t" "is_descending (CHR ''-'' # t)" "\<not> starts_with ''-'' t \<Longrightarrow> bare_token t = t"
  by (simp_all add: bare_token_def is_descending_def)

lemma multi_choices_Inr:
  "multi_choices choices vs = Inr r \<longleftrightarrow> set vs \<subseteq> set (dict_keys choices) \<and> r = map (\<lambda>v. the (dict_get choices v)) vs"
  by (auto simp: multi_choices_def Let_def filter_empty_conv)

lemma put_all_get:
  "inj_on g (fst ` set kvs) \<Longrightarrow> distinct (dict_keys kvs) \<Longrightarrow>
   dict_get (fold (\<lambda>(k, v) d. dict_put (g k) (h v) d) kvs d) x
     = (case find (\<lambda>(k, v). g k = x) kvs of Some (k, v) \<Rightarrow> Some (h v) | None \<Rightarrow> dict_get d x)"
proof (induction kvs arbitrary: d)
  case (Cons kv kvs)
  obtain k v where kv: "kv = (k, v)" by (cases kv)
  have "find (\<lambda>(k', v'). g k' = g k) kvs = None"
    using Cons.prems by (auto simp: kv find_None_mem inj_on_def image_iff split_def)
  with Cons kv show ?case by (auto split: option.splits)
qed simp

lemma put_member: "kv \<in> set (dict_put a b d) \<Longrightarrow> kv = (a, b) \<or> kv \<in> set d"
  by (induction d) (auto split: if_splits)

lemma allowed_members:
  "kv \<in> set (fold (\<lambda>(k, v) d. dict_put (CHR ''-'' # k) (CHR ''-'' # v) d) kvs d) \<Longrightarrow>
   kv \<in> set d \<or> (\<exists>(k, v) \<in> set kvs. kv = (CHR ''-'' # k, CHR ''-'' # v))"
proof (induction kvs arbitrary: d)
  case (Cons x kvs)
  obtain k v where x: "x = (k, v)" by (cases x)
  with Cons.IH [of "dict_put (CHR ''-'' # k) (CHR ''-'' # v) d"] Cons.prems
  have "kv \<in> set (dict_put (CHR ''-'' # k) (CHR ''-'' # v) d) \<or> (\<exists>(k, v) \<in> set kvs. kv = (CHR ''-'' # k, CHR ''-'' # v))" by simp
  then show ?case using x put_member [of kv "CHR ''-'' # k" "CHR ''-'' # v" d] by auto
qed simp

lemma allowed_tokens_members:
  "(k, v) \<in> set (allowed_tokens field_map) \<Longrightarrow>
   (k, v) \<in> set field_map \<or> (\<exists>k' v'. (k', v') \<in> set field_map \<and> k = CHR ''-'' # k' \<and> v = CHR ''-'' # v')"
  using allowed_members [of "(k, v)" field_map field_map] by (auto simp: allowed_tokens_def)

lemma allowed_keys:
  "set (dict_keys (allowed_tokens field_map)) = set (dict_keys field_map) \<union> (#) (CHR ''-'') ` set (dict_keys field_map)"
proof -
  have "set (dict_keys (fold (\<lambda>(k, v) d. dict_put (CHR ''-'' # k) (CHR ''-'' # v) d) kvs d))
      = set (dict_keys d) \<union> (#) (CHR ''-'') ` set (dict_keys kvs)" for kvs d :: "(string \<times> string) list"
    by (induction kvs arbitrary: d) (auto simp: dict_keys_put simp del: set_map)
  then show ?thesis by (simp add: allowed_tokens_def)
qed

lemma field_map_members:
  "kv \<in> set (fold (\<lambda>f d. dict_put (g f) f d) fs d) \<Longrightarrow> kv \<in> set d \<or> kv \<in> (\<lambda>f. (g f, f)) ` set fs"
proof (induction fs arbitrary: d)
  case (Cons f fs)
  from Cons.IH [of "dict_put (g f) f d"] Cons.prems
  have "kv \<in> set (dict_put (g f) f d) \<or> kv \<in> (\<lambda>f. (g f, f)) ` set fs" by simp
  then show ?case using put_member [of kv "g f" f d] by auto
qed simp

lemma field_map_keys: "set (dict_keys (fold (\<lambda>f d. dict_put (g f) f d) fs d)) = set (dict_keys d) \<union> g ` set fs"
  by (induction fs arbitrary: d) (auto simp: dict_keys_put simp del: set_map)

lemma str_split_join:
  "ts \<noteq> [] \<Longrightarrow> \<forall>t \<in> set ts. CHR '','' \<notin> set t \<Longrightarrow> str_split (CHR '','') (str_join '','' ts) = ts"
  unfolding str_split_def by (rule split_on_join) auto

subsection \<open>Orderings\<close>

definition ordering_declared :: "(string \<times> string) list \<Rightarrow> string list \<Rightarrow> bool" where
  "ordering_declared orm_to_public fs \<longleftrightarrow> inj_on (name_in orm_to_public) (set fs)
     \<and> (\<forall>f \<in> set fs. plain_token (name_in orm_to_public f) \<and> \<not> starts_with ''-'' f)"

lemma ordering_field_map:
  assumes "ordering_declared orm_to_public fs"
  shows "set (op_field_map (make_ordering orm_to_public fs ds)) = (\<lambda>f. (name_in orm_to_public f, f)) ` set fs"
    (is "set ?map = ?pairs")
proof
  have m: "?map = fold (\<lambda>f d. dict_put (name_in orm_to_public f) f d) fs []" by (simp add: make_ordering_def Let_def)
  show sub: "set ?map \<subseteq> ?pairs" unfolding m using field_map_members [of _ "name_in orm_to_public" fs "[]"] by auto
  show "?pairs \<subseteq> set ?map"
  proof
    fix p assume "p \<in> ?pairs"
    then obtain f where f: "f \<in> set fs" "p = (name_in orm_to_public f, f)" by blast
    have "name_in orm_to_public f \<in> set (dict_keys ?map)" unfolding m field_map_keys using f(1) by simp
    then obtain f' where f': "(name_in orm_to_public f, f') \<in> set ?map" by auto
    with sub have "f' \<in> set fs" "name_in orm_to_public f' = name_in orm_to_public f" by auto
    with assms f(1) have "f' = f" by (auto simp: ordering_declared_def inj_on_def)
    with f(2) f' show "p \<in> set ?map" by simp
  qed
qed

lemma consistent_put:
  "\<forall>(token, f) \<in> set kvs. token = h f \<Longrightarrow>
   dict_get (fold (\<lambda>(token, f) d. dict_put f token d) kvs d) x = (if x \<in> snd ` set kvs then Some (h x) else dict_get d x)"
  by (induction kvs arbitrary: d) auto

lemma ordering_defaults:
  assumes "ordering_declared orm_to_public fs"
  shows "op_defaults (make_ordering orm_to_public fs ds) =
    (if ds = [] then [''pk'']
     else map (\<lambda>d. let n = bare_token d; token = (if n \<in> set fs then name_in orm_to_public n else n)
                 in if is_descending d then CHR ''-'' # token else token) ds)"
proof -
  let ?map = "fold (\<lambda>f d. dict_put (name_in orm_to_public f) f d) fs []"
  have pairs: "set ?map = (\<lambda>f. (name_in orm_to_public f, f)) ` set fs"
    using ordering_field_map [OF assms, of ds] by (simp add: make_ordering_def Let_def)
  have "dict_get (fold (\<lambda>(token, f) d. dict_put f token d) ?map []) x = (if x \<in> set fs then Some (name_in orm_to_public x) else None)" for x
    by (subst consistent_put [where h = "name_in orm_to_public"]) (auto simp: pairs image_image)
  then have "name_in (fold (\<lambda>(token, f) d. dict_put f token d) ?map []) x = (if x \<in> set fs then name_in orm_to_public x else x)" for x
    by (simp add: name_in_def)
  then show ?thesis by (simp add: make_ordering_def Let_def)
qed

lemma allowed_iff:
  assumes "ordering_declared orm_to_public fs"
  shows "t \<in> set (dict_keys (allowed_tokens (op_field_map (make_ordering orm_to_public fs ds))))
    \<longleftrightarrow> bare_token t \<in> name_in orm_to_public ` set fs"
proof -
  have keys: "set (dict_keys (op_field_map (make_ordering orm_to_public fs ds))) = name_in orm_to_public ` set fs"
    using ordering_field_map [OF assms, of ds] by (simp add: image_image)
  have plain: "\<not> starts_with ''-'' k" if "k \<in> name_in orm_to_public ` set fs" for k
    using that assms by (auto simp: ordering_declared_def plain_token_def)
  have "t \<in> name_in orm_to_public ` set fs \<union> (#) (CHR ''-'') ` name_in orm_to_public ` set fs
      \<longleftrightarrow> bare_token t \<in> name_in orm_to_public ` set fs"
  proof (cases "starts_with ''-'' t")
    case True
    then obtain u where u: "t = CHR ''-'' # u" by (cases t) auto
    have "t \<notin> name_in orm_to_public ` set fs" using plain True by blast
    then show ?thesis unfolding u by auto
  qed auto
  then show ?thesis unfolding allowed_keys keys .
qed

lemma ordering_input_Inr:
  assumes "ordering_declared orm_to_public fs"
  shows "ordering_input (make_ordering orm_to_public fs ds) sent = Inr tokens \<longleftrightarrow>
    (let given_tokens = str_split (CHR '','') (case sent of None \<Rightarrow> str_join '','' (op_defaults (make_ordering orm_to_public fs ds)) | Some s \<Rightarrow> s)
     in fs \<noteq> [] \<and> (\<forall>t \<in> set given_tokens. bare_token t \<in> name_in orm_to_public ` set fs)
        \<and> tokens = map (\<lambda>t. the (dict_get (allowed_tokens (op_field_map (make_ordering orm_to_public fs ds))) t)) given_tokens)"
proof -
  let ?map = "op_field_map (make_ordering orm_to_public fs ds)"
  have none: "?map = [] \<longleftrightarrow> fs = []" using ordering_field_map [OF assms, of ds] by (metis image_is_empty set_empty)
  have sub: "set ts \<subseteq> set (dict_keys (allowed_tokens ?map)) \<longleftrightarrow> (\<forall>t \<in> set ts. bare_token t \<in> name_in orm_to_public ` set fs)" for ts
    unfolding subset_iff allowed_iff [OF assms] by blast
  show ?thesis
    unfolding ordering_input_def none delimiter_list_def Let_def
    by (auto simp: multi_choices_Inr sub simp del: set_map)
qed

lemma ordering_value:
  assumes "ordering_declared orm_to_public fs" "bare_token u \<in> name_in orm_to_public ` set fs"
  shows "bare_token (the (dict_get (allowed_tokens (op_field_map (make_ordering orm_to_public fs ds))) u)) \<in> set fs"
proof -
  let ?allowed = "allowed_tokens (op_field_map (make_ordering orm_to_public fs ds))"
  have "u \<in> set (dict_keys ?allowed)" unfolding allowed_iff [OF assms(1)] by (rule assms(2))
  then obtain v where v: "dict_get ?allowed u = Some v" by (cases "dict_get ?allowed u") (auto simp: map_of_eq_None_iff)
  then have "(u, v) \<in> set ?allowed" by (rule map_of_SomeD)
  from allowed_tokens_members [OF this] ordering_field_map [OF assms(1), of ds]
  obtain f where f: "f \<in> set fs" "v = f \<or> v = CHR ''-'' # f" by auto
  with assms(1) have "\<not> starts_with ''-'' f" by (auto simp: ordering_declared_def)
  with f v show ?thesis by auto
qed

lemma ordering_default_accepted:
  assumes "ordering_declared orm_to_public fs" "ds \<noteq> []"
  shows "(\<forall>t \<in> set (op_defaults (make_ordering orm_to_public fs ds)). bare_token t \<in> name_in orm_to_public ` set fs)
    \<longleftrightarrow> (\<forall>d \<in> set ds. bare_token d \<in> set fs \<union> name_in orm_to_public ` set fs)"
proof -
  have plain: "plain_token (name_in orm_to_public f)" "\<not> starts_with ''-'' f" if "f \<in> set fs" for f
    using that assms(1) by (auto simp: ordering_declared_def)
  have "bare_token (let n = bare_token d; token = (if n \<in> set fs then name_in orm_to_public n else n)
          in if is_descending d then CHR ''-'' # token else token) \<in> name_in orm_to_public ` set fs
      \<longleftrightarrow> bare_token d \<in> set fs \<union> name_in orm_to_public ` set fs" for d
  proof (cases "is_descending d")
    case True
    then show ?thesis by (simp add: Let_def)
  next
    case False
    moreover have "bare_token (name_in orm_to_public d) = name_in orm_to_public d" if "d \<in> set fs"
      using plain(1) [OF that] by (simp add: plain_token_def)
    moreover have "bare_token d = d" using False by (simp add: bare_token_def)
    ultimately show ?thesis by (auto simp: Let_def)
  qed
  with assms(2) show ?thesis unfolding ordering_defaults [OF assms(1)] by simp
qed

text \<open>
  An accepted ordering names declared fields only. With no ordering sent the defaults are
  taken, and they are accepted exactly when fields are declared and each default is the name or
  the public name of one; with no default at all, \<open>pk\<close> has to be one of them.
\<close>

theorem ordering_names_declared_fields:
  assumes "ordering_declared orm_to_public fs" "\<forall>d \<in> set ds. CHR '','' \<notin> set d"
  shows "(\<forall>sent tokens. ordering_input (make_ordering orm_to_public fs ds) sent = Inr tokens
      \<longrightarrow> (\<forall>t \<in> set tokens. bare_token t \<in> set fs))
    \<and> (is_inr (ordering_input (make_ordering orm_to_public fs ds) None) \<longleftrightarrow>
       fs \<noteq> [] \<and> (if ds = [] then ''pk'' \<in> name_in orm_to_public ` set fs
                   else \<forall>d \<in> set ds. bare_token d \<in> set fs \<union> name_in orm_to_public ` set fs))"
proof (intro conjI allI impI)
  let ?op = "make_ordering orm_to_public fs ds"
  note input = ordering_input_Inr [OF assms(1), of ds]
  show "\<forall>t \<in> set tokens. bare_token t \<in> set fs" if "ordering_input ?op sent = Inr tokens" for sent tokens
    using that ordering_value [OF assms(1)] unfolding input by (auto simp: Let_def)
  have nonempty: "op_defaults ?op \<noteq> []" unfolding ordering_defaults [OF assms(1)] by simp
  have "CHR '','' \<notin> set (bare_token d)" if "d \<in> set ds" for d
    using that assms(2) by (auto simp: bare_token_def dest: in_set_dropD)
  with assms(1) have commas: "\<forall>t \<in> set (op_defaults ?op). CHR '','' \<notin> set t"
    unfolding ordering_defaults [OF assms(1)] by (auto simp: Let_def plain_token_def ordering_declared_def split: if_splits)
  have "is_inr (ordering_input ?op None) \<longleftrightarrow> (\<exists>tokens. ordering_input ?op None = Inr tokens)"
    by (cases "ordering_input ?op None") auto
  also have "\<dots> \<longleftrightarrow> fs \<noteq> [] \<and> (\<forall>t \<in> set (op_defaults ?op). bare_token t \<in> name_in orm_to_public ` set fs)"
    unfolding input by (simp add: Let_def str_split_join [OF nonempty commas])
  also have "(\<forall>t \<in> set (op_defaults ?op). bare_token t \<in> name_in orm_to_public ` set fs) \<longleftrightarrow>
      (if ds = [] then ''pk'' \<in> name_in orm_to_public ` set fs
       else \<forall>d \<in> set ds. bare_token d \<in> set fs \<union> name_in orm_to_public ` set fs)"
    using ordering_default_accepted [OF assms(1)]
    by (cases "ds = []") (simp_all add: ordering_defaults [OF assms(1)] bare_token_def is_descending_def)
  finally show "is_inr (ordering_input ?op None) \<longleftrightarrow> fs \<noteq> [] \<and> (if ds = [] then ''pk'' \<in> name_in orm_to_public ` set fs
       else \<forall>d \<in> set ds. bare_token d \<in> set fs \<union> name_in orm_to_public ` set fs)" .
qed

subsection \<open>Multi-valued filters\<close>

lemma map_filter_id: "List.map_filter id xs = [] \<longleftrightarrow> (\<forall>x \<in> set xs. x = None)"
  "v \<in> set (List.map_filter id xs) \<longleftrightarrow> Some v \<in> set xs"
  by (induction xs) (auto simp: List.map_filter_simps split: option.splits)

lemma map_filter_shorter: "length (List.map_filter id xs) < length xs \<longleftrightarrow> None \<in> set xs"
proof -
  have len: "length (List.map_filter id xs) = length (filter (\<lambda>x. x \<noteq> None) xs)" by (simp add: List.map_filter_def)
  show ?thesis
  proof (cases "None \<in> set xs")
    case True
    then have "length (filter (\<lambda>x. x \<noteq> None) xs) < length xs" by (intro length_filter_less) auto
    with True len show ?thesis by simp
  next
    case False
    then have "\<forall>x \<in> set xs. x \<noteq> None" by metis
    then have "filter (\<lambda>x. x \<noteq> None) xs = xs" by (simp add: filter_id_conv)
    with False len show ?thesis by simp
  qed
qed

lemma multi_value_selects:
  assumes "multi_value_condition field_name q v = Inr c" "lookup_of field_name q = Some l"
  shows "satisfies r c \<longleftrightarrow> v = None \<or> v = Some [] \<or> r l \<in> set (the v)"
proof (cases v)
  case (Some items)
  have found: "x \<in> set (List.map_filter id items) \<longleftrightarrow> Some x \<in> set items" for x by (rule map_filter_id(2))
  consider "None \<in> set items" "List.map_filter id items \<noteq> []" | "None \<in> set items" "List.map_filter id items = []"
    | "None \<notin> set items" "List.map_filter id items \<noteq> []" | "None \<notin> set items" "List.map_filter id items = []" by blast
  then show ?thesis
  proof cases
    case 1
    with assms Some have "c = Either (OneOf l (List.map_filter id items)) (IsNull l)"
      by (simp add: multi_value_condition_def Let_def map_filter_shorter)
    with 1(1) Some found show ?thesis by (cases "r l") auto
  next
    case 2
    have items: "items \<noteq> []" "\<forall>x \<in> set items. x = None" using 2 map_filter_id(1) by auto
    have "length (List.map_filter id items) < length items" using 2(1) by (simp only: map_filter_shorter)
    with assms Some 2(2) have "c = IsNull l" by (simp add: multi_value_condition_def Let_def)
    with items show ?thesis using Some 2(1) by (cases "r l") auto
  next
    case 3
    with assms Some have "c = OneOf l (List.map_filter id items)"
      by (simp add: multi_value_condition_def Let_def map_filter_shorter)
    moreover have "items \<noteq> []" using 3(2) by (auto simp: List.map_filter_simps)
    ultimately show ?thesis using Some 3(1) found by (cases "r l") auto
  next
    case 4
    then have "items = []" using map_filter_id(1) [of items] by (cases items) auto
    with assms Some show ?thesis by (simp add: multi_value_condition_def Let_def List.map_filter_simps)
  qed
qed (use assms in \<open>simp add: multi_value_condition_def\<close>)

text \<open>The text of a value in a parameter; a text no other value has, and which stripping keeps.\<close>

definition param_text :: "filter_item option \<Rightarrow> string" where
  "param_text v = (case v of Some (ItemText s) \<Rightarrow> s | _ \<Rightarrow> NULL_SENTINEL)"

definition plain_value :: "filter_item option \<Rightarrow> bool" where
  "plain_value v \<longleftrightarrow> v = None \<or> (\<exists>s. v = Some (ItemText s) \<and> s \<noteq> [] \<and> s \<noteq> NULL_SENTINEL
     \<and> CHR '','' \<notin> set s \<and> \<not> is_space (hd s) \<and> \<not> is_space (last s))"

lemma strip_plain: "s \<noteq> [] \<Longrightarrow> \<not> is_space (hd s) \<Longrightarrow> \<not> is_space (last s) \<Longrightarrow> str_strip s = s"
proof -
  have keep: "xs \<noteq> [] \<Longrightarrow> \<not> is_space (hd xs) \<Longrightarrow> dropWhile is_space xs = xs" for xs by (cases xs) simp_all
  assume "s \<noteq> []" "\<not> is_space (hd s)" "\<not> is_space (last s)"
  then show ?thesis by (simp add: str_strip_def keep hd_rev)
qed

lemma param_text_plain:
  assumes "plain_value v"
  shows "param_text v \<noteq> []" "CHR '','' \<notin> set (param_text v)" "str_strip (param_text v) = param_text v"
    "(if param_text v = NULL_SENTINEL then None else Some (ItemText (param_text v))) = v"
proof -
  have null: "str_strip NULL_SENTINEL = NULL_SENTINEL" "CHR '','' \<notin> set NULL_SENTINEL" "NULL_SENTINEL \<noteq> []"
    by code_simp+
  from assms show "param_text v \<noteq> []" "CHR '','' \<notin> set (param_text v)" "str_strip (param_text v) = param_text v"
    "(if param_text v = NULL_SENTINEL then None else Some (ItemText (param_text v))) = v"
    using null by (auto simp: plain_value_def param_text_def strip_plain)
qed

lemma split_joined:
  assumes "\<forall>v \<in> set vs. plain_value v" "vs \<noteq> []"
  shows "split_values True (Some [ItemText (str_join '','' (map param_text vs))]) = Some vs"
proof -
  have split: "str_split (CHR '','') (str_join '','' (map param_text vs)) = map param_text vs"
    using assms param_text_plain(2) by (intro str_split_join) auto
  have strip: "map str_strip (map param_text vs) = map param_text vs"
    using assms(1) param_text_plain(3) by simp
  have kept: "filter (\<lambda>part. part \<noteq> []) (map param_text vs) = map param_text vs"
    using assms(1) param_text_plain(1) by (simp add: filter_id_conv)
  have items: "map (\<lambda>part. if part = NULL_SENTINEL then None else Some (ItemText part)) (map param_text vs) = vs"
    using assms(1) param_text_plain(4) by (simp add: map_idI)
  have "split_item True (ItemText (str_join '','' (map param_text vs))) = vs"
    unfolding split_item_def filter_item.case split strip kept by (simp only: simp_thms items)
  with assms(2) show ?thesis by (simp add: split_values_def)
qed

text \<open>
  Values joined by commas, \<open>null\<close> standing for none, filter the records whose value is one of
  them; the parameter left out, or empty, filters nothing.
\<close>

theorem multi_value_selects_what_is_listed:
  assumes "\<forall>v \<in> set vs. plain_value v" "lookup_of field_name q = Some l"
  shows "\<exists>c. multi_value_condition field_name q (split_values True (Some [ItemText (str_join '','' (map param_text vs))])) = Inr c
    \<and> (\<forall>r. satisfies r c \<longleftrightarrow> vs = [] \<or> r l \<in> set vs)"
proof -
  have vs: "split_values True (Some [ItemText (str_join '','' (map param_text vs))]) = (if vs = [] then None else Some vs)"
    using split_joined [OF assms(1)] by (simp add: split_values_def split_item_def str_split_def str_strip_def)
  obtain c where c: "multi_value_condition field_name q (if vs = [] then None else Some vs) = Inr c"
    using assms(2) by (simp add: multi_value_condition_def)
  from multi_value_selects [OF this assms(2)] c show ?thesis unfolding vs by (intro exI [of _ c]) auto
qed

subsection \<open>Contacts\<close>

theorem ordering_names_declared_fields_witness:
  "is_inr (ordering_input (make_ordering [(''last_name'', ''lastName'')] [''last_name'', ''email''] [''-last_name'']) None)
   \<and> \<not> is_inr (ordering_input (make_ordering [(''last_name'', ''lastName'')] [''last_name'', ''email''] []) None)"
proof -
  have d: "ordering_declared [(''last_name'', ''lastName'')] [''last_name'', ''email'']"
    by (simp add: ordering_declared_def name_in_def plain_token_def)
  have c: "\<forall>d \<in> set [''-last_name'']. CHR '','' \<notin> set d" "\<forall>d \<in> set []. CHR '','' \<notin> set (d :: string)" by simp_all
  show ?thesis
    using ordering_names_declared_fields [OF d c(1)] ordering_names_declared_fields [OF d c(2)]
    by (auto simp: bare_token_def is_descending_def name_in_def)
qed

theorem multi_value_selects_what_is_listed_witness:
  "\<exists>c. multi_value_condition ''account'' (OneLookup ''account__id'') (split_values True (Some [ItemText ''a,null'']))  = Inr c
    \<and> satisfies (\<lambda>l. None) c \<and> satisfies (\<lambda>l. if l = ''account__id'' then Some (ItemText ''a'') else None) c
    \<and> \<not> satisfies (\<lambda>l. Some (ItemText ''b'')) c"
proof -
  have p: "\<forall>v \<in> set [Some (ItemText ''a''), None]. plain_value v" by (simp add: plain_value_def NULL_SENTINEL_def is_space_def)
  have l: "lookup_of ''account'' (OneLookup ''account__id'') = Some ''account__id''" by (simp add: lookup_of_def)
  have j: "str_join '','' (map param_text [Some (ItemText ''a''), None]) = ''a,null''"
    by (simp add: param_text_def NULL_SENTINEL_def)
  from multi_value_selects_what_is_listed [OF p l, unfolded j] obtain c where
    "multi_value_condition ''account'' (OneLookup ''account__id'') (split_values True (Some [ItemText ''a,null''])) = Inr c"
    "\<And>r. satisfies r c \<longleftrightarrow> r ''account__id'' \<in> set [Some (ItemText ''a''), None]" by auto
  then show ?thesis by (intro exI [of _ c]) simp
qed

end
