(* ===== verification/Pagination.thy ===== *)
theory Pagination
  imports Query_Laws
begin

text \<open>
  The pages of a list (\<open>core/api/pagination.py\<close>, \<open>core/utils/urls.py\<close>) and the dictionaries they
  hold (\<open>model_instance_to_dict\<close> of \<open>core/orm/queryset.py\<close>). A URL is what \<open>urlsplit\<close> makes of it,
  its query the decoded pairs in their order. Django's \<open>Paginator\<close> and the reading of an integer
  parameter are parameters.
\<close>

subsection \<open>URLs\<close>

record url =
  url_scheme :: string
  url_netloc :: string
  url_path :: string
  url_query :: "(string \<times> string) list"
  url_fragment :: string

definition ensure_trailing_slash :: "url \<Rightarrow> url" where
  "ensure_trailing_slash u = (if ends_with ''/'' (url_path u) then u else u\<lparr>url_path := url_path u @ ''/''\<rparr>)"

text \<open>\<open>parse_qs\<close> with blank values, and \<open>urlencode(sorted(...), doseq=True)\<close>.\<close>

definition parse_qs :: "(string \<times> string) list \<Rightarrow> (string \<times> string list) list" where
  "parse_qs q = map (\<lambda>k. (k, map snd (filter (\<lambda>p. fst p = k) q))) (uniq (map fst q))"

definition urlencode_sorted :: "(string \<times> string list) list \<Rightarrow> (string \<times> string) list" where
  "urlencode_sorted d = concat (map (\<lambda>(k, vs). map (Pair k) vs) (sort_key fst d))"

definition replace_query_param :: "url \<Rightarrow> string \<Rightarrow> nat \<Rightarrow> url" where
  "replace_query_param u key n =
     u\<lparr>url_query := urlencode_sorted (dict_put key [show_digits n] (parse_qs (url_query u)))\<rparr>"

definition remove_query_param :: "url \<Rightarrow> string \<Rightarrow> url" where
  "remove_query_param u key = u\<lparr>url_query := urlencode_sorted (AList.delete key (parse_qs (url_query u)))\<rparr>"

subsection \<open>Pages\<close>

text \<open>
  \<open>Paginator(rows, per_page).page(number)\<close>: the number of pages and the rows of one, or the
  message of \<open>InvalidPage\<close>. The documented behaviour for a positive size.
\<close>

type_synonym 'a paginator = "'a list \<Rightarrow> int \<Rightarrow> int \<Rightarrow> string + (nat \<times> 'a list)"

definition page_total :: "nat \<Rightarrow> nat \<Rightarrow> nat" where
  "page_total n per = max 1 ((n + per - 1) div per)"

definition paginator_laws :: "'a paginator \<Rightarrow> bool" where
  "paginator_laws pg \<longleftrightarrow>
     (\<forall>rows per page. 0 < per \<longrightarrow>
        (if 1 \<le> page \<and> page \<le> page_total (length rows) per
         then pg rows (int per) (int page) = Inr (page_total (length rows) per, take per (drop ((page - 1) * per) rows))
         else \<not> is_inr (pg rows (int per) (int page))))"

record page_settings =
  ps_default_size :: nat
  ps_max_size :: nat

datatype page_error = BadParameter string | NoSuchPage string

text \<open>\<open>QueryDict\<close> gives the last value of a parameter; what is not sent takes the default, unchecked.\<close>

definition last_value :: "(string \<times> string) list \<Rightarrow> string \<Rightarrow> string option" where
  "last_value q k = map_of (rev q) k"

definition page_input :: "(string \<Rightarrow> int option) \<Rightarrow> page_settings \<Rightarrow> url \<Rightarrow> page_error + (int \<times> int)" where
  "page_input parse_int ps u =
     (let page = (case last_value (url_query u) ''page'' of None \<Rightarrow> Some 1 | Some t \<Rightarrow> Option.bind (parse_int t) (\<lambda>i. if 0 < i then Some i else None));
          page_size = (case last_value (url_query u) ''page_size'' of None \<Rightarrow> Some (int (ps_default_size ps))
                  | Some t \<Rightarrow> Option.bind (parse_int t) (\<lambda>i. if i < int (ps_max_size ps) then Some i else None))
      in case page of
           None \<Rightarrow> Inl (BadParameter ''page'')
         | Some p \<Rightarrow> (case page_size of None \<Rightarrow> Inl (BadParameter ''page_size'') | Some s \<Rightarrow> Inr (p, s)))"

record 'b page_response =
  pr_count :: nat
  pr_next :: "url option"
  pr_previous :: "url option"
  pr_results :: "'b list"

definition get_next_link :: "url \<Rightarrow> int \<Rightarrow> nat \<Rightarrow> url option" where
  "get_next_link u page num_pages =
     (if page < int num_pages then Some (replace_query_param u ''page'' (nat (page + 1))) else None)"

definition get_previous_link :: "url \<Rightarrow> int \<Rightarrow> url option" where
  "get_previous_link u page =
     (if page \<le> 1 then None
      else if page - 1 = 1 then Some (remove_query_param u ''page'')
      else Some (replace_query_param u ''page'' (nat (page - 1))))"

definition paginate_queryset ::
    "'a paginator \<Rightarrow> (string \<Rightarrow> int option) \<Rightarrow> page_settings \<Rightarrow> ('a \<Rightarrow> 'b) \<Rightarrow> url \<Rightarrow> 'a list \<Rightarrow> page_error + 'b page_response" where
  "paginate_queryset pg parse_int ps to_dict request rows =
     result_bind (page_input parse_int ps request) (\<lambda>(page, page_size).
       let u = ensure_trailing_slash request in
       case pg rows page_size page of
         Inl msg \<Rightarrow> Inl (NoSuchPage msg)
       | Inr (num_pages, items) \<Rightarrow>
           Inr \<lparr>pr_count = length rows, pr_next = get_next_link u page num_pages,
                pr_previous = get_previous_link u page, pr_results = map to_dict items\<rparr>)"

subsection \<open>Rows as dictionaries\<close>

text \<open>
  What an instance holds: its attributes, the forward relations it resolved, the records it
  prefetched. A plain value is not looked into.
\<close>

datatype 'v instance_data =
    Instance (attributes: "(string \<times> 'v) list") (resolved_relations: "(string \<times> 'v instance_data option) list")
      (prefetched_records: "(string \<times> 'v instance_data list) list")

datatype 'v dumped = Plain 'v | Absent | Nested "(string \<times> 'v dumped) list" | Listed "(string \<times> 'v dumped) list list"

primrec model_instance_to_dict :: "'v instance_data \<Rightarrow> (string \<times> 'v dumped) list" where
  "model_instance_to_dict (Instance attrs rels fetched) =
     (let d1 = fold (\<lambda>(k, v) d. if k \<in> {''_state'', ''_prefetched_objects_cache''} then d else dict_put k (Plain v) d) attrs [];
          d2 = fold (\<lambda>(k, r) d. dict_put k (case r of None \<Rightarrow> Absent | Some x \<Rightarrow> Nested x) d)
                 (map (map_prod id (map_option model_instance_to_dict)) rels) d1
      in fold (\<lambda>(k, l) d. dict_put k (Listed l) d) (map (map_prod id (map model_instance_to_dict)) fetched) d2)"

end
