(* ===== verification/Pagination_Laws.thy ===== *)
theory Pagination_Laws
  imports Pagination
begin

text \<open>
  A client that follows the next links reads the whole list: the order of the service leaves no
  tie, so separate queries agree on it, and each link keeps the other parameters of the request.
\<close>

subsection \<open>Total orders of rows\<close>

locale row_order =
  fixes le :: "'a \<Rightarrow> 'a \<Rightarrow> bool"
  assumes le_total: "le x y \<or> le y x"
    and le_trans: "le x y \<Longrightarrow> le y z \<Longrightarrow> le x z"
begin

definition no_ties :: "'a list \<Rightarrow> bool" where
  "no_ties xs \<longleftrightarrow> (\<forall>x \<in> set xs. \<forall>y \<in> set xs. le x y \<longrightarrow> le y x \<longrightarrow> x = y)"

lemma answers_agree:
  assumes "no_ties xs" "mset ys = mset xs" "sorted_wrt le ys"
  shows "ys = order_rows le xs"
proof (rule sorted_unique [where le = le])
  show "mset ys = mset (order_rows le xs)" using assms(2) by simp
  show "sorted_wrt le (order_rows le xs)" by (rule sorted_order_rows) (use le_total le_trans in blast)+
  fix x y assume "x \<in> set (order_rows le xs)" "y \<in> set (order_rows le xs)" "le x y" "le y x"
  moreover have "set (order_rows le xs) = set xs" by (metis mset_order_rows set_mset_mset)
  ultimately show "x = y" using assms(1) by (simp add: no_ties_def)
qed (rule assms(3))

end

interpretation listing: row_order "row_le terms" for terms :: "(string \<times> bool) list"
  by unfold_locales (rule row_le_total, rule row_le_trans)

subsection \<open>The order of a service\<close>

definition order_terms :: "order_term list \<Rightarrow> (string \<times> bool) list" where
  "order_terms terms = map (\<lambda>t. (ot_field t, ot_descending t)) terms"

lemma order_name_plain: "CHR ''-'' \<notin> set n \<Longrightarrow> order_name n = n" "CHR ''-'' \<notin> set n \<Longrightarrow> order_name (CHR ''-'' # n) = n"
  by (auto simp: order_name_def filter_id_conv)

lemma order_term_field: "order_term_of nullable nl token = Inr t \<Longrightarrow> ot_field t = order_name token"
  by (auto simp: order_term_of_def Let_def split: nulls_last.splits option.splits if_splits)

lemma ordered_by_pk:
  assumes "queryset_order_by_fields pk nullable nl True tokens = Inr terms" "CHR ''-'' \<notin> set pk"
  shows "\<exists>d. (pk, d) \<in> set (order_terms terms)"
proof -
  let ?tokens = "if pk \<notin> set tokens \<and> CHR ''-'' # pk \<notin> set tokens then tokens @ [pk] else tokens"
  have run: "result_map (order_term_of nullable nl) ?tokens = Inr terms"
    using assms(1) by (simp add: queryset_order_by_fields_def)
  have "\<exists>token \<in> set ?tokens. token = pk \<or> token = CHR ''-'' # pk" by auto
  then obtain token where token: "token \<in> set ?tokens" "token = pk \<or> token = CHR ''-'' # pk" by blast
  from result_map_mem(1) [OF run token(1)] obtain t where t: "t \<in> set terms" "order_term_of nullable nl token = Inr t" by blast
  have "ot_field t = pk" using order_term_field [OF t(2)] token(2) order_name_plain [OF assms(2)] by auto
  with t(1) show ?thesis by (auto simp: order_terms_def)
qed

lemma service_order_no_ties:
  assumes "queryset_order_by_fields pk nullable nl True tokens = Inr terms" "CHR ''-'' \<notin> set pk"
    and "inj_on (\<lambda>r. cell r pk) (set rows)"
  shows "listing.no_ties (order_terms terms) rows"
proof -
  from ordered_by_pk [OF assms(1,2)] obtain d where "(pk, d) \<in> set (order_terms terms)" by blast
  with assms(3) row_le_antisym show ?thesis by (fastforce simp: listing.no_ties_def inj_on_def)
qed

subsection \<open>Links\<close>

lemma last_value_simps [simp]:
  "last_value [] k = None"
  "last_value (p # q) k = (case last_value q k of None \<Rightarrow> if fst p = k then Some (snd p) else None | Some v \<Rightarrow> Some v)"
  by (cases p; auto simp: last_value_def map_add_def split: option.split)+

lemma last_value_append: "last_value (q @ r) k = (case last_value r k of None \<Rightarrow> last_value q k | Some v \<Rightarrow> Some v)"
  by (simp add: last_value_def map_add_def split: option.split)

lemma last_value_parse:
  "last_value q k = (case dict_get (parse_qs q) k of None \<Rightarrow> None | Some vs \<Rightarrow> if vs = [] then None else Some (last vs))"
proof -
  have "dict_get (map (\<lambda>k. (k, f k)) ks) k = (if k \<in> set ks then Some (f k) else None)" for f :: "string \<Rightarrow> string list" and ks
    by (induction ks) auto
  then have "dict_get (parse_qs q) k = (if k \<in> fst ` set q then Some (map snd (filter (\<lambda>p. fst p = k) q)) else None)"
    by (simp add: parse_qs_def)
  moreover have "last_value q k = (if filter (\<lambda>p. fst p = k) q = [] then None else Some (last (map snd (filter (\<lambda>p. fst p = k) q))))"
    by (induction q) auto
  moreover have "filter (\<lambda>p. fst p = k) q = [] \<longleftrightarrow> k \<notin> fst ` set q" by (auto simp: filter_empty_conv)
  ultimately show ?thesis by simp
qed

lemma last_value_pairs: "last_value (map (Pair k') vs) k = (if k = k' \<and> vs \<noteq> [] then Some (last vs) else None)"
  by (induction vs) auto

lemma last_value_concat:
  "distinct (dict_keys d) \<Longrightarrow> last_value (concat (map (\<lambda>(k, vs). map (Pair k) vs) d)) k
    = (case dict_get d k of None \<Rightarrow> None | Some vs \<Rightarrow> if vs = [] then None else Some (last vs))"
proof (induction d)
  case (Cons kv d)
  obtain k' vs where kv: "kv = (k', vs)" by (cases kv)
  show ?case
  proof (cases "k = k'")
    case True
    with Cons.prems kv have "dict_get d k = None" by (simp add: map_of_eq_None_iff)
    with Cons kv True show ?thesis by (simp add: last_value_append last_value_pairs)
  next
    case False
    with Cons kv show ?thesis by (auto simp: last_value_append last_value_pairs split: option.split)
  qed
qed simp

lemma last_value_encoded:
  assumes "distinct (dict_keys d)"
  shows "last_value (urlencode_sorted d) k
    = (case dict_get d k of None \<Rightarrow> None | Some vs \<Rightarrow> if vs = [] then None else Some (last vs))"
proof -
  have d: "distinct (dict_keys (sort_key fst d))"
    using assms by (simp add: distinct_map)
  moreover have "dict_get (sort_key fst d) = dict_get d"
    using map_of_inject_set [OF d assms] by simp
  ultimately show ?thesis unfolding urlencode_sorted_def by (subst last_value_concat) simp_all
qed

lemma parse_qs_distinct: "distinct (dict_keys (parse_qs q))"
  by (simp add: parse_qs_def comp_def)

lemma replaced_value:
  "last_value (url_query (replace_query_param u key n)) k = (if k = key then Some (show_digits n) else last_value (url_query u) k)"
proof -
  have q: "url_query (replace_query_param u key n) = urlencode_sorted (dict_put key [show_digits n] (parse_qs (url_query u)))"
    by (simp add: replace_query_param_def)
  have "last_value (url_query (replace_query_param u key n)) k
      = (case dict_get (dict_put key [show_digits n] (parse_qs (url_query u))) k of
           None \<Rightarrow> None | Some vs \<Rightarrow> if vs = [] then None else Some (last vs))"
    unfolding q by (intro last_value_encoded distinct_dict_put parse_qs_distinct)
  then show ?thesis by (simp add: last_value_parse [of "url_query u"])
qed

lemma slash_query [simp]: "url_query (ensure_trailing_slash u) = url_query u"
  by (simp add: ensure_trailing_slash_def)

subsection \<open>Walking the pages\<close>

text \<open>A client reads a page, then the next one it links to; the \<open>i\<close>-th request is answered on the rows of its own query.\<close>

inductive follows :: "(nat \<Rightarrow> url \<Rightarrow> page_error + 'b page_response) \<Rightarrow> nat \<Rightarrow> url \<Rightarrow> 'b list list \<Rightarrow> bool" for answer where
  last_page: "answer i u = Inr r \<Longrightarrow> pr_next r = None \<Longrightarrow> follows answer i u [pr_results r]"
| next_page: "answer i u = Inr r \<Longrightarrow> pr_next r = Some u' \<Longrightarrow> follows answer (Suc i) u' pages \<Longrightarrow>
    follows answer i u (pr_results r # pages)"

definition parse_laws :: "(string \<Rightarrow> int option) \<Rightarrow> bool" where
  "parse_laws parse_int \<longleftrightarrow> (\<forall>n. parse_int (show_digits n) = Some (int n))"

lemma page_total_covers: "0 < per \<Longrightarrow> n \<le> page_total n per * per"
proof -
  assume per: "0 < per"
  have "n + per - 1 = (n + per - 1) div per * per + (n + per - 1) mod per" by simp
  moreover have "(n + per - 1) mod per < per" using per by simp
  ultimately have "n \<le> (n + per - 1) div per * per" by linarith
  also have "\<dots> \<le> page_total n per * per" by (simp add: page_total_def)
  finally show ?thesis .
qed

lemma next_input:
  assumes "parse_laws parse_int" "page_input parse_int ps u = Inr (p, s)"
  shows "page_input parse_int ps (replace_query_param (ensure_trailing_slash u) ''page'' (Suc n)) = Inr (int (Suc n), s)"
  using assms unfolding page_input_def replaced_value slash_query
  by (auto simp: parse_laws_def split: option.splits)

lemma walk_pages:
  assumes pg: "paginator_laws pg" and parse: "parse_laws parse_int" and per: "0 < per"
    and "1 \<le> page" "page \<le> page_total (length rows) per" "page_input parse_int ps u = Inr (int page, int per)"
  shows "\<exists>pages. follows (\<lambda>i u. paginate_queryset pg parse_int ps to_dict u rows) i u pages
    \<and> concat pages = map to_dict (drop ((page - 1) * per) rows) \<and> length pages = Suc (page_total (length rows) per - page)"
  using assms(4-6)
proof (induction "page_total (length rows) per - page" arbitrary: page i u)
  case 0
  then have last: "page = page_total (length rows) per" by simp
  let ?r = "\<lparr>pr_count = length rows, pr_next = None, pr_previous = get_previous_link (ensure_trailing_slash u) (int page),
    pr_results = map to_dict (take per (drop ((page - 1) * per) rows))\<rparr>"
  have run: "paginate_queryset pg parse_int ps to_dict u rows = Inr ?r"
    using pg per 0(2-4) last by (simp add: paginate_queryset_def paginator_laws_def get_next_link_def Let_def)
  have "length rows \<le> page * per" using page_total_covers [OF per, of "length rows"] last by simp
  moreover have "page * per = per + (page - 1) * per" using 0(2) by (cases page) simp_all
  ultimately have "length (drop ((page - 1) * per) rows) \<le> per" by simp
  then have "take per (drop ((page - 1) * per) rows) = drop ((page - 1) * per) rows" by simp
  with last follows.last_page [of "\<lambda>i u. paginate_queryset pg parse_int ps to_dict u rows", OF run] show ?case
    by (intro exI [of _ "[pr_results ?r]"]) simp
next
  case (Suc k)
  then have more: "page < page_total (length rows) per" by simp
  let ?next = "replace_query_param (ensure_trailing_slash u) ''page'' (Suc page)"
  let ?r = "\<lparr>pr_count = length rows, pr_next = Some ?next, pr_previous = get_previous_link (ensure_trailing_slash u) (int page),
    pr_results = map to_dict (take per (drop ((page - 1) * per) rows))\<rparr>"
  have run: "paginate_queryset pg parse_int ps to_dict u rows = Inr ?r"
    using pg per Suc.prems more by (simp add: paginate_queryset_def paginator_laws_def get_next_link_def nat_add_distrib Let_def)
  have "k = page_total (length rows) per - Suc page" using Suc.hyps(2) by simp
  from Suc.hyps(1) [OF this _ _ next_input [OF parse Suc.prems(3)], of "Suc i"] more obtain pages where
    pages: "follows (\<lambda>i u. paginate_queryset pg parse_int ps to_dict u rows) (Suc i) ?next pages"
    "concat pages = map to_dict (drop (page * per) rows)" "length pages = Suc (page_total (length rows) per - Suc page)" by auto
  have "page * per = per + (page - 1) * per" using Suc.prems(1) by (cases page) simp_all
  then have "take per (drop ((page - 1) * per) rows) @ drop (page * per) rows = drop ((page - 1) * per) rows"
    by (metis append_take_drop_id drop_drop)
  then have "concat (pr_results ?r # pages) = map to_dict (drop ((page - 1) * per) rows)"
    using pages(2) by (simp flip: map_append)
  moreover have "follows (\<lambda>i u. paginate_queryset pg parse_int ps to_dict u rows) i u (pr_results ?r # pages)"
    by (rule follows.next_page [OF run _ pages(1)]) simp
  ultimately show ?case using pages(3) more by (intro exI [of _ "pr_results ?r # pages"]) simp
qed

text \<open>
  C29: a client that follows the next links from the first page comes to the last one, after as
  many requests as there are pages, and has read every record exactly once, in whatever order
  the database finds them: the order of the service always decides by the primary key.
\<close>

theorem next_links_reach_every_record:
  assumes "paginator_laws pg" "parse_laws parse_int" "0 < per" "page_input parse_int ps u = Inr (1, int per)"
    and "queryset_order_by_fields pk nullable AllFields True tokens = Inr terms" "CHR ''-'' \<notin> set pk"
    and "inj_on (\<lambda>r. cell r pk) (set rows)"
    and "\<forall>i. mset (answers i) = mset rows \<and> sorted_wrt (row_le (order_terms terms)) (answers i)"
  shows "\<exists>pages. follows (\<lambda>i u. paginate_queryset pg parse_int ps to_dict u (answers i)) 0 u pages
    \<and> mset (concat pages) = mset (map to_dict rows) \<and> length pages = page_total (length rows) per"
proof -
  let ?sorted = "order_rows (row_le (order_terms terms)) rows"
  have same: "answers i = ?sorted" for i
    using listing.answers_agree [OF service_order_no_ties [OF assms(5,6,7)]] assms(8) by blast
  have len: "length ?sorted = length rows" by (metis mset_order_rows size_mset)
  have "1 \<le> page_total (length ?sorted) per" by (simp add: page_total_def)
  from walk_pages [where page = 1 and rows = ?sorted and u = u and i = 0 and to_dict = to_dict, OF assms(1,2,3) order_refl this] assms(4) obtain pages where
    "follows (\<lambda>i u. paginate_queryset pg parse_int ps to_dict u ?sorted) 0 u pages"
    "concat pages = map to_dict ?sorted" "length pages = Suc (page_total (length ?sorted) per - 1)" by auto
  then show ?thesis unfolding same using len by (intro exI [of _ pages]) (auto simp: page_total_def)
qed

subsection \<open>Three records, two pages\<close>

lemma read_show: "parse_laws read_digits"
  by (simp add: parse_laws_def read_show_digits)

definition slice_paginator :: "'a paginator" where
  "slice_paginator rows per page =
     (if 0 < per \<and> 1 \<le> page \<and> page \<le> int (page_total (length rows) (nat per))
      then Inr (page_total (length rows) (nat per), take (nat per) (drop ((nat page - 1) * nat per) rows))
      else Inl ''That page contains no results'')"

definition tag_rows :: "(string \<times> nat option) list list" where
  "tag_rows = map (\<lambda>(i, n). [(''id'', Some i), (''name'', n)]) [(1, Some 7), (2, Some 7), (3, None)]"

definition tags_url :: url where
  "tags_url = \<lparr>url_scheme = ''https'', url_netloc = ''a.example'', url_path = ''/tags'',
     url_query = [(''page_size'', ''2''), (''search'', ''x'')], url_fragment = []\<rparr>"

definition tag_terms :: "order_term list" where
  "tag_terms = [\<lparr>ot_field = ''name'', ot_descending = False, ot_nulls_last = True\<rparr>,
     \<lparr>ot_field = ''id'', ot_descending = False, ot_nulls_last = False\<rparr>]"

theorem next_links_reach_every_record_witness:
  "\<exists>pages. follows (\<lambda>i u. paginate_queryset slice_paginator read_digits \<lparr>ps_default_size = 20, ps_max_size = 200\<rparr> id u tag_rows)
      0 tags_url pages \<and> mset (concat pages) = mset tag_rows \<and> length pages = 2"
proof -
  have laws: "paginator_laws (slice_paginator :: (string \<times> nat option) list paginator)"
    by (auto simp: paginator_laws_def slice_paginator_def)
  have input: "page_input read_digits \<lparr>ps_default_size = 20, ps_max_size = 200\<rparr> tags_url = Inr (1, int 2)" by code_simp
  have order: "queryset_order_by_fields ''id'' (\<lambda>n. if n = ''id'' then Some False else if n = ''name'' then Some True else None)
      AllFields True [''name''] = Inr tag_terms" by code_simp
  have rows: "inj_on (\<lambda>r. cell r ''id'') (set tag_rows)" "sorted_wrt (row_le (order_terms tag_terms)) tag_rows"
    by (auto simp: tag_rows_def cell_def inj_on_def order_terms_def tag_terms_def cell_before_def)
  have total: "page_total (length tag_rows) 2 = 2" by (simp add: page_total_def tag_rows_def)
  have "(0::nat) < 2" by simp
  from next_links_reach_every_record [where to_dict = id and answers = "\<lambda>i. tag_rows", OF laws read_show this input order _ rows(1)] rows(2) total
  show ?thesis by simp
qed

end
