(* ===== verification/Media_Store.thy ===== *)
theory Media_Store
  imports Totem_Prelude
begin

text \<open>
  The files of a tenant (\<open>base/files/storages.py\<close>, \<open>base/models/file_reference.py\<close>), their signed
  URLs (\<open>core/utils/signing.py\<close>, \<open>base/views/private_media.py\<close>) and the removal of the files of a
  row (\<open>base/models/mixins.py\<close>). The root of a tenant is its filestore, the links and directories
  of its two media stores, and the table of the references. What Django and the system give is
  the record \<open>storage_env\<close>: the digest, the guess of a type, the joining of a name to a root, the
  checks and the alternatives of a file name, the \<open>i\<close>-th draw of a run being its last argument.
\<close>

subsection \<open>State\<close>

datatype privacy = PUBLIC | PRIVATE

fun privacy_value :: "privacy \<Rightarrow> string" where
  "privacy_value PUBLIC = ''public''"
| "privacy_value PRIVATE = ''private''"

record file_reference =
  fr_symbolic_path :: string
  fr_store_path :: string
  fr_checksum :: string
  fr_mimetype :: "string option"
  fr_privacy :: privacy

text \<open>
  Links and directories are named by the store and the path inside it; a link leads to a path of
  the filestore, relative to the root.
\<close>

record media =
  md_files :: "(string \<times> string) list"
  md_links :: "((privacy \<times> string) \<times> string) list"
  md_dirs :: "(privacy \<times> string) list"
  md_refs :: "file_reference list"

definition empty_media :: media where
  "empty_media = \<lparr>md_files = [], md_links = [], md_dirs = [], md_refs = []\<rparr>"

record storage_env =
  se_sha1 :: "string \<Rightarrow> string"
  se_guess_type :: "string \<Rightarrow> string option"
  se_safe_join :: "string \<Rightarrow> string option"
  se_valid_file_name :: "string \<Rightarrow> bool"
  se_alternative_name :: "string \<Rightarrow> string \<Rightarrow> nat \<Rightarrow> string"

datatype storage_error =
    SuspiciousFileOperation string
  | NoAvailableName string
  | NotADirectory string

text \<open>An upload is its bytes and the position of its cursor.\<close>

record upload =
  up_bytes :: string
  up_cursor :: nat

subsection \<open>Names\<close>

text \<open>\<open>os.path.split\<close>, \<open>os.path.splitext\<close> and \<open>os.path.join\<close> of relative names.\<close>

definition not_slash :: "char \<Rightarrow> bool" where
  "not_slash c \<longleftrightarrow> c \<noteq> CHR ''/''"

definition path_split :: "string \<Rightarrow> string \<times> string" where
  "path_split p =
     (let tail = rev (takeWhile not_slash (rev p)); head = rev (dropWhile not_slash (rev p))
      in (if \<exists>c \<in> set head. not_slash c then rev (dropWhile (\<lambda>c. \<not> not_slash c) (rev head)) else head, tail))"

definition path_splitext :: "string \<Rightarrow> string \<times> string" where
  "path_splitext f =
     (let ext = rev (takeWhile (\<lambda>c. c \<noteq> CHR ''.'') (rev f)); root = rev (tl (dropWhile (\<lambda>c. c \<noteq> CHR ''.'') (rev f)))
      in if CHR ''.'' \<notin> set f \<or> (\<forall>c \<in> set root. c = CHR ''.'') then (f, []) else (root, CHR ''.'' # ext))"

definition path_join :: "string \<Rightarrow> string \<Rightarrow> string" where
  "path_join d f = (if d = [] then f else if last d = CHR ''/'' then d @ f else d @ ''/'' @ f)"

text \<open>The directories above a path.\<close>

definition parents :: "string \<Rightarrow> string list" where
  "parents q = map (\<lambda>i. str_join ''/'' (take i (str_split (CHR ''/'') q))) [1..<length (str_split (CHR ''/'') q)]"

definition precompute_values :: "storage_env \<Rightarrow> string \<Rightarrow> string \<Rightarrow> string \<times> string \<times> string option" where
  "precompute_values env bin_data upload_to_path =
     (let checksum = se_sha1 env bin_data
      in (path_join (take 2 checksum) checksum, checksum, se_guess_type env upload_to_path))"

subsection \<open>The storages\<close>

text \<open>\<open>symlink_exists\<close>: a link or a directory, once \<open>symlink_path\<close> found the name inside the store.\<close>

definition symlink_exists :: "media \<Rightarrow> privacy \<Rightarrow> string \<Rightarrow> bool" where
  "symlink_exists m p q \<longleftrightarrow> dict_get (md_links m) (p, q) \<noteq> None \<or> (p, q) \<in> set (md_dirs m)"

definition MAX_LENGTH :: nat where
  "MAX_LENGTH = 256"

text \<open>The loop of \<open>_symlink_get_available_name\<close>, whose draws may never give a free name.\<close>

partial_function (option) next_name ::
    "storage_env \<Rightarrow> media \<Rightarrow> privacy \<Rightarrow> string \<Rightarrow> string \<Rightarrow> nat \<Rightarrow> string \<Rightarrow> string
     \<Rightarrow> (storage_error + string \<times> string) option" where
  "next_name env m p dir ext i root name =
     (case se_safe_join env name of
        None \<Rightarrow> Some (Inl (SuspiciousFileOperation name))
      | Some q \<Rightarrow>
          if \<not> symlink_exists m p q \<and> length name \<le> MAX_LENGTH then Some (Inr (name, q))
          else let name1 = path_join dir (se_alternative_name env root ext i); truncation = length name1 - MAX_LENGTH
               in if truncation = 0 then next_name env m p dir ext (Suc i) root name1
                  else let root1 = take (length root - truncation) root
                       in if root1 = [] then Some (Inl (NoAvailableName name1))
                          else next_name env m p dir ext (Suc (Suc i)) root1
                                 (path_join dir (se_alternative_name env root1 ext (Suc i))))"

declare next_name.simps [code]

definition symlink_get_available_name ::
    "storage_env \<Rightarrow> media \<Rightarrow> privacy \<Rightarrow> string \<Rightarrow> (storage_error + string \<times> string) option" where
  "symlink_get_available_name env m p name =
     (let name = map (\<lambda>c. if c = CHR 0x5C then CHR ''/'' else c) name; (dir, file) = path_split name;
          (root, ext) = path_splitext file
      in if ''..'' \<in> set (str_split (CHR ''/'') dir) then Some (Inl (SuspiciousFileOperation dir))
         else if \<not> se_valid_file_name env file then Some (Inl (SuspiciousFileOperation file))
         else next_name env m p dir ext 0 root name)"

definition put_reference :: "file_reference \<Rightarrow> file_reference list \<Rightarrow> file_reference list" where
  "put_reference r rs =
     (if \<exists>x \<in> set rs. fr_privacy x = fr_privacy r \<and> fr_symbolic_path x = fr_symbolic_path r
      then map (\<lambda>x. if fr_privacy x = fr_privacy r \<and> fr_symbolic_path x = fr_symbolic_path r then r else x) rs
      else rs @ [r])"

text \<open>
  \<open>_save\<close>, over the root it is given: the bytes, the link, the reference. What is read of the
  upload starts at its cursor; what is written are its chunks, from the start.
\<close>

definition write_file :: "string \<Rightarrow> upload \<Rightarrow> media \<Rightarrow> media" where
  "write_file store_path content m =
     (if dict_get (md_files m) store_path \<noteq> None then m
      else m\<lparr>md_files := dict_put store_path (up_bytes content) (md_files m)\<rparr>)"

definition save_file ::
    "storage_env \<Rightarrow> privacy \<Rightarrow> string \<Rightarrow> upload \<Rightarrow> media \<Rightarrow> ((storage_error + string) \<times> media) option" where
  "save_file env p name content m =
     (let (store_path, checksum, mimetype) = precompute_values env (drop (up_cursor content) (up_bytes content)) name;
          m1 = write_file store_path content m
      in map_option (\<lambda>found. case found of
             Inl e \<Rightarrow> (Inl e, m1)
           | Inr (symbolic_path, q) \<Rightarrow>
               if \<exists>d \<in> set (parents q). dict_get (md_links m1) (p, d) \<noteq> None then (Inl (NotADirectory q), m1)
               else (Inr symbolic_path,
                 m1\<lparr>md_dirs := md_dirs m1 @ map (Pair p) (parents q),
                    md_links := (if dict_get (md_links m1) (p, q) = None then dict_put (p, q) store_path (md_links m1) else md_links m1),
                    md_refs := put_reference \<lparr>fr_symbolic_path = symbolic_path, fr_store_path = store_path,
                       fr_checksum = checksum, fr_mimetype = mimetype, fr_privacy = p\<rparr> (md_refs m1)\<rparr>))
           (symlink_get_available_name env m1 p name))"

text \<open>
  \<open>delete\<close>: the bytes go with the only reference to them, and the link of the name in any case. An
  unlink stops at a name that leaves the store.
\<close>

definition named :: "privacy \<Rightarrow> string \<Rightarrow> file_reference \<Rightarrow> bool" where
  "named p name r \<longleftrightarrow> fr_privacy r = p \<and> fr_symbolic_path r = name"

fun unlink_all :: "storage_env \<Rightarrow> privacy \<Rightarrow> string list \<Rightarrow> media \<Rightarrow> (storage_error + unit) \<times> media" where
  "unlink_all env p [] m = (Inr (), m)"
| "unlink_all env p (name # names) m =
     (case se_safe_join env name of
        None \<Rightarrow> (Inl (SuspiciousFileOperation name), m)
      | Some q \<Rightarrow> unlink_all env p names (m\<lparr>md_links := AList.delete (p, q) (md_links m)\<rparr>))"

definition delete_file :: "storage_env \<Rightarrow> privacy \<Rightarrow> string \<Rightarrow> media \<Rightarrow> (storage_error + unit) \<times> media" where
  "delete_file env p name m =
     (let sub = filter (named p name) (md_refs m);
          file_references = filter (\<lambda>r. fr_checksum r \<in> fr_checksum ` set sub) (md_refs m);
          only = length file_references = 1;
          refs = (if only then filter (\<lambda>r. fr_checksum r \<notin> fr_checksum ` set sub) (md_refs m)
                  else filter (\<lambda>r. \<not> named p name r) (md_refs m));
          files = (if only then fold AList.delete (map fr_store_path file_references) (md_files m) else md_files m)
      in unlink_all env p (uniq (map fr_symbolic_path (if only then file_references else sub)))
           (m\<lparr>md_refs := refs, md_files := files\<rparr>))"

text \<open>What a read of the link finds, as nginx serves the public store.\<close>

definition read_link :: "storage_env \<Rightarrow> media \<Rightarrow> privacy \<Rightarrow> string \<Rightarrow> string option" where
  "read_link env m p name =
     Option.bind (se_safe_join env name) (\<lambda>q. Option.bind (dict_get (md_links m) (p, q)) (dict_get (md_files m)))"

text \<open>What the reference of the name leads to, as the private store is served.\<close>

definition read_reference :: "media \<Rightarrow> privacy \<Rightarrow> string \<Rightarrow> string option" where
  "read_reference m p name =
     Option.bind (find (named p name) (md_refs m)) (\<lambda>r. dict_get (md_files m) (fr_store_path r))"

subsection \<open>Runs\<close>

text \<open>A run of the storages of a tenant; each save draws its own alternatives.\<close>

datatype media_op =
    Save privacy string upload "string \<Rightarrow> string \<Rightarrow> nat \<Rightarrow> string"
  | Delete privacy string

datatype media_event =
    Stored privacy string string
  | Refused storage_error
  | Removed privacy string

fun media_step :: "storage_env \<Rightarrow> media_op \<Rightarrow> media \<Rightarrow> (media_event \<times> media) option" where
  "media_step env (Save p name u draws) m =
     map_option (\<lambda>(res, m'). (case res of Inl e \<Rightarrow> Refused e | Inr n \<Rightarrow> Stored p n (up_bytes u), m'))
       (save_file (env\<lparr>se_alternative_name := draws\<rparr>) p name u m)"
| "media_step env (Delete p name) m =
     (let (res, m') = delete_file env p name m
      in Some (case res of Inl e \<Rightarrow> Refused e | Inr u \<Rightarrow> Removed p name, m'))"

fun run_media :: "storage_env \<Rightarrow> media_op list \<Rightarrow> media \<Rightarrow> (media_event list \<times> media) option" where
  "run_media env [] m = Some ([], m)"
| "run_media env (op # ops) m =
     Option.bind (media_step env op m) (\<lambda>(e, m'). map_option (\<lambda>(es, m''). (e # es, m'')) (run_media env ops m'))"

end
