(* ===== verification/Media_Laws.thy ===== *)
theory Media_Laws
  imports Media_Store
begin

text \<open>
  What the storages promise: a name reads back the bytes it was saved with until it is deleted,
  whatever is saved and deleted beside it, although equal files are stored once.
\<close>

subsection \<open>Available names\<close>

lemma next_name_free:
  assumes "next_name env m p dir ext i root name = Some (Inr (n, q))"
  shows "se_safe_join env n = Some q \<and> \<not> symlink_exists m p q \<and> length n \<le> MAX_LENGTH"
proof -
  let ?free = "\<lambda>env m p res. \<forall>n q. res = Inr (n, q)
      \<longrightarrow> se_safe_join env n = Some q \<and> \<not> symlink_exists m p q \<and> length n \<le> MAX_LENGTH"
  from assms have "?free env m p (Inr (n, q) :: storage_error + string \<times> string)"
  proof (rule next_name.raw_induct [where P = "\<lambda>env m p dir ext i root name res. ?free env m p res", rotated])
    fix rec env m p dir ext i root name res
    assume rec: "\<And>m p dir ext i root name b y. rec m p dir ext i root name b = Some y \<Longrightarrow> ?free m p dir y"
      and body: "(case se_safe_join env name of
        None \<Rightarrow> Some (Inl (SuspiciousFileOperation name))
      | Some q \<Rightarrow>
          if \<not> symlink_exists m p q \<and> length name \<le> MAX_LENGTH then Some (Inr (name, q))
          else let name1 = path_join dir (se_alternative_name env root ext i); truncation = length name1 - MAX_LENGTH
               in if truncation = 0 then rec env m p dir ext (Suc i) root name1
                  else let root1 = take (length root - truncation) root
                       in if root1 = [] then Some (Inl (NoAvailableName name1))
                          else rec env m p dir ext (Suc (Suc i)) root1
                                 (path_join dir (se_alternative_name env root1 ext (Suc i)))) = Some res"
    show "?free env m p res"
    proof (cases "se_safe_join env name")
      case None
      with body show ?thesis by auto
    next
      case (Some q')
      show ?thesis
      proof (cases "\<not> symlink_exists m p q' \<and> length name \<le> MAX_LENGTH")
        case True
        with body Some show ?thesis by auto
      next
        case False
        with body Some show ?thesis by (auto simp: Let_def dest!: rec split: if_splits)
      qed
    qed
  qed
  then show ?thesis by simp
qed

text \<open>A draw settles a root when its name is too long, leaves the store, or is free.\<close>

definition settles :: "storage_env \<Rightarrow> media \<Rightarrow> privacy \<Rightarrow> string \<Rightarrow> string \<Rightarrow> string \<Rightarrow> nat \<Rightarrow> bool" where
  "settles env m p dir ext root j \<longleftrightarrow>
     (let name = path_join dir (se_alternative_name env root ext j)
      in length name > MAX_LENGTH \<or> (case se_safe_join env name of None \<Rightarrow> True | Some q \<Rightarrow> \<not> symlink_exists m p q))"

definition draws_settle :: "storage_env \<Rightarrow> media \<Rightarrow> privacy \<Rightarrow> bool" where
  "draws_settle env m p \<longleftrightarrow> (\<forall>dir ext root i. \<exists>j \<ge> i. settles env m p dir ext root j)"

lemma next_name_returns:
  assumes "draws_settle env m p"
  shows "\<exists>res. next_name env m p dir ext i root name = Some res"
proof (induction "length root" arbitrary: root i name rule: less_induct)
  case less
  from assms obtain j where "j \<ge> i" "settles env m p dir ext root j" unfolding draws_settle_def by blast
  then show ?case
  proof (induction "j - i" arbitrary: i name)
    case 0
    let ?n = "path_join dir (se_alternative_name env root ext i)"
    let ?r = "take (length root - (length ?n - MAX_LENGTH)) root"
    have 1: "\<exists>res. next_name env m p dir ext k ?r nm = Some res" if "?r \<noteq> []" "length ?n > MAX_LENGTH" for k nm
      using that by (intro less) (cases root, auto)
    have 2: "\<exists>res. next_name env m p dir ext k root ?n = Some res" if "length ?n \<le> MAX_LENGTH" for k
      using 0 that by (subst next_name.simps) (auto simp: settles_def Let_def split: option.splits)
    show ?case using 1 2 by (subst next_name.simps) (auto simp: Let_def split: option.splits)
  next
    case (Suc d)
    let ?n = "path_join dir (se_alternative_name env root ext i)"
    let ?r = "take (length root - (length ?n - MAX_LENGTH)) root"
    have 1: "\<exists>res. next_name env m p dir ext k ?r nm = Some res" if "?r \<noteq> []" "length ?n > MAX_LENGTH" for k nm
      using that by (intro less) (cases root, auto)
    have 2: "\<exists>res. next_name env m p dir ext (Suc i) root ?n = Some res"
      by (rule Suc(1)) (use Suc(2,3,4) in auto)
    show ?case using 1 2 by (subst next_name.simps) (auto simp: Let_def split: option.splits)
  qed
qed

subsection \<open>What the root holds\<close>

definition digest_laws :: "storage_env \<Rightarrow> string set \<Rightarrow> bool" where
  "digest_laws env C \<longleftrightarrow> (\<forall>c. length (se_sha1 env c) = 40) \<and> inj_on (se_sha1 env) C"

definition store_path_of :: "storage_env \<Rightarrow> string \<Rightarrow> string" where
  "store_path_of env c = path_join (take 2 (se_sha1 env c)) (se_sha1 env c)"

text \<open>The place of the link of a reference.\<close>

definition place :: "storage_env \<Rightarrow> file_reference \<Rightarrow> privacy \<times> string option" where
  "place env r = (fr_privacy r, se_safe_join env (fr_symbolic_path r))"

definition reference_ok :: "storage_env \<Rightarrow> string set \<Rightarrow> media \<Rightarrow> file_reference \<Rightarrow> bool" where
  "reference_ok env C m r \<longleftrightarrow> se_safe_join env (fr_symbolic_path r) \<noteq> None
     \<and> (\<exists>c \<in> C. fr_checksum r = se_sha1 env c \<and> fr_store_path r = store_path_of env c
          \<and> dict_get (md_files m) (fr_store_path r) = Some c)"

definition media_ok :: "storage_env \<Rightarrow> string set \<Rightarrow> media \<Rightarrow> bool" where
  "media_ok env C m \<longleftrightarrow>
     distinct (map (place env) (md_refs m)) \<and> (\<forall>r \<in> set (md_refs m). reference_ok env C m r)
     \<and> (\<forall>p q s. dict_get (md_links m) (p, q) = Some s
          \<longleftrightarrow> (\<exists>r \<in> set (md_refs m). place env r = (p, Some q) \<and> fr_store_path r = s))
     \<and> (\<forall>s c. dict_get (md_files m) s = Some c \<longrightarrow> c \<in> C \<and> s = store_path_of env c)"

lemma media_okD:
  assumes "media_ok env C m"
  shows "distinct (map (place env) (md_refs m))"
    "r \<in> set (md_refs m) \<Longrightarrow> reference_ok env C m r"
    "dict_get (md_links m) (p, q) = Some s
       \<longleftrightarrow> (\<exists>r \<in> set (md_refs m). place env r = (p, Some q) \<and> fr_store_path r = s)"
    "dict_get (md_files m) s = Some c \<Longrightarrow> c \<in> C \<and> s = store_path_of env c"
  using assms unfolding media_ok_def by blast+

lemma media_ok_empty: "media_ok env C empty_media"
  by (simp add: media_ok_def empty_media_def)

lemma store_path_inj:
  assumes "digest_laws env C" "c \<in> C" "d \<in> C" "store_path_of env c = store_path_of env d"
  shows "c = d"
proof -
  have len: "length (se_sha1 env x) = 40" for x using assms(1) by (simp add: digest_laws_def)
  have "drop (length (store_path_of env x) - 40) (store_path_of env x) = se_sha1 env x" for x
    using len [of x] by (auto simp: store_path_of_def path_join_def)
  with assms(4) have "se_sha1 env c = se_sha1 env d" by metis
  with assms(1-3) show ?thesis by (auto simp: digest_laws_def inj_on_def)
qed

lemma named_place: "named p n r \<Longrightarrow> place env r = (p, se_safe_join env n)"
  by (simp add: named_def place_def)

lemma named_unique:
  assumes "media_ok env C m" "r \<in> set (md_refs m)" "x \<in> set (md_refs m)" "named p n r" "named p n x"
  shows "x = r"
proof (rule distinct_map_unique [OF media_okD(1) [OF assms(1)] assms(3,2)])
  show "place env x = place env r" using assms(4,5) by (simp add: place_def named_def)
qed

text \<open>Reading through the link and through the reference agree.\<close>

lemma read_link_reference:
  assumes "media_ok env C m" "r \<in> set (md_refs m)" "named p n r"
  shows "read_link env m p n = dict_get (md_files m) (fr_store_path r)"
    "read_reference m p n = dict_get (md_files m) (fr_store_path r)"
proof -
  from media_okD(2) [OF assms(1,2)] assms(3) obtain q where q: "se_safe_join env n = Some q"
    by (auto simp: reference_ok_def named_def)
  with named_place [OF assms(3)] have "place env r = (p, Some q)" by simp
  with media_okD(3) [OF assms(1)] assms(2) have "dict_get (md_links m) (p, q) = Some (fr_store_path r)" by blast
  with q show "read_link env m p n = dict_get (md_files m) (fr_store_path r)" by (simp add: read_link_def)
  obtain x where x: "find (named p n) (md_refs m) = Some x"
    using assms(2,3) find_None_mem [of "named p n" "md_refs m"] by fastforce
  from find_Some_iff_mem [OF x] have "x = r" using named_unique [OF assms(1,2) _ assms(3)] by simp
  with x show "read_reference m p n = dict_get (md_files m) (fr_store_path r)" by (simp add: read_reference_def)
qed

lemma read_reference_None:
  "\<forall>r \<in> set (md_refs m). \<not> named p n r \<Longrightarrow> read_reference m p n = None"
  using find_None_mem [of "named p n" "md_refs m"] by (simp add: read_reference_def)

lemma read_reference_cases:
  assumes "media_ok env C m"
  shows "read_reference m p n = Some c \<longleftrightarrow>
     (\<exists>r \<in> set (md_refs m). named p n r \<and> dict_get (md_files m) (fr_store_path r) = Some c)"
proof (cases "\<exists>r \<in> set (md_refs m). named p n r")
  case True
  then obtain r where r: "r \<in> set (md_refs m)" "named p n r" by blast
  show ?thesis
  proof
    assume "read_reference m p n = Some c"
    with r read_link_reference(2) [OF assms r] show "\<exists>r \<in> set (md_refs m). named p n r \<and> dict_get (md_files m) (fr_store_path r) = Some c"
      by auto
  next
    assume "\<exists>r \<in> set (md_refs m). named p n r \<and> dict_get (md_files m) (fr_store_path r) = Some c"
    then obtain x where x: "x \<in> set (md_refs m)" "named p n x" "dict_get (md_files m) (fr_store_path x) = Some c" by blast
    from read_link_reference(2) [OF assms x(1,2)] x(3) show "read_reference m p n = Some c" by simp
  qed
next
  case False
  then show ?thesis by (auto simp: read_reference_None)
qed

subsection \<open>Saving\<close>

lemma write_file_keeps:
  assumes "digest_laws env C" "media_ok env C m" "up_bytes u \<in> C"
  defines "m1 \<equiv> write_file (store_path_of env (up_bytes u)) u m"
  shows "media_ok env C m1" "dict_get (md_files m1) (store_path_of env (up_bytes u)) = Some (up_bytes u)"
    "md_refs m1 = md_refs m" "md_links m1 = md_links m" "md_dirs m1 = md_dirs m"
    "read_reference m1 p n = read_reference m p n"
proof -
  let ?s = "store_path_of env (up_bytes u)"
  show same: "md_refs m1 = md_refs m" "md_links m1 = md_links m" "md_dirs m1 = md_dirs m"
    by (simp_all add: m1_def write_file_def)
  have files: "dict_get (md_files m1) s = (if s = ?s then Some (up_bytes u) else dict_get (md_files m) s)" for s
  proof (cases "dict_get (md_files m) ?s")
    case None
    then show ?thesis by (simp add: m1_def write_file_def)
  next
    case (Some c)
    from media_okD(4) [OF assms(2) Some] have "c = up_bytes u"
      using store_path_inj [OF assms(1) _ assms(3), of c] by auto
    with Some show ?thesis by (simp add: m1_def write_file_def)
  qed
  show "dict_get (md_files m1) ?s = Some (up_bytes u)" by (simp add: files)
  have grow: "dict_get (md_files m1) s = Some c" if "dict_get (md_files m) s = Some c" for s c
    using media_okD(4) [OF assms(2) that] store_path_inj [OF assms(1) _ assms(3), of c] that by (auto simp: files)
  have "reference_ok env C m1 r" if "r \<in> set (md_refs m)" for r
    using media_okD(2) [OF assms(2) that] grow unfolding reference_ok_def by blast
  moreover have "c \<in> C \<and> s = store_path_of env c" if "dict_get (md_files m1) s = Some c" for s c
    using that media_okD(4) [OF assms(2), of s c] assms(3) by (auto simp: files split: if_splits)
  ultimately show "media_ok env C m1"
    using media_okD(1,3) [OF assms(2)] unfolding media_ok_def same by blast
  show "read_reference m1 p n = read_reference m p n"
  proof (cases "find (named p n) (md_refs m)")
    case (Some r)
    with find_Some_iff_mem media_okD(2) [OF assms(2)] obtain c where "dict_get (md_files m) (fr_store_path r) = Some c"
      unfolding reference_ok_def by metis
    with Some grow show ?thesis by (simp add: read_reference_def same)
  qed (simp add: read_reference_def same)
qed

lemma find_append: "find P (xs @ ys) = (case find P xs of Some x \<Rightarrow> Some x | None \<Rightarrow> find P ys)"
  by (induction xs) auto

text \<open>A reference is added at a place no link holds.\<close>

lemma add_reference_keeps:
  assumes ok: "media_ok env C m" and free: "dict_get (md_links m) (p, q) = None"
    and at: "place env r = (p, Some q)" "named p n r" and r: "reference_ok env C m r"
    and m': "m' = m\<lparr>md_dirs := ds, md_links := dict_put (p, q) (fr_store_path r) (md_links m),
                   md_refs := put_reference r (md_refs m)\<rparr>"
  shows "media_ok env C m'" "read_reference m p n = None"
    "read_reference m' p' n' = (if (p', n') = (p, n) then dict_get (md_files m) (fr_store_path r) else read_reference m p' n')"
proof -
  have new: "place env x \<noteq> (p, Some q)" if "x \<in> set (md_refs m)" for x
    using media_okD(3) [OF ok, of p q "fr_store_path x"] free that by auto
  have nn: "\<not> named p n x" if "x \<in> set (md_refs m)" for x
    using new [OF that] at named_place by metis
  have none: "\<not> (\<exists>x \<in> set (md_refs m). fr_privacy x = fr_privacy r \<and> fr_symbolic_path x = fr_symbolic_path r)"
    using nn at(2) by (auto simp: named_def)
  have refs: "md_refs m' = md_refs m @ [r]" unfolding m' put_reference_def using none by simp
  have files: "md_files m' = md_files m" and links: "md_links m' = dict_put (p, q) (fr_store_path r) (md_links m)"
    by (simp_all add: m')
  have rok: "reference_ok env C m' x \<longleftrightarrow> reference_ok env C m x" for x
    by (simp add: reference_ok_def files)
  have "place env r \<notin> place env ` set (md_refs m)" using new at(1) by (metis imageE)
  then have "distinct (map (place env) (md_refs m'))"
    using media_okD(1) [OF ok] by (simp add: refs)
  moreover have "reference_ok env C m' x" if "x \<in> set (md_refs m')" for x
    using that media_okD(2) [OF ok] r by (auto simp: refs rok)
  moreover have "dict_get (md_links m') (p1, q1) = Some s
      \<longleftrightarrow> (\<exists>x \<in> set (md_refs m'). place env x = (p1, Some q1) \<and> fr_store_path x = s)" for p1 q1 s
  proof (cases "(p1, q1) = (p, q)")
    case True
    then show ?thesis using new at(1) by (auto simp: refs links)
  next
    case False
    then show ?thesis using media_okD(3) [OF ok, of p1 q1 s] at(1) by (auto simp: refs links)
  qed
  moreover have "c \<in> C \<and> s = store_path_of env c" if "dict_get (md_files m') s = Some c" for s c
    using that media_okD(4) [OF ok] by (simp add: files)
  ultimately show "media_ok env C m'" unfolding media_ok_def by blast
  show "read_reference m p n = None" using nn by (simp add: read_reference_None)
  show "read_reference m' p' n' = (if (p', n') = (p, n) then dict_get (md_files m) (fr_store_path r) else read_reference m p' n')"
  proof (cases "(p', n') = (p, n)")
    case True
    then have "find (named p' n') (md_refs m') = Some r"
      using nn at(2) find_None_mem [of "named p n" "md_refs m"] by (auto simp: refs find_append split: option.splits)
    with True show ?thesis by (simp add: read_reference_def files)
  next
    case False
    then have "\<not> named p' n' r" using at(2) by (auto simp: named_def)
    then have "find (named p' n') (md_refs m') = find (named p' n') (md_refs m)"
      by (simp add: refs find_append split: option.splits)
    with False show ?thesis by (auto simp: read_reference_def files)
  qed
qed

lemma precompute_values_whole:
  "up_cursor u = 0 \<Longrightarrow> precompute_values env (drop (up_cursor u) (up_bytes u)) name
     = (store_path_of env (up_bytes u), se_sha1 env (up_bytes u), se_guess_type env name)"
  by (simp add: precompute_values_def store_path_of_def Let_def)

lemma available_name_free:
  assumes "symlink_get_available_name env m p name = Some (Inr (n, q))"
  shows "se_safe_join env n = Some q \<and> \<not> symlink_exists m p q \<and> length n \<le> MAX_LENGTH"
  using assms by (auto simp: symlink_get_available_name_def Let_def split: prod.splits if_splits dest: next_name_free)

text \<open>An upload read from its start is stored under a free name, or the root reads as before.\<close>

definition saved :: "media \<Rightarrow> privacy \<Rightarrow> string \<Rightarrow> storage_error + string \<Rightarrow> media \<Rightarrow> bool" where
  "saved m p bytes res m' \<longleftrightarrow>
     (case res of
        Inl e \<Rightarrow> read_reference m' = read_reference m
      | Inr n \<Rightarrow> length n \<le> MAX_LENGTH \<and> read_reference m p n = None
          \<and> (\<forall>p' n'. read_reference m' p' n' = (if (p', n') = (p, n) then Some bytes else read_reference m p' n')))"

lemma save_file_keeps:
  assumes laws: "digest_laws env C" and ok: "media_ok env C m" and u: "up_bytes u \<in> C" "up_cursor u = 0"
    and run: "save_file env p name u m = Some (res, m')"
  shows "media_ok env C m'" "saved m p (up_bytes u) res m'"
proof -
  let ?c = "up_bytes u"
  define m1 where "m1 = write_file (store_path_of env ?c) u m"
  note w = write_file_keeps [OF laws ok u(1), folded m1_def]
  have ext: "read_reference m1 = read_reference m" by (intro ext w(6))
  let ?outcome = "\<lambda>found. case found of
             Inl e \<Rightarrow> (Inl e, m1)
           | Inr (n, q) \<Rightarrow>
               if \<exists>d \<in> set (parents q). dict_get (md_links m1) (p, d) \<noteq> None then (Inl (NotADirectory q), m1)
               else (Inr n,
                 m1\<lparr>md_dirs := md_dirs m1 @ map (Pair p) (parents q),
                    md_links := (if dict_get (md_links m1) (p, q) = None then dict_put (p, q) (store_path_of env ?c) (md_links m1) else md_links m1),
                    md_refs := put_reference \<lparr>fr_symbolic_path = n, fr_store_path = store_path_of env ?c,
                       fr_checksum = se_sha1 env ?c, fr_mimetype = se_guess_type env name, fr_privacy = p\<rparr> (md_refs m1)\<rparr>)"
  have "save_file env p name u m = map_option ?outcome (symlink_get_available_name env m1 p name)"
    by (simp only: save_file_def precompute_values_whole [OF u(2)] m1_def Let_def prod.case)
  with run obtain found where found: "symlink_get_available_name env m1 p name = Some found"
    and rest: "(res, m') = ?outcome found"
    by (cases "symlink_get_available_name env m1 p name") simp_all
  have "media_ok env C m' \<and> saved m p ?c res m'"
  proof (cases "m' = m1 \<and> \<not> is_inr res")
    case True
    then show ?thesis using w(1) ext by (cases res) (auto simp: saved_def)
  next
    case False
    with rest obtain n q where f: "found = Inr (n, q)" by (cases found) auto
    with found available_name_free have free: "se_safe_join env n = Some q" "\<not> symlink_exists m1 p q" "length n \<le> MAX_LENGTH"
      by blast+
    define r where "r = \<lparr>fr_symbolic_path = n, fr_store_path = store_path_of env ?c, fr_checksum = se_sha1 env ?c,
        fr_mimetype = se_guess_type env name, fr_privacy = p\<rparr>"
    have free1: "dict_get (md_links m1) (p, q) = None" using free(2) by (simp add: symlink_exists_def)
    from rest f False free1 have res: "res = Inr n" and m': "m' = m1\<lparr>md_dirs := md_dirs m1 @ map (Pair p) (parents q),
        md_links := dict_put (p, q) (fr_store_path r) (md_links m1), md_refs := put_reference r (md_refs m1)\<rparr>"
      by (auto simp: r_def split: if_splits)
    have at: "place env r = (p, Some q)" "named p n r" by (simp_all add: r_def place_def named_def free)
    have rok: "reference_ok env C m1 r" using free(1) u(1) w(2) by (auto simp: reference_ok_def r_def)
    note a = add_reference_keeps [OF w(1) free1 at rok m']
    have "dict_get (md_files m1) (fr_store_path r) = Some ?c" using w(2) by (simp add: r_def)
    with a ext free(3) show ?thesis by (simp add: res saved_def)
  qed
  then show "media_ok env C m'" "saved m p ?c res m'" by blast+
qed

subsection \<open>Deleting\<close>

lemma dict_get_deletes:
  "dict_get (fold AList.delete ks d) k = (if k \<in> set ks then None else dict_get d k)"
  by (induction ks arbitrary: d) (auto simp: delete_conv')

lemma delete_file_unknown:
  "\<forall>r \<in> set (md_refs m). \<not> named p n r \<Longrightarrow> delete_file env p n m = (Inr (), m)"
proof -
  assume none: "\<forall>r \<in> set (md_refs m). \<not> named p n r"
  then have "filter (named p n) (md_refs m) = []" "filter (\<lambda>r. \<not> named p n r) (md_refs m) = md_refs m"
    by (auto simp: filter_empty_conv filter_id_conv)
  then show ?thesis by (simp add: delete_file_def)
qed

lemma filter_single:
  "distinct xs \<Longrightarrow> r \<in> set xs \<Longrightarrow> (\<And>x. x \<in> set xs \<Longrightarrow> P x \<longleftrightarrow> x = r) \<Longrightarrow> filter P xs = [r]"
proof (induction xs)
  case (Cons a xs)
  then show ?case
  proof (cases "a = r")
    case True
    with Cons.prems have "\<not> P x" if "x \<in> set xs" for x using that by (metis distinct.simps(2) list.set_intros(2))
    with True Cons.prems show ?thesis by (simp add: filter_empty_conv)
  next
    case False
    with Cons show ?thesis by auto
  qed
qed simp

lemma filter_length_one:
  assumes "length (filter P xs) = 1" "x \<in> set xs" "P x" "y \<in> set xs" "P y"
  shows "x = y"
proof -
  from assms(1) obtain z where "filter P xs = [z]" by (auto simp: length_Suc_conv)
  moreover have "x \<in> set (filter P xs)" "y \<in> set (filter P xs)" using assms(2-5) by simp_all
  ultimately show ?thesis by simp
qed

text \<open>What a deletion does to the one reference of its name.\<close>

lemma delete_file_known:
  assumes ok: "media_ok env C m" and r: "r \<in> set (md_refs m)" "named p n r" and q: "se_safe_join env n = Some q"
  defines "only \<equiv> length (filter (\<lambda>x. fr_checksum x = fr_checksum r) (md_refs m)) = 1"
  shows "delete_file env p n m = (Inr (), m\<lparr>md_refs := filter (\<lambda>x. x \<noteq> r) (md_refs m),
      md_files := (if only then AList.delete (fr_store_path r) (md_files m) else md_files m),
      md_links := AList.delete (p, q) (md_links m)\<rparr>)"
proof -
  have d: "distinct (md_refs m)" using media_okD(1) [OF ok] by (simp add: distinct_map)
  have nm: "named p n x \<longleftrightarrow> x = r" if "x \<in> set (md_refs m)" for x
    using named_unique [OF ok r(1) that r(2)] r(2) by blast
  have sub: "filter (named p n) (md_refs m) = [r]" by (rule filter_single [OF d r(1)]) (use nm in blast)
  have sym: "fr_symbolic_path r = n" using r(2) by (simp add: named_def)
  have rest: "filter (\<lambda>x. \<not> named p n x) (md_refs m) = filter (\<lambda>x. x \<noteq> r) (md_refs m)"
    by (rule filter_cong) (use nm in auto)
  show ?thesis
  proof (cases only)
    case True
    then have un: "fr_checksum x = fr_checksum r \<longleftrightarrow> x = r" if "x \<in> set (md_refs m)" for x
      using filter_length_one [of "\<lambda>x. fr_checksum x = fr_checksum r" "md_refs m" x r] that r(1) unfolding only_def by blast
    have one: "filter (\<lambda>x. fr_checksum x = fr_checksum r) (md_refs m) = [r]"
      by (rule filter_single [OF d r(1)]) (use un in blast)
    from un have "filter (\<lambda>x. fr_checksum x \<noteq> fr_checksum r) (md_refs m) = filter (\<lambda>x. x \<noteq> r) (md_refs m)"
      by (intro filter_cong) simp_all
    with True one show ?thesis by (simp add: delete_file_def sub sym q)
  next
    case False
    then show ?thesis by (simp add: delete_file_def sub sym q rest only_def)
  qed
qed

lemma delete_file_keeps:
  assumes laws: "digest_laws env C" and ok: "media_ok env C m" and run: "delete_file env p n m = (res, m')"
  shows "media_ok env C m'" "res = Inr ()"
    "read_reference m' p' n' = (if (p', n') = (p, n) then None else read_reference m p' n')"
proof -
  have "media_ok env C m' \<and> res = Inr ()
      \<and> (\<forall>p' n'. read_reference m' p' n' = (if (p', n') = (p, n) then None else read_reference m p' n'))"
  proof (cases "\<exists>r \<in> set (md_refs m). named p n r")
    case False
    with delete_file_unknown run ok show ?thesis by (auto simp: read_reference_None)
  next
    case True
    then obtain r where r: "r \<in> set (md_refs m)" "named p n r" by blast
    from media_okD(2) [OF ok r(1)] r(2) obtain q c where q: "se_safe_join env n = Some q"
      and c: "c \<in> C" "fr_checksum r = se_sha1 env c" "fr_store_path r = store_path_of env c"
      by (auto simp: reference_ok_def named_def)
    define only where "only \<longleftrightarrow> length (filter (\<lambda>x. fr_checksum x = fr_checksum r) (md_refs m)) = 1"
    note eq = delete_file_known [OF ok r q, folded only_def]
    have refs: "md_refs m' = filter (\<lambda>x. x \<noteq> r) (md_refs m)" and links: "md_links m' = AList.delete (p, q) (md_links m)"
      and files: "md_files m' = (if only then AList.delete (fr_store_path r) (md_files m) else md_files m)" and res: "res = Inr ()"
      using eq run by auto
    have kept: "dict_get (md_files m') (fr_store_path x) = dict_get (md_files m) (fr_store_path x)"
      if x: "x \<in> set (md_refs m)" "x \<noteq> r" for x
    proof (cases only)
      case True
      then have "fr_checksum x \<noteq> fr_checksum r"
        using filter_length_one [of "\<lambda>x. fr_checksum x = fr_checksum r" "md_refs m" x r] x r(1) unfolding only_def by blast
      with media_okD(2) [OF ok x(1)] c store_path_inj [OF laws _ c(1)] have "fr_store_path x \<noteq> fr_store_path r"
        unfolding reference_ok_def by metis
      then show ?thesis by (simp add: files delete_conv')
    qed (simp add: files)
    have at: "place env r = (p, Some q)" using named_place [OF r(2)] q by simp
    have pl: "place env x \<noteq> (p, Some q)" if "x \<in> set (md_refs m)" "x \<noteq> r" for x
      using distinct_map_unique [OF media_okD(1) [OF ok] that(1) r(1)] that(2) at by auto
    have "distinct (map (place env) (md_refs m'))"
      using media_okD(1) [OF ok] by (simp add: refs distinct_map_filter)
    moreover have "reference_ok env C m' x" if "x \<in> set (md_refs m')" for x
      using that media_okD(2) [OF ok, of x] kept [of x] by (simp add: refs reference_ok_def)
    moreover have "dict_get (md_links m') (p1, q1) = Some s
        \<longleftrightarrow> (\<exists>x \<in> set (md_refs m'). place env x = (p1, Some q1) \<and> fr_store_path x = s)" for p1 q1 s
    proof (cases "(p1, q1) = (p, q)")
      case True
      then show ?thesis using pl by (auto simp: refs links delete_conv')
    next
      case False
      then have "place env r \<noteq> (p1, Some q1)" using at by auto
      with False media_okD(3) [OF ok, of p1 q1 s] show ?thesis by (auto simp: refs links delete_conv')
    qed
    moreover have "d \<in> C \<and> s = store_path_of env d" if "dict_get (md_files m') s = Some d" for s d
      using that media_okD(4) [OF ok, of s d] by (auto simp: files delete_conv' split: if_splits)
    ultimately have ok': "media_ok env C m'" unfolding media_ok_def by blast
    have "read_reference m' p1 n1 = (if (p1, n1) = (p, n) then None else read_reference m p1 n1)" for p1 n1
    proof (cases "(p1, n1) = (p, n)")
      case True
      have "\<forall>x \<in> set (md_refs m'). \<not> named p n x" using named_unique [OF ok r(1) _ r(2)] by (auto simp: refs)
      with True show ?thesis by (simp add: read_reference_None)
    next
      case False
      have "\<not> named p1 n1 r" using r(2) False by (auto simp: named_def)
      then have "read_reference m' p1 n1 = Some d \<longleftrightarrow> read_reference m p1 n1 = Some d" for d
        unfolding read_reference_cases [OF ok'] read_reference_cases [OF ok] using kept by (auto simp: refs)
      with False show ?thesis by (metis not_Some_eq)
    qed
    with ok' res show ?thesis by blast
  qed
  then show "media_ok env C m'" "res = Inr ()"
    "read_reference m' p' n' = (if (p', n') = (p, n) then None else read_reference m p' n')" by blast+
qed

subsection \<open>The map behind the storages\<close>

text \<open>What a client sees: names with the bytes they were given.\<close>

fun apply_event :: "media_event \<Rightarrow> (privacy \<times> string \<Rightarrow> string option) \<Rightarrow> privacy \<times> string \<Rightarrow> string option" where
  "apply_event (Stored p n c) f = f((p, n) \<mapsto> c)"
| "apply_event (Refused e) f = f"
| "apply_event (Removed p n) f = f((p, n) := None)"

text \<open>A name is only given when nothing is stored under it.\<close>

fun names_free :: "media_event list \<Rightarrow> (privacy \<times> string \<Rightarrow> string option) \<Rightarrow> bool" where
  "names_free [] f = True"
| "names_free (e # es) f =
     ((case e of Stored p n c \<Rightarrow> f (p, n) = None \<and> length n \<le> MAX_LENGTH | _ \<Rightarrow> True) \<and> names_free es (apply_event e f))"

fun op_ok :: "storage_env \<Rightarrow> string set \<Rightarrow> media_op \<Rightarrow> bool" where
  "op_ok env C (Save p name u draws) \<longleftrightarrow> up_cursor u = 0 \<and> up_bytes u \<in> C
     \<and> (\<forall>m p. draws_settle (env\<lparr>se_alternative_name := draws\<rparr>) m p)"
| "op_ok env C (Delete p name) \<longleftrightarrow> True"

lemma media_ok_draws: "media_ok (env\<lparr>se_alternative_name := d\<rparr>) C m = media_ok env C m"
  "digest_laws (env\<lparr>se_alternative_name := d\<rparr>) C = digest_laws env C"
  by (simp_all add: media_ok_def digest_laws_def place_def [abs_def] reference_ok_def store_path_of_def)

lemma save_file_returns:
  assumes "\<forall>m. draws_settle env m p"
  shows "\<exists>r. save_file env p name u m = Some r"
proof -
  have "\<exists>r. symlink_get_available_name env m1 p name = Some r" for m1
    using next_name_returns [OF spec [OF assms, of m1]]
    by (auto simp: symlink_get_available_name_def Let_def split: prod.splits)
  moreover obtain x a b where "precompute_values env (drop (up_cursor u) (up_bytes u)) name = (x, a, b)"
    by (metis prod_cases3)
  ultimately show ?thesis
    by (metis (no_types, lifting) option.simps(9) prod.case save_file_def)
qed

lemma media_step_refines:
  assumes laws: "digest_laws env C" and ok: "media_ok env C m" and op: "op_ok env C op"
  shows "\<exists>e m'. media_step env op m = Some (e, m') \<and> media_ok env C m'
    \<and> (\<lambda>(p, n). read_reference m' p n) = apply_event e (\<lambda>(p, n). read_reference m p n)
    \<and> names_free [e] (\<lambda>(p, n). read_reference m p n)"
proof (cases op)
  case (Delete p n)
  obtain res m' where run: "delete_file env p n m = (res, m')" by fastforce
  note k = delete_file_keeps [OF laws ok run]
  have "(\<lambda>(p, n). read_reference m' p n) = apply_event (Removed p n) (\<lambda>(p, n). read_reference m p n)"
    by (rule ext) (auto simp: k(3) split: if_splits)
  with Delete run k(1,2) show ?thesis by simp
next
  case (Save p name u draws)
  let ?env = "env\<lparr>se_alternative_name := draws\<rparr>"
  from op Save have u: "up_bytes u \<in> C" "up_cursor u = 0" and d: "\<forall>m. draws_settle ?env m p" by auto
  obtain res m' where run: "save_file ?env p name u m = Some (res, m')" using save_file_returns [OF d] by fastforce
  have laws': "digest_laws ?env C" and ok': "media_ok ?env C m" using laws ok by (simp_all add: media_ok_draws)
  note k = save_file_keeps [OF laws' ok' u run]
  show ?thesis
  proof (cases res)
    case (Inl e)
    with Save run k show ?thesis by (simp add: media_ok_draws saved_def)
  next
    case (Inr n)
    have "(\<lambda>(p, n). read_reference m' p n) = apply_event (Stored p n (up_bytes u)) (\<lambda>(p, n). read_reference m p n)"
      using k(2) Inr by (intro ext) (auto simp: saved_def split: if_splits)
    moreover have "read_reference m p n = None \<and> length n \<le> MAX_LENGTH" using k(2) Inr by (simp add: saved_def)
    ultimately show ?thesis using Save run k(1) Inr by (simp add: media_ok_draws)
  qed
qed

lemma run_media_refines:
  assumes laws: "digest_laws env C"
  shows "media_ok env C m \<Longrightarrow> \<forall>op \<in> set ops. op_ok env C op \<Longrightarrow>
    \<exists>es m'. run_media env ops m = Some (es, m') \<and> media_ok env C m'
      \<and> (\<lambda>(p, n). read_reference m' p n) = fold apply_event es (\<lambda>(p, n). read_reference m p n)
      \<and> names_free es (\<lambda>(p, n). read_reference m p n)"
proof (induction ops arbitrary: m)
  case (Cons op ops)
  from media_step_refines [OF laws Cons.prems(1)] Cons.prems(2) obtain e m1 where
    1: "media_step env op m = Some (e, m1)" "media_ok env C m1"
      "(\<lambda>(p, n). read_reference m1 p n) = apply_event e (\<lambda>(p, n). read_reference m p n)"
      "names_free [e] (\<lambda>(p, n). read_reference m p n)"
    by (meson list.set_intros(1))
  from Cons.IH [OF 1(2)] Cons.prems(2) obtain es m2 where
    2: "run_media env ops m1 = Some (es, m2)" "media_ok env C m2"
      "(\<lambda>(p, n). read_reference m2 p n) = fold apply_event es (\<lambda>(p, n). read_reference m1 p n)"
      "names_free es (\<lambda>(p, n). read_reference m1 p n)"
    by (meson list.set_intros(2))
  from 1 2 show ?case by (intro exI [of _ "e # es"] exI [of _ m2]) simp
qed simp

end
