(* ===== verification/Media_Urls.thy ===== *)
theory Media_Urls
  imports Media_Laws
begin

text \<open>
  The signed URLs of the private store (\<open>core/utils/signing.py\<close>, \<open>url\<close> of the storages,
  \<open>base/views/private_media.py\<close>). A requested URL is its path and the decoded pairs of its query.
  Instants are microseconds. Django's \<open>Signer\<close> and \<open>filepath_to_uri\<close>, and \<open>int\<close> of a string, are
  parameters.
\<close>

subsection \<open>Signing\<close>

record signing_env =
  sg_sign :: "string \<Rightarrow> string \<Rightarrow> string"
  sg_unsign :: "string \<Rightarrow> string \<Rightarrow> string option"
  sg_read_int :: "string \<Rightarrow> int option"
  sg_uri :: "string \<Rightarrow> string"

type_synonym requested = "string \<times> (string \<times> string) list"

definition show_int :: "int \<Rightarrow> string" where
  "show_int n = (if n < 0 then CHR ''-'' # show_digits (nat (- n)) else show_digits (nat n))"

definition MICROSECONDS :: int where
  "MICROSECONDS = 1000000"

definition expires_at :: "nat \<Rightarrow> int \<Rightarrow> int" where
  "expires_at hours now = (now + int hours * 3600 * MICROSECONDS) div MICROSECONDS"

definition full_value :: "string \<Rightarrow> int \<Rightarrow> string" where
  "full_value url expires = url @ ''-'' @ show_int expires"

text \<open>\<open>split(sep)[-1]\<close>.\<close>

definition last_part :: "string \<Rightarrow> string" where
  "last_part s = last (str_split (CHR '':'') s)"

definition sign_url :: "signing_env \<Rightarrow> string \<Rightarrow> nat \<Rightarrow> string \<Rightarrow> int \<Rightarrow> requested" where
  "sign_url env url hours salt now =
     (let expires = expires_at hours now; full_signature = sg_sign env salt (full_value url expires)
      in (url, [(''signature'', last_part full_signature), (''expires'', show_int expires)]))"

text \<open>\<open>parse_qs\<close> drops the parameters that are blank; the first value of a name is read.\<close>

definition query_value :: "(string \<times> string) list \<Rightarrow> string \<Rightarrow> string option" where
  "query_value q k = dict_get (filter (\<lambda>(n, v). v \<noteq> []) q) k"

definition check_signature :: "signing_env \<Rightarrow> requested \<Rightarrow> string \<Rightarrow> int \<Rightarrow> bool" where
  "check_signature env u salt now =
     (case query_value (snd u) ''signature'' of
        None \<Rightarrow> False
      | Some signature \<Rightarrow>
          (case Option.bind (query_value (snd u) ''expires'') (sg_read_int env) of
             None \<Rightarrow> False
           | Some expires \<Rightarrow>
               sg_unsign env salt (full_value (fst u) expires @ '':'' @ signature) \<noteq> None
               \<and> expires * MICROSECONDS > now))"

subsection \<open>URLs of the storages\<close>

definition MEDIA_URL :: string where
  "MEDIA_URL = ''/media/''"

definition lstrip_slash :: "string \<Rightarrow> string" where
  "lstrip_slash s = dropWhile (\<lambda>c. c = CHR ''/'') s"

definition private_media_salt :: "string \<Rightarrow> string" where
  "private_media_salt db = ''private-media:'' @ db"

definition storage_url :: "signing_env \<Rightarrow> privacy \<Rightarrow> string \<Rightarrow> string" where
  "storage_url env p name = MEDIA_URL @ privacy_value p @ ''/'' @ lstrip_slash (sg_uri env name)"

definition private_url :: "signing_env \<Rightarrow> string \<Rightarrow> nat option \<Rightarrow> string \<Rightarrow> int \<Rightarrow> requested" where
  "private_url env db expiration_hours name now =
     sign_url env (storage_url env PRIVATE name)
       (case expiration_hours of None \<Rightarrow> 1 | Some h \<Rightarrow> if h = 0 then 1 else h) (private_media_salt db) now"

subsection \<open>The view\<close>

datatype media_response =
    PermissionDenied
  | Http404
  | AccelRedirect string "string option"

definition INTERNAL_MEDIA_URL :: string where
  "INTERNAL_MEDIA_URL = ''/_media_internal/''"

definition FILESTORE_DIR :: string where
  "FILESTORE_DIR = ''_filestore''"

definition internal_path :: "string \<Rightarrow> string \<Rightarrow> string" where
  "internal_path db store_path =
     path_join (path_join (path_join INTERNAL_MEDIA_URL db) FILESTORE_DIR) (lstrip_slash store_path)"

definition serve_signed_url :: "signing_env \<Rightarrow> string \<Rightarrow> media \<Rightarrow> requested \<Rightarrow> int \<Rightarrow> media_response" where
  "serve_signed_url env db m u now =
     (if \<not> check_signature env u (private_media_salt db) now then PermissionDenied
      else let file_path = str_replace (rev (lstrip_slash (rev MEDIA_URL)) @ ''/'' @ privacy_value PRIVATE @ ''/'') [] (fst u)
           in (case find (named PRIVATE file_path) (md_refs m) of
                 None \<Rightarrow> Http404
               | Some r \<Rightarrow> AccelRedirect (internal_path db (fr_store_path r)) (fr_mimetype r)))"

end
