(* ===== verification/Media_Url_Laws.thy ===== *)
theory Media_Url_Laws
  imports Media_Urls
begin

text \<open>
  A private file is served only on a URL signed for it, on its tenant and until its expiry; and
  the URL of a stored file serves it, as long as its name needs no quoting.
\<close>

subsection \<open>Signed texts\<close>

definition no_colon :: "string \<Rightarrow> bool" where
  "no_colon s \<longleftrightarrow> CHR '':'' \<notin> set s"

text \<open>
  A signed text is the text, a colon and a part without one; only signed texts are accepted, and
  two tenants never sign alike. \<open>int\<close> reads what \<open>str\<close> wrote, and no name is quoted with a colon.
\<close>

definition signer_laws :: "signing_env \<Rightarrow> bool" where
  "signer_laws env \<longleftrightarrow>
     (\<forall>salt v. \<exists>part. sg_sign env salt v = v @ '':'' @ part \<and> part \<noteq> [] \<and> no_colon part)
     \<and> (\<forall>salt v t. sg_unsign env salt t = Some v \<longleftrightarrow> t = sg_sign env salt v)
     \<and> (\<forall>db db' v. sg_sign env (private_media_salt db) v = sg_sign env (private_media_salt db') v \<longrightarrow> db = db')
     \<and> (\<forall>n. sg_read_int env (show_int n) = Some n)
     \<and> (\<forall>name. no_colon (sg_uri env name))"

lemma signer_lawsD:
  assumes "signer_laws env"
  shows "\<exists>part. sg_sign env salt v = v @ '':'' @ part \<and> part \<noteq> [] \<and> no_colon part"
    "sg_unsign env salt t = Some v \<longleftrightarrow> t = sg_sign env salt v"
    "sg_sign env (private_media_salt db) v = sg_sign env (private_media_salt db') v \<Longrightarrow> db = db'"
    "sg_read_int env (show_int n) = Some n" "no_colon (sg_uri env name)"
  using assms unfolding signer_laws_def by blast+

lemma digit_chars: "n < 10 \<Longrightarrow> (char_of (n + 48 :: nat) :: char) \<in> set ''0123456789''"
proof -
  have "\<forall>n \<in> set [0..<10]. (char_of (n + 48 :: nat) :: char) \<in> set ''0123456789''" by code_simp
  then show "n < 10 \<Longrightarrow> (char_of (n + 48 :: nat) :: char) \<in> set ''0123456789''" by simp
qed

lemma show_digits_chars: "set (show_digits n) \<subseteq> set ''0123456789''" "show_digits n \<noteq> []"
proof (induction n rule: show_digits.induct)
  case (1 n)
  { case 1
    show ?case
      using 1 digit_chars [of n] digit_chars [of "n mod 10"] "1.IH"(1) by (subst show_digits.simps) auto }
  { case 2
    show ?case by (subst show_digits.simps) simp }
qed

lemma takeWhile_separator: "c \<notin> set t \<Longrightarrow> takeWhile (\<lambda>z. z \<noteq> c) (t @ c # s) = t"
  by (induction t) auto

lemma split_on_after: "P c \<Longrightarrow> last (split_on P (s @ c # t)) = last (split_on P t) \<and> length (split_on P (s @ c # t)) > 1"
proof (induction s)
  case Nil
  then show ?case by (simp add: Suc_le_eq)
next
  case (Cons a s)
  then obtain x y ys where "split_on P (s @ c # t) = x # y # ys"
    by (metis length_0_conv less_nat_zero_code list.exhaust list.size(3,4) One_nat_def add_0 less_irrefl plus_1_eq_Suc)
  with Cons show ?case by simp
qed

lemma last_separator:
  assumes "a @ c # x = b @ c # y" "c \<notin> set x" "c \<notin> set y"
  shows "a = b \<and> x = y"
proof -
  have tail: "takeWhile (\<lambda>z. z \<noteq> c) (rev (s @ c # t)) = rev t" if "c \<notin> set t" for s t
    using takeWhile_separator [of c "rev t" "rev s"] that by simp
  from tail [OF assms(2), of a] tail [OF assms(3), of b] assms(1) have "rev x = rev y" by metis
  then have "x = y" by simp
  with assms(1) show ?thesis by simp
qed

lemma last_part_colon: "no_colon part \<Longrightarrow> last_part (v @ '':'' @ part) = part"
proof -
  assume "no_colon part"
  then have "split_on (\<lambda>x. x = CHR '':'') part = [part]" by (auto simp: no_colon_def intro!: split_on_no_sep)
  then show ?thesis
    using split_on_after [of "\<lambda>x. x = CHR '':''" "CHR '':''" v part] by (simp add: last_part_def str_split_def)
qed

text \<open>What a URL signed for a file is: its path, the part of its signature, its expiry.\<close>

definition hours_of :: "nat option \<Rightarrow> nat" where
  "hours_of h = (case h of None \<Rightarrow> 1 | Some n \<Rightarrow> if n = 0 then 1 else n)"

definition signed_value :: "signing_env \<Rightarrow> nat option \<Rightarrow> string \<Rightarrow> int \<Rightarrow> string" where
  "signed_value env h name now = full_value (storage_url env PRIVATE name) (expires_at (hours_of h) now)"

lemma show_int_nonneg: "0 \<le> n \<Longrightarrow> CHR ''-'' \<notin> set (show_int n)" "show_int n \<noteq> []" "no_colon (show_int n)"
  using show_digits_chars(1) [of "nat n"] show_digits_chars(1) [of "nat (- n)"] show_digits_chars(2) [of "nat n"]
  by (auto simp: show_int_def no_colon_def)

lemma expires_nonneg: "0 \<le> now \<Longrightarrow> 0 \<le> expires_at h now"
  by (simp add: expires_at_def MICROSECONDS_def)

lemma storage_url_no_colon:
  assumes "signer_laws env"
  shows "no_colon (storage_url env p name)"
proof -
  have "set (lstrip_slash s) \<subseteq> set s" for s by (auto simp: lstrip_slash_def dest: set_dropWhileD)
  with signer_lawsD(5) [OF assms, of name] show ?thesis
    by (cases p) (auto simp: storage_url_def no_colon_def MEDIA_URL_def)
qed

text \<open>The text a signature stands for tells the path and the instant it was signed for.\<close>

lemma full_value_signed:
  assumes laws: "signer_laws env" and now: "0 \<le> now" and e: "0 \<le> e"
    and eq: "full_value path e = signed_value env h name now"
  shows "path = storage_url env PRIVATE name \<and> e = expires_at (hours_of h) now"
proof -
  have "path @ CHR ''-'' # show_int e = storage_url env PRIVATE name @ CHR ''-'' # show_int (expires_at (hours_of h) now)"
    using eq by (simp add: full_value_def signed_value_def)
  from last_separator [OF this show_int_nonneg(1) [OF e] show_int_nonneg(1) [OF expires_nonneg [OF now]]]
  have "path = storage_url env PRIVATE name" "show_int e = show_int (expires_at (hours_of h) now)" by auto
  with signer_lawsD(4) [OF laws] show ?thesis by (metis option.inject)
qed

lemma signed_value_colon:
  assumes laws: "signer_laws env" and eq: "full @ '':'' @ signature = sg_sign env salt (signed_value env h name now)"
  shows "full = signed_value env h name now \<and> no_colon signature"
proof -
  obtain part where part: "sg_sign env salt (signed_value env h name now) = signed_value env h name now @ '':'' @ part" "no_colon part"
    using signer_lawsD(1) [OF laws] by metis
  have free: "no_colon (signed_value env h name now)"
    using storage_url_no_colon [OF laws] show_int_nonneg(3) by (auto simp: signed_value_def full_value_def no_colon_def)
  have eq': "full @ CHR '':'' # signature = signed_value env h name now @ CHR '':'' # part" using eq part(1) by simp
  have first: "takeWhile (\<lambda>z. z \<noteq> CHR '':'') (full @ CHR '':'' # signature) = signed_value env h name now"
    using free unfolding eq' by (intro takeWhile_separator) (simp add: no_colon_def)
  have "no_colon full"
  proof (rule ccontr)
    assume "\<not> no_colon full"
    then obtain a b where f: "full = a @ CHR '':'' # b" "CHR '':'' \<notin> set a" by (auto simp: no_colon_def dest: split_list_first)
    with first takeWhile_separator [OF f(2), of "b @ CHR '':'' # signature"] have "a = signed_value env h name now" by simp
    with eq' f(1) have "part = b @ CHR '':'' # signature" by simp
    with part(2) show False by (simp add: no_colon_def)
  qed
  then have "full = signed_value env h name now" using first takeWhile_separator [of "CHR '':''" full signature] by (simp add: no_colon_def)
  with eq' part(2) show ?thesis by simp
qed

subsection \<open>Accepted URLs\<close>

definition issued_for :: "signing_env \<Rightarrow> (string \<times> nat option \<times> string \<times> int) list \<Rightarrow> string \<Rightarrow> string \<Rightarrow> bool" where
  "issued_for env issued salt text \<longleftrightarrow>
     (\<exists>(db, h, name, now) \<in> set issued. 0 \<le> now \<and> salt = private_media_salt db
        \<and> text = sg_sign env salt (signed_value env h name now))"

text \<open>
  A client that cannot forge: a text accepted under a salt is one of those the storages signed
  under it.
\<close>

definition unforged :: "signing_env \<Rightarrow> (string \<times> nat option \<times> string \<times> int) list \<Rightarrow> requested \<Rightarrow> bool" where
  "unforged env issued u \<longleftrightarrow>
     (\<forall>signature full db. query_value (snd u) ''signature'' = Some signature \<longrightarrow>
        sg_unsign env (private_media_salt db) (full @ '':'' @ signature) \<noteq> None \<longrightarrow>
        issued_for env issued (private_media_salt db) (full @ '':'' @ signature))"

lemma private_media_salt_inj: "private_media_salt db = private_media_salt db' \<longleftrightarrow> db = db'"
  by (simp add: private_media_salt_def)

lemma accepted_was_issued:
  assumes laws: "signer_laws env" and "unforged env issued u" "0 \<le> now"
    and ok: "check_signature env u (private_media_salt db) now"
  shows "\<exists>h name t. (db, h, name, t) \<in> set issued \<and> fst u = storage_url env PRIVATE name
     \<and> now < expires_at (hours_of h) t * MICROSECONDS"
proof -
  from ok obtain signature e where q: "query_value (snd u) ''signature'' = Some signature"
    and valid: "sg_unsign env (private_media_salt db) (full_value (fst u) e @ '':'' @ signature) \<noteq> None"
    and live: "now < e * MICROSECONDS"
    by (auto simp: check_signature_def bind_eq_Some_conv split: option.splits)
  from live assms(3) have e: "0 \<le> e" by (simp add: MICROSECONDS_def)
  from assms(2) q valid obtain db' h name t where i: "(db', h, name, t) \<in> set issued" "0 \<le> t" "db' = db"
    "full_value (fst u) e @ '':'' @ signature = sg_sign env (private_media_salt db) (signed_value env h name t)"
    unfolding unforged_def issued_for_def private_media_salt_inj by fastforce
  from signed_value_colon [OF laws i(4)] have "full_value (fst u) e = signed_value env h name t" by blast
  from full_value_signed [OF laws i(2) e this] i live show ?thesis by auto
qed

text \<open>The URL of a file is accepted until it expires, on its tenant and on no other.\<close>

lemma private_url_checked:
  assumes laws: "signer_laws env" and t: "0 \<le> t"
  shows "check_signature env (private_url env db h name t) (private_media_salt db') now
    \<longleftrightarrow> db' = db \<and> now < expires_at (hours_of h) t * MICROSECONDS"
proof -
  let ?v = "signed_value env h name t"
  obtain part where part: "sg_sign env (private_media_salt db) ?v = ?v @ '':'' @ part" "part \<noteq> []" "no_colon part"
    using signer_lawsD(1) [OF laws] by metis
  have u: "private_url env db h name t = (storage_url env PRIVATE name,
      [(''signature'', part), (''expires'', show_int (expires_at (hours_of h) t))])"
    using last_part_colon [OF part(3), of ?v] part(1)
    by (simp add: private_url_def sign_url_def signed_value_def hours_of_def Let_def)
  have other: "sg_unsign env (private_media_salt db') (?v @ '':'' @ part) \<noteq> None \<longleftrightarrow> db' = db"
  proof
    assume "sg_unsign env (private_media_salt db') (?v @ '':'' @ part) \<noteq> None"
    then obtain w where w: "?v @ '':'' @ part = sg_sign env (private_media_salt db') w"
      using signer_lawsD(2) [OF laws] by blast
    obtain part' where part': "sg_sign env (private_media_salt db') w = w @ '':'' @ part'" "no_colon part'"
      using signer_lawsD(1) [OF laws] by metis
    have "?v = w" using last_separator [of ?v "CHR '':''" part w part'] w part part' by (simp add: no_colon_def)
    with w part(1) have "sg_sign env (private_media_salt db) ?v = sg_sign env (private_media_salt db') ?v" by simp
    with signer_lawsD(3) [OF laws] show "db' = db" by metis
  next
    assume "db' = db"
    moreover have "sg_unsign env (private_media_salt db) (?v @ '':'' @ part) = Some ?v"
      using part(1) unfolding signer_lawsD(2) [OF laws] by simp
    ultimately show "sg_unsign env (private_media_salt db') (?v @ '':'' @ part) \<noteq> None" by simp
  qed
  have ne: "show_int n \<noteq> []" for n by (rule show_int_nonneg(2))
  have fst_u: "fst (private_url env db h name t) = storage_url env PRIVATE name" by (simp add: u)
  have q1: "query_value (snd (private_url env db h name t)) ''signature'' = Some part"
    using part(2) by (simp add: u query_value_def)
  have "query_value (snd (private_url env db h name t)) ''expires'' = Some (show_int (expires_at (hours_of h) t))"
    using part(2) ne by (simp add: u query_value_def)
  then have q2: "Option.bind (query_value (snd (private_url env db h name t)) ''expires'') (sg_read_int env) = Some (expires_at (hours_of h) t)"
    using signer_lawsD(4) [OF laws] by simp
  have "check_signature env (private_url env db h name t) (private_media_salt db') now
      \<longleftrightarrow> sg_unsign env (private_media_salt db') (?v @ '':'' @ part) \<noteq> None \<and> now < expires_at (hours_of h) t * MICROSECONDS"
    unfolding check_signature_def q1 q2 fst_u option.case by (simp add: signed_value_def)
  with other show ?thesis by simp
qed

end
