(* ===== verification/Media_Access.thy ===== *)
theory Media_Access
  imports Media_Url_Laws
begin

text \<open>
  The properties of the media of a tenant: the storages behave as a map from names to bytes, and
  a private file is reached through a URL signed for it and no other way.
\<close>

subsection \<open>Paths of the private store\<close>

definition PRIVATE_PREFIX :: string where
  "PRIVATE_PREFIX = ''/media/private/''"

lemma private_prefix: "rev (lstrip_slash (rev MEDIA_URL)) @ ''/'' @ privacy_value PRIVATE @ ''/'' = PRIVATE_PREFIX"
  by (simp add: MEDIA_URL_def lstrip_slash_def PRIVATE_PREFIX_def)

lemma private_prefix_not_Nil: "PRIVATE_PREFIX \<noteq> []"
  by (simp add: PRIVATE_PREFIX_def)

text \<open>A name its URL spells as it is.\<close>

definition plain_name :: "signing_env \<Rightarrow> string \<Rightarrow> bool" where
  "plain_name env name \<longleftrightarrow> sg_uri env name = name \<and> lstrip_slash name = name
     \<and> (\<forall>a b. name \<noteq> a @ PRIVATE_PREFIX @ b)"

lemma str_replace_absent: "\<forall>a b. s \<noteq> a @ pat @ b \<Longrightarrow> str_replace pat new s = s"
proof (induction s)
  case Nil
  show ?case by (simp add: str_replace.simps)
next
  case (Cons c s)
  have "\<not> starts_with pat (c # s)" using Cons.prems by (metis append_Nil starts_with_iff)
  moreover have "\<forall>a b. s \<noteq> a @ pat @ b" using Cons.prems by (metis append_Cons)
  ultimately show ?case using Cons.IH by (simp add: str_replace.simps [of pat new "c # s"])
qed

lemma str_replace_prefix: "pat \<noteq> [] \<Longrightarrow> str_replace pat new (pat @ s) = new @ str_replace pat new s"
proof (cases pat)
  case (Cons c cs)
  then show ?thesis by (subst str_replace.simps) (simp add: starts_with_iff)
qed simp

lemma storage_url_private: "storage_url env PRIVATE name = PRIVATE_PREFIX @ lstrip_slash (sg_uri env name)"
  by (simp add: storage_url_def MEDIA_URL_def PRIVATE_PREFIX_def)

lemma plain_path: "plain_name env name \<Longrightarrow> str_replace PRIVATE_PREFIX [] (storage_url env PRIVATE name) = name"
  using str_replace_absent [of name PRIVATE_PREFIX "[]"] private_prefix_not_Nil
  by (auto simp: storage_url_private plain_name_def str_replace_prefix)

lemma serve_accepted:
  "check_signature env u (private_media_salt db) now \<Longrightarrow>
   serve_signed_url env db m u now =
     (case find (named PRIVATE (str_replace PRIVATE_PREFIX [] (fst u))) (md_refs m) of
        None \<Rightarrow> Http404 | Some r \<Rightarrow> AccelRedirect (internal_path db (fr_store_path r)) (fr_mimetype r))"
  unfolding serve_signed_url_def private_prefix by simp

subsection \<open>Properties\<close>


text \<open>
  C31: whatever a client that cannot forge signatures asks, it is denied unless it holds a URL that
  was signed for this very path, by this tenant, and has not expired; and what it then gets is the
  file of a private reference of this tenant.
\<close>

theorem private_file_needs_its_url:
  assumes "signer_laws env" "unforged env issued u" "0 \<le> now"
    and "serve_signed_url env db m u now \<noteq> PermissionDenied"
  shows "\<exists>h name t. (db, h, name, t) \<in> set issued \<and> fst u = storage_url env PRIVATE name
     \<and> now < expires_at (hours_of h) t * MICROSECONDS
     \<and> (serve_signed_url env db m u now = Http404
        \<or> (\<exists>r \<in> set (md_refs m). fr_privacy r = PRIVATE
             \<and> (plain_name env name \<longrightarrow> fr_symbolic_path r = name)
             \<and> serve_signed_url env db m u now = AccelRedirect (internal_path db (fr_store_path r)) (fr_mimetype r)))"
proof -
  have ok: "check_signature env u (private_media_salt db) now"
    using assms(4) by (auto simp: serve_signed_url_def split: if_splits)
  from accepted_was_issued [OF assms(1-3) ok] obtain h name t where i: "(db, h, name, t) \<in> set issued"
    "fst u = storage_url env PRIVATE name" "now < expires_at (hours_of h) t * MICROSECONDS" by blast
  have "serve_signed_url env db m u now = Http404
      \<or> (\<exists>r \<in> set (md_refs m). fr_privacy r = PRIVATE \<and> (plain_name env name \<longrightarrow> fr_symbolic_path r = name)
           \<and> serve_signed_url env db m u now = AccelRedirect (internal_path db (fr_store_path r)) (fr_mimetype r))"
  proof (cases "find (named PRIVATE (str_replace PRIVATE_PREFIX [] (fst u))) (md_refs m)")
    case None
    then show ?thesis by (simp add: serve_accepted [OF ok])
  next
    case (Some r)
    from find_Some_iff_mem [OF Some] have "r \<in> set (md_refs m)" "fr_privacy r = PRIVATE"
      "plain_name env name \<longrightarrow> fr_symbolic_path r = name"
      using plain_path i(2) by (auto simp: named_def)
    with Some show ?thesis by (auto simp: serve_accepted [OF ok])
  qed
  with i show ?thesis by blast
qed


text \<open>A file whose name is quoted in its URL is not found: the view looks the quoted path up.\<close>

lemma quoted_name_not_found:
  assumes "signer_laws env" "0 \<le> t" "now < expires_at (hours_of h) t * MICROSECONDS"
    and "\<forall>r \<in> set (md_refs m). \<not> named PRIVATE (str_replace PRIVATE_PREFIX [] (storage_url env PRIVATE name)) r"
  shows "serve_signed_url env db m (private_url env db h name t) now = Http404"
proof -
  have ok: "check_signature env (private_url env db h name t) (private_media_salt db) now"
    using private_url_checked [OF assms(1,2)] assms(3) by blast
  have "fst (private_url env db h name t) = storage_url env PRIVATE name"
    by (simp add: private_url_def sign_url_def Let_def)
  with assms(4) have "find (named PRIVATE (str_replace PRIVATE_PREFIX [] (fst (private_url env db h name t)))) (md_refs m) = None"
    by (simp add: find_None_mem)
  then show ?thesis by (simp add: serve_accepted [OF ok])
qed

subsection \<open>A tenant with one private file\<close>

text \<open>
  A digest that keeps forty characters, a signature that spells the salt and the text in unary, and
  draws that lengthen the name.
\<close>

definition toy_storage :: storage_env where
  "toy_storage = \<lparr>se_sha1 = (\<lambda>c. take 40 (c @ replicate 40 CHR ''0'')), se_guess_type = (\<lambda>n. None), se_safe_join = Some,
     se_valid_file_name = (\<lambda>f. f \<noteq> []), se_alternative_name = (\<lambda>root ext i. root @ ext)\<rparr>"

definition toy_draws :: "string \<Rightarrow> string \<Rightarrow> nat \<Rightarrow> string" where
  "toy_draws root ext i = root @ replicate (Suc i) CHR ''x'' @ ext"

definition toy_files :: "media_op list" where
  "toy_files = [Save PRIVATE ''user/a.txt'' \<lparr>up_bytes = ''secret'', up_cursor = 0\<rparr> toy_draws,
     Save PUBLIC ''site/b.txt'' \<lparr>up_bytes = ''secret'', up_cursor = 0\<rparr> toy_draws,
     Save PRIVATE ''user/a.txt'' \<lparr>up_bytes = ''other'', up_cursor = 0\<rparr> toy_draws,
     Delete PUBLIC ''site/b.txt'']"

fun unary :: "string \<Rightarrow> string" where
  "unary [] = ''c''"
| "unary (c # s) = replicate (of_char c) CHR ''a'' @ ''b'' @ unary s"

definition toy_sign :: "string \<Rightarrow> string \<Rightarrow> string" where
  "toy_sign salt v = v @ '':'' @ unary salt @ unary v"

definition toy_unsign :: "string \<Rightarrow> string \<Rightarrow> string option" where
  "toy_unsign salt t =
     (let v = rev (tl (dropWhile (\<lambda>c. c \<noteq> CHR '':'') (rev t))) in if t = toy_sign salt v then Some v else None)"

definition toy_read_int :: "string \<Rightarrow> int option" where
  "toy_read_int s = (if starts_with ''-'' s then map_option uminus (read_digits (tl s)) else read_digits s)"

definition toy_signer :: signing_env where
  "toy_signer = \<lparr>sg_sign = toy_sign, sg_unsign = toy_unsign, sg_read_int = toy_read_int,
     sg_uri = filter (\<lambda>c. c \<noteq> CHR '':'')\<rparr>"

lemma unary_no_colon: "no_colon (unary s)"
  by (induction s) (auto simp: no_colon_def)

lemma unary_inj: "unary s @ x = unary t @ y \<Longrightarrow> s = t \<and> x = y"
proof (induction s arbitrary: t)
  case Nil
  show ?case
  proof (cases t)
    case Nil
    with \<open>unary [] @ x = unary t @ y\<close> show ?thesis by simp
  next
    case (Cons d t')
    with \<open>unary [] @ x = unary t @ y\<close> show ?thesis by (cases "of_char d :: nat") auto
  qed
next
  case (Cons c s)
  show ?case
  proof (cases t)
    case Nil
    with Cons.prems show ?thesis by (cases "of_char c :: nat") auto
  next
    case (Cons d t')
    have w: "takeWhile (\<lambda>z. z \<noteq> CHR ''b'') (replicate n CHR ''a'' @ CHR ''b'' # r) = replicate n CHR ''a''" for n r
      by (rule takeWhile_separator) simp
    have eq: "replicate (of_char c) CHR ''a'' @ CHR ''b'' # (unary s @ x) = replicate (of_char d) CHR ''a'' @ CHR ''b'' # (unary t' @ y)"
      using Cons.prems Cons by simp
    from arg_cong [OF eq, of "\<lambda>l. length (takeWhile (\<lambda>z. z \<noteq> CHR ''b'') l)"] have "(of_char c :: nat) = of_char d"
      by (simp add: w)
    with eq Cons Cons.IH [of t'] show ?thesis by simp
  qed
qed

lemma dropWhile_colon: "CHR '':'' \<notin> set t \<Longrightarrow> dropWhile (\<lambda>c. c \<noteq> CHR '':'') (t @ s) = dropWhile (\<lambda>c. c \<noteq> CHR '':'') s"
  by (induction t) auto

lemma toy_signer_laws: "signer_laws toy_signer"
proof -
  have part: "\<exists>part. toy_sign salt v = v @ '':'' @ part \<and> part \<noteq> [] \<and> no_colon part" for salt v
  proof -
    have "unary salt @ unary v \<noteq> []" by (cases salt) auto
    with unary_no_colon show ?thesis by (auto simp: toy_sign_def no_colon_def)
  qed
  have unsign: "toy_unsign salt t = Some v \<longleftrightarrow> t = toy_sign salt v" for salt t v
  proof
    assume "t = toy_sign salt v"
    moreover have "rev (tl (dropWhile (\<lambda>c. c \<noteq> CHR '':'') (rev (toy_sign salt v)))) = v"
      using unary_no_colon [of salt] unary_no_colon [of v] by (simp add: toy_sign_def no_colon_def dropWhile_colon)
    ultimately show "toy_unsign salt t = Some v" by (simp add: toy_unsign_def)
  qed (auto simp: toy_unsign_def Let_def split: if_splits)
  have tenant: "db = db'" if "toy_sign (private_media_salt db) v = toy_sign (private_media_salt db') v" for db db' v
    using that unary_inj [of "private_media_salt db" "unary v" "private_media_salt db'" "unary v"]
    by (simp add: toy_sign_def private_media_salt_inj)
  have int: "toy_read_int (show_int n) = Some n" for n
  proof (cases "n < 0")
    case False
    have "\<not> starts_with ''-'' (show_digits (nat n))"
      using show_digits_chars(1) [of "nat n"] by (auto simp: starts_with_iff)
    with False show ?thesis by (simp add: toy_read_int_def show_int_def read_show_digits)
  qed (simp add: toy_read_int_def show_int_def read_show_digits)
  show ?thesis
    unfolding signer_laws_def toy_signer_def using part unsign tenant int by (simp add: no_colon_def)
qed

lemma toy_draws_settle: "draws_settle (toy_storage\<lparr>se_alternative_name := toy_draws\<rparr>) m p"
  unfolding draws_settle_def
proof (intro allI)
  fix dir ext root i
  have "length (toy_draws root ext (max i 256)) > 256"
    using max.cobounded2 [of 256 i] unfolding toy_draws_def length_append length_replicate by linarith
  then have "length (path_join dir (toy_draws root ext (max i 256))) > 256" by (simp add: path_join_def)
  then have "settles (toy_storage\<lparr>se_alternative_name := toy_draws\<rparr>) m p dir ext root (max i 256)"
    by (simp add: settles_def MAX_LENGTH_def)
  then show "\<exists>j \<ge> i. settles (toy_storage\<lparr>se_alternative_name := toy_draws\<rparr>) m p dir ext root j"
    by (meson max.cobounded1)
qed

lemma toy_files_ok: "digest_laws toy_storage {''secret'', ''other''}" "\<forall>op \<in> set toy_files. op_ok toy_storage {''secret'', ''other''} op"
proof -
  have "length (se_sha1 toy_storage c) = 40" for c by (simp add: toy_storage_def min_def)
  then show "digest_laws toy_storage {''secret'', ''other''}" by (simp add: digest_laws_def) (simp add: toy_storage_def)
  show "\<forall>op \<in> set toy_files. op_ok toy_storage {''secret'', ''other''} op"
    unfolding toy_files_def by (auto intro: toy_draws_settle)
qed

definition toy_media :: media where
  "toy_media = (case run_media toy_storage toy_files empty_media of None \<Rightarrow> empty_media | Some (es, m) \<Rightarrow> m)"

lemma toy_run: "map_option fst (run_media toy_storage toy_files empty_media) =
    Some [Stored PRIVATE ''user/a.txt'' ''secret'', Stored PUBLIC ''site/b.txt'' ''secret'',
          Stored PRIVATE ''user/ax.txt'' ''other'', Removed PUBLIC ''site/b.txt'']"
  by code_simp

lemma toy_media_run:
  "\<exists>es. run_media toy_storage toy_files empty_media = Some (es, toy_media)
     \<and> es = [Stored PRIVATE ''user/a.txt'' ''secret'', Stored PUBLIC ''site/b.txt'' ''secret'',
          Stored PRIVATE ''user/ax.txt'' ''other'', Removed PUBLIC ''site/b.txt'']"
  using toy_run by (auto simp: toy_media_def)

lemma toy_media_ok: "media_ok toy_storage {''secret'', ''other''} toy_media"
proof -
  from run_media_refines [OF toy_files_ok(1) media_ok_empty toy_files_ok(2)] obtain es m where
    "run_media toy_storage toy_files empty_media = Some (es, m)" "media_ok toy_storage {''secret'', ''other''} m" by blast
  with toy_media_run show ?thesis by auto
qed


definition toy_url :: requested where
  "toy_url = private_url toy_signer ''tenant_a'' None ''user/a.txt'' 0"

lemma toy_read: "read_reference toy_media PRIVATE ''user/a.txt'' = Some ''secret''"
  unfolding toy_media_def by code_simp

lemma no_private_prefix: "\<forall>a b. ''user/a.txt'' \<noteq> a @ PRIVATE_PREFIX @ b"
proof (intro allI notI)
  fix a b :: string
  assume "''user/a.txt'' = a @ PRIVATE_PREFIX @ b"
  from arg_cong [OF this, of length] show False by (simp add: PRIVATE_PREFIX_def)
qed

lemma toy_name_plain: "plain_name toy_signer ''user/a.txt''"
  using no_private_prefix by (simp add: plain_name_def toy_signer_def lstrip_slash_def)


lemma toy_unforged: "unforged toy_signer [(''tenant_a'', None, ''user/a.txt'', 0)] toy_url"
proof -
  let ?v = "signed_value toy_signer None ''user/a.txt'' 0"
  have sig: "query_value (snd toy_url) ''signature'' = Some (unary (private_media_salt ''tenant_a'') @ unary ?v)"
    (is "_ = Some ?part")
  proof -
    have np: "no_colon ?part" using unary_no_colon by (simp add: no_colon_def)
    have sign: "sg_sign toy_signer (private_media_salt ''tenant_a'') ?v = ?v @ '':'' @ ?part" by (simp add: toy_signer_def toy_sign_def)
    have u: "toy_url = (storage_url toy_signer PRIVATE ''user/a.txt'', [(''signature'', ?part), (''expires'', show_int (expires_at (hours_of None) 0))])"
      using last_part_colon [OF np, of ?v] sign
      by (simp add: toy_url_def private_url_def sign_url_def signed_value_def hours_of_def Let_def)
    have "?part \<noteq> []" by (simp add: private_media_salt_def)
    then show ?thesis unfolding u query_value_def by auto
  qed
  show ?thesis
    unfolding unforged_def
  proof (intro allI impI)
    fix signature full db
    assume "query_value (snd toy_url) ''signature'' = Some signature"
      and acc: "sg_unsign toy_signer (private_media_salt db) (full @ '':'' @ signature) \<noteq> None"
    then have s: "signature = ?part" using sig by simp
    from acc obtain w where w: "full @ '':'' @ signature = toy_sign (private_media_salt db) w"
      using signer_lawsD(2) [OF toy_signer_laws] by (auto simp: toy_signer_def)
    then have eq: "full @ CHR '':'' # ?part = w @ CHR '':'' # (unary (private_media_salt db) @ unary w)" by (simp add: toy_sign_def s)
    have c: "CHR '':'' \<notin> set ?part" "CHR '':'' \<notin> set (unary (private_media_salt db) @ unary w)"
      using unary_no_colon unfolding no_colon_def by auto
    from last_separator [OF eq c] have fw: "full = w" "?part = unary (private_media_salt db) @ unary w" by auto
    from unary_inj [OF fw(2)] have "private_media_salt ''tenant_a'' = private_media_salt db" "unary ?v = unary w" by auto
    moreover from this(2) have "?v = w" using unary_inj [of ?v "[]" w "[]"] by simp
    ultimately show "issued_for toy_signer [(''tenant_a'', None, ''user/a.txt'', 0)] (private_media_salt db) (full @ '':'' @ signature)"
      using w by (simp add: issued_for_def toy_signer_def)
  qed
qed

theorem private_file_needs_its_url_witness:
  "serve_signed_url toy_signer ''tenant_a'' toy_media toy_url 7 \<noteq> PermissionDenied
     \<and> (\<exists>h name t. (''tenant_a'', h, name, t) \<in> set [(''tenant_a'', None, ''user/a.txt'', 0 :: int)]
          \<and> fst toy_url = storage_url toy_signer PRIVATE name)"
proof -
  have "check_signature toy_signer toy_url (private_media_salt ''tenant_a'') 7"
    unfolding toy_url_def private_url_checked [OF toy_signer_laws order_refl]
    by (simp add: expires_at_def hours_of_def MICROSECONDS_def)
  then have "serve_signed_url toy_signer ''tenant_a'' toy_media toy_url 7 \<noteq> PermissionDenied"
    by (simp add: serve_accepted split: option.splits)
  moreover from private_file_needs_its_url [OF toy_signer_laws toy_unforged _ this]
  have "\<exists>h name t. (''tenant_a'', h, name, t) \<in> set [(''tenant_a'', None, ''user/a.txt'', 0 :: int)]
          \<and> fst toy_url = storage_url toy_signer PRIVATE name" by fastforce
  ultimately show ?thesis by blast
qed

end
