(* ===== verification/Media_Rows.thy ===== *)
theory Media_Rows
  imports Media_Laws
begin

text \<open>
  The files of the rows of a model (\<open>CleanupFileQuerysetMixin\<close> and \<open>CleanupFileModelMixin\<close> of
  \<open>base/models/mixins.py\<close>, \<open>MediaQuerySet\<close> of \<open>website/models/media.py\<close>). A row is its file
  fields with the names they hold, the empty one for none; a field is given with its store. A
  deletion of files stops at the first that raises.
\<close>

subsection \<open>Operations\<close>

type_synonym file_fields = "(string \<times> privacy) list"
type_synonym file_row = "(string \<times> string) list"

fun delete_files :: "storage_env \<Rightarrow> privacy \<Rightarrow> string list \<Rightarrow> media \<Rightarrow> (storage_error + unit) \<times> media" where
  "delete_files env p [] m = (Inr (), m)"
| "delete_files env p (item # items) m =
     (if item = [] then delete_files env p items m
      else case delete_file env p item m of
             (Inl e, m') \<Rightarrow> (Inl e, m')
           | (Inr u, m') \<Rightarrow> delete_files env p items m')"

fun delete_fields :: "storage_env \<Rightarrow> (privacy \<times> string list) list \<Rightarrow> media \<Rightarrow> (storage_error + unit) \<times> media" where
  "delete_fields env [] m = (Inr (), m)"
| "delete_fields env ((p, items) # rest) m =
     (case delete_files env p items m of
        (Inl e, m') \<Rightarrow> (Inl e, m')
      | (Inr u, m') \<Rightarrow> delete_fields env rest m')"

definition field_value :: "file_row \<Rightarrow> string \<Rightarrow> string" where
  "field_value r f = (case dict_get r f of None \<Rightarrow> [] | Some v \<Rightarrow> v)"

text \<open>\<open>update\<close> of a queryset: the rows first, then the files they held in the fields it sets.\<close>

definition queryset_update ::
    "storage_env \<Rightarrow> file_fields \<Rightarrow> (file_row \<Rightarrow> bool) \<Rightarrow> (string \<times> string) list \<Rightarrow> file_row list \<times> media
     \<Rightarrow> (storage_error + unit) \<times> file_row list \<times> media" where
  "queryset_update env ffs sel kwargs s =
     (let (rows, m) = s;
          updated = filter (\<lambda>(f, p). f \<in> set (dict_keys kwargs)) ffs;
          file_to_delete = map (\<lambda>(f, p). (p, map (\<lambda>r. field_value r f) (filter sel rows))) updated;
          rows' = map (\<lambda>r. if sel r then fold (\<lambda>(f, v) r. dict_put f v r) kwargs r else r) rows;
          (res, m') = delete_fields env file_to_delete m
      in (res, rows', m'))"

text \<open>\<open>delete\<close> of a queryset: the rows first, then all their files.\<close>

definition queryset_delete ::
    "storage_env \<Rightarrow> file_fields \<Rightarrow> (file_row \<Rightarrow> bool) \<Rightarrow> file_row list \<times> media
     \<Rightarrow> (storage_error + unit) \<times> file_row list \<times> media" where
  "queryset_delete env ffs sel s =
     (let (rows, m) = s;
          file_to_delete = map (\<lambda>(f, p). (p, map (\<lambda>r. field_value r f) (filter sel rows))) ffs;
          (res, m') = delete_fields env file_to_delete m
      in (res, filter (\<lambda>r. \<not> sel r) rows, m'))"

text \<open>
  An instance and the state of its files when it was read. \<open>_get_dirty_file_fields\<close> compares the
  initial state with itself.
\<close>

record instance_files =
  if_values :: file_row
  if_initial :: file_row

definition dirty_file_fields :: "instance_files \<Rightarrow> string list" where
  "dirty_file_fields i =
     map fst (filter (\<lambda>(fname, val). dict_get (if_initial i) fname \<noteq> Some val) (if_initial i))"

definition instance_setattr :: "file_fields \<Rightarrow> string \<Rightarrow> string \<Rightarrow> instance_files \<Rightarrow> instance_files" where
  "instance_setattr ffs name v i =
     i\<lparr>if_values := dict_put name v (if_values i),
       if_initial := (if name \<in> set (dict_keys ffs) \<and> dict_get (if_initial i) name = None
                      then dict_put name v (if_initial i) else if_initial i)\<rparr>"

definition instance_save ::
    "storage_env \<Rightarrow> file_fields \<Rightarrow> instance_files \<Rightarrow> media \<Rightarrow> (storage_error + unit) \<times> instance_files \<times> media" where
  "instance_save env ffs i m =
     (let dirty = filter (\<lambda>(f, p). f \<in> set (dirty_file_fields i)) ffs;
          (res, m') = delete_fields env (map (\<lambda>(f, p). (p, [field_value (if_initial i) f])) dirty) m
      in (res, (case res of Inl e \<Rightarrow> i
                | Inr u \<Rightarrow> i\<lparr>if_initial := fold (\<lambda>(f, v) d. dict_put f v d)
                     (filter (\<lambda>(f, v). f \<in> set (dict_keys ffs)) (if_values i)) (if_initial i)\<rparr>), m'))"

definition instance_delete :: "storage_env \<Rightarrow> file_fields \<Rightarrow> instance_files \<Rightarrow> media \<Rightarrow> (storage_error + unit) \<times> media" where
  "instance_delete env ffs i m = delete_fields env (map (\<lambda>(f, p). (p, [field_value (if_values i) f])) ffs) m"

text \<open>\<open>MediaQuerySet.bulk_create\<close> rewinds every upload it describes.\<close>

definition media_precompute :: "storage_env \<Rightarrow> string option \<Rightarrow> upload \<Rightarrow> (string \<times> string option \<times> string option) \<times> upload" where
  "media_precompute env filename u =
     ((se_sha1 env (up_bytes u), Option.bind filename (\<lambda>n. if n = [] then None else se_guess_type env n), filename),
      u\<lparr>up_cursor := 0\<rparr>)"

subsection \<open>Laws\<close>

lemma delete_files_reads:
  assumes "digest_laws env C"
  shows "media_ok env C m \<Longrightarrow> delete_files env p items m = (res, m') \<Longrightarrow>
    res = Inr () \<and> media_ok env C m'
    \<and> (\<forall>p' n. read_reference m' p' n = (if p' = p \<and> n \<in> set items \<and> n \<noteq> [] then None else read_reference m p' n))"
proof (induction items arbitrary: m)
  case (Cons item items)
  show ?case
  proof (cases "item = []")
    case True
    with Cons.IH [OF Cons.prems(1)] Cons.prems(2) show ?thesis by auto
  next
    case False
    obtain r m1 where run: "delete_file env p item m = (r, m1)" by fastforce
    note k = delete_file_keeps [OF assms Cons.prems(1) run]
    from Cons.IH [OF k(1)] Cons.prems(2) run k(2) False show ?thesis by (auto simp: k(3))
  qed
qed simp

lemma delete_fields_reads:
  assumes "digest_laws env C"
  shows "media_ok env C m \<Longrightarrow> delete_fields env jobs m = (res, m') \<Longrightarrow>
    res = Inr () \<and> media_ok env C m'
    \<and> (\<forall>p n. read_reference m' p n = (if \<exists>items. (p, items) \<in> set jobs \<and> n \<in> set items \<and> n \<noteq> [] then None else read_reference m p n))"
proof (induction jobs arbitrary: m)
  case (Cons job jobs)
  obtain p items where job: "job = (p, items)" by fastforce
  obtain r m1 where run: "delete_files env p items m = (r, m1)" by fastforce
  note k = delete_files_reads [OF assms Cons.prems(1) run]
  have reads: "read_reference m1 p' n = (if p' = p \<and> n \<in> set items \<and> n \<noteq> [] then None else read_reference m p' n)" for p' n
    using k by blast
  have run1: "delete_fields env jobs m1 = (res, m')" and ok1: "media_ok env C m1" using Cons.prems(2) job run k by auto
  show ?case using Cons.IH [OF ok1 run1] by (auto simp: reads job)
qed simp

text \<open>Deleting rows takes the files they name, and no other.\<close>

lemma queryset_delete_files:
  assumes "digest_laws env C" "media_ok env C m" "queryset_delete env ffs sel (rows, m) = (res, rows', m')"
  shows "res = Inr () \<and> rows' = filter (\<lambda>r. \<not> sel r) rows \<and> media_ok env C m'
    \<and> (\<forall>p n. read_reference m' p n =
         (if n \<noteq> [] \<and> (\<exists>r \<in> set rows. sel r \<and> (\<exists>f. (f, p) \<in> set ffs \<and> field_value r f = n)) then None
          else read_reference m p n))"
proof -
  define jobs where "jobs = map (\<lambda>(f, p). (p, map (\<lambda>r. field_value r f) (filter sel rows))) ffs"
  have run: "delete_fields env jobs m = (res, m')" and rows: "rows' = filter (\<lambda>r. \<not> sel r) rows"
    using assms(3) by (auto simp: queryset_delete_def jobs_def split: prod.splits)
  have named: "(\<exists>items. (p, items) \<in> set jobs \<and> n \<in> set items \<and> n \<noteq> [])
      \<longleftrightarrow> n \<noteq> [] \<and> (\<exists>r \<in> set rows. sel r \<and> (\<exists>f. (f, p) \<in> set ffs \<and> field_value r f = n))" for p n
    unfolding jobs_def by force
  from delete_fields_reads [OF assms(1,2) run] show ?thesis unfolding named using rows by blast
qed

text \<open>Saving an instance never deletes a file: the one it replaces stays in the store.\<close>

lemma save_keeps_replaced_file:
  assumes "distinct (dict_keys (if_initial i))"
  shows "snd (snd (instance_save env ffs i m)) = m"
proof -
  have "dirty_file_fields i = []"
    using assms by (auto simp: dirty_file_fields_def filter_empty_conv)
  then show ?thesis by (simp add: instance_save_def)
qed

text \<open>A description reads the upload from its start, and leaves it there for the storage.\<close>

lemma media_precompute_rewinds: "up_cursor (snd (media_precompute env filename u)) = 0"
  by (simp add: media_precompute_def)

end
