(* ===== verification/Html_Widgets.thy ===== *)
theory Html_Widgets
  imports Totem_Prelude
begin

text \<open>
  The widgets of an HTML content and their expansion (\<open>core/html_widget.py\<close>). An element is what
  lxml keeps of it: its tag, attributes and opening text, its children, and the text that follows
  it. A comment has no tag. Elements are compared by identity: the parsed document gives each of
  its elements a number, the elements of a rendered markup are new and have none. Parsing and
  serialization, JSON, the attribute schemas and the rendering of a widget are parameters.
\<close>

subsection \<open>Elements\<close>

datatype html_node =
  Node (nd_id: "nat option") (nd_tag: "string option") (nd_attrs: "(string \<times> string) list")
    (nd_text: string) (nd_children: "html_node list") (nd_tail: string)

definition WIDGET_TAG :: string where "WIDGET_TAG = ''t-widget''"
definition WIDGET_NAME_ATTR :: string where "WIDGET_NAME_ATTR = ''name''"
definition WIDGET_ATTRS_ATTR :: string where "WIDGET_ATTRS_ATTR = ''attrs''"
definition WIDGET_MAX_COUNT :: nat where "WIDGET_MAX_COUNT = 20"

definition add_tail :: "string \<Rightarrow> html_node \<Rightarrow> html_node" where
  "add_tail s n = Node (nd_id n) (nd_tag n) (nd_attrs n) (nd_text n) (nd_children n) (nd_tail n @ s)"

text \<open>The identities of a parsed document, in document order.\<close>

fun number_node :: "html_node \<Rightarrow> nat \<Rightarrow> html_node \<times> nat"
  and number_nodes :: "html_node list \<Rightarrow> nat \<Rightarrow> html_node list \<times> nat" where
  "number_node (Node i tag attrs txt cs tail) k =
     (let (cs', k') = number_nodes cs (Suc k) in (Node (Some k) tag attrs txt cs' tail, k'))"
| "number_nodes [] k = ([], k)"
| "number_nodes (c # cs) k =
     (let (c', k') = number_node c k; (cs', k'') = number_nodes cs k' in (c' # cs', k''))"

subsection \<open>The registry\<close>

datatype 'j json = JsonObject 'j | OtherJson

text \<open>\<open>None\<close> is a \<open>ValidationError\<close> of the attributes, and an exception of the rendering.\<close>

record ('j, 'a) widget =
  wg_id :: string
  wg_title :: string
  wg_attributes :: "'j \<Rightarrow> 'a option"
  wg_render :: "'a \<Rightarrow> string option"

record ('j, 'a) widget_class =
  wc_id :: "string option"
  wc_title :: "string option"
  wc_attributes :: "'j \<Rightarrow> 'a option"
  wc_render :: "'a \<Rightarrow> string option"

type_synonym ('j, 'a) widgets = "(string \<times> ('j, 'a) widget) list"

datatype widget_error = NoWidgetTitle string | WidgetDefined string | WidgetNotFound string

text \<open>\<open>HtmlWidgetMetaclass.__new__\<close>, with the registry it leaves.\<close>

definition new_widget_class ::
    "('j, 'a) widget_class \<Rightarrow> ('j, 'a) widgets \<Rightarrow> widget_error + ('j, 'a) widgets" where
  "new_widget_class c reg =
     (case wc_id c of
        None \<Rightarrow> Inr reg
      | Some i \<Rightarrow>
          if str_or (wc_title c) [] = [] then Inl (NoWidgetTitle i)
          else if dict_get reg i \<noteq> None then Inl (WidgetDefined i)
          else Inr (dict_put i \<lparr>wg_id = i, wg_title = str_or (wc_title c) [],
                                wg_attributes = wc_attributes c, wg_render = wc_render c\<rparr> reg))"

definition get_widget :: "('j, 'a) widgets \<Rightarrow> string \<Rightarrow> ('j, 'a) widget option" where
  "get_widget reg i = dict_get reg i"

definition get_widget_or_raise :: "('j, 'a) widgets \<Rightarrow> string \<Rightarrow> widget_error + ('j, 'a) widget" where
  "get_widget_or_raise reg i = (case get_widget reg i of None \<Rightarrow> Inl (WidgetNotFound i) | Some w \<Rightarrow> Inr w)"

definition get_widgets :: "('j, 'a) widgets \<Rightarrow> ('j, 'a) widget list" where
  "get_widgets reg = List.map_filter (dict_get reg) (sort (dict_keys reg))"

definition widget_css_class :: "('j, 'a) widget \<Rightarrow> string" where
  "widget_css_class w = ''t-widget t-widget-'' @ wg_id w"

subsection \<open>Markers\<close>

text \<open>What the libraries give: \<open>None\<close> is a text that does not parse.\<close>

record 'j html_env =
  he_parse :: "string \<Rightarrow> html_node option"
  he_tostring :: "html_node \<Rightarrow> string"
  he_json :: "string \<Rightarrow> 'j json option"
  he_empty :: 'j
  he_word_char :: "char \<Rightarrow> bool"
  he_lower :: "string \<Rightarrow> string"

definition str_strip :: "string \<Rightarrow> string" where
  "str_strip s = rev (dropWhile is_space (rev (dropWhile is_space s)))"

definition node_get :: "html_node \<Rightarrow> string \<Rightarrow> string option" where
  "node_get n k = dict_get (nd_attrs n) k"

definition marker_name :: "html_node \<Rightarrow> string" where
  "marker_name n = str_strip (case node_get n WIDGET_NAME_ATTR of None \<Rightarrow> [] | Some s \<Rightarrow> s)"

text \<open>The parameters of a marker: a JSON object its widget accepts.\<close>

definition marker_attributes :: "'j html_env \<Rightarrow> ('j, 'a) widget \<Rightarrow> html_node \<Rightarrow> 'a option" where
  "marker_attributes env w n =
     (let raw = (case node_get n WIDGET_ATTRS_ATTR of None \<Rightarrow> [] | Some s \<Rightarrow> s)
      in (case (if raw = [] then Some (JsonObject (he_empty env)) else he_json env raw) of
            Some (JsonObject j) \<Rightarrow> wg_attributes w j
          | _ \<Rightarrow> None))"

definition render_marker :: "'j html_env \<Rightarrow> ('j, 'a) widgets \<Rightarrow> html_node \<Rightarrow> string" where
  "render_marker env reg n =
     (case get_widget reg (marker_name n) of
        None \<Rightarrow> []
      | Some w \<Rightarrow>
          (case marker_attributes env w n of
             None \<Rightarrow> []
           | Some a \<Rightarrow> (case wg_render w a of None \<Rightarrow> [] | Some markup \<Rightarrow> markup)))"

text \<open>The markers with no marker above them, in document order.\<close>

definition is_marker :: "html_node \<Rightarrow> bool" where
  "is_marker n \<longleftrightarrow> nd_tag n = Some WIDGET_TAG"

fun iter_widgets :: "bool \<Rightarrow> html_node \<Rightarrow> (html_node \<times> bool) list" where
  "iter_widgets inside (Node i tag attrs txt cs tail) =
     (let here = (tag = Some WIDGET_TAG); below = concat (map (iter_widgets (inside \<or> here)) cs)
      in if here then (Node i tag attrs txt cs tail, inside) # below else below)"

definition top_markers :: "html_node \<Rightarrow> html_node list" where
  "top_markers root = map fst (filter (\<lambda>(n, inside). \<not> inside) (iter_widgets False root))"

subsection \<open>Splicing\<close>

text \<open>\<open>push_text\<close>: on the parent, or on the element before.\<close>

definition push_text :: "string \<Rightarrow> string \<times> html_node list \<Rightarrow> string \<times> html_node list" where
  "push_text s p =
     (let (txt, before) = p
      in if s = [] then p
         else if before = [] then (txt @ s, [])
         else (txt, butlast before @ [add_tail s (last before)]))"

text \<open>\<open>_splice\<close>, on the opening text of the parent and its children around the marker.\<close>

definition splice_here ::
    "string \<Rightarrow> html_node list \<Rightarrow> string \<Rightarrow> html_node list \<Rightarrow> html_node \<Rightarrow> html_node list \<Rightarrow> string \<times> html_node list" where
  "splice_here fragment_text children txt before node after =
     (let p = push_text fragment_text (txt, before)
      in if children = [] then (let (txt', before') = push_text (nd_tail node) p in (txt', before' @ after))
         else (fst p, snd p @ butlast children @ [add_tail (nd_tail node) (last children)] @ after))"

fun splice :: "nat \<Rightarrow> string \<Rightarrow> html_node list \<Rightarrow> html_node \<Rightarrow> html_node" where
  "splice i fragment_text children (Node j tag attrs txt cs tail) =
     (case dropWhile (\<lambda>c. nd_id c \<noteq> Some i) cs of
        [] \<Rightarrow> Node j tag attrs txt (map (splice i fragment_text children) cs) tail
      | node # after \<Rightarrow>
          let (txt', cs') = splice_here fragment_text children txt (takeWhile (\<lambda>c. nd_id c \<noteq> Some i) cs) node after
          in Node j tag attrs txt' cs' tail)"

text \<open>The elements of a markup, which are no part of the document.\<close>

fun forget_ids :: "html_node \<Rightarrow> html_node" where
  "forget_ids (Node i tag attrs txt cs tail) = Node None tag attrs txt (map forget_ids cs) tail"

datatype expansion_error = UnparsableMarkup string

fun splice_markers ::
    "'j html_env \<Rightarrow> ('j, 'a) widgets \<Rightarrow> html_node list \<Rightarrow> html_node \<Rightarrow> expansion_error + html_node" where
  "splice_markers env reg [] root = Inr root"
| "splice_markers env reg (n # ns) root =
     (let markup = render_marker env reg n
      in (case he_parse env markup of
            None \<Rightarrow> Inl (UnparsableMarkup markup)
          | Some f \<Rightarrow>
              splice_markers env reg ns
                (case nd_id n of None \<Rightarrow> root
                 | Some i \<Rightarrow> splice i (nd_text f) (map forget_ids (nd_children f)) root)))"

definition serialize_children :: "'j html_env \<Rightarrow> html_node \<Rightarrow> string" where
  "serialize_children env root = nd_text root @ concat (map (he_tostring env) (nd_children root))"

definition expand_widgets :: "'j html_env \<Rightarrow> ('j, 'a) widgets \<Rightarrow> string \<Rightarrow> expansion_error + string" where
  "expand_widgets env reg content =
     (if content = [] then Inr []
      else if \<not> occurs_in WIDGET_TAG content then Inr content
      else case he_parse env content of
             None \<Rightarrow> Inr content
           | Some parsed \<Rightarrow>
               (let root = fst (number_node parsed 0)
                in map_sum id (serialize_children env) (splice_markers env reg (top_markers root) root)))"

end
