(* ===== verification/Html_Laws.thy ===== *)
theory Html_Laws
  imports Html_Widgets
begin

text \<open>
  What the expansion of the markers does to a document, read as the sequence of its tags and
  characters: each marker becomes what its widget rendered, and nothing else moves.
\<close>

subsection \<open>Documents as sequences\<close>

datatype token =
    StartTag "string option" "(string \<times> string) list"
  | EndTag "string option"
  | Ch char

text \<open>The sequence of a document where some elements stand for other sequences.\<close>

fun subst_tokens :: "(nat \<Rightarrow> token list option) \<Rightarrow> html_node \<Rightarrow> token list" where
  "subst_tokens \<sigma> (Node i tag attrs txt cs tail) =
     (case Option.bind i \<sigma> of
        Some ts \<Rightarrow> ts
      | None \<Rightarrow> StartTag tag attrs # map Ch txt @ concat (map (subst_tokens \<sigma>) cs) @ [EndTag tag]) @ map Ch tail"

abbreviation content_tokens :: "(nat \<Rightarrow> token list option) \<Rightarrow> string \<times> html_node list \<Rightarrow> token list" where
  "content_tokens \<sigma> p \<equiv> map Ch (fst p) @ concat (map (subst_tokens \<sigma>) (snd p))"

definition inner_tokens :: "html_node \<Rightarrow> token list" where
  "inner_tokens n = content_tokens Map.empty (nd_text n, nd_children n)"

text \<open>The reference: every outermost marker replaced by a sequence.\<close>

fun expand_tokens :: "(html_node \<Rightarrow> token list) \<Rightarrow> html_node \<Rightarrow> token list" where
  "expand_tokens r (Node i tag attrs txt cs tail) =
     (if tag = Some WIDGET_TAG then r (Node i tag attrs txt cs tail)
      else StartTag tag attrs # map Ch txt @ concat (map (expand_tokens r) cs) @ [EndTag tag]) @ map Ch tail"

definition expand_inner :: "(html_node \<Rightarrow> token list) \<Rightarrow> html_node \<Rightarrow> token list" where
  "expand_inner r n = map Ch (nd_text n) @ concat (map (expand_tokens r) (nd_children n))"

fun node_ids :: "html_node \<Rightarrow> nat list" where
  "node_ids (Node i tag attrs txt cs tail) = (case i of None \<Rightarrow> [] | Some k \<Rightarrow> [k]) @ concat (map node_ids cs)"

lemma node_ids_self: "nd_id n = Some i \<Longrightarrow> i \<in> set (node_ids n)"
  by (cases n) simp

lemma subst_tokens_cong:
  "(\<And>i. i \<in> set (node_ids n) \<Longrightarrow> \<sigma> i = \<tau> i) \<Longrightarrow> subst_tokens \<sigma> n = subst_tokens \<tau> n"
proof (induction n)
  case (Node i tag attrs w cs tail)
  have "map (subst_tokens \<sigma>) cs = map (subst_tokens \<tau>) cs"
    using Node.IH Node.prems by (auto intro!: map_cong)
  moreover have "Option.bind i \<sigma> = Option.bind i \<tau>" using Node.prems by (cases i) auto
  ultimately show ?case by (simp only: subst_tokens.simps)
qed

lemma forget_ids_none [simp]: "node_ids (forget_ids n) = []"
  by (induction n) auto

lemma forget_ids_tokens: "subst_tokens \<sigma> (forget_ids n) = subst_tokens Map.empty n"
proof (induction n)
  case (Node i tag attrs w cs tail)
  have "concat (map (subst_tokens \<sigma>) (map forget_ids cs)) = concat (map (subst_tokens Map.empty) cs)"
    using Node.IH by (simp add: comp_def cong: map_cong)
  then show ?case by (cases i) simp_all
qed

subsection \<open>One splice\<close>

lemma add_tail_tokens [simp]: "subst_tokens \<sigma> (add_tail s n) = subst_tokens \<sigma> n @ map Ch s"
  by (cases n) (simp add: add_tail_def)

lemma add_tail_ids [simp]: "node_ids (add_tail s n) = node_ids n"
  by (cases n) (simp add: add_tail_def)

lemma concat_map_last: "ks \<noteq> [] \<Longrightarrow> concat (map f ks) = concat (map f (butlast ks)) @ f (last ks)"
  by (induction ks rule: rev_induct) simp_all

lemma push_text_tokens: "content_tokens \<sigma> (push_text s p) = content_tokens \<sigma> p @ map Ch s"
proof (cases p)
  case (Pair w before)
  show ?thesis
  proof (cases "s = [] \<or> before = []")
    case False
    with concat_map_last [of before "subst_tokens \<sigma>"] Pair show ?thesis by (simp add: push_text_def)
  qed (auto simp: push_text_def Pair)
qed

lemma push_text_ids: "concat (map node_ids (snd (push_text s p))) = concat (map node_ids (snd p))"
proof (cases p)
  case (Pair w before)
  show ?thesis
  proof (cases "s = [] \<or> before = []")
    case False
    with concat_map_last [of before "node_ids"] Pair show ?thesis by (simp add: push_text_def)
  qed (auto simp: push_text_def Pair)
qed

text \<open>The text around a marker stays around what replaces it.\<close>

lemma splice_here_tokens:
  "content_tokens \<sigma> (splice_here t ks txt before node after) =
     content_tokens \<sigma> (txt, before) @ content_tokens \<sigma> (t, ks) @ map Ch (nd_tail node) @ concat (map (subst_tokens \<sigma>) after)"
proof (cases "ks = []")
  case True
  obtain txt' before' where p: "push_text (nd_tail node) (push_text t (txt, before)) = (txt', before')" by fastforce
  have "content_tokens \<sigma> (txt', before') = content_tokens \<sigma> (txt, before) @ map Ch t @ map Ch (nd_tail node)"
    using push_text_tokens [where \<sigma> = \<sigma> and s = "nd_tail node" and p = "push_text t (txt, before)"]
      push_text_tokens [where \<sigma> = \<sigma> and s = t and p = "(txt, before)"]
    unfolding p by simp
  with True p show ?thesis by (simp add: splice_here_def)
next
  case False
  with push_text_tokens [where \<sigma> = \<sigma> and s = t and p = "(txt, before)"] concat_map_last [OF False, of "subst_tokens \<sigma>"]
  show ?thesis by (simp add: splice_here_def Let_def)
qed

lemma splice_here_ids:
  "concat (map node_ids ks) = [] \<Longrightarrow>
   concat (map node_ids (snd (splice_here t ks txt before node after))) = concat (map node_ids before) @ concat (map node_ids after)"
proof (cases "ks = []")
  case True
  obtain txt' before' where p: "push_text (nd_tail node) (push_text t (txt, before)) = (txt', before')" by fastforce
  have "concat (map node_ids before') = concat (map node_ids before)"
    using push_text_ids [of "nd_tail node" "push_text t (txt, before)"] push_text_ids [of t "(txt, before)"] unfolding p by simp
  with True p show ?thesis by (simp add: splice_here_def)
next
  case False
  assume none: "concat (map node_ids ks) = []"
  from concat_map_last [OF False, of node_ids] none have "concat (map node_ids (butlast ks)) = []" "node_ids (last ks) = []" by simp_all
  with False push_text_ids [of t "(txt, before)"] show ?thesis by (simp add: splice_here_def Let_def)
qed

lemma distinct_concat_shrink:
  "(\<And>c. c \<in> set cs \<Longrightarrow> distinct (f c) \<and> set (f c) \<subseteq> set (g c)) \<Longrightarrow> distinct (concat (map g cs)) \<Longrightarrow>
   distinct (concat (map f cs)) \<and> set (concat (map f cs)) \<subseteq> set (concat (map g cs))"
proof (induction cs)
  case (Cons c cs)
  have IH: "distinct (concat (map f cs)) \<and> set (concat (map f cs)) \<subseteq> set (concat (map g cs))"
    by (rule Cons.IH) (use Cons.prems in auto)
  have c: "distinct (f c)" "set (f c) \<subseteq> set (g c)" using Cons.prems(1) [of c] by auto
  have "set (g c) \<inter> set (concat (map g cs)) = {}" using Cons.prems(2) by simp
  with IH c have "set (f c) \<inter> set (concat (map f cs)) = {}" by blast
  with IH c show ?case by auto
qed simp

lemma splice_head: "nd_id (splice i t ks n) = nd_id n" "nd_tag (splice i t ks n) = nd_tag n" "nd_tail (splice i t ks n) = nd_tail n"
  by (cases n; simp split: list.splits prod.splits)+

lemma splice_Node: "\<exists>w' cs'. splice i t ks (Node j tag attrs w cs tail) = Node j tag attrs w' cs' tail"
  by (simp split: list.splits prod.splits)

lemma splice_child_found:
  assumes "dropWhile (\<lambda>c. nd_id c \<noteq> Some i) cs = node # after"
  shows "nd_id node = Some i" "cs = takeWhile (\<lambda>c. nd_id c \<noteq> Some i) cs @ node # after"
proof -
  show "nd_id node = Some i" using assms hd_dropWhile [of "\<lambda>c. nd_id c \<noteq> Some i" cs] by auto
  show "cs = takeWhile (\<lambda>c. nd_id c \<noteq> Some i) cs @ node # after"
    using takeWhile_dropWhile_id [of "\<lambda>c. nd_id c \<noteq> Some i" cs] assms by simp
qed

lemma splice_ids:
  assumes "concat (map node_ids ks) = []"
  shows "distinct (node_ids n) \<Longrightarrow> distinct (node_ids (splice i t ks n)) \<and> set (node_ids (splice i t ks n)) \<subseteq> set (node_ids n)"
proof (induction n)
  case (Node j tag attrs w cs tail)
  let ?own = "case j of None \<Rightarrow> [] | Some k \<Rightarrow> [k]"
  have d: "distinct (concat (map node_ids cs))" "set ?own \<inter> set (concat (map node_ids cs)) = {}" "distinct ?own"
    using Node.prems by auto
  show ?case
  proof (cases "dropWhile (\<lambda>c. nd_id c \<noteq> Some i) cs")
    case Nil
    have "distinct (node_ids c)" if "c \<in> set cs" for c using d(1) that by (induction cs) auto
    then have "distinct (concat (map (\<lambda>c. node_ids (splice i t ks c)) cs))
        \<and> set (concat (map (\<lambda>c. node_ids (splice i t ks c)) cs)) \<subseteq> set (concat (map node_ids cs))"
      by (intro distinct_concat_shrink [OF _ d(1)] Node.IH)
    moreover have "node_ids (splice i t ks (Node j tag attrs w cs tail)) = ?own @ concat (map (\<lambda>c. node_ids (splice i t ks c)) cs)"
      by (simp only: splice.simps Nil list.case node_ids.simps map_map comp_def)
    ultimately show ?thesis using d(2,3) by (simp only: node_ids.simps distinct_append set_append) blast
  next
    case (Cons node after)
    let ?before = "takeWhile (\<lambda>c. nd_id c \<noteq> Some i) cs"
    note split = splice_child_found(2) [OF Cons]
    have "concat (map node_ids cs) = concat (map node_ids ?before) @ node_ids node @ concat (map node_ids after)"
      by (subst split) simp
    moreover have "node_ids (splice i t ks (Node j tag attrs w cs tail)) = ?own @ concat (map node_ids ?before) @ concat (map node_ids after)"
      using Cons splice_here_ids [OF assms, of t w ?before node after] by (auto split: prod.splits)
    ultimately show ?thesis using d by (simp only: node_ids.simps distinct_append set_append) blast
  qed
qed

lemma splice_tokens:
  assumes none: "concat (map node_ids ks) = []" and new: "\<sigma> i = None"
  shows "distinct (node_ids n) \<Longrightarrow> nd_id n \<noteq> Some i \<Longrightarrow>
    subst_tokens \<sigma> (splice i t ks n) = subst_tokens (\<sigma>(i \<mapsto> content_tokens Map.empty (t, ks))) n"
proof (induction n)
  case (Node j tag attrs w cs tail)
  define F where "F = content_tokens Map.empty (t, ks)"
  let ?\<tau> = "\<sigma>(i \<mapsto> F)"
  have own: "Option.bind j ?\<tau> = Option.bind j \<sigma>" using Node.prems(2) by (cases j) auto
  have d: "distinct (concat (map node_ids cs))" using Node.prems(1) by auto
  have F: "content_tokens \<sigma> (t, ks) = F"
  proof -
    have "subst_tokens \<sigma> k = subst_tokens Map.empty k" if "k \<in> set ks" for k
      by (rule subst_tokens_cong) (use none that in auto)
    then show ?thesis by (simp add: F_def cong: map_cong)
  qed
  have children: "content_tokens \<sigma> (nd_text (splice i t ks (Node j tag attrs w cs tail)), nd_children (splice i t ks (Node j tag attrs w cs tail)))
      = content_tokens ?\<tau> (w, cs)"
  proof (cases "dropWhile (\<lambda>c. nd_id c \<noteq> Some i) cs")
    case Nil
    have "subst_tokens \<sigma> (splice i t ks c) = subst_tokens ?\<tau> c" if "c \<in> set cs" for c
    proof (rule Node.IH [OF that, folded F_def])
      show "distinct (node_ids c)" using d that by (induction cs) auto
      show "nd_id c \<noteq> Some i" using Nil that by (auto simp: dropWhile_eq_Nil_conv)
    qed
    then have "map (subst_tokens \<sigma>) (map (splice i t ks) cs) = map (subst_tokens ?\<tau>) cs" by simp
    with Nil show ?thesis by (simp only: splice.simps list.case html_node.sel fst_conv snd_conv)
  next
    case (Cons node after)
    let ?before = "takeWhile (\<lambda>c. nd_id c \<noteq> Some i) cs"
    note id = splice_child_found(1) [OF Cons] and split = splice_child_found(2) [OF Cons]
    have ids: "concat (map node_ids cs) = concat (map node_ids ?before) @ node_ids node @ concat (map node_ids after)"
      by (subst split) simp
    have "i \<notin> set (node_ids c)" if "c \<in> set ?before \<or> c \<in> set after" for c
      using d node_ids_self [OF id] that unfolding ids by auto
    then have same: "map (subst_tokens ?\<tau>) ?before = map (subst_tokens \<sigma>) ?before" "map (subst_tokens ?\<tau>) after = map (subst_tokens \<sigma>) after"
      by (intro map_cong refl subst_tokens_cong; force)+
    have "subst_tokens ?\<tau> node = F @ map Ch (nd_tail node)" using id by (cases node) simp
    then have "content_tokens ?\<tau> (w, cs) = content_tokens \<sigma> (w, ?before) @ F @ map Ch (nd_tail node) @ concat (map (subst_tokens \<sigma>) after)"
      using arg_cong [OF split, of "\<lambda>l. concat (map (subst_tokens ?\<tau>) l)"]
      by (simp only: map_append list.map concat_append concat.simps same fst_conv snd_conv append_assoc)
    moreover have "content_tokens \<sigma> (splice_here t ks w ?before node after)
        = content_tokens \<sigma> (w, ?before) @ F @ map Ch (nd_tail node) @ concat (map (subst_tokens \<sigma>) after)"
      by (simp only: splice_here_tokens F)
    ultimately show ?thesis
      using Cons by (cases "splice_here t ks w ?before node after") simp
  qed
  obtain w' cs' where s: "splice i t ks (Node j tag attrs w cs tail) = Node j tag attrs w' cs' tail"
    using splice_Node by blast
  from children have "content_tokens \<sigma> (w', cs') = content_tokens ?\<tau> (w, cs)" unfolding s by simp
  then have "map Ch w' @ concat (map (subst_tokens \<sigma>) cs') @ r = map Ch w @ concat (map (subst_tokens ?\<tau>) cs) @ r" for r
    by (metis append.assoc fst_conv snd_conv)
  from this [of "[EndTag tag]"] show ?case unfolding F_def [symmetric] s subst_tokens.simps own by (simp only:)
qed

subsection \<open>All the splices\<close>

text \<open>The outermost markers and their numbers.\<close>

lemma iter_widgets_inside: "m \<in> set (iter_widgets True n) \<Longrightarrow> snd m"
proof (induction n arbitrary: m)
  case (Node i tag attrs w cs tail)
  then show ?case by (cases m) (auto simp: Let_def split: if_splits)
qed

lemma top_markers_Node:
  "top_markers (Node i tag attrs w cs tail) =
     (if tag = Some WIDGET_TAG then [Node i tag attrs w cs tail] else concat (map top_markers cs))"
proof (cases "tag = Some WIDGET_TAG")
  case True
  have "filter (\<lambda>(n, inside). \<not> inside) (concat (map (iter_widgets True) cs)) = []"
    using iter_widgets_inside by (fastforce simp: filter_empty_conv)
  with True show ?thesis by (simp add: top_markers_def)
next
  case False
  then show ?thesis
    by (simp add: top_markers_def [abs_def] filter_concat map_concat comp_def)
qed

lemma top_markers_ids: "m \<in> set (top_markers n) \<Longrightarrow> set (node_ids m) \<subseteq> set (node_ids n)"
proof (induction n)
  case (Node i tag attrs w cs tail)
  then show ?case by (fastforce simp: top_markers_Node split: if_splits)
qed

lemma number_node_ids:
  "number_node n k = (n', k') \<Longrightarrow> node_ids n' = [k..<k'] \<and> k < k'"
  "number_nodes cs k = (cs', k') \<Longrightarrow> concat (map node_ids cs') = [k..<k'] \<and> k \<le> k'"
proof (induction n k and cs k arbitrary: n' k' and cs' k' rule: number_node_number_nodes.induct)
  case (1 i tag attrs w cs tail k)
  from 1(2) obtain cs' where cs: "number_nodes cs (Suc k) = (cs', k')" and n': "n' = Node (Some k) tag attrs w cs' tail"
    by (auto split: prod.splits)
  from 1(1) [OF cs] show ?case by (simp add: n' upt_rec)
next
  case (3 c cs k)
  from 3(3) obtain c' k1 cs1 where c: "number_node c k = (c', k1)" and cs: "number_nodes cs k1 = (cs1, k')" and e: "cs' = c' # cs1"
    by (auto split: prod.splits)
  note IH = 3(1) [OF c] 3(2) [OF c [symmetric] refl cs]
  then have "k \<le> k1" "k1 \<le> k'" by auto
  then have "[k..<k'] = [k..<k1] @ [k1..<k']" using upt_add_eq_append [of k k1 "k' - k1"] by simp
  with IH show ?case by (simp add: e)
qed simp

lemma number_node_known:
  "number_node n k = (n', k') \<Longrightarrow> nd_id n' \<noteq> None \<and> (\<forall>m \<in> set (top_markers n'). nd_id m \<noteq> None)"
  "number_nodes cs k = (cs', k') \<Longrightarrow> \<forall>c \<in> set cs'. nd_id c \<noteq> None \<and> (\<forall>m \<in> set (top_markers c). nd_id m \<noteq> None)"
proof (induction n k and cs k arbitrary: n' k' and cs' k' rule: number_node_number_nodes.induct)
  case (1 i tag attrs w cs tail k)
  from 1(2) obtain cs' where cs: "number_nodes cs (Suc k) = (cs', k')" and n': "n' = Node (Some k) tag attrs w cs' tail"
    by (auto split: prod.splits)
  from 1(1) [OF cs] show ?case by (auto simp: n' top_markers_Node)
next
  case (3 c cs k)
  from 3(3) obtain c' k1 cs1 where c: "number_node c k = (c', k1)" and cs: "number_nodes cs k1 = (cs1, k')" and e: "cs' = c' # cs1"
    by (auto split: prod.splits)
  from 3(1) [OF c] 3(2) [OF c [symmetric] refl cs] show ?case by (auto simp: e)
qed simp

lemma expand_tokens_number:
  assumes r: "\<And>n m. nd_attrs n = nd_attrs m \<Longrightarrow> r n = r m"
  shows "number_node n k = (n', k') \<Longrightarrow> expand_tokens r n' = expand_tokens r n"
    "number_nodes cs k = (cs', k') \<Longrightarrow> map (expand_tokens r) cs' = map (expand_tokens r) cs"
proof (induction n k and cs k arbitrary: n' k' and cs' k' rule: number_node_number_nodes.induct)
  case (1 i tag attrs w cs tail k)
  from 1(2) obtain cs' where cs: "number_nodes cs (Suc k) = (cs', k')" and n': "n' = Node (Some k) tag attrs w cs' tail"
    by (auto split: prod.splits)
  have "r (Node (Some k) tag attrs w cs' tail) = r (Node i tag attrs w cs tail)" by (rule r) simp
  with 1(1) [OF cs] show ?case by (simp only: n' expand_tokens.simps)
next
  case (3 c cs k)
  from 3(3) obtain c' k1 cs1 where c: "number_node c k = (c', k1)" and cs: "number_nodes cs k1 = (cs1, k')" and e: "cs' = c' # cs1"
    by (auto split: prod.splits)
  from 3(1) [OF c] 3(2) [OF c [symmetric] refl cs] show ?case by (simp add: e)
qed simp

text \<open>What a marker becomes: the sequence of what its widget renders.\<close>

definition rendered_tokens :: "'j html_env \<Rightarrow> ('j, 'a) widgets \<Rightarrow> html_node \<Rightarrow> token list" where
  "rendered_tokens env reg n = inner_tokens (the (he_parse env (render_marker env reg n)))"

lemma render_marker_attrs: "nd_attrs n = nd_attrs m \<Longrightarrow> render_marker env reg n = render_marker env reg m"
  by (simp add: render_marker_def marker_name_def marker_attributes_def [abs_def] node_get_def cong: option.case_cong)

lemma rendered_tokens_attrs: "nd_attrs n = nd_attrs m \<Longrightarrow> rendered_tokens env reg n = rendered_tokens env reg m"
  unfolding rendered_tokens_def using render_marker_attrs by metis

fun all_rendered :: "'j html_env \<Rightarrow> ('j, 'a) widgets \<Rightarrow> html_node list \<Rightarrow> (nat \<Rightarrow> token list option) \<Rightarrow> nat \<Rightarrow> token list option" where
  "all_rendered env reg [] \<sigma> = \<sigma>"
| "all_rendered env reg (n # ns) \<sigma> = (all_rendered env reg ns \<sigma>)(the (nd_id n) \<mapsto> rendered_tokens env reg n)"

lemma all_rendered_other:
  "\<forall>n \<in> set ns. nd_id n \<noteq> None \<and> nd_id n \<noteq> Some i \<Longrightarrow> all_rendered env reg ns \<sigma> i = \<sigma> i"
  by (induction ns) auto

lemma all_rendered_mem:
  "\<forall>n \<in> set ns. nd_id n \<noteq> None \<Longrightarrow> distinct (map nd_id ns) \<Longrightarrow> n \<in> set ns \<Longrightarrow>
   all_rendered env reg ns \<sigma> (the (nd_id n)) = Some (rendered_tokens env reg n)"
proof (induction ns)
  case (Cons a ns)
  show ?case
  proof (cases "n = a")
    case False
    with Cons.prems have "n \<in> set ns" "nd_id n \<noteq> nd_id a" by (auto simp: image_iff)
    with Cons show ?thesis by auto
  qed simp
qed simp

lemma splice_markers_tokens:
  assumes "\<forall>n \<in> set ms. he_parse env (render_marker env reg n) \<noteq> None"
    and "\<forall>n \<in> set ms. nd_id n \<noteq> None \<and> nd_id n \<noteq> nd_id root \<and> \<sigma> (the (nd_id n)) = None"
    and "distinct (map nd_id ms)" "distinct (node_ids root)"
  shows "\<exists>root'. splice_markers env reg ms root = Inr root'
    \<and> subst_tokens \<sigma> root' = subst_tokens (all_rendered env reg ms \<sigma>) root
    \<and> nd_id root' = nd_id root \<and> nd_tag root' = nd_tag root \<and> nd_tail root' = nd_tail root \<and> nd_attrs root' = nd_attrs root"
  using assms
proof (induction ms arbitrary: root)
  case (Cons n ns)
  from Cons.prems(1) obtain f where f: "he_parse env (render_marker env reg n) = Some f" by auto
  from Cons.prems(2) obtain i where i: "nd_id n = Some i" "nd_id root \<noteq> Some i" "\<sigma> i = None" by fastforce
  let ?ks = "map forget_ids (nd_children f)"
  let ?root = "splice i (nd_text f) ?ks root"
  have none: "concat (map node_ids ?ks) = []" by (simp add: comp_def)
  note d = conjunct1 [OF splice_ids [OF none Cons.prems(4), of i "nd_text f"]]
  note h = splice_head [of i "nd_text f" ?ks root]
  have attrs: "nd_attrs ?root = nd_attrs root" by (cases root) (simp split: list.splits prod.splits)
  from Cons.IH [of ?root] Cons.prems(1-3) d h obtain root' where root': "splice_markers env reg ns ?root = Inr root'"
    "subst_tokens \<sigma> root' = subst_tokens (all_rendered env reg ns \<sigma>) ?root"
    "nd_id root' = nd_id root" "nd_tag root' = nd_tag root" "nd_tail root' = nd_tail root" "nd_attrs root' = nd_attrs root"
    using attrs by auto
  have other: "all_rendered env reg ns \<sigma> i = None"
    using all_rendered_other [of ns i env reg \<sigma>] Cons.prems(2,3) i by (fastforce simp: image_iff)
  have F: "content_tokens Map.empty (nd_text f, ?ks) = rendered_tokens env reg n"
    by (simp add: rendered_tokens_def f inner_tokens_def comp_def forget_ids_tokens)
  have "subst_tokens (all_rendered env reg ns \<sigma>) ?root = subst_tokens (all_rendered env reg (n # ns) \<sigma>) root"
    using splice_tokens [where \<sigma> = "all_rendered env reg ns \<sigma>" and i = i and t = "nd_text f", OF none other Cons.prems(4) i(2)] i(1) unfolding F by simp
  with root' f i(1) show ?case by (simp add: fun_upd_def)
qed simp

text \<open>An element where the outermost markers are rendered is the reference.\<close>

lemma subst_rendered:
  assumes "distinct (node_ids n)"
    and "\<And>m. m \<in> set (top_markers n) \<Longrightarrow> nd_id m \<noteq> None \<and> \<sigma> (the (nd_id m)) = Some (r m)"
    and "\<And>i. i \<in> set (node_ids n) \<Longrightarrow> \<forall>m \<in> set (top_markers n). nd_id m \<noteq> Some i \<Longrightarrow> \<sigma> i = None"
  shows "subst_tokens \<sigma> n = expand_tokens r n"
  using assms
proof (induction n)
  case (Node i tag attrs w cs tail)
  show ?case
  proof (cases "tag = Some WIDGET_TAG")
    case True
    with Node.prems(2) [of "Node i tag attrs w cs tail"] show ?thesis by (auto simp: top_markers_Node)
  next
    case False
    have top: "top_markers (Node i tag attrs w cs tail) = concat (map top_markers cs)" using False by (simp add: top_markers_Node)
    have d: "distinct (concat (map node_ids cs))" using Node.prems(1) by auto
    have eq: "subst_tokens \<sigma> c = expand_tokens r c" if c: "c \<in> set cs" for c
    proof (rule Node.IH [OF c])
      show "distinct (node_ids c)" using d c by (induction cs) auto
      show "nd_id m \<noteq> None \<and> \<sigma> (the (nd_id m)) = Some (r m)" if "m \<in> set (top_markers c)" for m
        using Node.prems(2) [of m] c that by (auto simp: top)
      show "\<sigma> k = None" if k: "k \<in> set (node_ids c)" and free: "\<forall>m \<in> set (top_markers c). nd_id m \<noteq> Some k" for k
      proof (rule Node.prems(3))
        show "k \<in> set (node_ids (Node i tag attrs w cs tail))" using c k by auto
        show "\<forall>m \<in> set (top_markers (Node i tag attrs w cs tail)). nd_id m \<noteq> Some k"
        proof (intro ballI notI)
          fix m assume "m \<in> set (top_markers (Node i tag attrs w cs tail))" and m: "nd_id m = Some k"
          then obtain c' where c': "c' \<in> set cs" "m \<in> set (top_markers c')" by (auto simp: top)
          have "k \<in> set (node_ids c')" using top_markers_ids [OF c'(2)] node_ids_self [OF m] by blast
          moreover have "set (node_ids c) \<inter> set (node_ids c') = {}" if "c \<noteq> c'"
            using d c c'(1) that by (induction cs) auto
          ultimately have "c = c'" using k by blast
          with free c'(2) m show False by blast
        qed
      qed
    qed
    have "Option.bind i \<sigma> = None"
    proof (cases i)
      case (Some k)
      have "nd_id m \<noteq> Some k" if "m \<in> set (concat (map top_markers cs))" for m
      proof
        assume "nd_id m = Some k"
        with that top_markers_ids node_ids_self have "k \<in> set (concat (map node_ids cs))" by fastforce
        with Node.prems(1) Some show False by auto
      qed
      then have "\<sigma> k = None" using Node.prems(3) [of k] Some unfolding top by simp
      with Some show ?thesis by simp
    qed simp
    moreover have "map (subst_tokens \<sigma>) cs = map (expand_tokens r) cs" using eq by simp
    ultimately show ?thesis using False by (simp only: subst_tokens.simps expand_tokens.simps option.case if_False)
  qed
qed

end
