(* ===== verification/Html_Validator.thy ===== *)
theory Html_Validator
  imports Html_Laws
begin

text \<open>
  The validator of an HTML field (\<open>core/orm/validators.py\<close>, \<open>core/orm/fields/html.py\<close>): the tags,
  attributes, styles and markers a content may hold. The lists of tags and attributes of lxml are
  parameters, as the class of word characters and \<open>str.lower\<close> are.
\<close>

subsection \<open>Styles\<close>

text \<open>
  \<open>_style_re\<close>: a name, a colon, and a value of anything but a semicolon or a quote, and of quoted
  strings without semicolon. \<open>style_value\<close> is what the value leaves of a text; the repetition
  takes all it can.
\<close>

fun style_value :: "nat \<Rightarrow> string \<Rightarrow> string" where
  "style_value 0 s = s"
| "style_value (Suc fuel) [] = []"
| "style_value (Suc fuel) (c # s) =
     (if c = CHR '';'' then c # s
      else if c = CHR 0x22 \<or> c = CHR 0x27 then
        (case dropWhile (\<lambda>d. d \<noteq> c \<and> d \<noteq> CHR '';'') s of
           [] \<Rightarrow> c # s
         | d # rest \<Rightarrow> if d = c then style_value fuel rest else c # s)
      else style_value fuel s)"

text \<open>The length of the text is fuel enough.\<close>

lemma style_value_fuel: "length s \<le> m \<Longrightarrow> length s \<le> n \<Longrightarrow> style_value m s = style_value n s"
proof (induction "length s" arbitrary: s m n rule: less_induct)
  case less
  show ?case
  proof (cases s)
    case Nil
    then show ?thesis by (cases m; cases n) auto
  next
    case (Cons c r)
    with less.prems have "m \<noteq> 0" "n \<noteq> 0" by auto
    then obtain m' n' where mn0: "m = Suc m'" "n = Suc n'" by (metis not0_implies_Suc)
    have mn: "m = Suc m'" "n = Suc n'" "length r \<le> m'" "length r \<le> n'"
      using less.prems mn0 unfolding Cons by (simp_all only: list.size(4) add_Suc_right add_0_right Suc_le_mono)
    have r: "style_value m' r = style_value n' r" by (rule less.hyps [OF _ mn(3,4)]) (simp add: Cons)
    show ?thesis
    proof (cases "dropWhile (\<lambda>d. d \<noteq> c \<and> d \<noteq> CHR '';'') r")
      case Nil
      show ?thesis by (simp only: \<open>s = c # r\<close> mn(1,2) style_value.simps Nil list.case r)
    next
      case (Cons d rest)
      from arg_cong [OF Cons, of length] length_dropWhile_le [of "\<lambda>d. d \<noteq> c \<and> d \<noteq> CHR '';''" r]
      have "length rest < length r" by simp
      with mn \<open>s = c # r\<close> have "style_value m' rest = style_value n' rest" by (intro less.hyps) simp_all
      then show ?thesis by (simp only: \<open>s = c # r\<close> mn(1,2) style_value.simps Cons list.case r)
    qed
  qed
qed

text \<open>A match at the start of a text: the name and what is left. \<open>\<s>*\<close> gives a space back to the value.\<close>

definition style_match :: "(char \<Rightarrow> bool) \<Rightarrow> string \<Rightarrow> (string \<times> string) option" where
  "style_match word s =
     (let name = takeWhile (\<lambda>c. word c \<or> c = CHR ''-'') s;
          after = dropWhile is_space (dropWhile (\<lambda>c. word c \<or> c = CHR ''-'') s)
      in if name = [] \<or> \<not> starts_with '':'' after then None
         else let value = dropWhile is_space (drop 1 after); rest = style_value (length value) value
              in if rest \<noteq> value then Some (name, rest)
                 else if value \<noteq> drop 1 after then Some (name, value)
                 else None)"

fun style_findall :: "nat \<Rightarrow> (char \<Rightarrow> bool) \<Rightarrow> string \<Rightarrow> string list" where
  "style_findall 0 word s = []"
| "style_findall (Suc fuel) word s =
     (case style_match word s of
        Some (name, rest) \<Rightarrow> name # style_findall fuel word rest
      | None \<Rightarrow> (case s of [] \<Rightarrow> [] | c # s' \<Rightarrow> style_findall fuel word s'))"

definition style_whitelist :: "string list" where
  "style_whitelist =
     [''font-size'', ''font-family'', ''font-weight'', ''font-style'', ''background-color'', ''color'', ''text-align'',
      ''line-height'', ''letter-spacing'', ''text-transform'', ''text-decoration'', ''text-decoration'', ''opacity'',
      ''float'', ''vertical-align'', ''display'', ''object-fit'', ''padding'', ''padding-top'', ''padding-left'',
      ''padding-bottom'', ''padding-right'', ''margin'', ''margin-top'', ''margin-left'', ''margin-bottom'',
      ''margin-right'', ''white-space'', ''background-image'', ''background-position'', ''background-size'',
      ''background-repeat'', ''background-origin'', ''border'', ''border-color'', ''border-radius'', ''border-style'',
      ''border-width'', ''border-top'', ''border-bottom'', ''height'', ''width'', ''max-width'', ''min-width'',
      ''min-height'', ''border-collapse'', ''border-spacing'', ''caption-side'', ''empty-cells'', ''table-layout'']
     @ concat (map (\<lambda>position. map (\<lambda>attribute. ''border-'' @ position @ ''-'' @ attribute)
         [''style'', ''color'', ''width'', ''left-radius'', ''right-radius'']) [''top'', ''bottom'', ''left'', ''right''])"

definition validate_style_attribute :: "'j html_env \<Rightarrow> html_node \<Rightarrow> string list" where
  "validate_style_attribute env n =
     (let styling = (case node_get n ''style'' of None \<Rightarrow> [] | Some s \<Rightarrow> s)
      in filter (\<lambda>s. s \<notin> set style_whitelist)
           (map (he_lower env) (style_findall (Suc (length styling)) (he_word_char env) styling)))"

subsection \<open>The validator\<close>

record html_validator =
  hv_allow_style_attr :: bool
  hv_allow_class_attr :: bool
  hv_allow_widget :: bool
  hv_tags :: "string list"
  hv_attrs :: "string list"

definition make_html_validator ::
    "string list \<Rightarrow> bool \<Rightarrow> bool \<Rightarrow> bool \<Rightarrow> bool \<Rightarrow> string list \<Rightarrow> string list \<Rightarrow> html_validator" where
  "make_html_validator event_attrs allow_javascript allow_style_attr allow_class_attr allow_widget allowed_tags allowed_attrs =
     \<lparr>hv_allow_style_attr = allow_style_attr, hv_allow_class_attr = allow_class_attr, hv_allow_widget = allow_widget,
      hv_tags = allowed_tags @ (if allow_javascript then [''script''] else []) @ (if allow_widget then [WIDGET_TAG] else []),
      hv_attrs = allowed_attrs @ (if allow_javascript then event_attrs else [])
        @ (if allow_style_attr then [''style''] else []) @ (if allow_widget then [WIDGET_ATTRS_ATTR] else [])\<rparr>"

datatype html_message =
    SyntaxError
  | InvalidTags "string list"
  | InvalidAttributes "string list"
  | InvalidStyle "string list"
  | ClassNotAllowed
  | TooManyWidgets nat
  | NestedWidget
  | MissingWidgetName
  | UnknownWidgets "string list"
  | InvalidWidgetParameters "string list"

text \<open>\<open>iterdescendants(etree.Element)\<close>: the elements, comments left aside.\<close>

fun elements :: "html_node \<Rightarrow> html_node list" where
  "elements (Node i tag attrs w cs tail) =
     (if tag = None then [] else [Node i tag attrs w cs tail]) @ concat (map elements cs)"

definition descendant_elements :: "html_node \<Rightarrow> html_node list" where
  "descendant_elements root = concat (map elements (nd_children root))"

definition validate_widgets :: "'j html_env \<Rightarrow> ('j, 'a) widgets \<Rightarrow> (html_node \<times> bool) list \<Rightarrow> html_message list" where
  "validate_widgets env reg nodes =
     (let named = filter (\<lambda>(n, inside). marker_name n \<noteq> []) nodes;
          unknown_names = map (\<lambda>(n, inside). marker_name n) (filter (\<lambda>(n, inside). get_widget reg (marker_name n) = None) named);
          invalid_attrs = map (\<lambda>(n, inside). marker_name n) (filter (\<lambda>(n, inside).
            case get_widget reg (marker_name n) of None \<Rightarrow> False | Some w \<Rightarrow> marker_attributes env w n = None) named)
      in (if length nodes > WIDGET_MAX_COUNT then [TooManyWidgets (length nodes)] else [])
         @ (if \<exists>(n, inside) \<in> set nodes. inside then [NestedWidget] else [])
         @ (if \<exists>(n, inside) \<in> set nodes. marker_name n = [] then [MissingWidgetName] else [])
         @ (if unknown_names \<noteq> [] then [UnknownWidgets (sort (uniq unknown_names))] else [])
         @ (if invalid_attrs \<noteq> [] then [InvalidWidgetParameters (sort (uniq invalid_attrs))] else []))"

definition message_if :: "(string list \<Rightarrow> html_message) \<Rightarrow> string list \<Rightarrow> html_message list" where
  "message_if m items = (if items = [] then [] else [m (sort (uniq items))])"

definition validate_etree :: "'j html_env \<Rightarrow> ('j, 'a) widgets \<Rightarrow> html_validator \<Rightarrow> html_node \<Rightarrow> html_message list" where
  "validate_etree env reg v root =
     (let nodes = descendant_elements root;
          rejected_tags = filter (\<lambda>t. t \<notin> set (hv_tags v)) (map (\<lambda>n. the (nd_tag n)) nodes);
          rejected_attrs = filter (\<lambda>a. a \<notin> set (hv_attrs v)) (concat (map (\<lambda>n. dict_keys (nd_attrs n)) nodes));
          rejected_style_items = (if hv_allow_style_attr v then concat (map (validate_style_attribute env) nodes) else []);
          has_rejected_class = (\<not> hv_allow_class_attr v \<and> (\<exists>n \<in> set nodes. ''class'' \<in> set (dict_keys (nd_attrs n))));
          widget_nodes = concat (map (iter_widgets (is_marker root)) (nd_children root))
      in message_if InvalidTags rejected_tags @ message_if InvalidAttributes rejected_attrs
         @ message_if InvalidStyle rejected_style_items
         @ (if has_rejected_class then [ClassNotAllowed] else [])
         @ (if hv_allow_widget v then validate_widgets env reg widget_nodes else []))"

definition html_validate ::
    "'j html_env \<Rightarrow> ('j, 'a) widgets \<Rightarrow> html_validator \<Rightarrow> string \<Rightarrow> html_message list + unit" where
  "html_validate env reg v content =
     (if content = [] then Inr ()
      else case he_parse env content of
             None \<Rightarrow> Inl [SyntaxError]
           | Some root \<Rightarrow>
               (let messages = validate_etree env reg v root
                in if messages = [] then Inr () else Inl messages))"

subsection \<open>What is accepted\<close>

lemma message_if_Nil [simp]: "message_if m items = [] \<longleftrightarrow> items = []"
  by (simp add: message_if_def)

text \<open>The marker and its place are acceptable.\<close>

definition marker_ok :: "'j html_env \<Rightarrow> ('j, 'a) widgets \<Rightarrow> html_node \<times> bool \<Rightarrow> bool" where
  "marker_ok env reg m \<longleftrightarrow> \<not> snd m \<and> marker_name (fst m) \<noteq> []
     \<and> (\<exists>w a. get_widget reg (marker_name (fst m)) = Some w \<and> marker_attributes env w (fst m) = Some a)"

lemma validate_widgets_Nil:
  "validate_widgets env reg nodes = [] \<longleftrightarrow> length nodes \<le> WIDGET_MAX_COUNT \<and> (\<forall>m \<in> set nodes. marker_ok env reg m)"
proof -
  let ?named = "\<lambda>m. marker_name (fst m) \<noteq> []"
  have "validate_widgets env reg nodes = [] \<longleftrightarrow> length nodes \<le> WIDGET_MAX_COUNT
      \<and> (\<forall>m \<in> set nodes. \<not> snd m) \<and> (\<forall>m \<in> set nodes. ?named m)
      \<and> (\<forall>m \<in> set nodes. ?named m \<longrightarrow> get_widget reg (marker_name (fst m)) \<noteq> None)
      \<and> (\<forall>m \<in> set nodes. ?named m \<longrightarrow> (case get_widget reg (marker_name (fst m)) of
            None \<Rightarrow> True | Some w \<Rightarrow> marker_attributes env w (fst m) \<noteq> None))"
    unfolding validate_widgets_def Let_def
    by (simp add: filter_empty_conv not_less case_prod_unfold split: option.splits)
  also have "\<dots> \<longleftrightarrow> length nodes \<le> WIDGET_MAX_COUNT \<and> (\<forall>m \<in> set nodes. marker_ok env reg m)"
    unfolding marker_ok_def by (fastforce split: option.splits)
  finally show ?thesis .
qed

lemma validate_etree_Nil:
  assumes "validate_etree env reg v root = []" "n \<in> set (descendant_elements root)"
  shows "the (nd_tag n) \<in> set (hv_tags v)" "set (dict_keys (nd_attrs n)) \<subseteq> set (hv_attrs v)"
    "hv_allow_style_attr v \<Longrightarrow> validate_style_attribute env n = []"
    "hv_allow_class_attr v \<or> ''class'' \<notin> set (dict_keys (nd_attrs n))"
proof -
  note e = assms(1) [unfolded validate_etree_def Let_def append_is_Nil_conv message_if_Nil]
  show "the (nd_tag n) \<in> set (hv_tags v)" using e assms(2) by (auto simp: filter_empty_conv)
  show "set (dict_keys (nd_attrs n)) \<subseteq> set (hv_attrs v)" using e assms(2) by (fastforce simp: filter_empty_conv)
  show "hv_allow_style_attr v \<Longrightarrow> validate_style_attribute env n = []" using e assms(2) by auto
  show "hv_allow_class_attr v \<or> ''class'' \<notin> set (dict_keys (nd_attrs n))" using e assms(2) by (auto split: if_splits)
qed

lemma iter_widgets_root: "\<not> is_marker root \<Longrightarrow> iter_widgets False root = concat (map (iter_widgets (is_marker root)) (nd_children root))"
  by (cases root) (simp add: is_marker_def)

end
