(* ===== verification/Html_Expansion.thy ===== *)
theory Html_Expansion
  imports Html_Validator
begin

text \<open>
  The properties of HTML contents: the expansion puts in the place of each outermost marker what
  its widget renders, and a content the validator accepts holds only markers that can be rendered.
\<close>

subsection \<open>The markers of a numbered document\<close>

lemma number_node_markers:
  "number_node n k = (n', k') \<Longrightarrow> map nd_attrs (top_markers n') = map nd_attrs (top_markers n)"
  "number_nodes cs k = (cs', k') \<Longrightarrow> map nd_attrs (concat (map top_markers cs')) = map nd_attrs (concat (map top_markers cs))"
proof (induction n k and cs k arbitrary: n' k' and cs' k' rule: number_node_number_nodes.induct)
  case (1 i tag attrs w cs tail k)
  from 1(2) obtain cs' where cs: "number_nodes cs (Suc k) = (cs', k')" and n': "n' = Node (Some k) tag attrs w cs' tail"
    by (auto split: prod.splits)
  from 1(1) [OF cs] show ?case unfolding n' top_markers_Node by simp
next
  case (3 c cs k)
  from 3(3) obtain c' k1 cs1 where c: "number_node c k = (c', k1)" and cs: "number_nodes cs k1 = (cs1, k')" and e: "cs' = c' # cs1"
    by (auto split: prod.splits)
  from 3(1) [OF c] 3(2) [OF c [symmetric] refl cs] show ?case by (simp add: e)
qed simp

lemma top_markers_distinct:
  "distinct (node_ids n) \<Longrightarrow> \<forall>m \<in> set (top_markers n). nd_id m \<noteq> None \<Longrightarrow>
   distinct (map (\<lambda>m. the (nd_id m)) (top_markers n))"
proof (induction n)
  case (Node i tag attrs w cs tail)
  show ?case
  proof (cases "tag = Some WIDGET_TAG")
    case False
    let ?f = "\<lambda>c. map (\<lambda>m. the (nd_id m)) (top_markers c)"
    have d: "distinct (concat (map node_ids cs))" using Node.prems(1) by auto
    have known: "\<forall>m \<in> set (top_markers c). nd_id m \<noteq> None" if "c \<in> set cs" for c
      using Node.prems(2) False that unfolding top_markers_Node by auto
    have "distinct (?f c) \<and> set (?f c) \<subseteq> set (node_ids c)" if c: "c \<in> set cs" for c
    proof
      have "distinct (node_ids c)" using d c by (induction cs) auto
      with Node.IH [OF c] known [OF c] show "distinct (?f c)" by blast
      show "set (?f c) \<subseteq> set (node_ids c)"
      proof
        fix x assume "x \<in> set (?f c)"
        then obtain m where m: "m \<in> set (top_markers c)" "x = the (nd_id m)" by auto
        with known [OF c] have "nd_id m = Some x" by fastforce
        from node_ids_self [OF this] top_markers_ids [OF m(1)] show "x \<in> set (node_ids c)" by blast
      qed
    qed
    from distinct_concat_shrink [OF this d] have "distinct (concat (map ?f cs))" by blast
    moreover have "map (\<lambda>m. the (nd_id m)) (top_markers (Node i tag attrs w cs tail)) = concat (map ?f cs)"
      using False by (simp add: top_markers_Node map_concat comp_def)
    ultimately show ?thesis by simp
  qed (simp add: top_markers_Node)
qed

lemma subst_tokens_inner:
  "subst_tokens Map.empty n = StartTag (nd_tag n) (nd_attrs n) # inner_tokens n @ [EndTag (nd_tag n)] @ map Ch (nd_tail n)"
  by (cases n; cases "nd_id n") (simp_all add: inner_tokens_def)

lemma expand_tokens_inner:
  "\<not> is_marker n \<Longrightarrow>
   expand_tokens r n = StartTag (nd_tag n) (nd_attrs n) # expand_inner r n @ [EndTag (nd_tag n)] @ map Ch (nd_tail n)"
  by (cases n) (simp add: expand_inner_def is_marker_def)

text \<open>The expansion of a parsed document.\<close>

lemma splice_all_markers:
  assumes nm: "\<not> is_marker parsed" and parse: "\<forall>n \<in> set (top_markers parsed). he_parse env (render_marker env reg n) \<noteq> None"
  defines "root \<equiv> fst (number_node parsed 0)"
  shows "\<exists>root'. splice_markers env reg (top_markers root) root = Inr root'
    \<and> inner_tokens root' = expand_inner (rendered_tokens env reg) parsed"
proof -
  obtain k where num: "number_node parsed 0 = (root, k)" by (cases "number_node parsed 0") (simp add: root_def)
  let ?r = "rendered_tokens env reg"
  have ids: "distinct (node_ids root)" using number_node_ids(1) [OF num] by simp
  note known = number_node_known(1) [OF num]
  have d: "distinct (map (\<lambda>m. the (nd_id m)) (top_markers root))" using top_markers_distinct [OF ids] known by blast
  then have dm: "distinct (map nd_id (top_markers root))" by (auto simp: distinct_map inj_on_def)
  have head: "nd_tag root = nd_tag parsed" "nd_attrs root = nd_attrs parsed" "nd_tail root = nd_tail parsed"
    by (cases parsed; simp add: root_def split: prod.splits)+
  have "nd_id m \<noteq> nd_id root" if "m \<in> set (top_markers root)" for m
  proof
    assume same: "nd_id m = nd_id root"
    obtain i tag attrs w cs tail where root: "root = Node i tag attrs w cs tail" by (cases root)
    have "tag \<noteq> Some WIDGET_TAG" using nm head(1) by (simp add: root is_marker_def)
    with that obtain c where c: "c \<in> set cs" "m \<in> set (top_markers c)" by (auto simp: root top_markers_Node)
    obtain j where j: "i = Some j" using known by (auto simp: root)
    with same have "j \<in> set (node_ids c)" using node_ids_self [of m j] top_markers_ids [OF c(2)] by (auto simp: root)
    with c(1) ids show False by (auto simp: root j)
  qed
  moreover have "\<forall>m \<in> set (top_markers root). he_parse env (render_marker env reg m) \<noteq> None"
  proof
    fix m assume "m \<in> set (top_markers root)"
    then have "nd_attrs m \<in> set (map nd_attrs (top_markers parsed))"
      using number_node_markers(1) [OF num, symmetric] by simp
    then obtain n where "n \<in> set (top_markers parsed)" "nd_attrs m = nd_attrs n" by auto
    with parse render_marker_attrs show "he_parse env (render_marker env reg m) \<noteq> None" by metis
  qed
  ultimately obtain root' where root': "splice_markers env reg (top_markers root) root = Inr root'"
    "subst_tokens Map.empty root' = subst_tokens (all_rendered env reg (top_markers root) Map.empty) root"
    "nd_tag root' = nd_tag root" "nd_tail root' = nd_tail root" "nd_attrs root' = nd_attrs root"
    using splice_markers_tokens [of "top_markers root" env reg root Map.empty] known dm ids by auto
  have "subst_tokens (all_rendered env reg (top_markers root) Map.empty) root = expand_tokens ?r root"
  proof (rule subst_rendered [OF ids])
    show "nd_id m \<noteq> None \<and> all_rendered env reg (top_markers root) Map.empty (the (nd_id m)) = Some (?r m)"
      if "m \<in> set (top_markers root)" for m
      using known that all_rendered_mem [OF _ dm that] by blast
    show "all_rendered env reg (top_markers root) Map.empty i = None"
      if "\<forall>m \<in> set (top_markers root). nd_id m \<noteq> Some i" for i
      using all_rendered_other [of "top_markers root" i env reg Map.empty] known that by simp
  qed
  also have "\<dots> = expand_tokens ?r parsed"
    by (rule expand_tokens_number(1) [OF _ num]) (rule rendered_tokens_attrs)
  finally have "inner_tokens root' = expand_inner ?r parsed"
    using root'(2-5) head nm unfolding subst_tokens_inner expand_tokens_inner [OF nm] by simp
  with root'(1) show ?thesis by blast
qed

subsection \<open>Properties\<close>



subsection \<open>A small document\<close>

text \<open>
  The parses of three texts: a page with a paragraph and a marker, the markup of its widget, and a
  page that opens with an escaped tag. Nothing is escaped again by this serialization of elements.
\<close>

definition page_text :: string where "page_text = ''<p>a</p><t-widget name=echo></t-widget>b''"
definition escaped_text :: string where "escaped_text = ''&lt;script&gt;<t-widget name=void></t-widget>''"

definition toy_parse :: "string \<Rightarrow> html_node option" where
  "toy_parse = map_of
     [([], Node None (Some ''div'') [] [] [] []),
      (''hi'', Node None (Some ''div'') [] ''hi'' [] []),
      (page_text, Node None (Some ''div'') [] []
         [Node None (Some ''p'') [] ''a'' [] [], Node None (Some ''t-widget'') [(''name'', ''echo'')] [] [] ''b''] []),
      (escaped_text, Node None (Some ''div'') [] ''<script>''
         [Node None (Some ''t-widget'') [(''name'', ''void'')] [] [] []] [])]"

fun toy_tostring :: "html_node \<Rightarrow> string" where
  "toy_tostring (Node i tag attrs w cs tail) =
     (case tag of None \<Rightarrow> [] | Some t \<Rightarrow> ''<'' @ t @ ''>'' @ w @ concat (map toy_tostring cs) @ ''</'' @ t @ ''>'') @ tail"

definition toy_html :: "unit html_env" where
  "toy_html = \<lparr>he_parse = toy_parse, he_tostring = toy_tostring, he_json = (\<lambda>s. None), he_empty = (),
     he_word_char = (\<lambda>c. c \<notin> set '':;/* ''), he_lower = id\<rparr>"

definition toy_widgets :: "(unit, unit) widgets" where
  "toy_widgets = [(''echo'', \<lparr>wg_id = ''echo'', wg_title = ''Echo'', wg_attributes = Some, wg_render = (\<lambda>a. Some ''hi'')\<rparr>),
                  (''void'', \<lparr>wg_id = ''void'', wg_title = ''Void'', wg_attributes = Some, wg_render = (\<lambda>a. None)\<rparr>)]"

definition page_validator :: html_validator where
  "page_validator = make_html_validator [''onclick''] False True True True [''p'', ''a'', ''b''] [''name'', ''href'', ''title'']"



subsection \<open>What the validator lets through\<close>

text \<open>The text before the first element is written as it was parsed: an escaped tag becomes one.\<close>

lemma leading_text_is_not_escaped:
  "html_validate toy_html toy_widgets page_validator escaped_text = Inr ()
     \<and> expand_widgets toy_html toy_widgets escaped_text = Inr ''<script>''"
  by code_simp

text \<open>A comment between a property and its colon hides the property from the list of styles.\<close>

lemma style_comment_is_not_seen:
  "validate_style_attribute toy_html (Node None (Some ''p'') [(''style'', ''position:fixed'')] [] [] []) = [''position'']
     \<and> validate_style_attribute toy_html (Node None (Some ''p'') [(''style'', ''position/**/:fixed'')] [] [] []) = []"
  by code_simp

text \<open>Attributes are checked by name: a link may hold a script.\<close>

lemma link_may_run_script:
  "validate_etree toy_html toy_widgets page_validator (Node None (Some ''div'') [] []
     [Node None (Some ''a'') [(''href'', ''javascript:alert(1)'')] [] [] []] []) = []"
  by code_simp

end
