(* ===== verification/Site_Pages.thy ===== *)
theory Site_Pages
  imports Theme_Laws Menu_Tree Html_Expansion
begin

text \<open>
  The public site: the pages and their publication (\<open>website/models/page.py\<close>,
  \<open>website/models/mixins.py\<close>, \<open>PageService\<close>), the site's own settings
  (\<open>website/models/website.py\<close>, \<open>WebsiteService\<close>) and the views that render them
  (\<open>website/views/mixins.py\<close>, \<open>website/views/page.py\<close>). The access rules are a predicate on the
  rows of each table; a visitor has no role, and then it holds of every row. A template is its
  name; what renders is the name chosen and the context it is given.
\<close>

subsection \<open>Pages\<close>

record page =
  pg_id :: string
  pg_slug :: string
  pg_content :: string
  pg_layout :: string
  pg_published :: bool
  pg_date_published :: "int option"
  pg_update_date :: int
  pg_user :: "string option"

datatype page_error = SlugTaken

text \<open>The constraints of the table, checked by whichever statement writes it.\<close>

definition pages_stored :: "page list \<Rightarrow> page_error + page list" where
  "pages_stored ps = (if distinct (map pg_id ps) \<and> distinct (map pg_slug ps) then Inr ps else Inl SlugTaken)"

definition stamp_created :: "int \<Rightarrow> page \<Rightarrow> page" where
  "stamp_created now p =
     (if pg_published p \<and> pg_date_published p = None then p\<lparr>pg_date_published := Some now\<rparr> else p)"

definition page_bulk_create :: "int \<Rightarrow> page list \<Rightarrow> page list \<Rightarrow> page_error + page list" where
  "page_bulk_create now objs ps =
     pages_stored (ps @ map (\<lambda>p. (stamp_created now p)\<lparr>pg_update_date := now\<rparr>) objs)"

text \<open>The columns an update sets, \<open>None\<close> for those it leaves.\<close>

record page_change =
  pc_slug :: "string option"
  pc_content :: "string option"
  pc_layout :: "string option"
  pc_published :: "bool option"
  pc_date_published :: "int option option"
  pc_update_date :: "int option"

definition set_column :: "'a option \<Rightarrow> 'a \<Rightarrow> 'a" where
  "set_column v old = (case v of None \<Rightarrow> old | Some new \<Rightarrow> new)"

text \<open>\<open>PageQuerySet.update\<close>, then \<open>WebsitePublishedQuerySet.update\<close>: two values set when absent.\<close>

definition stamp_update :: "int \<Rightarrow> page_change \<Rightarrow> page_change" where
  "stamp_update now ch =
     (let ch1 = ch\<lparr>pc_update_date := Some (set_column (pc_update_date ch) now)\<rparr>
      in if pc_published ch1 \<noteq> None \<and> pc_date_published ch1 = None
         then ch1\<lparr>pc_date_published := Some (Some now)\<rparr> else ch1)"

definition apply_page_change :: "page_change \<Rightarrow> page \<Rightarrow> page" where
  "apply_page_change ch p =
     p\<lparr>pg_slug := set_column (pc_slug ch) (pg_slug p), pg_content := set_column (pc_content ch) (pg_content p),
       pg_layout := set_column (pc_layout ch) (pg_layout p), pg_published := set_column (pc_published ch) (pg_published p),
       pg_date_published := set_column (pc_date_published ch) (pg_date_published p),
       pg_update_date := set_column (pc_update_date ch) (pg_update_date p)\<rparr>"

definition page_update :: "int \<Rightarrow> (page \<Rightarrow> bool) \<Rightarrow> page_change \<Rightarrow> page list \<Rightarrow> page_error + page list" where
  "page_update now sel ch ps =
     pages_stored (map (\<lambda>p. if sel p then apply_page_change (stamp_update now ch) p else p) ps)"

text \<open>\<open>WebsitePublishedMixin.save\<close>: the instance and the fields it is saved with.\<close>

definition page_save_stamp :: "int \<Rightarrow> bool \<Rightarrow> string list option \<Rightarrow> page \<Rightarrow> page \<times> string list option" where
  "page_save_stamp now adding update_fields p =
     (if adding then (stamp_created now p, update_fields)
      else case update_fields of
             None \<Rightarrow> (p, None)
           | Some fs \<Rightarrow>
               if ''is_published'' \<in> set fs then (p\<lparr>pg_date_published := Some now\<rparr>, Some (fs @ [''date_published'']))
               else (p, Some fs))"

text \<open>\<open>PageService\<close>: the author given by default, and the pages a visitor may see.\<close>

definition page_default_values ::
    "(string \<times> string option) list \<Rightarrow> string option \<Rightarrow> string list option \<Rightarrow> (string \<times> string option) list" where
  "page_default_values values0 user wanted =
     (case user of
        None \<Rightarrow> values0
      | Some u \<Rightarrow>
          if (case wanted of None \<Rightarrow> True | Some fs \<Rightarrow> ''user'' \<in> set fs) then dict_put ''user'' (Some u) values0 else values0)"

type_synonym page_filters = "(string \<times> (page \<Rightarrow> bool)) list"

definition read_pages :: "(page \<Rightarrow> bool) \<Rightarrow> page_filters \<Rightarrow> page list \<Rightarrow> page list" where
  "read_pages readable filters ps = filter (\<lambda>p. readable p \<and> (\<forall>(k, f) \<in> set filters. f p)) ps"

definition read_published :: "(page \<Rightarrow> bool) \<Rightarrow> page_filters \<Rightarrow> page list \<Rightarrow> page list" where
  "read_published readable filters ps =
     read_pages readable (fold (\<lambda>(k, f) d. dict_put k f d) filters [(''is_published'', pg_published)]) ps"

subsection \<open>Settings of the site\<close>

record website =
  ws_id :: string
  ws_theme :: string
  ws_theme_options :: options
  ws_menu :: "string option"
  ws_homepage :: "string option"
  ws_cover_media :: "string option"
  ws_footer :: "string option"
  ws_side_bar_content :: "string option"

record website_change =
  wc_theme :: "string option"
  wc_theme_options :: "options option"

text \<open>\<open>WebsiteQuerySet.update\<close>: a theme that is set without its options forgets those of the old one.\<close>

definition website_update :: "(website \<Rightarrow> bool) \<Rightarrow> website_change \<Rightarrow> website list \<Rightarrow> website list" where
  "website_update sel ch ws =
     (let opts = (if wc_theme ch \<noteq> None \<and> wc_theme_options ch = None then Some [] else wc_theme_options ch)
      in map (\<lambda>w. if sel w then w\<lparr>ws_theme := set_column (wc_theme ch) (ws_theme w),
                                  ws_theme_options := set_column opts (ws_theme_options w)\<rparr> else w) ws)"

text \<open>\<open>read_current\<close>: the first row by identifier.\<close>

definition read_current :: "website list \<Rightarrow> website option" where
  "read_current ws = (case sort_key ws_id ws of [] \<Rightarrow> None | w # rest \<Rightarrow> Some w)"

subsection \<open>The context of a render\<close>

record site =
  si_websites :: "website list"
  si_pages :: "page list"
  si_menus :: "menu list"
  si_medias :: "(string \<times> string) list"

record ('j, 'a) site_env =
  sv_themes :: themes
  sv_templates :: "string \<Rightarrow> bool"
  sv_widgets :: "('j, 'a) widgets"
  sv_html :: "'j html_env"
  sv_page_readable :: "page \<Rightarrow> bool"
  sv_menu_readable :: "menu \<Rightarrow> bool"
  sv_menu_fetch :: "menu list \<Rightarrow> menu list"
  sv_media_readable :: "string \<Rightarrow> bool"

record render_context =
  cx_website :: "website option"
  cx_menu_nodes :: "string list"
  cx_cover_url :: "string option"
  cx_footer :: string
  cx_side_bar_content :: string
  cx_theme :: theme
  cx_theme_style :: string
  cx_layout :: string
  cx_page :: "page option"
  cx_content :: string

datatype view_error =
    NotFound
  | MultipleObjects
  | NoTheme
  | BadOptions "option_error list"
  | MarkupError expansion_error
  | TemplateDoesNotExist "string list"

definition expand_for :: "('j, 'a) site_env \<Rightarrow> string option \<Rightarrow> view_error + string" where
  "expand_for env content =
     map_sum MarkupError id (expand_widgets (sv_html env) (sv_widgets env) (case content of None \<Rightarrow> [] | Some s \<Rightarrow> s))"

definition menu_nodes :: "('j, 'a) site_env \<Rightarrow> site \<Rightarrow> website option \<Rightarrow> string list" where
  "menu_nodes env s website =
     (case Option.bind website ws_menu of
        None \<Rightarrow> []
      | Some pk \<Rightarrow>
          (case read_tree (sv_menu_readable env) (sv_menu_fetch env) (si_menus s) pk of
             None \<Rightarrow> [] | Some (nodes, root) \<Rightarrow> tn_children root))"

definition cover_url :: "('j, 'a) site_env \<Rightarrow> site \<Rightarrow> website option \<Rightarrow> string option" where
  "cover_url env s website =
     Option.bind (Option.bind website ws_cover_media)
       (\<lambda>pk. if sv_media_readable env pk then dict_get (si_medias s) pk else None)"

text \<open>\<open>get_website_context_data\<close>, for the page and the layout the view decides.\<close>

definition website_context ::
    "('j, 'a) site_env \<Rightarrow> site \<Rightarrow> page option \<Rightarrow> string \<Rightarrow> string \<Rightarrow> view_error + render_context" where
  "website_context env s page content layout =
     (let website = read_current (si_websites s) in
      case render_theme (sv_themes env) (map_option ws_theme website) of
        None \<Rightarrow> Inl NoTheme
      | Some theme \<Rightarrow>
          result_bind (expand_for env (Option.bind website ws_footer)) (\<lambda>footer.
          result_bind (expand_for env (Option.bind website ws_side_bar_content)) (\<lambda>side_bar.
          result_bind (map_sum BadOptions id (resolve_options theme (map_option ws_theme_options website))) (\<lambda>opts.
            Inr \<lparr>cx_website = website, cx_menu_nodes = menu_nodes env s website, cx_cover_url = cover_url env s website,
                 cx_footer = footer, cx_side_bar_content = side_bar, cx_theme = theme,
                 cx_theme_style = render_css_variables opts, cx_layout = layout, cx_page = page, cx_content = content\<rparr>))))"

text \<open>\<open>render_to_response\<close>: the first template of the layout that exists.\<close>

definition render_to_response :: "('j, 'a) site_env \<Rightarrow> render_context \<Rightarrow> view_error + string \<times> render_context" where
  "render_to_response env cx =
     (let names = get_layout_template_names (cx_theme cx) (cx_layout cx) in
      case select_template (sv_templates env) names of
        None \<Rightarrow> Inl (TemplateDoesNotExist names)
      | Some name \<Rightarrow> Inr (name, cx))"

subsection \<open>Views\<close>

definition get_homepage :: "('j, 'a) site_env \<Rightarrow> site \<Rightarrow> website option \<Rightarrow> page option" where
  "get_homepage env s website =
     (case Option.bind website ws_homepage of
        None \<Rightarrow> None
      | Some pk \<Rightarrow>
          (case read_published (sv_page_readable env) [(''id'', \<lambda>p. pg_id p = pk)] (si_pages s) of
             [] \<Rightarrow> None | p # ps \<Rightarrow> Some p))"

text \<open>\<open>HomePageView\<close>: the page of the settings, or the landing layout without one.\<close>

definition home_view :: "('j, 'a) site_env \<Rightarrow> site \<Rightarrow> view_error + string \<times> render_context" where
  "home_view env s =
     (let page = get_homepage env s (read_current (si_websites s));
          layout = (case page of None \<Rightarrow> ''landing'' | Some p \<Rightarrow> pg_layout p)
      in result_bind (website_context env s page [] layout) (\<lambda>cx.
         result_bind (expand_for env (map_option pg_content page)) (\<lambda>content.
           render_to_response env (cx\<lparr>cx_content := content\<rparr>))))"

text \<open>
  \<open>get_object\<close> of the detail views, on the rows its lookup selects: \<open>aget\<close> wants exactly one.
  A lookup value of the wrong type, which is also not found, does not arise for a slug.
\<close>

definition get_object :: "'r list \<Rightarrow> view_error + 'r" where
  "get_object rows = (case rows of [] \<Rightarrow> Inl NotFound | [r] \<Rightarrow> Inr r | _ \<Rightarrow> Inl MultipleObjects)"

text \<open>\<open>PageView\<close>: the published page of a slug.\<close>

definition page_view :: "('j, 'a) site_env \<Rightarrow> site \<Rightarrow> string \<Rightarrow> view_error + string \<times> render_context" where
  "page_view env s slug =
     result_bind (get_object (read_published (sv_page_readable env) [(''slug'', \<lambda>p. pg_slug p = slug)] (si_pages s))) (\<lambda>p.
     result_bind (website_context env s (Some p) [] (pg_layout p)) (\<lambda>cx.
     result_bind (expand_for env (Some (pg_content p))) (\<lambda>content.
       render_to_response env (cx\<lparr>cx_content := content\<rparr>))))"

text \<open>The widget that lists the last pages (\<open>website/html_widget.py\<close>).\<close>

definition last_updated_pages :: "(page \<Rightarrow> bool) \<Rightarrow> nat \<Rightarrow> page list \<Rightarrow> page list" where
  "last_updated_pages readable limit ps =
     take limit (sort_key (\<lambda>p. - pg_update_date p) (read_published readable [] ps))"

text \<open>What the side menu lists: an explicit heading wins, otherwise the root item names the block.\<close>

definition side_menu :: "(menu \<Rightarrow> string) \<Rightarrow> (node_map \<times> tree_node) option \<Rightarrow> string \<Rightarrow> string \<times> string list" where
  "side_menu name root heading =
     (if heading \<noteq> [] then heading
      else case root of None \<Rightarrow> [] | Some (nodes, r) \<Rightarrow> (case tn_data r of None \<Rightarrow> [] | Some m \<Rightarrow> name m),
      case root of None \<Rightarrow> [] | Some (nodes, r) \<Rightarrow> tn_children r)"

end
