(* ===== verification/Site_Laws.thy ===== *)
theory Site_Laws
  imports Site_Pages
begin

text \<open>
  What the public site promises: the home page answers whatever the tables hold, a page is shown
  if and only if it is published, and a published page tells when it was.
\<close>

subsection \<open>Published pages\<close>

lemma read_published_single:
  "k \<noteq> ''is_published'' \<Longrightarrow>
   p \<in> set (read_published readable [(k, f)] ps) \<longleftrightarrow> p \<in> set ps \<and> readable p \<and> pg_published p \<and> f p"
  by (auto simp: read_published_def read_pages_def)

lemma read_published_all: "p \<in> set (read_published readable [] ps) \<longleftrightarrow> p \<in> set ps \<and> readable p \<and> pg_published p"
  by (auto simp: read_published_def read_pages_def)

text \<open>One page at most has a slug.\<close>

lemma read_published_slug:
  assumes "distinct (map pg_slug ps)"
  shows "read_published readable [(''slug'', \<lambda>p. pg_slug p = slug)] ps =
    (case find (\<lambda>p. pg_slug p = slug) ps of
       Some p \<Rightarrow> if readable p \<and> pg_published p then [p] else []
     | None \<Rightarrow> [])"
proof -
  have "filter (\<lambda>p. readable p \<and> pg_published p \<and> pg_slug p = slug) ps =
    (case find (\<lambda>p. pg_slug p = slug) ps of
       Some p \<Rightarrow> if readable p \<and> pg_published p then [p] else []
     | None \<Rightarrow> [])"
    using assms
  proof (induction ps)
    case (Cons a ps)
    show ?case
    proof (cases "pg_slug a = slug")
      case True
      with Cons.prems have "slug \<notin> pg_slug ` set ps" by simp
      then have "pg_slug p \<noteq> slug" if "p \<in> set ps" for p using that by (metis image_eqI)
      then have "filter (\<lambda>p. readable p \<and> pg_published p \<and> pg_slug p = slug) ps = []" by (simp add: filter_empty_conv)
      with True show ?thesis by simp
    next
      case False
      with Cons show ?thesis by simp
    qed
  qed simp
  then show ?thesis by (simp add: read_published_def read_pages_def conj_commute conj_left_commute)
qed

subsection \<open>Rendering\<close>

text \<open>The code the site needs: its themes, the last template, and markups that parse.\<close>

definition site_code_ok :: "('j, 'a) site_env \<Rightarrow> bool" where
  "site_code_ok env \<longleftrightarrow>
     themes_ok (sv_themes env) \<and> validate_themes (sv_themes env) = Inr () \<and> sv_templates env default_layout_path
     \<and> he_parse (sv_html env) [] \<noteq> None
     \<and> (\<forall>i w a markup. get_widget (sv_widgets env) i = Some w \<longrightarrow> wg_render w a = Some markup \<longrightarrow>
          he_parse (sv_html env) markup \<noteq> None)"

lemma rendered_markup_parses:
  assumes "site_code_ok env"
  shows "he_parse (sv_html env) (render_marker (sv_html env) (sv_widgets env) n) \<noteq> None"
  using assms by (auto simp: site_code_ok_def render_marker_def split: option.splits)

lemma splice_markers_total:
  "\<forall>n. he_parse env (render_marker env reg n) \<noteq> None \<Longrightarrow> \<exists>root'. splice_markers env reg ns root = Inr root'"
  by (induction ns arbitrary: root) (auto simp: Let_def split: option.splits)

lemma expand_for_total:
  assumes "site_code_ok env"
  shows "\<exists>out. expand_for env content = Inr out"
proof -
  have "\<exists>out. expand_widgets (sv_html env) (sv_widgets env) c = Inr out" for c
  proof (cases "he_parse (sv_html env) c")
    case (Some parsed)
    obtain root' where "splice_markers (sv_html env) (sv_widgets env) (top_markers (fst (number_node parsed 0))) (fst (number_node parsed 0)) = Inr root'"
      using splice_markers_total rendered_markup_parses [OF assms] by blast
    with Some show ?thesis by (simp add: expand_widgets_def Let_def)
  qed (simp add: expand_widgets_def)
  then obtain out where "expand_widgets (sv_html env) (sv_widgets env) (case content of None \<Rightarrow> [] | Some s \<Rightarrow> s) = Inr out" by blast
  then show ?thesis by (simp add: expand_for_def)
qed

lemma website_context_total:
  assumes "site_code_ok env"
  shows "\<exists>cx. website_context env s page content layout = Inr cx \<and> cx_page cx = page \<and> cx_layout cx = layout"
proof -
  from assms have themes: "themes_ok (sv_themes env)" "validate_themes (sv_themes env) = Inr ()" by (auto simp: site_code_ok_def)
  let ?w = "read_current (si_websites s)"
  obtain t where t: "render_theme (sv_themes env) (map_option ws_theme ?w) = Some t" using render_theme_total [OF themes(2)] by blast
  then have "\<exists>i. get_theme (sv_themes env) i = Some t" by (auto simp: render_theme_def split: option.splits)
  with themes(1) have "theme_ok t" by (auto simp: themes_ok_def get_theme_def)
  then obtain opts where opts: "resolve_options t (map_option ws_theme_options ?w) = Inr opts"
    using resolve_options_total [of t] by (cases "resolve_options t (map_option ws_theme_options ?w)") (metis is_inr.simps(1), blast)
  obtain footer side where "expand_for env (Option.bind ?w ws_footer) = Inr footer"
    "expand_for env (Option.bind ?w ws_side_bar_content) = Inr side"
    using expand_for_total [OF assms] by metis
  with t opts show ?thesis by (simp add: website_context_def Let_def)
qed

lemma render_to_response_total:
  assumes "site_code_ok env"
  shows "\<exists>name. render_to_response env cx = Inr (name, cx) \<and> sv_templates env name"
proof -
  from layout_found [of "sv_templates env" "cx_theme cx" "cx_layout cx"] assms obtain name where
    "select_template (sv_templates env) (get_layout_template_names (cx_theme cx) (cx_layout cx)) = Some name" "sv_templates env name"
    by (auto simp: site_code_ok_def)
  then show ?thesis by (simp add: render_to_response_def)
qed

text \<open>What both views end with.\<close>

lemma render_page_total:
  assumes "site_code_ok env"
  shows "\<exists>name cx out. expand_for env content = Inr out
    \<and> result_bind (website_context env s page [] layout) (\<lambda>cx.
         result_bind (expand_for env content) (\<lambda>content. render_to_response env (cx\<lparr>cx_content := content\<rparr>))) = Inr (name, cx)
    \<and> sv_templates env name \<and> cx_page cx = page \<and> cx_layout cx = layout \<and> cx_content cx = out"
proof -
  from expand_for_total [OF assms] obtain out where out: "expand_for env content = Inr out" by blast
  from website_context_total [OF assms] obtain cx where cx: "website_context env s page [] layout = Inr cx"
    "cx_page cx = page" "cx_layout cx = layout" by blast
  from render_to_response_total [OF assms, of "cx\<lparr>cx_content := out\<rparr>"] obtain name where
    "render_to_response env (cx\<lparr>cx_content := out\<rparr>) = Inr (name, cx\<lparr>cx_content := out\<rparr>)" "sv_templates env name" by blast
  with out cx show ?thesis by simp
qed

subsection \<open>Publication\<close>

text \<open>The writes of the program: creations, and updates that do not set the date themselves.\<close>

datatype page_op = CreatePages int "page list" | UpdatePages int "page list" page_change

fun page_op_step :: "page_op \<Rightarrow> page list \<Rightarrow> page_error + page list" where
  "page_op_step (CreatePages now objs) ps = page_bulk_create now objs ps"
| "page_op_step (UpdatePages now selected ch) ps = page_update now (\<lambda>p. p \<in> set selected) ch ps"

fun page_op_ok :: "page_op \<Rightarrow> bool" where
  "page_op_ok (CreatePages now objs) \<longleftrightarrow> True"
| "page_op_ok (UpdatePages now selected ch) \<longleftrightarrow> pc_date_published ch = None"

text \<open>A write that is refused leaves the table as it was.\<close>

definition run_pages :: "page_op list \<Rightarrow> page list \<Rightarrow> page list" where
  "run_pages ops ps = fold (\<lambda>op ps. case page_op_step op ps of Inl e \<Rightarrow> ps | Inr ps' \<Rightarrow> ps') ops ps"

definition pages_ok :: "page list \<Rightarrow> bool" where
  "pages_ok ps \<longleftrightarrow> distinct (map pg_id ps) \<and> distinct (map pg_slug ps) \<and> (\<forall>p \<in> set ps. pg_published p \<longrightarrow> pg_date_published p \<noteq> None)"

lemma page_op_keeps: "pages_ok ps \<Longrightarrow> page_op_ok op \<Longrightarrow> page_op_step op ps = Inr ps' \<Longrightarrow> pages_ok ps'"
proof (cases op)
  case (CreatePages now objs)
  assume "pages_ok ps" "page_op_step op ps = Inr ps'"
  then show ?thesis
    by (auto simp: CreatePages pages_ok_def page_bulk_create_def pages_stored_def stamp_created_def split: if_splits)
next
  case (UpdatePages now selected ch)
  assume ok: "pages_ok ps" "page_op_ok op" "page_op_step op ps = Inr ps'"
  have stamped: "pg_date_published (apply_page_change (stamp_update now ch) p) \<noteq> None"
    if "pg_published (apply_page_change (stamp_update now ch) p)" "p \<in> set ps" for p
    using that ok(1,2) by (cases "pc_published ch") (auto simp: UpdatePages pages_ok_def apply_page_change_def stamp_update_def set_column_def Let_def del: not_None_eq)
  from ok(3) have ps': "ps' = map (\<lambda>p. if p \<in> set selected then apply_page_change (stamp_update now ch) p else p) ps"
    "distinct (map pg_id ps')" "distinct (map pg_slug ps')"
    by (auto simp: UpdatePages page_update_def pages_stored_def split: if_splits)
  have "\<forall>p \<in> set ps'. pg_published p \<longrightarrow> pg_date_published p \<noteq> None"
    using ok(1) stamped unfolding ps'(1) by (auto simp: pages_ok_def)
  with ps'(2,3) show ?thesis by (simp add: pages_ok_def)
qed

lemma run_pages_keeps: "pages_ok ps \<Longrightarrow> \<forall>op \<in> set ops. page_op_ok op \<Longrightarrow> pages_ok (run_pages ops ps)"
proof (induction ops arbitrary: ps)
  case (Cons op ops)
  have "pages_ok (case page_op_step op ps of Inl e \<Rightarrow> ps | Inr ps' \<Rightarrow> ps')"
    using page_op_keeps [OF Cons.prems(1)] Cons.prems by (auto split: sum.split)
  with Cons show ?case by (simp add: run_pages_def)
qed (simp add: run_pages_def)

subsection \<open>Properties\<close>

text \<open>
  C35: the home page answers whatever the tables hold: no settings, a homepage that is deleted or a
  draft, a theme that is no longer registered, options it does not know, broken markers. The
  answer is a template that exists; the page it shows is the one of the settings and is
  published, and there is none exactly when the settings name no page that is.
\<close>

theorem home_always_answers:
  assumes "site_code_ok env"
  shows "\<exists>name cx. home_view env s = Inr (name, cx) \<and> sv_templates env name
    \<and> (case cx_page cx of
         Some p \<Rightarrow> p \<in> set (si_pages s) \<and> pg_published p \<and> sv_page_readable env p
           \<and> Option.bind (read_current (si_websites s)) ws_homepage = Some (pg_id p)
           \<and> cx_layout cx = pg_layout p \<and> expand_for env (Some (pg_content p)) = Inr (cx_content cx)
       | None \<Rightarrow> cx_layout cx = ''landing'' \<and> cx_content cx = []
           \<and> (\<forall>p \<in> set (si_pages s). pg_published p \<longrightarrow> sv_page_readable env p \<longrightarrow>
                Option.bind (read_current (si_websites s)) ws_homepage \<noteq> Some (pg_id p)))"
proof -
  define page where "page = get_homepage env s (read_current (si_websites s))"
  let ?home = "Option.bind (read_current (si_websites s)) ws_homepage"
  define layout where "layout = (case page of None \<Rightarrow> ''landing'' | Some p \<Rightarrow> pg_layout p)"
  obtain name cx out where run: "home_view env s = Inr (name, cx)" "sv_templates env name" "cx_page cx = page" "cx_layout cx = layout"
    "expand_for env (map_option pg_content page) = Inr out" "cx_content cx = out"
    using render_page_total [OF assms, of "map_option pg_content page" s page layout]
    by (auto simp: home_view_def Let_def page_def layout_def)
  have found: "page = (case ?home of None \<Rightarrow> None
      | Some pk \<Rightarrow> (case read_published (sv_page_readable env) [(''id'', \<lambda>p. pg_id p = pk)] (si_pages s) of [] \<Rightarrow> None | p # ps \<Rightarrow> Some p))"
    by (simp add: page_def get_homepage_def)
  show ?thesis
  proof (cases page)
    case (Some p)
    with found obtain pk ps where h: "?home = Some pk"
      and r: "read_published (sv_page_readable env) [(''id'', \<lambda>p. pg_id p = pk)] (si_pages s) = p # ps"
      by (auto split: option.splits list.splits)
    have "p \<in> set (read_published (sv_page_readable env) [(''id'', \<lambda>p. pg_id p = pk)] (si_pages s))" unfolding r by simp
    then have "p \<in> set (si_pages s)" "pg_published p" "sv_page_readable env p" "pg_id p = pk"
      by (simp_all add: read_published_single)
    with run Some h show ?thesis by (simp add: layout_def)
  next
    case None
    have "?home \<noteq> Some (pg_id p)" if p: "p \<in> set (si_pages s)" "pg_published p" "sv_page_readable env p" for p
    proof
      assume h: "?home = Some (pg_id p)"
      have "p \<in> set (read_published (sv_page_readable env) [(''id'', \<lambda>q. pg_id q = pg_id p)] (si_pages s))"
        using p by (simp add: read_published_single)
      with found h None show False by (auto split: list.splits)
    qed
    moreover have "out = []" using run(5) None by (simp add: expand_for_def expand_widgets_def)
    ultimately show ?thesis using run None by (simp add: layout_def)
  qed
qed


subsection \<open>A concrete site\<close>

definition toy_page :: "string \<Rightarrow> bool \<Rightarrow> page" where
  "toy_page slug published = \<lparr>pg_id = slug, pg_slug = slug, pg_content = page_text, pg_layout = ''full-width'',
     pg_published = published, pg_date_published = None, pg_update_date = 0, pg_user = None\<rparr>"

definition toy_ops :: "page_op list" where
  "toy_ops = [CreatePages 1 [toy_page ''about'' True, toy_page ''draft'' False], CreatePages 2 [toy_page ''about'' False]]"

definition toy_env :: "(unit, unit) site_env" where
  "toy_env = \<lparr>sv_themes = (case register_themes shipped_themes [] of Inr reg \<Rightarrow> reg | Inl e \<Rightarrow> []),
     sv_templates = (\<lambda>n. n = default_layout_path), sv_widgets = toy_widgets, sv_html = toy_html,
     sv_page_readable = (\<lambda>p. True), sv_menu_readable = (\<lambda>m. True), sv_menu_fetch = id, sv_media_readable = (\<lambda>k. True)\<rparr>"

definition toy_site :: site where
  "toy_site = \<lparr>si_websites = [\<lparr>ws_id = ''1'', ws_theme = ''gone'', ws_theme_options = [], ws_menu = Some ''5'', ws_homepage = Some ''draft'',
       ws_cover_media = None, ws_footer = None, ws_side_bar_content = None\<rparr>],
     si_pages = run_pages toy_ops [], si_menus = [], si_medias = []\<rparr>"

lemma toy_env_ok: "site_code_ok toy_env"
proof -
  have "is_inr (register_themes shipped_themes [])" "validate_themes (sv_themes toy_env) = Inr ()" by code_simp+
  then obtain reg where reg: "register_themes shipped_themes [] = Inr reg" by (cases "register_themes shipped_themes []") auto
  then have "themes_ok (sv_themes toy_env)" using register_themes_keeps [OF themes_ok_empty] by (simp add: toy_env_def)
  moreover have "he_parse toy_html [] \<noteq> None" "he_parse toy_html ''hi'' \<noteq> None" by code_simp+
  moreover have "wg_render w a \<in> {Some ''hi'', None}" if "get_widget toy_widgets i = Some w" for i w a
    using that by (auto simp: get_widget_def toy_widgets_def split: if_splits)
  ultimately show ?thesis using \<open>validate_themes (sv_themes toy_env) = Inr ()\<close>
    by (fastforce simp: site_code_ok_def toy_env_def)
qed

lemma toy_pages:
  "map (\<lambda>p. (pg_slug p, pg_published p, pg_date_published p)) (run_pages toy_ops [])
     = [(''about'', True, Some 1), (''draft'', False, None)]"
  by code_simp

theorem home_always_answers_witness:
  "\<exists>name cx. home_view toy_env toy_site = Inr (name, cx) \<and> name = default_layout_path \<and> cx_page cx = None"
proof -
  from home_always_answers [OF toy_env_ok, of toy_site] obtain name cx where
    home: "home_view toy_env toy_site = Inr (name, cx)" "sv_templates toy_env name"
    and shown: "\<And>p. cx_page cx = Some p \<Longrightarrow> p \<in> set (run_pages toy_ops []) \<and> pg_published p \<and> pg_id p = ''draft''"
    by (auto simp: toy_site_def read_current_def split: option.splits)
  have "\<forall>p \<in> set (run_pages toy_ops []). \<not> (pg_published p \<and> pg_id p = ''draft'')" by code_simp
  with shown have "cx_page cx = None" by (cases "cx_page cx") auto
  with home show ?thesis by (simp add: toy_env_def)
qed


text \<open>
  Publishing through \<open>save\<close> with no list of fields, as the admin does, leaves the date empty; through
  the service it is set; and withdrawing a page restamps it.
\<close>

lemma save_leaves_the_date:
  "fst (page_save_stamp now False None ((toy_page slug False)\<lparr>pg_published := True\<rparr>)) = (toy_page slug False)\<lparr>pg_published := True\<rparr>"
  "pg_date_published ((toy_page slug False)\<lparr>pg_published := True\<rparr>) = None"
  by (simp_all add: page_save_stamp_def toy_page_def)

lemma withdrawing_restamps:
  "pc_published ch = Some False \<Longrightarrow> pc_date_published ch = None \<Longrightarrow>
     pg_date_published (apply_page_change (stamp_update now ch) p) = Some now"
  by (simp add: apply_page_change_def stamp_update_def set_column_def Let_def del: not_None_eq)

end
