(* ===== verification/Schema_Fields.thy ===== *)
theory Schema_Fields
  imports Totem_Prelude
begin

text \<open>
  From the columns of a model to the fields of its schemas (\<open>core/schemas/fields.py\<close>,
  \<open>core/schemas/validators.py\<close>). A class is its name, a Django field the attributes the conversion
  reads, with the field it refers to: the primary key of the target of a relation, the base field
  of an array, the output field of a derived value. Titles and descriptions, which document the
  interface only, are left out. \<open>text\<close> is the text of a choice when its value is a string.
\<close>

subsection \<open>Annotations and infos\<close>

datatype base_type =
    TStr | TEmail | TUrl | TInt | TFloat | TDecimal | TBool | TAddress | TAnyObject
  | TDate | TDateTime | TTime | TTimedelta | TUuid | TDict

datatype 'v py_annotation =
    Base base_type
  | EnumOf "(string \<times> 'v) list"
  | Annotated "'v py_annotation" "string list"
  | OptionalOf "'v py_annotation"
  | ListOf "'v py_annotation"

datatype 'v info = IRequired | INone | IUndefined | IValue 'v | IFactory string | IText string | INat nat | IAliases "string list"

type_synonym 'v infos = "(string \<times> 'v info) list"

subsection \<open>Validators\<close>

text \<open>
  The validator classes with a converter of their own, and the others by a name. A regular
  expression may be inverted, and a subclass such as the URL validator checks more beyond it.
\<close>

datatype 'v validator =
    RegexValidator string bool "string option"
  | MinValueValidator 'v
  | MaxValueValidator 'v
  | MinLengthValidator nat
  | MaxLengthValidator nat
  | DecimalValidator "nat option" "nat option"
  | OtherValidator string

definition nat_info :: "nat option \<Rightarrow> 'v info" where
  "nat_info n = (case n of None \<Rightarrow> INone | Some k \<Rightarrow> INat k)"

fun convert_validator :: "'v validator \<Rightarrow> 'v infos \<times> string option" where
  "convert_validator (RegexValidator regex inverted beyond) = ([(''pattern'', IText regex)], None)"
| "convert_validator (MinValueValidator limit) = ([(''ge'', IValue limit)], None)"
| "convert_validator (MaxValueValidator limit) = ([(''le'', IValue limit)], None)"
| "convert_validator (MinLengthValidator limit) = ([(''min_length'', INat limit)], None)"
| "convert_validator (MaxLengthValidator limit) = ([(''max_length'', INat limit)], None)"
| "convert_validator (DecimalValidator digits places) = ([(''decimal_places'', nat_info places), (''max_digits'', nat_info digits)], None)"
| "convert_validator (OtherValidator name) = ([], Some name)"

definition convert_validators :: "'v validator list \<Rightarrow> 'v infos \<times> string list" where
  "convert_validators vs =
     (fold (\<lambda>v d. dict_update (fst (convert_validator v)) d) vs [], List.map_filter (\<lambda>v. snd (convert_validator v)) vs)"

definition is_max_length :: "'v validator \<Rightarrow> bool" where
  "is_max_length v = (case v of MaxLengthValidator n \<Rightarrow> True | _ \<Rightarrow> False)"

subsection \<open>Fields\<close>

datatype 'v default = DValue 'v | DCallable string

record 'v field_attrs =
  fa_name :: string
  fa_attname :: string
  fa_mro :: "string list"
  fa_null :: bool
  fa_blank :: bool
  fa_pk :: bool
  fa_default :: "'v default option"
  fa_choices :: "('v \<times> string) list"
  fa_validators :: "'v validator list"

datatype 'v django_field = Field (fd_attrs: "'v field_attrs") (fd_target: "'v django_field option")

datatype convert_error = UnknownFieldClass string | NoTarget string | NoUpper | DuplicateMember | AliasConflict string

text \<open>The members of the enumeration of a field with choices; a name given twice is refused.\<close>

definition member_name :: "string \<Rightarrow> string" where
  "member_name s = map (\<lambda>c. if c = CHR ''-'' then CHR ''_'' else c) (map upper_char s)"

definition get_enum_choices :: "('v \<Rightarrow> string option) \<Rightarrow> ('v \<times> string) list \<Rightarrow> convert_error + (string \<times> 'v) list" where
  "get_enum_choices text choices =
     result_bind (result_map (\<lambda>(v, label). case text v of None \<Rightarrow> Inl NoUpper | Some s \<Rightarrow> Inr (member_name s, v)) choices)
       (\<lambda>named. if distinct (map fst named) then Inr named else Inl DuplicateMember)"

definition unwrap_optional :: "'v py_annotation \<Rightarrow> 'v py_annotation" where
  "unwrap_optional t = (case t of OptionalOf t' \<Rightarrow> t' | _ \<Rightarrow> t)"

text \<open>\<open>_get_pydantic_fieldinfo_from_field\<close>, the default first: required, absent, or the field's own.\<close>

definition default_infos :: "'v field_attrs \<Rightarrow> bool \<Rightarrow> 'v infos" where
  "default_infos a optional =
     (let infos0 = [(''default'', IRequired), (''default_factory'', INone)];
          infos1 = (if fa_pk a \<or> fa_blank a \<or> fa_null a \<or> optional then dict_put ''default'' INone infos0 else infos0);
          infos2 = (case fa_default a of
                      None \<Rightarrow> infos1
                    | Some (DCallable f) \<Rightarrow> dict_put ''default_factory'' (IFactory f) infos1
                    | Some (DValue v) \<Rightarrow> dict_put ''default'' (IValue v) infos1)
      in if dict_get infos2 ''default_factory'' \<noteq> Some INone then dict_put ''default'' IUndefined infos2 else infos2)"

definition fieldinfo_from_field ::
    "('v \<Rightarrow> string option) \<Rightarrow> 'v py_annotation \<Rightarrow> 'v field_attrs \<Rightarrow> bool \<Rightarrow> 'v infos \<Rightarrow> convert_error + 'v py_annotation \<times> 'v infos" where
  "fieldinfo_from_field text python_type a optional extra =
     result_bind (if fa_choices a = [] then Inr python_type else map_sum id EnumOf (get_enum_choices text (fa_choices a))) (\<lambda>ty.
       let validators = (if fa_choices a = [] then fa_validators a else filter (\<lambda>v. \<not> is_max_length v) (fa_validators a));
           (constraints, checks) = convert_validators validators;
           infos = dict_update constraints (default_infos a optional);
           ty1 = (if checks = [] then ty else Annotated ty checks);
           ty2 = (if fa_pk a \<or> fa_null a then OptionalOf ty1 else ty1)
       in Inr (ty2, dict_update extra infos))"

subsection \<open>Conversion by class\<close>

datatype converter = ToType base_type | ToDerived | ToRelation | ToMany | ToArray

text \<open>The registrations in the order of the module; the last one for a class wins.\<close>

definition derived_converters :: "(string list \<times> converter) list" where
  "derived_converters = [([''ComputedField'', ''GeneratedField''], ToDerived)]"

definition text_converters :: "(string list \<times> converter) list" where
  "text_converters =
     [([''CharField'', ''TextField''], ToType TStr),
      ([''SlugField''], ToType TStr),
      ([''EmailField''], ToType TEmail),
      ([''URLField''], ToType TUrl)]"

definition number_converters :: "(string list \<times> converter) list" where
  "number_converters =
     [([''AutoField'', ''PositiveIntegerField'', ''PositiveSmallIntegerField'', ''SmallIntegerField'',
        ''BigIntegerField'', ''IntegerField''], ToType TInt),
      ([''FloatField''], ToType TFloat),
      ([''DecimalField''], ToType TDecimal),
      ([''BooleanField'', ''NullBooleanField''], ToType TBool)]"

definition other_converters :: "(string list \<times> converter) list" where
  "other_converters =
     [([''IPAddressField'', ''GenericIPAddressField''], ToType TAddress),
      ([''URLField''], ToType TUrl),
      ([''JSONField''], ToType TAnyObject),
      ([''FileField'', ''FilePathField''], ToType TStr)]"

definition date_converters :: "(string list \<times> converter) list" where
  "date_converters =
     [([''DateField''], ToType TDate),
      ([''DateTimeField''], ToType TDateTime),
      ([''TimeField''], ToType TTime),
      ([''DurationField''], ToType TTimedelta),
      ([''UUIDField''], ToType TUuid)]"

definition relation_converters :: "(string list \<times> converter) list" where
  "relation_converters =
     [([''OneToOneField'', ''ForeignKey''], ToRelation),
      ([''ManyToManyField'', ''ManyToManyRel'', ''ManyToOneRel''], ToMany)]"

definition postgres_converters :: "(string list \<times> converter) list" where
  "postgres_converters =
     [([''ArrayField''], ToArray),
      ([''CICharField'', ''CIEmailField'', ''CITextField''], ToType TStr),
      ([''HStoreField''], ToType TDict)]"

definition converters :: "(string \<times> converter) list" where
  "converters = fold (\<lambda>(classes, c). fold (\<lambda>k. dict_put k c) classes)
     (derived_converters @ text_converters @ number_converters @ other_converters @ date_converters
       @ relation_converters @ postgres_converters) []"

lemmas converter_defs = converters_def derived_converters_def text_converters_def number_converters_def other_converters_def
  date_converters_def relation_converters_def postgres_converters_def

text \<open>\<open>singledispatch\<close>: the first registered class of the method resolution order.\<close>

definition dispatch :: "string list \<Rightarrow> converter option" where
  "dispatch mro = (case List.map_filter (dict_get converters) mro of [] \<Rightarrow> None | c # cs \<Rightarrow> Some c)"

definition described :: "'v field_attrs \<Rightarrow> 'v field_attrs \<Rightarrow> 'v field_attrs" where
  "described a out = out\<lparr>fa_name := fa_name a, fa_attname := fa_name a, fa_null := True, fa_blank := True\<rparr>"

fun field_depth :: "'v django_field \<Rightarrow> nat" where
  "field_depth (Field a t) = (case t of None \<Rightarrow> 0 | Some f \<Rightarrow> Suc (field_depth f))"

function convert_django_field ::
    "('v \<Rightarrow> string option) \<Rightarrow> 'v django_field \<Rightarrow> bool \<Rightarrow> 'v infos \<Rightarrow> convert_error + 'v py_annotation \<times> 'v infos" where
  "convert_django_field text (Field a t) optional extra =
     (case dispatch (fa_mro a) of
        None \<Rightarrow> Inl (UnknownFieldClass (fa_name a))
      | Some (ToType b) \<Rightarrow> fieldinfo_from_field text (Base b) a optional extra
      | Some ToDerived \<Rightarrow>
          (case t of
             None \<Rightarrow> Inl (NoTarget (fa_name a))
           | Some (Field out t') \<Rightarrow> convert_django_field text (Field (described a out) t') optional extra)
      | Some ToRelation \<Rightarrow>
          (case t of
             None \<Rightarrow> Inl (NoTarget (fa_name a))
           | Some (Field pk t') \<Rightarrow>
               result_bind (convert_django_field text (Field pk t') False []) (\<lambda>(ty, _).
                 fieldinfo_from_field text (unwrap_optional ty) a optional
                   (dict_update extra (fst (convert_validators (fa_validators pk))))))
      | Some ToMany \<Rightarrow>
          result_bind (fieldinfo_from_field text (Base TStr) a optional extra) (\<lambda>(ty, infos). Inr (ListOf ty, infos))
      | Some ToArray \<Rightarrow>
          (case t of
             None \<Rightarrow> Inl (NoTarget (fa_name a))
           | Some base \<Rightarrow>
               result_bind (convert_django_field text base False []) (\<lambda>(ty, _).
                 fieldinfo_from_field text (ListOf ty) a optional extra)))"
  by pat_completeness auto
termination by (relation "measure (\<lambda>(text, f, optional, extra). field_depth f)") auto

end
