(* ===== verification/Schema_Factory.thy ===== *)
theory Schema_Factory
  imports Schema_Fields
begin

text \<open>
  The schemas built from the models (\<open>core/schemas/factory.py\<close>, \<open>core/schemas/metaclass.py\<close>): the
  fields selected, their conversion with the overrides of the class, the custom fields of its
  body, and the factory that keeps one schema per key under a name of its own. A field written in
  the body of a class is kept as it is. \<open>str\<close> of the lists in a key is one to one, except for the
  custom fields, whose text is that of their annotations: \<open>repr\<close>.
\<close>

subsection \<open>Selection\<close>

record 'v schema_model =
  sm_label :: string
  sm_name :: string
  sm_get_fields :: "'v django_field list"
  sm_virtual :: "(string \<times> 'v django_field) list"

datatype schema_error =
    FieldsAndExclude
  | InvalidFields "string list"
  | Unconvertible convert_error
  | ConfigClass
  | MetaMissing string
  | NothingSelected

abbreviation fd_name :: "'v django_field \<Rightarrow> string" where
  "fd_name f \<equiv> fa_name (fd_attrs f)"

definition schema_model_fields :: "'v schema_model \<Rightarrow> 'v django_field list" where
  "schema_model_fields m =
     filter (\<lambda>f. ''ManyToOneRel'' \<notin> set (fa_mro (fd_attrs f)) \<and> ''ManyToManyRel'' \<notin> set (fa_mro (fd_attrs f))) (sm_get_fields m)"

definition names_given :: "string list option \<Rightarrow> string list" where
  "names_given ns = (case ns of None \<Rightarrow> [] | Some l \<Rightarrow> l)"

definition selected_model_fields ::
    "'v schema_model \<Rightarrow> string list option \<Rightarrow> string list option \<Rightarrow> schema_error + 'v django_field list" where
  "selected_model_fields m fields0 exclude0 =
     (let all_fields = dict_update (map (\<lambda>f. (fd_name f, f)) (schema_model_fields m)) [];
          fs = names_given fields0; ex = names_given exclude0;
          invalid = filter (\<lambda>n. n \<notin> set (dict_keys all_fields) \<and> n \<notin> set (dict_keys (sm_virtual m))) (uniq (fs @ ex))
      in if invalid \<noteq> [] then Inl (InvalidFields invalid)
         else Inr ((if fs = [] \<and> ex = [] then map snd all_fields else [])
           @ List.map_filter (\<lambda>n. case dict_get all_fields n of Some f \<Rightarrow> Some f | None \<Rightarrow> dict_get (sm_virtual m) n) fs
           @ (if ex = [] then [] else filter (\<lambda>f. fd_name f \<notin> set ex) (map snd all_fields))))"

subsection \<open>Overrides\<close>

definition EXTRA_KEYS :: "string list" where
  "EXTRA_KEYS = [''alias'', ''validation_alias'', ''title'', ''description'', ''pattern'', ''gt'', ''ge'', ''lt'', ''le'',
     ''min_length'', ''max_length'', ''max_digits'']"

text \<open>\<open>ExtraFieldInfos(**given).model_dump(exclude_unset=True)\<close>: the known keys that were given.\<close>

definition extra_field_infos :: "'v infos \<Rightarrow> 'v infos" where
  "extra_field_infos given0 = List.map_filter (\<lambda>k. map_option (Pair k) (dict_get given0 k)) EXTRA_KEYS"

definition expand_alias :: "'v field_attrs \<Rightarrow> 'v infos \<Rightarrow> convert_error + 'v infos" where
  "expand_alias a extra =
     (let rest = filter (\<lambda>(k, i). k \<noteq> ''alias'') extra in
      case dict_get extra ''alias'' of
        Some (IText pub) \<Rightarrow>
          if pub = [] then Inr rest
          else if ''validation_alias'' \<in> set (dict_keys rest) then Inl (AliasConflict (fa_name a))
          else Inr (dict_put ''validation_alias'' (IAliases ([pub, fa_name a] @ (if fa_attname a \<noteq> fa_name a then [fa_attname a] else [])))
                     (dict_put ''serialization_alias'' (IText pub) rest))
      | _ \<Rightarrow> Inr rest)"

text \<open>\<open>optional_fields\<close>: every field, a list, or another text, of which \<open>in\<close> takes the parts.\<close>

datatype optional_fields = OptionalAll | OptionalList "string list" | OptionalText string

definition is_optional :: "optional_fields option \<Rightarrow> string \<Rightarrow> bool" where
  "is_optional opt n =
     (case opt of
        None \<Rightarrow> False
      | Some OptionalAll \<Rightarrow> True
      | Some (OptionalList ns) \<Rightarrow> n \<in> set ns
      | Some (OptionalText s) \<Rightarrow> s \<noteq> [] \<and> occurs_in n s)"

subsection \<open>The factory\<close>

datatype ('v, 'c) field_definition = Converted "'v py_annotation" "'v infos" | Custom 'c

record ('v, 'c) model_schema =
  ms_name :: string
  ms_base :: string
  ms_fields :: "(string \<times> ('v, 'c) field_definition) list"

record ('v, 'c) schema_request =
  sq_model :: "'v schema_model"
  sq_name :: string
  sq_fields :: "string list option"
  sq_exclude :: "string list option"
  sq_optional :: "optional_fields option"
  sq_custom :: "(string \<times> 'c) list"
  sq_base :: string
  sq_extra :: "(string \<times> 'v infos) list"

type_synonym 'v schema_key =
  "string \<times> string \<times> string list option \<times> string list option \<times> optional_fields option \<times> string \<times> (string \<times> 'v infos) list"

record ('v, 'c) factory =
  fc_schemas :: "('v schema_key \<times> ('v, 'c) model_schema) list"
  fc_names :: "string list"

definition schema_name :: "('v, 'c) schema_request \<Rightarrow> string" where
  "schema_name q = (if sq_name q = [] then sm_name (sq_model q) else sq_name q)"

definition get_key :: "((string \<times> 'c) list \<Rightarrow> string) \<Rightarrow> ('v, 'c) schema_request \<Rightarrow> 'v schema_key" where
  "get_key repr q =
     (sm_label (sq_model q), schema_name q, sq_fields q, sq_exclude q, sq_optional q, repr (sq_custom q), sq_extra q)"

text \<open>The first free suffix from 2: one of as many as there are names, and one more, is free.\<close>

definition unique_name :: "string list \<Rightarrow> string \<Rightarrow> string" where
  "unique_name names n =
     (if n \<notin> set names then n
      else case find (\<lambda>r. r \<notin> set names) (map (\<lambda>k. n @ show_digits k) [2..<length names + 3]) of
             Some r \<Rightarrow> r | None \<Rightarrow> n)"

definition field_overrides :: "('v, 'c) schema_request \<Rightarrow> string \<Rightarrow> 'v infos" where
  "field_overrides q n = extra_field_infos (case dict_get (sq_extra q) n of None \<Rightarrow> [] | Some d \<Rightarrow> d)"

definition convert_selected ::
    "('v \<Rightarrow> string option) \<Rightarrow> ('v, 'c) schema_request \<Rightarrow> 'v django_field \<Rightarrow> schema_error + string \<times> ('v, 'c) field_definition" where
  "convert_selected text q f =
     map_sum Unconvertible (\<lambda>(ty, infos). (fd_name f, Converted ty infos))
       (result_bind (expand_alias (fd_attrs f) (field_overrides q (fd_name f)))
         (\<lambda>extra. convert_django_field text f (is_optional (sq_optional q) (fd_name f)) extra))"

definition create_schema ::
    "('v \<Rightarrow> string option) \<Rightarrow> ((string \<times> 'c) list \<Rightarrow> string) \<Rightarrow> ('v, 'c) schema_request \<Rightarrow> ('v, 'c) factory
       \<Rightarrow> schema_error + ('v, 'c) model_schema \<times> ('v, 'c) factory" where
  "create_schema text repr q fc =
     (if names_given (sq_fields q) \<noteq> [] \<and> names_given (sq_exclude q) \<noteq> [] then Inl FieldsAndExclude
      else case dict_get (fc_schemas fc) (get_key repr q) of
        Some s \<Rightarrow> Inr (s, fc)
      | None \<Rightarrow>
          result_bind (selected_model_fields (sq_model q) (sq_fields q) (sq_exclude q)) (\<lambda>selected.
          result_bind (result_map (convert_selected text q) selected) (\<lambda>converted.
            let definitions = dict_update (map (\<lambda>(n, c). (n, Custom c)) (sq_custom q)) (dict_update converted []);
                name = unique_name (fc_names fc) (schema_name q);
                s = \<lparr>ms_name = name, ms_base = sq_base q, ms_fields = definitions\<rparr>
            in Inr (s, \<lparr>fc_schemas = dict_put (get_key repr q) s (fc_schemas fc), fc_names = fc_names fc @ [name]\<rparr>))))"

subsection \<open>Class statements\<close>

datatype fields_given = AllFields | FieldNames "string list"

record 'v schema_meta =
  mt_model :: "'v schema_model"
  mt_fields :: "fields_given option"
  mt_exclude :: "string list option"
  mt_optional :: "optional_fields option"
  mt_extra :: "(string \<times> 'v infos) list"

record ('v, 'c) class_statement =
  cs_name :: string
  cs_bases :: "string list"
  cs_config :: bool
  cs_meta :: "'v schema_meta option"
  cs_annotations :: "(string \<times> 'c) list"

definition meta_conf :: "('v, 'c) class_statement \<Rightarrow> schema_error + 'v schema_meta \<times> string list option" where
  "meta_conf c =
     (if cs_config c then Inl ConfigClass
      else case cs_meta c of
        None \<Rightarrow> Inl (MetaMissing (cs_name c))
      | Some mt \<Rightarrow>
          if (case mt_fields mt of None \<Rightarrow> True | Some (FieldNames ns) \<Rightarrow> ns = [] | Some AllFields \<Rightarrow> False)
             \<and> names_given (mt_exclude mt) = []
          then Inl NothingSelected
          else Inr (mt, case mt_fields mt of Some (FieldNames ns) \<Rightarrow> Some ns | _ \<Rightarrow> None))"

text \<open>
  \<open>ModelSchemaMetaclass.__new__\<close>: only a class with \<open>ModelSchema\<close> among its own bases reads its
  \<open>Meta\<close>; the schema returned derives from the class of the statement.
\<close>

definition new_schema_class ::
    "('v \<Rightarrow> string option) \<Rightarrow> ((string \<times> 'c) list \<Rightarrow> string) \<Rightarrow> ('v, 'c) class_statement \<Rightarrow> ('v, 'c) factory
       \<Rightarrow> schema_error + ('v, 'c) model_schema option \<times> ('v, 'c) factory" where
  "new_schema_class text repr c fc =
     (if ''ModelSchema'' \<notin> set (cs_bases c) then Inr (None, fc)
      else result_bind (meta_conf c) (\<lambda>(mt, fields0).
        map_sum id (\<lambda>(s, fc'). (Some s, fc'))
          (create_schema text repr
            \<lparr>sq_model = mt_model mt, sq_name = cs_name c, sq_fields = fields0, sq_exclude = mt_exclude mt, sq_optional = mt_optional mt,
             sq_custom = filter (\<lambda>(n, ty). \<not> starts_with ''_'' n) (cs_annotations c), sq_base = cs_name c, sq_extra = mt_extra mt\<rparr> fc)))"

end
