(* ===== verification/Schema_Laws.thy ===== *)
theory Schema_Laws
  imports Schema_Factory
begin

text \<open>
  What a schema field accepts, against what its column does, and what the factory keeps: one
  schema per key, no two under the same name, with the selected fields and the custom ones.
\<close>

subsection \<open>Reading an annotation\<close>

text \<open>
  Pydantic, by what it accepts: null, lists, the base types, the constraints of a field by keyword,
  and the checks wrapped around the other validators of Django.
\<close>

record 'v pydantic =
  py_null :: "'v \<Rightarrow> bool"
  py_items :: "'v \<Rightarrow> 'v list option"
  py_base :: "base_type \<Rightarrow> 'v \<Rightarrow> bool"
  py_constraint :: "string \<Rightarrow> 'v info \<Rightarrow> 'v \<Rightarrow> bool"
  py_check :: "string \<Rightarrow> 'v \<Rightarrow> bool"

fun type_accepts :: "'v pydantic \<Rightarrow> 'v py_annotation \<Rightarrow> 'v \<Rightarrow> bool" where
  "type_accepts py (Base b) x \<longleftrightarrow> py_base py b x"
| "type_accepts py (EnumOf members) x \<longleftrightarrow> x \<in> set (map snd members)"
| "type_accepts py (Annotated ty checks) x \<longleftrightarrow> type_accepts py ty x \<and> (\<forall>c \<in> set checks. py_check py c x)"
| "type_accepts py (OptionalOf ty) x \<longleftrightarrow> py_null py x \<or> type_accepts py ty x"
| "type_accepts py (ListOf ty) x \<longleftrightarrow>
     (case py_items py x of None \<Rightarrow> False | Some ys \<Rightarrow> list_all (\<lambda>y. type_accepts py ty y) ys)"

definition CONSTRAINTS :: "string list" where
  "CONSTRAINTS = [''pattern'', ''ge'', ''le'', ''gt'', ''lt'', ''min_length'', ''max_length'', ''decimal_places'', ''max_digits'']"

definition constraints_hold :: "'v pydantic \<Rightarrow> 'v infos \<Rightarrow> 'v \<Rightarrow> bool" where
  "constraints_hold py infos x \<longleftrightarrow> (\<forall>(k, i) \<in> set (filter (\<lambda>(k, i). k \<in> set CONSTRAINTS) infos). py_constraint py k i x)"

definition field_accepts :: "'v pydantic \<Rightarrow> 'v py_annotation \<Rightarrow> 'v infos \<Rightarrow> 'v \<Rightarrow> bool" where
  "field_accepts py ty infos x \<longleftrightarrow>
     (case ty of OptionalOf t \<Rightarrow> py_null py x \<or> (type_accepts py t x \<and> constraints_hold py infos x)
      | _ \<Rightarrow> type_accepts py ty x \<and> constraints_hold py infos x)"

definition may_be_omitted :: "'v infos \<Rightarrow> bool" where
  "may_be_omitted infos \<longleftrightarrow> dict_get infos ''default'' \<noteq> Some IRequired"

text \<open>What the keywords and the wrapped checks mean: the validators they stand for.\<close>

definition validator_laws :: "'v pydantic \<Rightarrow> ('v validator \<Rightarrow> 'v \<Rightarrow> bool) \<Rightarrow> bool" where
  "validator_laws py ok \<longleftrightarrow>
     (\<forall>r x. py_constraint py ''pattern'' (IText r) x \<longleftrightarrow> ok (RegexValidator r False None) x)
     \<and> (\<forall>l x. py_constraint py ''ge'' (IValue l) x \<longleftrightarrow> ok (MinValueValidator l) x)
     \<and> (\<forall>l x. py_constraint py ''le'' (IValue l) x \<longleftrightarrow> ok (MaxValueValidator l) x)
     \<and> (\<forall>n x. py_constraint py ''min_length'' (INat n) x \<longleftrightarrow> ok (MinLengthValidator n) x)
     \<and> (\<forall>n x. py_constraint py ''max_length'' (INat n) x \<longleftrightarrow> ok (MaxLengthValidator n) x)
     \<and> (\<forall>d p x. py_constraint py ''decimal_places'' (nat_info p) x \<and> py_constraint py ''max_digits'' (nat_info d) x
          \<longleftrightarrow> ok (DecimalValidator d p) x)
     \<and> (\<forall>n x. py_check py n x \<longleftrightarrow> ok (OtherValidator n) x)"

fun plain_validator :: "'v validator \<Rightarrow> bool" where
  "plain_validator (RegexValidator r inverted beyond) \<longleftrightarrow> \<not> inverted \<and> beyond = None"
| "plain_validator v \<longleftrightarrow> True"

definition one_per_keyword :: "'v validator list \<Rightarrow> bool" where
  "one_per_keyword vs \<longleftrightarrow> distinct (concat (map (\<lambda>v. dict_keys (fst (convert_validator v))) vs))"

lemma converted_keys: "set (dict_keys (fst (convert_validator v))) \<subseteq> set CONSTRAINTS"
  by (cases v) (auto simp: CONSTRAINTS_def)

lemma convert_validators_infos:
  assumes "one_per_keyword vs"
  shows "fst (convert_validators vs) = concat (map (\<lambda>v. fst (convert_validator v)) vs)"
proof -
  have "fold (\<lambda>v d. dict_update (fst (convert_validator v)) d) vs d = d @ concat (map (\<lambda>v. fst (convert_validator v)) vs)"
    if "distinct (dict_keys d @ concat (map (\<lambda>v. dict_keys (fst (convert_validator v))) vs))" for d
    using that
  proof (induction vs arbitrary: d)
    case (Cons v vs)
    then have "dict_update (fst (convert_validator v)) d = d @ fst (convert_validator v)"
      by (intro dict_update_fresh) auto
    moreover from Cons.prems have "distinct (dict_keys (d @ fst (convert_validator v)) @ concat (map (\<lambda>v. dict_keys (fst (convert_validator v))) vs))"
      by simp
    from Cons.IH [OF this] have "fold (\<lambda>v d. dict_update (fst (convert_validator v)) d) vs (d @ fst (convert_validator v))
      = d @ fst (convert_validator v) @ concat (map (\<lambda>v. fst (convert_validator v)) vs)" by simp
    ultimately show ?case by simp
  qed simp
  from this [of "[]"] assms show ?thesis by (simp add: convert_validators_def one_per_keyword_def)
qed

lemma convert_validators_keys: "set (dict_keys (fst (convert_validators vs))) \<subseteq> set CONSTRAINTS"
proof -
  have "set (dict_keys (fold (\<lambda>v d. dict_update (fst (convert_validator v)) d) vs d)) \<subseteq> set CONSTRAINTS"
    if "set (dict_keys d) \<subseteq> set CONSTRAINTS" for d
    using that
  proof (induction vs arbitrary: d)
    case (Cons v vs)
    with converted_keys [of v] have "set (dict_keys (dict_update (fst (convert_validator v)) d)) \<subseteq> set CONSTRAINTS"
      unfolding keys_dict_update by blast
    with Cons.IH show ?case by simp
  qed simp
  from this [of "[]"] show ?thesis by (simp add: convert_validators_def)
qed

lemma one_validator:
  assumes "validator_laws py ok" "plain_validator v"
  shows "(\<forall>(k, i) \<in> set (fst (convert_validator v)). py_constraint py k i x)
      \<and> (\<forall>c. snd (convert_validator v) = Some c \<longrightarrow> py_check py c x) \<longleftrightarrow> ok v x"
  using assms by (cases v) (auto simp: validator_laws_def)

text \<open>The constraints and the checks of a list of validators hold exactly when each of them does.\<close>

lemma validators_hold:
  assumes "validator_laws py ok" "one_per_keyword vs" "\<forall>v \<in> set vs. plain_validator v"
  shows "constraints_hold py (fst (convert_validators vs)) x \<and> (\<forall>c \<in> set (snd (convert_validators vs)). py_check py c x)
     \<longleftrightarrow> (\<forall>v \<in> set vs. ok v x)"
proof -
  have mem: "(k, i) \<in> set (fst (convert_validators vs)) \<longleftrightarrow> (\<exists>v \<in> set vs. (k, i) \<in> set (fst (convert_validator v)))" for k i
    by (simp add: convert_validators_infos [OF assms(2)])
  have keys: "(k, i) \<in> set (fst (convert_validators vs)) \<Longrightarrow> k \<in> set CONSTRAINTS" for k i
    using convert_validators_keys [of vs] by force
  have "constraints_hold py (fst (convert_validators vs)) x
      \<longleftrightarrow> (\<forall>v \<in> set vs. \<forall>(k, i) \<in> set (fst (convert_validator v)). py_constraint py k i x)"
    using keys by (fastforce simp: constraints_hold_def mem)
  moreover have "(\<forall>c \<in> set (snd (convert_validators vs)). py_check py c x)
      \<longleftrightarrow> (\<forall>v \<in> set vs. \<forall>c. snd (convert_validator v) = Some c \<longrightarrow> py_check py c x)"
    by (auto simp: convert_validators_def List.map_filter_def image_iff)
  ultimately show ?thesis using one_validator [OF assms(1)] assms(3) by blast
qed

subsection \<open>The infos of a field\<close>

lemma default_infos_keys: "dict_keys (default_infos a optional) = [''default'', ''default_factory'']"
  by (simp add: default_infos_def Let_def split: option.split default.split)

lemma default_infos_omitted:
  "may_be_omitted (default_infos a optional) \<longleftrightarrow> fa_pk a \<or> fa_blank a \<or> fa_null a \<or> optional \<or> fa_default a \<noteq> None"
  by (simp add: may_be_omitted_def default_infos_def Let_def split: option.split default.split)

lemma default_infos_factory:
  "dict_get (default_infos a optional) ''default_factory''
     = Some (case fa_default a of Some (DCallable f) \<Rightarrow> IFactory f | _ \<Rightarrow> INone)"
  by (simp add: default_infos_def Let_def split: option.split default.split)

lemma kept_infos_defaults:
  assumes "distinct (dict_keys C)" "set (dict_keys C) \<inter> {''default'', ''default_factory''} = {}"
  shows "filter (\<lambda>(k, i). k \<in> set CONSTRAINTS) (dict_update C (default_infos a optional)) = filter (\<lambda>(k, i). k \<in> set CONSTRAINTS) C"
proof -
  have "dict_update C (default_infos a optional) = default_infos a optional @ C"
    using assms by (intro dict_update_fresh) (auto simp: default_infos_keys)
  moreover have "filter (\<lambda>(k, i). k \<in> set CONSTRAINTS) (default_infos a optional) = []"
  proof -
    have "k \<in> {''default'', ''default_factory''}" if "(k, i) \<in> set (default_infos a optional)" for k i
    proof -
      from that have "k \<in> set (dict_keys (default_infos a optional))" by force
      then show ?thesis unfolding default_infos_keys by simp
    qed
    then show ?thesis by (fastforce simp: filter_empty_conv CONSTRAINTS_def)
  qed
  ultimately show ?thesis by simp
qed

lemma constraint_keys_no_default: "''default'' \<notin> set CONSTRAINTS" "''default_factory'' \<notin> set CONSTRAINTS"
  by (simp_all add: CONSTRAINTS_def)

lemma convert_validators_distinct: "one_per_keyword vs \<Longrightarrow> distinct (dict_keys (fst (convert_validators vs)))"
  by (simp add: convert_validators_infos one_per_keyword_def map_concat comp_def)

lemma one_per_keyword_filter: "one_per_keyword vs \<Longrightarrow> one_per_keyword (filter P vs)"
  by (induction vs) (auto simp: one_per_keyword_def)

lemma enum_values:
  assumes "get_enum_choices text choices = Inr members"
  shows "map snd members = map fst choices"
proof -
  have "map snd ms = map fst cs"
    if "result_map (\<lambda>(v, label). case text v of None \<Rightarrow> Inl NoUpper | Some s \<Rightarrow> Inr (member_name s, v)) cs = Inr ms" for cs ms
    using that by (induction cs arbitrary: ms) (auto split: option.splits)
  with assms show ?thesis by (auto simp: get_enum_choices_def split: if_splits)
qed

text \<open>
  The field built from a type: null where the column has it, and otherwise the values of the type,
  or of the choices, that pass the validators kept.
\<close>

lemma fieldinfo_accepts:
  assumes laws: "validator_laws py ok"
    and vs: "one_per_keyword (fa_validators a)" "\<forall>v \<in> set (fa_validators a). plain_validator v"
    and extra: "set (dict_keys extra) \<inter> set CONSTRAINTS = {}"
    and ty: "\<forall>t. ty \<noteq> OptionalOf t"
    and run: "fieldinfo_from_field text ty a optional extra = Inr (ty', infos)"
  shows "field_accepts py ty' infos x \<longleftrightarrow>
      (fa_pk a \<or> fa_null a) \<and> py_null py x
      \<or> (if fa_choices a = [] then type_accepts py ty x else x \<in> fst ` set (fa_choices a))
        \<and> (\<forall>v \<in> set (fa_validators a). fa_choices a \<noteq> [] \<longrightarrow> \<not> is_max_length v \<longrightarrow> ok v x)
        \<and> (fa_choices a = [] \<longrightarrow> (\<forall>v \<in> set (fa_validators a). ok v x))"
proof -
  let ?vs = "if fa_choices a = [] then fa_validators a else filter (\<lambda>v. \<not> is_max_length v) (fa_validators a)"
  let ?c = "convert_validators ?vs"
  have vs': "one_per_keyword ?vs" "\<forall>v \<in> set ?vs. plain_validator v" using vs by (auto intro: one_per_keyword_filter)
  from run obtain t0 where t0: "(if fa_choices a = [] then Inr ty else map_sum id EnumOf (get_enum_choices text (fa_choices a))) = Inr t0"
    and ty': "ty' = (let t1 = if snd ?c = [] then t0 else Annotated t0 (snd ?c) in if fa_pk a \<or> fa_null a then OptionalOf t1 else t1)"
    and infos: "infos = dict_update extra (dict_update (fst ?c) (default_infos a optional))"
    unfolding fieldinfo_from_field_def result_bind_eq_Inr by (auto simp: Let_def case_prod_beta)
  have "(type_accepts py t0 x \<longleftrightarrow> (if fa_choices a = [] then type_accepts py ty x else x \<in> fst ` set (fa_choices a)))
    \<and> (\<forall>t. t0 \<noteq> OptionalOf t)"
  proof (cases "fa_choices a = []")
    case False
    with t0 obtain members where "get_enum_choices text (fa_choices a) = Inr members" "t0 = EnumOf members"
      by (cases "get_enum_choices text (fa_choices a)") auto
    with enum_values [of "text" "fa_choices a" members] False show ?thesis by (simp flip: set_map)
  qed (use t0 ty in auto)
  then have base: "type_accepts py t0 x \<longleftrightarrow> (if fa_choices a = [] then type_accepts py ty x else x \<in> fst ` set (fa_choices a))"
    "\<forall>t. t0 \<noteq> OptionalOf t" by blast+
  have no_default: "set (dict_keys (fst ?c)) \<inter> {''default'', ''default_factory''} = {}"
    using convert_validators_keys [of ?vs] constraint_keys_no_default by blast
  have "filter (\<lambda>(k, i). k \<in> set CONSTRAINTS) infos = filter (\<lambda>(k, i). k \<in> set CONSTRAINTS) (fst ?c)"
    unfolding infos update_other_kept [OF extra] by (rule kept_infos_defaults [OF convert_validators_distinct [OF vs'(1)] no_default])
  then have "constraints_hold py infos x \<longleftrightarrow> constraints_hold py (fst ?c) x" by (simp add: constraints_hold_def)
  then have "field_accepts py ty' infos x \<longleftrightarrow> (fa_pk a \<or> fa_null a) \<and> py_null py x
      \<or> type_accepts py t0 x \<and> (\<forall>c \<in> set (snd ?c). py_check py c x) \<and> constraints_hold py (fst ?c) x"
    using base(2) by (auto simp: ty' field_accepts_def Let_def split: py_annotation.split)
  also have "\<dots> \<longleftrightarrow> (fa_pk a \<or> fa_null a) \<and> py_null py x \<or> type_accepts py t0 x \<and> (\<forall>v \<in> set ?vs. ok v x)"
    using validators_hold [OF laws vs'] by blast
  finally show ?thesis unfolding base(1) by (cases "fa_choices a = []") auto
qed

lemma fieldinfo_omitted:
  assumes "set (dict_keys extra) \<inter> {''default'', ''default_factory''} = {}"
    "fieldinfo_from_field text ty a optional extra = Inr (ty', infos)"
  shows "may_be_omitted infos \<longleftrightarrow> fa_pk a \<or> fa_blank a \<or> fa_null a \<or> optional \<or> fa_default a \<noteq> None"
    "dict_get infos ''default_factory'' = Some (case fa_default a of Some (DCallable f) \<Rightarrow> IFactory f | _ \<Rightarrow> INone)"
proof -
  obtain vs where infos: "infos = dict_update extra (dict_update (fst (convert_validators vs)) (default_infos a optional))"
    using assms(2) unfolding fieldinfo_from_field_def result_bind_eq_Inr by (auto simp: Let_def case_prod_beta)
  have "dict_get infos k = dict_get (default_infos a optional) k" if "k \<in> {''default'', ''default_factory''}" for k
  proof -
    have "k \<notin> set (dict_keys extra)" using that assms(1) by blast
    moreover have "k \<notin> set (dict_keys (fst (convert_validators vs)))"
      using that convert_validators_keys [of vs] constraint_keys_no_default by blast
    ultimately have "k \<notin> set (dict_keys extra)" "k \<notin> set (dict_keys (fst (convert_validators vs)))" .
    then show ?thesis by (simp add: infos dict_get_update_other)
  qed
  then show "may_be_omitted infos \<longleftrightarrow> fa_pk a \<or> fa_blank a \<or> fa_null a \<or> optional \<or> fa_default a \<noteq> None"
    "dict_get infos ''default_factory'' = Some (case fa_default a of Some (DCallable f) \<Rightarrow> IFactory f | _ \<Rightarrow> INone)"
    using default_infos_omitted [of a optional] default_infos_factory [of a optional] by (simp_all add: may_be_omitted_def)
qed

subsection \<open>The column and its field\<close>

text \<open>What a column takes: the values of its type or its choices that pass its validators.\<close>

definition own_value_ok :: "'v pydantic \<Rightarrow> ('v validator \<Rightarrow> 'v \<Rightarrow> bool) \<Rightarrow> base_type \<Rightarrow> 'v field_attrs \<Rightarrow> 'v \<Rightarrow> bool" where
  "own_value_ok py ok b a x \<longleftrightarrow>
     (if fa_choices a = [] then py_base py b x else x \<in> fst ` set (fa_choices a)) \<and> (\<forall>v \<in> set (fa_validators a). ok v x)"

definition column_ok :: "'v pydantic \<Rightarrow> ('v validator \<Rightarrow> 'v \<Rightarrow> bool) \<Rightarrow> 'v django_field \<Rightarrow> 'v \<Rightarrow> bool" where
  "column_ok py ok f x \<longleftrightarrow> (case f of Field a t \<Rightarrow>
     (fa_pk a \<or> fa_null a) \<and> py_null py x
     \<or> (case dispatch (fa_mro a) of
          Some (ToType b) \<Rightarrow> own_value_ok py ok b a x
        | Some ToRelation \<Rightarrow>
            (case t of
               None \<Rightarrow> False
             | Some (Field pk t') \<Rightarrow> (case dispatch (fa_mro pk) of Some (ToType b) \<Rightarrow> own_value_ok py ok b pk x | _ \<Rightarrow> False))
        | _ \<Rightarrow> False))"

text \<open>Validators that say no more than their keyword, one for each, and choices that fit in the column.\<close>

definition plain_attrs :: "('v validator \<Rightarrow> 'v \<Rightarrow> bool) \<Rightarrow> 'v field_attrs \<Rightarrow> bool" where
  "plain_attrs ok a \<longleftrightarrow> one_per_keyword (fa_validators a) \<and> (\<forall>v \<in> set (fa_validators a). plain_validator v)
     \<and> (\<forall>v \<in> set (fa_validators a). is_max_length v \<longrightarrow> (\<forall>c \<in> fst ` set (fa_choices a). ok v c))"

definition plain_field :: "('v validator \<Rightarrow> 'v \<Rightarrow> bool) \<Rightarrow> 'v django_field \<Rightarrow> bool" where
  "plain_field ok f \<longleftrightarrow> (case f of Field a t \<Rightarrow>
     (case dispatch (fa_mro a) of
        Some (ToType b) \<Rightarrow> plain_attrs ok a
      | Some ToRelation \<Rightarrow> fa_choices a = [] \<and> fa_validators a = []
          \<and> (case t of None \<Rightarrow> False
             | Some (Field pk t') \<Rightarrow> (\<exists>b. dispatch (fa_mro pk) = Some (ToType b)) \<and> fa_choices pk = [] \<and> plain_attrs ok pk)
      | _ \<Rightarrow> False))"

lemma fieldinfo_no_choices:
  "fa_choices a = [] \<Longrightarrow> fieldinfo_from_field text ty a optional extra =
     (let c = convert_validators (fa_validators a); t = if snd c = [] then ty else Annotated ty (snd c)
      in Inr (if fa_pk a \<or> fa_null a then OptionalOf t else t, dict_update extra (dict_update (fst c) (default_infos a optional))))"
  by (simp add: fieldinfo_from_field_def Let_def case_prod_beta)

lemma convert_no_validators: "convert_validators [] = ([], [])"
  by (simp add: convert_validators_def List.map_filter_simps)

lemma fieldinfo_bare:
  "fa_choices a = [] \<Longrightarrow> fa_validators a = [] \<Longrightarrow> fieldinfo_from_field text ty a optional extra =
     Inr (if fa_pk a \<or> fa_null a then OptionalOf ty else ty, dict_update extra (default_infos a optional))"
  by (simp add: fieldinfo_no_choices convert_no_validators)

text \<open>A relation is converted as the bare type of the key it holds, with the constraints of that key.\<close>

lemma convert_relation:
  assumes "dispatch (fa_mro a) = Some ToRelation" "dispatch (fa_mro pk) = Some (ToType b)" "fa_choices pk = []"
  shows "convert_django_field text (Field a (Some (Field pk t))) optional extra
     = (let c = convert_validators (fa_validators pk)
        in fieldinfo_from_field text (if snd c = [] then Base b else Annotated (Base b) (snd c)) a optional (dict_update extra (fst c)))"
proof -
  let ?c = "convert_validators (fa_validators pk)"
  let ?t = "if snd ?c = [] then Base b else Annotated (Base b) (snd ?c)"
  let ?w = "if fa_pk pk \<or> fa_null pk then OptionalOf ?t else ?t"
  have pkc: "convert_django_field text (Field pk t) False [] = Inr (?w, dict_update (fst ?c) (default_infos pk False))"
    using assms(2,3) by (simp add: fieldinfo_no_choices Let_def)
  have conv: "convert_django_field text (Field a (Some (Field pk t))) optional extra
      = fieldinfo_from_field text (unwrap_optional ?w) a optional (dict_update extra (fst ?c))"
    by (subst convert_django_field.simps) (simp only: assms(1) pkc option.case converter.case django_field.case result_bind_simps prod.case)
  have unw: "unwrap_optional ?w = ?t" by (simp add: unwrap_optional_def)
  show ?thesis unfolding conv unw Let_def by (rule refl)
qed

lemma relation_field_accepts:
  assumes laws: "validator_laws py ok"
    and plain: "dispatch (fa_mro a) = Some ToRelation" "fa_choices a = []" "fa_validators a = []"
      "dispatch (fa_mro pk) = Some (ToType b)" "fa_choices pk = []" "plain_attrs ok pk"
    and extra: "set (dict_keys extra) \<inter> (set CONSTRAINTS \<union> {''default'', ''default_factory''}) = {}"
    and run: "convert_django_field text (Field a (Some (Field pk t))) optional extra = Inr (ty, infos)"
  shows "field_accepts py ty infos x \<longleftrightarrow> (fa_pk a \<or> fa_null a) \<and> py_null py x \<or> own_value_ok py ok b pk x"
proof -
  let ?c = "convert_validators (fa_validators pk)"
  let ?t = "if snd ?c = [] then Base b else Annotated (Base b) (snd ?c)"
  let ?extra = "dict_update extra (fst ?c)"
  from plain(6) have vs: "one_per_keyword (fa_validators pk)" "\<forall>v \<in> set (fa_validators pk). plain_validator v" by (auto simp: plain_attrs_def)
  have "fieldinfo_from_field text ?t a optional ?extra = Inr (ty, infos)"
    using run unfolding convert_relation [OF plain(1,4,5)] Let_def .
  note pair = Inr_inject [OF this [unfolded fieldinfo_bare [OF plain(2,3)]]]
  have ty: "ty = (if fa_pk a \<or> fa_null a then OptionalOf ?t else ?t)" by (rule Pair_inject [OF pair]) (erule sym)
  have infos: "infos = dict_update ?extra (default_infos a optional)" by (rule Pair_inject [OF pair]) (erule sym)
  have keys: "set (dict_keys (fst ?c)) \<inter> {''default'', ''default_factory''} = {}"
    using convert_validators_keys [of "fa_validators pk"] constraint_keys_no_default by blast
  have "set (dict_keys ?extra) \<inter> {''default'', ''default_factory''} = {}" unfolding keys_dict_update using keys extra by blast
  moreover have "distinct (dict_keys ?extra)" by (rule distinct_dict_update [OF convert_validators_distinct [OF vs(1)]])
  ultimately have "filter (\<lambda>(k, i). k \<in> set CONSTRAINTS) infos = filter (\<lambda>(k, i). k \<in> set CONSTRAINTS) ?extra"
    unfolding infos by (intro kept_infos_defaults)
  also have "\<dots> = filter (\<lambda>(k, i). k \<in> set CONSTRAINTS) (fst ?c)" using extra by (intro update_other_kept) blast
  finally have "constraints_hold py infos x \<longleftrightarrow> constraints_hold py (fst ?c) x" by (simp add: constraints_hold_def)
  then have "field_accepts py ty infos x \<longleftrightarrow> (fa_pk a \<or> fa_null a) \<and> py_null py x
      \<or> py_base py b x \<and> constraints_hold py (fst ?c) x \<and> (\<forall>c \<in> set (snd ?c). py_check py c x)"
    by (auto simp: ty field_accepts_def)
  then show ?thesis unfolding validators_hold [OF laws vs] by (simp add: own_value_ok_def plain(5))
qed


end
