(* ===== verification/Schema_Registry.thy ===== *)
theory Schema_Registry
  imports Schema_Laws
begin

text \<open>
  The factory over a whole import: whatever classes were created before, a schema declares the
  fields its request selects, and no two schemas share a name.
\<close>

subsection \<open>Names\<close>

lemma show_digits_inj: "inj show_digits"
  by (rule injI) (metis read_show_digits of_nat_eq_iff option.inject)

lemma unique_name_free: "unique_name names n \<notin> set names"
proof (cases "n \<in> set names")
  case True
  let ?cands = "map (\<lambda>k. n @ show_digits k) [2..<length names + 3]"
  have "inj_on (\<lambda>k. n @ show_digits k) (set [2..<length names + 3])" using show_digits_inj by (auto simp: inj_on_def)
  then have "card (set ?cands) = length names + 1" by (simp add: distinct_card distinct_map card_image)
  moreover have "card (set names) \<le> length names" by (rule card_length)
  moreover have "set ?cands \<subseteq> set names \<Longrightarrow> card (set ?cands) \<le> card (set names)" by (rule card_mono) simp_all
  ultimately have "\<not> set ?cands \<subseteq> set names" by linarith
  then have "find (\<lambda>r. r \<notin> set names) ?cands \<noteq> None" unfolding find_None_mem by blast
  then obtain r where "find (\<lambda>r. r \<notin> set names) ?cands = Some r" by blast
  with True find_Some_iff_mem [OF this] show ?thesis by (simp add: unique_name_def)
qed (simp add: unique_name_def)

subsection \<open>Selected fields\<close>

definition virtual_named :: "'v schema_model \<Rightarrow> bool" where
  "virtual_named m \<longleftrightarrow> (\<forall>(n, f) \<in> set (sm_virtual m). fd_name f = n)"

lemma mem_dict_put: "p \<in> set (dict_put k v d) \<Longrightarrow> p = (k, v) \<or> p \<in> set d"
  by (induction d) (auto split: if_splits)

lemma fields_by_name:
  assumes "dict_get (dict_update (map (\<lambda>f. (fd_name f, f)) fs) d) n = Some f" "\<forall>(k, g) \<in> set d. fd_name g = k"
  shows "fd_name f = n"
  using assms
proof (induction fs arbitrary: d)
  case (Cons g fs)
  have "\<forall>(k, h) \<in> set (dict_put (fd_name g) g d). fd_name h = k" using Cons.prems(2) by (auto dest!: mem_dict_put)
  with Cons.IH [of "dict_put (fd_name g) g d"] Cons.prems(1) show ?case by simp
qed (auto dest: map_of_SomeD)

text \<open>What is selected is determined by its name.\<close>

lemma selected_by_name:
  assumes "selected_model_fields m fs ex = Inr selected" "virtual_named m" "f \<in> set selected" "g \<in> set selected" "fd_name f = fd_name g"
  shows "f = g"
proof -
  define all where "all = dict_update (map (\<lambda>f. (fd_name f, f)) (schema_model_fields m)) []"
  define get where "get = (\<lambda>n. case dict_get all n of Some h \<Rightarrow> Some h | None \<Rightarrow> dict_get (sm_virtual m) n)"
  have d: "distinct (dict_keys all)" unfolding all_def by (intro distinct_dict_update) simp
  have named: "dict_get all n = Some h \<Longrightarrow> fd_name h = n" for n h unfolding all_def by (rule fields_by_name) auto
  have sel: "set selected \<subseteq> set (map snd all) \<union> set (List.map_filter get (names_given fs))"
    using assms(1) unfolding selected_model_fields_def Let_def all_def [symmetric] get_def [symmetric] by (auto split: if_splits)
  have "get (fd_name h) = Some h" if "h \<in> set selected" for h
  proof -
    from that sel consider "h \<in> snd ` set all" | "h \<in> set (List.map_filter get (names_given fs))" by auto
    then show ?thesis
    proof cases
      case 1
      then obtain n where "dict_get all n = Some h" using d by (auto simp: map_of_eq_Some_iff)
      with named [of n h] show ?thesis by (simp add: get_def)
    next
      case 2
      then obtain n where n: "get n = Some h" unfolding mem_map_filter by blast
      have "fd_name h = n"
      proof (cases "dict_get all n")
        case None
        with n have "(n, h) \<in> set (sm_virtual m)" by (simp add: get_def map_of_SomeD)
        with assms(2) show ?thesis by (auto simp: virtual_named_def)
      next
        case (Some h')
        with n named [of n h] show ?thesis by (simp add: get_def)
      qed
      with n show ?thesis by simp
    qed
  qed
  from this [OF assms(3)] this [OF assms(4)] have "Some f = Some g" unfolding assms(5) by (rule trans [OF sym])
  then show ?thesis by (rule option.inject [THEN iffD1])
qed

subsection \<open>What a request declares\<close>

definition requested_fields ::
    "('v \<Rightarrow> string option) \<Rightarrow> ('v, 'c) schema_request \<Rightarrow> schema_error + (string \<times> ('v, 'c) field_definition) list" where
  "requested_fields text q =
     result_bind (selected_model_fields (sq_model q) (sq_fields q) (sq_exclude q)) (\<lambda>selected.
     result_bind (result_map (convert_selected text q) selected) (\<lambda>converted.
       Inr (dict_update (map (\<lambda>(n, c). (n, Custom c)) (sq_custom q)) (dict_update converted []))))"

text \<open>The requests that are answered by the same schema: all but the class they derive from.\<close>

definition same_request :: "('v, 'c) schema_request \<Rightarrow> ('v, 'c) schema_request \<Rightarrow> bool" where
  "same_request q r \<longleftrightarrow> sq_model q = sq_model r \<and> sq_fields q = sq_fields r \<and> sq_exclude q = sq_exclude r
     \<and> sq_optional q = sq_optional r \<and> sq_custom q = sq_custom r \<and> sq_extra q = sq_extra r"

lemma same_request_fields: "same_request q r \<Longrightarrow> requested_fields text q = requested_fields text r"
proof -
  assume "same_request q r"
  moreover from this have "convert_selected text q = convert_selected text r"
    by (intro ext) (simp add: convert_selected_def field_overrides_def same_request_def)
  ultimately show ?thesis by (simp add: requested_fields_def same_request_def)
qed

definition empty_factory :: "('v, 'c) factory" where
  "empty_factory = \<lparr>fc_schemas = [], fc_names = []\<rparr>"

definition run_factory ::
    "('v \<Rightarrow> string option) \<Rightarrow> ((string \<times> 'c) list \<Rightarrow> string) \<Rightarrow> ('v, 'c) schema_request list \<Rightarrow> ('v, 'c) factory \<Rightarrow> ('v, 'c) factory" where
  "run_factory text repr qs fc = fold (\<lambda>q fc. case create_schema text repr q fc of Inl e \<Rightarrow> fc | Inr (s, fc') \<Rightarrow> fc') qs fc"

definition factory_ok ::
    "('v \<Rightarrow> string option) \<Rightarrow> ((string \<times> 'c) list \<Rightarrow> string) \<Rightarrow> ('v, 'c) schema_request set \<Rightarrow> ('v, 'c) factory \<Rightarrow> bool" where
  "factory_ok text repr Q fc \<longleftrightarrow>
     distinct (fc_names fc) \<and> distinct (dict_keys (fc_schemas fc)) \<and> map (\<lambda>(k, s). ms_name s) (fc_schemas fc) = fc_names fc
     \<and> (\<forall>(k, s) \<in> set (fc_schemas fc). \<exists>q \<in> Q. get_key repr q = k \<and> requested_fields text q = Inr (ms_fields s))"

lemma create_schema_keeps:
  assumes "factory_ok text repr Q fc" "q \<in> Q" "create_schema text repr q fc = Inr (s, fc')"
  shows "factory_ok text repr Q fc' \<and> (get_key repr q, s) \<in> set (fc_schemas fc')"
proof (cases "dict_get (fc_schemas fc) (get_key repr q)")
  case (Some s0)
  with assms(3) have "s = s0" "fc' = fc" by (auto simp: create_schema_def split: if_splits)
  with assms(1) Some show ?thesis by (auto dest: map_of_SomeD)
next
  case None
  let ?s = "\<lambda>fs. \<lparr>ms_name = unique_name (fc_names fc) (schema_name q), ms_base = sq_base q, ms_fields = fs\<rparr>"
  from assms(3) None obtain fs where fs: "requested_fields text q = Inr fs" "s = ?s fs"
    "fc' = \<lparr>fc_schemas = dict_put (get_key repr q) (?s fs) (fc_schemas fc), fc_names = fc_names fc @ [unique_name (fc_names fc) (schema_name q)]\<rparr>"
    by (auto simp: create_schema_def requested_fields_def Let_def split: if_splits)
  from None have "dict_put (get_key repr q) (?s fs) (fc_schemas fc) = fc_schemas fc @ [(get_key repr q, ?s fs)]"
    by (intro dict_put_fresh) (simp add: dict_get_None_keys)
  with fs(3) have fc': "fc' = \<lparr>fc_schemas = fc_schemas fc @ [(get_key repr q, ?s fs)], fc_names = fc_names fc @ [unique_name (fc_names fc) (schema_name q)]\<rparr>"
    by simp
  have fresh: "get_key repr q \<notin> fst ` set (fc_schemas fc)" using None by (simp add: map_of_eq_None_iff)
  show ?thesis using assms(1,2) fs(1,2) fresh unique_name_free [of "fc_names fc" "schema_name q"]
    unfolding factory_ok_def fc' by auto
qed

lemma run_factory_keeps: "factory_ok text repr Q fc \<Longrightarrow> set qs \<subseteq> Q \<Longrightarrow> factory_ok text repr Q (run_factory text repr qs fc)"
proof (induction qs arbitrary: fc)
  case (Cons q qs)
  have "factory_ok text repr Q (case create_schema text repr q fc of Inl e \<Rightarrow> fc | Inr (s, fc') \<Rightarrow> fc')"
    using create_schema_keeps [OF Cons.prems(1), of q] Cons.prems by (auto split: sum.split)
  with Cons show ?case by (simp add: run_factory_def)
qed (simp add: run_factory_def)

lemma convert_selected_name: "convert_selected text q f = Inr (n, d) \<Longrightarrow> n = fd_name f"
  by (auto simp: convert_selected_def map_sum_def split: sum.splits)

text \<open>The dictionary of the definitions: the converted fields, then the custom ones over them.\<close>

lemma declared_fields:
  assumes conv: "result_map (convert_selected text q) selected = Inr converted"
    and custom: "distinct (dict_keys (sq_custom q))"
    and by_name: "\<And>f g. f \<in> set selected \<Longrightarrow> g \<in> set selected \<Longrightarrow> fd_name f = fd_name g \<Longrightarrow> f = g"
  defines "custom_defs \<equiv> map (\<lambda>(n, c). (n, Custom c)) (sq_custom q)"
  defines "fs \<equiv> dict_update custom_defs (dict_update converted [])"
  shows "set (dict_keys fs) = fd_name ` set selected \<union> set (dict_keys (sq_custom q))"
    "\<forall>(n, c) \<in> set (sq_custom q). dict_get fs n = Some (Custom c)"
    "\<forall>f \<in> set selected. fd_name f \<notin> set (dict_keys (sq_custom q)) \<longrightarrow>
       (\<exists>d. convert_selected text q f = Inr (fd_name f, d) \<and> dict_get fs (fd_name f) = Some d)"
proof -
  have conv_all: "map (convert_selected text q) selected = map Inr converted"
    using conv by (induction selected arbitrary: converted) auto
  have keys: "dict_keys converted = map fd_name selected"
  proof (rule nth_equalityI)
    show "length (dict_keys converted) = length (map fd_name selected)" using conv_all by (metis length_map)
  next
    fix i assume i: "i < length (dict_keys converted)"
    then have "convert_selected text q (selected ! i) = Inr (converted ! i)" using conv_all by (metis length_map nth_map)
    with i conv_all show "dict_keys converted ! i = map fd_name selected ! i"
      by (metis convert_selected_name length_map nth_map prod.collapse)
  qed
  have names: "dict_keys custom_defs = dict_keys (sq_custom q)" by (simp add: custom_defs_def comp_def case_prod_beta)
  show "set (dict_keys fs) = fd_name ` set selected \<union> set (dict_keys (sq_custom q))"
    unfolding fs_def keys_dict_update names keys by auto
  show "\<forall>(n, c) \<in> set (sq_custom q). dict_get fs n = Some (Custom c)"
  proof safe
    fix n c assume "(n, c) \<in> set (sq_custom q)"
    then have "(n, Custom c) \<in> set custom_defs" by (force simp: custom_defs_def)
    moreover have "distinct (dict_keys (rev custom_defs))"
      by (simp only: rev_map [symmetric] distinct_rev names custom)
    ultimately have "dict_get (rev custom_defs) n = Some (Custom c)"
      by (intro map_of_is_SomeI) simp_all
    then show "dict_get fs n = Some (Custom c)" by (simp add: fs_def dict_get_update)
  qed
  show "\<forall>f \<in> set selected. fd_name f \<notin> set (dict_keys (sq_custom q)) \<longrightarrow>
       (\<exists>d. convert_selected text q f = Inr (fd_name f, d) \<and> dict_get fs (fd_name f) = Some d)"
  proof (intro ballI impI)
    fix f assume f: "f \<in> set selected" "fd_name f \<notin> set (dict_keys (sq_custom q))"
    have "dict_get fs (fd_name f) = dict_get (dict_update converted []) (fd_name f)"
      unfolding fs_def using f(2) names by (intro dict_get_update_other) simp
    moreover have "fd_name f \<in> set (dict_keys (dict_update converted []))" unfolding keys_dict_update keys using f(1) by simp
    then obtain d where d: "dict_get (dict_update converted []) (fd_name f) = Some d" by (metis dict_get_None_keys not_None_eq)
    then have "(fd_name f, d) \<in> set converted" by (auto simp: dict_get_update split: option.splits dest!: map_of_SomeD)
    then have "Inr (fd_name f, d) \<in> set (map (convert_selected text q) selected)" unfolding conv_all by simp
    then obtain g where g: "g \<in> set selected" "convert_selected text q g = Inr (fd_name f, d)" by auto
    with convert_selected_name [OF g(2)] by_name [OF f(1) g(1)] have "g = f" by simp
    ultimately show "\<exists>d. convert_selected text q f = Inr (fd_name f, d) \<and> dict_get fs (fd_name f) = Some d" using g(2) d by auto
  qed
qed

subsection \<open>Properties\<close>


subsection \<open>A concrete model\<close>

datatype json = JNull | JText string | JInt int

fun toy_constraint :: "string \<Rightarrow> json info \<Rightarrow> json \<Rightarrow> bool" where
  "toy_constraint k (IText r) (JText s) \<longleftrightarrow> s = r"
| "toy_constraint k (INat n) (JText s) \<longleftrightarrow> (if k = ''min_length'' then n \<le> length s else length s \<le> n)"
| "toy_constraint k (IValue (JInt l)) (JInt i) \<longleftrightarrow> (if k = ''ge'' then l \<le> i else i \<le> l)"
| "toy_constraint k i x \<longleftrightarrow> False"

definition toy_pydantic :: "json pydantic" where
  "toy_pydantic = \<lparr>py_null = (\<lambda>x. x = JNull), py_items = (\<lambda>x. None),
     py_base = (\<lambda>b x. case x of JNull \<Rightarrow> False | JText s \<Rightarrow> b = TStr | JInt i \<Rightarrow> b = TInt),
     py_constraint = toy_constraint, py_check = (\<lambda>c x. x = JText c)\<rparr>"

fun toy_ok :: "json validator \<Rightarrow> json \<Rightarrow> bool" where
  "toy_ok (RegexValidator r inverted beyond) x \<longleftrightarrow> toy_constraint ''pattern'' (IText r) x"
| "toy_ok (MinValueValidator l) x \<longleftrightarrow> toy_constraint ''ge'' (IValue l) x"
| "toy_ok (MaxValueValidator l) x \<longleftrightarrow> toy_constraint ''le'' (IValue l) x"
| "toy_ok (MinLengthValidator n) x \<longleftrightarrow> toy_constraint ''min_length'' (INat n) x"
| "toy_ok (MaxLengthValidator n) x \<longleftrightarrow> toy_constraint ''max_length'' (INat n) x"
| "toy_ok (DecimalValidator d p) x \<longleftrightarrow> toy_constraint ''decimal_places'' (nat_info p) x \<and> toy_constraint ''max_digits'' (nat_info d) x"
| "toy_ok (OtherValidator c) x \<longleftrightarrow> x = JText c"

fun toy_text :: "json \<Rightarrow> string option" where
  "toy_text (JText s) = Some s"
| "toy_text x = None"

lemma toy_laws: "validator_laws toy_pydantic toy_ok"
  by (simp add: validator_laws_def toy_pydantic_def)

definition toy_attrs :: "string \<Rightarrow> string list \<Rightarrow> json validator list \<Rightarrow> json field_attrs" where
  "toy_attrs n mro vs = \<lparr>fa_name = n, fa_attname = n, fa_mro = mro, fa_null = False, fa_blank = False, fa_pk = False,
     fa_default = None, fa_choices = [], fa_validators = vs\<rparr>"

definition country_pk :: "json field_attrs" where
  "country_pk = (toy_attrs ''code'' [''CharField'', ''Field''] [MaxLengthValidator 2])\<lparr>fa_pk := True, fa_default := Some (DCallable ''generate'')\<rparr>"

definition country_key :: "json django_field" where
  "country_key = Field ((toy_attrs ''country'' [''ForeignKey'', ''Field''] [])\<lparr>fa_attname := ''country_id''\<rparr>) (Some (Field country_pk None))"


definition toy_model :: "json schema_model" where
  "toy_model = \<lparr>sm_label = ''contact.Contact'', sm_name = ''Contact'',
     sm_get_fields = [Field (toy_attrs ''id'' [''CharField'', ''Field''] []) None, country_key,
                      Field (toy_attrs ''tags'' [''ManyToOneRel''] []) None],
     sm_virtual = [(''label'', Field (toy_attrs ''label'' [''ComputedField'', ''Field''] [])
                      (Some (Field (toy_attrs ''label'' [''CharField'', ''Field''] []) None)))]\<rparr>"

definition toy_request :: "(json, string) schema_request" where
  "toy_request = \<lparr>sq_model = toy_model, sq_name = ''ContactSchema'', sq_fields = Some [''label'', ''country''], sq_exclude = None,
     sq_optional = Some OptionalAll, sq_custom = [(''extra'', ''int'')], sq_base = ''first.ContactSchema'',
     sq_extra = [(''country'', [(''alias'', IText ''nation'')])]\<rparr>"

definition toy_repr :: "(string \<times> string) list \<Rightarrow> string" where
  "toy_repr cs = concat (map (\<lambda>(n, c). n @ c) cs)"


subsection \<open>What is lost\<close>

text \<open>The key leaves out the class: a second class with the same declarations gets the first one.\<close>

lemma second_class_gets_the_first:
  assumes "create_schema text repr q fc = Inr (s, fc')"
  shows "create_schema text repr (q\<lparr>sq_base := b\<rparr>) fc' = Inr (s, fc')"
  using assms by (auto simp: create_schema_def get_key_def schema_name_def Let_def split: if_splits option.splits)

text \<open>Of two validators with the same keyword the last one is kept, and an inverted one is read as it is written.\<close>

lemma later_validator_wins:
  "convert_validators [RegexValidator r1 False None, RegexValidator r2 False None] = ([(''pattern'', IText r2)], [])"
  by (simp add: convert_validators_def map_filter_simps)

lemma inverted_pattern_is_not:
  "convert_validator (RegexValidator r True None) = convert_validator (RegexValidator r False None)"
  by simp

text \<open>The items of an array keep their type and lose their length.\<close>

lemma array_items_lose_their_length:
  "convert_django_field toy_text (Field (toy_attrs ''codes'' [''ArrayField'', ''Field''] [])
     (Some (Field (toy_attrs ''code'' [''CharField'', ''Field''] [MaxLengthValidator 2]) None))) False []
   = Inr (ListOf (Base TStr), [(''default'', IRequired), (''default_factory'', INone)])"
  by code_simp

end
