(* ===== verification/Computed_Fields.thy ===== *)
theory Computed_Fields
  imports Totem_Prelude
begin

text \<open>
  The declaration of computed fields and the loading of their values
  (\<open>core/orm/fields/computed/field.py\<close>, \<open>core/orm/fields/computed/utils.py\<close>): which declaration becomes
  a generated column, the registries of a model, the checks of the system, the queryset that loads
  virtual fields with its rows, the descriptor that computes one lazily, and the priming of
  instances in memory. An annotation is the value it has on the row of a key, which is what the
  correlated subquery reads; a prefetch method is a function of the instances it is given. An
  instance is its key and its \<open>__dict__\<close>.
\<close>

subsection \<open>Declaration\<close>

text \<open>
  An expression of Django: a subquery, a reference, a node with its sources and whether it is an
  aggregate or a window, and what has no sources: plain values, and the \<open>Q\<close> objects of
  conditions, with the lookups they name.
\<close>

datatype annotation_expr =
    ESubquery
  | EF string
  | ENode bool bool "annotation_expr option list"
  | EQ "string list"
  | EValue

fun is_row_local :: "annotation_expr \<Rightarrow> bool" where
  "is_row_local ESubquery \<longleftrightarrow> False"
| "is_row_local (EF name) \<longleftrightarrow> \<not> occurs_in ''__'' name"
| "is_row_local (ENode aggregate window sources) \<longleftrightarrow>
     \<not> aggregate \<and> \<not> window \<and> list_all (\<lambda>c. case c of None \<Rightarrow> True | Some e \<Rightarrow> is_row_local e) sources"
| "is_row_local (EQ lookups) \<longleftrightarrow> True"
| "is_row_local EValue \<longleftrightarrow> True"

record 'v model_instance =
  in_pk :: "string option"
  in_dict :: "(string \<times> 'v option) list"

type_synonym 'v annotation_method = "string \<Rightarrow> 'v option"
type_synonym 'v prefetch_method = "'v model_instance list \<Rightarrow> (string \<times> 'v) list"

record 'v declared_field =
  dc_name :: string
  dc_stored :: bool
  dc_output :: bool
  dc_depends_on :: "string list"
  dc_annotation :: "'v annotation_method option"
  dc_prefetch :: "'v prefetch_method option"
  dc_null :: bool
  dc_blank :: bool
  dc_editable :: bool

text \<open>
  The arguments of the constructor, its keyword arguments where they are given, and the expression
  its annotation evaluates to, \<open>None\<close> when that raises.
\<close>

record 'v field_arguments =
  ar_output :: bool
  ar_annotation :: "'v annotation_method option"
  ar_expression :: "annotation_expr option"
  ar_prefetch :: "'v prefetch_method option"
  ar_depends_on :: "string list"
  ar_stored :: bool
  ar_null :: "bool option"
  ar_blank :: "bool option"
  ar_editable :: "bool option"

datatype field_error = NeedsOneMethod | NeedsOutputField | VirtualOnAbstract string | NotComputed string | NotVirtual string | NotStored string

datatype 'v declared = GeneratedColumn annotation_expr bool | ComputedColumn "'v declared_field"

definition given_or :: "'a option \<Rightarrow> 'a \<Rightarrow> 'a" where
  "given_or v d = (case v of None \<Rightarrow> d | Some x \<Rightarrow> x)"

text \<open>\<open>ComputedField.__new__\<close>, then \<open>__init__\<close> when it returned a computed field.\<close>

definition init_computed_field :: "string \<Rightarrow> 'v field_arguments \<Rightarrow> field_error + 'v declared_field" where
  "init_computed_field name a =
     (if \<not> ar_stored a \<and> (ar_annotation a = None) = (ar_prefetch a = None) then Inl NeedsOneMethod
      else if \<not> ar_stored a \<and> \<not> ar_output a then Inl NeedsOutputField
      else Inr \<lparr>dc_name = name, dc_stored = ar_stored a, dc_output = ar_output a, dc_depends_on = ar_depends_on a,
                dc_annotation = ar_annotation a, dc_prefetch = ar_prefetch a,
                dc_null = given_or (ar_null a) (ar_stored a), dc_blank = given_or (ar_blank a) (ar_stored a),
                dc_editable = given_or (ar_editable a) (\<not> ar_stored a)\<rparr>)"

definition new_computed_field :: "string \<Rightarrow> 'v field_arguments \<Rightarrow> field_error + 'v declared" where
  "new_computed_field name a =
     (let expression = (if ar_stored a \<and> ar_annotation a \<noteq> None \<and> ar_prefetch a = None then ar_expression a else None)
      in case expression of
           Some e \<Rightarrow> if is_row_local e then Inr (GeneratedColumn e (given_or (ar_null a) True))
                     else map_sum id ComputedColumn (init_computed_field name a)
         | None \<Rightarrow> map_sum id ComputedColumn (init_computed_field name a))"

subsection \<open>The registries of a model\<close>

type_synonym 'v computed_dict = "(string \<times> 'v declared_field) list"

record 'v computed_meta =
  cm_abstract :: bool
  cm_columns :: "string list"
  cm_descriptors :: "string list"
  cm_stored :: "'v computed_dict"
  cm_virtual :: "'v computed_dict"
  cm_annotation :: "'v computed_dict"
  cm_prefetch :: "'v computed_dict"

definition put_if :: "bool \<Rightarrow> string \<Rightarrow> 'v declared_field \<Rightarrow> 'v computed_dict \<Rightarrow> 'v computed_dict" where
  "put_if member name f d = (if member then dict_put name f d else d)"

definition contribute_to_class :: "'v declared_field \<Rightarrow> 'v computed_meta \<Rightarrow> field_error + 'v computed_meta" where
  "contribute_to_class f m =
     (let n = dc_name f;
          registered = (\<lambda>m. m\<lparr>cm_stored := put_if (dc_stored f) n f (cm_stored m),
                             cm_virtual := put_if (\<not> dc_stored f) n f (cm_virtual m),
                             cm_annotation := put_if (dc_annotation f \<noteq> None) n f (cm_annotation m),
                             cm_prefetch := put_if (dc_prefetch f \<noteq> None) n f (cm_prefetch m)\<rparr>)
      in if dc_stored f then Inr (registered (m\<lparr>cm_columns := cm_columns m @ [n]\<rparr>))
         else if cm_abstract m then Inl (VirtualOnAbstract n)
         else Inr (registered (m\<lparr>cm_descriptors := cm_descriptors m @ [n]\<rparr>)))"

definition get_computed_field :: "'v computed_meta \<Rightarrow> string \<Rightarrow> 'v declared_field option" where
  "get_computed_field m name = (case dict_get (cm_stored m) name of Some f \<Rightarrow> Some f | None \<Rightarrow> dict_get (cm_virtual m) name)"

definition has_computed_fields :: "'v computed_meta \<Rightarrow> bool" where
  "has_computed_fields m \<longleftrightarrow> cm_stored m \<noteq> [] \<or> cm_virtual m \<noteq> []"

datatype check_error = E001 string | E002 string | E003 string | E004 string

definition check_computed :: "bool \<Rightarrow> 'v declared_field \<Rightarrow> check_error list" where
  "check_computed queryset_ok f =
     (if \<not> dc_output f then [E001 (dc_name f)] else [])
     @ (if (dc_annotation f = None) = (dc_prefetch f = None) then [E002 (dc_name f)] else [])
     @ (if dc_stored f \<and> dc_depends_on f = [] then [E003 (dc_name f)] else [])
     @ (if \<not> queryset_ok then [E004 (dc_name f)] else [])"

definition check_computed_fields :: "bool \<Rightarrow> 'v computed_meta \<Rightarrow> check_error list" where
  "check_computed_fields queryset_ok m =
     (let seen = dict_update (cm_virtual m) (dict_update (cm_stored m) [])
      in concat (map (\<lambda>(k, f). check_computed queryset_ok f) seen))"

subsection \<open>Values\<close>

definition set_value :: "string \<Rightarrow> 'v option \<Rightarrow> 'v model_instance \<Rightarrow> 'v model_instance" where
  "set_value n v i = i\<lparr>in_dict := dict_put n v (in_dict i)\<rparr>"

definition run_prefetch :: "'v declared_field \<Rightarrow> 'v model_instance list \<Rightarrow> 'v model_instance list" where
  "run_prefetch f xs =
     (case dc_prefetch f of
        None \<Rightarrow> xs
      | Some method \<Rightarrow>
          (let having = filter (\<lambda>i. in_pk i \<noteq> None) xs in
           if having = [] then xs
           else let computed = method having
                in map (\<lambda>i. case in_pk i of None \<Rightarrow> i | Some k \<Rightarrow> set_value (dc_name f) (dict_get computed k) i) xs))"

text \<open>The descriptor of a virtual field: what it answers, and the instance it leaves.\<close>

definition descriptor_get :: "'v declared_field \<Rightarrow> 'v model_instance \<Rightarrow> 'v option \<times> 'v model_instance" where
  "descriptor_get f i =
     (case dict_get (in_dict i) (dc_name f) of
        Some v \<Rightarrow> (v, i)
      | None \<Rightarrow>
          (case in_pk i of
             None \<Rightarrow> (None, i)
           | Some k \<Rightarrow>
               let i' = (case dc_annotation f of
                           Some annotation \<Rightarrow> set_value (dc_name f) (annotation k) i
                         | None \<Rightarrow> hd (run_prefetch f [i]))
               in (Option.bind (dict_get (in_dict i') (dc_name f)) id, i')))"

text \<open>A read that neither the row nor an earlier load answers.\<close>

definition needs_query :: "'v declared_field \<Rightarrow> 'v model_instance \<Rightarrow> bool" where
  "needs_query f i \<longleftrightarrow> dict_get (in_dict i) (dc_name f) = None \<and> in_pk i \<noteq> None"

subsection \<open>Querysets\<close>

record 'v computed_queryset =
  qs_rows :: "'v model_instance list"
  qs_annotations :: "string list"
  qs_prefetch :: "string list"
  qs_models :: bool

fun with_computed_annotation ::
    "'v computed_meta \<Rightarrow> string list \<Rightarrow> 'v computed_queryset \<Rightarrow> field_error + 'v computed_queryset" where
  "with_computed_annotation m [] qs = Inr qs"
| "with_computed_annotation m (n # names) qs =
     (case dict_get (cm_annotation m) n of
        None \<Rightarrow> Inl (NotVirtual n)
      | Some f \<Rightarrow>
          if dc_stored f then Inl (NotVirtual n)
          else with_computed_annotation m names
                 (if n \<in> set (qs_annotations qs) then qs else qs\<lparr>qs_annotations := qs_annotations qs @ [n]\<rparr>))"

definition with_computed_prefetch ::
    "'v computed_meta \<Rightarrow> string list \<Rightarrow> 'v computed_queryset \<Rightarrow> field_error + 'v computed_queryset" where
  "with_computed_prefetch m names qs =
     (case filter (\<lambda>n. case dict_get (cm_prefetch m) n of None \<Rightarrow> True | Some f \<Rightarrow> dc_stored f) names of
        n # ns \<Rightarrow> Inl (NotVirtual n)
      | [] \<Rightarrow> Inr (qs\<lparr>qs_prefetch := uniq (qs_prefetch qs @ names)\<rparr>))"

fun with_computed ::
    "'v computed_meta \<Rightarrow> string list \<Rightarrow> 'v computed_queryset \<Rightarrow> field_error + 'v computed_queryset" where
  "with_computed m [] qs = Inr qs"
| "with_computed m (n # names) qs =
     (case get_computed_field m n of
        None \<Rightarrow> Inl (NotComputed n)
      | Some f \<Rightarrow>
          if dc_stored f then with_computed m names qs
          else result_bind (if dc_annotation f \<noteq> None then with_computed_annotation m [n] qs else with_computed_prefetch m [n] qs)
                 (with_computed m names))"

text \<open>
  The rows of a first fetch: the annotations come with each row, and the prefetch methods run in
  the order of their names, on model instances only.
\<close>

definition annotate_row :: "'v computed_meta \<Rightarrow> string list \<Rightarrow> 'v model_instance \<Rightarrow> 'v model_instance" where
  "annotate_row m names i =
     fold (\<lambda>n i. case Option.bind (dict_get (cm_annotation m) n) dc_annotation of
                   None \<Rightarrow> i
                 | Some annotation \<Rightarrow> set_value n (Option.bind (in_pk i) annotation) i) names i"

definition fetch_all :: "'v computed_meta \<Rightarrow> 'v computed_queryset \<Rightarrow> 'v model_instance list" where
  "fetch_all m qs =
     (let rows = map (annotate_row m (qs_annotations qs)) (qs_rows qs)
      in if qs_models qs
         then fold (\<lambda>n rows. case dict_get (cm_prefetch m) n of None \<Rightarrow> rows | Some f \<Rightarrow> run_prefetch f rows)
                (sort (qs_prefetch qs)) rows
         else rows)"

text \<open>The stored fields a reconciliation names: all of them by default.\<close>

definition refresh_names :: "'v computed_meta \<Rightarrow> string list \<Rightarrow> field_error + string list" where
  "refresh_names m names =
     (let wanted = (if names = [] then dict_keys (cm_stored m) else names)
      in case filter (\<lambda>n. n \<notin> set (dict_keys (cm_stored m))) wanted of [] \<Rightarrow> Inr wanted | n # ns \<Rightarrow> Inl (NotStored n))"

text \<open>
  \<open>prime_computed_values\<close>: stored values are read back from their columns, virtual ones computed,
  on the instances whose row is there. \<open>db\<close> is the row of a key.
\<close>

definition prime_computed_values ::
    "'v computed_meta \<Rightarrow> (string \<Rightarrow> 'v model_instance option) \<Rightarrow> string list option \<Rightarrow> 'v model_instance list \<Rightarrow> field_error + 'v model_instance list" where
  "prime_computed_values m db names xs =
     (let wanted = (case names of None \<Rightarrow> dict_keys (cm_stored m) @ dict_keys (cm_virtual m) | Some ns \<Rightarrow> ns)
      in if list_all (\<lambda>i. in_pk i = None) xs then Inr xs
         else result_bind (result_map (\<lambda>n. case get_computed_field m n of None \<Rightarrow> Inl (NotComputed n) | Some f \<Rightarrow> Inr f) wanted) (\<lambda>selected.
        let columns = filter dc_stored selected;
            annotations = filter (\<lambda>f. \<not> dc_stored f \<and> dc_annotation f \<noteq> None) selected;
            prefetches = filter (\<lambda>f. \<not> dc_stored f \<and> dc_prefetch f \<noteq> None) selected;
            read = (\<lambda>i. case Option.bind (in_pk i) db of
                          None \<Rightarrow> i
                        | Some row \<Rightarrow>
                            fold (\<lambda>f. set_value (dc_name f) (Option.bind (in_pk i) (the (dc_annotation f)))) annotations
                              (fold (\<lambda>f. set_value (dc_name f) (Option.bind (dict_get (in_dict row) (dc_name f)) id)) columns i))
        in Inr (fold run_prefetch prefetches (map read xs))))"

end
