(* ===== verification/Computed_Field_Laws.thy ===== *)
theory Computed_Field_Laws
  imports Computed_Fields
begin

text \<open>
  A declaration sits in the registries its arguments put it in, and a queryset that was asked for
  computed fields returns instances that answer them without a query, with the values the lazy
  descriptor computes.
\<close>

subsection \<open>Registries\<close>

definition empty_meta :: "'v computed_meta" where
  "empty_meta = \<lparr>cm_abstract = False, cm_columns = [], cm_descriptors = [], cm_stored = [], cm_virtual = [],
     cm_annotation = [], cm_prefetch = []\<rparr>"

fun declare_fields :: "'v declared_field list \<Rightarrow> 'v computed_meta \<Rightarrow> field_error + 'v computed_meta" where
  "declare_fields [] m = Inr m"
| "declare_fields (f # fs) m = result_bind (contribute_to_class f m) (declare_fields fs)"

lemma get_put_if: "dict_get (put_if b n f d) k = (if b \<and> k = n then Some f else dict_get d k)"
  by (simp add: put_if_def)

text \<open>What a registry holds under a name: the field declared so, when it belongs there.\<close>

lemma declared_registry:
  assumes "declare_fields fs m0 = Inr m" "distinct (map dc_name fs)"
    and reg: "(P, sel) \<in> {(dc_stored, cm_stored), (\<lambda>f. \<not> dc_stored f, cm_virtual),
      (\<lambda>f. dc_annotation f \<noteq> None, cm_annotation), (\<lambda>f. dc_prefetch f \<noteq> None, cm_prefetch)}"
  shows "dict_get (sel m) n = (case find (\<lambda>f. dc_name f = n) fs of
      Some f \<Rightarrow> if P f then Some f else dict_get (sel m0) n | None \<Rightarrow> dict_get (sel m0) n)"
  using assms(1,2)
proof (induction fs arbitrary: m0)
  case (Cons f fs)
  from Cons.prems(1) obtain m1 where m1: "contribute_to_class f m0 = Inr m1" "declare_fields fs m1 = Inr m" by auto
  from Cons.IH [OF m1(2)] Cons.prems(2) have IH: "dict_get (sel m) n = (case find (\<lambda>f. dc_name f = n) fs of
      Some g \<Rightarrow> if P g then Some g else dict_get (sel m1) n | None \<Rightarrow> dict_get (sel m1) n)" by simp
  have step: "dict_get (sel m1) n = (if P f \<and> n = dc_name f then Some f else dict_get (sel m0) n)"
    using m1(1) reg by (auto simp: contribute_to_class_def Let_def get_put_if split: if_splits)
  show ?case
  proof (cases "dc_name f = n")
    case True
    with Cons.prems(2) have "n \<notin> dc_name ` set fs" by simp
    then have "find (\<lambda>f. dc_name f = n) fs = None" by (force simp: find_None_mem)
    with IH step True show ?thesis by simp
  next
    case False
    with IH step show ?thesis by (simp split: option.splits)
  qed
qed simp

lemma declared_registries:
  assumes "declare_fields fs empty_meta = Inr m" "distinct (map dc_name fs)"
  shows "dict_get (cm_stored m) n = (case find (\<lambda>f. dc_name f = n) fs of Some f \<Rightarrow> if dc_stored f then Some f else None | None \<Rightarrow> None)"
    "dict_get (cm_virtual m) n = (case find (\<lambda>f. dc_name f = n) fs of Some f \<Rightarrow> if dc_stored f then None else Some f | None \<Rightarrow> None)"
    "dict_get (cm_annotation m) n = (case find (\<lambda>f. dc_name f = n) fs of Some f \<Rightarrow> if dc_annotation f = None then None else Some f | None \<Rightarrow> None)"
    "dict_get (cm_prefetch m) n = (case find (\<lambda>f. dc_name f = n) fs of Some f \<Rightarrow> if dc_prefetch f = None then None else Some f | None \<Rightarrow> None)"
  using declared_registry [OF assms, of dc_stored cm_stored n] declared_registry [OF assms, of "\<lambda>f. \<not> dc_stored f" cm_virtual n]
    declared_registry [OF assms, of "\<lambda>f. dc_annotation f \<noteq> None" cm_annotation n]
    declared_registry [OF assms, of "\<lambda>f. dc_prefetch f \<noteq> None" cm_prefetch n]
  by (simp_all add: empty_meta_def split: option.splits)

lemma find_by_name: "distinct (map dc_name fs) \<Longrightarrow> f \<in> set fs \<Longrightarrow> find (\<lambda>g. dc_name g = dc_name f) fs = Some f"
  by (induction fs) auto

lemma declared_member:
  assumes "declare_fields fs empty_meta = Inr m" "distinct (map dc_name fs)" "f \<in> set fs"
  shows "dict_get (cm_stored m) (dc_name f) = (if dc_stored f then Some f else None)"
    "dict_get (cm_virtual m) (dc_name f) = (if dc_stored f then None else Some f)"
    "dict_get (cm_annotation m) (dc_name f) = (if dc_annotation f = None then None else Some f)"
    "dict_get (cm_prefetch m) (dc_name f) = (if dc_prefetch f = None then None else Some f)"
  by (simp_all add: declared_registries [OF assms(1,2)] find_by_name [OF assms(2,3)])

lemma declared_none:
  assumes "declare_fields fs empty_meta = Inr m" "distinct (map dc_name fs)" "n \<notin> dc_name ` set fs"
  shows "dict_get (cm_stored m) n = None" "dict_get (cm_virtual m) n = None"
proof -
  have "find (\<lambda>f. dc_name f = n) fs = None" using assms(3) by (auto simp: find_None_mem)
  then show "dict_get (cm_stored m) n = None" "dict_get (cm_virtual m) n = None"
    by (simp_all add: declared_registries [OF assms(1,2)])
qed

lemma declared_lookup:
  assumes "declare_fields fs empty_meta = Inr m" "distinct (map dc_name fs)"
  shows "get_computed_field m n = find (\<lambda>f. dc_name f = n) fs"
proof (cases "find (\<lambda>f. dc_name f = n) fs")
  case None
  then have "n \<notin> dc_name ` set fs" by (auto simp: find_None_mem)
  with None declared_none [OF assms this] show ?thesis by (simp add: get_computed_field_def)
next
  case (Some f)
  with find_Some_iff_mem [OF Some] declared_member(1,2) [OF assms, of f] show ?thesis by (auto simp: get_computed_field_def)
qed

text \<open>A model that passes the checks has one method per field.\<close>

lemma checked_field:
  assumes "declare_fields fs empty_meta = Inr m" "distinct (map dc_name fs)" "check_computed_fields ok m = []" "f \<in> set fs"
  shows "check_computed ok f = []"
proof -
  have reg: "distinct (dict_keys (cm_stored m)) \<and> distinct (dict_keys (cm_virtual m))"
    if "declare_fields fs m0 = Inr m" "distinct (dict_keys (cm_stored m0)) \<and> distinct (dict_keys (cm_virtual m0))" for fs m0
    using that by (induction fs arbitrary: m0)
      (fastforce simp: contribute_to_class_def Let_def put_if_def distinct_dict_put split: if_splits)+
  have d: "distinct (dict_keys (cm_stored m))" "distinct (dict_keys (cm_virtual m))"
    using reg [OF assms(1)] by (simp_all add: empty_meta_def)
  let ?seen = "dict_update (cm_virtual m) (dict_update (cm_stored m) [])"
  have "dict_get ?seen (dc_name f) = Some f"
    using declared_member(1,2) [OF assms(1,2,4)] d by (simp add: dict_update_get)
  then have "(dc_name f, f) \<in> set ?seen" by (rule map_of_SomeD)
  with assms(3) show ?thesis unfolding check_computed_fields_def Let_def by (auto simp: concat_eq_Nil_conv)
qed

lemma checked_one_method: "check_computed ok f = [] \<Longrightarrow> (dc_annotation f = None) \<noteq> (dc_prefetch f = None)"
  by (simp add: check_computed_def split: if_splits)

subsection \<open>Loading\<close>

text \<open>
  The contract of a method: the value of a field on the row of a key does not depend on the other
  rows it is computed with.
\<close>

definition value_law :: "'v declared_field \<Rightarrow> (string \<Rightarrow> 'v option) \<Rightarrow> bool" where
  "value_law f v \<longleftrightarrow>
     (\<forall>a. dc_annotation f = Some a \<longrightarrow> a = v)
     \<and> (\<forall>p. dc_prefetch f = Some p \<longrightarrow> (\<forall>xs k. (\<exists>i \<in> set xs. in_pk i = Some k) \<longrightarrow> dict_get (p xs) k = v k))"

definition loaded :: "'v declared_field \<Rightarrow> (string \<Rightarrow> 'v option) \<Rightarrow> 'v model_instance \<Rightarrow> bool" where
  "loaded f v i \<longleftrightarrow> (\<forall>k. in_pk i = Some k \<longrightarrow> dict_get (in_dict i) (dc_name f) = Some (v k))"

lemma loaded_answers:
  "loaded f v i \<Longrightarrow> in_pk i = Some k \<Longrightarrow> \<not> needs_query f i \<and> descriptor_get f i = (v k, i)"
  by (simp add: loaded_def needs_query_def descriptor_get_def)

lemma run_prefetch_one:
  assumes "dc_prefetch f = Some p" "value_law f v" "i \<in> set (run_prefetch f xs)"
  shows "loaded f v i \<and> (\<exists>j \<in> set xs. in_pk i = in_pk j \<and> (\<forall>n. n \<noteq> dc_name f \<longrightarrow> dict_get (in_dict i) n = dict_get (in_dict j) n))"
proof (cases "filter (\<lambda>i. in_pk i \<noteq> None) xs = []")
  case True
  with assms(1,3) have i: "i \<in> set xs" by (simp add: run_prefetch_def)
  with True have "in_pk i = None" unfolding filter_empty_conv by blast
  with i show ?thesis by (auto simp: loaded_def intro!: bexI [of _ i])
next
  case False
  define having where "having = filter (\<lambda>i. in_pk i \<noteq> None) xs"
  have "run_prefetch f xs = map (\<lambda>j. case in_pk j of None \<Rightarrow> j | Some k \<Rightarrow> set_value (dc_name f) (dict_get (p having) k) j) xs"
    using False assms(1) unfolding run_prefetch_def Let_def having_def by simp
  with assms(3) obtain j where j: "j \<in> set xs"
    "i = (case in_pk j of None \<Rightarrow> j | Some k \<Rightarrow> set_value (dc_name f) (dict_get (p having) k) j)" by auto
  have "dict_get (p having) k = v k" if "in_pk j = Some k" for k
  proof -
    have "\<exists>i \<in> set having. in_pk i = Some k" using j(1) that by (auto simp: having_def)
    with assms(1,2) show ?thesis by (simp add: value_law_def)
  qed
  with j show ?thesis by (cases "in_pk j") (auto simp: loaded_def set_value_def intro!: bexI [of _ j])
qed

lemma run_prefetch_pks: "map in_pk (run_prefetch f xs) = map in_pk xs"
  by (auto simp: run_prefetch_def Let_def set_value_def comp_def split: option.splits intro!: map_cong)

text \<open>The lazy descriptor computes the same value.\<close>

lemma lazy_value:
  assumes "(dc_annotation f = None) \<noteq> (dc_prefetch f = None)" "value_law f v"
    "in_pk i = Some k" "dict_get (in_dict i) (dc_name f) = None"
  shows "fst (descriptor_get f i) = v k"
proof (cases "dc_annotation f")
  case None
  with assms(1) obtain p where p: "dc_prefetch f = Some p" by auto
  have "length (run_prefetch f [i]) = 1" using run_prefetch_pks [of f "[i]"] by (metis length_map length_Cons list.size(3) One_nat_def)
  then obtain i' where i': "run_prefetch f [i] = [i']" by (cases "run_prefetch f [i]") auto
  with run_prefetch_one [OF p assms(2), of i' "[i]"] assms(3) have "dict_get (in_dict i') (dc_name f) = Some (v k)" by (simp add: loaded_def)
  with i' None assms(3,4) show ?thesis by (simp add: descriptor_get_def Let_def)
next
  case (Some a)
  with assms show ?thesis by (simp add: descriptor_get_def value_law_def set_value_def)
qed

lemma with_computed_annotation_single:
  "with_computed_annotation m [n] qs = (case dict_get (cm_annotation m) n of
     None \<Rightarrow> Inl (NotVirtual n)
   | Some f \<Rightarrow> if dc_stored f then Inl (NotVirtual n)
       else Inr (if n \<in> set (qs_annotations qs) then qs else qs\<lparr>qs_annotations := qs_annotations qs @ [n]\<rparr>))"
  by (simp split: option.split)

text \<open>What a queryset is asked for: the virtual names, by the way each is computed.\<close>

definition virtual_names :: "'v declared_field list \<Rightarrow> ('v declared_field \<Rightarrow> bool) \<Rightarrow> string list \<Rightarrow> string set" where
  "virtual_names fs P names = dc_name ` {f \<in> set fs. dc_name f \<in> set names \<and> \<not> dc_stored f \<and> P f}"

lemma virtual_names_Cons:
  assumes "distinct (map dc_name fs)" "f \<in> set fs"
  shows "virtual_names fs P (dc_name f # names) = (if \<not> dc_stored f \<and> P f then {dc_name f} else {}) \<union> virtual_names fs P names"
proof -
  have "g = f" if "g \<in> set fs" "dc_name g = dc_name f" for g using that assms by (metis distinct_map_unique)
  then show ?thesis using assms(2) by (auto simp: virtual_names_def)
qed

lemma with_computed_result:
  assumes "declare_fields fs empty_meta = Inr m" "distinct (map dc_name fs)"
    and "\<forall>f \<in> set fs. (dc_annotation f = None) \<noteq> (dc_prefetch f = None)"
  shows "(case with_computed m names qs of
      Inl e \<Rightarrow> \<not> set names \<subseteq> dc_name ` set fs
    | Inr qs' \<Rightarrow> set names \<subseteq> dc_name ` set fs \<and> qs_rows qs' = qs_rows qs \<and> qs_models qs' = qs_models qs
        \<and> set (qs_annotations qs') = set (qs_annotations qs) \<union> virtual_names fs (\<lambda>f. dc_annotation f \<noteq> None) names
        \<and> set (qs_prefetch qs') = set (qs_prefetch qs) \<union> virtual_names fs (\<lambda>f. dc_prefetch f \<noteq> None) names)"
proof (induction names arbitrary: qs)
  case (Cons n names)
  show ?case
  proof (cases "find (\<lambda>f. dc_name f = n) fs")
    case None
    then have "n \<notin> dc_name ` set fs" by (force simp: find_None_mem)
    with None show ?thesis by (simp add: declared_lookup [OF assms(1,2)])
  next
    case (Some f)
    then have f: "f \<in> set fs" "dc_name f = n" using find_Some_iff_mem [OF Some] by auto
    then have n: "n \<in> dc_name ` set fs" by blast
    note names = virtual_names_Cons [OF assms(2) f(1), unfolded f(2)]
    note member = declared_member(3,4) [OF assms(1,2) f(1), unfolded f(2)]
    have lookup: "get_computed_field m n = Some f" using Some by (simp add: declared_lookup [OF assms(1,2)])
    consider "dc_stored f" | "\<not> dc_stored f" "dc_annotation f \<noteq> None" "dc_prefetch f = None"
      | "\<not> dc_stored f" "dc_annotation f = None" "dc_prefetch f \<noteq> None" using bspec [OF assms(3) f(1)] by argo
    then obtain qs1 where "with_computed m (n # names) qs = with_computed m names qs1" "qs_rows qs1 = qs_rows qs" "qs_models qs1 = qs_models qs"
      "set (qs_annotations qs1) = (if \<not> dc_stored f \<and> dc_annotation f \<noteq> None then {n} else {}) \<union> set (qs_annotations qs)"
      "set (qs_prefetch qs1) = (if \<not> dc_stored f \<and> dc_prefetch f \<noteq> None then {n} else {}) \<union> set (qs_prefetch qs)"
    proof cases
      case 1
      then show ?thesis using that [of qs] lookup by simp
    next
      case 2
      have "dict_get (cm_annotation m) n = Some f" using member 2 by simp
      note member = this
      show ?thesis
      proof (cases "n \<in> set (qs_annotations qs)")
        case True
        with 2 show ?thesis using that [of qs] lookup member by (simp add: with_computed_annotation_single insert_absorb)
      next
        case False
        with 2 show ?thesis using that [of "qs\<lparr>qs_annotations := qs_annotations qs @ [n]\<rparr>"] lookup member
          by (simp add: with_computed_annotation_single)
      qed
    next
      case 3
      have "dict_get (cm_prefetch m) n = Some f" using member 3 by simp
      with 3 show ?thesis using that [of "qs\<lparr>qs_prefetch := uniq (qs_prefetch qs @ [n])\<rparr>"] lookup
        by (simp add: with_computed_prefetch_def)
    qed
    then show ?thesis using Cons.IH [of qs1] n names by (auto split: sum.split)
  qed
qed (simp add: virtual_names_def)

text \<open>The rows of a fetch, before and after the prefetch methods.\<close>

lemma annotate_row_other:
  "n \<notin> set names \<Longrightarrow> dict_get (in_dict (annotate_row m names i)) n = dict_get (in_dict i) n"
  by (induction names arbitrary: i) (simp_all add: annotate_row_def set_value_def split: option.split)

lemma annotate_row_pk: "in_pk (annotate_row m names i) = in_pk i"
  by (induction names arbitrary: i) (simp_all add: annotate_row_def set_value_def split: option.split)

lemma annotate_row_value:
  assumes "n \<in> set names" "dict_get (cm_annotation m) n = Some f" "dc_annotation f = Some v" "in_pk i = Some k"
  shows "dict_get (in_dict (annotate_row m names i)) n = Some (v k)"
  using assms(1,4)
proof (induction names arbitrary: i)
  case (Cons a names)
  define i1 where "i1 = annotate_row m [a] i"
  have i1: "annotate_row m (a # names) i = annotate_row m names i1" by (simp add: i1_def annotate_row_def)
  have pk: "in_pk i1 = Some k" using Cons.prems(2) by (simp add: i1_def annotate_row_pk)
  show ?case
  proof (cases "n \<in> set names")
    case True
    from Cons.IH [OF True pk] show ?thesis unfolding i1 .
  next
    case False
    with Cons.prems(1) have "a = n" by simp
    then have "dict_get (in_dict i1) n = Some (v k)" using assms(2,3) Cons.prems(2) by (simp add: i1_def annotate_row_def set_value_def)
    then show ?thesis unfolding i1 annotate_row_other [OF False] .
  qed
qed simp

text \<open>What a run of prefetch methods leaves: every value it computes, and everything under other names.\<close>

lemma fold_prefetch_pks: "map in_pk (fold run_prefetch gs rows) = map in_pk rows"
  by (induction gs arbitrary: rows) (simp_all add: run_prefetch_pks)

lemma fold_prefetch_loads:
  assumes "i \<in> set (fold run_prefetch gs rows)" "\<forall>g \<in> set gs. dc_prefetch g \<noteq> None \<and> value_law g (v g)"
    and "\<forall>g \<in> set gs. \<forall>h \<in> set gs. dc_name g = dc_name h \<longrightarrow> g = h"
  shows "(\<forall>g \<in> set gs. loaded g (v g) i)
    \<and> (\<exists>j \<in> set rows. in_pk i = in_pk j \<and> (\<forall>n. n \<notin> dc_name ` set gs \<longrightarrow> dict_get (in_dict i) n = dict_get (in_dict j) n))"
  using assms
proof (induction gs arbitrary: i rule: rev_induct)
  case (snoc g gs)
  from snoc.prems obtain p where p: "dc_prefetch g = Some p" "value_law g (v g)" by auto
  from snoc.prems(1) have "i \<in> set (run_prefetch g (fold run_prefetch gs rows))" by simp
  from run_prefetch_one [OF p this] obtain j where j: "loaded g (v g) i" "j \<in> set (fold run_prefetch gs rows)" "in_pk i = in_pk j"
    "\<And>n. n \<noteq> dc_name g \<Longrightarrow> dict_get (in_dict i) n = dict_get (in_dict j) n" by blast
  from snoc.IH [OF j(2)] snoc.prems(2,3) obtain r where loads: "\<And>h. h \<in> set gs \<Longrightarrow> loaded h (v h) j"
    and r: "r \<in> set rows" "in_pk j = in_pk r" "\<And>n. n \<notin> dc_name ` set gs \<Longrightarrow> dict_get (in_dict j) n = dict_get (in_dict r) n" by auto
  have "loaded h (v h) i" if "h \<in> set (gs @ [g])" for h
  proof (cases "h = g")
    case False
    with that snoc.prems(3) have "h \<in> set gs" "dc_name h \<noteq> dc_name g" by auto
    with loads [of h] j(3,4) show ?thesis by (simp add: loaded_def)
  qed (simp add: j(1))
  moreover have "\<forall>n. n \<notin> dc_name ` set (gs @ [g]) \<longrightarrow> dict_get (in_dict i) n = dict_get (in_dict r) n" using j(4) r(3) by simp
  moreover have "in_pk i = in_pk r" using j(3) r(2) by simp
  ultimately show ?case using r(1) by blast
qed auto

lemma fetch_all_folds:
  "qs_models qs \<Longrightarrow> fetch_all m qs
     = fold run_prefetch (List.map_filter (dict_get (cm_prefetch m)) (sort (qs_prefetch qs))) (map (annotate_row m (qs_annotations qs)) (qs_rows qs))"
proof -
  have "fold (\<lambda>n rows. case dict_get (cm_prefetch m) n of None \<Rightarrow> rows | Some f \<Rightarrow> run_prefetch f rows) names rows
      = fold run_prefetch (List.map_filter (dict_get (cm_prefetch m)) names) rows" for names rows
    by (induction names arbitrary: rows) (simp_all add: List.map_filter_simps split: option.split)
  then show "qs_models qs \<Longrightarrow> ?thesis" by (simp add: fetch_all_def)
qed

subsection \<open>Priming\<close>

lemma fold_set_pk: "in_pk (fold (\<lambda>f. set_value (dc_name f) (w f)) gs i) = in_pk i"
  by (induction gs arbitrary: i) (simp_all add: set_value_def)

lemma fold_set_other:
  "n \<notin> dc_name ` set gs \<Longrightarrow> dict_get (in_dict (fold (\<lambda>f. set_value (dc_name f) (w f)) gs i)) n = dict_get (in_dict i) n"
  by (induction gs arbitrary: i) (simp_all add: set_value_def)

lemma fold_set_value:
  assumes "g \<in> set gs" "\<forall>g \<in> set gs. \<forall>h \<in> set gs. dc_name g = dc_name h \<longrightarrow> g = h"
  shows "dict_get (in_dict (fold (\<lambda>f. set_value (dc_name f) (w f)) gs i)) (dc_name g) = Some (w g)"
  using assms
proof (induction gs rule: rev_induct)
  case (snoc h gs)
  show ?case
  proof (cases "h = g")
    case True
    then show ?thesis by (simp add: set_value_def)
  next
    case False
    with snoc.prems have "g \<in> set gs" "dc_name h \<noteq> dc_name g" by auto
    with snoc.IH snoc.prems(2) show ?thesis by (simp add: set_value_def)
  qed
qed simp

text \<open>
  Instances in memory whose rows are there: the stored fields are those of the row, the virtual ones
  are computed.
\<close>

lemma primed_values:
  assumes decl: "declare_fields fs empty_meta = Inr m" "distinct (map dc_name fs)"
    and one: "\<forall>f \<in> set fs. (dc_annotation f = None) \<noteq> (dc_prefetch f = None)" and law: "\<forall>f \<in> set fs. value_law f (v f)"
    and prime: "prime_computed_values m db (Some names) xs = Inr ys"
    and row: "y \<in> set ys" "in_pk y = Some k" "db k = Some r" and f: "f \<in> set fs" "dc_name f \<in> set names"
  shows "if dc_stored f then dict_get (in_dict y) (dc_name f) = Some (Option.bind (dict_get (in_dict r) (dc_name f)) id)
     else loaded f (v f) y"
proof (cases "list_all (\<lambda>i. in_pk i = None) xs")
  case True
  with prime row(1,2) show ?thesis by (auto simp: prime_computed_values_def list_all_iff)
next
  case False
  let ?lookup = "\<lambda>n. case get_computed_field m n of None \<Rightarrow> Inl (NotComputed n) | Some f \<Rightarrow> Inr f"
  from prime False obtain selected where sel: "result_map ?lookup names = Inr selected"
    unfolding prime_computed_values_def Let_def by (auto split: if_splits)
  have "set selected = {g. \<exists>n \<in> set names. get_computed_field m n = Some g}"
    using sel by (induction names arbitrary: selected) (auto split: option.splits)
  then have mem: "g \<in> set selected \<longleftrightarrow> g \<in> set fs \<and> dc_name g \<in> set names" for g
    unfolding declared_lookup [OF decl] using find_by_name [OF decl(2)] find_Some_iff_mem by fastforce
  have names: "g = h" if "g \<in> set selected" "h \<in> set selected" "dc_name g = dc_name h" for g h
    using that decl(2) unfolding mem by (metis distinct_map_unique)
  define columns where "columns = filter dc_stored selected"
  define annotations where "annotations = filter (\<lambda>f. \<not> dc_stored f \<and> dc_annotation f \<noteq> None) selected"
  define prefetches where "prefetches = filter (\<lambda>f. \<not> dc_stored f \<and> dc_prefetch f \<noteq> None) selected"
  define read where "read = (\<lambda>i. case Option.bind (in_pk i) db of None \<Rightarrow> i
    | Some row \<Rightarrow> fold (\<lambda>f. set_value (dc_name f) (Option.bind (in_pk i) (the (dc_annotation f)))) annotations
        (fold (\<lambda>f. set_value (dc_name f) (Option.bind (dict_get (in_dict row) (dc_name f)) id)) columns i))"
  have ys: "ys = fold run_prefetch prefetches (map read xs)"
    using prime False sel unfolding prime_computed_values_def Let_def columns_def annotations_def prefetches_def read_def by simp
  have laws: "\<forall>g \<in> set prefetches. dc_prefetch g \<noteq> None \<and> value_law g (v g)"
    "\<forall>g \<in> set prefetches. \<forall>h \<in> set prefetches. dc_name g = dc_name h \<longrightarrow> g = h"
    using law names by (auto simp: prefetches_def mem)
  from fold_prefetch_loads [OF row(1) [unfolded ys] laws] obtain i where asked: "\<And>g. g \<in> set prefetches \<Longrightarrow> loaded g (v g) y"
    and i: "i \<in> set xs" "in_pk y = in_pk (read i)" "\<And>n. n \<notin> dc_name ` set prefetches \<Longrightarrow> dict_get (in_dict y) n = dict_get (in_dict (read i)) n"
    by auto
  have "in_pk (read i) = in_pk i" by (simp add: read_def fold_set_pk split: option.split)
  with i(2) row(2) have pk: "in_pk i = Some k" by simp
  with row(3) have readi: "read i = fold (\<lambda>f. set_value (dc_name f) (Option.bind (in_pk i) (the (dc_annotation f)))) annotations
        (fold (\<lambda>f. set_value (dc_name f) (Option.bind (dict_get (in_dict r) (dc_name f)) id)) columns i)"
    by (simp add: read_def)
  have fsel: "f \<in> set selected" using f by (simp add: mem)
  consider "dc_stored f" | "\<not> dc_stored f" "dc_prefetch f \<noteq> None"
    | a where "\<not> dc_stored f" "dc_prefetch f = None" "dc_annotation f = Some a"
    using bspec [OF one f(1)] by (metis option.exhaust)
  then show ?thesis
  proof cases
    case 1
    with fsel names have "f \<in> set columns" "dc_name f \<notin> dc_name ` set annotations" "dc_name f \<notin> dc_name ` set prefetches"
      by (auto simp: columns_def annotations_def prefetches_def)
    with 1 i(3) readi pk fold_set_value [of f columns] names show ?thesis by (auto simp: fold_set_other columns_def)
  next
    case 2
    with fsel have "f \<in> set prefetches" by (simp add: prefetches_def)
    with 2 asked show ?thesis by simp
  next
    case 3
    with fsel have "f \<in> set annotations" by (simp add: annotations_def)
    moreover have "g = f" if "g \<in> set selected" "dc_name g = dc_name f" for g using names [OF that(1) fsel that(2)] .
    then have "dc_name f \<notin> dc_name ` set prefetches" using 3(2) by (auto simp: prefetches_def)
    moreover have "a = v f" using law f(1) 3(3) by (simp add: value_law_def)
    moreover have "\<forall>g \<in> set annotations. \<forall>h \<in> set annotations. dc_name g = dc_name h \<longrightarrow> g = h"
      using names by (auto simp: annotations_def)
    then have "dict_get (in_dict (read i)) (dc_name f) = Some (Option.bind (in_pk i) (the (dc_annotation f)))"
      unfolding readi by (rule fold_set_value [OF \<open>f \<in> set annotations\<close>])
    ultimately show ?thesis using 3 i(3) pk row(2) by (simp add: loaded_def)
  qed
qed

subsection \<open>Properties\<close>

text \<open>
  C39: a queryset asked for the computed fields of a model that passes the checks gives the same rows,
  and each of them answers every virtual field it was asked for without a query, with the value the
  descriptor would compute on its own. Only a name that is not a computed field is refused.
\<close>

theorem computed_values_are_loaded:
  assumes "declare_fields fs empty_meta = Inr m" "distinct (map dc_name fs)" "check_computed_fields True m = []"
    and "\<forall>f \<in> set fs. value_law f (v f)"
    and "\<forall>r \<in> set rows. in_pk r \<noteq> None \<and> (\<forall>f \<in> set fs. \<not> dc_stored f \<longrightarrow> dict_get (in_dict r) (dc_name f) = None)"
  shows "case with_computed m names \<lparr>qs_rows = rows, qs_annotations = [], qs_prefetch = [], qs_models = True\<rparr> of
      Inl e \<Rightarrow> \<not> set names \<subseteq> dc_name ` set fs
    | Inr qs \<Rightarrow> set names \<subseteq> dc_name ` set fs \<and> map in_pk (fetch_all m qs) = map in_pk rows
        \<and> (\<forall>i \<in> set (fetch_all m qs). \<forall>f \<in> set fs. dc_name f \<in> set names \<longrightarrow> \<not> dc_stored f \<longrightarrow>
             \<not> needs_query f i \<and> descriptor_get f i = (v f (the (in_pk i)), i)
             \<and> (\<forall>r \<in> set rows. in_pk r = in_pk i \<longrightarrow> fst (descriptor_get f r) = v f (the (in_pk i))))"
proof -
  let ?qs0 = "\<lparr>qs_rows = rows, qs_annotations = [], qs_prefetch = [], qs_models = True\<rparr>"
  have one: "\<forall>f \<in> set fs. (dc_annotation f = None) \<noteq> (dc_prefetch f = None)"
    by (intro ballI checked_one_method [OF checked_field [OF assms(1-3)]])
  note result = with_computed_result [OF assms(1,2) one, of names ?qs0]
  show ?thesis
  proof (cases "with_computed m names ?qs0")
    case (Inl e)
    with result show ?thesis by simp
  next
    case (Inr qs)
    with result have qs: "set names \<subseteq> dc_name ` set fs" "qs_rows qs = rows" "qs_models qs"
      "set (qs_annotations qs) = virtual_names fs (\<lambda>f. dc_annotation f \<noteq> None) names"
      "set (qs_prefetch qs) = virtual_names fs (\<lambda>f. dc_prefetch f \<noteq> None) names" by simp_all
    let ?rows = "map (annotate_row m (qs_annotations qs)) rows"
    let ?gs = "List.map_filter (dict_get (cm_prefetch m)) (sort (qs_prefetch qs))"
    have fetched: "fetch_all m qs = fold run_prefetch ?gs ?rows" using fetch_all_folds [OF qs(3), of m] qs(2) by simp
    have pks: "map in_pk (fetch_all m qs) = map in_pk rows"
      unfolding fetched fold_prefetch_pks by (simp add: comp_def annotate_row_pk)
    have reg: "dc_name g = n \<and> g \<in> set fs \<and> dc_prefetch g \<noteq> None" if g: "dict_get (cm_prefetch m) n = Some g" for n g
    proof (cases "find (\<lambda>f. dc_name f = n) fs")
      case (Some h)
      with g declared_registries(4) [OF assms(1,2), of n] have "dc_prefetch h \<noteq> None" "h = g" by (simp_all split: if_splits)
      with find_Some_iff_mem [OF Some] show ?thesis by simp
    qed (use g declared_registries(4) [OF assms(1,2), of n] in simp)
    then have gs: "g \<in> set ?gs \<longleftrightarrow> dict_get (cm_prefetch m) (dc_name g) = Some g \<and> dc_name g \<in> set (qs_prefetch qs)" for g
      unfolding mem_map_filter set_sort by blast
    have law: "\<forall>g \<in> set ?gs. dc_prefetch g \<noteq> None \<and> value_law g (v g)"
    proof
      fix g assume "g \<in> set ?gs"
      then have "dict_get (cm_prefetch m) (dc_name g) = Some g" unfolding gs ..
      from reg [OF this] assms(4) show "dc_prefetch g \<noteq> None \<and> value_law g (v g)" by simp
    qed
    have names: "\<forall>g \<in> set ?gs. \<forall>h \<in> set ?gs. dc_name g = dc_name h \<longrightarrow> g = h"
    proof (intro ballI impI)
      fix g h assume "g \<in> set ?gs" "h \<in> set ?gs" "dc_name g = dc_name h"
      then have "Some g = Some h" unfolding gs by argo
      then show "g = h" by simp
    qed
    have loads: "loaded f (v f) i" if i: "i \<in> set (fetch_all m qs)" and f: "f \<in> set fs" "dc_name f \<in> set names" "\<not> dc_stored f" for i f
    proof -
      from fold_prefetch_loads [OF i [unfolded fetched] law names] obtain r where asked: "\<And>g. g \<in> set ?gs \<Longrightarrow> loaded g (v g) i"
        and r: "r \<in> set ?rows" "in_pk i = in_pk r" "\<And>n. n \<notin> dc_name ` set ?gs \<Longrightarrow> dict_get (in_dict i) n = dict_get (in_dict r) n"
        by blast
      show ?thesis
      proof (cases "dc_prefetch f")
        case (Some p)
        have "dc_name f \<in> set (qs_prefetch qs)" using f Some by (auto simp: qs(5) virtual_names_def)
        moreover have "dict_get (cm_prefetch m) (dc_name f) = Some f" using declared_member(4) [OF assms(1,2) f(1)] Some by simp
        ultimately show ?thesis by (intro asked) (simp add: gs)
      next
        case None
        with one f(1) obtain a where a: "dc_annotation f = Some a" by auto
        with assms(4) f(1) have "a = v f" by (simp add: value_law_def)
        have "g = f" if "g \<in> set fs" "dc_name g = dc_name f" for g using that f(1) assms(2) by (metis distinct_map_unique)
        with None have "dc_name f \<notin> set (qs_prefetch qs)" by (auto simp: qs(5) virtual_names_def)
        then have "dc_name f \<notin> dc_name ` set ?gs" by (auto simp: gs)
        with r(3) have same: "dict_get (in_dict i) (dc_name f) = dict_get (in_dict r) (dc_name f)" by simp
        from r(1) obtain r0 where r0: "r = annotate_row m (qs_annotations qs) r0" by auto
        have "dc_name f \<in> set (qs_annotations qs)" using f a by (auto simp: qs(4) virtual_names_def)
        moreover have "dict_get (cm_annotation m) (dc_name f) = Some f" using declared_member(3) [OF assms(1,2) f(1)] a by simp
        ultimately show ?thesis using annotate_row_value [of "dc_name f" "qs_annotations qs" m f a r0] a \<open>a = v f\<close> same r(2)
          by (auto simp: loaded_def r0 annotate_row_pk)
      qed
    qed
    have "\<not> needs_query f i \<and> descriptor_get f i = (v f (the (in_pk i)), i)
        \<and> (\<forall>r \<in> set rows. in_pk r = in_pk i \<longrightarrow> fst (descriptor_get f r) = v f (the (in_pk i)))"
      if i: "i \<in> set (fetch_all m qs)" and f: "f \<in> set fs" "dc_name f \<in> set names" "\<not> dc_stored f" for i f
    proof -
      have "in_pk i \<in> set (map in_pk rows)" unfolding pks [symmetric] using i by simp
      with assms(5) obtain k where k: "in_pk i = Some k" by auto
      have "fst (descriptor_get f r) = v f k" if "r \<in> set rows" "in_pk r = in_pk i" for r
        using lazy_value [of f "v f" r k] one assms(4,5) f that k by auto
      with loaded_answers [OF loads [OF i f] k] k show ?thesis by simp
    qed
    with Inr qs(1) pks show ?thesis by auto
  qed
qed

subsection \<open>A concrete model\<close>

definition toy_label :: "nat declared_field" where
  "toy_label = \<lparr>dc_name = ''label'', dc_stored = False, dc_output = True, dc_depends_on = [],
     dc_annotation = Some (\<lambda>k. Some (length k)), dc_prefetch = None, dc_null = False, dc_blank = False, dc_editable = True\<rparr>"

definition toy_count :: "nat declared_field" where
  "toy_count = toy_label\<lparr>dc_name := ''count'', dc_annotation := None,
     dc_prefetch := Some (\<lambda>xs. List.map_filter (\<lambda>i. map_option (\<lambda>k. (k, 7)) (in_pk i)) xs)\<rparr>"

definition toy_stored :: "nat declared_field" where
  "toy_stored = toy_label\<lparr>dc_name := ''stored'', dc_stored := True, dc_depends_on := [''lines__price'']\<rparr>"

definition toy_rows :: "nat model_instance list" where
  "toy_rows = [\<lparr>in_pk = Some ''a'', in_dict = [(''stored'', Some 3)]\<rparr>, \<lparr>in_pk = Some ''bb'', in_dict = [(''stored'', None)]\<rparr>]"

lemma toy_count_law: "value_law toy_count (\<lambda>k. Some 7)"
proof -
  have "dict_get (List.map_filter (\<lambda>i. map_option (\<lambda>k. (k, 7 :: nat)) (in_pk i)) xs) k = Some 7"
    if "\<exists>i \<in> set xs. in_pk i = Some k" for xs :: "nat model_instance list" and k
    using that by (induction xs) (auto simp: List.map_filter_simps split: option.splits)
  then show ?thesis by (simp add: value_law_def toy_count_def)
qed

theorem computed_values_are_loaded_witness:
  "\<exists>m qs i. declare_fields [toy_label, toy_count, toy_stored] empty_meta = Inr m
     \<and> with_computed m [''count'', ''stored'', ''label''] \<lparr>qs_rows = toy_rows, qs_annotations = [], qs_prefetch = [], qs_models = True\<rparr> = Inr qs
     \<and> i \<in> set (fetch_all m qs) \<and> in_pk i = Some ''bb''
     \<and> descriptor_get toy_label i = (Some 2, i) \<and> descriptor_get toy_count i = (Some 7, i)"
proof -
  let ?fs = "[toy_label, toy_count, toy_stored]"
  let ?qs0 = "\<lparr>qs_rows = toy_rows, qs_annotations = [], qs_prefetch = [], qs_models = True\<rparr>"
  let ?v = "\<lambda>f k. if dc_name f = ''count'' then Some 7 else Some (length k)"
  obtain m where m: "declare_fields ?fs empty_meta = Inr m"
    by (simp add: contribute_to_class_def toy_label_def toy_count_def toy_stored_def empty_meta_def Let_def)
  have d: "distinct (map dc_name ?fs)" by (simp add: toy_label_def toy_count_def toy_stored_def)
  have checks: "check_computed_fields True m = []"
    using m by (auto simp: contribute_to_class_def toy_label_def toy_count_def toy_stored_def empty_meta_def Let_def put_if_def
        check_computed_fields_def check_computed_def)
  have law: "\<forall>f \<in> set ?fs. value_law f (?v f)"
    using toy_count_law by (auto simp: value_law_def toy_label_def toy_stored_def toy_count_def)
  have rows: "\<forall>r \<in> set toy_rows. in_pk r \<noteq> None \<and> (\<forall>f \<in> set ?fs. \<not> dc_stored f \<longrightarrow> dict_get (in_dict r) (dc_name f) = None)"
    by (simp add: toy_rows_def toy_label_def toy_count_def toy_stored_def)
  note loads = computed_values_are_loaded [OF m d checks law rows, of "[''count'', ''stored'', ''label'']"]
  have "set [''count'', ''stored'', ''label''] \<subseteq> dc_name ` set ?fs" by (simp add: toy_label_def toy_count_def toy_stored_def)
  with loads obtain qs where qs: "with_computed m [''count'', ''stored'', ''label''] ?qs0 = Inr qs"
    by (cases "with_computed m [''count'', ''stored'', ''label''] ?qs0") auto
  from loads qs have pks: "map in_pk (fetch_all m qs) = [Some ''a'', Some ''bb'']" by (simp add: toy_rows_def)
  then have "Some ''bb'' \<in> set (map in_pk (fetch_all m qs))" by simp
  then obtain i where i: "i \<in> set (fetch_all m qs)" "in_pk i = Some ''bb''" by auto
  from loads qs i have "\<forall>f \<in> set ?fs. dc_name f \<in> {''count'', ''stored'', ''label''} \<longrightarrow> \<not> dc_stored f \<longrightarrow> descriptor_get f i = (?v f ''bb'', i)"
    by auto
  then have "descriptor_get toy_label i = (Some 2, i)" "descriptor_get toy_count i = (Some 7, i)"
    by (simp_all add: toy_label_def toy_count_def toy_stored_def)
  with m qs i show ?thesis by blast
qed

subsection \<open>Generated columns\<close>

text \<open>The lookups an expression reads.\<close>

fun lookups_read :: "annotation_expr \<Rightarrow> string set" where
  "lookups_read ESubquery = {}"
| "lookups_read (EF name) = {name}"
| "lookups_read (ENode aggregate window sources) = (\<Union>c \<in> set sources. case c of None \<Rightarrow> {} | Some e \<Rightarrow> lookups_read e)"
| "lookups_read (EQ lookups) = set lookups"
| "lookups_read EValue = {}"

fun has_condition :: "annotation_expr \<Rightarrow> bool" where
  "has_condition (ENode aggregate window sources) \<longleftrightarrow> list_ex (\<lambda>c. case c of None \<Rightarrow> False | Some e \<Rightarrow> has_condition e) sources"
| "has_condition (EQ lookups) \<longleftrightarrow> True"
| "has_condition e \<longleftrightarrow> False"

text \<open>Without a condition, a stored field becomes a generated column only when it reads its own row.\<close>

lemma generated_reads_its_row:
  assumes "new_computed_field name a = Inr (GeneratedColumn e nullable)" "\<not> has_condition e" "n \<in> lookups_read e"
  shows "ar_stored a \<and> \<not> occurs_in ''__'' n"
proof -
  have "is_row_local e' \<Longrightarrow> \<not> has_condition e' \<Longrightarrow> n \<in> lookups_read e' \<Longrightarrow> \<not> occurs_in ''__'' n" for e'
    by (induction e' rule: is_row_local.induct) (fastforce simp: list_all_iff list_ex_iff split: option.splits)+
  moreover from assms(1) have "is_row_local e" "ar_stored a"
    by (auto simp: new_computed_field_def Let_def map_sum_def split: option.splits if_splits sum.splits)
  ultimately show ?thesis using assms(2,3) by blast
qed

text \<open>A condition has no sources to look into: one on a relation is taken for one on the row.\<close>

lemma condition_taken_for_local:
  "is_row_local (ENode False False [Some (ENode False False [Some (EQ [''parent__status'']), Some EValue])])"
  by simp

end
