(* ===== verification/Environments.thy ===== *)
theory Environments
  imports Totem_Prelude
begin

text \<open>
  What the services of one unit of work share (\<open>core/services/environment.py\<close>), and the request that
  holds one (\<open>core/api/request.py\<close>). Environments are objects: a world keeps them in the order they
  are built, an environment is its place in it. Services, users and the context of the computed
  fields are numbers; the world counts the contexts and logs the services it built and the role
  queries it ran.
\<close>

subsection \<open>Environments\<close>

type_synonym user_id = nat
type_synonym context_values = "(string \<times> string) list"

record environment =
  en_user :: "user_id option"
  en_language :: string
  en_tz :: string
  en_context :: context_values
  en_services :: "(string \<times> nat) list"
  en_roles :: "string list option"
  en_refresh :: nat
  en_extra :: "string list"

record world =
  wo_envs :: "environment list"
  wo_built :: "(nat \<times> string) list"
  wo_role_queries :: "nat list"
  wo_refreshes :: nat

record env_settings =
  es_language :: string
  es_tz :: string

datatype env_error = ReadOnly string | NoService string

text \<open>The attributes \<open>__init__\<close> sets, each of them once.\<close>

definition ENV_ATTRIBUTES :: "string list" where
  "ENV_ATTRIBUTES = [''user'', ''language'', ''tz'', ''context'', ''_services'', ''_cache'', ''_computed_refresh'']"

definition new_environment ::
    "env_settings \<Rightarrow> user_id option \<Rightarrow> string option \<Rightarrow> string option \<Rightarrow> context_values option \<Rightarrow> nat option \<Rightarrow> world \<Rightarrow> nat \<times> world" where
  "new_environment st user language tz ctx refresh w =
     (let (r, fresh) = (case refresh of None \<Rightarrow> (wo_refreshes w, Suc (wo_refreshes w)) | Some r \<Rightarrow> (r, wo_refreshes w));
          e = \<lparr>en_user = user, en_language = (case language of None \<Rightarrow> es_language st | Some l \<Rightarrow> l),
               en_tz = (case tz of None \<Rightarrow> es_tz st | Some z \<Rightarrow> z), en_context = (case ctx of None \<Rightarrow> [] | Some c \<Rightarrow> c),
               en_services = [], en_roles = None, en_refresh = r, en_extra = []\<rparr>
      in (length (wo_envs w), w\<lparr>wo_envs := wo_envs w @ [e], wo_refreshes := fresh\<rparr>))"

definition env_setattr :: "nat \<Rightarrow> string \<Rightarrow> world \<Rightarrow> env_error + world" where
  "env_setattr i name w =
     (let e = wo_envs w ! i in
      if name \<in> set ENV_ATTRIBUTES \<or> name \<in> set (en_extra e) then Inl (ReadOnly name)
      else Inr (w\<lparr>wo_envs := (wo_envs w)[i := e\<lparr>en_extra := name # en_extra e\<rparr>]\<rparr>))"

text \<open>\<open>get\<close>: the instance of a service class, built once.\<close>

definition environment_get :: "nat \<Rightarrow> string \<Rightarrow> world \<Rightarrow> nat \<times> world" where
  "environment_get i service_class w =
     (let e = wo_envs w ! i in
      case dict_get (en_services e) service_class of
        Some s \<Rightarrow> (s, w)
      | None \<Rightarrow>
          (let s = length (wo_built w) in
           (s, w\<lparr>wo_envs := (wo_envs w)[i := e\<lparr>en_services := dict_put service_class s (en_services e)\<rparr>],
                wo_built := wo_built w @ [(i, service_class)]\<rparr>)))"

text \<open>\<open>env[model]\<close>, through the registry of the services by model.\<close>

definition env_getitem :: "(string \<times> string) list \<Rightarrow> nat \<Rightarrow> string \<Rightarrow> world \<Rightarrow> env_error + nat \<times> world" where
  "env_getitem registry i model w =
     (case dict_get registry model of None \<Rightarrow> Inl (NoService model) | Some service_class \<Rightarrow> Inr (environment_get i service_class w))"

definition env_contains :: "(string \<times> string) list \<Rightarrow> string \<Rightarrow> bool" where
  "env_contains registry model \<longleftrightarrow> model \<in> set (dict_keys registry)"

text \<open>\<open>env(...)\<close>: what is not given is kept, and the context of the computed fields is shared.\<close>

definition env_call ::
    "env_settings \<Rightarrow> nat \<Rightarrow> user_id option \<Rightarrow> string option \<Rightarrow> string option \<Rightarrow> context_values option \<Rightarrow> world \<Rightarrow> nat \<times> world" where
  "env_call st i user language tz ctx w =
     (let e = wo_envs w ! i in
      new_environment st (case user of None \<Rightarrow> en_user e | Some u \<Rightarrow> Some u)
        (Some (case language of None \<Rightarrow> en_language e | Some l \<Rightarrow> l)) (Some (case tz of None \<Rightarrow> en_tz e | Some z \<Rightarrow> z))
        (Some (case ctx of None \<Rightarrow> en_context e | Some c \<Rightarrow> c)) (Some (en_refresh e)) w)"

definition computed_refresh :: "nat \<Rightarrow> world \<Rightarrow> nat" where
  "computed_refresh i w = en_refresh (wo_envs w ! i)"

text \<open>The roles of the acting user, read once; nobody has none.\<close>

definition get_access_roles :: "(user_id \<Rightarrow> string list) \<Rightarrow> nat \<Rightarrow> world \<Rightarrow> string list \<times> world" where
  "get_access_roles roles_of i w =
     (let e = wo_envs w ! i in
      case en_roles e of
        Some roles \<Rightarrow> (roles, w)
      | None \<Rightarrow>
          (let roles = (case en_user e of None \<Rightarrow> [] | Some u \<Rightarrow> roles_of u);
               w' = (case en_user e of None \<Rightarrow> w | Some u \<Rightarrow> w\<lparr>wo_role_queries := wo_role_queries w @ [i]\<rparr>)
           in (roles, w'\<lparr>wo_envs := (wo_envs w')[i := e\<lparr>en_roles := Some roles\<rparr>]\<rparr>)))"

subsection \<open>Requests\<close>

text \<open>
  What Django hands over: the credential found by the authenticators, if any, with the user it
  carries, if any; the user the middleware set; the headers.
\<close>

record http_request =
  hr_auth :: "user_id option option"
  hr_user :: "user_id option"
  hr_meta :: "(string \<times> string) list"

record request =
  rq_http :: http_request
  rq_env :: "nat option"

definition wrap_request :: "http_request \<Rightarrow> request" where
  "wrap_request h = \<lparr>rq_http = h, rq_env = None\<rparr>"

definition content_type :: "request \<Rightarrow> string" where
  "content_type r =
     (case dict_get (hr_meta (rq_http r)) ''CONTENT_TYPE'' of
        Some t \<Rightarrow> t
      | None \<Rightarrow> str_or (dict_get (hr_meta (rq_http r)) ''HTTP_CONTENT_TYPE'') [])"

definition get_request_user :: "request \<Rightarrow> user_id option" where
  "get_request_user r = (case hr_auth (rq_http r) of Some user \<Rightarrow> user | None \<Rightarrow> hr_user (rq_http r))"

definition request_env :: "env_settings \<Rightarrow> request \<Rightarrow> world \<Rightarrow> nat \<times> request \<times> world" where
  "request_env st r w =
     (case rq_env r of
        Some i \<Rightarrow> (i, r, w)
      | None \<Rightarrow>
          (let (i, w') = new_environment st (get_request_user r) (Some (es_language st)) (Some (es_tz st)) None None w
           in (i, r\<lparr>rq_env := Some i\<rparr>, w')))"

end
