(* ===== verification/Environment_Laws.thy ===== *)
theory Environment_Laws
  imports Environments
begin

text \<open>
  Over the life of a world: an environment keeps what it was built with, builds each service once and
  reads its roles once, and everything derived from it records its writes in one context.
\<close>

datatype env_op =
    OpNew "user_id option" "context_values option"
  | OpCall nat "user_id option" "string option" "string option" "context_values option"
  | OpSet nat string
  | OpGet nat string
  | OpItem nat string
  | OpRoles nat

fun env_step :: "env_settings \<Rightarrow> (string \<times> string) list \<Rightarrow> (user_id \<Rightarrow> string list) \<Rightarrow> env_op \<Rightarrow> world \<Rightarrow> world" where
  "env_step st reg roles_of (OpNew user ctx) w = snd (new_environment st user None None ctx None w)"
| "env_step st reg roles_of (OpCall i user language tz ctx) w =
     (if i < length (wo_envs w) then snd (env_call st i user language tz ctx w) else w)"
| "env_step st reg roles_of (OpSet i name) w =
     (if i < length (wo_envs w) then case env_setattr i name w of Inl e \<Rightarrow> w | Inr w' \<Rightarrow> w' else w)"
| "env_step st reg roles_of (OpGet i c) w = (if i < length (wo_envs w) then snd (environment_get i c w) else w)"
| "env_step st reg roles_of (OpItem i m) w =
     (if i < length (wo_envs w) then case env_getitem reg i m w of Inl e \<Rightarrow> w | Inr (s, w') \<Rightarrow> w' else w)"
| "env_step st reg roles_of (OpRoles i) w = (if i < length (wo_envs w) then snd (get_access_roles roles_of i w) else w)"

definition env_run :: "env_settings \<Rightarrow> (string \<times> string) list \<Rightarrow> (user_id \<Rightarrow> string list) \<Rightarrow> env_op list \<Rightarrow> world \<Rightarrow> world" where
  "env_run st reg roles_of ops w = fold (env_step st reg roles_of) ops w"

definition empty_world :: world where
  "empty_world = \<lparr>wo_envs = [], wo_built = [], wo_role_queries = [], wo_refreshes = 0\<rparr>"

subsection \<open>What a step keeps\<close>

text \<open>What an environment was built with.\<close>

definition fixed_part :: "environment \<Rightarrow> user_id option \<times> string \<times> string \<times> context_values \<times> nat" where
  "fixed_part e = (en_user e, en_language e, en_tz e, en_context e, en_refresh e)"

definition later_env :: "environment \<Rightarrow> environment \<Rightarrow> bool" where
  "later_env e e' \<longleftrightarrow> fixed_part e' = fixed_part e
     \<and> (\<forall>c s. dict_get (en_services e) c = Some s \<longrightarrow> dict_get (en_services e') c = Some s)
     \<and> (en_roles e \<noteq> None \<longrightarrow> en_roles e' = en_roles e)"

definition later_world :: "world \<Rightarrow> world \<Rightarrow> bool" where
  "later_world w w' \<longleftrightarrow> length (wo_envs w) \<le> length (wo_envs w')
     \<and> (\<forall>i < length (wo_envs w). later_env (wo_envs w ! i) (wo_envs w' ! i))"

definition world_ok :: "(user_id \<Rightarrow> string list) \<Rightarrow> world \<Rightarrow> bool" where
  "world_ok roles_of w \<longleftrightarrow>
     distinct (wo_built w) \<and> distinct (wo_role_queries w)
     \<and> (\<forall>(i, c) \<in> set (wo_built w). i < length (wo_envs w) \<and> dict_get (en_services (wo_envs w ! i)) c \<noteq> None)
     \<and> (\<forall>i \<in> set (wo_role_queries w). i < length (wo_envs w) \<and> en_roles (wo_envs w ! i) \<noteq> None)
     \<and> (\<forall>i < length (wo_envs w). \<forall>r. en_roles (wo_envs w ! i) = Some r \<longrightarrow>
          r = (case en_user (wo_envs w ! i) of None \<Rightarrow> [] | Some u \<Rightarrow> roles_of u))"

lemma later_world_refl: "later_world w w"
  by (simp add: later_world_def later_env_def)

lemma later_world_trans: "later_world w w' \<Longrightarrow> later_world w' w'' \<Longrightarrow> later_world w w''"
  by (fastforce simp: later_world_def later_env_def)

text \<open>A world with one environment changed, or one more.\<close>

lemma later_world_update:
  assumes "wo_envs w' = (wo_envs w)[i := e]" "i < length (wo_envs w) \<Longrightarrow> later_env (wo_envs w ! i) e"
  shows "later_world w w'"
  using assms by (cases "i < length (wo_envs w)") (auto simp: later_world_def later_env_def nth_list_update list_update_beyond)

lemma later_world_append: "wo_envs w' = wo_envs w @ [e] \<Longrightarrow> later_world w w'"
  by (auto simp: later_world_def later_env_def nth_append)

lemma new_environment_keeps:
  assumes "world_ok roles_of w" "new_environment st user language tz ctx refresh w = (i, w')"
  shows "world_ok roles_of w' \<and> later_world w w' \<and> i = length (wo_envs w) \<and> length (wo_envs w') = Suc i
    \<and> en_user (wo_envs w' ! i) = user \<and> (\<forall>r. refresh = Some r \<longrightarrow> en_refresh (wo_envs w' ! i) = r)"
proof -
  obtain e where w': "wo_envs w' = wo_envs w @ [e]" "wo_built w' = wo_built w" "wo_role_queries w' = wo_role_queries w"
    and i: "i = length (wo_envs w)"
    and e: "en_roles e = None" "en_user e = user" "\<forall>r. refresh = Some r \<longrightarrow> en_refresh e = r"
    using assms(2) by (auto simp: new_environment_def Let_def split: option.splits)
  have "later_world w w'" by (rule later_world_append) (simp add: w')
  moreover have "world_ok roles_of w'"
    using assms(1) e(1) by (auto simp: world_ok_def w' nth_append)
  ultimately show ?thesis using i e by (simp add: w')
qed

lemma environment_get_keeps:
  assumes "world_ok roles_of w" "i < length (wo_envs w)" "environment_get i c w = (s, w')"
  shows "world_ok roles_of w' \<and> later_world w w' \<and> dict_get (en_services (wo_envs w' ! i)) c = Some s"
proof (cases "dict_get (en_services (wo_envs w ! i)) c")
  case (Some s')
  with assms show ?thesis by (simp add: environment_get_def later_world_refl)
next
  case None
  let ?e = "wo_envs w ! i"
  from None assms(3) have w': "w' = w\<lparr>wo_envs := (wo_envs w)[i := ?e\<lparr>en_services := dict_put c s (en_services ?e)\<rparr>], wo_built := wo_built w @ [(i, c)]\<rparr>"
    by (auto simp: environment_get_def Let_def)
  have "later_world w w'" by (rule later_world_update [of _ _ i]) (use None in \<open>auto simp: w' later_env_def fixed_part_def\<close>)
  moreover have "(i, c) \<notin> set (wo_built w)" using assms(1) None by (auto simp: world_ok_def)
  then have "world_ok roles_of w'" using assms(1,2) by (fastforce simp: world_ok_def w' nth_list_update split: if_splits)
  ultimately show ?thesis using assms(2) by (simp add: w')
qed

lemma env_setattr_keeps:
  assumes "world_ok roles_of w" "i < length (wo_envs w)" "env_setattr i name w = Inr w'"
  shows "world_ok roles_of w' \<and> later_world w w'"
proof -
  let ?e = "wo_envs w ! i"
  from assms(3) have w': "w' = w\<lparr>wo_envs := (wo_envs w)[i := ?e\<lparr>en_extra := name # en_extra ?e\<rparr>]\<rparr>"
    by (auto simp: env_setattr_def Let_def split: if_splits)
  have "later_world w w'" by (rule later_world_update [of _ _ i]) (auto simp: w' later_env_def fixed_part_def)
  moreover have "world_ok roles_of w'" using assms(1,2) by (fastforce simp: world_ok_def w' nth_list_update split: if_splits)
  ultimately show ?thesis by simp
qed

lemma get_access_roles_keeps:
  assumes "world_ok roles_of w" "i < length (wo_envs w)" "get_access_roles roles_of i w = (r, w')"
  shows "world_ok roles_of w' \<and> later_world w w' \<and> en_roles (wo_envs w' ! i) = Some r
    \<and> r = (case en_user (wo_envs w ! i) of None \<Rightarrow> [] | Some u \<Rightarrow> roles_of u)"
proof (cases "en_roles (wo_envs w ! i)")
  case (Some r')
  with assms show ?thesis by (auto simp: get_access_roles_def later_world_refl world_ok_def)
next
  case None
  let ?e = "wo_envs w ! i"
  let ?r = "case en_user ?e of None \<Rightarrow> [] | Some u \<Rightarrow> roles_of u"
  let ?q = "case en_user ?e of None \<Rightarrow> wo_role_queries w | Some u \<Rightarrow> wo_role_queries w @ [i]"
  from None assms(3) have r: "r = ?r" and w': "w' = w\<lparr>wo_envs := (wo_envs w)[i := ?e\<lparr>en_roles := Some ?r\<rparr>], wo_role_queries := ?q\<rparr>"
    by (auto simp: get_access_roles_def Let_def split: option.splits)
  have "later_world w w'" by (rule later_world_update [of _ _ i]) (use None in \<open>auto simp: w' later_env_def fixed_part_def\<close>)
  moreover have "i \<notin> set (wo_role_queries w)" using assms(1) None by (auto simp: world_ok_def)
  then have q: "distinct ?q" "set ?q \<subseteq> insert i (set (wo_role_queries w))" using assms(1) by (auto simp: world_ok_def split: option.splits)
  have "world_ok roles_of w'"
    using assms(1,2) q by (fastforce simp: world_ok_def w' nth_list_update split: if_splits)
  ultimately show ?thesis using assms(2) r by (simp add: w')
qed

lemma env_step_keeps: "world_ok roles_of w \<Longrightarrow> world_ok roles_of (env_step st reg roles_of op w) \<and> later_world w (env_step st reg roles_of op w)"
proof (cases op)
  case (OpNew user ctx)
  assume "world_ok roles_of w"
  then show ?thesis using new_environment_keeps [of roles_of w st user None None ctx None] by (simp add: OpNew prod_eq_iff)
next
  case (OpCall i user language tz ctx)
  assume "world_ok roles_of w"
  then show ?thesis unfolding OpCall env_step.simps env_call_def Let_def
    using new_environment_keeps [of roles_of w st] later_world_refl by (simp add: prod_eq_iff)
next
  case (OpSet i name)
  assume "world_ok roles_of w"
  then show ?thesis using env_setattr_keeps [of roles_of w i name] by (auto simp: OpSet later_world_refl split: sum.split)
next
  case (OpGet i c)
  assume "world_ok roles_of w"
  then show ?thesis using environment_get_keeps [of roles_of w i c] by (simp add: OpGet later_world_refl prod_eq_iff)
next
  case (OpItem i m)
  assume "world_ok roles_of w"
  then show ?thesis using environment_get_keeps [of roles_of w i]
    by (auto simp: OpItem later_world_refl env_getitem_def split: sum.split option.splits)
next
  case (OpRoles i)
  assume "world_ok roles_of w"
  then show ?thesis using get_access_roles_keeps [of roles_of w i] by (simp add: OpRoles later_world_refl prod_eq_iff)
qed

lemma env_run_keeps: "world_ok roles_of w \<Longrightarrow> world_ok roles_of (env_run st reg roles_of ops w) \<and> later_world w (env_run st reg roles_of ops w)"
proof (induction ops arbitrary: w)
  case (Cons op ops)
  from env_step_keeps [OF Cons.prems, of st reg op] Cons.IH show ?case
    using later_world_trans by (fastforce simp: env_run_def)
qed (simp add: env_run_def later_world_refl)

lemma empty_world_ok: "world_ok roles_of empty_world"
  by (simp add: world_ok_def empty_world_def)

subsection \<open>Properties\<close>

text \<open>
  Whatever happens to the environments of a process, one of them keeps its user, language,
  timezone and context; a service it was asked for is the same instance ever after and was built
  once; its roles are those of its user and are read at most once; and an environment derived from
  it records its writes in the same context of computed fields.
\<close>

theorem environment_is_fixed_and_shared:
  assumes "i < length (wo_envs (env_run st reg roles_of before empty_world))"
    and "environment_get i c (env_run st reg roles_of before empty_world) = (s, w1)" "w2 = env_run st reg roles_of after w1"
  shows "fixed_part (wo_envs w2 ! i) = fixed_part (wo_envs (env_run st reg roles_of before empty_world) ! i)
    \<and> environment_get i c w2 = (s, w2) \<and> distinct (wo_built w2) \<and> distinct (wo_role_queries w2)
    \<and> fst (get_access_roles roles_of i w2) = (case en_user (wo_envs w2 ! i) of None \<Rightarrow> [] | Some u \<Rightarrow> roles_of u)
    \<and> (\<forall>user language tz ctx j w3. env_call st i user language tz ctx w2 = (j, w3) \<longrightarrow>
         computed_refresh j w3 = computed_refresh i w3 \<and> computed_refresh i w3 = computed_refresh i w1)"
proof -
  let ?w = "env_run st reg roles_of before empty_world"
  have ok: "world_ok roles_of ?w" using env_run_keeps [OF empty_world_ok] by blast
  note got = environment_get_keeps [OF ok assms(1,2)]
  from env_run_keeps [of roles_of w1 st reg after] got assms(3) have ok2: "world_ok roles_of w2" and later2: "later_world w1 w2" by simp_all
  have i: "i < length (wo_envs w1)" "i < length (wo_envs w2)" using assms(1) got later2 by (auto simp: later_world_def)
  have env1: "later_env (wo_envs ?w ! i) (wo_envs w1 ! i)" and env2: "later_env (wo_envs w1 ! i) (wo_envs w2 ! i)"
    using assms(1) got later2 i by (auto simp: later_world_def)
  then have "fixed_part (wo_envs w2 ! i) = fixed_part (wo_envs ?w ! i)" by (simp add: later_env_def)
  moreover have "dict_get (en_services (wo_envs w2 ! i)) c = Some s" using env2 got by (simp add: later_env_def)
  then have "environment_get i c w2 = (s, w2)" by (simp add: environment_get_def)
  moreover have "fst (get_access_roles roles_of i w2) = (case en_user (wo_envs w2 ! i) of None \<Rightarrow> [] | Some u \<Rightarrow> roles_of u)"
    using get_access_roles_keeps [OF ok2 i(2)] by (simp add: prod_eq_iff)
  moreover have "computed_refresh j w3 = computed_refresh i w3 \<and> computed_refresh i w3 = computed_refresh i w1"
    if "env_call st i user language tz ctx w2 = (j, w3)" for user language tz ctx j w3
  proof -
    note derived = new_environment_keeps [OF ok2 that [unfolded env_call_def Let_def]]
    then have "en_refresh (wo_envs w3 ! j) = en_refresh (wo_envs w2 ! i)" by blast
    moreover have "later_env (wo_envs w2 ! i) (wo_envs w3 ! i)" using derived i(2) by (simp add: later_world_def)
    ultimately show ?thesis using env2 by (simp add: computed_refresh_def later_env_def fixed_part_def)
  qed
  ultimately show ?thesis using ok2 by (simp add: world_ok_def)
qed

theorem environment_is_fixed_and_shared_witness:
  "let st = \<lparr>es_language = ''en'', es_tz = ''UTC''\<rparr>; before = [OpNew (Some 7) None, OpGet 0 ''PageService''];
       w = env_run st [] (\<lambda>u. [''admin'']) before empty_world; after = [OpSet 0 ''user'', OpCall 0 None None None (Some []), OpRoles 0, OpRoles 0];
       w2 = env_run st [] (\<lambda>u. [''admin'']) after (snd (environment_get 0 ''MenuService'' w))
   in environment_get 0 ''MenuService'' w2 = (1, w2) \<and> fst (get_access_roles (\<lambda>u. [''admin'']) 0 w2) = [''admin''] \<and> wo_role_queries w2 = [0]"
proof -
  define st where "st = \<lparr>es_language = ''en'', es_tz = ''UTC''\<rparr>"
  define before where "before = [OpNew (Some 7) None, OpGet 0 ''PageService'']"
  define after where "after = [OpSet 0 ''user'', OpCall 0 None None None (Some []), OpRoles 0, OpRoles 0]"
  define roles where "roles = (\<lambda>u :: nat. [''admin''])"
  define w where "w = env_run st [] roles before empty_world"
  define w1 where "w1 = snd (environment_get 0 ''MenuService'' w)"
  define w2 where "w2 = env_run st [] roles after w1"
  have "0 < length (wo_envs w)" "fst (environment_get 0 ''MenuService'' w) = 1" "wo_role_queries w2 = [0]" "en_user (wo_envs w2 ! 0) = Some 7"
    unfolding w2_def w1_def w_def st_def before_def after_def roles_def by code_simp+
  moreover from this have "environment_get 0 ''MenuService'' w = (1, w1)" by (simp add: w1_def prod_eq_iff)
  ultimately show ?thesis
    using environment_is_fixed_and_shared [of 0 st "[]" roles before "''MenuService''" 1 w1 w2 after, folded w_def] w2_def
    unfolding Let_def st_def [symmetric] before_def [symmetric] after_def [symmetric] roles_def [symmetric] w_def [symmetric] w1_def [symmetric] w2_def [symmetric]
    by (simp add: roles_def)
qed

text \<open>
  A request has one environment, of the user its credential carries: a machine acts as nobody, even
  when the middleware has set a user.
\<close>

lemma request_acts_as_its_credential:
  assumes "request_env st (wrap_request h) w = (i, r, w')"
  shows "request_env st r w' = (i, r, w')"
    "en_user (wo_envs w' ! i) = (case hr_auth h of Some user \<Rightarrow> user | None \<Rightarrow> hr_user h)"
  using assms by (auto simp: request_env_def wrap_request_def new_environment_def get_request_user_def Let_def split: option.split)

end
