(* ===== verification/Route_Decorators.thy ===== *)
theory Route_Decorators
  imports Environments
begin

text \<open>
  The decorators of the methods of a controller (\<open>core/api/route.py\<close>): the route an object of the
  framework is built from, the checks of its arguments, the response read off the annotation of the
  view, and the handler the router is given, with its decorators around it. A view is a function of
  its controller, the request and its other arguments; the attribute set on the function is an entry
  of a dictionary by name. Authentication, throttling and OpenAPI are values handed through.
\<close>

definition ROUTE_METHODS :: "string list" where
  "ROUTE_METHODS = [''POST'', ''PUT'', ''PATCH'', ''DELETE'', ''GET'', ''HEAD'', ''OPTIONS'', ''TRACE'']"

datatype methods_given = MethodList "string list" | NotAList

datatype 'r response_item = DictItem "(nat \<times> 'r) list" | TupleItem nat 'r | OtherItem

datatype 'r response_given = ResponseNotSet | OneResponse 'r | ResponseList "'r response_item list" | ResponseDict "(nat \<times> 'r) list"

datatype route_error = MethodsMustBeAList | MethodsNotAllowed "string list" | InvalidResponse

record 'x route_options =
  rp_auth :: "'x option"
  rp_throttle :: "'x option"
  rp_operation_id :: "string option"
  rp_summary :: "string option"
  rp_description :: "string option"
  rp_tags :: "string list option"
  rp_deprecated :: "bool option"
  rp_by_alias :: bool
  rp_exclude_unset :: bool
  rp_exclude_defaults :: bool
  rp_exclude_none :: bool
  rp_url_name :: "string option"
  rp_include_in_schema :: bool
  rp_openapi_extra :: "'x option"

text \<open>The defaults of the decorators, one signature repeated.\<close>

definition default_route_options :: "'x route_options" where
  "default_route_options =
     \<lparr>rp_auth = None, rp_throttle = None, rp_operation_id = None, rp_summary = None, rp_description = None, rp_tags = None,
      rp_deprecated = None, rp_by_alias = True, rp_exclude_unset = False, rp_exclude_defaults = False, rp_exclude_none = False,
      rp_url_name = None, rp_include_in_schema = True, rp_openapi_extra = None\<rparr>"

type_synonym ('a, 'o) handler = "http_request \<Rightarrow> 'a \<Rightarrow> 'o"
type_synonym ('c, 'a, 'o) view = "'c option \<Rightarrow> request \<Rightarrow> 'a \<Rightarrow> 'o"

record ('x, 'r, 'c, 'a, 'o) route_object =
  rt_path :: string
  rt_methods :: "string list"
  rt_response :: "'r response_given"
  rt_options :: "'x route_options"
  rt_view :: "('c, 'a, 'o) view"
  rt_controller :: "'c option"
  rt_decorators :: "(('a, 'o) handler \<Rightarrow> ('a, 'o) handler) list"

text \<open>A list of responses is read as one dictionary; what is neither a dictionary nor a pair is skipped.\<close>

definition response_dict :: "'r response_item list \<Rightarrow> (nat \<times> 'r) list" where
  "response_dict items =
     fold (\<lambda>item d. case item of DictItem new \<Rightarrow> dict_update new d | TupleItem code r \<Rightarrow> dict_put code r d | OtherItem \<Rightarrow> d) items []"

definition compute_response :: "'r response_given \<Rightarrow> route_error + 'r response_given" where
  "compute_response response =
     (case response of
        ResponseList items \<Rightarrow> if response_dict items = [] then Inl InvalidResponse else Inr (ResponseDict (response_dict items))
      | _ \<Rightarrow> Inr response)"

text \<open>\<open>Route.__init__\<close>: the check of the permissions comes last, next to the view.\<close>

definition new_route ::
    "('p list \<Rightarrow> ('a, 'o) handler \<Rightarrow> ('a, 'o) handler) \<Rightarrow> ('c, 'a, 'o) view \<Rightarrow> string \<Rightarrow> methods_given \<Rightarrow> 'r response_given
       \<Rightarrow> 'x route_options \<Rightarrow> 'p list \<Rightarrow> (('a, 'o) handler \<Rightarrow> ('a, 'o) handler) list
       \<Rightarrow> route_error + ('x, 'r, 'c, 'a, 'o) route_object" where
  "new_route check_permissions view path methods response options permissions decorators =
     (case methods of
        NotAList \<Rightarrow> Inl MethodsMustBeAList
      | MethodList given0 \<Rightarrow>
          (let ms = map (map upper_char) given0;
               invalid = filter (\<lambda>m. m \<notin> set ROUTE_METHODS) (uniq ms)
           in if invalid \<noteq> [] then Inl (MethodsNotAllowed invalid)
              else result_bind (compute_response response) (\<lambda>r.
                Inr \<lparr>rt_path = path, rt_methods = ms, rt_response = r, rt_options = options, rt_view = view, rt_controller = None,
                     rt_decorators = decorators @ (if permissions = [] then [] else [check_permissions permissions])\<rparr>)))"

text \<open>The annotation of the result of the view: a special form of \<open>typing\<close> is not a response.\<close>

datatype 'r return_hint = NoHint | SpecialForm | Hint 'r

definition response_of_hint :: "'r response_given \<Rightarrow> 'r return_hint \<Rightarrow> 'r response_given" where
  "response_of_hint response hint =
     (case response of
        ResponseNotSet \<Rightarrow> (case hint of Hint r \<Rightarrow> OneResponse r | _ \<Rightarrow> ResponseNotSet)
      | _ \<Rightarrow> response)"

record ('c, 'a, 'o, 'r) view_function =
  vf_name :: string
  vf_view :: "('c, 'a, 'o) view"
  vf_return :: "'r return_hint"
  vf_parameters :: "string list"

type_synonym ('x, 'r, 'c, 'a, 'o) route_attributes = "(string \<times> ('x, 'r, 'c, 'a, 'o) route_object) list"

definition create_route_function ::
    "('p list \<Rightarrow> ('a, 'o) handler \<Rightarrow> ('a, 'o) handler) \<Rightarrow> ('c, 'a, 'o, 'r) view_function \<Rightarrow> string \<Rightarrow> methods_given \<Rightarrow> 'r response_given
       \<Rightarrow> 'x route_options \<Rightarrow> 'p list \<Rightarrow> ('x, 'r, 'c, 'a, 'o) route_attributes \<Rightarrow> route_error + ('x, 'r, 'c, 'a, 'o) route_attributes" where
  "create_route_function check_permissions vf path methods response options permissions attrs =
     map_sum id (\<lambda>r. dict_put (vf_name vf) r attrs)
       (new_route check_permissions (vf_view vf) path methods (response_of_hint response (vf_return vf)) options permissions [])"

subsection \<open>The decorators\<close>

definition route_get where
  "route_get check_permissions path response options permissions vf =
     create_route_function check_permissions vf path (MethodList [''GET'']) response options permissions"

definition route_post where
  "route_post check_permissions path response options permissions vf =
     create_route_function check_permissions vf path (MethodList [''POST'']) response options permissions"

definition route_delete where
  "route_delete check_permissions path response options permissions vf =
     create_route_function check_permissions vf path (MethodList [''DELETE'']) response options permissions"

definition route_patch where
  "route_patch check_permissions path response options permissions vf =
     create_route_function check_permissions vf path (MethodList [''PATCH'']) response options permissions"

definition route_put where
  "route_put check_permissions path response options permissions vf =
     create_route_function check_permissions vf path (MethodList [''PUT'']) response options permissions"

definition route_generic where
  "route_generic check_permissions path methods response options permissions vf =
     create_route_function check_permissions vf path methods response options permissions"

subsection \<open>The operation\<close>

definition set_controller :: "'c \<Rightarrow> ('x, 'r, 'c, 'a, 'o) route_object \<Rightarrow> ('x, 'r, 'c, 'a, 'o) route_object" where
  "set_controller c r = r\<lparr>rt_controller := Some c\<rparr>"

text \<open>The handler without its controller: the request is wrapped, \<open>self\<close> given.\<close>

definition standalone_handler :: "('x, 'r, 'c, 'a, 'o) route_object \<Rightarrow> ('a, 'o) handler" where
  "standalone_handler r = (\<lambda>req args. rt_view r (rt_controller r) (wrap_request req) args)"

definition api_signature :: "string list \<Rightarrow> string list" where
  "api_signature parameters = filter (\<lambda>p. p \<noteq> ''self'') parameters"

definition as_operation :: "('x, 'r, 'c, 'a, 'o) route_object \<Rightarrow> ('a, 'o) handler" where
  "as_operation r = fold (\<lambda>g f. g f) (rev (rt_decorators r)) (standalone_handler r)"

subsection \<open>Laws\<close>

lemma route_methods_upper:
  "\<forall>m \<in> {''GET'', ''POST'', ''DELETE'', ''PATCH'', ''PUT''}. map upper_char m = m \<and> m \<in> set ROUTE_METHODS"
  by code_simp

text \<open>
  A decorated method has its route, with the method of the decorator and the response given or
  annotated, unless a list of responses holds none; and the operation runs the permissions of the
  route, then the view of its controller on the wrapped request.
\<close>

lemma decorated_view_is_served:
  assumes "(decorate, m) \<in> {(route_get, ''GET''), (route_post, ''POST''), (route_delete, ''DELETE''), (route_patch, ''PATCH''), (route_put, ''PUT'')}"
  shows "case compute_response (response_of_hint response (vf_return vf)) of
      Inl e \<Rightarrow> decorate check_permissions path response options permissions vf attrs = Inl e
    | Inr resp \<Rightarrow> \<exists>r. decorate check_permissions path response options permissions vf attrs = Inr (dict_put (vf_name vf) r attrs)
        \<and> rt_path r = path \<and> rt_methods r = [m] \<and> rt_response r = resp \<and> rt_options r = options
        \<and> as_operation (set_controller c r)
          = (if permissions = [] then id else check_permissions permissions) (\<lambda>req args. vf_view vf (Some c) (wrap_request req) args)"
proof -
  have "map upper_char m = m" "m \<in> set ROUTE_METHODS" using route_methods_upper assms by auto
  moreover from assms have "decorate check_permissions path response options permissions vf attrs
      = create_route_function check_permissions vf path (MethodList [m]) response options permissions attrs"
    by (auto simp: route_get_def route_post_def route_delete_def route_patch_def route_put_def)
  ultimately show ?thesis
    by (auto simp: create_route_function_def new_route_def Let_def as_operation_def standalone_handler_def set_controller_def split: sum.split)
qed

lemma compute_response_error:
  "compute_response response = Inl e \<longleftrightarrow> e = InvalidResponse \<and> (\<exists>items. response = ResponseList items \<and> response_dict items = [])"
  by (cases response) (auto simp: compute_response_def)

text \<open>A custom route is refused exactly for its methods or for a list without a response.\<close>

lemma generic_route_refused:
  "(\<exists>e. route_generic check_permissions path methods response options permissions vf attrs = Inl e) \<longleftrightarrow>
     methods = NotAList \<or> (\<exists>ms. methods = MethodList ms \<and> (\<exists>m \<in> set ms. map upper_char m \<notin> set ROUTE_METHODS))
     \<or> (\<exists>items. response = ResponseList items \<and> response_dict items = [])"
proof -
  have "(\<exists>e. compute_response (response_of_hint response (vf_return vf)) = Inl e) \<longleftrightarrow> (\<exists>items. response = ResponseList items \<and> response_dict items = [])"
    by (cases response) (auto simp: compute_response_def response_of_hint_def split: return_hint.split)
  moreover have "(filter (\<lambda>m. m \<notin> set ROUTE_METHODS) (uniq (map (map upper_char) ms)) \<noteq> []) \<longleftrightarrow> (\<exists>m \<in> set ms. map upper_char m \<notin> set ROUTE_METHODS)" for ms
    by (auto simp: filter_empty_conv)
  ultimately show ?thesis
    by (cases methods; cases "compute_response (response_of_hint response (vf_return vf))")
      (auto simp: route_generic_def create_route_function_def new_route_def Let_def)
qed

text \<open>A list of responses that holds schemas alone is refused, whatever it holds.\<close>

lemma bare_schemas_are_refused: "compute_response (ResponseList (replicate n OtherItem)) = Inl InvalidResponse"
proof -
  have "fold (\<lambda>item d. case item of DictItem new \<Rightarrow> dict_update new d | TupleItem code r \<Rightarrow> dict_put code r d | OtherItem \<Rightarrow> d)
      (replicate n OtherItem) d = d" for d :: "(nat \<times> 'r) list"
    by (induction n) simp_all
  then show ?thesis by (simp add: compute_response_def response_dict_def)
qed

end
