(* ===== verification/User_Rights.thy ===== *)
theory User_Rights
  imports Totem_Prelude
begin

text \<open>
  The rows that give a user its rights and the signal that says they changed
  (\<open>user/models/user.py\<close>, \<open>user/models/user_role.py\<close>, \<open>user/signals.py\<close>): the type of a user and the
  roles it is related to. A queryset is the predicate that selects its rows, with whether it was
  evaluated before; \<open>values_list\<close> of one that was not is read where it is first used, after the
  write. A signal is the list of the users it is sent for.
\<close>

type_synonym user_pk = string

record rights_user =
  ur_pk :: user_pk
  ur_type :: string

record role_relation =
  rr_pk :: nat
  rr_user :: user_pk
  rr_role :: string

record rights_db =
  rd_users :: "rights_user list"
  rd_relations :: "role_relation list"
  rd_signals :: "user_pk list list"

datatype rights_error = OneRolePerCategory

text \<open>\<open>SPLIT_PART(role_id, '_', 1)\<close> and the constraint of the table.\<close>

definition role_category :: "string \<Rightarrow> string" where
  "role_category role = hd (str_split (CHR ''_'') role)"

definition relations_stored :: "role_relation list \<Rightarrow> bool" where
  "relations_stored rs \<longleftrightarrow> distinct (map (\<lambda>r. (role_category (rr_role r), rr_user r)) rs)"

text \<open>\<open>user_change_rights.send\<close>, for the users that are there.\<close>

definition send_rights :: "user_pk list \<Rightarrow> rights_db \<Rightarrow> rights_db" where
  "send_rights pks db =
     db\<lparr>rd_signals := rd_signals db @ [filter (\<lambda>u. u \<in> set pks) (map ur_pk (rd_users db))]\<rparr>"

definition write_relations :: "role_relation list \<Rightarrow> rights_db \<Rightarrow> rights_error + rights_db" where
  "write_relations rs db = (if relations_stored rs then Inr (db\<lparr>rd_relations := rs\<rparr>) else Inl OneRolePerCategory)"

subsection \<open>Users\<close>

text \<open>\<open>UserQuerySet.update\<close>; the other columns do not matter here.\<close>

definition user_queryset_update :: "(rights_user \<Rightarrow> bool) \<Rightarrow> bool \<Rightarrow> string option \<Rightarrow> rights_db \<Rightarrow> rights_db" where
  "user_queryset_update sel evaluated user_type db =
     (case user_type of
        None \<Rightarrow> db
      | Some ty \<Rightarrow>
          (let before = map ur_pk (filter sel (rd_users db));
               db' = db\<lparr>rd_users := map (\<lambda>u. if sel u then u\<lparr>ur_type := ty\<rparr> else u) (rd_users db)\<rparr>;
               pks = (if evaluated then before else map ur_pk (filter sel (rd_users db')))
           in if pks \<noteq> [] then send_rights pks db' else db'))"

text \<open>
  \<open>User.save\<close>: the instance is new when its row is not there, and one that was loaded has its row;
  nothing is sent for a creation.
\<close>

definition user_save :: "user_pk \<Rightarrow> string \<Rightarrow> string list option \<Rightarrow> rights_db \<Rightarrow> rights_db" where
  "user_save pk user_type update_fields db =
     (let written = (case update_fields of None \<Rightarrow> True | Some fs \<Rightarrow> ''user_type'' \<in> set fs) in
      if pk \<notin> set (map ur_pk (rd_users db))
      then db\<lparr>rd_users := rd_users db @ [\<lparr>ur_pk = pk, ur_type = user_type\<rparr>]\<rparr>
      else let db' = (if written then db\<lparr>rd_users := map (\<lambda>u. if ur_pk u = pk then u\<lparr>ur_type := user_type\<rparr> else u) (rd_users db)\<rparr> else db)
           in if written then send_rights [pk] db' else db')"

subsection \<open>Relations\<close>

definition relation_bulk_create :: "role_relation list \<Rightarrow> rights_db \<Rightarrow> rights_error + rights_db" where
  "relation_bulk_create objs db =
     result_bind (write_relations (rd_relations db @ objs) db) (\<lambda>db'.
       Inr (if objs \<noteq> [] then send_rights (map rr_user objs) db' else db'))"

definition relation_queryset_update ::
    "(role_relation \<Rightarrow> bool) \<Rightarrow> bool \<Rightarrow> string option \<Rightarrow> user_pk option \<Rightarrow> rights_db \<Rightarrow> rights_error + rights_db" where
  "relation_queryset_update sel evaluated role user db =
     (let change = (\<lambda>r. r\<lparr>rr_role := (case role of None \<Rightarrow> rr_role r | Some ro \<Rightarrow> ro), rr_user := (case user of None \<Rightarrow> rr_user r | Some u \<Rightarrow> u)\<rparr>);
          before = map rr_user (filter sel (rd_relations db))
      in result_bind (write_relations (map (\<lambda>r. if sel r then change r else r) (rd_relations db)) db) (\<lambda>db'.
           let pks = (if role = None then [] else if evaluated then before else map rr_user (filter sel (rd_relations db')))
           in Inr (if pks \<noteq> [] then send_rights pks db' else db')))"

text \<open>The queryset is iterated before the rows go.\<close>

definition relation_queryset_delete :: "(role_relation \<Rightarrow> bool) \<Rightarrow> rights_db \<Rightarrow> rights_db" where
  "relation_queryset_delete sel db =
     (let pks = map rr_user (filter sel (rd_relations db));
          db' = db\<lparr>rd_relations := filter (\<lambda>r. \<not> sel r) (rd_relations db)\<rparr>
      in if pks \<noteq> [] then send_rights pks db' else db')"

definition relation_save :: "role_relation \<Rightarrow> string list option \<Rightarrow> rights_db \<Rightarrow> rights_error + rights_db" where
  "relation_save obj update_fields db =
     (let written = (\<lambda>f. case update_fields of None \<Rightarrow> True | Some fs \<Rightarrow> f \<in> set fs);
          change = (\<lambda>r. r\<lparr>rr_role := (if written ''role'' then rr_role obj else rr_role r), rr_user := (if written ''user'' then rr_user obj else rr_user r)\<rparr>);
          rs = (if rr_pk obj \<in> set (map rr_pk (rd_relations db))
                then map (\<lambda>r. if rr_pk r = rr_pk obj then change r else r) (rd_relations db)
                else rd_relations db @ [obj])
      in result_bind (write_relations rs db) (\<lambda>db'. Inr (if written ''role'' then send_rights [rr_user obj] db' else db')))"

definition relation_delete :: "role_relation \<Rightarrow> rights_db \<Rightarrow> rights_db" where
  "relation_delete obj db =
     send_rights [rr_user obj] (db\<lparr>rd_relations := filter (\<lambda>r. rr_pk r \<noteq> rr_pk obj) (rd_relations db)\<rparr>)"

text \<open>A role that is deleted takes its relations along; the collector calls neither \<open>delete\<close>.\<close>

definition role_delete :: "string \<Rightarrow> rights_db \<Rightarrow> rights_db" where
  "role_delete role db = db\<lparr>rd_relations := filter (\<lambda>r. rr_role r \<noteq> role) (rd_relations db)\<rparr>"

subsection \<open>What is signalled\<close>

text \<open>The rights of a user: its type and its roles.\<close>

definition rights_of :: "rights_db \<Rightarrow> user_pk \<Rightarrow> string set \<times> string set" where
  "rights_of db u = (ur_type ` {x \<in> set (rd_users db). ur_pk x = u}, rr_role ` {r \<in> set (rd_relations db). rr_user r = u})"

datatype rights_op =
    UserUpdate "rights_user \<Rightarrow> bool" bool "string option"
  | UserSave user_pk string "string list option"
  | RelationCreate "role_relation list"
  | RelationUpdate "role_relation \<Rightarrow> bool" bool "string option" "user_pk option"
  | RelationDeleteAll "role_relation \<Rightarrow> bool"
  | RelationSave role_relation "string list option"
  | RelationDelete role_relation

text \<open>A refused write leaves the database as it was.\<close>

fun rights_step :: "rights_op \<Rightarrow> rights_db \<Rightarrow> rights_db" where
  "rights_step (UserUpdate sel evaluated ty) db = user_queryset_update sel evaluated ty db"
| "rights_step (UserSave pk ty fs) db = user_save pk ty fs db"
| "rights_step (RelationCreate objs) db = (case relation_bulk_create objs db of Inl e \<Rightarrow> db | Inr db' \<Rightarrow> db')"
| "rights_step (RelationUpdate sel evaluated role user) db = (case relation_queryset_update sel evaluated role user db of Inl e \<Rightarrow> db | Inr db' \<Rightarrow> db')"
| "rights_step (RelationDeleteAll sel) db = relation_queryset_delete sel db"
| "rights_step (RelationSave obj fs) db = (case relation_save obj fs db of Inl e \<Rightarrow> db | Inr db' \<Rightarrow> db')"
| "rights_step (RelationDelete obj) db = relation_delete obj db"

definition run_rights :: "rights_op list \<Rightarrow> rights_db \<Rightarrow> rights_db" where
  "run_rights ops db = fold rights_step ops db"

text \<open>
  The writes the program makes: a queryset that was not evaluated does not select on the column it
  writes, and no relation is moved to another user; an instance is saved and deleted as it was read.
\<close>

fun rights_op_ok :: "rights_db \<Rightarrow> rights_op \<Rightarrow> bool" where
  "rights_op_ok db (UserUpdate sel evaluated ty) \<longleftrightarrow> evaluated \<or> (\<forall>u t. sel (u\<lparr>ur_type := t\<rparr>) = sel u)"
| "rights_op_ok db (RelationUpdate sel evaluated role user) \<longleftrightarrow> user = None \<and> (evaluated \<or> (\<forall>r ro. sel (r\<lparr>rr_role := ro\<rparr>) = sel r))"
| "rights_op_ok db (RelationSave obj fs) \<longleftrightarrow> (\<forall>r \<in> set (rd_relations db). rr_pk r = rr_pk obj \<longrightarrow> rr_user r = rr_user obj)
     \<and> (rr_pk obj \<in> rr_pk ` set (rd_relations db) \<or> fs = None)"
| "rights_op_ok db (RelationDelete obj) \<longleftrightarrow> (\<forall>r \<in> set (rd_relations db). rr_pk r = rr_pk obj \<longrightarrow> rr_user r = rr_user obj)"
| "rights_op_ok db op \<longleftrightarrow> True"

fun rights_ops_ok :: "rights_op list \<Rightarrow> rights_db \<Rightarrow> bool" where
  "rights_ops_ok [] db \<longleftrightarrow> True"
| "rights_ops_ok (op # ops) db \<longleftrightarrow> rights_op_ok db op \<and> rights_ops_ok ops (rights_step op db)"

end
