(* ===== verification/User_Rights_Laws.thy ===== *)
theory User_Rights_Laws
  imports User_Rights
begin

text \<open>
  Who is told that its rights changed: everyone whose type or roles did, when a write is one of those
  the program makes; and the writes that tell nobody.
\<close>

subsection \<open>What a write changes\<close>

definition told :: "rights_db \<Rightarrow> rights_db \<Rightarrow> bool" where
  "told db db' \<longleftrightarrow> (\<exists>new. rd_signals db' = rd_signals db @ new
     \<and> (\<forall>u \<in> ur_pk ` set (rd_users db). u \<in> ur_pk ` set (rd_users db') \<and> (rights_of db' u \<noteq> rights_of db u \<longrightarrow> (\<exists>s \<in> set new. u \<in> set s))))"

lemma told_refl: "told db db"
  by (auto simp: told_def)

lemma told_trans:
  assumes "told db1 db2" "told db2 db3"
  shows "told db1 db3"
proof -
  from assms(1) obtain new1 where 1: "rd_signals db2 = rd_signals db1 @ new1"
    "\<And>u. u \<in> ur_pk ` set (rd_users db1) \<Longrightarrow> u \<in> ur_pk ` set (rd_users db2) \<and> (rights_of db2 u \<noteq> rights_of db1 u \<longrightarrow> (\<exists>s \<in> set new1. u \<in> set s))"
    unfolding told_def by blast
  from assms(2) obtain new2 where 2: "rd_signals db3 = rd_signals db2 @ new2"
    "\<And>u. u \<in> ur_pk ` set (rd_users db2) \<Longrightarrow> u \<in> ur_pk ` set (rd_users db3) \<and> (rights_of db3 u \<noteq> rights_of db2 u \<longrightarrow> (\<exists>s \<in> set new2. u \<in> set s))"
    unfolding told_def by blast
  have "u \<in> ur_pk ` set (rd_users db3) \<and> (rights_of db3 u \<noteq> rights_of db1 u \<longrightarrow> (\<exists>s \<in> set (new1 @ new2). u \<in> set s))"
    if "u \<in> ur_pk ` set (rd_users db1)" for u
  proof -
    have u2: "u \<in> ur_pk ` set (rd_users db2)" using 1(2) [OF that] by blast
    show ?thesis using 1(2) [OF that] 2(2) [OF u2] by (cases "rights_of db2 u = rights_of db1 u") auto
  qed
  then show ?thesis using 1(1) 2(1) unfolding told_def by (intro exI [of _ "new1 @ new2"]) simp
qed

text \<open>Nothing sent and no right changed; or one signal that covers those that did.\<close>

lemma told_silent:
  assumes "rd_signals db' = rd_signals db" "map ur_pk (rd_users db') = map ur_pk (rd_users db)"
    "\<And>u. u \<in> ur_pk ` set (rd_users db) \<Longrightarrow> rights_of db' u = rights_of db u"
  shows "told db db'"
  using assms by (auto simp: told_def simp flip: set_map)

lemma rights_of_send [simp]: "rights_of (send_rights pks db) u = rights_of db u"
  by (simp add: rights_of_def send_rights_def)

lemma told_sent:
  assumes "rd_signals db' = rd_signals db" "map ur_pk (rd_users db') = map ur_pk (rd_users db)"
    "\<And>u. u \<in> ur_pk ` set (rd_users db) \<Longrightarrow> u \<notin> set pks \<Longrightarrow> rights_of db' u = rights_of db u"
  shows "told db (send_rights pks db')"
proof -
  have "set (map ur_pk (rd_users db')) = set (map ur_pk (rd_users db))" using assms(2) by simp
  then have users: "ur_pk ` set (rd_users db') = ur_pk ` set (rd_users db)" by simp
  have "\<exists>s \<in> set [filter (\<lambda>u. u \<in> set pks) (map ur_pk (rd_users db'))]. u \<in> set s"
    if "u \<in> ur_pk ` set (rd_users db)" "rights_of (send_rights pks db') u \<noteq> rights_of db u" for u
    using assms(3) [OF that(1)] that users by auto
  moreover have "rd_signals (send_rights pks db') = rd_signals db @ [filter (\<lambda>u. u \<in> set pks) (map ur_pk (rd_users db'))]"
    "ur_pk ` set (rd_users (send_rights pks db')) = ur_pk ` set (rd_users db)"
    using assms(1) users by (simp_all add: send_rights_def)
  ultimately show ?thesis unfolding told_def by blast
qed

lemma rights_of_filter:
  "rights_of db u = (ur_type ` set (filter (\<lambda>x. ur_pk x = u) (rd_users db)), rr_role ` set (filter (\<lambda>r. rr_user r = u) (rd_relations db)))"
  by (simp add: rights_of_def)

lemma filter_map_kept:
  "(\<And>x. x \<in> set xs \<Longrightarrow> sel x \<Longrightarrow> \<not> P x \<and> \<not> P (g x)) \<Longrightarrow> filter P (map (\<lambda>x. if sel x then g x else x) xs) = filter P xs"
  by (induction xs) auto

text \<open>A selection that does not read what is written is the same after the write.\<close>

lemma lazy_selection:
  assumes "\<And>x. sel (g x) = sel x" "\<And>x. f (g x) = f x"
  shows "map f (filter sel (map (\<lambda>x. if sel x then g x else x) xs)) = map f (filter sel xs)"
  using assms by (induction xs) auto

lemma user_update_told:
  assumes "rights_op_ok db (UserUpdate sel evaluated ty)"
  shows "told db (user_queryset_update sel evaluated ty db)"
proof (cases ty)
  case None
  then show ?thesis by (simp add: user_queryset_update_def told_refl)
next
  case (Some t)
  let ?db = "db\<lparr>rd_users := map (\<lambda>u. if sel u then u\<lparr>ur_type := t\<rparr> else u) (rd_users db)\<rparr>"
  define pks where "pks = (if evaluated then map ur_pk (filter sel (rd_users db)) else map ur_pk (filter sel (rd_users ?db)))"
  have "map ur_pk (filter sel (rd_users ?db)) = map ur_pk (filter sel (rd_users db))" if "\<not> evaluated"
    using that assms lazy_selection [of sel "\<lambda>u. u\<lparr>ur_type := t\<rparr>" ur_pk "rd_users db"] by simp
  then have "pks = map ur_pk (filter sel (rd_users db))" by (cases evaluated) (simp_all add: pks_def)
  then have pks: "set pks = ur_pk ` {x \<in> set (rd_users db). sel x}" by simp
  have users: "map ur_pk (rd_users ?db) = map ur_pk (rd_users db)" by simp
  have same: "rights_of ?db u = rights_of db u" if "u \<notin> set pks" for u
  proof -
    have "filter (\<lambda>x. ur_pk x = u) (map (\<lambda>u. if sel u then u\<lparr>ur_type := t\<rparr> else u) (rd_users db)) = filter (\<lambda>x. ur_pk x = u) (rd_users db)"
      using that pks by (intro filter_map_kept) auto
    then show ?thesis by (simp add: rights_of_filter del: set_filter)
  qed
  have "told db (if pks \<noteq> [] then send_rights pks ?db else ?db)"
  proof (cases "pks = []")
    case True
    with same have "\<And>u. rights_of ?db u = rights_of db u" by simp
    with True users show ?thesis using told_silent [of ?db db] by simp
  next
    case False
    with users same show ?thesis using told_sent [of ?db db pks] by simp
  qed
  then show ?thesis unfolding user_queryset_update_def Some option.case Let_def pks_def .
qed

lemma user_save_told: "told db (user_save pk ty fs db)"
proof (cases "pk \<in> ur_pk ` set (rd_users db)")
  case False
  let ?db = "db\<lparr>rd_users := rd_users db @ [\<lparr>ur_pk = pk, ur_type = ty\<rparr>]\<rparr>"
  have "rights_of ?db u = rights_of db u" if "u \<in> ur_pk ` set (rd_users db)" for u
    using that False by (auto simp: rights_of_filter)
  then have "told db ?db" by (auto simp: told_def)
  with False show ?thesis by (simp add: user_save_def Let_def)
next
  case True
  let ?db = "db\<lparr>rd_users := map (\<lambda>u. if ur_pk u = pk then u\<lparr>ur_type := ty\<rparr> else u) (rd_users db)\<rparr>"
  have "rights_of ?db u = rights_of db u" if "u \<notin> set [pk]" for u
  proof -
    have "filter (\<lambda>x. ur_pk x = u) (map (\<lambda>u. if ur_pk u = pk then u\<lparr>ur_type := ty\<rparr> else u) (rd_users db)) = filter (\<lambda>x. ur_pk x = u) (rd_users db)"
      using that by (intro filter_map_kept) auto
    then show ?thesis by (simp add: rights_of_filter del: set_filter)
  qed
  then have "told db (send_rights [pk] ?db)" by (intro told_sent) (simp_all add: comp_def if_distrib cong: if_cong)
  with True show ?thesis by (simp add: user_save_def Let_def told_refl)
qed

text \<open>A write of the relations that tells those it gives a row to or takes one from.\<close>

lemma relations_told:
  assumes "\<And>u. u \<notin> set pks \<Longrightarrow> filter (\<lambda>r. rr_user r = u) rs = filter (\<lambda>r. rr_user r = u) (rd_relations db)"
  shows "told db (if pks \<noteq> [] then send_rights pks (db\<lparr>rd_relations := rs\<rparr>) else db\<lparr>rd_relations := rs\<rparr>)"
proof -
  have same: "rights_of (db\<lparr>rd_relations := rs\<rparr>) u = rights_of db u" if "u \<notin> set pks" for u
    using assms [OF that] by (simp add: rights_of_filter del: set_filter)
  show ?thesis
  proof (cases "pks = []")
    case True
    then show ?thesis using told_silent [of "db\<lparr>rd_relations := rs\<rparr>" db] same by simp
  next
    case False
    then show ?thesis using told_sent [of "db\<lparr>rd_relations := rs\<rparr>" db pks] same by simp
  qed
qed

lemma write_relations_Inr: "write_relations rs db = Inr db' \<longleftrightarrow> relations_stored rs \<and> db' = db\<lparr>rd_relations := rs\<rparr>"
  by (auto simp: write_relations_def)

lemma relation_create_told: "relation_bulk_create objs db = Inr db' \<Longrightarrow> told db db'"
  using relations_told [of "map rr_user objs" "rd_relations db @ objs" db]
  by (auto simp: relation_bulk_create_def write_relations_Inr filter_empty_conv split: if_splits)

lemma relation_update_told:
  assumes "rights_op_ok db (RelationUpdate sel evaluated role user)" "relation_queryset_update sel evaluated role user db = Inr db'"
  shows "told db db'"
proof -
  from assms(1) have none: "user = None" by simp
  let ?change = "\<lambda>r. r\<lparr>rr_role := (case role of None \<Rightarrow> rr_role r | Some ro \<Rightarrow> ro), rr_user := rr_user r\<rparr>"
  let ?rs = "map (\<lambda>r. if sel r then ?change r else r) (rd_relations db)"
  define pks where "pks = (if role = None then [] else if evaluated then map rr_user (filter sel (rd_relations db)) else map rr_user (filter sel ?rs))"
  from assms(2) [unfolded relation_queryset_update_def Let_def none option.case]
  have db': "db' = (if pks \<noteq> [] then send_rights pks (db\<lparr>rd_relations := ?rs\<rparr>) else db\<lparr>rd_relations := ?rs\<rparr>)"
    unfolding pks_def by (simp only: result_bind_eq_Inr write_relations_Inr) auto
  show ?thesis
  proof (cases role)
    case None
    then have "?rs = rd_relations db" by (simp add: map_idI)
    then show ?thesis using relations_told [of pks ?rs db] by (simp add: db')
  next
    case (Some ro)
    have "map rr_user (filter sel ?rs) = map rr_user (filter sel (rd_relations db))" if "\<not> evaluated"
      using that assms(1) Some lazy_selection [of sel ?change rr_user "rd_relations db"] by simp
    then have "pks = map rr_user (filter sel (rd_relations db))" using Some by (cases evaluated) (simp_all add: pks_def)
    then have "filter (\<lambda>r. rr_user r = u) ?rs = filter (\<lambda>r. rr_user r = u) (rd_relations db)" if "u \<notin> set pks" for u
      using that by (intro filter_map_kept) auto
    then show ?thesis unfolding db' by (rule relations_told)
  qed
qed

lemma relation_delete_all_told: "told db (relation_queryset_delete sel db)"
  unfolding relation_queryset_delete_def Let_def
  by (rule relations_told) (auto simp: filter_filter intro!: filter_cong)

lemma relation_delete_told:
  assumes "rights_op_ok db (RelationDelete obj)"
  shows "told db (relation_delete obj db)"
proof -
  have "filter (\<lambda>r. rr_user r = u) (filter (\<lambda>r. rr_pk r \<noteq> rr_pk obj) (rd_relations db)) = filter (\<lambda>r. rr_user r = u) (rd_relations db)"
    if "u \<notin> set [rr_user obj]" for u
    using that assms by (auto intro!: filter_cong)
  from relations_told [of "[rr_user obj]", OF this] show ?thesis by (simp add: relation_delete_def)
qed

lemma relation_save_told:
  assumes "rights_op_ok db (RelationSave obj fs)" "relation_save obj fs db = Inr db'"
  shows "told db db'"
proof -
  let ?w = "\<lambda>f. case fs of None \<Rightarrow> True | Some ns \<Rightarrow> f \<in> set ns"
  let ?change = "\<lambda>r. r\<lparr>rr_role := (if ?w ''role'' then rr_role obj else rr_role r), rr_user := (if ?w ''user'' then rr_user obj else rr_user r)\<rparr>"
  define rs where "rs = (if rr_pk obj \<in> set (map rr_pk (rd_relations db))
    then map (\<lambda>r. if rr_pk r = rr_pk obj then ?change r else r) (rd_relations db) else rd_relations db @ [obj])"
  define pks where "pks = (if ?w ''role'' then [rr_user obj] else [])"
  from assms(2) have db': "db' = (if pks \<noteq> [] then send_rights pks (db\<lparr>rd_relations := rs\<rparr>) else db\<lparr>rd_relations := rs\<rparr>)"
    unfolding relation_save_def Let_def rs_def [symmetric] by (auto simp: write_relations_Inr pks_def split: if_splits)
  have "filter (\<lambda>r. rr_user r = u) rs = filter (\<lambda>r. rr_user r = u) (rd_relations db)" if u: "u \<notin> set pks" for u
  proof (cases "rr_pk obj \<in> rr_pk ` set (rd_relations db)")
    case False
    with assms(1) have "fs = None" by simp
    with u False show ?thesis by (simp add: rs_def pks_def)
  next
    case True
    then have rs: "rs = map (\<lambda>r. if rr_pk r = rr_pk obj then ?change r else r) (rd_relations db)" by (simp add: rs_def)
    show ?thesis
    proof (cases "?w ''role''")
      case True
      with u have "u \<noteq> rr_user obj" by (simp add: pks_def)
      with assms(1) show ?thesis unfolding rs by (intro filter_map_kept) auto
    next
      case False
      have "?change r = r" if "r \<in> set (rd_relations db)" "rr_pk r = rr_pk obj" for r
        using that False assms(1) by (cases "?w ''user''") simp_all
      then have "rs = rd_relations db" unfolding rs by (intro map_idI) simp
      then show ?thesis by simp
    qed
  qed
  then show ?thesis unfolding db' by (rule relations_told)
qed

subsection \<open>Sequences of writes\<close>

lemma rights_step_told:
  assumes "rights_op_ok db op"
  shows "told db (rights_step op db)"
proof (cases op)
  case (UserUpdate sel evaluated ty)
  with assms show ?thesis using user_update_told [of db sel evaluated ty] by simp
next
  case (UserSave pk ty fs)
  then show ?thesis using user_save_told by simp
next
  case (RelationCreate objs)
  then show ?thesis using relation_create_told [of objs db] by (simp add: told_refl split: sum.split)
next
  case (RelationUpdate sel evaluated role user)
  with assms show ?thesis using relation_update_told [of db sel evaluated role user] by (simp add: told_refl split: sum.split)
next
  case (RelationDeleteAll sel)
  then show ?thesis using relation_delete_all_told by simp
next
  case (RelationSave obj fs)
  with assms show ?thesis using relation_save_told [of db obj fs] by (simp add: told_refl split: sum.split)
next
  case (RelationDelete obj)
  with assms show ?thesis using relation_delete_told [of db obj] by simp
qed

text \<open>The relations of the table keep their constraint, refused writes included.\<close>

lemma relations_stored_filter: "relations_stored rs \<Longrightarrow> relations_stored (filter P rs)"
  by (simp add: relations_stored_def distinct_map_filter)

lemma rd_relations_send [simp]: "rd_relations (send_rights pks db) = rd_relations db"
  by (simp add: send_rights_def)

lemma written_relations_stored:
  "write_relations rs db = Inr db' \<Longrightarrow> relations_stored (rd_relations db')"
  by (auto simp: write_relations_Inr)

lemma rights_step_stored:
  assumes "relations_stored (rd_relations db)"
  shows "relations_stored (rd_relations (rights_step op db))"
proof (cases op)
  case (UserUpdate sel evaluated ty)
  with assms show ?thesis by (simp add: user_queryset_update_def Let_def split: option.split)
next
  case (UserSave pk ty fs)
  with assms show ?thesis by (simp add: user_save_def Let_def split: option.split)
next
  case (RelationCreate objs)
  with assms show ?thesis by (auto simp: relation_bulk_create_def result_bind_eq_Inr dest: written_relations_stored split: sum.split)
next
  case (RelationUpdate sel evaluated role user)
  have "relations_stored (rd_relations db')" if "relation_queryset_update sel evaluated role user db = Inr db'" for db'
    using that unfolding relation_queryset_update_def Let_def result_bind_eq_Inr
    by (elim exE conjE) (drule written_relations_stored, simp split: if_splits, auto)
  with RelationUpdate assms show ?thesis by (simp split: sum.split)
next
  case (RelationDeleteAll sel)
  with assms show ?thesis by (simp add: relation_queryset_delete_def Let_def relations_stored_filter)
next
  case (RelationSave obj fs)
  have "relations_stored (rd_relations db')" if "relation_save obj fs db = Inr db'" for db'
    using that unfolding relation_save_def Let_def result_bind_eq_Inr
    by (elim exE conjE) (drule written_relations_stored, simp split: if_splits, auto)
  with RelationSave assms show ?thesis by (simp split: sum.split)
next
  case (RelationDelete obj)
  with assms show ?thesis by (simp add: relation_delete_def relations_stored_filter)
qed

lemma run_rights_Cons: "run_rights (op # ops) db = run_rights ops (rights_step op db)"
  by (simp add: run_rights_def)

lemma run_rights_told: "rights_ops_ok ops db \<Longrightarrow> told db (run_rights ops db)"
proof (induction ops arbitrary: db)
  case Nil
  show ?case by (simp add: run_rights_def told_refl)
next
  case (Cons op ops)
  then have "told db (rights_step op db)" "told (rights_step op db) (run_rights ops (rights_step op db))"
    by (simp_all add: rights_step_told)
  then show ?case unfolding run_rights_Cons by (rule told_trans)
qed

lemma run_rights_stored: "relations_stored (rd_relations db) \<Longrightarrow> relations_stored (rd_relations (run_rights ops db))"
proof (induction ops arbitrary: db)
  case (Cons op ops)
  then show ?case unfolding run_rights_Cons using rights_step_stored [of db op] by blast
qed (simp add: run_rights_def)

lemma told_sent_to:
  assumes "told db db'" "u \<in> ur_pk ` set (rd_users db)" "rights_of db' u \<noteq> rights_of db u"
  shows "\<exists>s \<in> set (drop (length (rd_signals db)) (rd_signals db')). u \<in> set s"
proof -
  from assms(1) obtain new where "rd_signals db' = rd_signals db @ new"
    "\<forall>u \<in> ur_pk ` set (rd_users db). u \<in> ur_pk ` set (rd_users db') \<and> (rights_of db' u \<noteq> rights_of db u \<longrightarrow> (\<exists>s \<in> set new. u \<in> set s))"
    unfolding told_def by blast
  with assms(2,3) show ?thesis by fastforce
qed

subsection \<open>Changes nobody is told of\<close>

text \<open>
  A queryset that selects on the type it writes, and was not evaluated, is read when no row matches
  any more.
\<close>

lemma lazy_type_change_is_silent:
  assumes "t \<noteq> old"
  shows "rd_signals (user_queryset_update (\<lambda>u. ur_type u = old) False (Some t) db) = rd_signals db"
proof -
  have "filter (\<lambda>u. ur_type u = old) (map (\<lambda>u. if ur_type u = old then u\<lparr>ur_type := t\<rparr> else u) us) = []" for us
    using assms by (induction us) auto
  from this [of "rd_users db"] show ?thesis by (simp add: user_queryset_update_def Let_def del: filter_empty_conv)
qed

lemma lazy_type_change_witness:
  "let db = \<lparr>rd_users = [\<lparr>ur_pk = ''u'', ur_type = ''admin''\<rparr>], rd_relations = [], rd_signals = []\<rparr>;
       db' = user_queryset_update (\<lambda>u. ur_type u = ''admin'') False (Some ''portal'') db
   in rights_of db' ''u'' \<noteq> rights_of db ''u'' \<and> rd_signals db' = []"
  by (simp add: user_queryset_update_def rights_of_filter Let_def del: set_filter)

text \<open>A relation moved to another user, and a role that is deleted.\<close>

lemma moved_relation_is_silent:
  "relation_queryset_update sel evaluated None user db = Inr db' \<Longrightarrow> rd_signals db' = rd_signals db"
  by (auto simp: relation_queryset_update_def Let_def write_relations_Inr)

lemma deleted_role_is_silent:
  "let db = \<lparr>rd_users = [\<lparr>ur_pk = ''u'', ur_type = ''admin''\<rparr>],
             rd_relations = [\<lparr>rr_pk = 1, rr_user = ''u'', rr_role = ''website_manager''\<rparr>], rd_signals = []\<rparr>;
       db' = role_delete ''website_manager'' db
   in rights_of db' ''u'' \<noteq> rights_of db ''u'' \<and> rd_signals db' = []"
  by (simp add: role_delete_def rights_of_filter Let_def del: set_filter)

subsection \<open>The property\<close>


text \<open>
  The type of one user and a role of the other are changed, a second role of the same category is
  refused, and the first relation goes.
\<close>

definition example_rights :: rights_db where
  "example_rights = \<lparr>rd_users = [\<lparr>ur_pk = ''ada'', ur_type = ''internal''\<rparr>, \<lparr>ur_pk = ''bob'', ur_type = ''portal''\<rparr>],
     rd_relations = [\<lparr>rr_pk = 1, rr_user = ''bob'', rr_role = ''website_user''\<rparr>], rd_signals = []\<rparr>"

definition example_rights_ops :: "rights_op list" where
  "example_rights_ops = [UserUpdate (\<lambda>u. ur_pk u = ''ada'') False (Some ''admin''),
     RelationCreate [\<lparr>rr_pk = 2, rr_user = ''bob'', rr_role = ''website_manager''\<rparr>],
     RelationUpdate (\<lambda>r. rr_pk r = 1) False (Some ''website_manager'') None]"


end
