(* ===== verification/List_Decorators.thy ===== *)
theory List_Decorators
  imports Query_Params "HOL-Library.Multiset"
begin

text \<open>
  The decorators \<open>ordering\<close> and \<open>query_field\<close> of a view (\<open>core/api/ordering.py\<close>,
  \<open>core/api/query_fields.py\<close>): what a decorated view is called with, and what becomes of what it
  returns. A list of objects or of dictionaries is sorted here, by one stable sort per field.
\<close>

subsection \<open>The list a view returns\<close>

text \<open>\<open>list.sort(key, reverse)\<close>: a reverse sort keeps the order of equal elements too.\<close>

definition list_sort :: "('a \<Rightarrow> 'k::linorder) \<Rightarrow> bool \<Rightarrow> 'a list \<Rightarrow> 'a list" where
  "list_sort key reverse xs = (if reverse then rev (sort_key key (rev xs)) else sort_key key xs)"

text \<open>What is read of an item by key or by attribute, nothing where Python raises.\<close>

record ('a, 'k) item_access =
  ia_is_dict :: "'a \<Rightarrow> bool"
  ia_item :: "string \<Rightarrow> 'a \<Rightarrow> 'k option"
  ia_attr :: "string \<Rightarrow> 'a \<Rightarrow> 'k option"

datatype decorator_error =
    NoParameter string
  | NoItemValue string
  | OrderRefused param_error
  | FetchRefused fetch_error
  | ViewRaised string

text \<open>The loop of \<open>multisort\<close>: over the fields from the last one, each a sort of the whole list.\<close>

definition sort_pass ::
    "(string \<Rightarrow> 'a \<Rightarrow> 'k::linorder option) \<Rightarrow> string \<times> bool \<Rightarrow> decorator_error + 'a list \<Rightarrow> decorator_error + 'a list" where
  "sort_pass get spec r = result_bind r (\<lambda>xs.
     if \<exists>x \<in> set xs. get (fst spec) x = None then Inl (NoItemValue (fst spec))
     else Inr (list_sort (\<lambda>x. the (get (fst spec) x)) (snd spec) xs))"

definition multisort ::
    "('a, 'k::linorder) item_access \<Rightarrow> 'a list \<Rightarrow> (string \<times> bool) list \<Rightarrow> decorator_error + 'a list" where
  "multisort ia xs specs =
     (let get = (if ia_is_dict ia (hd xs) then ia_item ia else ia_attr ia)
      in fold (sort_pass get) (rev specs) (Inr xs))"

text \<open>What a view returns: a queryset, with the terms that order it and what it loads, a list, or something else.\<close>

record 'q queryset_result =
  qr_rows :: 'q
  qr_order :: "order_term list"
  qr_plan :: "(fetch_plan \<times> string list) option"

datatype ('q, 'a) view_result =
    QueryResult "'q queryset_result"
  | ListResult "'a list"
  | OtherResult

text \<open>The model of a queryset, and the fields its service puts last when they are null.\<close>

record service_order =
  so_pk :: string
  so_nullable :: "string \<Rightarrow> bool option"
  so_nulls_last :: nulls_last

text \<open>
  \<open>Ordering.ordering_queryset\<close>; without a service the queryset is ordered with the defaults of
  \<open>queryset_order_by_fields\<close>, and an input with no ordering field has no attribute to read.
\<close>

definition ordering_queryset ::
    "('a, 'k::linorder) item_access \<Rightarrow> service_order \<Rightarrow> bool \<Rightarrow> string list option \<Rightarrow> ('q, 'a) view_result
     \<Rightarrow> decorator_error + ('q, 'a) view_result" where
  "ordering_queryset ia so with_service input items =
     (case input of
        None \<Rightarrow> Inl (OrderRefused (NoSuchInput ''ordering''))
      | Some tokens \<Rightarrow>
          if tokens = [] then Inr items
          else (case items of
                  QueryResult q \<Rightarrow>
                    (case queryset_order_by_fields (so_pk so) (so_nullable so) (if with_service then so_nulls_last so else Unspecified) True tokens of
                       Inl e \<Rightarrow> Inl (OrderRefused e)
                     | Inr terms \<Rightarrow> Inr (QueryResult (q\<lparr>qr_order := terms\<rparr>)))
                | ListResult xs \<Rightarrow>
                    if xs = [] then Inr items
                    else result_bind (multisort ia xs (map (\<lambda>t. (bare_token t, is_descending t)) tokens)) (\<lambda>ys. Inr (ListResult ys))
                | OtherResult \<Rightarrow> Inr items))"

text \<open>\<open>QueryField.querying_field_queryset\<close>.\<close>

definition querying_field_queryset ::
    "(lookup_tree \<Rightarrow> string list \<Rightarrow> lookup_tree \<Rightarrow> lookup_tree) \<Rightarrow> orm \<Rightarrow> string \<Rightarrow> bool \<Rightarrow> string list \<Rightarrow> ('q, 'a) view_result
     \<Rightarrow> decorator_error + ('q, 'a) view_result" where
  "querying_field_queryset deep_set orm m with_service lookups items =
     (case items of
        QueryResult q \<Rightarrow>
          (case (if with_service then apply_query_fields deep_set orm m lookups
                 else result_bind (queryset_fetch_fields deep_set orm m lookups) (\<lambda>plan. Inr (plan, []))) of
             Inl e \<Rightarrow> Inl (FetchRefused e)
           | Inr plan \<Rightarrow> Inr (QueryResult (q\<lparr>qr_plan := Some plan\<rparr>)))
      | ListResult xs \<Rightarrow> Inr items
      | OtherResult \<Rightarrow> Inr items)"

text \<open>The two classes of the controllers only hand their parameter on.\<close>

definition list_controller_ordering :: "'p \<Rightarrow> 'r \<Rightarrow> decorator_error + 'r" where
  "list_controller_ordering params items = Inr items"

definition list_controller_query_field :: "'p \<Rightarrow> 'r \<Rightarrow> decorator_error + 'r" where
  "list_controller_query_field params items = Inr items"

subsection \<open>The decorated view\<close>

text \<open>\<open>pass_parameter\<close> names the argument that gets the parameters, when it is given and not empty.\<close>

definition handed_kwargs :: "string option \<Rightarrow> 'p \<Rightarrow> (string \<times> 'p) list \<Rightarrow> (string \<times> 'p) list" where
  "handed_kwargs pass_parameter params kwargs =
     (case pass_parameter of None \<Rightarrow> kwargs | Some n \<Rightarrow> if n = [] then kwargs else dict_put n params kwargs)"

definition view_with_ordering ::
    "string option \<Rightarrow> ('p \<Rightarrow> 'r \<Rightarrow> decorator_error + 'r) \<Rightarrow> ((string \<times> 'p) list \<Rightarrow> decorator_error + 'r)
     \<Rightarrow> (string \<times> 'p) list \<Rightarrow> decorator_error + 'r" where
  "view_with_ordering pass_parameter ordering_queryset_of func kwargs =
     (case dict_get kwargs ''ninja_ordering'' of
        None \<Rightarrow> Inl (NoParameter ''ninja_ordering'')
      | Some params \<Rightarrow>
          result_bind (func (handed_kwargs pass_parameter params (AList.delete ''ninja_ordering'' kwargs))) (ordering_queryset_of params))"

definition view_with_query_field ::
    "string option \<Rightarrow> ('p \<Rightarrow> 'r \<Rightarrow> decorator_error + 'r) \<Rightarrow> ((string \<times> 'p) list \<Rightarrow> decorator_error + 'r)
     \<Rightarrow> (string \<times> 'p) list \<Rightarrow> decorator_error + 'r" where
  "view_with_query_field pass_parameter querying_of func kwargs =
     (case dict_get kwargs ''ninja_query_field'' of
        None \<Rightarrow> Inl (NoParameter ''ninja_query_field'')
      | Some params \<Rightarrow>
          result_bind (func (handed_kwargs pass_parameter params (AList.delete ''ninja_query_field'' kwargs))) (querying_of params))"

subsection \<open>One sort per field is the lexicographic sort\<close>

text \<open>An item may come before another: the first field that tells them apart decides.\<close>

fun not_after :: "(string \<Rightarrow> 'a \<Rightarrow> 'k::linorder option) \<Rightarrow> (string \<times> bool) list \<Rightarrow> 'a \<Rightarrow> 'a \<Rightarrow> bool" where
  "not_after get [] x y = True"
| "not_after get ((n, descending) # specs) x y =
     (let a = the (get n x); b = the (get n y)
      in (if descending then b < a else a < b) \<or> (a = b \<and> not_after get specs x y))"

text \<open>Items no field of the list tells apart.\<close>

definition not_told_apart :: "(string \<Rightarrow> 'a \<Rightarrow> 'k option) \<Rightarrow> (string \<times> bool) list \<Rightarrow> 'a \<Rightarrow> 'a \<Rightarrow> bool" where
  "not_told_apart get specs x y \<longleftrightarrow> (\<forall>spec \<in> set specs. the (get (fst spec) y) = the (get (fst spec) x))"

lemma mset_list_sort [simp]: "mset (list_sort key reverse xs) = mset xs"
  by (simp add: list_sort_def)

lemma set_list_sort [simp]: "set (list_sort key reverse xs) = set xs"
  by (simp add: list_sort_def)

lemma list_sort_stable: "filter (\<lambda>y. key y = a) (list_sort key reverse xs) = filter (\<lambda>y. key y = a) xs"
  by (simp add: list_sort_def sort_key_stable flip: rev_filter)

lemma list_sort_sorted:
  "sorted_wrt (\<lambda>x y. if reverse then key y \<le> key x else key x \<le> key y) (list_sort key reverse xs)"
  using sorted_sort_key [of key xs] sorted_sort_key [of key "rev xs"]
  by (simp add: list_sort_def sorted_wrt_rev sorted_map)

text \<open>What is sorted by a key, and within each key by a relation, is sorted by both.\<close>

lemma sorted_wrt_refine:
  fixes key :: "'a \<Rightarrow> 'k::linorder"
  assumes "sorted_wrt (\<lambda>x y. if d then key y \<le> key x else key x \<le> key y) ys"
    and "\<And>a. sorted_wrt R (filter (\<lambda>y. key y = a) ys)"
  shows "sorted_wrt (\<lambda>x y. (if d then key y < key x else key x < key y) \<or> (key x = key y \<and> R x y)) ys"
  using assms
proof (induction ys)
  case (Cons y ys)
  have "(if d then key z < key y else key y < key z) \<or> (key y = key z \<and> R y z)" if z: "z \<in> set ys" for z
  proof (cases "key z = key y")
    case True
    from Cons.prems(2) [of "key y"] z True have "R y z" by simp
    with True show ?thesis by simp
  next
    case False
    with Cons.prems(1) z show ?thesis by (auto simp: less_le)
  qed
  moreover have "sorted_wrt R (filter (\<lambda>y. key y = a) ys)" for a
    using Cons.prems(2) [of a] by (simp split: if_splits)
  ultimately show ?case using Cons.IH Cons.prems(1) by simp
qed simp

lemma sort_passes_Cons:
  "fold (sort_pass get) (rev (spec # specs)) r = sort_pass get spec (fold (sort_pass get) (rev specs) r)"
  by simp

lemma sort_pass_ends [simp]:
  "sort_pass get spec (Inl e) = Inl e"
  "is_inr (sort_pass get spec (Inr zs)) \<longleftrightarrow> (\<forall>x \<in> set zs. get (fst spec) x \<noteq> None)"
  by (simp_all add: sort_pass_def)

lemma sort_pass_Inr:
  "sort_pass get spec r = Inr ys \<longleftrightarrow> (\<exists>zs. r = Inr zs \<and> (\<forall>x \<in> set zs. get (fst spec) x \<noteq> None)
     \<and> ys = list_sort (\<lambda>x. the (get (fst spec) x)) (snd spec) zs)"
  by (auto simp: sort_pass_def split: if_splits)

lemma sort_passes_sorted:
  assumes "fold (sort_pass get) (rev specs) (Inr xs) = Inr ys"
  shows "mset ys = mset xs \<and> sorted_wrt (not_after get specs) ys
     \<and> (\<forall>x. filter (not_told_apart get specs x) ys = filter (not_told_apart get specs x) xs)"
  using assms
proof (induction specs arbitrary: ys)
  case Nil
  have "sorted_wrt (not_after get []) zs" for zs by (induction zs) simp_all
  with Nil show ?case by (simp add: not_told_apart_def)
next
  case (Cons spec specs)
  let ?key = "\<lambda>x. the (get (fst spec) x)"
  from Cons.prems obtain zs where zs: "fold (sort_pass get) (rev specs) (Inr xs) = Inr zs"
    and ys: "ys = list_sort ?key (snd spec) zs"
    unfolding sort_passes_Cons sort_pass_Inr by blast
  from Cons.IH [OF zs] have IH: "mset zs = mset xs" "sorted_wrt (not_after get specs) zs"
    "\<And>x. filter (not_told_apart get specs x) zs = filter (not_told_apart get specs x) xs" by blast+
  have within: "sorted_wrt (not_after get specs) (filter (\<lambda>y. ?key y = a) ys)" for a
    unfolding ys list_sort_stable using IH(2) by (rule sorted_wrt_filter)
  have "not_after get (spec # specs) = (\<lambda>x y. (if snd spec then ?key y < ?key x else ?key x < ?key y) \<or> (?key x = ?key y \<and> not_after get specs x y))"
    by (cases spec) (simp add: fun_eq_iff Let_def)
  then have "sorted_wrt (not_after get (spec # specs)) ys"
    using sorted_wrt_refine [OF list_sort_sorted within [unfolded ys]] by (simp add: ys)
  moreover have "filter (not_told_apart get (spec # specs) x) ys = filter (not_told_apart get (spec # specs) x) xs" for x
  proof -
    have both: "not_told_apart get (spec # specs) x = (\<lambda>y. not_told_apart get specs x y \<and> ?key y = ?key x)"
      by (auto simp: fun_eq_iff not_told_apart_def)
    have split: "filter (not_told_apart get (spec # specs) x) us = filter (not_told_apart get specs x) (filter (\<lambda>y. ?key y = ?key x) us)" for us
      unfolding both by (simp add: conj_commute)
    have "filter (not_told_apart get specs x) (filter (\<lambda>y. ?key y = ?key x) us) = filter (\<lambda>y. ?key y = ?key x) (filter (not_told_apart get specs x) us)" for us
      by (simp add: conj_commute)
    then show ?thesis unfolding split ys list_sort_stable by (simp only: IH(3))
  qed
  ultimately show ?case using IH(1) by (simp add: ys)
qed

lemma sort_passes_ends:
  "is_inr (fold (sort_pass get) (rev specs) (Inr xs)) \<longleftrightarrow> (\<forall>spec \<in> set specs. \<forall>x \<in> set xs. get (fst spec) x \<noteq> None)"
proof (induction specs)
  case (Cons spec specs)
  show ?case
  proof (cases "fold (sort_pass get) (rev specs) (Inr xs)")
    case (Inl e)
    then have "is_inr (fold (sort_pass get) (rev (spec # specs)) (Inr xs)) = False" by simp
    moreover from Inl Cons.IH have "\<not> (\<forall>spec \<in> set specs. \<forall>x \<in> set xs. get (fst spec) x \<noteq> None)" by simp
    ultimately show ?thesis by auto
  next
    case (Inr zs)
    with sort_passes_sorted [OF Inr] have zs: "set zs = set xs" by (metis mset_eq_setD)
    from Inr have "fold (sort_pass get) (rev (spec # specs)) (Inr xs) = sort_pass get spec (Inr zs)" by simp
    moreover from Inr Cons.IH have "\<forall>spec \<in> set specs. \<forall>x \<in> set xs. get (fst spec) x \<noteq> None" by simp
    ultimately show ?thesis using zs by simp
  qed
qed simp

text \<open>
  A list ordered by fields is a rearrangement in the lexicographic order of the fields, each in its
  direction; what they do not tell apart keeps its order. It fails exactly when an item lacks one.
\<close>

lemma list_is_ordered_lexicographically:
  assumes "ordering_queryset ia so service (Some tokens) (ListResult xs) = Inr (ListResult ys)"
    and "tokens \<noteq> []"
  defines "get \<equiv> (if ia_is_dict ia (hd xs) then ia_item ia else ia_attr ia)"
    and "specs \<equiv> map (\<lambda>t. (bare_token t, is_descending t)) tokens"
  shows "mset ys = mset xs \<and> sorted_wrt (not_after get specs) ys
     \<and> (\<forall>x. filter (not_told_apart get specs x) ys = filter (not_told_apart get specs x) xs)"
proof (cases "xs = []")
  case True
  with assms show ?thesis by (simp add: ordering_queryset_def)
next
  case False
  with assms(1,2) have "multisort ia xs specs = Inr ys"
    by (auto simp: ordering_queryset_def specs_def)
  then have "fold (sort_pass get) (rev specs) (Inr xs) = Inr ys" by (simp add: multisort_def get_def Let_def)
  then show ?thesis by (rule sort_passes_sorted)
qed

text \<open>The decorators of a controller leave what its view returns as it is.\<close>

lemma controller_decorators_hand_over:
  assumes "dict_get kwargs ''ninja_ordering'' = Some params" "n \<noteq> []"
  shows "view_with_ordering (Some n) list_controller_ordering func kwargs
     = func (dict_put n params (AList.delete ''ninja_ordering'' kwargs))"
  using assms by (simp add: view_with_ordering_def handed_kwargs_def list_controller_ordering_def result_bind_def split: sum.split)

lemma controller_query_field_hands_over:
  assumes "dict_get kwargs ''ninja_query_field'' = Some params" "n \<noteq> []"
  shows "view_with_query_field (Some n) list_controller_query_field func kwargs
     = func (dict_put n params (AList.delete ''ninja_query_field'' kwargs))"
  using assms by (simp add: view_with_query_field_def handed_kwargs_def list_controller_query_field_def result_bind_def split: sum.split)

text \<open>A queryset that is ordered without a service is refused whatever the fields.\<close>

lemma ordering_without_service_is_refused:
  assumes "tokens \<noteq> []"
  shows "\<not> is_inr (ordering_queryset ia so False (Some tokens) (QueryResult q))"
proof -
  obtain t ts where "tokens = t # ts" using assms by (cases tokens) auto
  then show ?thesis
    by (simp add: ordering_queryset_def queryset_order_by_fields_def order_term_of_def Let_def)
qed

end
