(* ===== verification/Filestore_Clear.thy ===== *)
theory Filestore_Clear
  imports Tenancy
begin

text \<open>
  The periodic clearing of the file stores (\<open>base/tasks.py\<close>, the command \<open>clear_filestore\<close>): the
  directories without a file under them go, in the stores of one database. A node is a file (or a
  link, which is no directory) or a directory; the tree of a database is that of its media root.
\<close>

datatype fs_node = FileNode string | DirNode "(string \<times> fs_node) list"

text \<open>\<open>_remove_empty_directories\<close>: the entries first, then the directory when it is empty; nothing when it went.\<close>

fun remove_empty :: "bool \<Rightarrow> fs_node \<Rightarrow> fs_node option"
  and remove_entries :: "(string \<times> fs_node) list \<Rightarrow> (string \<times> fs_node) list" where
  "remove_empty remove_root (FileNode b) = Some (FileNode b)"
| "remove_empty remove_root (DirNode es) =
     (let es' = remove_entries es in if es' = [] \<and> remove_root then None else Some (DirNode es'))"
| "remove_entries [] = []"
| "remove_entries ((n, t) # es) =
     (case remove_empty True t of None \<Rightarrow> remove_entries es | Some t' \<Rightarrow> (n, t') # remove_entries es)"

definition STORAGES :: "string list" where
  "STORAGES = [''public'', ''private'', ''_filestore'']"

text \<open>One store, the name of an entry of the root; a name that is no directory is passed over.\<close>

definition clear_storage :: "string \<Rightarrow> (string \<times> fs_node) list \<Rightarrow> (string \<times> fs_node) list" where
  "clear_storage storage root =
     (case dict_get root storage of
        None \<Rightarrow> root
      | Some t \<Rightarrow> (case remove_empty False t of None \<Rightarrow> root | Some t' \<Rightarrow> dict_put storage t' root))"

definition clear_root :: "string list \<Rightarrow> bool \<Rightarrow> (string \<times> fs_node) list \<Rightarrow> (string \<times> fs_node) list" where
  "clear_root storages empty_dir root =
     (if empty_dir then fold clear_storage (if storages = [] then STORAGES else storages) root else root)"

text \<open>\<open>handle\<close>: the database is the one that is named, checked and selected, or the selected one.\<close>

definition clear_filestore ::
    "process \<Rightarrow> string list \<Rightarrow> bool \<Rightarrow> string option \<Rightarrow> (string \<times> (string \<times> fs_node) list) list
     \<Rightarrow> tenancy_error + (string \<times> (string \<times> fs_node) list) list" where
  "clear_filestore p storages empty_dir db_name roots =
     (let clear = (\<lambda>p. case dict_get roots (current_database p) of
            None \<Rightarrow> roots
          | Some root \<Rightarrow> dict_put (current_database p) (clear_root storages empty_dir root) roots)
      in case db_name of
           None \<Rightarrow> Inr (clear p)
         | Some n \<Rightarrow> if n = [] then Inr (clear p) else result_bind (enter_database p n) (\<lambda>p'. Inr (clear p')))"

text \<open>The task of the beat: \<open>call_command("clear_filestore", "--empty-dir")\<close>.\<close>

definition clear_filestore_task ::
    "process \<Rightarrow> (string \<times> (string \<times> fs_node) list) list \<Rightarrow> tenancy_error + (string \<times> (string \<times> fs_node) list) list" where
  "clear_filestore_task p roots = clear_filestore p [] True None roots"

subsection \<open>What is left\<close>

fun read_node :: "fs_node \<Rightarrow> string list \<Rightarrow> string option" where
  "read_node (FileNode b) path = (if path = [] then Some b else None)"
| "read_node (DirNode es) [] = None"
| "read_node (DirNode es) (n # path) = Option.bind (dict_get es n) (\<lambda>t. read_node t path)"

definition read_entries :: "(string \<times> fs_node) list \<Rightarrow> string list \<Rightarrow> string option" where
  "read_entries es path = read_node (DirNode es) path"

text \<open>The names of a directory are distinct.\<close>

fun fs_ok :: "fs_node \<Rightarrow> bool" where
  "fs_ok (FileNode b) \<longleftrightarrow> True"
| "fs_ok (DirNode es) \<longleftrightarrow> distinct (dict_keys es) \<and> list_all (\<lambda>(n, t). fs_ok t) es"

text \<open>A file, or a directory with something in it, and so on below.\<close>

fun holds_files :: "fs_node \<Rightarrow> bool" where
  "holds_files (FileNode b) \<longleftrightarrow> True"
| "holds_files (DirNode es) \<longleftrightarrow> es \<noteq> [] \<and> list_all (\<lambda>(n, t). holds_files t) es"

lemma keys_remove_entries: "set (dict_keys (remove_entries es)) \<subseteq> set (dict_keys es)"
proof (induction es)
  case (Cons e es)
  then show ?case by (cases e; cases "remove_empty True (snd e)"; simp; blast)
qed simp

lemma fs_ok_remove:
  "fs_ok t \<Longrightarrow> remove_empty r t = Some t' \<Longrightarrow> fs_ok t'"
  "fs_ok (DirNode es) \<Longrightarrow> fs_ok (DirNode (remove_entries es))"
proof (induction r t and es arbitrary: t' rule: remove_empty_remove_entries.induct)
  case (4 n t es)
  from "4.prems" have rest: "fs_ok (DirNode (remove_entries es))" and t: "fs_ok t" and n: "n \<notin> set (dict_keys es)"
    using "4.IH"(2,3) by (cases "remove_empty True t"; simp)+
  show ?case
  proof (cases "remove_empty True t")
    case None
    with rest show ?thesis by simp
  next
    case (Some u)
    with "4.IH"(1) [OF t Some] rest n keys_remove_entries [of es] show ?thesis by auto
  qed
qed (auto simp: Let_def split: if_splits)

lemma remove_keeps_files:
  "fs_ok t \<Longrightarrow> (case remove_empty r t of None \<Rightarrow> None | Some t' \<Rightarrow> read_node t' path) = read_node t path"
  "fs_ok (DirNode es) \<Longrightarrow> read_entries (remove_entries es) path = read_entries es path"
proof (induction r t and es arbitrary: path and path rule: remove_empty_remove_entries.induct)
  case (2 r es)
  then have IH: "read_node (DirNode (remove_entries es)) path = read_node (DirNode es) path" for path by (simp add: read_entries_def)
  show ?case
  proof (cases "remove_entries es = [] \<and> r")
    case True
    with IH [of path] show ?thesis by (cases path) simp_all
  next
    case False
    then have "remove_empty r (DirNode es) = Some (DirNode (remove_entries es))" by (auto simp: Let_def)
    with IH [of path] show ?thesis by simp
  qed
next
  case (4 n t es)
  from "4.prems" have n: "n \<notin> set (dict_keys es)" and t: "fs_ok t" and es: "fs_ok (DirNode es)" by auto
  have rest: "read_node (DirNode (remove_entries es)) path = read_node (DirNode es) path" for path
    using 4 es unfolding read_entries_def by (cases "remove_empty True t") auto
  have here: "(case remove_empty True t of None \<Rightarrow> None | Some t' \<Rightarrow> read_node t' path) = read_node t path" for path
    using 4 t by blast
  have gone: "dict_get (remove_entries es) n = None"
    using n keys_remove_entries [of es] by (auto simp: map_of_eq_None_iff)
  show ?case
  proof (cases path)
    case Nil
    then show ?thesis by (simp add: read_entries_def)
  next
    case (Cons m p)
    show ?thesis
    proof (cases "m = n")
      case True
      with here [of p] gone Cons show ?thesis
        by (cases "remove_empty True t") (simp_all add: read_entries_def)
    next
      case False
      with rest [of path] Cons show ?thesis
        by (cases "remove_empty True t") (simp_all add: read_entries_def)
    qed
  qed
qed (auto simp: read_entries_def)

lemma remove_leaves_no_empty:
  "remove_empty True t = Some t' \<Longrightarrow> holds_files t'"
  "list_all (\<lambda>(n, t). holds_files t) (remove_entries es)"
  by (induction "True" t and es arbitrary: t' rule: remove_empty_remove_entries.induct)
    (auto simp: Let_def split: if_splits option.splits)

lemma remove_nothing:
  "holds_files t \<Longrightarrow> remove_empty r t = Some t"
  "list_all (\<lambda>(n, t). holds_files t) es \<Longrightarrow> remove_entries es = es"
  by (induction r t and es rule: remove_empty_remove_entries.induct) (auto simp: Let_def)

text \<open>A directory that is left leads to a file.\<close>

lemma holds_files_reads: "holds_files t \<Longrightarrow> \<exists>path. read_node t path \<noteq> None"
proof (induction t rule: holds_files.induct)
  case (1 b)
  show ?case by (rule exI [of _ "[]"]) simp
next
  case (2 es)
  then obtain n t es' where es: "es = (n, t) # es'" by (cases es) auto
  with "2.IH" [of "(n, t)" n t] "2.prems" obtain path where "read_node t path \<noteq> None" by auto
  with es show ?case by (intro exI [of _ "n # path"]) simp
qed

subsection \<open>The command\<close>

lemma list_all_dict_put: "list_all P d \<Longrightarrow> P (k, v) \<Longrightarrow> list_all P (dict_put k v d)"
  by (induction d) auto

lemma clear_storage_keeps:
  assumes "fs_ok (DirNode root)"
  shows "fs_ok (DirNode (clear_storage storage root))" "read_entries (clear_storage storage root) path = read_entries root path"
proof -
  have "fs_ok (DirNode (clear_storage storage root)) \<and> read_entries (clear_storage storage root) path = read_entries root path"
  proof (cases "dict_get root storage")
    case None
    with assms show ?thesis by (simp add: clear_storage_def)
  next
    case (Some t)
    with assms have t: "fs_ok t" by (auto simp: list_all_iff dest: map_of_SomeD)
    show ?thesis
    proof (cases "remove_empty False t")
      case None
      with Some assms show ?thesis by (simp add: clear_storage_def)
    next
      case (Some t')
      have "fs_ok t'" using fs_ok_remove(1) [OF t Some] .
      with assms have "fs_ok (DirNode (dict_put storage t' root))"
        by (simp add: distinct_dict_put list_all_dict_put)
      moreover have "read_entries (dict_put storage t' root) path = read_entries root path"
        using remove_keeps_files(1) [OF t, where r = False and path = "tl path"] Some \<open>dict_get root storage = Some t\<close>
        by (cases path) (simp_all add: read_entries_def)
      ultimately show ?thesis using Some \<open>dict_get root storage = Some t\<close> by (simp add: clear_storage_def)
    qed
  qed
  then show "fs_ok (DirNode (clear_storage storage root))" "read_entries (clear_storage storage root) path = read_entries root path"
    by blast+
qed

lemma clear_storages_keep:
  "fs_ok (DirNode root) \<Longrightarrow> fs_ok (DirNode (fold clear_storage storages root))
     \<and> read_entries (fold clear_storage storages root) path = read_entries root path"
  by (induction storages arbitrary: root) (simp_all add: clear_storage_keeps del: fs_ok.simps)

lemma clear_root_keeps:
  "fs_ok (DirNode root) \<Longrightarrow> read_entries (clear_root storages empty_dir root) path = read_entries root path"
  using clear_storages_keep by (simp add: clear_root_def del: fs_ok.simps)

text \<open>Whatever stores are asked for, the tree of a database keeps all its files, and no other database is touched.\<close>

lemma clear_filestore_keeps_files:
  assumes "clear_filestore p storages empty_dir db_name roots = Inr roots'"
    and "\<And>db root. dict_get roots db = Some root \<Longrightarrow> fs_ok (DirNode root)"
  shows "map_option (\<lambda>root. read_entries root path) (dict_get roots' db) = map_option (\<lambda>root. read_entries root path) (dict_get roots db)"
    and "db \<noteq> current_database p \<Longrightarrow> db_name \<noteq> Some db \<Longrightarrow> dict_get roots' db = dict_get roots db"
proof -
  define clear where "clear p = (case dict_get roots (current_database p) of None \<Rightarrow> roots
    | Some root \<Rightarrow> dict_put (current_database p) (clear_root storages empty_dir root) roots)" for p
  from assms(1) have run: "(case db_name of None \<Rightarrow> Inr (clear p)
      | Some n \<Rightarrow> if n = [] then Inr (clear p) else result_bind (enter_database p n) (\<lambda>p'. Inr (clear p'))) = Inr roots'"
    unfolding clear_filestore_def Let_def clear_def .
  have entered: "current_database p' = n" if "enter_database p n = Inr p'" "n \<noteq> []" for n p'
  proof -
    from that(1) have "pr_current p' = Some n" by (auto simp: enter_database_def validate_database_name_def Let_def split: if_splits)
    with that(2) show ?thesis by (cases n) (simp_all add: current_database_def str_or_def)
  qed
  obtain p' where roots': "roots' = clear p'"
    and p': "current_database p' = current_database p \<or> db_name = Some (current_database p')"
  proof (cases "db_name = None \<or> db_name = Some []")
    case True
    with run show ?thesis by (intro that [of p]) auto
  next
    case False
    then obtain n where n: "db_name = Some n" "n \<noteq> []" by auto
    with run obtain p' where "enter_database p n = Inr p'" "roots' = clear p'" by auto
    with n entered show ?thesis by (intro that [of p']) simp_all
  qed
  show "map_option (\<lambda>root. read_entries root path) (dict_get roots' db) = map_option (\<lambda>root. read_entries root path) (dict_get roots db)"
    using clear_root_keeps [OF assms(2)] by (auto simp: roots' clear_def split: option.split)
  show "dict_get roots' db = dict_get roots db" if "db \<noteq> current_database p" "db_name \<noteq> Some db"
    using that p' by (auto simp: roots' clear_def split: option.split)
qed

text \<open>Nothing empty is left under a store that was cleared, and clearing it again changes nothing.\<close>

lemma cleared_storage_is_clear:
  assumes "dict_get root storage = Some (DirNode es)"
  shows "\<exists>es'. dict_get (clear_storage storage root) storage = Some (DirNode es') \<and> list_all (\<lambda>(n, t). holds_files t) es'"
    and "clear_storage storage (clear_storage storage root) = clear_storage storage root"
proof -
  have "clear_storage storage root = dict_put storage (DirNode (remove_entries es)) root"
    using assms by (simp add: clear_storage_def Let_def)
  moreover have "remove_entries (remove_entries es) = remove_entries es" by (rule remove_nothing(2) [OF remove_leaves_no_empty(2)])
  ultimately show "\<exists>es'. dict_get (clear_storage storage root) storage = Some (DirNode es') \<and> list_all (\<lambda>(n, t). holds_files t) es'"
    "clear_storage storage (clear_storage storage root) = clear_storage storage root"
    using remove_leaves_no_empty(2) [of es] by (simp_all add: clear_storage_def Let_def)
qed

end
