(* ===== verification/Spec2Isabelle.thy ===== *)
theory Spec2Isabelle
  imports Session_Safety Api_Keys Access_Policy Permissions Computed_Sync Service_Layer Tenants Populate Menu_Read Group_Laws Theme_Laws Ledger_Totals Controller_Import Response_Plan Api_Validation_Laws Controller_View_Errors Pagination_Laws Media_Access Media_Rows Html_Expansion Site_Laws Schema_Registry Computed_Field_Laws Environment_Laws Route_Decorators User_Rights_Laws List_Decorators Filestore_Clear
begin

text \<open>
  Totem is the backend of an association: a Django application served through django-ninja, with
  one PostgreSQL database per tenant. This development models its own logic, the sources under
  \<open>src/\<close> without the frameworks they stand on, and proves what each part promises. A name in a
  theory is the name of the class, function or method it translates, with a suffix where HOL
  already has it.

  \<^bold>\<open>The parts and how they meet.\<close> A request names a tenant, and the middleware selects the
  database before anything else runs. It then authenticates: a user with an access token minted
  at sign-in, a program with an API key, the operator with the key of the settings. The scopes
  found there guard the route. A controller turns the parameters, the path and the body into a
  call of the service of its model; the service restricts every read to the rows the access rules
  leave to the user, resolves the relations of the body through the services of their models,
  checks the values and writes in one transaction. The writes are declared to the context of the
  computed fields, which recomputes, on the way out, the stored fields they reach. The response
  loads what its schema reads. Applications (accounts, website, users, tenants) add their models,
  the rules of their services and their declarations to registries filled at import.

  \<^bold>\<open>Conventions.\<close> A Python dictionary is an association list in insertion order
  (\<open>Totem_Prelude\<close>), a set whose order does not matter is a list of its elements or a HOL set. A
  function that raises returns a sum, the error on the left. A queryset is the rows it selects, or
  the predicate that selects them, over a table given as a list or a map. A transaction returns
  the new state or the error, and then the state it began with is the one that stays. Instants
  are integers. What is not under \<open>src/\<close> is an argument: the signing of PyJWT, SHA-256, Django's
  \<open>Q\<close> objects, filters, collector and paginator, the validation of pydantic, the package
  \<open>dict_deep\<close>, the parser and the serializer of lxml, Django's signer and \<open>safe_join\<close>, the compute
  functions of the fields, the clock and every random draw. What is
  relied on of such an argument is a named predicate (\<open>jwt_laws\<close>, \<open>q_laws\<close>, \<open>deep_set_laws\<close>,
  \<open>reads_declared\<close>, \<open>collector_law\<close>, \<open>digest_laws\<close>, \<open>signer_laws\<close>, \<open>validator_laws\<close>,
  \<open>value_law\<close>), and each is met by a concrete function in a witness.

  \<^bold>\<open>Shared theories.\<close> \<open>Totem_Prelude\<close>: dictionaries, deduplication, joins and splits, results.
  \<open>Registry\<close>: the contract \<open>keyed_registry\<close> of everything declared once at import, interpreted
  on the permissions and the access rules. \<open>Level_Queue\<close>: the contract
  of a queue drained by increasing level, interpreted on the flush of the computed fields.

  \<^bold>\<open>Identity and rights.\<close>
  \<^item> \<open>Access_Rights\<close> (\<open>user/access_rights.py\<close>): the registry of permissions and the scopes of a
    user; a registration is refused for a duplicate or an ill-formed name.
  \<^item> \<open>Tokens\<close> (\<open>authentication/tokens.py\<close>, \<open>principal.py\<close>, \<open>authenticators.py\<close>): minting and
    reading of access tokens, what \<open>request.auth\<close> holds; round trip, expiry, binding to the tenant.
  \<^item> \<open>Sessions\<close>, \<open>Session_Safety\<close> (\<open>models/refresh_token.py\<close>, \<open>AuthService\<close>): the table of
    refresh tokens as a state machine; rotation, replay, revocation, purge. Two ghost fields keep
    every digest and session ever issued.
  \<^item> \<open>Api_Keys\<close> (\<open>models/api_key.py\<close>, \<open>ApiKeyService\<close>, \<open>saas/security.py\<close>): machine credentials.
  \<^item> \<open>Permissions\<close> (\<open>core/api/permission.py\<close>): the algebra of the guards of a view.
  \<^item> \<open>Access_Policy\<close> (\<open>user/access_policy.py\<close> and the \<open>security.py\<close> of the applications): the
    registry of row rules, their selection and their effect on a queryset.
  \<^item> \<open>User_Rights\<close>, \<open>User_Rights_Laws\<close> (\<open>user/models/\<close>, \<open>user/signals.py\<close>): the writes of the type
    and the roles of a user and the signal that tells whose rights changed, with the writes that send
    nothing.

  \<^bold>\<open>Services and data.\<close>
  \<^item> \<open>Service_Values\<close>, \<open>Service_Laws\<close> (\<open>core/services/base.py\<close>, \<open>exceptions.py\<close>, \<open>registry.py\<close>,
    first half of \<open>mixins.py\<close>): from the inputs to the values of a write, errors collected per
    record and per field.
  \<^item> \<open>Service_Writes\<close>, \<open>Service_Write_Laws\<close>, \<open>Service_Layer\<close> (\<open>mixins.py\<close>): the transactions of
    create, update, delete and resequence, then the public operations end to end.
  \<^item> \<open>Group_By\<close>, \<open>Group_Laws\<close> (\<open>group_by.py\<close>): grouped aggregates, their checks, groups and pages.
  \<^item> \<open>Dependency\<close>, \<open>Dependency_Laws\<close>, \<open>Refresh_Context\<close>, \<open>Refresh_Correct\<close>, \<open>Refresh_Flush\<close>,
    \<open>Refresh_Deletion\<close>, \<open>Refresh_Unit\<close>, \<open>Computed_Sync\<close> (\<open>core/orm/fields/computed/\<close>): the
    registry of dependencies with its depths, the recording of writes and deletions, the flush and
    the unit of work. The refinement proved is that the incremental refresh leaves what a full
    recomputation would. The visit that computes the depths has fuel for each field of the graph
    (\<open>visit_fuel\<close>: it never runs out); the flush is a loop with no bound in its definition, proved
    to end.

  \<^item> \<open>Computed_Fields\<close>, \<open>Computed_Field_Laws\<close> (\<open>computed/field.py\<close>, \<open>utils.py\<close>): the declaration of a
    computed field, the column it adds or does not, and the loading of its values by a queryset.
    \<open>value_law\<close> says that a field computed in three ways gives one value.
  \<^item> \<open>Environments\<close>, \<open>Environment_Laws\<close> (\<open>environment.py\<close>, \<open>core/api/request.py\<close>): what the services of
    a unit of work share, as a store of environments, and the request that holds one.
  \<^item> \<open>Schema_Fields\<close>, \<open>Schema_Factory\<close>, \<open>Schema_Laws\<close>, \<open>Schema_Registry\<close> (\<open>core/schemas/\<close>): schemas built
    from the columns of a model, kept by key and named once. The pydantic types are the argument of
    \<open>validator_laws\<close>. The search of a free name has as many tries as there are names, which is enough.

  \<^bold>\<open>The interface of the routes.\<close>
  \<^item> \<open>Controllers\<close>, \<open>Controller_Laws\<close>, \<open>Controller_Import\<close> (\<open>core/api/controller.py\<close>, \<open>route.py\<close>):
    what the creation of a controller class registers, in which order, and when it raises. The
    view functions are shared by the classes; they are a store threaded through the imports.
  \<^item> \<open>Route_Decorators\<close> (\<open>route.py\<close>): the decorators of a view, the checks of their arguments and the
    responses they declare.
  \<^item> \<open>Api_Validation\<close>, \<open>Api_Validation_Laws\<close> (\<open>validation.py\<close>): the checks at start-up and what
    they guarantee of every later request.
  \<^item> \<open>Controller_Views\<close>, \<open>Controller_View_Laws\<close>, \<open>Controller_View_Errors\<close>: the views of the
    mixins over the operations of \<open>Service_Layer\<close>, and what a client is told on an error.
  \<^item> \<open>Response_Fields\<close>, \<open>Response_Laws\<close>, \<open>Response_Plan\<close> (\<open>core/schemas/utils.py\<close>,
    \<open>core/orm/queryset.py\<close>): from a response schema to the columns and prefetches of a query.
  \<^item> \<open>Query_Params\<close>, \<open>Query_Laws\<close> (\<open>ordering.py\<close>, \<open>filters.py\<close>, \<open>query_fields.py\<close>) and
    \<open>Pagination\<close>, \<open>Pagination_Laws\<close> (\<open>pagination.py\<close>): the parameters and the pages of a list.
  \<^item> \<open>List_Decorators\<close> (\<open>ordering.py\<close>, \<open>query_fields.py\<close>): the decorators that hand these parameters to a
    view; one stable sort per field is the lexicographic sort of a list.

  \<^bold>\<open>Tenants.\<close>
  \<^item> \<open>Tenancy\<close>, \<open>Tenancy_Laws\<close> (\<open>core/db/\<close>, \<open>core/middleware.py\<close>, \<open>core/celery/__init__.py\<close>): the
    selected database, the connections of one process as a state machine, the cache keys.
  \<^item> \<open>Tenants\<close> (\<open>saas/services.py\<close>, \<open>core/celery/scheduler.py\<close>): creation, migration and deletion
    of the databases, one scheduler per tenant.
  \<^item> \<open>Populate\<close> (\<open>populate.py\<close>, \<open>topological_sort.py\<close>): the order of the fixtures; the
    recursions end by the nodes left, and the order exists exactly when the map is acyclic.

  \<^bold>\<open>Applications.\<close>
  \<^item> \<open>Ledger\<close>, \<open>Ledger_Laws\<close>, \<open>Ledger_Totals\<close> (\<open>account/\<close>): six tables with their constraints, the
    rules of the services, what a deletion cascades to, and the identities between the totals.
  \<^item> \<open>Menu_Tree\<close>, \<open>Menu_Laws\<close>, \<open>Menu_Read\<close> (\<open>website/models/menu.py\<close>, \<open>MenuService\<close>,
    \<open>core/utils/tree.py\<close>): materialized paths. The recursive statement runs as many rounds as
    there are rows; the invariant that the rows form a forest makes that enough.
  \<^item> \<open>Theme\<close>, \<open>Theme_Laws\<close> (\<open>website/theme.py\<close>, \<open>website/services.py\<close>): themes, their options and
    the style block rendered from them.
  \<^item> \<open>Html_Widgets\<close>, \<open>Html_Laws\<close>, \<open>Html_Validator\<close>, \<open>Html_Expansion\<close> (\<open>core/html_widget.py\<close>,
    \<open>core/orm/validators.py\<close>): contents with widget markers, their expansion as a splice of the
    element tree, and the validator of what an author may write. Nodes are numbered once, as their
    identity, because a splice moves them. The value of a style is read with fuel for each
    character left (\<open>style_value_fuel\<close>: more changes nothing).
  \<^item> \<open>Site_Pages\<close>, \<open>Site_Laws\<close> (\<open>website/models/page.py\<close>, \<open>mixins.py\<close>, \<open>website.py\<close>,
    \<open>website/views/\<close>): pages and their publication, the settings of the site, the context and the
    template of a render, the home page and the page views. \<open>site_code_ok\<close> is what the shipped code
    has to provide: registered themes, the last template of the fallback, widgets whose markup parses.

  \<^bold>\<open>Files.\<close>
  \<^item> \<open>Media_Store\<close>, \<open>Media_Laws\<close> (\<open>base/files/storages.py\<close>, \<open>FileReference\<close>): files filed under the
    digest of their bytes, with a counter of the rows that name them; refined to a map from stored
    names to bytes under the law that digests of the files in play differ (\<open>digest_laws\<close>).
  \<^item> \<open>Media_Urls\<close>, \<open>Media_Url_Laws\<close>, \<open>Media_Access\<close> (\<open>core/utils/signing.py\<close>, \<open>urls.py\<close>,
    \<open>base/views/private_media.py\<close>): the URL of a private file, signed for one tenant and path and for
    a time. The signer is an argument (\<open>signer_laws\<close>, and \<open>unforged\<close> for the safety property).
  \<^item> \<open>Media_Rows\<close> (\<open>base/models/mixins.py\<close>): the files a row gives up when it is written or deleted.
  \<^item> \<open>Filestore_Clear\<close> (\<open>clear_filestore.py\<close>, \<open>base/tasks.py\<close>): the removal of the empty directories.

  \<^bold>\<open>Not modelled.\<close> The frameworks and the SQL they emit; the text of messages, documentation and
  OpenAPI; the Django admin; the settings and entry points; management
  commands other than \<open>populate\<close> and \<open>clear_filestore\<close>; the pydantic fields of \<open>core/schemas/relations.py\<close>,
  which no schema uses; the declarations of the routes, schemas and models that only name fields,
  those of the contacts and countries included; the helpers of the test suite; logging.
  Concurrency is modelled where the code handles it: the row lock of a refresh is the atomicity
  of a step, and the steps of different requests interleave. A queryset that Django would
  evaluate lazily is evaluated where the code first needs it.
\<close>

end
